(* ===== verification/Colab_Prelude.thy ===== *)
theory Colab_Prelude
  imports Complex_Main "HOL-Library.Signed_Division"
begin

text \<open>
  Shared vocabulary of the development: identifiers and time, the result type of fallible code,
  and the relational operations the server's SQL statements are written with (select, update,
  upsert on a table kept as a list of rows).

  \<^item> A Go \<open>uuid.UUID\<close> is a natural number and \<open>uuid.Nil\<close> is 0; an optional pointer is an
    \<open>option\<close>.
  \<^item> \<open>time.Time\<close> and \<open>time.Duration\<close> are integers counted in nanoseconds, as in Go.
  \<^item> A Go call that returns \<open>(value, error)\<close> is a value of \<open>'e + 'a\<close>: \<open>Inl\<close> the error.
\<close>

type_synonym uuid = nat
type_synonym time = int
type_synonym duration = int

abbreviation (input) uuid_nil :: uuid where "uuid_nil \<equiv> 0"

definition second :: duration where "second = 1000000000"
definition minute :: duration where "minute = 60 * second"
definition hour :: duration where "hour = 60 * minute"

named_theorems dur_simps \<open>durations as numbers\<close>
named_theorems row_simps \<open>reading back what a statement wrote\<close>
named_theorems keeps \<open>what an operation preserves\<close>

lemmas [dur_simps] = second_def minute_def hour_def

section \<open>Fallible steps\<close>

definition bindE :: "'e + 'a \<Rightarrow> ('a \<Rightarrow> 'e + 'b) \<Rightarrow> 'e + 'b" where
  "bindE m f = (case m of Inl e \<Rightarrow> Inl e | Inr a \<Rightarrow> f a)"

lemma bindE_simps [simp]:
  "bindE (Inl e) f = Inl e"
  "bindE (Inr a) f = f a"
  by (simp_all add: bindE_def)

lemma bindE_eq_Inr_iff: "bindE m f = Inr b \<longleftrightarrow> (\<exists>a. m = Inr a \<and> f a = Inr b)"
  by (cases m) auto

lemma bindE_eq_Inl_iff: "bindE m f = Inl e \<longleftrightarrow> m = Inl e \<or> (\<exists>a. m = Inr a \<and> f a = Inl e)"
  by (cases m) auto

lemma bindE_InrE [elim!]:
  assumes "bindE m f = Inr b"
  obtains a where "m = Inr a" and "f a = Inr b"
  using assms by (cases m) auto

lemma bindE_cong [fundef_cong]:
  "m = m' \<Longrightarrow> (\<And>a. m' = Inr a \<Longrightarrow> f a = f' a) \<Longrightarrow> bindE m f = bindE m' f'"
  by (cases m') auto

text \<open>\<open>\<not> isl m\<close>: the call succeeds.\<close>

lemma isl_bindE: "isl (bindE m f) \<longleftrightarrow> isl m \<or> isl (f (projr m))"
  by (cases m) auto

text \<open>A Go \<open>for\<close> loop whose body may fail stops at the first error.\<close>

fun foldE :: "('x \<Rightarrow> 's \<Rightarrow> 'e + 's) \<Rightarrow> 'x list \<Rightarrow> 's \<Rightarrow> 'e + 's" where
  "foldE f [] s = Inr s"
| "foldE f (x # xs) s = bindE (f x s) (foldE f xs)"

lemma foldE_invariant:
  assumes "foldE f xs s = Inr s'" and "P s"
    and "\<And>x s s'. x \<in> set xs \<Longrightarrow> P s \<Longrightarrow> f x s = Inr s' \<Longrightarrow> P s'"
  shows "P s'"
  using assms by (induction xs arbitrary: s) auto

lemma foldE_total:
  assumes "P s"
    and "\<And>x s. x \<in> set xs \<Longrightarrow> P s \<Longrightarrow> \<exists>s'. f x s = Inr s' \<and> P s'"
  shows "\<exists>s'. foldE f xs s = Inr s' \<and> P s'"
  using assms
proof (induction xs arbitrary: s)
  case Nil
  then show ?case by simp
next
  case (Cons x xs)
  then obtain s1 where "f x s = Inr s1" "P s1" by (meson list.set_intros(1))
  with Cons show ?case by (simp add: list.set_intros(2))
qed

section \<open>Lists\<close>

lemma enumerate_all: "(\<forall>x \<in> set (List.enumerate k xs). P x) \<longleftrightarrow> (\<forall>i < length xs. P (k + i, xs ! i))"
  by (induction xs arbitrary: k) (auto simp: All_less_Suc2)

lemma concat_map_empty: "concat (map f xs) = [] \<longleftrightarrow> (\<forall>x \<in> set xs. f x = [])"
  by (induction xs) auto

lemma distinct_if_once:
  "(\<And>x. x \<in> set xs \<Longrightarrow> length (filter (\<lambda>y. y = x) xs) = 1) \<Longrightarrow> distinct xs"
proof (induction xs)
  case Nil
  show ?case by simp
next
  case (Cons a xs)
  have a: "a \<notin> set xs" using Cons.prems [of a] by (auto simp: filter_empty_conv)
  have "length (filter (\<lambda>y. y = x) xs) = 1" if "x \<in> set xs" for x
    using Cons.prems [of x] that a by (cases "a = x") auto
  with Cons.IH a show ?case by simp
qed

lemma once_member: "length (filter (\<lambda>y. y = x) xs) = 1 \<Longrightarrow> x \<in> set xs"
  by (induction xs) (auto split: if_splits)

lemma map_insort_key: "map f (insort_key f x xs) = insort (f x) (map f xs)"
  by (induction xs) auto

lemma map_sort_key: "map f (sort_key f xs) = sort (map f xs)"
  by (induction xs) (simp_all add: map_insort_key)

lemma sort_enumerates:
  assumes "distinct xs" and "set xs = int ` {a..<b}"
  shows "sort xs = map int [a..<b]"
proof (rule sorted_distinct_set_unique)
  show "sorted (map int [a..<b])" by (simp add: sorted_map)
qed (use assms in \<open>auto simp: distinct_map\<close>)

section \<open>Tables\<close>

lemma length_filter_mono: "(\<And>x. x \<in> set xs \<Longrightarrow> P x \<Longrightarrow> Q x) \<Longrightarrow> length (filter P xs) \<le> length (filter Q xs)"
  by (induction xs) auto

definition tbl_get :: "('r \<Rightarrow> 'k) \<Rightarrow> 'r list \<Rightarrow> 'k \<Rightarrow> 'r option" where
  "tbl_get key t k = find (\<lambda>r. key r = k) t"

definition tbl_upd :: "('r \<Rightarrow> bool) \<Rightarrow> ('r \<Rightarrow> 'r) \<Rightarrow> 'r list \<Rightarrow> 'r list" where
  "tbl_upd p f t = map (\<lambda>r. if p r then f r else r) t"

definition tbl_modify :: "('r \<Rightarrow> 'k) \<Rightarrow> 'k \<Rightarrow> ('r \<Rightarrow> 'r) \<Rightarrow> 'r list \<Rightarrow> 'r list" where
  "tbl_modify key k = tbl_upd (\<lambda>r. key r = k)"

text \<open>\<open>INSERT ... ON CONFLICT (key) DO UPDATE\<close>: merge into the existing row or append.\<close>

definition tbl_upsert :: "('r \<Rightarrow> 'k) \<Rightarrow> 'r \<Rightarrow> ('r \<Rightarrow> 'r) \<Rightarrow> 'r list \<Rightarrow> 'r list" where
  "tbl_upsert key new merge t =
     (if \<exists>r \<in> set t. key r = key new then tbl_modify key (key new) merge t else t @ [new])"

lemma tbl_get_Nil [simp]: "tbl_get key [] k = None"
  by (simp add: tbl_get_def)

lemma tbl_get_Cons [simp]:
  "tbl_get key (r # t) k = (if key r = k then Some r else tbl_get key t k)"
  by (simp add: tbl_get_def)

lemma tbl_get_append:
  "tbl_get key (t @ u) k = (case tbl_get key t k of Some r \<Rightarrow> Some r | None \<Rightarrow> tbl_get key u k)"
  by (induction t) auto

lemma tbl_get_Some_key: "tbl_get key t k = Some r \<Longrightarrow> key r = k"
  by (induction t) (auto split: if_splits)

lemma tbl_get_Some_in: "tbl_get key t k = Some r \<Longrightarrow> r \<in> set t"
  by (induction t) (auto split: if_splits)

lemma tbl_get_None_iff: "tbl_get key t k = None \<longleftrightarrow> (\<forall>r \<in> set t. key r \<noteq> k)"
  by (induction t) auto

lemma tbl_modify_simps [simp]:
  "tbl_modify key k f [] = []"
  "tbl_modify key k f (r # t) = (if key r = k then f r else r) # tbl_modify key k f t"
  by (simp_all add: tbl_modify_def tbl_upd_def)

lemma set_tbl_modify: "set (tbl_modify key k f t) = (\<lambda>r. if key r = k then f r else r) ` set t"
  by (induction t) auto

lemma map_modify_same: "(\<And>r. g (f r) = g r) \<Longrightarrow> map g (tbl_modify key k f t) = map g t"
  by (induction t) auto

lemma tbl_get_upd:
  assumes "\<And>r. key (f r) = key r"
  shows "tbl_get key (tbl_upd p f t) k = map_option (\<lambda>r. if p r then f r else r) (tbl_get key t k)"
  using assms by (induction t) (auto simp: tbl_upd_def)

lemma tbl_get_modify:
  assumes "\<And>r. key (f r) = key r"
  shows "tbl_get key (tbl_modify key k f t) j = (if j = k then map_option f (tbl_get key t j) else tbl_get key t j)"
  using assms by (induction t) auto

lemma tbl_get_upsert:
  assumes "\<And>r. key (merge r) = key r"
  shows "tbl_get key (tbl_upsert key new merge t) j =
    (if j = key new
     then Some (case tbl_get key t j of Some r \<Rightarrow> merge r | None \<Rightarrow> new)
     else tbl_get key t j)"
proof (cases "tbl_get key t (key new)")
  case None
  then have "\<not> (\<exists>r \<in> set t. key r = key new)" by (simp add: tbl_get_None_iff)
  with None show ?thesis
    by (auto simp: tbl_upsert_def tbl_get_append split: option.splits)
next
  case (Some r)
  then have "\<exists>r \<in> set t. key r = key new"
    using tbl_get_Some_in tbl_get_Some_key by metis
  with Some assms show ?thesis
    by (auto simp: tbl_upsert_def tbl_get_modify)
qed

text \<open>
  The interface a component relies on when it reads and writes rows by key: what a lookup
  returns after a write. Every table of the store provides it.
\<close>

locale keyed_store =
  fixes lookup :: "'t \<Rightarrow> 'k \<Rightarrow> 'r option"
    and modify :: "'k \<Rightarrow> ('r \<Rightarrow> 'r) \<Rightarrow> 't \<Rightarrow> 't"
    and key :: "'r \<Rightarrow> 'k"
  assumes lookup_key: "lookup t k = Some r \<Longrightarrow> key r = k"
    and lookup_same: "(\<And>r. key (f r) = key r) \<Longrightarrow> lookup (modify k f t) k = map_option f (lookup t k)"
    and lookup_other: "(\<And>r. key (f r) = key r) \<Longrightarrow> j \<noteq> k \<Longrightarrow> lookup (modify k f t) j = lookup t j"
begin

lemma lookup_modify:
  "(\<And>r. key (f r) = key r) \<Longrightarrow>
   lookup (modify k f t) j = (if j = k then map_option f (lookup t j) else lookup t j)"
  by (simp add: lookup_same lookup_other)

lemma present_iff:
  "(\<And>r. key (f r) = key r) \<Longrightarrow> (lookup (modify k f t) j = None) = (lookup t j = None)"
  by (simp add: lookup_modify)

lemma modify_commutes:
  assumes "\<And>r. key (f r) = key r" and "\<And>r. key (g r) = key r" and "j \<noteq> k"
  shows "lookup (modify j f (modify k g t)) i = lookup (modify k g (modify j f t)) i"
  using assms by (simp add: lookup_modify)

lemma all_rows_modify:
  assumes "\<And>r. key (f r) = key r"
    and "\<And>k r. lookup t k = Some r \<Longrightarrow> P r"
    and "\<And>r. lookup t k = Some r \<Longrightarrow> P (f r)"
    and "lookup (modify k f t) j = Some r"
  shows "P r"
  using assms by (auto simp: lookup_modify split: if_splits)

end

lemma keyed_store_list: "keyed_store (tbl_get key) (tbl_modify key) key"
  by unfold_locales (auto simp: tbl_get_modify dest: tbl_get_Some_key)

section \<open>Transition systems with final states\<close>

text \<open>
  The contract of every status column: a set of allowed moves and a set of final statuses with
  no way out. \<open>path\<close> is a status history.
\<close>

locale status_machine =
  fixes can_move :: "'s \<Rightarrow> 's \<Rightarrow> bool"
    and final :: "'s \<Rightarrow> bool"
  assumes final_stuck: "final s \<Longrightarrow> \<not> can_move s t"
begin

lemma final_star: "can_move\<^sup>*\<^sup>* s t \<Longrightarrow> final s \<Longrightarrow> t = s"
  by (induction rule: rtranclp_induct) (auto simp: final_stuck)

lemma reaches_only_before_final:
  "can_move\<^sup>*\<^sup>* s t \<Longrightarrow> s \<noteq> t \<Longrightarrow> \<not> final s"
  using final_star by blast

end

section \<open>Transactions\<close>

text \<open>
  A handler runs in one database transaction: an error rolls everything back. \<open>in_tx\<close> is the
  state after the handler's \<open>inTx\<close>, and a sequence of requests is the fold of it.
\<close>

definition in_tx :: "('s \<Rightarrow> 'e + 's) \<Rightarrow> 's \<Rightarrow> 's" where
  "in_tx h s = (case h s of Inl _ \<Rightarrow> s | Inr s' \<Rightarrow> s')"

locale transactional =
  fixes handle :: "'req \<Rightarrow> 's \<Rightarrow> 'e + 's"
    and inv :: "'s \<Rightarrow> bool"
    and rel :: "'s \<Rightarrow> 's \<Rightarrow> bool"
  assumes handle_inv: "inv s \<Longrightarrow> handle r s = Inr s' \<Longrightarrow> inv s'"
    and handle_rel: "inv s \<Longrightarrow> handle r s = Inr s' \<Longrightarrow> rel s s'"
    and rel_refl: "rel s s"
    and rel_trans: "rel s t \<Longrightarrow> rel t u \<Longrightarrow> rel s u"
begin

lemma in_tx_inv: "inv s \<Longrightarrow> inv (in_tx (handle r) s)"
  by (auto simp: in_tx_def handle_inv split: sum.split)

lemma in_tx_rel: "inv s \<Longrightarrow> rel s (in_tx (handle r) s)"
  by (auto simp: in_tx_def handle_rel rel_refl split: sum.split)

lemma run_inv: "inv s \<Longrightarrow> inv (fold (\<lambda>r. in_tx (handle r)) rs s)"
  by (induction rs arbitrary: s) (auto simp: in_tx_inv)

lemma run_rel: "inv s \<Longrightarrow> rel s (fold (\<lambda>r. in_tx (handle r)) rs s)"
proof (induction rs arbitrary: s)
  case Nil
  show ?case by (simp add: rel_refl)
next
  case (Cons r rs)
  then have "rel (in_tx (handle r) s) (fold (\<lambda>r. in_tx (handle r)) rs (in_tx (handle r) s))"
    by (simp add: in_tx_inv)
  with Cons.prems show ?case by (auto intro: rel_trans in_tx_rel)
qed

end

section \<open>Stable facts\<close>

text \<open>
  A fact that every operation keeps except the ones that are meant to end it. Clients conclude
  that it survives any run without those operations.
\<close>

locale stable_fact =
  fixes step :: "'op \<Rightarrow> 's \<Rightarrow> 's"
    and fact :: "'s \<Rightarrow> bool"
    and ends :: "'op \<Rightarrow> bool"
  assumes kept: "fact s \<Longrightarrow> \<not> ends op \<Longrightarrow> fact (step op s)"
begin

lemma run_kept: "fact s \<Longrightarrow> \<not> list_ex ends ops \<Longrightarrow> fact (fold step ops s)"
  by (induction ops arbitrary: s) (auto simp: kept)

end

end
