(* ===== verification/Task_Machine.thy ===== *)
theory Task_Machine
  imports Colab_Prelude
begin

text \<open>
  The task state machine of \<open>server/internal/tasks/machine.go\<close> (PRD FR-7.1), the failure kinds
  and timings of \<open>contracts/protocol.go\<close>, and the derived agent status of
  \<open>server/internal/tasks/derive.go\<close> (FR-1.3).
\<close>

section \<open>Failure kinds and timings\<close>

text \<open>
  \<open>FailureKind\<close> is a Go string; the ten named values are constructors and any other string that
  reaches the server is \<open>FailUnlisted\<close>.
\<close>

datatype failure_kind =
    FailAuth | FailQuota | FailRateLimited | FailConfig | FailNetwork | FailRuntimeOffline
  | FailStall | FailTimeout | FailCancelled | FailOther | FailUnlisted string

fun retryable :: "failure_kind \<Rightarrow> bool" where
  "retryable FailRateLimited = True"
| "retryable FailNetwork = True"
| "retryable FailRuntimeOffline = True"
| "retryable FailStall = True"
| "retryable FailTimeout = True"
| "retryable FailOther = True"
| "retryable _ = False"

fun fk_text :: "failure_kind \<Rightarrow> string" where
  "fk_text FailAuth = ''auth''"
| "fk_text FailQuota = ''quota''"
| "fk_text FailRateLimited = ''rate_limited''"
| "fk_text FailConfig = ''config''"
| "fk_text FailNetwork = ''network''"
| "fk_text FailRuntimeOffline = ''runtime_offline''"
| "fk_text FailStall = ''stall''"
| "fk_text FailTimeout = ''timeout''"
| "fk_text FailCancelled = ''cancelled''"
| "fk_text FailOther = ''other''"
| "fk_text (FailUnlisted s) = s"

definition heartbeat_expiry :: duration where "heartbeat_expiry = 3 * minute"
definition dispatched_timeout :: duration where "dispatched_timeout = 5 * minute"
definition stall_timeout :: duration where "stall_timeout = 3 * minute"
definition stall_timeout_hermes :: duration where "stall_timeout_hermes = 10 * minute"
definition cancel_drain_wait :: duration where "cancel_drain_wait = 30 * second"

lemmas [dur_simps] = heartbeat_expiry_def dispatched_timeout_def stall_timeout_def
  stall_timeout_hermes_def cancel_drain_wait_def

definition stall_timeout_for :: "string \<Rightarrow> duration" where
  "stall_timeout_for kind = (if kind = ''hermes'' then stall_timeout_hermes else stall_timeout)"

section \<open>The machine\<close>

datatype task_status =
    Deferred | Queued | Dispatched | Preparing | Running | WaitingHuman | Paused
  | Completed | Failed | Cancelled

fun transitions :: "task_status \<Rightarrow> task_status list" where
  "transitions Deferred = [Queued, Cancelled]"
| "transitions Queued = [Dispatched, Cancelled, Failed]"
| "transitions Dispatched = [Preparing, Running, Queued, Failed, Cancelled, Paused]"
| "transitions Preparing = [Running, Queued, Failed, Cancelled, Paused]"
| "transitions Running = [WaitingHuman, Completed, Failed, Cancelled, Paused, Queued]"
| "transitions WaitingHuman = [Queued]"
| "transitions Paused = [Queued, Cancelled]"
| "transitions _ = []"

definition can_transition :: "task_status \<Rightarrow> task_status \<Rightarrow> bool" where
  "can_transition from to = List.member (transitions from) to"

definition terminal :: "task_status \<Rightarrow> bool" where
  "terminal s \<longleftrightarrow> s = Completed \<or> s = Failed \<or> s = Cancelled"

text \<open>The text of a status (\<open>Status\<close> is a string type; \<open>Finish\<close> returns it to the daemon).\<close>

fun status_text :: "task_status \<Rightarrow> string" where
  "status_text Deferred = ''deferred''"
| "status_text Queued = ''queued''"
| "status_text Dispatched = ''dispatched''"
| "status_text Preparing = ''preparing''"
| "status_text Running = ''running''"
| "status_text WaitingHuman = ''waiting_human''"
| "status_text Paused = ''paused''"
| "status_text Completed = ''completed''"
| "status_text Failed = ''failed''"
| "status_text Cancelled = ''cancelled''"

lemma can_transition_simps [simp]:
  "can_transition Deferred t \<longleftrightarrow> t = Queued \<or> t = Cancelled"
  "can_transition Queued t \<longleftrightarrow> t = Dispatched \<or> t = Cancelled \<or> t = Failed"
  "can_transition Dispatched t \<longleftrightarrow> t \<in> {Preparing, Running, Queued, Failed, Cancelled, Paused}"
  "can_transition Preparing t \<longleftrightarrow> t \<in> {Running, Queued, Failed, Cancelled, Paused}"
  "can_transition Running t \<longleftrightarrow> t \<in> {WaitingHuman, Completed, Failed, Cancelled, Paused, Queued}"
  "can_transition WaitingHuman t \<longleftrightarrow> t = Queued"
  "can_transition Paused t \<longleftrightarrow> t = Queued \<or> t = Cancelled"
  "\<not> can_transition Completed t" "\<not> can_transition Failed t" "\<not> can_transition Cancelled t"
  by (auto simp: can_transition_def)

lemma terminal_simps [simp]:
  "terminal Completed" "terminal Failed" "terminal Cancelled"
  "\<not> terminal Deferred" "\<not> terminal Queued" "\<not> terminal Dispatched" "\<not> terminal Preparing"
  "\<not> terminal Running" "\<not> terminal WaitingHuman" "\<not> terminal Paused"
  by (simp_all add: terminal_def)

interpretation task_sm: status_machine can_transition terminal
  by unfold_locales (auto simp: terminal_def)

lemma live_status_has_exit: "\<not> terminal s \<Longrightarrow> can_transition s Queued \<or> can_transition s Cancelled"
  by (cases s) auto

text \<open>
  The statuses in the order an attempt goes through them; every allowed move but the way back to
  \<open>Queued\<close> goes up.
\<close>

fun status_pos :: "task_status \<Rightarrow> nat" where
  "status_pos Deferred = 0"
| "status_pos Queued = 1"
| "status_pos Dispatched = 2"
| "status_pos Preparing = 3"
| "status_pos Running = 4"
| "status_pos WaitingHuman = 5"
| "status_pos Paused = 6"
| "status_pos Completed = 7"
| "status_pos Failed = 8"
| "status_pos Cancelled = 9"

lemma status_pos_inj: "status_pos s = status_pos t \<Longrightarrow> s = t"
  by (cases s; cases t) simp_all

instantiation task_status :: linorder
begin

definition less_eq_task_status :: "task_status \<Rightarrow> task_status \<Rightarrow> bool" where
  "less_eq_task_status s t \<longleftrightarrow> status_pos s \<le> status_pos t"

definition less_task_status :: "task_status \<Rightarrow> task_status \<Rightarrow> bool" where
  "less_task_status s t \<longleftrightarrow> status_pos s < status_pos t"

instance
  by intro_classes (auto simp: less_eq_task_status_def less_task_status_def dest: status_pos_inj)

end

lemma moves_go_up: "can_transition s t \<Longrightarrow> t \<noteq> Queued \<Longrightarrow> s < t"
  by (cases s) (auto simp: less_task_status_def)

section \<open>Derived agent status\<close>

datatype respond_to = RtOwner | RtAllowlist | RtWorkspace | RtNobody

datatype agent_status =
  StatusIdle | StatusWorking | StatusWaitingHuman | StatusError | StatusOffline | StatusDisabled

record derived =
  d_respond_to :: respond_to
  d_archived :: bool
  d_runtime_offline :: bool
  d_running :: int
  d_waiting_human :: int
  d_blocked :: int
  d_paused_budget :: int
  d_last_failure_kind :: "failure_kind option"
  d_retry_in_flight :: bool

fun unrunnable :: "failure_kind option \<Rightarrow> bool" where
  "unrunnable (Some FailAuth) = True"
| "unrunnable (Some FailQuota) = True"
| "unrunnable (Some FailConfig) = True"
| "unrunnable _ = False"

definition derive_agent_status :: "derived \<Rightarrow> agent_status" where
  "derive_agent_status d =
     (if d_respond_to d = RtNobody \<or> d_archived d then StatusDisabled
      else if d_runtime_offline d then StatusOffline
      else if unrunnable (d_last_failure_kind d) \<and> \<not> d_retry_in_flight d then StatusError
      else if d_running d > 0 then StatusWorking
      else if d_waiting_human d > 0 then StatusWaitingHuman
      else StatusIdle)"

text \<open>A failure kind the ladder shows as \<open>error\<close> is one the retry rule gives up on.\<close>

lemma unrunnable_not_retryable: "unrunnable (Some k) \<Longrightarrow> \<not> retryable k"
  by (cases k) auto

end
