(* ===== verification/Attempt_Plan.thy ===== *)
theory Attempt_Plan
  imports Task_Machine
begin

text \<open>
  The pure planners of \<open>server/internal/tasks\<close>: the next attempt (\<open>resume.go\<close>), the profile
  fallback (\<open>fallback.go\<close>), the stale sweep (\<open>sweep.go\<close>), the session gate (\<open>gate.go\<close>), and
  cancellation, the kill switch and the trigger permission (\<open>cancel.go\<close>). Sentences shown to a
  person are constructors of \<open>notice\<close>.
\<close>

datatype notice =
    NoteHumanStopped | NoteRoomStopped | NoteOwnerStopped | NoteEmptyTurn | NoteCancelRaced
  | NoteNobody | NoteNotAllowlisted | NoteNotOwner | NoteNone

section \<open>The next attempt (resume.go)\<close>

datatype cause =
    CauseHitlAnswer | CauseBudgetApproved | CauseRetryNetwork | CauseRetryAuth
  | CauseRequeueSweep | CauseRestart

datatype prompt_section = SecBrief | SecHistory | SecDecisionLog | SecPostedMessages | SecWorkdirCheck

definition default_history_limit :: int where "default_history_limit = 50"

record attempt_input =
  ai_task :: uuid
  ai_attempt :: int
  ai_max_attempts :: int
  ai_trigger_message :: uuid
  ai_new_task :: uuid
  ai_new_trigger_message :: uuid
  ai_session_ref :: string
  ai_ref_runtime_kind :: string
  ai_profile_runtime_kind :: string
  ai_resume_rejected :: bool
  ai_cause :: cause
  ai_posted_messages :: "uuid list"
  ai_prev_workdir :: string
  ai_prev_phase :: string
  ai_history_total :: int
  ai_history_limit :: int
  ai_new_instruction :: string
  ai_alternate_profile :: bool

record attempt_plan =
  ap_task :: uuid
  ap_attempt :: int
  ap_restarted_from :: uuid
  ap_trigger_message :: uuid
  ap_task_status :: task_status
  ap_lane_status :: string
  ap_workdir :: string
  ap_workdir_created :: bool
  ap_resume_ref :: string
  ap_resume_attempted :: bool
  ap_cold_start :: bool
  ap_has_resumed_section :: bool
  ap_posted_messages :: "uuid list"
  ap_workdir_check :: bool
  ap_cold_sections :: "prompt_section list"
  ap_prompt_contains :: string
  ap_history_included :: int
  ap_history_total :: int
  ap_history_truncated :: bool
  ap_retries :: int
  ap_director_notified :: bool
  ap_handed_to_another_machine :: bool
  ap_agent_status :: agent_status

fun failure_for :: "cause \<Rightarrow> failure_kind option" where
  "failure_for CauseRetryAuth = Some FailAuth"
| "failure_for CauseRetryNetwork = Some FailNetwork"
| "failure_for CauseRequeueSweep = Some FailRuntimeOffline"
| "failure_for _ = None"

definition base_derived :: "respond_to \<Rightarrow> derived" where
  "base_derived rt = \<lparr>d_respond_to = rt, d_archived = False, d_runtime_offline = False, d_running = 0,
     d_waiting_human = 0, d_blocked = 0, d_paused_budget = 0, d_last_failure_kind = None,
     d_retry_in_flight = False\<rparr>"

definition usable_ref :: "attempt_input \<Rightarrow> bool" where
  "usable_ref i \<longleftrightarrow> ai_session_ref i \<noteq> [] \<and>
     (ai_ref_runtime_kind i = [] \<or> ai_ref_runtime_kind i = ai_profile_runtime_kind i)"

text \<open>The part of \<open>PlanAttempt\<close> every cause shares: workdir, resume or cold start, history.\<close>

definition plan_base :: "attempt_input \<Rightarrow> attempt_plan" where
  "plan_base i =
     (let cold = (\<not> usable_ref i \<or> ai_resume_rejected i);
          limit = (if ai_history_limit i \<le> 0 then default_history_limit else ai_history_limit i);
          included = (if ai_history_total i > limit then limit else ai_history_total i)
      in \<lparr>ap_task = ai_task i, ap_attempt = ai_attempt i + 1, ap_restarted_from = uuid_nil,
          ap_trigger_message = ai_trigger_message i, ap_task_status = Queued,
          ap_lane_status = ''queued'', ap_workdir = ai_prev_workdir i,
          ap_workdir_created = (ai_prev_workdir i = []),
          ap_resume_ref = (if cold then [] else ai_session_ref i),
          ap_resume_attempted = usable_ref i,
          ap_cold_start = cold,
          ap_has_resumed_section = False,
          ap_posted_messages = ai_posted_messages i,
          ap_workdir_check = False,
          ap_cold_sections = (if cold then [SecBrief, SecHistory, SecDecisionLog, SecPostedMessages, SecWorkdirCheck] else []),
          ap_prompt_contains = [],
          ap_history_included = included, ap_history_total = ai_history_total i,
          ap_history_truncated = (ai_history_total i > included),
          ap_retries = 0, ap_director_notified = False, ap_handed_to_another_machine = False,
          ap_agent_status = StatusIdle\<rparr>)"

definition plan_restart :: "attempt_input \<Rightarrow> int \<Rightarrow> attempt_plan \<Rightarrow> attempt_plan" where
  "plan_restart i max_attempts p =
     p\<lparr>ap_task := ai_new_task i, ap_attempt := 1, ap_restarted_from := ai_task i,
       ap_trigger_message := ai_new_trigger_message i, ap_prompt_contains := ai_new_instruction i,
       ap_posted_messages := [], ap_has_resumed_section := False, ap_lane_status := ''running'',
       ap_workdir_check := False, ap_retries := max_attempts - 1,
       ap_agent_status := derive_agent_status ((base_derived RtOwner)\<lparr>d_retry_in_flight := True\<rparr>)\<rparr>"

definition plan_failed :: "attempt_input \<Rightarrow> attempt_plan \<Rightarrow> attempt_plan" where
  "plan_failed i p = p\<lparr>ap_retries := 0, ap_task_status := Failed, ap_lane_status := ''failed'',
     ap_attempt := ai_attempt i\<rparr>"

definition plan_retries :: "attempt_input \<Rightarrow> int \<Rightarrow> attempt_plan \<Rightarrow> attempt_plan" where
  "plan_retries i max_attempts p =
     (case failure_for (ai_cause i) of
        None \<Rightarrow> p\<lparr>ap_retries := max 0 (max_attempts - ap_attempt p + 1)\<rparr>
      | Some kind \<Rightarrow>
          if \<not> retryable kind then plan_failed i p
          else if ai_attempt i \<ge> max_attempts then plan_failed i p
          else p\<lparr>ap_retries := max_attempts - ai_attempt i\<rparr>)"

definition plan_attempt :: "attempt_input \<Rightarrow> attempt_plan" where
  "plan_attempt i =
     (let max_attempts = (if ai_max_attempts i \<le> 0 then 3 else ai_max_attempts i);
          p = plan_base i
      in if ai_cause i = CauseRestart then plan_restart i max_attempts p
         else
           let resumed = (ap_attempt p \<ge> 2);
               p = p\<lparr>ap_has_resumed_section := resumed, ap_workdir_check := (resumed \<or> ap_cold_start p)\<rparr>;
               p = plan_retries i max_attempts p;
               notify = (case failure_for (ai_cause i) of None \<Rightarrow> False
                         | Some kind \<Rightarrow> retryable kind \<and> \<not> ai_alternate_profile i);
               d = (if ap_task_status p = Failed
                    then (base_derived RtOwner)\<lparr>d_last_failure_kind := failure_for (ai_cause i)\<rparr>
                    else (base_derived RtOwner)\<lparr>d_retry_in_flight := True\<rparr>)
           in p\<lparr>ap_director_notified := notify, ap_agent_status := derive_agent_status d\<rparr>)"

fun cause_of_failure :: "failure_kind \<Rightarrow> cause" where
  "cause_of_failure reason =
     (if \<not> retryable reason then CauseRetryAuth
      else if reason \<in> {FailRuntimeOffline, FailTimeout, FailStall} then CauseRequeueSweep
      else CauseRetryNetwork)"

declare cause_of_failure.simps [simp del]

section \<open>The runtime session reference\<close>

record session_ref =
  ref_runtime_kind :: string
  ref_session_id :: string
  ref_cwd :: string

datatype session_ref_error = InvalidSessionRef

definition validate_session_ref :: "session_ref option \<Rightarrow> session_ref_error + session_ref option" where
  "validate_session_ref r =
     (case r of None \<Rightarrow> Inr None
      | Some ref \<Rightarrow> if ref_runtime_kind ref = [] \<or> ref_session_id ref = [] then Inl InvalidSessionRef
                    else Inr (Some ref))"

text \<open>The stored column is the JSON the ref was marshalled to; \<open>None\<close> is NULL or unreadable.\<close>

definition plan_bundle_resume :: "session_ref option \<Rightarrow> string \<Rightarrow> session_ref option" where
  "plan_bundle_resume stored profile_kind =
     (case stored of None \<Rightarrow> None
      | Some ref \<Rightarrow>
          if ref_session_id ref = [] then None
          else if profile_kind \<noteq> [] \<and> ref_runtime_kind ref \<noteq> [] \<and> ref_runtime_kind ref \<noteq> profile_kind
          then None else Some ref)"

section \<open>Profile fallback (fallback.go)\<close>

record fallback_decision =
  fd_profile :: uuid
  fd_switched :: bool
  fd_clear_resume :: bool
  fd_notify_director :: bool

definition plan_profile_fallback ::
    "uuid option \<Rightarrow> uuid option \<Rightarrow> string \<Rightarrow> string \<Rightarrow> failure_kind \<Rightarrow> fallback_decision" where
  "plan_profile_fallback current fallback current_kind fallback_kind reason =
     (let d = \<lparr>fd_profile = (case current of None \<Rightarrow> uuid_nil | Some p \<Rightarrow> p),
               fd_switched = False, fd_clear_resume = False, fd_notify_director = False\<rparr>
      in if \<not> retryable reason then d
         else case fallback of
                None \<Rightarrow> d\<lparr>fd_notify_director := True\<rparr>
              | Some f \<Rightarrow> d\<lparr>fd_profile := f, fd_switched := True,
                            fd_clear_resume := (current_kind \<noteq> fallback_kind)\<rparr>)"

section \<open>The stale sweep (sweep.go)\<close>

record sweep_outcome =
  so_task_status :: task_status
  so_failure_kind :: failure_kind
  so_attempt :: int
  so_runtime_online :: bool
  so_token_revoked :: bool

definition plan_sweep :: "task_status \<Rightarrow> duration \<Rightarrow> int \<Rightarrow> int \<Rightarrow> sweep_outcome option" where
  "plan_sweep initial idle attempt max_attempts =
     (if initial = Dispatched \<or> initial = Preparing then
        (if idle < dispatched_timeout then None
         else Some \<lparr>so_task_status = Failed, so_failure_kind = FailTimeout, so_attempt = attempt,
                    so_runtime_online = True, so_token_revoked = True\<rparr>)
      else if initial = Running then
        (if idle < heartbeat_expiry then None
         else Some \<lparr>so_task_status = (if attempt < max_attempts then Queued else Failed),
                    so_failure_kind = FailRuntimeOffline,
                    so_attempt = (if attempt < max_attempts then attempt + 1 else attempt),
                    so_runtime_online = False, so_token_revoked = True\<rparr>)
      else None)"

section \<open>The session gate (gate.go)\<close>

record dispatch_outcome =
  do_dispatched :: int
  do_order :: "uuid list"
  do_turn_kept :: bool
  do_turn_kill :: bool
  do_task_status :: "task_status option"
  do_session_state :: string
  do_pause_reason :: string
  do_summary_messages :: int

definition plan_dispatch :: "string \<Rightarrow> string \<Rightarrow> uuid list \<Rightarrow> bool \<Rightarrow> dispatch_outcome" where
  "plan_dispatch session_state pause_reason queued running =
     (let o0 = \<lparr>do_dispatched = 0, do_order = [], do_turn_kept = False, do_turn_kill = False,
                do_task_status = None, do_session_state = session_state,
                do_pause_reason = pause_reason, do_summary_messages = 0\<rparr>
      in if session_state = ''active'' then
           o0\<lparr>do_order := queued, do_dispatched := int (length queued)\<rparr>
         else if session_state = ''paused'' then
           (if running then
              (if pause_reason = ''budget'' \<or> pause_reason = ''time''
               then o0\<lparr>do_turn_kill := True, do_task_status := Some Paused\<rparr>
               else o0\<lparr>do_turn_kept := True\<rparr>)
            else o0)
         else if session_state = ''completing'' then
           o0\<lparr>do_session_state := ''completed'', do_summary_messages := 1\<rparr>
         else o0)"

section \<open>Cancellation, kill switch, trigger permission (cancel.go)\<close>

record cancel_result =
  cr_lane_status :: string
  cr_task_status :: task_status
  cr_failure_kind :: failure_kind
  cr_feed_note :: notice
  cr_new_tasks :: int
  cr_requeue :: bool

definition plan_cancel_result :: "string \<Rightarrow> cancel_result" where
  "plan_cancel_result new_instruction =
     \<lparr>cr_lane_status = ''failed'', cr_task_status = Cancelled, cr_failure_kind = FailCancelled,
      cr_feed_note = NoteHumanStopped, cr_new_tasks = (if new_instruction \<noteq> [] then 1 else 0),
      cr_requeue = False\<rparr>"

record cancel_command =
  cc_after_current_tool :: bool
  cc_reason :: string
  cc_hold_for :: duration

definition plan_cancel_command :: "string \<Rightarrow> cancel_command" where
  "plan_cancel_command reason =
     \<lparr>cc_after_current_tool = True, cc_reason = reason, cc_hold_for = cancel_drain_wait\<rparr>"

record cancel_permission =
  cp_allowed :: bool
  cp_http_status :: int
  cp_button_enabled :: bool
  cp_available_from :: duration

definition may_cancel :: "uuid \<Rightarrow> uuid \<Rightarrow> uuid option \<Rightarrow> cancel_permission" where
  "may_cancel actor director deputy =
     (if actor = director \<or> deputy = Some actor
      then \<lparr>cp_allowed = True, cp_http_status = 200, cp_button_enabled = True, cp_available_from = 0\<rparr>
      else \<lparr>cp_allowed = False, cp_http_status = 403, cp_button_enabled = False, cp_available_from = 0\<rparr>)"

record kill_state =
  ks_running :: int
  ks_queued :: int
  ks_waiting_human :: int
  ks_workdirs :: int

record kill_effect =
  ke_cancel_running :: int
  ke_cancel_queued :: int
  ke_keep_hitl_open :: int
  ke_preserve_workdirs :: int
  ke_agent_status :: agent_status
  ke_feed_note :: notice
  ke_invite_allowed :: bool

definition plan_kill_switch :: "kill_state \<Rightarrow> kill_effect" where
  "plan_kill_switch s =
     \<lparr>ke_cancel_running = ks_running s, ke_cancel_queued = ks_queued s,
      ke_keep_hitl_open = ks_waiting_human s, ke_preserve_workdirs = ks_workdirs s,
      ke_agent_status = derive_agent_status (base_derived RtNobody),
      ke_feed_note = NoteOwnerStopped, ke_invite_allowed = False\<rparr>"

record trigger_input =
  ti_respond_to :: respond_to
  ti_owner :: uuid
  ti_allowlist :: "uuid list"
  ti_in_session :: bool
  ti_participant :: bool
  ti_originator :: uuid

record trigger_verdict =
  tv_allowed :: bool
  tv_judged_on :: uuid
  tv_reason :: notice

definition may_trigger :: "trigger_input \<Rightarrow> trigger_verdict" where
  "may_trigger i =
     (let verdict = (\<lambda>ok why. \<lparr>tv_allowed = ok, tv_judged_on = ti_originator i,
                               tv_reason = (if ok then NoteNone else why)\<rparr>)
      in if ti_respond_to i = RtNobody then verdict False NoteNobody
         else if ti_in_session i \<and> ti_participant i then verdict True NoteNone
         else case ti_respond_to i of
                RtWorkspace \<Rightarrow> verdict True NoteNone
              | RtAllowlist \<Rightarrow>
                  verdict (ti_originator i = ti_owner i \<or> List.member (ti_allowlist i) (ti_originator i))
                          NoteNotAllowlisted
              | _ \<Rightarrow> verdict (ti_originator i = ti_owner i) NoteNotOwner)"

section \<open>Correctness of the plans\<close>

fun_cases failure_for_SomeE: "failure_for c = Some k"

lemma usable_ref_kind:
  "usable_ref i \<Longrightarrow> ai_ref_runtime_kind i \<noteq> [] \<Longrightarrow> ai_ref_runtime_kind i = ai_profile_runtime_kind i"
  by (simp add: usable_ref_def)

lemma plan_retries_status:
  assumes "ap_task_status p = Queued" and "ap_attempt p = ai_attempt i + 1"
  shows "ap_task_status (plan_retries i m p) =
           (case failure_for (ai_cause i) of None \<Rightarrow> Queued
            | Some k \<Rightarrow> if retryable k \<and> ai_attempt i < m then Queued else Failed)"
    and "ap_attempt (plan_retries i m p) =
           (if ap_task_status (plan_retries i m p) = Queued then ai_attempt i + 1 else ai_attempt i)"
  using assms by (auto simp: plan_retries_def plan_failed_def split: option.split)

definition effective_max :: "attempt_input \<Rightarrow> int" where
  "effective_max i = (if ai_max_attempts i \<le> 0 then 3 else ai_max_attempts i)"

lemma plan_attempt_status:
  assumes "ai_cause i \<noteq> CauseRestart"
  shows "ap_task_status (plan_attempt i) =
           (case failure_for (ai_cause i) of None \<Rightarrow> Queued
            | Some k \<Rightarrow> if retryable k \<and> ai_attempt i < effective_max i then Queued else Failed)"
    and "ap_attempt (plan_attempt i) =
           (if ap_task_status (plan_attempt i) = Queued then ai_attempt i + 1 else ai_attempt i)"
  using assms plan_retries_status [of "(plan_base i)\<lparr>ap_has_resumed_section := b, ap_workdir_check := c\<rparr>" i "effective_max i" for b c]
  by (simp_all add: plan_attempt_def plan_base_def Let_def effective_max_def)

lemma plan_retries_keeps:
  "ap_workdir (plan_retries i m p) = ap_workdir p" "ap_posted_messages (plan_retries i m p) = ap_posted_messages p"
  "ap_resume_ref (plan_retries i m p) = ap_resume_ref p" "ap_trigger_message (plan_retries i m p) = ap_trigger_message p"
  "ap_task (plan_retries i m p) = ap_task p" "ap_cold_start (plan_retries i m p) = ap_cold_start p"
  "ap_workdir_check (plan_retries i m p) = ap_workdir_check p"
  by (simp_all add: plan_retries_def plan_failed_def split: option.split)

text \<open>
  Automatic retries are bounded and never lose work. Whatever failed, a machine-caused
  re-entry is queued again only for a retryable failure below the attempt limit, in which case the
  attempt rises by exactly one and stays within the limit; otherwise the task fails in the attempt
  it was in. A person's answer always runs again. In every case the task, its workdir and the
  messages it already posted are carried over, and a cold start or a second attempt is told to
  check the workdir.
\<close>

theorem plan_attempt_retry_bound:
  assumes "ai_cause i \<noteq> CauseRestart"
  shows "(ap_task_status (plan_attempt i) = Queued) =
           (case failure_for (ai_cause i) of None \<Rightarrow> True
            | Some k \<Rightarrow> retryable k \<and> ai_attempt i < effective_max i)
     \<and> ap_task_status (plan_attempt i) \<in> {Queued, Failed}
     \<and> ap_attempt (plan_attempt i) = ai_attempt i + (if ap_task_status (plan_attempt i) = Queued then 1 else 0)
     \<and> (failure_for (ai_cause i) \<noteq> None \<and> ai_attempt i \<le> effective_max i \<longrightarrow>
           ap_attempt (plan_attempt i) \<le> effective_max i)
     \<and> ap_task (plan_attempt i) = ai_task i \<and> ap_workdir (plan_attempt i) = ai_prev_workdir i
     \<and> ap_posted_messages (plan_attempt i) = ai_posted_messages i
     \<and> (ap_cold_start (plan_attempt i) \<or> ai_attempt i \<ge> 1 \<longrightarrow> ap_workdir_check (plan_attempt i))"
proof -
  have "ap_task (plan_attempt i) = ai_task i \<and> ap_workdir (plan_attempt i) = ai_prev_workdir i
         \<and> ap_posted_messages (plan_attempt i) = ai_posted_messages i"
    and "ap_cold_start (plan_attempt i) \<or> ai_attempt i \<ge> 1 \<longrightarrow> ap_workdir_check (plan_attempt i)"
    using assms by (auto simp: plan_attempt_def Let_def plan_retries_keeps plan_base_def)
  moreover have "failure_for (ai_cause i) \<noteq> None \<and> ai_attempt i \<le> effective_max i \<longrightarrow>
           ap_attempt (plan_attempt i) \<le> effective_max i"
    using plan_attempt_status [OF assms] by (auto split: option.splits)
  ultimately show ?thesis
    using plan_attempt_status [OF assms] by (auto split: option.splits)
qed

definition network_retry :: attempt_input where
  "network_retry = \<lparr>ai_task = 7, ai_attempt = 2, ai_max_attempts = 3, ai_trigger_message = 4, ai_new_task = 0,
     ai_new_trigger_message = 0, ai_session_ref = ''s'', ai_ref_runtime_kind = ''codex'',
     ai_profile_runtime_kind = ''codex'', ai_resume_rejected = False, ai_cause = CauseRetryNetwork,
     ai_posted_messages = [5], ai_prev_workdir = ''/w'', ai_prev_phase = [], ai_history_total = 3,
     ai_history_limit = 0, ai_new_instruction = [], ai_alternate_profile = False\<rparr>"

theorem plan_attempt_retry_bound_witness:
  "ap_attempt (plan_attempt network_retry) = 3 \<and> ap_attempt (plan_attempt network_retry) \<le> effective_max network_retry"
proof -
  have c: "ai_cause network_retry \<noteq> CauseRestart" by (simp add: network_retry_def)
  have "ap_task_status (plan_attempt network_retry) = Queued"
    using plan_attempt_retry_bound [OF c] by (simp add: network_retry_def effective_max_def)
  then show ?thesis
    using plan_attempt_retry_bound [OF c] by (simp add: network_retry_def effective_max_def)
qed

text \<open>
  The heartbeat sweep and the attempt plan are one rule: an expired running task goes where
  \<open>plan_attempt\<close> sends the sweep's own re-entry, same status and same attempt, and a task stuck
  before it ran fails where it stands.
\<close>

theorem sweep_agrees_with_plan:
  assumes "plan_sweep st idle (ai_attempt i) (ai_max_attempts i) = Some o1"
    and "ai_cause i = CauseRequeueSweep" and "ai_max_attempts i > 0"
  shows "(if st = Running
          then so_task_status o1 = ap_task_status (plan_attempt i) \<and> so_attempt o1 = ap_attempt (plan_attempt i)
               \<and> so_failure_kind o1 = FailRuntimeOffline \<and> heartbeat_expiry \<le> idle
          else st \<in> {Dispatched, Preparing} \<and> so_task_status o1 = Failed \<and> so_attempt o1 = ai_attempt i
               \<and> so_failure_kind o1 = FailTimeout \<and> dispatched_timeout \<le> idle)
         \<and> so_token_revoked o1 \<and> can_transition st (so_task_status o1)"
proof -
  have c: "ai_cause i \<noteq> CauseRestart" using assms(2) by simp
  note plan = plan_attempt_status [OF c]
  from assms(2,3) have "effective_max i = ai_max_attempts i" "failure_for (ai_cause i) = Some FailRuntimeOffline"
    by (simp_all add: effective_max_def)
  with assms(1) plan show ?thesis
    by (auto simp: plan_sweep_def split: if_splits)
qed

theorem sweep_agrees_with_plan_witness:
  "ap_task_status (plan_attempt (network_retry\<lparr>ai_cause := CauseRequeueSweep\<rparr>)) = Queued"
  using sweep_agrees_with_plan [of Running heartbeat_expiry "network_retry\<lparr>ai_cause := CauseRequeueSweep\<rparr>"
      "\<lparr>so_task_status = Queued, so_failure_kind = FailRuntimeOffline, so_attempt = 3, so_runtime_online = False,
        so_token_revoked = True\<rparr>"]
  by (simp add: plan_sweep_def network_retry_def)

text \<open>
  A runtime session is never resumed on another runtime. A reference is stored only when it
  names its runtime and session; the next bundle carries it exactly when the profile's runtime is
  the one that made it; and a fallback to a profile of another runtime clears it.
\<close>

theorem resume_stays_on_runtime:
  assumes "validate_session_ref (Some ref) = Inr stored" and "kind \<noteq> []"
  shows "plan_bundle_resume stored kind = (if ref_runtime_kind ref = kind then Some ref else None)
     \<and> (ref_runtime_kind ref = kind \<and> fd_switched (plan_profile_fallback cur fb kind fb_kind reason) \<longrightarrow>
         fd_clear_resume (plan_profile_fallback cur fb kind fb_kind reason) = (plan_bundle_resume stored fb_kind = None \<or> fb_kind = []))"
  using assms
  by (auto simp: validate_session_ref_def plan_bundle_resume_def plan_profile_fallback_def Let_def
      split: if_splits option.splits)

theorem resume_stays_on_runtime_witness:
  "plan_bundle_resume (Some \<lparr>ref_runtime_kind = ''codex'', ref_session_id = ''s'', ref_cwd = []\<rparr>) ''hermes'' = None"
  using resume_stays_on_runtime [of "\<lparr>ref_runtime_kind = ''codex'', ref_session_id = ''s'', ref_cwd = []\<rparr>" _ "''hermes''"]
  by (simp add: validate_session_ref_def)

text \<open>
  Who may wake an agent, exactly: nobody when it is switched off; otherwise any member
  of a room it takes part in, anyone in the workspace, the allowlist and the owner, or the owner
  alone. The person judged is always the originator of the chain, never the agent in between.
\<close>

theorem may_trigger_exact:
  "tv_allowed (may_trigger i) =
     (ti_respond_to i \<noteq> RtNobody \<and>
      ((ti_in_session i \<and> ti_participant i) \<or> ti_respond_to i = RtWorkspace \<or> ti_originator i = ti_owner i
       \<or> (ti_respond_to i = RtAllowlist \<and> List.member (ti_allowlist i) (ti_originator i))))
   \<and> tv_judged_on (may_trigger i) = ti_originator i"
  by (cases "ti_respond_to i") (auto simp: may_trigger_def Let_def)

end
