(* ===== verification/Lane_State.thy ===== *)
theory Lane_State
  imports Colab_Prelude
begin

text \<open>
  The pure lane layer, \<open>server/internal/lanestate/lanestate.go\<close>: which lane a trigger belongs to
  (PRD FR-3.3, lane rules 1 to 4), the re-entry machine (FR-6.2) and the workdir layout (FR-6.1).
\<close>

datatype lane_status =
    LaneQueued | LaneRunning | LaneWaitingHuman | LaneBlocked | LanePaused | LaneDone | LaneFailed

definition lane_terminal :: "lane_status \<Rightarrow> bool" where
  "lane_terminal s \<longleftrightarrow> s = LaneDone \<or> s = LaneFailed \<or> s = LaneBlocked"

definition reentrant :: "lane_status \<Rightarrow> bool" where
  "reentrant s \<longleftrightarrow> s = LaneDone \<or> s = LaneBlocked"

record candidate =
  cand_id :: uuid
  cand_agent :: uuid
  cand_status :: lane_status
  cand_reentry_count :: int
  cand_last_used :: time

record lane_request =
  lr_agent :: uuid
  lr_existing :: "candidate list"
  lr_thread_root_lane :: uuid
  lr_via_delegate :: bool
  lr_delegator_task :: uuid
  lr_top_level_mention :: bool
  lr_force_new_lane :: bool

record lane_decision =
  ld_rule :: nat
  ld_lane :: uuid
  ld_created :: bool
  ld_reentry :: bool
  ld_from_status :: "lane_status option"
  ld_reentry_count :: int
  ld_status :: lane_status
  ld_delegated_from :: uuid

definition no_decision :: lane_decision where
  "no_decision = \<lparr>ld_rule = 0, ld_lane = uuid_nil, ld_created = False, ld_reentry = False,
     ld_from_status = None, ld_reentry_count = 0, ld_status = LaneQueued, ld_delegated_from = uuid_nil\<rparr>"

definition find_cand :: "candidate list \<Rightarrow> uuid \<Rightarrow> candidate option" where
  "find_cand cs i = find (\<lambda>c. cand_id c = i) cs"

definition most_recent_step :: "uuid \<Rightarrow> candidate \<Rightarrow> candidate option \<Rightarrow> candidate option" where
  "most_recent_step agent c best =
     (if cand_agent c \<noteq> agent then best
      else case best of
             None \<Rightarrow> Some c
           | Some b \<Rightarrow> if cand_last_used c < cand_last_used b then best else Some c)"

definition most_recent :: "candidate list \<Rightarrow> uuid \<Rightarrow> candidate option" where
  "most_recent cs agent = fold (most_recent_step agent) cs None"

record reentry =
  re_allowed :: bool
  re_new_lane :: bool
  re_status :: lane_status
  re_count :: int

definition reenter :: "lane_status \<Rightarrow> int \<Rightarrow> reentry" where
  "reenter from count =
     (if reentrant from then \<lparr>re_allowed = True, re_new_lane = False, re_status = LaneRunning, re_count = count + 1\<rparr>
      else if from = LaneFailed then \<lparr>re_allowed = False, re_new_lane = True, re_status = LaneQueued, re_count = 0\<rparr>
      else \<lparr>re_allowed = False, re_new_lane = False, re_status = from, re_count = count\<rparr>)"

definition rule_one :: "lane_request \<Rightarrow> lane_decision" where
  "rule_one req =
     (let d = no_decision\<lparr>ld_rule := 1, ld_lane := lr_thread_root_lane req, ld_status := LaneRunning\<rparr>
      in case find_cand (lr_existing req) (lr_thread_root_lane req) of
           None \<Rightarrow> d
         | Some c \<Rightarrow>
             let d = d\<lparr>ld_from_status := Some (cand_status c), ld_reentry_count := cand_reentry_count c\<rparr>
             in if reentrant (cand_status c)
                then d\<lparr>ld_reentry := True, ld_reentry_count := cand_reentry_count c + 1\<rparr>
                else d\<lparr>ld_status := cand_status c\<rparr>)"

definition rule_four :: lane_decision where
  "rule_four = no_decision\<lparr>ld_rule := 4, ld_created := True, ld_status := LaneQueued\<rparr>"

definition rule_three :: "candidate \<Rightarrow> lane_decision option" where
  "rule_three c =
     (let r = reenter (cand_status c) (cand_reentry_count c)
      in if re_new_lane r then None
         else let d = no_decision\<lparr>ld_rule := 3, ld_lane := cand_id c, ld_from_status := Some (cand_status c),
                                  ld_reentry_count := cand_reentry_count c, ld_status := cand_status c\<rparr>
              in Some (if re_allowed r
                       then d\<lparr>ld_reentry := True, ld_reentry_count := re_count r, ld_status := re_status r\<rparr>
                       else d))"

definition resolve :: "lane_request \<Rightarrow> lane_decision" where
  "resolve req =
     (if lr_thread_root_lane req \<noteq> uuid_nil then rule_one req
      else if lr_via_delegate req then
        no_decision\<lparr>ld_rule := 2, ld_created := True, ld_status := LaneQueued,
                    ld_delegated_from := lr_delegator_task req\<rparr>
      else if lr_top_level_mention req \<and> \<not> lr_force_new_lane req then
        (case most_recent (lr_existing req) (lr_agent req) of
           None \<Rightarrow> rule_four
         | Some c \<Rightarrow> (case rule_three c of None \<Rightarrow> rule_four | Some d \<Rightarrow> d))
      else rule_four)"

record layout =
  lay_workdirs :: nat
  lay_runs :: nat

definition live_lanes :: "candidate list \<Rightarrow> candidate list" where
  "live_lanes ls = filter (\<lambda>l. cand_status l \<noteq> LaneWaitingHuman \<and> \<not> lane_terminal (cand_status l)) ls"

definition layout_for :: "string \<Rightarrow> candidate list \<Rightarrow> layout" where
  "layout_for isolation ls =
     (let agents = length (remdups (map cand_agent ls)); live = length (live_lanes ls)
      in if isolation = ''worktree'' then \<lparr>lay_workdirs = agents, lay_runs = min agents live\<rparr>
         else \<lparr>lay_workdirs = length ls, lay_runs = live\<rparr>)"

section \<open>The most recent lane\<close>

text \<open>
  \<open>most_recent\<close> keeps the last of the agent's lanes with the greatest \<open>LastUsed\<close>: the abstract
  choice is written as a predicate on a split of the list.
\<close>

definition latest_at :: "candidate list \<Rightarrow> uuid \<Rightarrow> candidate \<Rightarrow> bool" where
  "latest_at cs agent c \<longleftrightarrow>
     (\<exists>us vs. cs = us @ c # vs \<and> cand_agent c = agent
       \<and> (\<forall>u \<in> set us. cand_agent u = agent \<longrightarrow> cand_last_used u \<le> cand_last_used c)
       \<and> (\<forall>v \<in> set vs. cand_agent v = agent \<longrightarrow> cand_last_used v < cand_last_used c))"

lemma most_recent_snoc: "most_recent (cs @ [c]) agent = most_recent_step agent c (most_recent cs agent)"
  by (simp add: most_recent_def)

lemma most_recent_Nil [simp]: "most_recent [] agent = None"
  by (simp add: most_recent_def)

lemma most_recent_None_iff: "most_recent cs agent = None \<longleftrightarrow> (\<forall>c \<in> set cs. cand_agent c \<noteq> agent)"
  by (induction cs rule: rev_induct)
     (auto simp: most_recent_snoc most_recent_step_def split: option.splits if_splits)

lemma latest_at_snoc_skip:
  assumes "latest_at cs agent b" and "cand_agent c = agent \<Longrightarrow> cand_last_used c < cand_last_used b"
  shows "latest_at (cs @ [c]) agent b"
proof -
  obtain us vs where "cs = us @ b # vs" "cand_agent b = agent"
    "\<forall>u \<in> set us. cand_agent u = agent \<longrightarrow> cand_last_used u \<le> cand_last_used b"
    "\<forall>v \<in> set vs. cand_agent v = agent \<longrightarrow> cand_last_used v < cand_last_used b"
    using assms(1) unfolding latest_at_def by blast
  with assms(2) have "cs @ [c] = us @ b # (vs @ [c])"
    and "\<forall>v \<in> set (vs @ [c]). cand_agent v = agent \<longrightarrow> cand_last_used v < cand_last_used b"
    by auto
  with \<open>cand_agent b = agent\<close> \<open>\<forall>u \<in> set us. _ u\<close> show ?thesis unfolding latest_at_def by blast
qed

lemma latest_at_bound:
  assumes "latest_at cs agent b" and "x \<in> set cs" and "cand_agent x = agent"
  shows "cand_last_used x \<le> cand_last_used b"
  using assms unfolding latest_at_def by fastforce

lemma latest_at_snoc_take:
  assumes "cand_agent c = agent"
    and "\<And>x. x \<in> set cs \<Longrightarrow> cand_agent x = agent \<Longrightarrow> cand_last_used x \<le> cand_last_used c"
  shows "latest_at (cs @ [c]) agent c"
  unfolding latest_at_def by (rule exI [of _ cs], rule exI [of _ "[]"]) (use assms in auto)

lemma most_recent_latest: "most_recent cs agent = Some c \<Longrightarrow> latest_at cs agent c"
proof (induction cs arbitrary: c rule: rev_induct)
  case Nil
  then show ?case by simp
next
  case (snoc x cs)
  show ?case
  proof (cases "most_recent cs agent")
    case None
    with snoc.prems have "c = x" "cand_agent x = agent"
      by (auto simp: most_recent_snoc most_recent_step_def split: if_splits)
    moreover have "\<forall>y \<in> set cs. cand_agent y \<noteq> agent" using None by (simp add: most_recent_None_iff)
    ultimately show ?thesis by (auto intro: latest_at_snoc_take)
  next
    case (Some b)
    then have b: "latest_at cs agent b" by (rule snoc.IH)
    show ?thesis
    proof (cases "cand_agent x = agent \<and> \<not> cand_last_used x < cand_last_used b")
      case True
      with Some snoc.prems have "c = x" by (auto simp: most_recent_snoc most_recent_step_def)
      with True latest_at_bound [OF b] show ?thesis by (fastforce intro: latest_at_snoc_take)
    next
      case False
      with Some snoc.prems have "c = b"
        by (auto simp: most_recent_snoc most_recent_step_def split: if_splits)
      with b False show ?thesis by (auto intro: latest_at_snoc_skip)
    qed
  qed
qed

lemma latest_at_member: "latest_at cs agent c \<Longrightarrow> c \<in> set cs \<and> cand_agent c = agent"
  unfolding latest_at_def by auto

section \<open>Properties of lane resolution\<close>

lemma reenter_new_lane_iff: "re_new_lane (reenter s n) \<longleftrightarrow> s = LaneFailed"
  by (cases s) (auto simp: reenter_def reentrant_def)

lemma reenter_allowed_iff: "re_allowed (reenter s n) \<longleftrightarrow> reentrant s"
  by (simp add: reenter_def)

lemma rule_three_None_iff: "rule_three c = None \<longleftrightarrow> cand_status c = LaneFailed"
  by (simp add: rule_three_def Let_def reenter_new_lane_iff)

lemma rule_three_Some:
  "rule_three c = Some d \<Longrightarrow> ld_rule d = 3 \<and> ld_lane d = cand_id c \<and> \<not> ld_created d
     \<and> ld_from_status d = Some (cand_status c) \<and> cand_status c \<noteq> LaneFailed
     \<and> ld_reentry d = reentrant (cand_status c)
     \<and> ld_reentry_count d = cand_reentry_count c + (if reentrant (cand_status c) then 1 else 0)
     \<and> ld_status d = (if reentrant (cand_status c) then LaneRunning else cand_status c)"
  by (auto simp: rule_three_def Let_def reenter_def no_decision_def reentrant_def split: if_splits)

text \<open>
  A top-level mention is delivered to the agent's most recently used lane, and to no other:
  it is re-entered (counted, set running) exactly when that lane is done or blocked, joined as it
  is when it is live, and a new lane is forked exactly when the agent has none or the latest one
  failed.
\<close>

theorem top_level_mention_lane:
  assumes "lr_thread_root_lane req = uuid_nil" and "\<not> lr_via_delegate req"
    and "lr_top_level_mention req" and "\<not> lr_force_new_lane req"
  shows "(\<exists>c. latest_at (lr_existing req) (lr_agent req) c \<and> cand_status c \<noteq> LaneFailed
            \<and> ld_rule (resolve req) = 3 \<and> \<not> ld_created (resolve req)
            \<and> ld_lane (resolve req) = cand_id c
            \<and> ld_reentry (resolve req) = reentrant (cand_status c)
            \<and> ld_status (resolve req) = (if reentrant (cand_status c) then LaneRunning else cand_status c)
            \<and> ld_reentry_count (resolve req)
                = cand_reentry_count c + (if reentrant (cand_status c) then 1 else 0))
       \<or> (ld_rule (resolve req) = 4 \<and> ld_created (resolve req) \<and> ld_status (resolve req) = LaneQueued
            \<and> ((\<forall>c \<in> set (lr_existing req). cand_agent c \<noteq> lr_agent req)
               \<or> (\<exists>c. latest_at (lr_existing req) (lr_agent req) c \<and> cand_status c = LaneFailed)))"
proof (cases "most_recent (lr_existing req) (lr_agent req)")
  case None
  then have "resolve req = rule_four" using assms by (simp add: resolve_def)
  moreover have "\<forall>c \<in> set (lr_existing req). cand_agent c \<noteq> lr_agent req"
    using None by (simp add: most_recent_None_iff)
  ultimately show ?thesis by (simp add: rule_four_def no_decision_def)
next
  case recent: (Some c)
  then have c: "latest_at (lr_existing req) (lr_agent req) c" by (rule most_recent_latest)
  show ?thesis
  proof (cases "rule_three c")
    case None
    then have "cand_status c = LaneFailed" by (simp add: rule_three_None_iff)
    moreover have "resolve req = rule_four" using None recent assms by (simp add: resolve_def)
    ultimately show ?thesis using c by (auto simp: rule_four_def no_decision_def)
  next
    case (Some d)
    then have "resolve req = d" using recent assms by (simp add: resolve_def)
    with rule_three_Some [OF Some] c show ?thesis by metis
  qed
qed

definition mention_sample :: lane_request where
  "mention_sample = \<lparr>lr_agent = 7,
     lr_existing = [\<lparr>cand_id = 1, cand_agent = 7, cand_status = LaneFailed, cand_reentry_count = 0, cand_last_used = 5\<rparr>,
                    \<lparr>cand_id = 2, cand_agent = 7, cand_status = LaneDone, cand_reentry_count = 3, cand_last_used = 9\<rparr>,
                    \<lparr>cand_id = 3, cand_agent = 8, cand_status = LaneRunning, cand_reentry_count = 0, cand_last_used = 11\<rparr>],
     lr_thread_root_lane = uuid_nil, lr_via_delegate = False, lr_delegator_task = 0,
     lr_top_level_mention = True, lr_force_new_lane = False\<rparr>"

theorem top_level_mention_lane_witness:
  "ld_lane (resolve mention_sample) = 2 \<and> ld_reentry (resolve mention_sample)
   \<and> (ld_rule (resolve mention_sample) = 3 \<or> ld_rule (resolve mention_sample) = 4)"
proof -
  have h: "lr_thread_root_lane mention_sample = uuid_nil" "\<not> lr_via_delegate mention_sample"
    "lr_top_level_mention mention_sample" "\<not> lr_force_new_lane mention_sample"
    by (simp_all add: mention_sample_def)
  have "ld_lane (resolve mention_sample) = 2 \<and> ld_reentry (resolve mention_sample)"
    by (simp add: mention_sample_def resolve_def most_recent_def most_recent_step_def rule_three_def
        reenter_def reentrant_def no_decision_def Let_def)
  with top_level_mention_lane [OF h] show ?thesis by blast
qed

text \<open>
  Under \<open>worktree\<close> isolation the layout never runs more lanes at once than there are
  workdirs, nor more than are live; under any other isolation each lane has its own workdir.
\<close>

theorem layout_runs_fit_workdirs:
  "lay_runs (layout_for isolation ls) \<le> lay_workdirs (layout_for isolation ls)
   \<and> lay_runs (layout_for isolation ls) \<le> length (live_lanes ls)
   \<and> lay_workdirs (layout_for isolation ls) \<le> length ls"
proof -
  have "length (live_lanes ls) \<le> length ls" by (simp add: live_lanes_def)
  moreover have "length (remdups (map cand_agent ls)) \<le> length ls"
    by (metis length_map length_remdups_leq)
  ultimately show ?thesis by (simp add: layout_for_def Let_def)
qed

end
