(* ===== verification/Router_Rules.thy ===== *)
theory Router_Rules
  imports Colab_Prelude
begin

text \<open>
  Message routing, \<open>server/internal/router/rules.go\<close> and \<open>fallback.go\<close> (PRD FR-3.3 rules 1 to 8,
  FR-3.4): mention parsing, the trigger decision, the deferred assignee fallback and the per-lane
  merge of arriving messages. Text is a list of characters (bytes). \<open>uuid.Parse\<close> of the package
  google/uuid is the parameter \<open>pu\<close>, its \<open>String\<close> method the parameter \<open>ut\<close>.
\<close>

section \<open>Mentions\<close>

datatype mention_kind = MentionAgent | MentionUser | MentionAll

record mention =
  m_kind :: mention_kind
  m_id :: string
  m_name :: string

text \<open>\<open>\s\<close> of the regular expression: tab, newline, form feed, carriage return, space.\<close>

definition is_re_space :: "char \<Rightarrow> bool" where
  "is_re_space c \<longleftrightarrow> c = CHR 0x09 \<or> c = CHR 0x0A \<or> c = CHR 0x0C \<or> c = CHR 0x0D \<or> c = CHR '' ''"

fun strip_prefix :: "string \<Rightarrow> string \<Rightarrow> string option" where
  "strip_prefix [] s = Some s"
| "strip_prefix (p # ps) [] = None"
| "strip_prefix (p # ps) (c # s) = (if p = c then strip_prefix ps s else None)"

definition strip_kind :: "string \<Rightarrow> (mention_kind \<times> string) option" where
  "strip_kind s =
     (case strip_prefix ''agent'' s of Some r \<Rightarrow> Some (MentionAgent, r)
      | None \<Rightarrow> case strip_prefix ''user'' s of Some r \<Rightarrow> Some (MentionUser, r)
      | None \<Rightarrow> case strip_prefix ''all'' s of Some r \<Rightarrow> Some (MentionAll, r)
      | None \<Rightarrow> None)"

definition is_id_char :: "char \<Rightarrow> bool" where
  "is_id_char c \<longleftrightarrow> c \<noteq> CHR '')'' \<and> \<not> is_re_space c"

text \<open>
  One match of \<open>\[@([^\]]*)\]\(mention://(agent|user|all)/([^)\s]+)\)\<close> at the start of the text:
  every repetition is over a class that excludes the character after it, so the match is unique.
\<close>

definition match_mention :: "string \<Rightarrow> (mention \<times> string) option" where
  "match_mention s =
     (case strip_prefix ''[@'' s of None \<Rightarrow> None
      | Some s1 \<Rightarrow>
        let name = takeWhile (\<lambda>c. c \<noteq> CHR '']'') s1; s2 = dropWhile (\<lambda>c. c \<noteq> CHR '']'') s1 in
        case strip_prefix ''](mention://'' s2 of None \<Rightarrow> None
        | Some s3 \<Rightarrow>
          case strip_kind s3 of None \<Rightarrow> None
          | Some (k, s4) \<Rightarrow>
            case strip_prefix ''/'' s4 of None \<Rightarrow> None
            | Some s5 \<Rightarrow>
              let i = takeWhile is_id_char s5; s6 = dropWhile is_id_char s5 in
              if i = [] then None
              else case strip_prefix '')'' s6 of None \<Rightarrow> None
                   | Some rest \<Rightarrow> Some (\<lparr>m_kind = k, m_id = i, m_name = name\<rparr>, rest))"

lemma strip_prefix_eq_Some_iff: "strip_prefix p s = Some r \<longleftrightarrow> s = p @ r"
  by (induction p s rule: strip_prefix.induct) auto

lemma strip_kind_length: "strip_kind s = Some (k, r) \<Longrightarrow> length r < length s"
  by (auto simp: strip_kind_def strip_prefix_eq_Some_iff split: option.splits)

lemma match_mention_length:
  assumes "match_mention s = Some (m, rest)"
  shows "length rest < length s"
proof -
  obtain s1 s3 k s4 s5 where
      s1: "s = ''[@'' @ s1" and s3: "dropWhile (\<lambda>c. c \<noteq> CHR '']'') s1 = ''](mention://'' @ s3"
    and s4: "strip_kind s3 = Some (k, s4)" and s5: "s4 = ''/'' @ s5"
    and s6: "dropWhile is_id_char s5 = '')'' @ rest"
    using assms by (auto simp: match_mention_def Let_def strip_prefix_eq_Some_iff split: option.splits prod.splits if_splits)
  have "length (dropWhile (\<lambda>c. c \<noteq> CHR '']'') s1) \<le> length s1"
    and "length (dropWhile is_id_char s5) \<le> length s5"
    by (simp_all add: length_dropWhile_le)
  with s1 s3 strip_kind_length [OF s4] s5 s6 show ?thesis by simp
qed

text \<open>\<open>FindAllStringSubmatch\<close>: leftmost matches, continuing after each one.\<close>

function parse_mentions :: "string \<Rightarrow> mention list" where
  "parse_mentions s =
     (case match_mention s of
        Some (m, rest) \<Rightarrow> m # parse_mentions rest
      | None \<Rightarrow> (case s of [] \<Rightarrow> [] | _ # s' \<Rightarrow> parse_mentions s'))"
  by pat_completeness auto
termination
  by (relation "measure length") (auto dest: match_mention_length)

declare parse_mentions.simps [simp del]

definition mention_link :: "(uuid \<Rightarrow> string) \<Rightarrow> string \<Rightarrow> uuid \<Rightarrow> string" where
  "mention_link ut name i = ''[@'' @ name @ ''](mention://agent/'' @ ut i @ '')''"

definition user_mention_link :: "(uuid \<Rightarrow> string) \<Rightarrow> string \<Rightarrow> uuid \<Rightarrow> string" where
  "user_mention_link ut name i = ''[@'' @ name @ ''](mention://user/'' @ ut i @ '')''"

section \<open>The decision\<close>

datatype author_type = ByUser | ByAgent | BySystem

record participant =
  p_agent :: uuid
  p_name :: string
  p_disabled :: bool

record route_input =
  ri_content :: string
  ri_author_type :: author_type
  ri_participants :: "participant list"
  ri_author_agent :: "uuid option"
  ri_assignee :: "uuid option"
  ri_suppress :: "uuid list"
  ri_reply_to_agent :: "uuid option"
  ri_thread_owner :: "uuid option"
  ri_lane_delegator :: "uuid option"
  ri_join_group_fired :: bool
  ri_mentions :: "mention list option"

record trigger =
  tr_agent :: uuid
  tr_rule :: nat

datatype warning = WNotParticipant uuid string | WAgentDisabled uuid string

record decision =
  dec_mentions :: "mention list"
  dec_triggers :: "trigger list"
  dec_warnings :: "warning list"

definition is_trim_space :: "char \<Rightarrow> bool" where
  "is_trim_space c \<longleftrightarrow> c = CHR '' '' \<or> c = CHR 0x09 \<or> c = CHR 0x0D \<or> c = CHR 0x0A"

definition has_prefix :: "string \<Rightarrow> string \<Rightarrow> bool" where
  "has_prefix p s \<longleftrightarrow> take (length p) s = p"

definition is_note :: "string \<Rightarrow> bool" where
  "is_note content =
     (let c = dropWhile is_trim_space content
      in c = ''/note'' \<or> has_prefix ''/note '' c \<or> has_prefix (''/note'' @ [CHR 0x0A]) c
         \<or> has_prefix (''/note'' @ [CHR 0x09]) c)"

text \<open>\<open>participants[p.AgentID] = p\<close>: a later row of the same agent replaces an earlier one.\<close>

definition participant_of :: "route_input \<Rightarrow> uuid \<Rightarrow> participant option" where
  "participant_of i a = find (\<lambda>p. p_agent p = a) (rev (ri_participants i))"

definition suppressed :: "route_input \<Rightarrow> uuid \<Rightarrow> bool" where
  "suppressed i a \<longleftrightarrow> List.member (ri_suppress i) a \<or> (ri_lane_delegator i = Some a \<and> \<not> ri_join_group_fired i)"

definition reply_target :: "route_input \<Rightarrow> uuid option" where
  "reply_target i = (case ri_reply_to_agent i of Some a \<Rightarrow> Some a | None \<Rightarrow> ri_thread_owner i)"

definition disabled_warning :: "participant \<Rightarrow> warning" where
  "disabled_warning p = WAgentDisabled (p_agent p) (p_name p)"

text \<open>Rule 2, one mention: the state is the agents seen, the triggers and the warnings.\<close>

definition rule_two_step ::
    "(string \<Rightarrow> uuid option) \<Rightarrow> route_input \<Rightarrow> mention \<Rightarrow>
     uuid list \<times> trigger list \<times> warning list \<Rightarrow> uuid list \<times> trigger list \<times> warning list" where
  "rule_two_step pu i m st =
     (case st of (seen, trs, ws) \<Rightarrow>
        if m_kind m \<noteq> MentionAgent then st
        else case pu (m_id m) of None \<Rightarrow> st
        | Some a \<Rightarrow>
            if List.member seen a then st
            else case participant_of i a of
              None \<Rightarrow> (a # seen, trs, ws @ [WNotParticipant a (if m_name m \<noteq> [] then m_name m else m_id m)])
            | Some p \<Rightarrow>
                if p_disabled p then (a # seen, trs, ws @ [disabled_warning p])
                else if suppressed i a then (a # seen, trs, ws)
                else (a # seen, trs @ [\<lparr>tr_agent = a, tr_rule = 2\<rparr>], ws))"

definition rule_two ::
    "(string \<Rightarrow> uuid option) \<Rightarrow> route_input \<Rightarrow> mention list \<Rightarrow> uuid list \<times> trigger list \<times> warning list" where
  "rule_two pu i ms = fold (rule_two_step pu i) ms ([], [], [])"

definition rule_six :: "route_input \<Rightarrow> trigger list \<times> warning list" where
  "rule_six i =
     (case ri_assignee i of None \<Rightarrow> ([], [])
      | Some a \<Rightarrow>
          if suppressed i a then ([], [])
          else case participant_of i a of None \<Rightarrow> ([], [])
               | Some p \<Rightarrow> if p_disabled p then ([], [disabled_warning p])
                           else ([\<lparr>tr_agent = a, tr_rule = 6\<rparr>], []))"

definition rule_five_six :: "route_input \<Rightarrow> trigger list \<times> warning list" where
  "rule_five_six i =
     (case reply_target i of None \<Rightarrow> rule_six i
      | Some a \<Rightarrow>
          (case participant_of i a of None \<Rightarrow> rule_six i
           | Some p \<Rightarrow>
               if suppressed i a then rule_six i
               else if p_disabled p then ([], [disabled_warning p])
               else ([\<lparr>tr_agent = a, tr_rule = 5\<rparr>], [])))"

definition mentions_of :: "route_input \<Rightarrow> mention list" where
  "mentions_of i = (case ri_mentions i of None \<Rightarrow> parse_mentions (ri_content i) | Some ms \<Rightarrow> ms)"

definition decide :: "(string \<Rightarrow> uuid option) \<Rightarrow> route_input \<Rightarrow> decision" where
  "decide pu i =
     (let ms = mentions_of i; d = (\<lambda>trs ws. \<lparr>dec_mentions = ms, dec_triggers = trs, dec_warnings = ws\<rparr>)
      in if is_note (ri_content i) then d [] []
         else case rule_two pu i ms of (seen, trs, ws) \<Rightarrow>
           if \<exists>m \<in> set ms. m_kind m = MentionAgent then d trs ws
           else if ms \<noteq> [] then d trs ws
           else if ri_author_type i \<noteq> ByUser then d trs ws
           else case rule_five_six i of (trs', ws') \<Rightarrow> d (trs @ trs') (ws @ ws'))"

section \<open>The deferred assignee and the per-lane merge (fallback.go)\<close>

definition fallback_delay :: duration where "fallback_delay = 5 * minute"

record fallback =
  fb_agent :: uuid
  fb_delay :: duration
  fb_due_at :: time

fun plan_fallback_triggers :: "trigger list \<Rightarrow> uuid \<Rightarrow> time \<Rightarrow> fallback option" where
  "plan_fallback_triggers [] assignee now = None"
| "plan_fallback_triggers (t # ts) assignee now =
     (if tr_rule t \<noteq> 5 \<or> tr_agent t = assignee then plan_fallback_triggers ts assignee now
      else Some \<lparr>fb_agent = assignee, fb_delay = fallback_delay, fb_due_at = now + fallback_delay\<rparr>)"

definition plan_fallback :: "decision \<Rightarrow> uuid option \<Rightarrow> time \<Rightarrow> fallback option" where
  "plan_fallback d assignee now =
     (case assignee of None \<Rightarrow> None | Some a \<Rightarrow> plan_fallback_triggers (dec_triggers d) a now)"

record fallback_outcome =
  fo_cancelled :: bool
  fo_promoted :: bool

definition resolve_fallback :: "fallback option \<Rightarrow> duration \<Rightarrow> bool \<Rightarrow> fallback_outcome" where
  "resolve_fallback f elapsed replied =
     (case f of None \<Rightarrow> \<lparr>fo_cancelled = False, fo_promoted = False\<rparr>
      | Some fb \<Rightarrow>
          if replied \<and> elapsed < fb_delay fb then \<lparr>fo_cancelled = True, fo_promoted = False\<rparr>
          else if \<not> replied \<and> elapsed \<ge> fb_delay fb then \<lparr>fo_cancelled = False, fo_promoted = True\<rparr>
          else \<lparr>fo_cancelled = False, fo_promoted = False\<rparr>)"

record arrival =
  ar_cancelled_running_turn :: bool
  ar_queued_tasks :: nat
  ar_coalesced :: "uuid list"
  ar_lane :: uuid

definition plan_arrival :: "uuid \<Rightarrow> string \<Rightarrow> uuid list \<Rightarrow> uuid list \<Rightarrow> arrival" where
  "plan_arrival lane lane_state queued arriving =
     \<lparr>ar_cancelled_running_turn = False,
      ar_queued_tasks = (if queued @ arriving \<noteq> [] then 1 else 0),
      ar_coalesced = queued @ arriving, ar_lane = lane\<rparr>"

section \<open>Properties of routing\<close>

lemma match_mention_link:
  assumes "CHR '']'' \<notin> set name" and "ut i \<noteq> []" and "\<forall>c \<in> set (ut i). is_id_char c"
  shows "match_mention (mention_link ut name i @ rest)
    = Some (\<lparr>m_kind = MentionAgent, m_id = ut i, m_name = name\<rparr>, rest)"
proof -
  have bracket: "takeWhile (\<lambda>c. c \<noteq> CHR '']'') (name @ CHR '']'' # xs) = name"
    "dropWhile (\<lambda>c. c \<noteq> CHR '']'') (name @ CHR '']'' # xs) = CHR '']'' # xs" for xs
    using assms(1) by (auto simp: takeWhile_append dropWhile_append)
  have paren: "takeWhile is_id_char (ut i @ CHR '')'' # xs) = ut i"
    "dropWhile is_id_char (ut i @ CHR '')'' # xs) = CHR '')'' # xs" for xs
    using assms(3) by (auto simp: takeWhile_append dropWhile_append is_id_char_def)
  show ?thesis using assms(2)
    by (simp add: match_mention_def mention_link_def bracket paren strip_kind_def)
qed

text \<open>
  The roster link the server renders for an agent is read back as exactly one mention of that
  agent with its display name, and parsing goes on with the text after it. The name must be free
  of a closing bracket; the UUID text is non-empty and has no space or closing parenthesis.
\<close>

theorem mention_link_roundtrip:
  assumes "CHR '']'' \<notin> set name" and "ut i \<noteq> []" and "\<forall>c \<in> set (ut i). is_id_char c"
  shows "parse_mentions (mention_link ut name i @ rest)
    = \<lparr>m_kind = MentionAgent, m_id = ut i, m_name = name\<rparr> # parse_mentions rest"
  using match_mention_link [where ut = ut and i = i and name = name and rest = rest] assms
  by (subst parse_mentions.simps) simp

theorem mention_link_roundtrip_witness:
  "parse_mentions (mention_link (\<lambda>n. replicate (Suc n) CHR ''a'') ''Lead'' 2 @ '' hi'')
    = [\<lparr>m_kind = MentionAgent, m_id = ''aaa'', m_name = ''Lead''\<rparr>]"
proof -
  have "parse_mentions '' hi'' = []"
    by (simp add: parse_mentions.simps match_mention_def)
  with mention_link_roundtrip [of "''Lead''" "\<lambda>n. replicate (Suc n) CHR ''a''" 2 "'' hi''"] show ?thesis
    by (simp add: is_id_char_def is_re_space_def numeral_2_eq_2)
qed

definition mentioned_agents :: "(string \<Rightarrow> uuid option) \<Rightarrow> mention list \<Rightarrow> uuid list" where
  "mentioned_agents pu ms =
     concat (map (\<lambda>m. if m_kind m = MentionAgent then (case pu (m_id m) of None \<Rightarrow> [] | Some a \<Rightarrow> [a]) else []) ms)"

definition first_occurrences :: "'a list \<Rightarrow> 'a list" where
  "first_occurrences xs = rev (remdups (rev xs))"

definition may_wake :: "route_input \<Rightarrow> uuid \<Rightarrow> bool" where
  "may_wake i a \<longleftrightarrow> (\<exists>p. participant_of i a = Some p \<and> \<not> p_disabled p) \<and> \<not> suppressed i a"

lemma first_occurrences_snoc:
  "first_occurrences (xs @ [a]) = first_occurrences xs @ (if a \<in> set xs then [] else [a])"
  by (simp add: first_occurrences_def)

lemma distinct_first_occurrences: "distinct (first_occurrences xs)"
  by (simp add: first_occurrences_def)

lemma set_first_occurrences [simp]: "set (first_occurrences xs) = set xs"
  by (simp add: first_occurrences_def)

lemma rule_two_snoc: "rule_two pu i (ms @ [m]) = rule_two_step pu i m (rule_two pu i ms)"
  by (simp add: rule_two_def)

lemma mentioned_agents_snoc:
  "mentioned_agents pu (ms @ [m]) = mentioned_agents pu ms @
     (if m_kind m = MentionAgent then (case pu (m_id m) of None \<Rightarrow> [] | Some a \<Rightarrow> [a]) else [])"
  by (simp add: mentioned_agents_def)

lemma rule_two_spec:
  assumes "rule_two pu i ms = (seen, trs, ws)"
  shows "set seen = set (mentioned_agents pu ms)
    \<and> trs = map (\<lambda>a. \<lparr>tr_agent = a, tr_rule = 2\<rparr>) (filter (may_wake i) (first_occurrences (mentioned_agents pu ms)))"
  using assms
proof (induction ms arbitrary: seen trs ws rule: rev_induct)
  case Nil
  then show ?case by (simp add: rule_two_def mentioned_agents_def first_occurrences_def)
next
  case (snoc m ms)
  obtain seen' trs' ws' where st: "rule_two pu i ms = (seen', trs', ws')" by (metis prod_cases3)
  note IH = snoc.IH [OF st]
  from snoc.prems st have step: "(seen, trs, ws) = rule_two_step pu i m (seen', trs', ws')"
    by (simp add: rule_two_snoc)
  show ?case
  proof (cases "if m_kind m = MentionAgent then pu (m_id m) else None")
    case None
    with step IH show ?thesis
      by (cases "m_kind m = MentionAgent") (simp_all add: rule_two_step_def mentioned_agents_snoc)
  next
    case (Some a)
    then have m: "m_kind m = MentionAgent" "pu (m_id m) = Some a" by (simp_all split: if_splits)
    have agents: "mentioned_agents pu (ms @ [m]) = mentioned_agents pu ms @ [a]"
      by (simp add: mentioned_agents_snoc m)
    consider (seen) "a \<in> set seen'" | (absent) "a \<notin> set seen'" "participant_of i a = None"
      | (row) p where "a \<notin> set seen'" "participant_of i a = Some p" by (cases "participant_of i a") auto
    then show ?thesis
    proof cases
      case row
      with m step IH show ?thesis
        by (cases "p_disabled p"; cases "suppressed i a")
           (simp_all add: rule_two_step_def agents first_occurrences_snoc may_wake_def)
    qed (use m step IH in \<open>simp_all add: rule_two_step_def agents first_occurrences_snoc may_wake_def insert_absorb\<close>)
  qed
qed

lemma rule_five_six_sound:
  assumes "rule_five_six i = (trs, ws)"
  shows "length trs \<le> 1 \<and> (\<forall>t \<in> set trs. (tr_rule t = 5 \<or> tr_rule t = 6) \<and> may_wake i (tr_agent t))"
  using assms
  by (auto simp: rule_five_six_def rule_six_def may_wake_def split: option.splits if_splits)

lemma no_agent_mention_no_rule_two:
  "\<forall>m \<in> set ms. m_kind m \<noteq> MentionAgent \<Longrightarrow> rule_two pu i ms = ([], [], [])"
  by (induction ms rule: rev_induct) (auto simp: rule_two_def rule_two_step_def)

text \<open>
  Explicit mentions are routed exactly: unless the message is a note, a message that mentions
  an agent wakes precisely the mentioned agents that participate, are enabled and are not
  suppressed (by the composer or by the delegator rule 8), once each, in the order of their first
  mention, all under rule 2; the assignee and the reply target are not woken as well.
\<close>

theorem explicit_mentions_exact:
  assumes "\<not> is_note (ri_content i)" and "\<exists>m \<in> set (mentions_of i). m_kind m = MentionAgent"
  shows "dec_triggers (decide pu i) =
    map (\<lambda>a. \<lparr>tr_agent = a, tr_rule = 2\<rparr>)
      (filter (may_wake i) (first_occurrences (mentioned_agents pu (mentions_of i))))"
proof -
  obtain seen trs ws where "rule_two pu i (mentions_of i) = (seen, trs, ws)" by (metis prod_cases3)
  with rule_two_spec [OF this] assms show ?thesis by (simp add: decide_def Let_def)
qed

definition route_sample :: route_input where
  "route_sample = \<lparr>ri_content = ''@A @B'', ri_author_type = ByAgent,
     ri_participants = [\<lparr>p_agent = 1, p_name = ''A'', p_disabled = False\<rparr>, \<lparr>p_agent = 2, p_name = ''B'', p_disabled = False\<rparr>],
     ri_author_agent = Some 3, ri_assignee = Some 1, ri_suppress = [], ri_reply_to_agent = None,
     ri_thread_owner = None, ri_lane_delegator = Some 1, ri_join_group_fired = False,
     ri_mentions = Some [\<lparr>m_kind = MentionAgent, m_id = ''a'', m_name = ''A''\<rparr>,
                         \<lparr>m_kind = MentionAgent, m_id = ''b'', m_name = ''B''\<rparr>,
                         \<lparr>m_kind = MentionAgent, m_id = ''b'', m_name = ''B''\<rparr>]\<rparr>"

definition sample_pu :: "string \<Rightarrow> uuid option" where
  "sample_pu s = (if s = ''a'' then Some 1 else if s = ''b'' then Some 2 else None)"

theorem explicit_mentions_exact_witness:
  "dec_triggers (decide sample_pu route_sample) = [\<lparr>tr_agent = 2, tr_rule = 2\<rparr>]"
proof -
  have h: "\<not> is_note (ri_content route_sample)" "\<exists>m \<in> set (mentions_of route_sample). m_kind m = MentionAgent"
    by (simp_all add: route_sample_def is_note_def has_prefix_def is_trim_space_def mentions_of_def)
  show ?thesis unfolding explicit_mentions_exact [OF h]
    by (simp add: route_sample_def sample_pu_def mentions_of_def mentioned_agents_def first_occurrences_def
        may_wake_def participant_of_def suppressed_def)
qed

text \<open>
  Whatever the message, every agent the router wakes is an enabled participant that nobody
  suppressed, no agent is woken twice, a note wakes nobody, and a message of an agent or of the
  system that mentions no agent wakes nobody (the join is the only way back to a delegator).
\<close>

theorem decide_sound:
  "(\<forall>t \<in> set (dec_triggers (decide pu i)). may_wake i (tr_agent t))
   \<and> distinct (map tr_agent (dec_triggers (decide pu i)))
   \<and> (is_note (ri_content i) \<or> (ri_author_type i \<noteq> ByUser \<and> (\<forall>m \<in> set (mentions_of i). m_kind m \<noteq> MentionAgent))
        \<longrightarrow> dec_triggers (decide pu i) = [])"
proof (cases "\<not> is_note (ri_content i) \<and> (\<exists>m \<in> set (mentions_of i). m_kind m = MentionAgent)")
  case True
  then obtain seen trs ws where r: "rule_two pu i (mentions_of i) = (seen, trs, ws)" by (metis prod_cases3)
  with True have d: "dec_triggers (decide pu i) = trs" by (simp add: decide_def Let_def)
  from rule_two_spec [OF r] True show ?thesis
    by (auto simp: d comp_def distinct_first_occurrences)
next
  case False
  show ?thesis
  proof (cases "is_note (ri_content i)")
    case True
    then show ?thesis by (simp add: decide_def Let_def)
  next
    case no_note: False
    with False have r: "rule_two pu i (mentions_of i) = ([], [], [])"
      by (simp add: no_agent_mention_no_rule_two)
    obtain trs ws where r56: "rule_five_six i = (trs, ws)" by (metis prod.exhaust)
    from rule_five_six_sound [OF r56] have "distinct (map tr_agent trs)"
      by (cases trs rule: list.exhaust) (auto simp: Suc_le_eq)
    with rule_five_six_sound [OF r56] r r56 no_note False show ?thesis
      by (auto simp: decide_def Let_def split: if_splits)
  qed
qed

theorem decide_sound_witness:
  "dec_triggers (decide sample_pu (route_sample\<lparr>ri_mentions := Some []\<rparr>)) = []"
  using decide_sound [of sample_pu "route_sample\<lparr>ri_mentions := Some []\<rparr>"]
  by (simp add: route_sample_def mentions_of_def)

text \<open>
  A scheduled fallback is never both cancelled and promoted; it is promoted exactly when the
  grace period has passed without a reply of the primary agent, cancelled exactly when the reply
  came inside it, and it is only ever scheduled for the assignee, five minutes out, when rule 5
  woke somebody else.
\<close>

theorem fallback_lifecycle:
  "(plan_fallback d asg now = Some f \<longrightarrow>
      asg = Some (fb_agent f) \<and> fb_due_at f = now + 5 * minute \<and>
      (\<exists>t \<in> set (dec_triggers d). tr_rule t = 5 \<and> tr_agent t \<noteq> fb_agent f))
   \<and> (fo_promoted (resolve_fallback (Some f) e r) = (\<not> r \<and> e \<ge> fb_delay f))
   \<and> (fo_cancelled (resolve_fallback (Some f) e r) = (r \<and> e < fb_delay f))"
proof -
  have "plan_fallback_triggers ts a now = Some f \<Longrightarrow>
      a = fb_agent f \<and> fb_due_at f = now + 5 * minute \<and> (\<exists>t \<in> set ts. tr_rule t = 5 \<and> tr_agent t \<noteq> a)" for ts a
    by (induction ts) (auto simp: fallback_delay_def split: if_splits)
  then show ?thesis
    by (auto simp: plan_fallback_def resolve_fallback_def split: option.splits)
qed

definition primary_woken :: decision where
  "primary_woken = \<lparr>dec_mentions = [], dec_triggers = [\<lparr>tr_agent = 4, tr_rule = 5\<rparr>], dec_warnings = []\<rparr>"

theorem fallback_lifecycle_witness:
  "\<exists>f. plan_fallback primary_woken (Some 1) 0 = Some f \<and> fb_due_at f = 5 * minute
     \<and> fo_promoted (resolve_fallback (Some f) (5 * minute) False)"
proof -
  obtain f where f: "plan_fallback primary_woken (Some 1) 0 = Some f" "fb_delay f = 5 * minute"
    by (simp add: plan_fallback_def primary_woken_def fallback_delay_def)
  with fallback_lifecycle [of primary_woken "Some 1" 0 f "5 * minute" False] show ?thesis by auto
qed

end
