(* ===== verification/Loop_Guard.thy ===== *)
theory Loop_Guard
  imports Colab_Prelude
begin

text \<open>
  The loop limiter, \<open>server/internal/router/loop.go\<close> (PRD FR-3.5), and the hop table it reads and
  writes (\<open>loadHops\<close>, \<open>judgeHop\<close>, \<open>recordHop\<close> of \<open>router/service.go\<close>). A hop whose sender is
  \<open>uuid_nil\<close> was written by a person.
\<close>

section \<open>Hops and limits\<close>

record limits =
  max_chain_depth_limit :: int
  max_hops_per_hour :: int
  max_pair_roundtrips :: int
  max_pair_window :: int
  pair_window_duration :: duration

definition default_limits :: limits where
  "default_limits = \<lparr>max_chain_depth_limit = 8, max_hops_per_hour = 60, max_pair_roundtrips = 5,
     max_pair_window = 20, pair_window_duration = 30 * minute\<rparr>"

definition hop_window :: duration where "hop_window = hour"

record hop =
  h_from :: uuid
  h_to :: uuid
  h_at :: time
  h_id :: int
  h_cause :: int

definition human :: "hop \<Rightarrow> bool" where
  "human h \<longleftrightarrow> h_from h = uuid_nil"

definition same_pair :: "hop \<Rightarrow> hop \<Rightarrow> bool" where
  "same_pair a b \<longleftrightarrow> (h_from a = h_from b \<and> h_to a = h_to b) \<or> (h_from a = h_to b \<and> h_to a = h_from b)"

definition hop_agents :: "hop \<Rightarrow> uuid list" where
  "hop_agents h = (if human h then [] else [h_from h]) @ (if h_to h \<noteq> uuid_nil then [h_to h] else [])"

section \<open>The counters\<close>

text \<open>The loop state of \<open>chainDepth\<close>: the two maps, the position of the last human hop, the next position.\<close>

record chain_state =
  cs_depths :: "int \<Rightarrow> int option"
  cs_index :: "int \<Rightarrow> int option"
  cs_last_human :: int
  cs_pos :: int

definition chain_start :: chain_state where
  "chain_start = \<lparr>cs_depths = Map.empty, cs_index = Map.empty, cs_last_human = -1, cs_pos = 0\<rparr>"

definition depth_of :: "chain_state \<Rightarrow> hop \<Rightarrow> int" where
  "depth_of st h =
     (if human h then 1
      else case (if h_cause h = 0 then None else cs_index st (h_cause h)) of
             None \<Rightarrow> if cs_last_human st \<ge> 0 then 1 else 0
           | Some j \<Rightarrow>
               if j < cs_last_human st then 1
               else case cs_depths st (h_cause h) of
                      None \<Rightarrow> 0
                    | Some d \<Rightarrow> if d > 0 then d + 1 else 0)"

definition chain_step :: "hop \<Rightarrow> chain_state \<Rightarrow> chain_state" where
  "chain_step h st =
     st\<lparr>cs_depths := (cs_depths st)(h_id h \<mapsto> depth_of st h),
        cs_index := (cs_index st)(h_id h \<mapsto> cs_pos st),
        cs_last_human := (if human h then cs_pos st else cs_last_human st),
        cs_pos := cs_pos st + 1\<rparr>"

definition chain_depth :: "hop list \<Rightarrow> hop \<Rightarrow> int" where
  "chain_depth history next = depth_of (fold chain_step history chain_start) next"

definition max_chain_depth :: "hop list \<Rightarrow> int" where
  "max_chain_depth history =
     fold (\<lambda>i deepest. max deepest (chain_depth (take i history) (history ! i))) [0..<length history] 0"

definition hops_in_window :: "hop list \<Rightarrow> time \<Rightarrow> int" where
  "hops_in_window history now = int (length (filter (\<lambda>h. \<not> (human h \<or> \<not> h_at h > now - hop_window)) history))"

definition since_last_human :: "hop list \<Rightarrow> hop list" where
  "since_last_human history = rev (takeWhile (\<lambda>h. \<not> human h) (rev history))"

definition pair_run :: "hop list \<Rightarrow> hop \<Rightarrow> nat" where
  "pair_run history next =
     fold (\<lambda>h hops. if same_pair h next then hops + 1 else hops div 2) (since_last_human history) 0"

definition pair_roundtrips :: "hop list \<Rightarrow> hop \<Rightarrow> int" where
  "pair_roundtrips history next =
     (if human next then 0 else int ((pair_run history next + 1 + 1) div 2))"

definition pair_hops_window :: "hop list \<Rightarrow> hop \<Rightarrow> time \<Rightarrow> duration \<Rightarrow> nat" where
  "pair_hops_window history next now window =
     length (filter (\<lambda>h. \<not> (human h \<or> \<not> h_at h > now - window \<or> \<not> same_pair h next)) history)"

definition pair_roundtrips_window :: "hop list \<Rightarrow> hop \<Rightarrow> time \<Rightarrow> duration \<Rightarrow> int" where
  "pair_roundtrips_window history next now window =
     (if human next then 0 else int ((1 + pair_hops_window history next now window + 1) div 2))"

section \<open>The verdict\<close>

datatype loop_detail = DetailChainDepth | DetailHopsPerHour | DetailPairRoundtrips | DetailPairRoundtripsWindow

record loop_verdict =
  lv_allowed :: bool
  lv_task_created :: bool
  lv_session_paused :: bool
  lv_pause_loop :: bool
  lv_detail :: "loop_detail option"
  lv_hitl_to_director :: bool
  lv_chain_depth :: int
  lv_hops :: int
  lv_pair :: int
  lv_pair_window :: int
  lv_agents :: "uuid list"

definition exceeded :: "loop_verdict \<Rightarrow> loop_detail \<Rightarrow> loop_verdict" where
  "exceeded v d = v\<lparr>lv_allowed := False, lv_task_created := False, lv_session_paused := True,
     lv_pause_loop := True, lv_detail := Some d, lv_hitl_to_director := True\<rparr>"

definition check_loop_limits :: "hop list \<Rightarrow> hop \<Rightarrow> limits \<Rightarrow> time \<Rightarrow> loop_verdict" where
  "check_loop_limits history next lims now =
     (let v = \<lparr>lv_allowed = True, lv_task_created = True, lv_session_paused = False, lv_pause_loop = False,
               lv_detail = None, lv_hitl_to_director = False,
               lv_chain_depth = chain_depth history next,
               lv_hops = hops_in_window history now,
               lv_pair = pair_roundtrips history next,
               lv_pair_window = pair_roundtrips_window history next now (pair_window_duration lims),
               lv_agents = hop_agents next\<rparr>
      in if human next then v
         else if max_chain_depth_limit lims > 0 \<and> lv_chain_depth v > max_chain_depth_limit lims then exceeded v DetailChainDepth
         else if max_hops_per_hour lims > 0 \<and> lv_hops v + 1 > max_hops_per_hour lims then exceeded v DetailHopsPerHour
         else if max_pair_roundtrips lims > 0 \<and> lv_pair v > max_pair_roundtrips lims then exceeded v DetailPairRoundtrips
         else if max_pair_window lims > 0 \<and> lv_pair_window v > max_pair_window lims then exceeded v DetailPairRoundtripsWindow
         else v)"

definition limit_count :: "loop_verdict \<Rightarrow> int" where
  "limit_count v =
     (case lv_detail v of
        Some DetailChainDepth \<Rightarrow> lv_chain_depth v
      | Some DetailHopsPerHour \<Rightarrow> lv_hops v
      | Some DetailPairRoundtrips \<Rightarrow> lv_pair v
      | Some DetailPairRoundtripsWindow \<Rightarrow> lv_pair_window v
      | None \<Rightarrow> 0)"

section \<open>The hop table\<close>

record hop_row =
  hr_id :: int
  hr_session :: uuid
  hr_from :: "uuid option"
  hr_to :: uuid
  hr_message :: "uuid option"
  hr_rule :: nat
  hr_allowed :: bool
  hr_at :: time
  hr_cause :: "int option"

record hop_table =
  ht_next_id :: int
  ht_rows :: "hop_row list"

definition empty_hops :: hop_table where
  "empty_hops = \<lparr>ht_next_id = 1, ht_rows = []\<rparr>"

definition hop_of_row :: "hop_row \<Rightarrow> hop" where
  "hop_of_row r = \<lparr>h_from = (case hr_from r of None \<Rightarrow> uuid_nil | Some a \<Rightarrow> a), h_to = hr_to r, h_at = hr_at r,
     h_id = hr_id r, h_cause = (case hr_cause r of None \<Rightarrow> 0 | Some c \<Rightarrow> c)\<rparr>"

definition last_human_id :: "uuid \<Rightarrow> hop_row list \<Rightarrow> int" where
  "last_human_id s rows = fold max (map hr_id (filter (\<lambda>r. hr_session r = s \<and> hr_from r = None) rows)) 0"

definition load_hops :: "nat \<Rightarrow> uuid \<Rightarrow> time \<Rightarrow> duration \<Rightarrow> hop_row list \<Rightarrow> hop list" where
  "load_hops read_cap s now window rows =
     (let w = filter (\<lambda>r. hr_session r = s \<and> (hr_id r \<ge> last_human_id s rows \<or> hr_at r > now - window)) rows;
          newest = take read_cap (rev (sort_key hr_id w))
      in map hop_of_row (rev newest))"

definition record_hop :: "uuid \<Rightarrow> hop \<Rightarrow> uuid \<Rightarrow> nat \<Rightarrow> bool \<Rightarrow> hop_table \<Rightarrow> hop_table" where
  "record_hop s h msg rule ok t =
     \<lparr>ht_next_id = ht_next_id t + 1,
      ht_rows = ht_rows t @ [\<lparr>hr_id = ht_next_id t, hr_session = s,
        hr_from = (if human h then None else Some (h_from h)), hr_to = h_to h,
        hr_message = (if msg = uuid_nil then None else Some msg), hr_rule = rule, hr_allowed = ok,
        hr_at = h_at h, hr_cause = (if h_cause h = 0 then None else Some (h_cause h))\<rparr>]\<rparr>"

definition read_window :: "limits \<Rightarrow> duration" where
  "read_window lims = (if pair_window_duration lims > hop_window then pair_window_duration lims else hop_window)"

definition judge_hop ::
    "limits \<Rightarrow> nat \<Rightarrow> uuid \<Rightarrow> hop \<Rightarrow> uuid \<Rightarrow> nat \<Rightarrow> time \<Rightarrow> hop_table \<Rightarrow> loop_verdict \<times> hop_table" where
  "judge_hop lims read_cap s next msg rule now t =
     (let v = check_loop_limits (load_hops read_cap s now (read_window lims) (ht_rows t)) next lims now
      in (v, record_hop s next msg rule (lv_allowed v) t))"

text \<open>\<open>RulePlatform\<close>: the rule recorded for a trigger the platform raised itself.\<close>

definition rule_platform :: nat where "rule_platform = 9"

definition record_human_hop :: "uuid \<Rightarrow> uuid \<Rightarrow> uuid \<Rightarrow> time \<Rightarrow> hop_table \<Rightarrow> hop_table" where
  "record_human_hop s agent msg now t =
     record_hop s \<lparr>h_from = uuid_nil, h_to = agent, h_at = now, h_id = 0, h_cause = 0\<rparr> msg rule_platform True t"

section \<open>The verdict, counter by counter\<close>

lemma human_always_allowed: "human next \<Longrightarrow> lv_allowed (check_loop_limits history next lims now)"
  by (simp add: check_loop_limits_def Let_def)

lemma exceeded_simps [simp]:
  "\<not> lv_allowed (exceeded v d)" "lv_detail (exceeded v d) = Some d" "lv_session_paused (exceeded v d)"
  "lv_hitl_to_director (exceeded v d)" "\<not> lv_task_created (exceeded v d)" "lv_pause_loop (exceeded v d)"
  "lv_chain_depth (exceeded v d) = lv_chain_depth v" "lv_hops (exceeded v d) = lv_hops v"
  "lv_pair (exceeded v d) = lv_pair v" "lv_pair_window (exceeded v d) = lv_pair_window v"
  by (simp_all add: exceeded_def)

definition fits :: "int \<Rightarrow> int \<Rightarrow> bool" where
  "fits n limit \<longleftrightarrow> (limit > 0 \<longrightarrow> n \<le> limit)"

text \<open>
  The limiter admits an agent's trigger exactly when all four counters are within their limits
  (a limit of zero or less is off) and a person's always; a refusal names the first limit that
  tripped, creates no task, pauses the room and notifies the Director, and the reported count is
  the counter that exceeded.
\<close>

theorem loop_verdict_exact:
  "lv_allowed (check_loop_limits hist next lims now) =
     (human next \<or>
      (fits (chain_depth hist next) (max_chain_depth_limit lims)
       \<and> fits (hops_in_window hist now + 1) (max_hops_per_hour lims)
       \<and> fits (pair_roundtrips hist next) (max_pair_roundtrips lims)
       \<and> fits (pair_roundtrips_window hist next now (pair_window_duration lims)) (max_pair_window lims)))
   \<and> (\<not> lv_allowed (check_loop_limits hist next lims now) \<longrightarrow>
        lv_session_paused (check_loop_limits hist next lims now)
        \<and> \<not> lv_task_created (check_loop_limits hist next lims now)
        \<and> lv_hitl_to_director (check_loop_limits hist next lims now)
        \<and> lv_detail (check_loop_limits hist next lims now) \<noteq> None
        \<and> limit_count (check_loop_limits hist next lims now) > 0)"
  by (auto simp: check_loop_limits_def Let_def fits_def limit_count_def)

definition ping :: "int \<Rightarrow> hop" where
  "ping n = \<lparr>h_from = 1, h_to = 2, h_at = n, h_id = n, h_cause = n - 1\<rparr>"

theorem loop_verdict_exact_witness:
  "lv_session_paused (check_loop_limits [ping 1, ping 2, ping 3] (ping 4) (default_limits\<lparr>max_hops_per_hour := 3\<rparr>) 4)"
proof -
  have "\<not> lv_allowed (check_loop_limits [ping 1, ping 2, ping 3] (ping 4) (default_limits\<lparr>max_hops_per_hour := 3\<rparr>) 4)"
    by (simp add: check_loop_limits_def default_limits_def ping_def human_def chain_depth_def depth_of_def
        chain_step_def chain_start_def hops_in_window_def hop_window_def dur_simps Let_def)
  with loop_verdict_exact [of "[ping 1, ping 2, ping 3]" "ping 4" "default_limits\<lparr>max_hops_per_hour := 3\<rparr>" 4]
  show ?thesis by blast
qed

section \<open>Quotas over time\<close>

text \<open>
  A log in time order whose counted entries are admitted one by one against a sliding window: the
  contract is that an admission sees at most \<open>B - 1\<close> counted entries in the window that ends at it.
  Then no window of that width, wherever it is placed, holds more than \<open>B\<close> admitted entries.
\<close>

locale window_quota =
  fixes tick :: "'r \<Rightarrow> int"
    and counted :: "'r \<Rightarrow> bool"
    and admitted :: "'r \<Rightarrow> bool"
    and width :: int
    and quota :: nat
    and ok :: "'r list \<Rightarrow> 'r \<Rightarrow> bool"
  assumes ok_quota: "ok rows r \<Longrightarrow> counted r \<Longrightarrow> admitted r \<Longrightarrow>
      length (filter (\<lambda>x. counted x \<and> tick x > tick r - width) rows) < quota"
begin

lemma window_bound:
  assumes "sorted (map tick rows)" and "\<And>i. i < length rows \<Longrightarrow> ok (take i rows) (rows ! i)"
  shows "length (filter (\<lambda>x. counted x \<and> admitted x \<and> t - width < tick x \<and> tick x \<le> t) rows) \<le> quota"
  using assms
proof (induction rows rule: rev_induct)
  case Nil
  show ?case by simp
next
  case (snoc r rows)
  let ?in = "\<lambda>x. counted x \<and> admitted x \<and> t - width < tick x \<and> tick x \<le> t"
  have before: "ok (take i rows) (rows ! i)" if "i < length rows" for i
    using snoc.prems(2) [of i] that by (simp add: nth_append)
  have last: "ok rows r" using snoc.prems(2) [of "length rows"] by simp
  show ?case
  proof (cases "?in r")
    case False
    with snoc.IH snoc.prems(1) before show ?thesis by (auto simp: sorted_append)
  next
    case True
    have "length (filter ?in rows) \<le> length (filter (\<lambda>x. counted x \<and> tick x > tick r - width) rows)"
      using True by (intro length_filter_mono) auto
    also have "\<dots> < quota" using ok_quota [OF last] True by blast
    finally show ?thesis using True by simp
  qed
qed

end

subsection \<open>What a judgement reads\<close>

definition agent_row :: "uuid \<Rightarrow> hop_row \<Rightarrow> bool" where
  "agent_row s r \<longleftrightarrow> hr_session r = s \<and> \<not> human (hop_of_row r)"

definition pair_row :: "uuid \<Rightarrow> hop \<Rightarrow> hop_row \<Rightarrow> bool" where
  "pair_row s p r \<longleftrightarrow> agent_row s r \<and> same_pair (hop_of_row r) p"

lemma same_pair_sym: "same_pair a b \<Longrightarrow> same_pair b a"
  by (auto simp: same_pair_def)

lemma same_pair_trans: "same_pair a b \<Longrightarrow> same_pair b c \<Longrightarrow> same_pair a c"
  by (auto simp: same_pair_def)

lemma same_pair_cong: "same_pair a b \<Longrightarrow> same_pair x a \<longleftrightarrow> same_pair x b"
  using same_pair_sym same_pair_trans by blast

lemma hop_of_row_at [simp]: "h_at (hop_of_row r) = hr_at r"
  by (simp add: hop_of_row_def)

lemma length_filter_load:
  assumes "length rows \<le> cap" and "\<And>h. P h \<Longrightarrow> h_at h > now - w"
  shows "length (filter P (load_hops cap s now w rows))
       = length (filter (\<lambda>r. hr_session r = s \<and> P (hop_of_row r)) rows)"
proof -
  let ?w = "\<lambda>r. hr_session r = s \<and> (hr_id r \<ge> last_human_id s rows \<or> hr_at r > now - w)"
  have "length (filter ?w rows) \<le> cap"
    using assms(1) length_filter_le le_trans by blast
  then have "load_hops cap s now w rows = map hop_of_row (sort_key hr_id (filter ?w rows))"
    by (simp add: load_hops_def Let_def)
  then have "length (filter P (load_hops cap s now w rows))
           = length (filter (\<lambda>r. ?w r \<and> P (hop_of_row r)) rows)"
    by (simp add: filter_map filter_sort comp_def conj_commute)
  also have "filter (\<lambda>r. ?w r \<and> P (hop_of_row r)) rows = filter (\<lambda>r. hr_session r = s \<and> P (hop_of_row r)) rows"
    using assms(2) by (intro filter_cong) (auto dest: assms(2))
  finally show ?thesis .
qed

lemma read_window_wide: "hop_window \<le> read_window lims" "pair_window_duration lims \<le> read_window lims"
  by (simp_all add: read_window_def)

lemma hops_in_window_load:
  assumes "length rows \<le> cap"
  shows "hops_in_window (load_hops cap s now (read_window lims) rows) now
       = int (length (filter (\<lambda>r. agent_row s r \<and> hr_at r > now - hop_window) rows))"
proof -
  have "\<And>h. \<not> (human h \<or> \<not> h_at h > now - hop_window) \<Longrightarrow> h_at h > now - read_window lims"
    using read_window_wide(1) [of lims] by simp
  from length_filter_load [OF assms this] show ?thesis
    by (simp add: hops_in_window_def agent_row_def conj_assoc)
qed

lemma pair_hops_load:
  assumes "length rows \<le> cap"
  shows "pair_hops_window (load_hops cap s now (read_window lims) rows) p now (pair_window_duration lims)
       = length (filter (\<lambda>r. pair_row s p r \<and> hr_at r > now - pair_window_duration lims) rows)"
proof -
  have "\<And>h. \<not> (human h \<or> \<not> h_at h > now - pair_window_duration lims \<or> \<not> same_pair h p) \<Longrightarrow>
          h_at h > now - read_window lims"
    using read_window_wide(2) [of lims] by simp
  from length_filter_load [OF assms this] show ?thesis
    by (simp add: pair_hops_window_def pair_row_def agent_row_def conj_ac)
qed

subsection \<open>The hop log\<close>

text \<open>One call of \<open>judgeHop\<close> or \<open>RecordHumanHop\<close>; the clock of the call is the hop's own time.\<close>

datatype hop_event =
    Judge (ev_session: uuid) (ev_hop: hop) (ev_msg: uuid) (ev_rule: nat)
  | Person (ev_session: uuid) (ev_agent: uuid) (ev_msg: uuid) (ev_now: time)

fun event_at :: "hop_event \<Rightarrow> time" where
  "event_at (Judge s h m r) = h_at h"
| "event_at (Person s a m now) = now"

fun apply_event :: "limits \<Rightarrow> nat \<Rightarrow> hop_event \<Rightarrow> hop_table \<Rightarrow> hop_table" where
  "apply_event lims cap (Judge s h m r) t = snd (judge_hop lims cap s h m r (h_at h) t)"
| "apply_event lims cap (Person s a m now) t = record_human_hop s a m now t"

definition hop_log :: "limits \<Rightarrow> nat \<Rightarrow> hop_event list \<Rightarrow> hop_row list" where
  "hop_log lims cap es = ht_rows (fold (apply_event lims cap) es empty_hops)"

text \<open>The judgement of a row against the rows before it.\<close>

definition row_judged :: "limits \<Rightarrow> nat \<Rightarrow> hop_row list \<Rightarrow> hop_row \<Rightarrow> bool" where
  "row_judged lims cap rows r \<longleftrightarrow>
     (agent_row (hr_session r) r \<longrightarrow> hr_allowed r \<longrightarrow>
      lv_allowed (check_loop_limits (load_hops cap (hr_session r) (hr_at r) (read_window lims) rows)
                    (hop_of_row r) lims (hr_at r)))"

lemma depth_of_ignores_id: "depth_of st (h\<lparr>h_id := i\<rparr>) = depth_of st h"
  by (simp add: depth_of_def human_def cong: option.case_cong if_cong)

lemma judgement_ignores_id: "check_loop_limits hist (next\<lparr>h_id := i\<rparr>) lims now = check_loop_limits hist next lims now"
proof -
  have "human (next\<lparr>h_id := i\<rparr>) = human next" "hop_agents (next\<lparr>h_id := i\<rparr>) = hop_agents next"
    "chain_depth hist (next\<lparr>h_id := i\<rparr>) = chain_depth hist next"
    "pair_roundtrips hist (next\<lparr>h_id := i\<rparr>) = pair_roundtrips hist next"
    "pair_roundtrips_window hist (next\<lparr>h_id := i\<rparr>) now w = pair_roundtrips_window hist next now w" for w
    by (simp_all add: human_def hop_agents_def chain_depth_def depth_of_ignores_id pair_roundtrips_def pair_run_def
        same_pair_def pair_roundtrips_window_def pair_hops_window_def)
  then show ?thesis by (simp add: check_loop_limits_def Let_def)
qed

lemma hop_of_recorded:
  "hop_of_row (last (ht_rows (record_hop s h m r ok t))) = h\<lparr>h_id := ht_next_id t\<rparr>"
  by (auto simp: record_hop_def hop_of_row_def human_def)

lemma apply_event_row:
  "\<exists>r. ht_rows (apply_event lims cap e t) = ht_rows t @ [r] \<and> hr_at r = event_at e \<and> row_judged lims cap (ht_rows t) r"
proof (cases e)
  case (Judge s h m r)
  let ?v = "check_loop_limits (load_hops cap s (h_at h) (read_window lims) (ht_rows t)) h lims (h_at h)"
  have rows: "ht_rows (apply_event lims cap e t) = ht_rows t @ [last (ht_rows (record_hop s h m r (lv_allowed ?v) t))]"
    by (simp add: Judge judge_hop_def Let_def record_hop_def)
  show ?thesis
    by (rule exI, rule conjI [OF rows])
       (simp add: row_judged_def hop_of_recorded judgement_ignores_id, simp add: record_hop_def Judge)
next
  case (Person s a m now)
  then show ?thesis
    by (auto simp: record_human_hop_def record_hop_def row_judged_def agent_row_def hop_of_row_def human_def)
qed

lemma hop_log_snoc:
  "\<exists>r. hop_log lims cap (es @ [e]) = hop_log lims cap es @ [r] \<and> hr_at r = event_at e
     \<and> row_judged lims cap (hop_log lims cap es) r"
  using apply_event_row by (simp add: hop_log_def)

lemma hop_log_facts:
  "map hr_at (hop_log lims cap es) = map event_at es
   \<and> (\<forall>i < length es. row_judged lims cap (take i (hop_log lims cap es)) (hop_log lims cap es ! i))"
proof (induction es rule: rev_induct)
  case Nil
  show ?case by (simp add: hop_log_def empty_hops_def)
next
  case (snoc e es)
  obtain r where r: "hop_log lims cap (es @ [e]) = hop_log lims cap es @ [r]" "hr_at r = event_at e"
    "row_judged lims cap (hop_log lims cap es) r"
    using hop_log_snoc by blast
  from snoc have "length (hop_log lims cap es) = length es" by (metis length_map)
  with r snoc show ?case by (auto simp: nth_append less_Suc_eq)
qed

lemma hop_log_length: "length (hop_log lims cap es) = length es"
  using hop_log_facts by (metis length_map)

definition judged_within :: "limits \<Rightarrow> nat \<Rightarrow> hop_row list \<Rightarrow> hop_row \<Rightarrow> bool" where
  "judged_within lims cap rows r \<longleftrightarrow> row_judged lims cap rows r \<and> length rows \<le> cap"

lemma hop_log_judged:
  assumes "length es \<le> cap" and "i < length (hop_log lims cap es)"
  shows "judged_within lims cap (take i (hop_log lims cap es)) (hop_log lims cap es ! i)"
  using assms hop_log_facts [of lims cap es] by (simp add: judged_within_def hop_log_length)

lemma allowed_agent_fits:
  assumes "lv_allowed (check_loop_limits hist next lims now)" and "\<not> human next"
  shows "fits (hops_in_window hist now + 1) (max_hops_per_hour lims)"
    and "fits (pair_roundtrips_window hist next now (pair_window_duration lims)) (max_pair_window lims)"
  using assms by (auto simp: check_loop_limits_def Let_def fits_def split: if_splits)

interpretation hour_quota: window_quota hr_at "agent_row s" hr_allowed hop_window "nat (max_hops_per_hour lims)"
    "\<lambda>rows r. max_hops_per_hour lims > 0 \<and> judged_within lims cap rows r"
  for s :: uuid and lims :: limits and cap :: nat
proof unfold_locales
  fix rows r
  assume ok: "max_hops_per_hour lims > 0 \<and> judged_within lims cap rows r" and r: "agent_row s r" "hr_allowed r"
  then have s: "hr_session r = s" and h: "\<not> human (hop_of_row r)" by (auto simp: agent_row_def)
  from ok r s have "lv_allowed (check_loop_limits (load_hops cap s (hr_at r) (read_window lims) rows) (hop_of_row r) lims (hr_at r))"
    by (auto simp: judged_within_def row_judged_def)
  from allowed_agent_fits(1) [OF this h] ok
  show "length (filter (\<lambda>x. agent_row s x \<and> hr_at x > hr_at r - hop_window) rows) < nat (max_hops_per_hour lims)"
    by (auto simp: fits_def judged_within_def hops_in_window_load)
qed

interpretation pair_quota: window_quota hr_at "pair_row s p" hr_allowed "pair_window_duration lims" "2 * nat (max_pair_window lims)"
    "\<lambda>rows r. max_pair_window lims > 0 \<and> judged_within lims cap rows r"
  for s :: uuid and p :: hop and lims :: limits and cap :: nat
proof unfold_locales
  fix rows r
  assume ok: "max_pair_window lims > 0 \<and> judged_within lims cap rows r" and r: "pair_row s p r" "hr_allowed r"
  then have s: "hr_session r = s" and h: "\<not> human (hop_of_row r)" and sp: "same_pair (hop_of_row r) p"
    and a: "agent_row (hr_session r) r"
    by (auto simp: agent_row_def pair_row_def)
  from ok r s a have "lv_allowed (check_loop_limits (load_hops cap s (hr_at r) (read_window lims) rows) (hop_of_row r) lims (hr_at r))"
    by (auto simp: judged_within_def row_judged_def)
  from allowed_agent_fits(2) [OF this h] ok h
  have "1 + length (filter (\<lambda>x. pair_row s (hop_of_row r) x \<and> hr_at x > hr_at r - pair_window_duration lims) rows)
        \<le> 2 * nat (max_pair_window lims)"
    by (auto simp: fits_def judged_within_def pair_roundtrips_window_def pair_hops_load)
  moreover have "pair_row s (hop_of_row r) x = pair_row s p x" for x
    using same_pair_cong [OF sp] by (simp add: pair_row_def)
  ultimately show "length (filter (\<lambda>x. pair_row s p x \<and> hr_at x > hr_at r - pair_window_duration lims) rows)
        < 2 * nat (max_pair_window lims)" by simp
qed

text \<open>
  However the calls to the limiter and the human hops of all rooms interleave, as long as the
  clock does not run backwards and the log fits the read cap, no hour of a room, wherever it is
  placed on the clock, holds more admitted agent hops than \<open>max_hops_per_hour\<close>.
\<close>

theorem hourly_hop_quota:
  assumes "sorted (map event_at es)" and "length es \<le> cap" and "max_hops_per_hour lims > 0"
  shows "length (filter (\<lambda>r. agent_row s r \<and> hr_allowed r \<and> t - hop_window < hr_at r \<and> hr_at r \<le> t) (hop_log lims cap es))
         \<le> nat (max_hops_per_hour lims)"
proof (rule hour_quota.window_bound [where lims = lims and cap = cap])
  show "sorted (map hr_at (hop_log lims cap es))"
    using assms(1) hop_log_facts by simp
  show "max_hops_per_hour lims > 0 \<and> judged_within lims cap (take i (hop_log lims cap es)) (hop_log lims cap es ! i)"
    if "i < length (hop_log lims cap es)" for i
    using assms(2,3) that hop_log_judged by blast
qed

definition ping_events :: "hop_event list" where
  "ping_events = [Person 9 1 0 0, Judge 9 (ping 1) 0 1, Judge 9 (ping 2) 0 1, Judge 9 (ping 3) 0 1]"

theorem hourly_hop_quota_witness:
  "length (filter (\<lambda>r. agent_row 9 r \<and> hr_allowed r \<and> 3 - hop_window < hr_at r \<and> hr_at r \<le> 3)
     (hop_log (default_limits\<lparr>max_hops_per_hour := 2\<rparr>) 5000 ping_events)) \<le> 2"
  using hourly_hop_quota [of ping_events 5000 "default_limits\<lparr>max_hops_per_hour := 2\<rparr>" 9 3]
  by (simp add: ping_events_def ping_def default_limits_def)

text \<open>
  The second pair counter cannot be evaded: whatever third agents or people interject between
  them, two agents get at most \<open>2 * max_pair_window\<close> admitted hops between themselves in any
  window of \<open>pair_window_duration\<close>.
\<close>

theorem pair_window_quota:
  assumes "sorted (map event_at es)" and "length es \<le> cap" and "max_pair_window lims > 0"
  shows "length (filter (\<lambda>r. pair_row s p r \<and> hr_allowed r \<and> t - pair_window_duration lims < hr_at r \<and> hr_at r \<le> t)
           (hop_log lims cap es)) \<le> 2 * nat (max_pair_window lims)"
proof (rule pair_quota.window_bound [where lims = lims and cap = cap])
  show "sorted (map hr_at (hop_log lims cap es))"
    using assms(1) hop_log_facts by simp
  show "max_pair_window lims > 0 \<and> judged_within lims cap (take i (hop_log lims cap es)) (hop_log lims cap es ! i)"
    if "i < length (hop_log lims cap es)" for i
    using assms(2,3) that hop_log_judged by blast
qed

theorem pair_window_quota_witness:
  "length (filter (\<lambda>r. pair_row 9 (ping 0) r \<and> hr_allowed r \<and> 3 - 30 * minute < hr_at r \<and> hr_at r \<le> 3)
     (hop_log (default_limits\<lparr>max_pair_window := 1\<rparr>) 5000 ping_events)) \<le> 2"
  using pair_window_quota [of ping_events 5000 "default_limits\<lparr>max_pair_window := 1\<rparr>" 9 "ping 0" 3]
  by (simp add: ping_events_def ping_def default_limits_def)

section \<open>What a person resets\<close>

definition chain_inv :: "hop list \<Rightarrow> chain_state \<Rightarrow> bool" where
  "chain_inv hist st \<longleftrightarrow>
     -1 \<le> cs_last_human st \<and> cs_last_human st < cs_pos st \<and> cs_pos st = int (length hist) \<and>
     ((\<forall>h \<in> set hist. \<not> human h) \<longrightarrow> cs_last_human st = -1) \<and>
     (list_ex human hist \<longrightarrow>
        cs_last_human st \<ge> 0 \<and> cs_pos st = cs_last_human st + 1 + int (length (since_last_human hist))) \<and>
     (\<forall>k j. cs_index st k = Some j \<longrightarrow> 0 \<le> j) \<and>
     (\<forall>k j d. cs_index st k = Some j \<longrightarrow> cs_depths st k = Some d \<longrightarrow> cs_last_human st \<le> j \<longrightarrow>
        j < cs_pos st \<and> (if cs_last_human st < 0 then d = 0 else d \<le> j - cs_last_human st + 1))"

lemma since_last_human_snoc:
  "since_last_human (hist @ [h]) = (if human h then [] else since_last_human hist @ [h])"
  by (simp add: since_last_human_def)

lemma chain_entry:
  assumes "chain_inv hist st" and "cs_index st k = Some j" and "cs_depths st k = Some d" and "cs_last_human st \<le> j"
  shows "j < cs_pos st" and "cs_last_human st < 0 \<Longrightarrow> d = 0" and "cs_last_human st \<ge> 0 \<Longrightarrow> d \<le> j - cs_last_human st + 1"
proof -
  have "j < cs_pos st \<and> (if cs_last_human st < 0 then d = 0 else d \<le> j - cs_last_human st + 1)"
    using assms unfolding chain_inv_def by blast
  then show "j < cs_pos st" and "cs_last_human st < 0 \<Longrightarrow> d = 0"
    and "cs_last_human st \<ge> 0 \<Longrightarrow> d \<le> j - cs_last_human st + 1"
    by (auto split: if_splits)
qed

lemma chain_humans:
  assumes "chain_inv hist st" and "list_ex human hist"
  shows "cs_last_human st \<ge> 0" and "cs_pos st = cs_last_human st + 1 + int (length (since_last_human hist))"
  using assms unfolding chain_inv_def by blast+

lemma depth_of_bound:
  assumes inv: "chain_inv hist st"
  shows "\<not> human h \<Longrightarrow> cs_last_human st < 0 \<Longrightarrow> depth_of st h = 0"
    and "cs_last_human st \<ge> 0 \<Longrightarrow> depth_of st h \<le> cs_pos st - cs_last_human st + 1"
proof -
  have pos: "cs_last_human st < cs_pos st" using inv by (simp add: chain_inv_def)
  have nonneg: "0 \<le> j" if "cs_index st k = Some j" for k j
    using inv that unfolding chain_inv_def by blast
  show "depth_of st h = 0" if "\<not> human h" "cs_last_human st < 0"
  proof -
    have "\<not> j < cs_last_human st \<and> (cs_depths st (h_cause h) = Some d \<longrightarrow> d = 0)"
      if "cs_index st (h_cause h) = Some j" for j d
      using that nonneg [OF that] chain_entry(2) [OF inv that, of d] \<open>cs_last_human st < 0\<close> by auto
    then show ?thesis using that by (auto simp: depth_of_def split: option.split)
  qed
  show "depth_of st h \<le> cs_pos st - cs_last_human st + 1" if lh: "cs_last_human st \<ge> 0"
  proof (cases "\<exists>j d. cs_index st (h_cause h) = Some j \<and> cs_depths st (h_cause h) = Some d \<and> cs_last_human st \<le> j")
    case True
    then obtain j d where "cs_index st (h_cause h) = Some j" "cs_depths st (h_cause h) = Some d" "cs_last_human st \<le> j"
      by blast
    with chain_entry(1,3) [OF inv this] lh pos show ?thesis by (simp add: depth_of_def)
  next
    case False
    with lh pos show ?thesis by (auto simp: depth_of_def split: option.split)
  qed
qed

lemma chain_inv_step:
  assumes inv: "chain_inv hist st"
  shows "chain_inv (hist @ [h]) (chain_step h st)"
proof -
  let ?st = "chain_step h st"
  have entries: "j < cs_pos ?st \<and> (if cs_last_human ?st < 0 then d = 0 else d \<le> j - cs_last_human ?st + 1)"
    if e: "cs_index ?st k = Some j" "cs_depths ?st k = Some d" "cs_last_human ?st \<le> j" for k j d
  proof (cases "k = h_id h")
    case True
    moreover have "cs_pos st \<ge> 0" using inv by (simp add: chain_inv_def)
    ultimately show ?thesis
      using e depth_of_bound [OF inv, of h]
      by (cases "human h") (auto simp: chain_step_def depth_of_def)
  next
    case False
    have "cs_last_human st < cs_pos st" using inv by (simp add: chain_inv_def)
    with False e chain_entry [OF inv, of k j d] show ?thesis
      by (auto simp: chain_step_def split: if_splits)
  qed
  have "(\<forall>h' \<in> set (hist @ [h]). \<not> human h') \<longrightarrow> cs_last_human ?st = -1"
    using inv by (simp add: chain_inv_def chain_step_def)
  moreover have "list_ex human (hist @ [h]) \<longrightarrow> cs_last_human ?st \<ge> 0 \<and>
      cs_pos ?st = cs_last_human ?st + 1 + int (length (since_last_human (hist @ [h])))"
    using chain_humans [OF inv] inv by (auto simp: chain_inv_def chain_step_def since_last_human_snoc)
  moreover have "-1 \<le> cs_last_human ?st" "cs_last_human ?st < cs_pos ?st" "cs_pos ?st = int (length (hist @ [h]))"
    using inv by (auto simp: chain_inv_def chain_step_def)
  moreover have "0 \<le> j" if "cs_index ?st k = Some j" for k j
    using inv that by (auto simp: chain_inv_def chain_step_def split: if_splits)
  ultimately show ?thesis using entries unfolding chain_inv_def by blast
qed

lemma chain_inv_fold: "chain_inv hist (fold chain_step hist chain_start)"
proof (induction hist rule: rev_induct)
  case Nil
  show ?case by (simp add: chain_inv_def chain_start_def)
next
  case (snoc h hist)
  then show ?case using chain_inv_step by simp
qed

text \<open>
  A chain is measured from the last person: in a history nobody spoke in, every agent hop has
  depth 0; otherwise the depth is at most two more than the number of hops since the last human
  hop, so the first agent hop after a person is at depth at most 2 whatever its cause claims.
\<close>

theorem human_resets_depth:
  "(if list_ex human (hist @ [next]) then chain_depth hist next \<le> int (length (since_last_human hist)) + 2
    else chain_depth hist next = 0)"
proof (cases "list_ex human (hist @ [next])")
  case False
  then have none: "\<forall>h \<in> set hist. \<not> human h" "\<not> human next" by (auto simp: list_ex_iff)
  then have "cs_last_human (fold chain_step hist chain_start) = -1"
    using chain_inv_fold [of hist] by (simp add: chain_inv_def)
  with none show ?thesis
    using depth_of_bound(1) [OF chain_inv_fold [of hist], of "next"]
    by (simp add: chain_depth_def False del: list_ex_append)
next
  case True
  then consider "list_ex human hist" | "human next" by auto
  then show ?thesis
  proof cases
    case 1
    with chain_inv_fold [of hist] have "cs_last_human (fold chain_step hist chain_start) \<ge> 0"
      "cs_pos (fold chain_step hist chain_start)
       = cs_last_human (fold chain_step hist chain_start) + 1 + int (length (since_last_human hist))"
      by (simp_all add: chain_inv_def)
    with 1 True show ?thesis
      using depth_of_bound(2) [OF chain_inv_fold [of hist], of "next"]
      by (auto simp: chain_depth_def)
  next
    case 2
    with 2 show ?thesis by (simp add: chain_depth_def depth_of_def)
  qed
qed

end
