(* ===== verification/Hitl_Plan.thy ===== *)
theory Hitl_Plan
  imports Colab_Prelude
begin

text \<open>
  The human-in-the-loop rules of \<open>server/internal/hitl/plan.go\<close> (PRD FR-5.1, FR-5.2, FR-5.4,
  FR-7.1). \<open>parse_uuid\<close> stands for \<open>uuid.Parse\<close> of the google/uuid package. Kinds, specs and
  statuses are strings, as the source compares them; sentences shown to a person are left out.
\<close>

section \<open>Registration\<close>

definition default_due_in :: duration where "default_due_in = 24 * hour"

lemmas [dur_simps] = default_due_in_def

record register_input =
  ri_kind :: string
  ri_question :: string
  ri_options :: "string list"
  ri_proposed_default :: string
  ri_approver_spec :: string
  ri_already_open :: bool
  ri_plan_confirm :: bool

datatype register_code = CodeValidation | CodeAlreadyOpen

record register_plan =
  rp_accepted :: bool
  rp_error :: "register_code option"
  rp_error_field :: string
  rp_turn_end_required :: bool
  rp_pending_hitl :: bool
  rp_task_status :: string
  rp_feed_recorded :: bool
  rp_approver_spec :: string
  rp_purpose :: string

definition supported_approver_spec :: "(string \<Rightarrow> uuid option) \<Rightarrow> string \<Rightarrow> bool" where
  "supported_approver_spec parse_uuid spec \<longleftrightarrow>
     spec \<in> {''director'', ''any_member'', ''room_owner''} \<or> parse_uuid spec \<noteq> None"

definition reject :: "string \<Rightarrow> register_plan \<Rightarrow> register_plan" where
  "reject field p = p\<lparr>rp_accepted := False, rp_error := Some CodeValidation, rp_error_field := field,
     rp_pending_hitl := False, rp_turn_end_required := False\<rparr>"

definition plan_register :: "(string \<Rightarrow> uuid option) \<Rightarrow> register_input \<Rightarrow> register_plan" where
  "plan_register parse_uuid i =
     (let p = \<lparr>rp_accepted = False, rp_error = None, rp_error_field = [], rp_turn_end_required = False,
               rp_pending_hitl = False, rp_task_status = ''running'', rp_feed_recorded = False,
               rp_approver_spec = (if ri_approver_spec i = [] then ''director'' else ri_approver_spec i),
               rp_purpose = ''agent''\<rparr>
      in if ri_kind i \<notin> {''question'', ''choice'', ''approval'', ''info''} then reject ''type'' p
         else if ri_question i = [] then reject ''question'' p
         else if (ri_kind i = ''question'' \<or> ri_kind i = ''choice'') \<and> ri_proposed_default i = []
           then reject ''proposed_default'' p
         else if ri_kind i = ''choice'' \<and> length (ri_options i) < 2 then reject ''options'' p
         else if \<not> supported_approver_spec parse_uuid (rp_approver_spec p) then reject ''approver_spec'' p
         else if ri_plan_confirm i \<and> ri_kind i \<noteq> ''approval'' then reject ''plan_confirm'' p
         else
           let p = (if ri_plan_confirm i then p\<lparr>rp_purpose := ''plan''\<rparr> else p)
           in if ri_already_open i
              then p\<lparr>rp_accepted := False, rp_error := Some CodeAlreadyOpen, rp_feed_recorded := True\<rparr>
              else p\<lparr>rp_accepted := True, rp_turn_end_required := True, rp_pending_hitl := True\<rparr>)"

section \<open>The turn\<close>

record turn_plan =
  tp_messages_stored :: int
  tp_task_status :: string
  tp_lane_status :: string
  tp_card_posted :: bool
  tp_inbox_severity :: string
  tp_process_running :: bool
  tp_occupies_slot :: bool
  tp_workdir_preserved :: bool
  tp_heartbeat_required :: bool

definition plan_turn :: "int \<Rightarrow> bool \<Rightarrow> turn_plan" where
  "plan_turn posts turn_end =
     (let p = \<lparr>tp_messages_stored = posts, tp_task_status = [], tp_lane_status = [], tp_card_posted = True,
               tp_inbox_severity = ''action_required'', tp_process_running = False, tp_occupies_slot = False,
               tp_workdir_preserved = True, tp_heartbeat_required = False\<rparr>
      in if \<not> turn_end
         then p\<lparr>tp_task_status := ''running'', tp_lane_status := ''running'', tp_process_running := True,
                tp_occupies_slot := True, tp_heartbeat_required := True\<rparr>
         else p\<lparr>tp_task_status := ''waiting_human'', tp_lane_status := ''waiting_human''\<rparr>)"

section \<open>Who may answer\<close>

record authz =
  az_allowed :: bool
  az_can_respond_from :: "duration option"

record authz_input =
  az_spec :: string
  az_director :: uuid
  az_deputy :: uuid
  az_responder :: uuid
  az_is_member :: bool
  az_room_owner :: uuid
  az_room_delegate :: uuid
  az_elapsed :: duration
  az_due_in :: duration

definition due_of :: "authz_input \<Rightarrow> duration" where
  "due_of i = (if az_due_in i \<le> 0 then default_due_in else az_due_in i)"

text \<open>\<open>dueIn / 2\<close> truncates toward zero; the deadline is positive there.\<close>

definition half_due :: "authz_input \<Rightarrow> duration" where
  "half_due i = due_of i sdiv 2"

definition hand_over :: "authz_input \<Rightarrow> authz" where
  "hand_over i =
     (if az_elapsed i \<ge> half_due i then \<lparr>az_allowed = True, az_can_respond_from = None\<rparr>
      else \<lparr>az_allowed = False, az_can_respond_from = Some (half_due i)\<rparr>)"

definition authorize :: "(string \<Rightarrow> uuid option) \<Rightarrow> authz_input \<Rightarrow> authz" where
  "authorize parse_uuid i =
     (let yes = \<lparr>az_allowed = True, az_can_respond_from = None\<rparr>;
          never = \<lparr>az_allowed = False, az_can_respond_from = None\<rparr>
      in if az_spec i = ''any_member'' then \<lparr>az_allowed = az_is_member i, az_can_respond_from = None\<rparr>
         else if az_spec i = ''director'' then
           (if az_responder i = az_director i then yes
            else if az_deputy i \<noteq> uuid_nil \<and> az_responder i = az_deputy i then hand_over i
            else never)
         else if az_spec i = ''room_owner'' then
           (if az_room_owner i \<noteq> uuid_nil \<and> az_responder i = az_room_owner i then yes
            else if az_room_delegate i \<noteq> uuid_nil \<and> az_responder i = az_room_delegate i then hand_over i
            else never)
         else if parse_uuid (az_spec i) = Some (az_responder i) then yes
         else never)"

section \<open>Responding\<close>

datatype answer_section = SecQuestionAnswer | SecApprovalResult | SecRequestedInfo

definition prompt_sections :: "string \<Rightarrow> answer_section list" where
  "prompt_sections kind =
     (if kind = ''approval'' then [SecApprovalResult]
      else if kind = ''info'' then [SecRequestedInfo]
      else [SecQuestionAnswer])"

record respond_input =
  rs_kind :: string
  rs_status :: string
  rs_authz :: authz
  rs_approved :: "bool option"
  rs_answer :: string
  rs_reason :: string
  rs_agent_disabled :: bool

record respond_plan =
  ans_accepted :: bool
  ans_forbidden :: bool
  ans_can_respond_from :: "duration option"
  ans_ignored :: bool
  ans_status :: string
  ans_decision_records :: int
  ans_task_status :: string
  ans_requeue_held :: bool
  ans_sections :: "answer_section list"
  ans_prompt_approved :: "bool option"
  ans_prompt_reason :: string

definition plan_respond :: "respond_input \<Rightarrow> respond_plan" where
  "plan_respond i =
     (let p = \<lparr>ans_accepted = False, ans_forbidden = False,
               ans_can_respond_from = az_can_respond_from (rs_authz i), ans_ignored = False,
               ans_status = rs_status i, ans_decision_records = 0, ans_task_status = [],
               ans_requeue_held = False, ans_sections = [], ans_prompt_approved = None, ans_prompt_reason = []\<rparr>
      in if rs_status i \<noteq> ''open'' then
           p\<lparr>ans_accepted := True, ans_ignored := True, ans_decision_records := 1, ans_task_status := []\<rparr>
         else if \<not> az_allowed (rs_authz i) then p\<lparr>ans_forbidden := True\<rparr>
         else
           let p = p\<lparr>ans_accepted := True, ans_status := ''answered'', ans_decision_records := 1,
                     ans_sections := prompt_sections (rs_kind i)\<rparr>;
               p = (if rs_kind i = ''approval''
                    then p\<lparr>ans_prompt_approved := rs_approved i, ans_prompt_reason := rs_reason i\<rparr> else p)
           in if rs_agent_disabled i
              then p\<lparr>ans_task_status := ''waiting_human'', ans_requeue_held := True\<rparr>
              else p\<lparr>ans_task_status := ''queued''\<rparr>)"

section \<open>Expiry, slots, escalation\<close>

record expiry_plan =
  ep_status :: string
  ep_overdue :: bool
  ep_answer :: string
  ep_task_status :: string
  ep_decision_records :: int
  ep_decision_automatic :: bool
  ep_inbox_top :: bool

definition plan_expiry :: "string \<Rightarrow> string \<Rightarrow> string \<Rightarrow> expiry_plan" where
  "plan_expiry kind autonomy proposed_default =
     (let p = \<lparr>ep_status = [], ep_overdue = True, ep_answer = [], ep_task_status = [],
               ep_decision_records = 0, ep_decision_automatic = False, ep_inbox_top = True\<rparr>
      in if kind \<in> {''question'', ''choice''} \<and> autonomy = ''autonomous'' \<and> proposed_default \<noteq> []
         then p\<lparr>ep_status := ''auto_answered'', ep_answer := proposed_default, ep_task_status := ''queued'',
                ep_decision_records := 1, ep_decision_automatic := True, ep_overdue := False, ep_inbox_top := False\<rparr>
         else p\<lparr>ep_status := ''open'', ep_task_status := ''waiting_human''\<rparr>)"

record concurrency_plan =
  cn_session_state :: string
  cn_other_lane_runs :: bool
  cn_slots_used :: int

definition occupying_statuses :: "string list" where
  "occupying_statuses = [''dispatched'', ''preparing'', ''running'']"

definition plan_concurrency :: "int \<Rightarrow> int \<Rightarrow> concurrency_plan" where
  "plan_concurrency waiting_human running =
     \<lparr>cn_session_state = ''active'', cn_other_lane_runs = (running > 0), cn_slots_used = running\<rparr>"

record escalation_plan =
  es_path :: string
  es_wake_delegator :: bool
  es_hitl_requests :: int
  es_inbox_items :: int
  es_turn_end_required :: bool

definition plan_escalation :: "string \<Rightarrow> uuid \<Rightarrow> escalation_plan" where
  "plan_escalation via delegator =
     (if via = ''blocked'' then
        \<lparr>es_path = ''blocked'', es_wake_delegator = (delegator \<noteq> uuid_nil), es_hitl_requests = 0,
         es_inbox_items = (if delegator \<noteq> uuid_nil then 0 else 1), es_turn_end_required = True\<rparr>
      else \<lparr>es_path = ''hitl'', es_wake_delegator = False, es_hitl_requests = 1, es_inbox_items = 1,
            es_turn_end_required = True\<rparr>)"

section \<open>Who may answer, and when\<close>

definition entitled :: "(string \<Rightarrow> uuid option) \<Rightarrow> authz_input \<Rightarrow> bool" where
  "entitled parse_uuid i \<longleftrightarrow>
     (az_spec i = ''any_member'' \<and> az_is_member i)
   \<or> (az_spec i = ''director'' \<and> az_responder i = az_director i)
   \<or> (az_spec i = ''room_owner'' \<and> az_room_owner i \<noteq> uuid_nil \<and> az_responder i = az_room_owner i)
   \<or> (az_spec i \<notin> {''any_member'', ''director'', ''room_owner''} \<and> parse_uuid (az_spec i) = Some (az_responder i))"

definition stands_in :: "authz_input \<Rightarrow> bool" where
  "stands_in i \<longleftrightarrow>
     (az_spec i = ''director'' \<and> az_deputy i \<noteq> uuid_nil \<and> az_responder i = az_deputy i)
   \<or> (az_spec i = ''room_owner'' \<and> az_room_delegate i \<noteq> uuid_nil \<and> az_responder i = az_room_delegate i)"

lemma authorize_cases:
  "authorize pu i =
     (if entitled pu i then \<lparr>az_allowed = True, az_can_respond_from = None\<rparr>
      else if stands_in i then hand_over i
      else \<lparr>az_allowed = False, az_can_respond_from = None\<rparr>)"
  by (auto simp: authorize_def entitled_def stands_in_def Let_def)

text \<open>
  Who may answer a request: exactly the people its approver spec names, and the stand-in (the
  mission's deputy, or the room's delegate) once half of the deadline has passed. A refusal is
  honest: the moment it promises is the earliest at which the same person is allowed, and a refusal
  without a moment holds for ever.
\<close>

theorem authorize_exact:
  "az_allowed (authorize pu i) = (entitled pu i \<or> stands_in i \<and> half_due i \<le> az_elapsed i)
   \<and> (case az_can_respond_from (authorize pu i) of
        Some d \<Rightarrow> az_allowed (authorize pu (i\<lparr>az_elapsed := e\<rparr>)) = (d \<le> e)
      | None \<Rightarrow> az_allowed (authorize pu i) \<or> \<not> az_allowed (authorize pu (i\<lparr>az_elapsed := e\<rparr>)))"
proof -
  have same: "entitled pu (i\<lparr>az_elapsed := e\<rparr>) = entitled pu i" "stands_in (i\<lparr>az_elapsed := e\<rparr>) = stands_in i"
    "half_due (i\<lparr>az_elapsed := e\<rparr>) = half_due i"
    by (auto simp: entitled_def stands_in_def half_due_def due_of_def)
  then show ?thesis by (auto simp: authorize_cases hand_over_def)
qed

definition deputy_early :: authz_input where
  "deputy_early = \<lparr>az_spec = ''director'', az_director = 1, az_deputy = 2, az_responder = 2, az_is_member = True,
     az_room_owner = 0, az_room_delegate = 0, az_elapsed = 3 * hour, az_due_in = 8 * hour\<rparr>"

theorem authorize_exact_witness:
  "\<not> az_allowed (authorize Map.empty deputy_early)
   \<and> az_allowed (authorize Map.empty (deputy_early\<lparr>az_elapsed := 4 * hour\<rparr>))"
proof -
  have "az_can_respond_from (authorize Map.empty deputy_early) = Some (4 * hour)"
    "half_due deputy_early = 4 * hour" "\<not> entitled Map.empty deputy_early"
    by (simp_all add: authorize_cases deputy_early_def entitled_def stands_in_def hand_over_def half_due_def
        due_of_def dur_simps)
  with authorize_exact [of Map.empty deputy_early "4 * hour"] show ?thesis
    by (simp add: deputy_early_def dur_simps)
qed

text \<open>The hand-over point lies strictly inside the deadline.\<close>

lemma half_due_bounds: "due_of i > 1 \<Longrightarrow> 0 < half_due i \<and> half_due i < due_of i"
  by (auto simp: half_due_def signed_divide_int_def)

text \<open>
  A registration is accepted exactly when it is well formed and the task holds no open request;
  every refusal leaves the task's \<open>pending_hitl\<close> and turn-end flags down, and a request stored
  with a question or a choice always carries the answer it proceeds with.
\<close>

theorem plan_register_exact:
  "rp_accepted (plan_register pu i) =
     (ri_kind i \<in> {''question'', ''choice'', ''approval'', ''info''} \<and> ri_question i \<noteq> []
      \<and> (ri_kind i \<in> {''question'', ''choice''} \<longrightarrow> ri_proposed_default i \<noteq> [])
      \<and> (ri_kind i = ''choice'' \<longrightarrow> 2 \<le> length (ri_options i))
      \<and> (ri_approver_spec i = [] \<or> supported_approver_spec pu (ri_approver_spec i))
      \<and> (ri_plan_confirm i \<longrightarrow> ri_kind i = ''approval'') \<and> \<not> ri_already_open i)
   \<and> rp_pending_hitl (plan_register pu i) = rp_accepted (plan_register pu i)
   \<and> rp_turn_end_required (plan_register pu i) = rp_accepted (plan_register pu i)
   \<and> (rp_error (plan_register pu i) = None) = rp_accepted (plan_register pu i)"
  by (cases "ri_kind i = ''choice''"; cases "ri_kind i = ''question''"; cases "ri_kind i = ''approval''")
     (simp_all add: plan_register_def reject_def Let_def supported_approver_spec_def)

definition plan_question :: register_input where
  "plan_question = \<lparr>ri_kind = ''approval'', ri_question = ''go?'', ri_options = [], ri_proposed_default = [],
     ri_approver_spec = [], ri_already_open = False, ri_plan_confirm = True\<rparr>"

theorem plan_register_exact_witness:
  "rp_accepted (plan_register Map.empty plan_question) \<and> rp_pending_hitl (plan_register Map.empty plan_question)"
proof -
  note exact = plan_register_exact [of Map.empty plan_question]
  then have "rp_accepted (plan_register Map.empty plan_question)"
    by (simp add: plan_question_def supported_approver_spec_def)
  with exact show ?thesis by blast
qed

section \<open>The life of one request\<close>

text \<open>
  A request as the two production callers of the plans see it: the row's kind, status and decision
  rows, moved by a response (\<open>httpapi/handlers_hitl.go\<close>) or by the deadline sweep over open rows
  (\<open>httpapi/hitl_sweep.go\<close>), under whatever autonomy and default answer the sweep reads.
\<close>

record request =
  rq_kind :: string
  rq_status :: string
  rq_decisions :: int
  rq_automatic :: bool

inductive request_step :: "request \<Rightarrow> request \<Rightarrow> bool" where
  Respond: "i = \<lparr>rs_kind = rq_kind r, rs_status = rq_status r, rs_authz = az, rs_approved = ok,
                 rs_answer = ans, rs_reason = why, rs_agent_disabled = dis\<rparr> \<Longrightarrow>
            ans_accepted (plan_respond i) \<Longrightarrow>
            request_step r (r\<lparr>rq_status := ans_status (plan_respond i),
                              rq_decisions := ans_decision_records (plan_respond i)\<rparr>)"
| Expire: "rq_status r = ''open'' \<Longrightarrow>
           p = plan_expiry (rq_kind r) autonomy default_answer \<Longrightarrow>
           request_step r (r\<lparr>rq_status := ep_status p, rq_decisions := rq_decisions r + ep_decision_records p,
                             rq_automatic := ep_decision_automatic p\<rparr>)"

inductive_cases request_stepE: "request_step r r'"

definition request_inv :: "request \<Rightarrow> bool" where
  "request_inv r \<longleftrightarrow>
     rq_status r \<in> {''open'', ''answered'', ''auto_answered''} \<and>
     rq_decisions r = (if rq_status r = ''open'' then 0 else 1) \<and>
     (rq_automatic r \<longleftrightarrow> rq_status r = ''auto_answered'') \<and>
     (rq_status r = ''auto_answered'' \<longrightarrow> rq_kind r \<in> {''question'', ''choice''})"

lemma request_inv_step: "request_step r r' \<Longrightarrow> request_inv r \<Longrightarrow> request_inv r'"
  by (erule request_stepE)
     (auto simp: request_inv_def plan_respond_def plan_expiry_def Let_def split: if_splits)

lemma request_step_static: "request_step r r' \<Longrightarrow> rq_kind r' = rq_kind r"
  by (erule request_stepE) auto

lemma request_closed_step: "request_step r r' \<Longrightarrow> request_inv r \<Longrightarrow> rq_status r \<noteq> ''open'' \<Longrightarrow> r' = r"
  by (erule request_stepE) (auto simp: request_inv_def plan_respond_def Let_def)

interpretation hitl_sm: status_machine "\<lambda>r r'. request_inv r \<and> request_step r r' \<and> r \<noteq> r'"
    "\<lambda>r. rq_status r \<noteq> ''open''"
  by unfold_locales (auto dest: request_closed_step)

lemma request_run:
  assumes "request_step\<^sup>*\<^sup>* r r'" and "request_inv r"
  shows "request_inv r' \<and> rq_kind r' = rq_kind r
       \<and> (rq_status r \<noteq> ''open'' \<longrightarrow> r' = r)"
  using assms
  by (induction rule: rtranclp_induct)
     (auto dest: request_inv_step request_step_static request_closed_step)

text \<open>
  From registration on, under any sequence of responses (by anyone, in any order) and deadline
  sweeps, a request is decided at most once, a decided request never changes again, and neither an
  approval nor an information request is ever answered automatically.
\<close>

theorem request_decided_once:
  assumes "request_step\<^sup>*\<^sup>* \<lparr>rq_kind = k, rq_status = ''open'', rq_decisions = 0, rq_automatic = False\<rparr> r"
    and "request_step\<^sup>*\<^sup>* r r'"
  shows "rq_decisions r \<le> 1 \<and> (rq_status r \<noteq> ''open'' \<longrightarrow> r' = r)
       \<and> (k \<in> {''approval'', ''info''} \<longrightarrow> \<not> rq_automatic r \<and> rq_status r \<noteq> ''auto_answered'')"
proof -
  have "request_inv \<lparr>rq_kind = k, rq_status = ''open'', rq_decisions = 0, rq_automatic = False\<rparr>"
    by (simp add: request_inv_def)
  from request_run [OF assms(1) this] have inv: "request_inv r" and k: "rq_kind r = k" by auto
  from request_run [OF assms(2) inv] have "rq_status r \<noteq> ''open'' \<longrightarrow> r' = r" by blast
  with inv k show ?thesis by (auto simp: request_inv_def split: if_splits)
qed

definition approved_once :: request where
  "approved_once = \<lparr>rq_kind = ''approval'', rq_status = ''answered'', rq_decisions = 1, rq_automatic = False\<rparr>"

lemma approval_answered:
  "request_step \<lparr>rq_kind = ''approval'', rq_status = ''open'', rq_decisions = 0, rq_automatic = False\<rparr> approved_once"
  using request_step.Respond [OF refl, of "\<lparr>rq_kind = ''approval'', rq_status = ''open'', rq_decisions = 0, rq_automatic = False\<rparr>"
      "\<lparr>az_allowed = True, az_can_respond_from = None\<rparr>" "Some True" "[]" "[]" False]
  by (simp add: plan_respond_def Let_def approved_once_def)

theorem request_decided_once_witness: "rq_decisions approved_once \<le> 1 \<and> \<not> rq_automatic approved_once"
  using request_decided_once [OF r_into_rtranclp [of request_step, OF approval_answered] rtranclp.rtrancl_refl] by simp

end
