(* ===== verification/Task_Cards.thy ===== *)
theory Task_Cards
  imports Colab_Prelude
begin

text \<open>
  The pure half of \<open>server/internal/cards/rules.go\<close> (PRD FR-3.8): the delegation card's check, the
  result card's check and its downgrade of unsupported verdicts, the automatic result, the card
  state machine, who may judge, labels, and the question table. A Go string is a list of
  characters, so a rune count is a length; the sentences of the error messages are left out and an
  error is its field path and its code. \<open>parse_uuid\<close> stands for \<open>uuid.Parse\<close>.
\<close>

section \<open>Vocabulary\<close>

datatype card_status = InProgress | ResultSubmitted | Accepted | CardCancelled

datatype task_kind = KindNormal | KindCard | KindQuestion

definition max_goal :: nat where "max_goal = 500"
definition max_criteria :: nat where "max_criteria = 7"
definition max_criterion :: nat where "max_criterion = 300"
definition max_boundaries :: nat where "max_boundaries = 500"
definition max_refs :: nat where "max_refs = 10"
definition max_output_format :: nat where "max_output_format = 200"
definition max_summary :: nat where "max_summary = 600"
definition max_evidence :: nat where "max_evidence = 5"
definition max_note :: nat where "max_note = 300"
definition max_list_item :: nat where "max_list_item = 300"
definition max_list_items :: nat where "max_list_items = 10"
definition max_deviation :: nat where "max_deviation = 600"
definition max_follow_ups :: int where "max_follow_ups = 2"

definition methods :: "string list" where
  "methods = [''test'', ''artifact'', ''run'', ''review'', ''inspect'']"

record criterion =
  cr_n :: int
  cr_text :: string
  cr_method :: string

record card_ref =
  rf_kind :: string
  rf_id :: uuid

record draft =
  dr_assignee :: uuid
  dr_goal :: string
  dr_criteria :: "criterion list"
  dr_boundaries :: string
  dr_refs :: "card_ref list"
  dr_output_format :: "string option"
  dr_budget :: "rat option"

text \<open>A field path: a name, or an element of a list and one of its fields, one or two levels deep.\<close>

datatype field = Fld string | FldAt string nat string | FldIn string nat string nat string

type_synonym field_error = "field \<times> string"

text \<open>\<open>strings.TrimSpace\<close> and \<open>unicode.IsSpace\<close> on characters below 256.\<close>

definition is_space :: "char \<Rightarrow> bool" where
  "is_space c \<longleftrightarrow> of_char c \<in> {9::nat, 10, 11, 12, 13, 32, 133, 160}"

definition trim_space :: "string \<Rightarrow> string" where
  "trim_space s = rev (dropWhile is_space (rev (dropWhile is_space s)))"

definition blank :: "string \<Rightarrow> bool" where
  "blank s \<longleftrightarrow> trim_space s = []"

definition valid_method :: "string \<Rightarrow> bool" where
  "valid_method m = List.member methods m"

section \<open>The delegation card\<close>

text \<open>The checks append to one list; \<open>complain\<close> is one \<open>add\<close>.\<close>

definition complain :: "bool \<Rightarrow> field \<Rightarrow> string \<Rightarrow> field_error list" where
  "complain bad f code = (if bad then [(f, code)] else [])"

definition text_errors :: "field \<Rightarrow> nat \<Rightarrow> string \<Rightarrow> field_error list" where
  "text_errors f limit s =
     (if blank s then [(f, ''required'')] else if length s > limit then [(f, ''too_long'')] else [])"

definition criterion_errors :: "nat \<times> criterion \<Rightarrow> field_error list" where
  "criterion_errors ic = (case ic of (i, c) \<Rightarrow>
     text_errors (FldAt ''card.criteria'' i ''text'') max_criterion (cr_text c)
     @ complain (\<not> valid_method (cr_method c)) (FldAt ''card.criteria'' i ''method'') ''method_required'')"

definition ref_errors :: "nat \<times> card_ref \<Rightarrow> field_error list" where
  "ref_errors ir = (case ir of (i, r) \<Rightarrow>
     complain (rf_kind r \<noteq> ''artifact'' \<and> rf_kind r \<noteq> ''decision'' \<and> rf_kind r \<noteq> ''message'')
       (FldAt ''card.refs'' i ''kind'') ''invalid''
     @ complain (rf_id r = uuid_nil) (FldAt ''card.refs'' i ''id'') ''required'')"

definition check_draft :: "draft \<Rightarrow> uuid \<Rightarrow> field_error list" where
  "check_draft d delegator =
     (if dr_assignee d = uuid_nil then [(Fld ''card.agent_id'', ''required'')]
      else complain (dr_assignee d = delegator) (Fld ''card.agent_id'') ''self_delegation'')
     @ text_errors (Fld ''card.goal'') max_goal (dr_goal d)
     @ (if dr_criteria d = [] then [(Fld ''card.criteria'', ''required'')]
        else complain (length (dr_criteria d) > max_criteria) (Fld ''card.criteria'') ''too_many'')
     @ concat (map criterion_errors (List.enumerate 0 (dr_criteria d)))
     @ text_errors (Fld ''card.boundaries'') max_boundaries (dr_boundaries d)
     @ complain (length (dr_refs d) > max_refs) (Fld ''card.refs'') ''too_many''
     @ concat (map ref_errors (List.enumerate 0 (dr_refs d)))
     @ (case dr_output_format d of None \<Rightarrow> []
        | Some f \<Rightarrow> complain (length f > max_output_format) (Fld ''card.output_format'') ''too_long'')
     @ (case dr_budget d of None \<Rightarrow> []
        | Some b \<Rightarrow> complain (b \<le> 0) (Fld ''card.budget_usd'') ''invalid'')"

definition numbered :: "criterion list \<Rightarrow> criterion list" where
  "numbered cs = map (\<lambda>(i, c). \<lparr>cr_n = int i + 1, cr_text = trim_space (cr_text c), cr_method = cr_method c\<rparr>)
                     (List.enumerate 0 cs)"

section \<open>The result card\<close>

record evidence =
  ev_kind :: string
  ev_ref :: string
  ev_label :: "string option"

record verdict_in =
  vi_criterion :: int
  vi_verdict :: string
  vi_evidence :: "evidence list"
  vi_note :: "string option"

record result_in =
  in_summary :: string
  in_verdicts :: "verdict_in list"
  in_confirmed :: "string list"
  in_assumed :: "string list"
  in_deviations :: "string option"
  in_open_issues :: "string option"

record verdict =
  vd_criterion :: int
  vd_verdict :: string
  vd_stated :: string
  vd_downgraded :: bool
  vd_evidence :: "evidence list"
  vd_note :: "string option"

record card_result =
  rt_summary :: string
  rt_verdicts :: "verdict list"
  rt_confirmed :: "string list"
  rt_assumed :: "string list"
  rt_deviations :: "string option"
  rt_open_issues :: "string option"
  rt_met_count :: int
  rt_auto :: bool

definition is_hex :: "char \<Rightarrow> bool" where
  "is_hex c = List.member ''0123456789abcdefABCDEF'' c"

definition commit_ref :: "string \<Rightarrow> bool" where
  "commit_ref s \<longleftrightarrow> 7 \<le> length s \<and> length s \<le> 40 \<and> list_all is_hex s"

definition evidence_errors :: "(string \<Rightarrow> uuid option) \<Rightarrow> nat \<Rightarrow> nat \<times> evidence \<Rightarrow> field_error list" where
  "evidence_errors parse_uuid i je = (case je of (j, e) \<Rightarrow>
     if ev_kind e = ''artifact'' \<or> ev_kind e = ''message''
     then complain (parse_uuid (ev_ref e) = None) (FldIn ''verdicts'' i ''evidence'' j ''ref'') ''invalid''
     else if ev_kind e = ''commit''
     then complain (\<not> commit_ref (ev_ref e)) (FldIn ''verdicts'' i ''evidence'' j ''ref'') ''invalid''
     else [(FldIn ''verdicts'' i ''evidence'' j ''kind'', ''invalid'')])"

definition verdict_errors :: "(string \<Rightarrow> uuid option) \<Rightarrow> nat \<Rightarrow> nat \<times> verdict_in \<Rightarrow> field_error list" where
  "verdict_errors parse_uuid n iv = (case iv of (i, v) \<Rightarrow>
     complain (vi_criterion v < 1 \<or> vi_criterion v > int n) (FldAt ''verdicts'' i ''criterion'') ''out_of_range''
     @ complain (vi_verdict v \<noteq> ''met'' \<and> vi_verdict v \<noteq> ''partial'' \<and> vi_verdict v \<noteq> ''unmet'')
         (FldAt ''verdicts'' i ''verdict'') ''invalid''
     @ complain (length (vi_evidence v) > max_evidence) (FldAt ''verdicts'' i ''evidence'') ''too_many''
     @ concat (map (evidence_errors parse_uuid i) (List.enumerate 0 (vi_evidence v)))
     @ (case vi_note v of None \<Rightarrow> [] | Some s \<Rightarrow> complain (length s > max_note) (FldAt ''verdicts'' i ''note'') ''too_long''))"

text \<open>\<open>seen[c]\<close>: only verdicts in range are counted, and \<open>c\<close> runs over the range.\<close>

definition seen :: "result_in \<Rightarrow> nat \<Rightarrow> nat" where
  "seen i c = length (filter (\<lambda>v. vi_criterion v = int c) (in_verdicts i))"

definition list_errors :: "string \<Rightarrow> string list \<Rightarrow> field_error list" where
  "list_errors name xs =
     complain (length xs > max_list_items) (Fld name) ''too_many''
     @ concat (map (\<lambda>(i, x). text_errors (FldAt name i []) max_list_item x) (List.enumerate 0 xs))"

definition long_errors :: "string \<Rightarrow> string option \<Rightarrow> field_error list" where
  "long_errors name s = (case s of None \<Rightarrow> [] | Some x \<Rightarrow> complain (length x > max_deviation) (Fld name) ''too_long'')"

definition result_errors :: "(string \<Rightarrow> uuid option) \<Rightarrow> result_in \<Rightarrow> criterion list \<Rightarrow> field_error list" where
  "result_errors parse_uuid i criteria =
     (let n = length criteria in
      text_errors (Fld ''summary'') max_summary (in_summary i)
      @ concat (map (verdict_errors parse_uuid n) (List.enumerate 0 (in_verdicts i)))
      @ complain (\<exists>c \<in> set [1..<Suc n]. seen i c = 0) (Fld ''verdicts'') ''missing_criteria''
      @ complain (\<exists>c \<in> set [1..<Suc n]. seen i c > 1) (Fld ''verdicts'') ''duplicate_criteria''
      @ complain (in_confirmed i = []) (Fld ''confirmed'') ''required''
      @ list_errors ''confirmed'' (in_confirmed i)
      @ list_errors ''assumed'' (in_assumed i)
      @ long_errors ''deviations'' (in_deviations i)
      @ long_errors ''open_issues'' (in_open_issues i))"

definition met_supported :: "string \<Rightarrow> evidence list \<Rightarrow> bool" where
  "met_supported mthd evs =
     (if evs = [] then False else if mthd \<noteq> ''artifact'' then True
      else list_ex (\<lambda>e. ev_kind e = ''artifact'') evs)"

definition store_verdict :: "criterion list \<Rightarrow> verdict_in \<Rightarrow> verdict" where
  "store_verdict criteria v =
     (let down = (vi_verdict v = ''met''
                  \<and> \<not> met_supported (cr_method (criteria ! nat (vi_criterion v - 1))) (vi_evidence v))
      in \<lparr>vd_criterion = vi_criterion v, vd_verdict = (if down then ''partial'' else vi_verdict v),
          vd_stated = vi_verdict v, vd_downgraded = down, vd_evidence = vi_evidence v, vd_note = vi_note v\<rparr>)"

definition check_result ::
    "(string \<Rightarrow> uuid option) \<Rightarrow> result_in \<Rightarrow> criterion list \<Rightarrow> field_error list + card_result \<times> int list" where
  "check_result parse_uuid i criteria =
     (let errs = result_errors parse_uuid i criteria
      in if errs \<noteq> [] then Inl errs
         else
           let vs = map (store_verdict criteria) (in_verdicts i)
           in Inr (\<lparr>rt_summary = trim_space (in_summary i),
                    rt_verdicts = sort_key vd_criterion vs,
                    rt_confirmed = in_confirmed i, rt_assumed = in_assumed i,
                    rt_deviations = in_deviations i, rt_open_issues = in_open_issues i,
                    rt_met_count = int (length (filter (\<lambda>v. vd_verdict v = ''met'') vs)),
                    rt_auto = False\<rparr>,
                   sort (map vd_criterion (filter vd_downgraded vs))))"

text \<open>The automatic result: every criterion unmet. The fixed summary and note are abstract texts.\<close>

definition auto_summary :: string where "auto_summary = ''no result card''"
definition auto_note :: string where "auto_note = ''not checked''"

definition auto_result :: "nat \<Rightarrow> card_result" where
  "auto_result n =
     \<lparr>rt_summary = auto_summary,
      rt_verdicts = map (\<lambda>c. \<lparr>vd_criterion = int c, vd_verdict = ''unmet'', vd_stated = ''unmet'',
                             vd_downgraded = False, vd_evidence = [], vd_note = Some auto_note\<rparr>) [1..<Suc n],
      rt_confirmed = [], rt_assumed = [], rt_deviations = None, rt_open_issues = None,
      rt_met_count = 0, rt_auto = True\<rparr>"

section \<open>The state machine and its judges\<close>

datatype card_action = ActSubmit | ActAccept | ActRevise | ActCancel

fun card_transition :: "card_status \<Rightarrow> card_action \<Rightarrow> bool \<Rightarrow> card_status \<times> bool" where
  "card_transition from ActSubmit p =
     (if from = InProgress \<or> from = ResultSubmitted then (ResultSubmitted, True) else (from, False))"
| "card_transition from ActAccept p = (if from = ResultSubmitted then (Accepted, True) else (from, False))"
| "card_transition from ActRevise p =
     (if from = ResultSubmitted \<or> p \<and> from = Accepted then (InProgress, True) else (from, False))"
| "card_transition from ActCancel p =
     (if from = InProgress \<or> from = ResultSubmitted then (CardCancelled, True) else (from, False))"

record judge =
  jd_agent :: "uuid option"
  jd_person :: "uuid option"

record judges =
  js_delegator :: uuid
  js_people :: "uuid list"

definition may_judge :: "judge \<Rightarrow> judges \<Rightarrow> bool" where
  "may_judge j w =
     (case jd_agent j of Some a \<Rightarrow> a = js_delegator w
      | None \<Rightarrow> (case jd_person j of Some p \<Rightarrow> List.member (js_people w) p | None \<Rightarrow> False))"

definition card_actions :: "card_status \<Rightarrow> judge \<Rightarrow> judges \<Rightarrow> card_action list" where
  "card_actions status j w =
     (if \<not> may_judge j w then []
      else let person = (jd_person j \<noteq> None)
           in (if snd (card_transition status ActAccept person) then [ActAccept] else [])
              @ (if snd (card_transition status ActRevise person) then [ActRevise] else []))"

section \<open>Labels, the question table, patches\<close>

definition digit :: "nat \<Rightarrow> char" where
  "digit d = char_of (48 + d)"

fun itoa :: "nat \<Rightarrow> string" where
  "itoa n = (if n < 10 then [digit n] else itoa (n div 10) @ [digit (n mod 10)])"

declare itoa.simps [simp del]

definition is_digit :: "char \<Rightarrow> bool" where
  "is_digit c \<longleftrightarrow> 48 \<le> (of_char c :: nat) \<and> (of_char c :: nat) \<le> 57"

definition digits_value :: "string \<Rightarrow> int" where
  "digits_value s = foldl (\<lambda>n c. 10 * n + int (of_char c - 48)) 0 s"

text \<open>\<open>strconv.Atoi\<close>: an optional sign, decimal digits, an error outside 64 bits.\<close>

definition atoi :: "string \<Rightarrow> int option" where
  "atoi s =
     (let neg = (s \<noteq> [] \<and> hd s = CHR ''-'');
          ds = (if s \<noteq> [] \<and> (hd s = CHR ''-'' \<or> hd s = CHR ''+'') then tl s else s);
          v = (if neg then - digits_value ds else digits_value ds)
      in if ds = [] \<or> \<not> list_all is_digit ds then None
         else if v < - (2 ^ 63) \<or> v \<ge> 2 ^ 63 then None else Some v)"

definition card_label :: "nat \<Rightarrow> string" where
  "card_label n = ''C-'' @ itoa n"

definition parse_label :: "string \<Rightarrow> int option" where
  "parse_label s0 =
     (let s = trim_space s0
      in if length s < 3 \<or> (s ! 0 \<noteq> CHR ''C'' \<and> s ! 0 \<noteq> CHR ''c'') \<or> s ! 1 \<noteq> CHR ''-'' then None
         else case atoi (drop 2 s) of None \<Rightarrow> None | Some n \<Rightarrow> if n < 1 then None else Some n)"

definition question_commands :: "string list" where
  "question_commands =
     [''room_get'', ''room_messages'', ''room_list'', ''room_read'', ''artifact_get'', ''card_get'',
      ''card_list'', ''memory_get'', ''message_post'', ''status_set'', ''hitl_ask'']"

definition in_question_table :: "string \<Rightarrow> bool" where
  "in_question_table cmd = List.member question_commands cmd"

definition question_status_allowed :: "string \<Rightarrow> bool" where
  "question_status_allowed status \<longleftrightarrow> status = ''working'' \<or> status = ''blocked''"

definition apply_patch :: "draft \<Rightarrow> string option \<Rightarrow> criterion list option \<Rightarrow> string option \<Rightarrow>
    card_ref list option \<Rightarrow> string option option \<Rightarrow> rat option option \<Rightarrow> draft" where
  "apply_patch r goal criteria boundaries refs output budget =
     r\<lparr>dr_goal := (case goal of None \<Rightarrow> dr_goal r | Some g \<Rightarrow> g),
       dr_criteria := (case criteria of None \<Rightarrow> dr_criteria r | Some c \<Rightarrow> c),
       dr_boundaries := (case boundaries of None \<Rightarrow> dr_boundaries r | Some b \<Rightarrow> b),
       dr_refs := (case refs of None \<Rightarrow> dr_refs r | Some x \<Rightarrow> x),
       dr_output_format := (case output of None \<Rightarrow> dr_output_format r | Some x \<Rightarrow> x),
       dr_budget := (case budget of None \<Rightarrow> dr_budget r | Some x \<Rightarrow> x)\<rparr>"

section \<open>What the checks accept\<close>

lemma complain_empty [simp]: "complain b f c = [] \<longleftrightarrow> \<not> b"
  by (simp add: complain_def)

lemma text_errors_empty [simp]: "text_errors f n s = [] \<longleftrightarrow> \<not> blank s \<and> length s \<le> n"
  by (simp add: text_errors_def)

definition good_evidence :: "(string \<Rightarrow> uuid option) \<Rightarrow> evidence \<Rightarrow> bool" where
  "good_evidence pu e \<longleftrightarrow>
     (ev_kind e \<in> {''artifact'', ''message''} \<and> pu (ev_ref e) \<noteq> None) \<or> (ev_kind e = ''commit'' \<and> commit_ref (ev_ref e))"

definition good_verdict :: "(string \<Rightarrow> uuid option) \<Rightarrow> nat \<Rightarrow> verdict_in \<Rightarrow> bool" where
  "good_verdict pu n v \<longleftrightarrow>
     1 \<le> vi_criterion v \<and> vi_criterion v \<le> int n \<and> vi_verdict v \<in> {''met'', ''partial'', ''unmet''}
     \<and> length (vi_evidence v) \<le> max_evidence \<and> list_all (good_evidence pu) (vi_evidence v)
     \<and> pred_option (\<lambda>s. length s \<le> max_note) (vi_note v)"

lemma evidence_errors_empty: "evidence_errors pu i (j, e) = [] \<longleftrightarrow> good_evidence pu e"
  by (auto simp: evidence_errors_def good_evidence_def)

lemma verdict_errors_empty: "verdict_errors pu n (i, v) = [] \<longleftrightarrow> good_verdict pu n v"
  by (auto simp: verdict_errors_def good_verdict_def concat_map_empty enumerate_all evidence_errors_empty
      list_all_length split: option.split)

lemma result_errors_empty:
  assumes "result_errors pu i criteria = []"
  shows "list_all (good_verdict pu (length criteria)) (in_verdicts i)"
    and "c \<in> {1..length criteria} \<Longrightarrow> seen i c = 1"
    and "in_confirmed i \<noteq> []"
proof -
  show "list_all (good_verdict pu (length criteria)) (in_verdicts i)" "in_confirmed i \<noteq> []"
    using assms
    by (auto simp: result_errors_def Let_def concat_map_empty enumerate_all verdict_errors_empty list_all_length)
  assume "c \<in> {1..length criteria}"
  then have c: "c \<in> set [1..<Suc (length criteria)]" by (simp add: less_Suc_eq_le del: upt_Suc)
  from assms have "\<not> (\<exists>c \<in> set [1..<Suc (length criteria)]. seen i c = 0)"
    and "\<not> (\<exists>c \<in> set [1..<Suc (length criteria)]. seen i c > 1)"
    by (simp_all add: result_errors_def Let_def del: set_upt)
  with c have "seen i c \<noteq> 0 \<and> \<not> seen i c > 1" by (metis (no_types))
  then show "seen i c = 1" by linarith
qed

section \<open>Correctness of the cards\<close>

lemma seen_map: "seen i c = length (filter (\<lambda>y. y = int c) (map vi_criterion (in_verdicts i)))"
  by (simp add: seen_def filter_map comp_def)

lemma criteria_judged_once:
  assumes "result_errors pu i criteria = []"
  shows "distinct (map vi_criterion (in_verdicts i))"
    and "set (map vi_criterion (in_verdicts i)) = int ` {1..length criteria}"
proof -
  let ?n = "length criteria"
  note ok = result_errors_empty [OF assms]
  have range: "\<exists>c \<in> {1..?n}. x = int c" if "x \<in> set (map vi_criterion (in_verdicts i))" for x
  proof -
    from that ok(1) have "1 \<le> x" "x \<le> int ?n" by (auto simp: list_all_iff good_verdict_def)
    then show ?thesis by (intro bexI [of _ "nat x"]) auto
  qed
  show "distinct (map vi_criterion (in_verdicts i))"
  proof (rule distinct_if_once)
    fix x assume "x \<in> set (map vi_criterion (in_verdicts i))"
    from range [OF this] ok(2) show "length (filter (\<lambda>y. y = x) (map vi_criterion (in_verdicts i))) = 1"
      by (auto simp: seen_map)
  qed
  have "int c \<in> set (map vi_criterion (in_verdicts i))" if "c \<in> {1..?n}" for c
  proof -
    from ok(2) [OF that] have "length (filter (\<lambda>y. y = int c) (map vi_criterion (in_verdicts i))) = 1"
      by (simp only: seen_map)
    then show ?thesis by (rule once_member)
  qed
  then show "set (map vi_criterion (in_verdicts i)) = int ` {1..?n}" using range by blast
qed

lemma store_verdict_criterion [simp]: "vd_criterion (store_verdict cs v) = vi_criterion v"
  by (simp add: store_verdict_def Let_def)

definition sound_verdict :: "criterion list \<Rightarrow> verdict \<Rightarrow> bool" where
  "sound_verdict criteria v \<longleftrightarrow>
     (vd_verdict v = ''met'' \<longrightarrow>
        vd_evidence v \<noteq> [] \<and>
        (cr_method (criteria ! nat (vd_criterion v - 1)) = ''artifact'' \<longrightarrow> (\<exists>e \<in> set (vd_evidence v). ev_kind e = ''artifact'')))
     \<and> (if vd_downgraded v then vd_stated v = ''met'' \<and> vd_verdict v = ''partial'' else vd_verdict v = vd_stated v)"

lemma store_verdict_sound: "sound_verdict criteria (store_verdict criteria v)"
  by (auto simp: sound_verdict_def store_verdict_def met_supported_def Let_def list_ex_iff split: if_splits)

text \<open>
  A stored result judges every criterion of its card exactly once, in order, and claims no more
  than its evidence: each \<open>met\<close> that is stored has evidence (an artifact where the criterion is
  checked by one), every other stated \<open>met\<close> is kept as \<open>partial\<close> and reported back, nothing else is
  changed, and the met count is the number of \<open>met\<close> verdicts.
\<close>

theorem check_result_sound:
  assumes "check_result pu i criteria = Inr (r, down)"
  shows "map vd_criterion (rt_verdicts r) = map int [1..<Suc (length criteria)]
     \<and> list_all (sound_verdict criteria) (rt_verdicts r)
     \<and> rt_met_count r = int (length (filter (\<lambda>v. vd_verdict v = ''met'') (rt_verdicts r)))
     \<and> set down = vd_criterion ` set (filter vd_downgraded (rt_verdicts r))
     \<and> rt_confirmed r \<noteq> []"
proof -
  let ?vs = "map (store_verdict criteria) (in_verdicts i)"
  from assms have ok: "result_errors pu i criteria = []"
    and r: "rt_verdicts r = sort_key vd_criterion ?vs" "rt_confirmed r = in_confirmed i"
      "rt_met_count r = int (length (filter (\<lambda>v. vd_verdict v = ''met'') ?vs))"
      "down = sort (map vd_criterion (filter vd_downgraded ?vs))"
    by (auto simp: check_result_def Let_def split: if_splits)
  have crit: "map vd_criterion ?vs = map vi_criterion (in_verdicts i)" by (simp add: comp_def)
  have "map vd_criterion (rt_verdicts r) = map int [1..<Suc (length criteria)]"
    unfolding r map_sort_key crit
    by (rule sort_enumerates [OF criteria_judged_once(1) [OF ok]])
       (use criteria_judged_once(2) [OF ok] in \<open>simp add: atLeastLessThanSuc_atLeastAtMost\<close>)
  moreover have "list_all (sound_verdict criteria) (rt_verdicts r)"
    by (auto simp: r list_all_iff store_verdict_sound)
  moreover have "rt_met_count r = int (length (filter (\<lambda>v. vd_verdict v = ''met'') (rt_verdicts r)))"
    by (simp add: r filter_sort)
  moreover have "set down = vd_criterion ` set (filter vd_downgraded (rt_verdicts r))"
    by (auto simp: r)
  ultimately show ?thesis using result_errors_empty(3) [OF ok] by (simp add: r)
qed

definition one_criterion :: "criterion list" where
  "one_criterion = [\<lparr>cr_n = 1, cr_text = ''doc'', cr_method = ''artifact''\<rparr>]"

definition bare_met :: result_in where
  "bare_met = \<lparr>in_summary = ''done'', in_verdicts = [\<lparr>vi_criterion = 1, vi_verdict = ''met'', vi_evidence = [], vi_note = None\<rparr>],
     in_confirmed = [''ran''], in_assumed = [], in_deviations = None, in_open_issues = None\<rparr>"

theorem check_result_sound_witness:
  "\<exists>r down. check_result Map.empty bare_met one_criterion = Inr (r, down) \<and> map vd_criterion (rt_verdicts r) = [1]"
proof -
  have "result_errors Map.empty bare_met one_criterion = []"
    by (simp add: result_errors_def bare_met_def one_criterion_def Let_def text_errors_def complain_def blank_def
        trim_space_def is_space_def max_summary_def verdict_errors_def max_evidence_def seen_def list_errors_def
        max_list_items_def max_list_item_def long_errors_def)
  then obtain r down where r: "check_result Map.empty bare_met one_criterion = Inr (r, down)"
    by (auto simp: check_result_def Let_def)
  have "map vd_criterion (rt_verdicts r) = map int [1..<Suc (length one_criterion)]"
    using check_result_sound [OF r] by blast
  also have "\<dots> = [1]" by (simp add: one_criterion_def)
  finally show ?thesis using r by (intro exI conjI)
qed

text \<open>The automatic result covers the same criteria, all unmet.\<close>

lemma auto_result_covers:
  "map vd_criterion (rt_verdicts (auto_result n)) = map int [1..<Suc n] \<and> rt_met_count (auto_result n) = 0
   \<and> list_all (sound_verdict cs) (rt_verdicts (auto_result n))"
  by (auto simp: auto_result_def comp_def list_all_iff sound_verdict_def)

section \<open>Labels\<close>

lemma of_char_digit: "d < 10 \<Longrightarrow> of_char (digit d) = (48 + d :: nat)"
  by (simp add: digit_def)

lemma is_digit_digit [simp]: "d < 10 \<Longrightarrow> is_digit (digit d)"
  by (simp add: is_digit_def of_char_digit)

lemma digits_value_snoc: "digits_value (ds @ [d]) = 10 * digits_value ds + int (of_char d - 48)"
  by (simp add: digits_value_def)

lemma itoa_facts: "itoa n \<noteq> [] \<and> list_all is_digit (itoa n) \<and> digits_value (itoa n) = int n"
proof (induction n rule: itoa.induct)
  case (1 n)
  show ?case
  proof (cases "n < 10")
    case True
    then show ?thesis by (simp add: itoa.simps [of n] of_char_digit digits_value_def)
  next
    case False
    with 1 have "itoa (n div 10) \<noteq> [] \<and> list_all is_digit (itoa (n div 10)) \<and> digits_value (itoa (n div 10)) = int (n div 10)"
      by blast
    moreover have "10 * int (n div 10) + int (n mod 10) = int n" by presburger
    ultimately show ?thesis using False
      by (simp add: itoa.simps [of n] of_char_digit digits_value_snoc)
  qed
qed

lemma digit_not_space: "is_digit c \<Longrightarrow> \<not> is_space c"
  by (auto simp: is_digit_def is_space_def)

lemma trim_space_id: "s \<noteq> [] \<Longrightarrow> \<not> is_space (hd s) \<Longrightarrow> \<not> is_space (last s) \<Longrightarrow> trim_space s = s"
proof -
  assume s: "s \<noteq> []" "\<not> is_space (hd s)" "\<not> is_space (last s)"
  then have "dropWhile is_space s = s" by (cases s) auto
  moreover have "dropWhile is_space (rev s) = rev s" using s by (cases s rule: rev_cases) auto
  ultimately show ?thesis by (simp add: trim_space_def)
qed

lemma digit_not_sign: "is_digit c \<Longrightarrow> c \<noteq> CHR ''-'' \<and> c \<noteq> CHR ''+''"
  by (auto simp: is_digit_def)

lemma atoi_itoa: "n < 2 ^ 63 \<Longrightarrow> atoi (itoa n) = Some (int n)"
proof -
  assume n: "n < 2 ^ 63"
  obtain c cs where c: "itoa n = c # cs" using itoa_facts [of n] by (cases "itoa n") auto
  then have "c \<noteq> CHR ''-'' \<and> c \<noteq> CHR ''+''" using itoa_facts [of n] digit_not_sign by simp
  moreover have "int n < 2 ^ 63"
    using n by (metis of_nat_less_iff of_nat_numeral of_nat_power)
  ultimately show ?thesis using itoa_facts [of n] unfolding atoi_def Let_def c by auto
qed

text \<open>
  The label of a card reads back as its number.
\<close>

theorem label_roundtrip:
  assumes "1 \<le> n" and "n < 2 ^ 63"
  shows "parse_label (card_label n) = Some (int n)"
proof -
  have "\<not> is_space (last (itoa n))"
    using itoa_facts [of n] digit_not_space by (metis last_in_set list_all_iff)
  then have "trim_space (card_label n) = card_label n"
    using itoa_facts [of n] by (intro trim_space_id) (auto simp: card_label_def is_space_def)
  moreover have "length (itoa n) > 0" using itoa_facts by blast
  ultimately show ?thesis
    using assms atoi_itoa [OF assms(2)]
    by (simp add: parse_label_def card_label_def Let_def numeral_2_eq_2)
qed

theorem label_roundtrip_witness: "parse_label (card_label 12) = Some 12"
  using label_roundtrip [of 12] by simp

section \<open>The card state machine\<close>

inductive card_move :: "card_status \<Rightarrow> card_status \<Rightarrow> bool" where
  "card_transition s a p = (t, True) \<Longrightarrow> card_move s t"

inductive_simps card_move_simps: "card_move s t"

lemma card_move_table:
  "card_move InProgress t \<longleftrightarrow> t = ResultSubmitted \<or> t = CardCancelled"
  "card_move ResultSubmitted t \<longleftrightarrow> t \<noteq> ResultSubmitted \<or> t = ResultSubmitted"
  "card_move Accepted t \<longleftrightarrow> t = InProgress"
  "\<not> card_move CardCancelled t"
proof -
  have "(\<exists>a. Q a) \<longleftrightarrow> Q ActSubmit \<or> Q ActAccept \<or> Q ActRevise \<or> Q ActCancel" for Q
    by (metis card_action.exhaust)
  then show "card_move InProgress t \<longleftrightarrow> t = ResultSubmitted \<or> t = CardCancelled"
    "card_move ResultSubmitted t \<longleftrightarrow> t \<noteq> ResultSubmitted \<or> t = ResultSubmitted"
    "card_move Accepted t \<longleftrightarrow> t = InProgress"
    "\<not> card_move CardCancelled t"
    by (cases t; auto simp: card_move_simps)+
qed

interpretation card_sm: status_machine card_move "\<lambda>s. s = CardCancelled"
  by unfold_locales (simp add: card_move_table)

text \<open>
  The card machine: a judgement is only ever made on a submitted result, except that a person
  may take an acceptance back; a cancelled card stays cancelled; and every action a caller is
  offered is one the caller may take now, while an agent is never offered to reopen an accepted card.
\<close>

theorem card_actions_sound:
  "card_actions s j w =
     (if may_judge j w
      then (if s = ResultSubmitted then [ActAccept, ActRevise]
            else if s = Accepted \<and> jd_person j \<noteq> None then [ActRevise] else [])
      else [])
   \<and> (card_move\<^sup>*\<^sup>* CardCancelled s) = (s = CardCancelled)"
  using card_sm.final_star [of CardCancelled s] by (cases s) (auto simp: card_actions_def Let_def)

end
