(* ===== verification/Task_Store.thy ===== *)
theory Task_Store
  imports Attempt_Plan Lane_State Task_Cards Router_Rules Loop_Guard
begin

text \<open>
  The part of the database the task lifecycle reads and writes (\<open>server/migrations\<close>), with the
  constraints its statements can violate: the tables \<open>task\<close>, \<open>task_attempt\<close>, \<open>task_token\<close>,
  \<open>daemon_command\<close>, \<open>lane\<close>, \<open>task_card\<close>, \<open>task_event\<close>, \<open>task_usage\<close>, \<open>room\<close>, \<open>runtime\<close>,
  \<open>agent_profile\<close>, \<open>hitl_request\<close>, \<open>inbox_item\<close>, \<open>message\<close>, \<open>work\<close> (a mission), \<open>decision\<close>,
  \<open>workdir\<close>, \<open>agent\<close>, \<open>workspace_settings\<close>, \<open>room_participant\<close> and \<open>app_user\<close>, each as the list
  of its rows, and \<open>session_hop\<close> with its sequence.
  Columns only the screens read are left out. \<open>db_clock\<close> is what the injected clock answers,
  \<open>db_now\<close> the database's own \<open>now()\<close> (the default of \<open>daemon_command.created_at\<close>), and
  \<open>db_next\<close> the next generated id. An inbox item's recipient (the mission's Director or the
  room's owner) is left out.
\<close>

section \<open>Errors\<close>

datatype db_error =
    ErrNotFound | ErrStaleAttempt | ErrInvalidTransition task_status task_status
  | ErrInvalidSessionRef | ErrLaneNotFound | ErrLaneNotCancellable | ErrUnknownPhase string
  | ErrResultCardRequired | ErrQuestionDone | ErrWorkClosed | ErrAlreadyBlocked | ErrNotBlocked | ErrNoPending
  | ErrParentNotFound | ErrValidation string | ErrConflict string | ErrLoopLimit | ErrPlanConfirmation | ErrForbidden string | ErrCardInvalid
  | DbCheck | DbCast | DbUnique | DbMissingRow | DbForeignKey

definition transition :: "task_status \<Rightarrow> task_status \<Rightarrow> db_error + task_status" where
  "transition from to = (if can_transition from to then Inr to else Inl (ErrInvalidTransition from to))"

section \<open>Rows\<close>

record task_row =
  tk_id :: uuid
  tk_lane :: uuid
  tk_room :: uuid
  tk_runtime :: "uuid option"
  tk_agent :: uuid
  tk_profile :: uuid
  tk_trigger :: "uuid option"
  tk_delegated_from :: "uuid option"
  tk_originator :: "uuid option"
  tk_coalesced :: "uuid list"
  tk_attempt :: int
  tk_max_attempts :: int
  tk_pending_hitl :: bool
  tk_budget_override :: "rat option"
  tk_status :: task_status
  tk_paused_reason :: "string option"
  tk_paused_detail :: "string option"
  tk_failure :: "failure_kind option"
  tk_not_before :: "time option"
  tk_stop_reason :: "string option"
  tk_heartbeat_at :: "time option"
  tk_created_at :: time
  tk_updated_at :: time
  tk_dispatched_at :: "time option"
  tk_started_at :: "time option"
  tk_finished_at :: "time option"
  tk_work :: "uuid option"
  tk_queued_reason :: "string option"
  tk_kind :: task_kind
  tk_card :: "uuid option"
  tk_trigger_reason :: "string option"
  tk_restarted_from :: "uuid option"
  tk_fallback_for :: "uuid option"
  tk_join_fired :: "time option"
  tk_result_cards :: "uuid list"

definition is_question :: "task_row \<Rightarrow> bool" where
  "is_question t \<longleftrightarrow> tk_kind t = KindQuestion"

record attempt_row =
  ar_task :: uuid
  ar_attempt :: int
  ar_runtime :: "uuid option"
  ar_dispatched_at :: "time option"
  ar_started_at :: "time option"
  ar_finished_at :: "time option"
  ar_outcome :: "string option"
  ar_failure :: "failure_kind option"
  ar_resumed :: "bool option"
  ar_stop_reason :: "string option"
  ar_anchor :: "(uuid \<times> time) option"

definition ar_key :: "attempt_row \<Rightarrow> uuid \<times> int" where
  "ar_key a = (ar_task a, ar_attempt a)"

record token_row =
  tn_task :: uuid
  tn_attempt :: int
  tn_hash :: string
  tn_lane :: uuid
  tn_room :: uuid
  tn_agent :: uuid
  tn_runtime :: "uuid option"
  tn_issued_at :: time
  tn_expires_at :: time
  tn_revoked_at :: "time option"
  tn_revoke_reason :: "string option"

definition tn_key :: "token_row \<Rightarrow> uuid \<times> int" where
  "tn_key r = (tn_task r, tn_attempt r)"

datatype command_type = CmdCancel | CmdRevoke | CmdProbe | CmdGC | CmdRebindPrepare

text \<open>\<open>contracts.Command\<close>: the payload. A missing id is \<open>None\<close>; a missing attempt is 0.\<close>

record command =
  cm_type :: command_type
  cm_task :: "uuid option"
  cm_attempt :: int
  cm_after_current_tool :: bool
  cm_reason :: string
  cm_workdirs :: "(string \<times> string) list"
  cm_session :: "uuid option"
  cm_test_chat :: "string option"

definition plain_command :: "command_type \<Rightarrow> uuid \<Rightarrow> int \<Rightarrow> command" where
  "plain_command ty task att = \<lparr>cm_type = ty, cm_task = Some task, cm_attempt = att,
     cm_after_current_tool = False, cm_reason = [], cm_workdirs = [], cm_session = None, cm_test_chat = None\<rparr>"

record command_row =
  dc_id :: nat
  dc_runtime :: uuid
  dc_payload :: command
  dc_task :: "uuid option"
  dc_attempt :: "int option"
  dc_session :: "uuid option"
  dc_created_at :: time
  dc_delivered_at :: "time option"
  dc_consumed_at :: "time option"
  dc_consumed_by :: "string option"

abbreviation dc_type :: "command_row \<Rightarrow> command_type" where
  "dc_type c \<equiv> cm_type (dc_payload c)"

record lane_row =
  ln_id :: uuid
  ln_room :: uuid
  ln_agent :: uuid
  ln_profile :: uuid
  ln_status :: lane_status
  ln_finished_at :: "time option"
  ln_updated_at :: time
  ln_session_ref :: "session_ref option"
  ln_anchor :: "(uuid \<times> time) option"
  ln_work :: "uuid option"
  ln_workdir :: "uuid option"
  ln_depends_on :: "uuid list"
  ln_reentry :: int
  ln_created_at :: time
  ln_delegated_from :: "uuid option"
  ln_blocked_note :: "string option"
  ln_blocked_message :: "uuid option"

text \<open>A judgement without the name that is shown, and one version of a card as \<open>versions\<close> keeps it.\<close>

record card_judgement =
  cj_action :: string
  cj_kind :: string
  cj_by :: uuid
  cj_at :: time
  cj_reason :: "string option"
  cj_comment :: "string option"

record card_version =
  cv_version :: int
  cv_goal :: string
  cv_criteria :: "criterion list"
  cv_boundaries :: string
  cv_refs :: "card_ref list"
  cv_output :: "string option"
  cv_budget :: "rat option"
  cv_reason :: "string option"
  cv_bubble :: "uuid option"
  cv_result :: "card_result option"
  cv_judgement :: "card_judgement option"

record card_row =
  cd_id :: uuid
  cd_lane :: uuid
  cd_room :: uuid
  cd_work :: "uuid option"
  cd_status :: card_status
  cd_version :: int
  cd_criteria :: "criterion list"
  cd_follow_ups :: int
  cd_result :: "card_result option"
  cd_judgement :: "card_judgement option"
  cd_updated_at :: time
  cd_number :: int
  cd_delegator :: uuid
  cd_delegator_task :: "uuid option"
  cd_assignee :: uuid
  cd_parent :: "uuid option"
  cd_goal :: string
  cd_boundaries :: string
  cd_refs :: "card_ref list"
  cd_bubble :: "uuid option"
  cd_output :: "string option"
  cd_budget :: "rat option"
  cd_reason :: "string option"
  cd_versions :: "card_version list"

text \<open>A JSON value as \<open>encoding/json\<close> decodes it into \<open>any\<close>.\<close>

datatype json =
    JNull | JBool bool | JNum rat | JStr string | JList "json list" | JObj "(string \<times> json) list"

text \<open>The payload of the rows the server writes itself (sentences and their arguments) is left out.\<close>

record event_row =
  ev_task :: uuid
  ev_attempt :: int
  ev_seq :: int
  ev_class :: string
  ev_verb :: string
  ev_object :: string
  ev_outcome :: string
  ev_payload :: "(string \<times> json) list option"
  ev_masked :: bool
  ev_at :: time

record usage_row =
  us_task :: uuid
  us_attempt :: int
  us_input :: int
  us_output :: int
  us_cache_read :: int
  us_cost :: rat
  us_estimated :: bool
  us_model :: "string option"
  us_updated_at :: time

definition us_key :: "usage_row \<Rightarrow> uuid \<times> int" where
  "us_key u = (us_task u, us_attempt u)"

record room_row =
  rm_id :: uuid
  rm_workspace :: uuid
  rm_name :: string
  rm_description :: string
  rm_visibility :: string
  rm_active :: bool
  rm_blocked :: "string option"
  rm_pending :: "(uuid \<times> uuid \<times> string) option"
  rm_isolation :: string
  rm_repo :: string
  rm_owner :: uuid
  rm_deputy :: "uuid option"
  rm_runtime :: "uuid option"
  rm_max_lanes :: "int option"
  rm_budget :: "rat option"
  rm_legacy_work :: "uuid option"
  rm_rebind_prompt :: "string option"
  rm_updated_at :: time

record runtime_row =
  rn_id :: uuid
  rn_workspace :: uuid
  rn_repos :: "string list"
  rn_online :: bool
  rn_offline_since :: "time option"
  rn_last_seen_at :: "time option"
  rn_updated_at :: time

record profile_row =
  pf_id :: uuid
  pf_fallback :: "uuid option"
  pf_kind :: string
  pf_agent :: uuid
  pf_name :: string

record hitl_row =
  hi_id :: uuid
  hi_task :: "uuid option"
  hi_purpose :: string
  hi_status :: string
  hi_approved :: "bool option"
  hi_source :: string
  hi_room :: uuid
  hi_work :: "uuid option"
  hi_answered_at :: "time option"
  hi_message :: "uuid option"
  hi_spec :: string

record inbox_row =
  ib_ref :: uuid
  ib_type :: string
  ib_at :: time
  ib_read_at :: "time option"

text \<open>
  Who a message is addressed to and what kind of speech it is (PRD FR-3.1.3), as
  \<open>internal/messages/speech.go\<close> stores them.
\<close>

record addressee =
  ad_kind :: mention_kind
  ad_id :: "uuid option"
  ad_name :: string

datatype speech =
    SpSystem | SpHitl | SpQuestion | SpSummary | SpAnswer | SpDelegate | SpReport | SpInstruct | SpRequest | SpNote | SpChat

record message_row =
  ms_id :: uuid
  ms_room :: uuid
  ms_source_task :: "uuid option"
  ms_created_at :: time
  ms_author :: author_type
  ms_kind :: string
  ms_work :: "uuid option"
  ms_ranged :: bool
  ms_author_id :: "uuid option"
  ms_parent :: "uuid option"
  ms_content :: string
  ms_mentions :: "mention list"
  ms_speech :: "speech option"
  ms_addressees :: "addressee list"
  ms_responds_to :: "uuid option"
  ms_delegated_lane :: "uuid option"
  ms_group :: "(uuid \<times> nat \<times> nat) option"
  ms_card :: "(uuid \<times> string \<times> int) option"

datatype work_status = WkDraft | WkActive | WkPaused | WkCompleting | WkCompleted | WkCancelled

text \<open>
  A mission: \<open>completion_met\<close> is kept as the list of the atoms stored as true, \<open>paused_detail\<close> as its
  mark \<open>room_blocked\<close> (the banner's numbers are left out). A room's \<open>isolation_pending\<close> is the
  request, the computer that asked and its repository.
\<close>

record work_row =
  wk_id :: uuid
  wk_room :: uuid
  wk_status :: work_status
  wk_condition :: "json option"
  wk_met :: "string list"
  wk_assignee :: "uuid option"
  wk_paused_reason :: "string option"
  wk_paused_detail :: "bool option"
  wk_held_at :: "time option"
  wk_quiet :: "string option"
  wk_quiet_at :: "time option"
  wk_summary :: "uuid option"
  wk_finished_at :: "time option"
  wk_updated_at :: time
  wk_plan_required :: bool
  wk_plan_confirmed :: "time option"
  wk_director :: uuid
  wk_deputy :: "uuid option"
  wk_budget :: "rat option"

record decision_row =
  de_id :: uuid
  de_room :: uuid
  de_work :: "uuid option"
  de_summary :: string
  de_rationale :: string
  de_source :: string
  de_ref :: "uuid option"
  de_created_at :: time

record workdir_row =
  wd_id :: uuid
  wd_room :: uuid
  wd_lane :: "uuid option"
  wd_work :: "uuid option"
  wd_worktree :: bool
  wd_path :: string
  wd_deleted :: bool
  wd_created_at :: time

record agent_row =
  ag_id :: uuid
  ag_max_tasks :: int
  ag_name :: string
  ag_disabled :: bool
  ag_budget :: "rat option"

record settings_row =
  st_workspace :: uuid
  st_runtime_cap :: "int option"
  st_workspace_cap :: "int option"
  st_masking :: bool
  st_loop :: "(string \<times> int) list"
  st_read :: "(string \<times> int) list"

text \<open>A row names an agent (with its profile) or a person.\<close>

datatype room_role = RoleOwner | RoleDeputy | RoleMember

record participant_row =
  pr_id :: uuid
  pr_room :: uuid
  pr_agent :: "uuid option"
  pr_profile :: "uuid option"
  pr_user :: "uuid option"
  pr_joined :: time
  pr_left :: "time option"
  pr_role :: room_role

record user_row =
  au_id :: uuid
  au_name :: string

record member_row =
  mb_workspace :: uuid
  mb_user :: uuid
  mb_role :: string

text \<open>A room's reference to another, one reading of another room, and a line of the activity log.\<close>

record link_row =
  lk_id :: uuid
  lk_room :: uuid
  lk_target :: uuid
  lk_by :: uuid

record read_row =
  rd_id :: uuid
  rd_room :: uuid
  rd_task :: uuid
  rd_agent :: uuid
  rd_originator :: "uuid option"
  rd_target :: "uuid option"
  rd_denied :: "string option"
  rd_summary_bytes :: nat
  rd_recent :: nat
  rd_truncated :: bool
  rd_at :: time

record activity_row =
  ac_workspace :: uuid
  ac_room :: "uuid option"
  ac_actor :: "uuid option"
  ac_action :: string
  ac_object :: "uuid option"
  ac_payload :: "(string \<times> json) list"
  ac_at :: time

record artifact_row =
  af_id :: uuid
  af_room :: uuid
  af_name :: string
  af_version :: nat
  af_description :: string
  af_created_at :: time

record db =
  db_tasks :: "task_row list"
  db_attempts :: "attempt_row list"
  db_tokens :: "token_row list"
  db_commands :: "command_row list"
  db_lanes :: "lane_row list"
  db_cards :: "card_row list"
  db_events :: "event_row list"
  db_usage :: "usage_row list"
  db_rooms :: "room_row list"
  db_runtimes :: "runtime_row list"
  db_profiles :: "profile_row list"
  db_hitls :: "hitl_row list"
  db_inbox :: "inbox_row list"
  db_messages :: "message_row list"
  db_test_chats :: "uuid list"
  db_works :: "work_row list"
  db_decisions :: "decision_row list"
  db_workdirs :: "workdir_row list"
  db_agents :: "agent_row list"
  db_settings :: "settings_row list"
  db_participants :: "participant_row list"
  db_users :: "user_row list"
  db_members :: "member_row list"
  db_links :: "link_row list"
  db_reads :: "read_row list"
  db_activity :: "activity_row list"
  db_artifacts :: "artifact_row list"
  db_hops :: hop_table
  db_clock :: time
  db_now :: time
  db_next :: nat

section \<open>Constraints and casts\<close>

fun listed_failure :: "failure_kind \<Rightarrow> bool" where
  "listed_failure (FailUnlisted s) = False"
| "listed_failure _ = True"

definition pause_reasons :: "string list" where
  "pause_reasons = [''budget'', ''time'', ''loop'', ''runtime_offline'', ''director'']"

text \<open>The CHECK constraints of the table \<open>task\<close> after every migration.\<close>

definition task_check :: "task_row \<Rightarrow> bool" where
  "task_check t \<longleftrightarrow>
     (tk_status t = Paused \<longleftrightarrow> tk_paused_reason t \<noteq> None)
   \<and> (tk_paused_detail t \<noteq> None \<longrightarrow> tk_paused_reason t \<noteq> None)
   \<and> (tk_failure t \<noteq> None \<longrightarrow> tk_status t = Failed \<or> tk_status t = Cancelled)
   \<and> 1 \<le> tk_attempt t \<and> 1 \<le> tk_max_attempts t
   \<and> (tk_card t \<noteq> None \<longrightarrow> tk_kind t = KindCard)
   \<and> (case tk_budget_override t of None \<Rightarrow> True | Some b \<Rightarrow> b \<ge> 0)"

fun cast_lane :: "string \<Rightarrow> lane_status option" where
  "cast_lane s =
     (if s = ''queued'' then Some LaneQueued else if s = ''running'' then Some LaneRunning
      else if s = ''waiting_human'' then Some LaneWaitingHuman else if s = ''blocked'' then Some LaneBlocked
      else if s = ''paused'' then Some LanePaused else if s = ''done'' then Some LaneDone
      else if s = ''failed'' then Some LaneFailed else None)"

fun cast_status :: "string \<Rightarrow> task_status option" where
  "cast_status s = find (\<lambda>st. status_text st = s)
     [Deferred, Queued, Dispatched, Preparing, Running, WaitingHuman, Paused, Completed, Failed, Cancelled]"

section \<open>Statements\<close>

definition get_task :: "uuid \<Rightarrow> db \<Rightarrow> task_row option" where
  "get_task i db = tbl_get tk_id (db_tasks db) i"

definition lock_task :: "uuid \<Rightarrow> db \<Rightarrow> db_error + task_row" where
  "lock_task i db = (case get_task i db of None \<Rightarrow> Inl ErrNotFound | Some t \<Rightarrow> Inr t)"

definition get_lane :: "uuid \<Rightarrow> db \<Rightarrow> lane_row option" where
  "get_lane i db = tbl_get ln_id (db_lanes db) i"

definition get_card :: "uuid \<Rightarrow> db \<Rightarrow> card_row option" where
  "get_card i db = tbl_get cd_id (db_cards db) i"

definition get_attempt :: "uuid \<Rightarrow> int \<Rightarrow> db \<Rightarrow> attempt_row option" where
  "get_attempt i n db = tbl_get ar_key (db_attempts db) (i, n)"

definition get_token :: "uuid \<Rightarrow> int \<Rightarrow> db \<Rightarrow> token_row option" where
  "get_token i n db = tbl_get tn_key (db_tokens db) (i, n)"

text \<open>\<open>UPDATE task SET ... WHERE id = $1\<close>: a row that breaks a CHECK fails the statement.\<close>

definition update_task :: "uuid \<Rightarrow> (task_row \<Rightarrow> task_row) \<Rightarrow> db \<Rightarrow> db_error + db" where
  "update_task i f db =
     (case get_task i db of
        None \<Rightarrow> Inr db
      | Some t \<Rightarrow> if task_check (f t) then Inr (db\<lparr>db_tasks := tbl_modify tk_id i f (db_tasks db)\<rparr>)
                  else Inl DbCheck)"

definition update_lane :: "uuid \<Rightarrow> (lane_row \<Rightarrow> bool) \<Rightarrow> (lane_row \<Rightarrow> lane_row) \<Rightarrow> db \<Rightarrow> db" where
  "update_lane i p f db = db\<lparr>db_lanes := tbl_upd (\<lambda>l. ln_id l = i \<and> p l) f (db_lanes db)\<rparr>"

definition upsert_attempt :: "attempt_row \<Rightarrow> (attempt_row \<Rightarrow> attempt_row) \<Rightarrow> db \<Rightarrow> db" where
  "upsert_attempt new merge db = db\<lparr>db_attempts := tbl_upsert ar_key new merge (db_attempts db)\<rparr>"

definition blank_attempt :: "uuid \<Rightarrow> int \<Rightarrow> attempt_row" where
  "blank_attempt i n = \<lparr>ar_task = i, ar_attempt = n, ar_runtime = None, ar_dispatched_at = None,
     ar_started_at = None, ar_finished_at = None, ar_outcome = None, ar_failure = None, ar_resumed = None,
     ar_stop_reason = None, ar_anchor = None\<rparr>"

definition server_seq_base :: int where "server_seq_base = 2 ^ 30"

definition next_server_seq :: "uuid \<Rightarrow> int \<Rightarrow> event_row list \<Rightarrow> int" where
  "next_server_seq i n es =
     (case map ev_seq (filter (\<lambda>e. ev_task e = i \<and> ev_attempt e = n \<and> ev_seq e \<ge> server_seq_base) es) of
        [] \<Rightarrow> server_seq_base
      | s # ss \<Rightarrow> fold max ss s + 1)"

definition insert_server_event ::
    "uuid \<Rightarrow> int \<Rightarrow> string \<Rightarrow> string \<Rightarrow> string \<Rightarrow> string \<Rightarrow> time \<Rightarrow> db \<Rightarrow> db" where
  "insert_server_event i n cls verb obj outcome now db =
     db\<lparr>db_events := db_events db @ [\<lparr>ev_task = i, ev_attempt = n, ev_seq = next_server_seq i n (db_events db),
        ev_class = cls, ev_verb = verb, ev_object = obj, ev_outcome = outcome, ev_payload = None, ev_masked = False, ev_at = now\<rparr>]\<rparr>"

definition insert_server_event_once ::
    "uuid \<Rightarrow> int \<Rightarrow> string \<Rightarrow> string \<Rightarrow> string \<Rightarrow> string \<Rightarrow> time \<Rightarrow> db \<Rightarrow> db" where
  "insert_server_event_once i n cls verb obj outcome now db =
     (if list_ex (\<lambda>e. ev_task e = i \<and> ev_attempt e = n \<and> ev_object e = obj \<and> ev_class e = cls \<and> ev_verb e = verb)
           (db_events db)
      then db else insert_server_event i n cls verb obj outcome now db)"

section \<open>Every table is a keyed store\<close>

interpretation task_tbl: keyed_store "tbl_get tk_id" "tbl_modify tk_id" tk_id
  by (rule keyed_store_list)

interpretation attempt_tbl: keyed_store "tbl_get ar_key" "tbl_modify ar_key" ar_key
  by (rule keyed_store_list)

interpretation token_tbl: keyed_store "tbl_get tn_key" "tbl_modify tn_key" tn_key
  by (rule keyed_store_list)

interpretation card_tbl: keyed_store "tbl_get cd_id" "tbl_modify cd_id" cd_id
  by (rule keyed_store_list)

end
