(* ===== verification/Task_Tokens.thy ===== *)
theory Task_Tokens
  imports Task_Store
begin

text \<open>
  Task tokens and the server's commands to the daemons, \<open>server/internal/tokens/tokens.go\<close>. The
  random token is an argument of \<open>issue\<close>; \<open>hash\<close> stands for the hex sha256 of \<open>crypto/sha256\<close>.
\<close>

section \<open>Tokens\<close>

definition token_ttl :: duration where "token_ttl = 7 * 24 * hour"
definition command_ttl :: duration where "command_ttl = 24 * hour"

lemmas [dur_simps] = token_ttl_def command_ttl_def

datatype token_error = ErrInvalid | ErrRevoked | ErrExpired

record scope =
  sc_task :: uuid
  sc_attempt :: int
  sc_lane :: uuid
  sc_room :: uuid
  sc_agent :: uuid
  sc_runtime :: "uuid option"
  sc_expires_at :: time

definition token_prefix :: string where "token_prefix = ''ctk_''"

definition issued_row :: "(string \<Rightarrow> string) \<Rightarrow> string \<Rightarrow> scope \<Rightarrow> time \<Rightarrow> token_row" where
  "issued_row hash tok sc now =
     \<lparr>tn_task = sc_task sc, tn_attempt = sc_attempt sc, tn_hash = hash tok, tn_lane = sc_lane sc,
      tn_room = sc_room sc, tn_agent = sc_agent sc, tn_runtime = sc_runtime sc, tn_issued_at = now,
      tn_expires_at = now + token_ttl, tn_revoked_at = None, tn_revoke_reason = None\<rparr>"

definition reissued :: "token_row \<Rightarrow> token_row \<Rightarrow> token_row" where
  "reissued new r = r\<lparr>tn_hash := tn_hash new, tn_runtime := tn_runtime new, tn_issued_at := tn_issued_at new,
     tn_expires_at := tn_expires_at new, tn_revoked_at := None, tn_revoke_reason := None\<rparr>"

text \<open>\<open>token_hash\<close> is UNIQUE: a hash another attempt holds fails the insert.\<close>

definition issue :: "(string \<Rightarrow> string) \<Rightarrow> string \<Rightarrow> scope \<Rightarrow> db \<Rightarrow> db_error + db" where
  "issue hash tok sc db =
     (let new = issued_row hash tok sc (db_clock db)
      in if list_ex (\<lambda>r. tn_hash r = tn_hash new \<and> tn_key r \<noteq> tn_key new) (db_tokens db) then Inl DbUnique
         else Inr (db\<lparr>db_tokens := tbl_upsert tn_key new (reissued new) (db_tokens db)\<rparr>))"

definition scope_of :: "token_row \<Rightarrow> scope" where
  "scope_of r = \<lparr>sc_task = tn_task r, sc_attempt = tn_attempt r, sc_lane = tn_lane r, sc_room = tn_room r,
     sc_agent = tn_agent r, sc_runtime = tn_runtime r, sc_expires_at = tn_expires_at r\<rparr>"

definition verify :: "(string \<Rightarrow> string) \<Rightarrow> string \<Rightarrow> db \<Rightarrow> token_error + scope" where
  "verify hash tok db =
     (if take (length token_prefix) tok \<noteq> token_prefix \<or> length tok < length token_prefix + 16 then Inl ErrInvalid
      else case tbl_get tn_hash (db_tokens db) (hash tok) of
             None \<Rightarrow> Inl ErrInvalid
           | Some r \<Rightarrow> if tn_revoked_at r \<noteq> None then Inl ErrRevoked
                       else if \<not> db_clock db < tn_expires_at r then Inl ErrExpired
                       else Inr (scope_of r))"

section \<open>Commands\<close>

definition queue_command :: "uuid \<Rightarrow> command \<Rightarrow> db \<Rightarrow> db" where
  "queue_command runtime c db =
     db\<lparr>db_commands := db_commands db @ [\<lparr>dc_id = db_next db, dc_runtime = runtime, dc_payload = c,
          dc_task = cm_task c, dc_attempt = (if cm_attempt c > 0 then Some (cm_attempt c) else None),
          dc_session = cm_session c, dc_created_at = db_now db, dc_delivered_at = None,
          dc_consumed_at = None, dc_consumed_by = None\<rparr>],
        db_next := db_next db + 1\<rparr>"

definition revoked_row :: "time \<Rightarrow> string \<Rightarrow> token_row \<Rightarrow> token_row" where
  "revoked_row now reason r =
     r\<lparr>tn_revoked_at := Some (case tn_revoked_at r of None \<Rightarrow> now | Some v \<Rightarrow> v),
       tn_revoke_reason := Some (case tn_revoke_reason r of None \<Rightarrow> reason | Some v \<Rightarrow> v)\<rparr>"

definition revoke :: "uuid \<Rightarrow> int \<Rightarrow> string \<Rightarrow> db \<Rightarrow> db" where
  "revoke i n reason db =
     (case get_token i n db of
        None \<Rightarrow> db
      | Some r \<Rightarrow>
          let now = db_clock db; r' = revoked_row now reason r;
              db' = db\<lparr>db_tokens := tbl_modify tn_key (i, n) (revoked_row now reason) (db_tokens db)\<rparr>
          in if tn_revoked_at r' \<noteq> Some now then db'
             else case tn_runtime r' of None \<Rightarrow> db' | Some rt \<Rightarrow> queue_command rt (plain_command CmdRevoke i n) db')"

definition is_pending :: "uuid \<Rightarrow> time \<Rightarrow> command_row \<Rightarrow> bool" where
  "is_pending runtime now c \<longleftrightarrow>
     dc_runtime c = runtime \<and> dc_consumed_at c = None \<and> dc_created_at c > now - command_ttl
     \<and> \<not> (dc_type c = CmdRevoke \<and> dc_created_at c \<le> now - heartbeat_expiry)"

definition update_commands :: "(command_row \<Rightarrow> bool) \<Rightarrow> (command_row \<Rightarrow> command_row) \<Rightarrow> db \<Rightarrow> db" where
  "update_commands p f db = db\<lparr>db_commands := tbl_upd p f (db_commands db)\<rparr>"

definition pending_commands :: "uuid \<Rightarrow> time \<Rightarrow> db \<Rightarrow> command list \<times> db" where
  "pending_commands runtime now db =
     (let rows = sort_key dc_id (filter (is_pending runtime now) (db_commands db)); ids = map dc_id rows
      in (map dc_payload rows,
          update_commands (\<lambda>c. List.member ids (dc_id c))
            (\<lambda>c. c\<lparr>dc_delivered_at := Some (case dc_delivered_at c of None \<Rightarrow> now | Some d \<Rightarrow> d)\<rparr>) db))"

definition consume :: "time \<Rightarrow> string \<Rightarrow> command_row \<Rightarrow> command_row" where
  "consume now by_what c = c\<lparr>dc_consumed_at := Some now, dc_consumed_by := Some by_what\<rparr>"

definition consume_attempt_commands :: "uuid \<Rightarrow> int \<Rightarrow> time \<Rightarrow> db \<Rightarrow> db" where
  "consume_attempt_commands i n now =
     update_commands (\<lambda>c. dc_task c = Some i \<and> dc_attempt c = Some n \<and> dc_type c \<in> {CmdCancel, CmdRevoke}
                          \<and> dc_consumed_at c = None) (consume now ''finish'')"

definition consume_probe_commands :: "uuid \<Rightarrow> time \<Rightarrow> db \<Rightarrow> db" where
  "consume_probe_commands runtime now =
     update_commands (\<lambda>c. dc_runtime c = runtime \<and> dc_type c = CmdProbe \<and> dc_consumed_at c = None
                          \<and> dc_created_at c \<le> now) (consume now ''probe'')"

definition consume_rebind_commands :: "uuid \<Rightarrow> uuid \<Rightarrow> time \<Rightarrow> db \<Rightarrow> db" where
  "consume_rebind_commands runtime room now =
     update_commands (\<lambda>c. dc_runtime c = runtime \<and> dc_session c = Some room \<and> dc_type c = CmdRebindPrepare
                          \<and> dc_consumed_at c = None) (consume now ''phase_preparing'')"

text \<open>\<open>workdir id\<close> is the table \<open>workdir\<close>: no row, or a row that is active or not.\<close>

definition gc_settled :: "(string \<Rightarrow> bool option) \<Rightarrow> string list \<Rightarrow> command \<Rightarrow> bool" where
  "gc_settled workdir receipts c \<longleftrightarrow>
     \<not> list_ex (\<lambda>(target, path). workdir target = Some True \<or> (workdir target = None \<and> \<not> List.member receipts target))
         (cm_workdirs c)"

definition consume_gc_commands :: "(string \<Rightarrow> bool option) \<Rightarrow> uuid \<Rightarrow> string list \<Rightarrow> time \<Rightarrow> db \<Rightarrow> db" where
  "consume_gc_commands workdir runtime receipts now =
     update_commands (\<lambda>c. dc_runtime c = runtime \<and> dc_type c = CmdGC \<and> dc_consumed_at c = None
                          \<and> cm_test_chat (dc_payload c) = None \<and> gc_settled workdir receipts (dc_payload c))
       (consume now ''workdir_report'')"

definition gc_targets_by_path :: "(string \<Rightarrow> uuid option) \<Rightarrow> uuid \<Rightarrow> string \<Rightarrow> db \<Rightarrow> uuid list" where
  "gc_targets_by_path parse_uuid runtime path db =
     List.map_filter parse_uuid
       (remdups (concat (map (\<lambda>c. map fst (filter (\<lambda>w. snd w = path) (cm_workdirs (dc_payload c))))
          (filter (\<lambda>c. dc_runtime c = runtime \<and> dc_type c = CmdGC \<and> dc_consumed_at c = None) (db_commands db)))))"

definition consume_test_chat_gc_commands :: "uuid \<Rightarrow> string \<Rightarrow> time \<Rightarrow> db \<Rightarrow> db" where
  "consume_test_chat_gc_commands runtime chat now =
     update_commands (\<lambda>c. dc_runtime c = runtime \<and> dc_type c = CmdGC \<and> dc_consumed_at c = None
                          \<and> cm_test_chat (dc_payload c) = Some chat) (consume now ''workdir_report'')"

record expired_command =
  xc_id :: nat
  xc_type :: command_type
  xc_task :: "uuid option"
  xc_attempt :: "int option"
  xc_test_chat :: bool

definition expire_commands :: "time \<Rightarrow> db \<Rightarrow> expired_command list \<times> db" where
  "expire_commands now db =
     (let db1 = update_commands (\<lambda>c. dc_type c = CmdRevoke \<and> dc_consumed_at c = None
                                      \<and> dc_created_at c \<le> now - heartbeat_expiry) (consume now ''revoke_expiry'') db;
          old = (\<lambda>c. dc_consumed_at c = None \<and> dc_created_at c \<le> now - command_ttl)
      in (map (\<lambda>c. \<lparr>xc_id = dc_id c, xc_type = dc_type c, xc_task = dc_task c, xc_attempt = dc_attempt c,
                   xc_test_chat = (cm_test_chat (dc_payload c) \<noteq> None
                                   \<or> (case dc_task c of None \<Rightarrow> False | Some t \<Rightarrow> List.member (db_test_chats db) t))\<rparr>)
              (filter old (db_commands db1)),
          update_commands old (consume now ''ttl'') db1))"

section \<open>Histories\<close>

text \<open>Every operation of this file, and the passing of time, as one step of a history.\<close>

datatype token_op =
    OpIssue string scope
  | OpRevoke uuid int string
  | OpQueue uuid command
  | OpDeliver uuid time
  | OpFinished uuid int time
  | OpProbed uuid time
  | OpRebound uuid uuid time
  | OpGcReport "string \<Rightarrow> bool option" uuid "string list" time
  | OpTestChatGc uuid string time
  | OpExpire time
  | OpClock time time

fun token_step :: "(string \<Rightarrow> string) \<Rightarrow> token_op \<Rightarrow> db \<Rightarrow> db" where
  "token_step hash (OpIssue tok sc) db = in_tx (issue hash tok sc) db"
| "token_step hash (OpRevoke i n reason) db = revoke i n reason db"
| "token_step hash (OpQueue rt c) db = queue_command rt c db"
| "token_step hash (OpDeliver rt now) db = snd (pending_commands rt now db)"
| "token_step hash (OpFinished i n now) db = consume_attempt_commands i n now db"
| "token_step hash (OpProbed rt now) db = consume_probe_commands rt now db"
| "token_step hash (OpRebound rt room now) db = consume_rebind_commands rt room now db"
| "token_step hash (OpGcReport wd rt receipts now) db = consume_gc_commands wd rt receipts now db"
| "token_step hash (OpTestChatGc rt chat now) db = consume_test_chat_gc_commands rt chat now db"
| "token_step hash (OpExpire now) db = snd (expire_commands now db)"
| "token_step hash (OpClock clk dbnow) db = db\<lparr>db_clock := clk, db_now := dbnow\<rparr>"

subsection \<open>Tokens\<close>

definition tokens_wf :: "db \<Rightarrow> bool" where
  "tokens_wf db \<longleftrightarrow> distinct (map tn_hash (db_tokens db)) \<and> distinct (map tn_key (db_tokens db))"

lemma tn_key_frame [simp]:
  "tn_key (revoked_row now reason r) = tn_key r" "tn_key (reissued new r) = tn_key r"
  "tn_hash (revoked_row now reason r) = tn_hash r" "\<exists>v. tn_revoked_at (revoked_row now reason r) = Some v"
  by (simp_all add: tn_key_def revoked_row_def reissued_def)

lemma tn_key_issued [simp]: "tn_key (issued_row hash tok sc now) = (sc_task sc, sc_attempt sc)"
  by (simp add: tn_key_def issued_row_def)

lemma tokens_update_commands [simp]: "db_tokens (update_commands p f db) = db_tokens db"
  by (simp add: update_commands_def)

lemma tokens_queue_command [simp]: "db_tokens (queue_command rt c db) = db_tokens db"
  by (simp add: queue_command_def)

lemma tokens_revoke:
  "db_tokens (revoke i n reason db) = tbl_modify tn_key (i, n) (revoked_row (db_clock db) reason) (db_tokens db)"
proof (cases "get_token i n db")
  case None
  then have "\<forall>r \<in> set (db_tokens db). tn_key r \<noteq> (i, n)" by (simp add: get_token_def tbl_get_None_iff)
  then have "tbl_modify tn_key (i, n) f (db_tokens db) = db_tokens db" for f
    by (simp add: tbl_modify_def tbl_upd_def map_idI)
  with None show ?thesis by (simp add: revoke_def)
next
  case (Some r)
  then show ?thesis by (auto simp: revoke_def Let_def split: option.split)
qed

lemma tokens_other_ops:
  "\<not> (\<exists>tok sc. op = OpIssue tok sc) \<Longrightarrow> \<not> (\<exists>i n why. op = OpRevoke i n why) \<Longrightarrow>
   db_tokens (token_step hash op db) = db_tokens db"
  by (cases op) (simp_all add: pending_commands_def consume_attempt_commands_def consume_probe_commands_def
      consume_rebind_commands_def consume_gc_commands_def consume_test_chat_gc_commands_def expire_commands_def Let_def)

lemma tokens_wf_revoke: "tokens_wf db \<Longrightarrow> tokens_wf (revoke i n reason db)"
  by (simp add: tokens_wf_def tokens_revoke map_modify_same)

lemma upsert_hashes:
  assumes "\<forall>r \<in> set t. tn_hash r = tn_hash new \<longrightarrow> tn_key r = tn_key new"
    and "distinct (map tn_hash t)" and "distinct (map tn_key t)"
  shows "distinct (map tn_hash (tbl_upsert tn_key new (reissued new) t)) \<and> distinct (map tn_key (tbl_upsert tn_key new (reissued new) t))"
proof (cases "\<exists>r \<in> set t. tn_key r = tn_key new")
  case False
  with assms show ?thesis by (auto simp: tbl_upsert_def image_iff)
next
  case True
  have "distinct (map tn_hash (tbl_modify tn_key (tn_key new) (reissued new) t))"
    using assms
  proof (induction t)
    case Nil
    show ?case by simp
  next
    case (Cons a t)
    then show ?case
      by (auto simp: set_tbl_modify reissued_def image_iff split: if_splits)
  qed
  with True assms(3) show ?thesis by (simp add: tbl_upsert_def map_modify_same)
qed

lemma tokens_wf_step: "tokens_wf db \<Longrightarrow> tokens_wf (token_step hash op db)"
proof (cases op)
  case (OpIssue tok sc)
  assume wf: "tokens_wf db"
  then show ?thesis
    using upsert_hashes [of "db_tokens db" "issued_row hash tok sc (db_clock db)"]
    by (auto simp: OpIssue in_tx_def issue_def Let_def tokens_wf_def list_ex_iff)
next
  case (OpRevoke i n reason)
  assume "tokens_wf db"
  then show ?thesis by (simp add: OpRevoke tokens_wf_revoke)
qed (simp_all add: tokens_wf_def tokens_other_ops del: token_step.simps)

definition dead_token :: "uuid \<times> int \<Rightarrow> string \<Rightarrow> db \<Rightarrow> bool" where
  "dead_token k h db \<longleftrightarrow> tokens_wf db \<and> (\<exists>r \<in> set (db_tokens db). tn_key r = k \<and> tn_hash r = h \<and> tn_revoked_at r \<noteq> None)"

fun reissues :: "uuid \<times> int \<Rightarrow> token_op \<Rightarrow> bool" where
  "reissues k (OpIssue tok sc) \<longleftrightarrow> (sc_task sc, sc_attempt sc) = k"
| "reissues k _ \<longleftrightarrow> False"

lemma dead_token_issue:
  assumes "dead_token k h db" and "(sc_task sc, sc_attempt sc) \<noteq> k" and "issue hash tok sc db = Inr db'"
  shows "\<exists>r \<in> set (db_tokens db'). tn_key r = k \<and> tn_hash r = h \<and> tn_revoked_at r \<noteq> None"
proof -
  let ?new = "issued_row hash tok sc (db_clock db)"
  obtain r where r: "r \<in> set (db_tokens db)" "tn_key r = k" "tn_hash r = h" "tn_revoked_at r \<noteq> None"
    using assms(1) by (auto simp: dead_token_def)
  have "db_tokens db' = tbl_upsert tn_key ?new (reissued ?new) (db_tokens db)"
    using assms(3) by (auto simp: issue_def Let_def split: if_splits)
  moreover have "r \<in> set (tbl_upsert tn_key ?new (reissued ?new) (db_tokens db))"
    using r assms(2) by (force simp: tbl_upsert_def set_tbl_modify)
  ultimately show ?thesis using r by auto
qed

lemma revoke_keeps_row:
  assumes "r \<in> set (db_tokens db)"
  obtains r' where "r' \<in> set (db_tokens (revoke i n reason db))" and "tn_key r' = tn_key r" and "tn_hash r' = tn_hash r"
    and "tn_revoked_at r \<noteq> None \<or> tn_key r = (i, n) \<Longrightarrow> tn_revoked_at r' \<noteq> None"
proof -
  let ?r = "if tn_key r = (i, n) then revoked_row (db_clock db) reason r else r"
  have "?r \<in> set (db_tokens (revoke i n reason db))"
    unfolding tokens_revoke set_tbl_modify using assms by (rule imageI)
  then show ?thesis by (rule that) auto
qed

lemma dead_token_revoke:
  assumes "dead_token k h db"
  shows "dead_token k h (revoke i n reason db)"
proof -
  obtain r where "r \<in> set (db_tokens db)" "tn_key r = k" "tn_hash r = h" "tn_revoked_at r \<noteq> None"
    using assms by (auto simp: dead_token_def)
  then show ?thesis
    using assms revoke_keeps_row [of r db i n reason] tokens_wf_revoke unfolding dead_token_def by metis
qed

interpretation dead_tokens: stable_fact "token_step hash" "dead_token k h" "reissues k"
  for hash :: "string \<Rightarrow> string" and k :: "uuid \<times> int" and h :: string
proof unfold_locales
  fix db op
  assume dead: "dead_token k h db" and op: "\<not> reissues k op"
  then have wf: "tokens_wf (token_step hash op db)" by (simp add: dead_token_def tokens_wf_step)
  show "dead_token k h (token_step hash op db)"
  proof (cases op)
    case (OpIssue tok sc)
    with dead op wf dead_token_issue [OF dead, of sc hash tok] show ?thesis
      by (auto simp: in_tx_def dead_token_def split: sum.splits)
  next
    case (OpRevoke i n reason)
    with dead show ?thesis by (simp add: dead_token_revoke)
  qed (use dead wf in \<open>simp_all add: dead_token_def tokens_other_ops del: token_step.simps\<close>)
qed

lemma unique_by_hash:
  assumes "tokens_wf db" and "r \<in> set (db_tokens db)"
  shows "tbl_get tn_hash (db_tokens db) (tn_hash r) = Some r"
proof -
  have "distinct (map tn_hash t) \<Longrightarrow> r \<in> set t \<Longrightarrow> tbl_get tn_hash t (tn_hash r) = Some r" for t
    by (induction t) (auto simp: image_iff)
  with assms show ?thesis by (simp add: tokens_wf_def)
qed

definition well_formed_token :: "string \<Rightarrow> bool" where
  "well_formed_token tok \<longleftrightarrow> take (length token_prefix) tok = token_prefix \<and> length token_prefix + 16 \<le> length tok"

lemma dead_token_refused:
  assumes "dead_token k (hash tok) db" and "well_formed_token tok"
  shows "verify hash tok db = Inl ErrRevoked"
proof -
  obtain r where r: "r \<in> set (db_tokens db)" "tn_hash r = hash tok" "tn_revoked_at r \<noteq> None"
    using assms(1) by (auto simp: dead_token_def)
  have "tbl_get tn_hash (db_tokens db) (hash tok) = Some r"
    using unique_by_hash [OF _ r(1)] r(2) assms(1) by (auto simp: dead_token_def)
  with r assms(2) show ?thesis by (auto simp: verify_def well_formed_token_def)
qed

text \<open>
  A revoked task token is refused for good: whatever the server issues, revokes, queues,
  delivers, consumes or expires afterwards, and however far the clock moves, the token of that
  attempt answers \<open>ErrRevoked\<close> unless the very same attempt is dispatched again.
\<close>

theorem revoked_token_stays_dead:
  assumes "tokens_wf db" and "get_token i n db = Some r" and "tn_hash r = hash tok" and "well_formed_token tok"
    and "\<not> list_ex (reissues (i, n)) ops"
  shows "verify hash tok (fold (token_step hash) ops (revoke i n reason db)) = Inl ErrRevoked"
proof -
  have r: "r \<in> set (db_tokens db)" "tn_key r = (i, n)"
    using assms(2) by (auto simp: get_token_def dest: tbl_get_Some_in tbl_get_Some_key)
  obtain r' where "r' \<in> set (db_tokens (revoke i n reason db))" "tn_key r' = (i, n)" "tn_hash r' = hash tok"
    "tn_revoked_at r' \<noteq> None"
    using revoke_keeps_row [OF r(1), of i n reason] r(2) assms(3) by metis
  then have "dead_token (i, n) (hash tok) (revoke i n reason db)"
    using tokens_wf_revoke [OF assms(1)] by (auto simp: dead_token_def)
  from dead_tokens.run_kept [OF this assms(5)] assms(4) show ?thesis by (rule dead_token_refused)
qed

definition empty_db :: db where
  "empty_db = \<lparr>db_tasks = [], db_attempts = [], db_tokens = [], db_commands = [], db_lanes = [], db_cards = [],
     db_events = [], db_usage = [], db_rooms = [], db_runtimes = [], db_profiles = [], db_hitls = [],
     db_inbox = [], db_messages = [], db_test_chats = [], db_works = [], db_decisions = [], db_workdirs = [],
     db_agents = [], db_settings = [],
     db_participants = [], db_users = [], db_members = [], db_links = [], db_reads = [], db_activity = [], db_artifacts = [], db_hops = empty_hops, db_clock = 0, db_now = 0, db_next = 100\<rparr>"

definition sample_scope :: scope where
  "sample_scope = \<lparr>sc_task = 1, sc_attempt = 1, sc_lane = 2, sc_room = 3, sc_agent = 4, sc_runtime = Some 5, sc_expires_at = 0\<rparr>"

definition sample_token :: string where "sample_token = ''ctk_0123456789abcdef''"

theorem revoked_token_stays_dead_witness:
  "verify (\<lambda>s. s) sample_token
     (fold (token_step (\<lambda>s. s)) [OpClock 5 5, OpIssue sample_token (sample_scope\<lparr>sc_attempt := 2\<rparr>), OpFinished 1 1 6]
       (revoke 1 1 ''requeue'' (in_tx (issue (\<lambda>s. s) sample_token sample_scope) empty_db))) = Inl ErrRevoked"
proof -
  let ?db = "in_tx (issue (\<lambda>s. s) sample_token sample_scope) empty_db"
  have db: "db_tokens ?db = [issued_row (\<lambda>s. s) sample_token sample_scope 0]"
    by (simp add: in_tx_def issue_def Let_def empty_db_def tbl_upsert_def)
  then have "tokens_wf ?db" "get_token 1 1 ?db = Some (issued_row (\<lambda>s. s) sample_token sample_scope 0)"
    by (simp_all add: tokens_wf_def get_token_def sample_scope_def)
  then show ?thesis
    by (rule revoked_token_stays_dead)
       (simp_all add: issued_row_def well_formed_token_def token_prefix_def sample_token_def)
qed

text \<open>
  Verification is exact: a bearer string is accepted precisely when it is well formed and its
  hash belongs to an issued token that is neither revoked nor past its seven days, and the scope
  granted is the one of that token's attempt.
\<close>

theorem verify_exact:
  assumes "tokens_wf db"
  shows "(verify hash tok db = Inr sc) =
     (well_formed_token tok \<and> (\<exists>r \<in> set (db_tokens db). tn_hash r = hash tok \<and> tn_revoked_at r = None
        \<and> db_clock db < tn_expires_at r \<and> sc = scope_of r))"
proof (cases "tbl_get tn_hash (db_tokens db) (hash tok)")
  case None
  then have "\<forall>r \<in> set (db_tokens db). tn_hash r \<noteq> hash tok" by (simp add: tbl_get_None_iff)
  with None show ?thesis by (auto simp: verify_def split: option.split)
next
  case (Some r)
  then have r: "r \<in> set (db_tokens db)" "tn_hash r = hash tok"
    by (auto dest: tbl_get_Some_in tbl_get_Some_key)
  have "r' = r" if "r' \<in> set (db_tokens db)" "tn_hash r' = hash tok" for r'
    using unique_by_hash [OF assms that(1)] that(2) Some by simp
  with r have one: "(\<exists>r' \<in> set (db_tokens db). tn_hash r' = hash tok \<and> Q r') \<longleftrightarrow> Q r" for Q by blast
  have "verify hash tok db =
      (if \<not> well_formed_token tok then Inl ErrInvalid else if tn_revoked_at r \<noteq> None then Inl ErrRevoked
       else if \<not> db_clock db < tn_expires_at r then Inl ErrExpired else Inr (scope_of r))"
    using Some by (simp add: verify_def well_formed_token_def not_le)
  then show ?thesis unfolding one by auto
qed

theorem verify_exact_witness:
  "verify (\<lambda>s. s) sample_token (in_tx (issue (\<lambda>s. s) sample_token sample_scope) empty_db)
     = Inr (scope_of (issued_row (\<lambda>s. s) sample_token sample_scope 0))"
proof -
  let ?db = "in_tx (issue (\<lambda>s. s) sample_token sample_scope) empty_db"
  have db: "db_tokens ?db = [issued_row (\<lambda>s. s) sample_token sample_scope 0]" "db_clock ?db = 0"
    by (simp_all add: in_tx_def issue_def Let_def empty_db_def tbl_upsert_def)
  then have "tokens_wf ?db" by (simp add: tokens_wf_def)
  from verify_exact [OF this, of "\<lambda>s. s" sample_token] db show ?thesis
    by (simp add: issued_row_def well_formed_token_def token_prefix_def sample_token_def dur_simps)
qed

subsection \<open>Commands\<close>

text \<open>A command, whatever its delivery stamp.\<close>

definition undelivered :: "command_row \<Rightarrow> command_row" where
  "undelivered c = c\<lparr>dc_delivered_at := None\<rparr>"

definition outstanding :: "command_row \<Rightarrow> db \<Rightarrow> bool" where
  "outstanding c0 db \<longleftrightarrow> dc_consumed_at c0 = None \<and> (\<exists>c \<in> set (db_commands db). undelivered c = undelivered c0)"

text \<open>The event each type of command waits for (daemon-protocol 4.3), and the two age limits.\<close>

fun settles :: "command_row \<Rightarrow> token_op \<Rightarrow> bool" where
  "settles c (OpFinished i n now) \<longleftrightarrow> dc_task c = Some i \<and> dc_attempt c = Some n \<and> dc_type c \<in> {CmdCancel, CmdRevoke}"
| "settles c (OpProbed rt now) \<longleftrightarrow> dc_runtime c = rt \<and> dc_type c = CmdProbe \<and> dc_created_at c \<le> now"
| "settles c (OpRebound rt room now) \<longleftrightarrow> dc_runtime c = rt \<and> dc_session c = Some room \<and> dc_type c = CmdRebindPrepare"
| "settles c (OpGcReport wd rt receipts now) \<longleftrightarrow> dc_runtime c = rt \<and> dc_type c = CmdGC
     \<and> cm_test_chat (dc_payload c) = None \<and> gc_settled wd receipts (dc_payload c)"
| "settles c (OpTestChatGc rt chat now) \<longleftrightarrow> dc_runtime c = rt \<and> dc_type c = CmdGC \<and> cm_test_chat (dc_payload c) = Some chat"
| "settles c (OpExpire now) \<longleftrightarrow> dc_created_at c \<le> now - command_ttl
     \<or> (dc_type c = CmdRevoke \<and> dc_created_at c \<le> now - heartbeat_expiry)"
| "settles c _ \<longleftrightarrow> False"

lemma undelivered_fields:
  assumes "undelivered c = undelivered c0"
  shows "dc_id c = dc_id c0" "dc_runtime c = dc_runtime c0" "dc_payload c = dc_payload c0" "dc_task c = dc_task c0"
    "dc_attempt c = dc_attempt c0" "dc_session c = dc_session c0" "dc_created_at c = dc_created_at c0"
    "dc_consumed_at c = dc_consumed_at c0"
  using assms by (cases c; cases c0; simp add: undelivered_def)+

lemma outstanding_update:
  assumes "outstanding c0 db"
    and "\<And>c. undelivered c = undelivered c0 \<Longrightarrow> p c \<Longrightarrow> undelivered (f c) = undelivered c"
  shows "outstanding c0 (update_commands p f db)"
proof -
  obtain c where c: "c \<in> set (db_commands db)" "undelivered c = undelivered c0" "dc_consumed_at c0 = None"
    using assms(1) by (auto simp: outstanding_def)
  then have "(if p c then f c else c) \<in> set (db_commands (update_commands p f db))"
    by (auto simp: update_commands_def tbl_upd_def)
  with c assms(2) [of c] show ?thesis unfolding outstanding_def by (metis (full_types))
qed

lemma outstanding_more:
  "outstanding c0 db \<Longrightarrow> set (db_commands db) \<subseteq> set (db_commands db') \<Longrightarrow> outstanding c0 db'"
  by (auto simp: outstanding_def)

lemma settles_undelivered:
  assumes "undelivered c = undelivered c0"
  shows "settles c op = settles c0 op"
  by (cases op) (simp_all add: undelivered_fields [OF assms])

lemma outstanding_unsettled:
  assumes "outstanding c0 db" and "\<not> settles c0 op" and "\<And>c. p c \<Longrightarrow> settles c op"
  shows "outstanding c0 (update_commands p f db)"
  using assms(1)
proof (rule outstanding_update)
  fix c assume "undelivered c = undelivered c0" and "p c"
  with assms(2,3) settles_undelivered show "undelivered (f c) = undelivered c" by blast
qed

interpretation commands: stable_fact "token_step hash" "outstanding c0" "settles c0"
  for hash :: "string \<Rightarrow> string" and c0 :: command_row
proof unfold_locales
  fix db op
  assume o: "outstanding c0 db" and op: "\<not> settles c0 op"
  note keep = outstanding_unsettled [OF o op]
  show "outstanding c0 (token_step hash op db)"
  proof (cases op)
    case (OpIssue tok sc)
    then show ?thesis
      by (intro outstanding_more [OF o]) (auto simp: in_tx_def issue_def Let_def split: sum.split)
  next
    case (OpRevoke i n reason)
    then show ?thesis
      by (intro outstanding_more [OF o]) (auto simp: revoke_def queue_command_def Let_def split: option.split)
  next
    case (OpQueue rt c)
    then show ?thesis by (intro outstanding_more [OF o]) (auto simp: queue_command_def)
  next
    case (OpDeliver rt now)
    show ?thesis unfolding OpDeliver token_step.simps pending_commands_def Let_def snd_conv
      by (rule outstanding_update [OF o]) (simp add: undelivered_def)
  next
    case (OpFinished i n now)
    show ?thesis unfolding OpFinished token_step.simps consume_attempt_commands_def
      by (rule keep) (simp add: OpFinished)
  next
    case (OpProbed rt now)
    show ?thesis unfolding OpProbed token_step.simps consume_probe_commands_def
      by (rule keep) (simp add: OpProbed)
  next
    case (OpRebound rt room now)
    show ?thesis unfolding OpRebound token_step.simps consume_rebind_commands_def
      by (rule keep) (simp add: OpRebound)
  next
    case (OpGcReport wd rt receipts now)
    show ?thesis unfolding OpGcReport token_step.simps consume_gc_commands_def
      by (rule keep) (simp add: OpGcReport)
  next
    case (OpTestChatGc rt chat now)
    show ?thesis unfolding OpTestChatGc token_step.simps consume_test_chat_gc_commands_def
      by (rule keep) (simp add: OpTestChatGc)
  next
    case (OpExpire now)
    let ?p = "\<lambda>c. dc_type c = CmdRevoke \<and> dc_consumed_at c = None \<and> dc_created_at c \<le> now - heartbeat_expiry"
    have "outstanding c0 (update_commands ?p (consume now ''revoke_expiry'') db)"
      by (rule keep) (simp add: OpExpire)
    then show ?thesis
      unfolding OpExpire token_step.simps expire_commands_def Let_def snd_conv
      by (rule outstanding_unsettled [OF _ op]) (simp add: OpExpire)
  next
    case (OpClock clk dbnow)
    with o show ?thesis by (simp add: outstanding_def)
  qed
qed

text \<open>
  Commands to a daemon are delivered at least once: from the moment it is queued, a command
  rides every response to its runtime, however many responses went out or were lost, until exactly
  the event its type waits for arrives (the attempt's finish, the probe, the rebound attempt, the
  receipts of all its workdirs) or it is a day old (a revoke: three minutes).
\<close>

theorem command_delivered_until_settled:
  assumes "c = dc_payload row" and "row \<in> set (db_commands db)" and "dc_consumed_at row = None"
    and "\<not> list_ex (settles row) ops" and "dc_created_at row > now - command_ttl"
    and "dc_type row = CmdRevoke \<Longrightarrow> dc_created_at row > now - heartbeat_expiry"
  shows "c \<in> set (fst (pending_commands (dc_runtime row) now (fold (token_step hash) ops db)))"
proof -
  have "outstanding row db" using assms(2,3) by (auto simp: outstanding_def)
  from commands.run_kept [OF this assms(4), of hash]
  obtain r where r: "r \<in> set (db_commands (fold (token_step hash) ops db))" "undelivered r = undelivered row"
    by (auto simp: outstanding_def)
  note same = undelivered_fields [OF r(2)]
  have "is_pending (dc_runtime row) now r"
    using assms(3,5,6) same by (auto simp: is_pending_def)
  with r(1) have "dc_payload r \<in> set (fst (pending_commands (dc_runtime row) now (fold (token_step hash) ops db)))"
    by (simp add: pending_commands_def Let_def)
  then show ?thesis using assms(1) same by simp
qed

definition sample_cancel :: command_row where
  "sample_cancel = \<lparr>dc_id = 1, dc_runtime = 5, dc_payload = plain_command CmdCancel 1 1, dc_task = Some 1,
     dc_attempt = Some 1, dc_session = None, dc_created_at = 0, dc_delivered_at = None, dc_consumed_at = None,
     dc_consumed_by = None\<rparr>"

theorem command_delivered_until_settled_witness:
  "plain_command CmdCancel 1 1 \<in> set (fst (pending_commands 5 (2 * hour)
     (fold (token_step (\<lambda>s. s)) [OpDeliver 5 1, OpFinished 1 2 2, OpExpire hour] (empty_db\<lparr>db_commands := [sample_cancel]\<rparr>))))"
  using command_delivered_until_settled [of "plain_command CmdCancel 1 1" sample_cancel "empty_db\<lparr>db_commands := [sample_cancel]\<rparr>"
      "[OpDeliver 5 1, OpFinished 1 2 2, OpExpire hour]" "2 * hour" "\<lambda>s. s"]
  by (simp add: sample_cancel_def plain_command_def dur_simps)

end
