(* ===== verification/Lane_Done.thy ===== *)
theory Lane_Done
  imports Task_Tokens
begin

text \<open>
  The one writer of a finished lane, \<open>server/internal/lanedone/lanedone.go\<close>, with its card gate
  (PRD FR-3.8), and the writes on cards it shares with the other paths (\<open>StoreResult\<close> and
  \<open>CancelWhere\<close> of \<open>server/internal/cards/store.go\<close>). A follow-up task hangs off a system message;
  its text and the publishing of frames are left out. \<open>mr_after_done\<close> says that the caller's
  \<open>AfterDone\<close> runs.
\<close>

section \<open>Cards in the store\<close>

definition update_card :: "uuid \<Rightarrow> (card_row \<Rightarrow> card_row) \<Rightarrow> db \<Rightarrow> db" where
  "update_card i f db = db\<lparr>db_cards := tbl_modify cd_id i f (db_cards db)\<rparr>"

text \<open>The speech of a row whose kind names it (the rows only the server writes).\<close>

definition server_speech :: "string \<Rightarrow> speech option" where
  "server_speech kind = (if kind = ''system'' then Some SpSystem else if kind = ''hitl'' then Some SpHitl
     else if kind = ''summary'' then Some SpSummary else None)"

definition insert_message ::
    "author_type \<Rightarrow> string \<Rightarrow> uuid option \<Rightarrow> uuid \<Rightarrow> uuid option \<Rightarrow> time \<Rightarrow> db \<Rightarrow> uuid \<times> db" where
  "insert_message author kind work room source now db =
     (db_next db,
      db\<lparr>db_messages := db_messages db @ [\<lparr>ms_id = db_next db, ms_room = room, ms_source_task = source, ms_created_at = now,
           ms_author = author, ms_kind = kind, ms_work = work, ms_ranged = False, ms_author_id = None, ms_parent = None,
           ms_content = [], ms_mentions = [], ms_speech = server_speech kind, ms_addressees = [],
           ms_responds_to = None, ms_delegated_lane = None, ms_group = None, ms_card = None\<rparr>],
         db_next := db_next db + 1\<rparr>)"

definition update_message :: "uuid \<Rightarrow> (message_row \<Rightarrow> message_row) \<Rightarrow> db \<Rightarrow> db" where
  "update_message i f db = db\<lparr>db_messages := tbl_modify ms_id i f (db_messages db)\<rparr>"

definition agent_name :: "uuid \<Rightarrow> db \<Rightarrow> string" where
  "agent_name a db = (case tbl_get ag_id (db_agents db) a of None \<Rightarrow> [] | Some r \<Rightarrow> ag_name r)"

text \<open>A result bubble is the assignee's report to the delegator, answering the version's delegation.\<close>

definition result_bubble :: "card_row \<Rightarrow> uuid option \<Rightarrow> time \<Rightarrow> db \<Rightarrow> db" where
  "result_bubble c author_task now db =
     (case insert_message ByAgent ''text'' (cd_work c) (cd_room c) author_task now db of (msg, db) \<Rightarrow>
        update_message msg
          (\<lambda>m. m\<lparr>ms_author_id := Some (cd_assignee c), ms_speech := Some SpReport,
             ms_addressees := [\<lparr>ad_kind = MentionAgent, ad_id = Some (cd_delegator c), ad_name = agent_name (cd_delegator c) db\<rparr>],
             ms_responds_to := cd_bubble c, ms_card := Some (cd_id c, ''result'', cd_version c)\<rparr>) db)"

definition store_result :: "card_row \<Rightarrow> card_result \<Rightarrow> uuid option \<Rightarrow> time \<Rightarrow> db \<Rightarrow> db" where
  "store_result c res author_task now db =
     update_card (cd_id c)
       (\<lambda>r. r\<lparr>cd_status := ResultSubmitted, cd_result := Some res, cd_judgement := None, cd_updated_at := now\<rparr>)
       (result_bubble c author_task now db)"

definition open_card :: "card_row \<Rightarrow> bool" where
  "open_card c \<longleftrightarrow> cd_status c = InProgress \<or> cd_status c = ResultSubmitted"

definition cancel_cards_where :: "(card_row \<Rightarrow> bool) \<Rightarrow> time \<Rightarrow> db \<Rightarrow> db" where
  "cancel_cards_where p now db =
     db\<lparr>db_cards := tbl_upd (\<lambda>c. p c \<and> open_card c) (\<lambda>c. c\<lparr>cd_status := CardCancelled, cd_updated_at := now\<rparr>) (db_cards db)\<rparr>"

section \<open>The end of a question\<close>

definition plan_question_end :: "lane_status \<Rightarrow> bool \<Rightarrow> lane_status \<times> bool" where
  "plan_question_end cur other_tasks =
     (if \<not> other_tasks \<and> cur = LaneQueued then (LaneDone, True) else (cur, False))"

definition other_work :: "uuid \<Rightarrow> uuid \<Rightarrow> db \<Rightarrow> bool" where
  "other_work task lane db = list_ex (\<lambda>x. tk_lane x = lane \<and> tk_id x \<noteq> task \<and> \<not> is_question x) (db_tasks db)"

definition end_question :: "uuid \<Rightarrow> uuid \<Rightarrow> time \<Rightarrow> db \<Rightarrow> db_error + lane_status \<times> db" where
  "end_question task lane now db =
     (case get_lane lane db of
        None \<Rightarrow> Inl DbMissingRow
      | Some l \<Rightarrow>
          (case plan_question_end (ln_status l) (other_work task lane db) of
             (st, True) \<Rightarrow> Inr (st, update_lane lane (\<lambda>l. True)
                             (\<lambda>l. l\<lparr>ln_status := st, ln_finished_at := Some now, ln_updated_at := now\<rparr>) db)
           | (_, False) \<Rightarrow> Inr (ln_status l, db)))"

section \<open>Marking a lane done\<close>

datatype done_cause = AgentDone | TurnEnd

datatype gate = GateFollowUp | GateAuto | GateQuestion

record done_request =
  dq_lane :: uuid
  dq_task :: uuid
  dq_cause :: done_cause
  dq_now :: time

record mark_result =
  mr_status :: "lane_status option"
  mr_prev :: "lane_status option"
  mr_gate :: "gate option"
  mr_follow_up_task :: uuid
  mr_after_done :: bool

definition runs_follow_up :: "done_cause \<Rightarrow> bool" where
  "runs_follow_up c \<longleftrightarrow> c = AgentDone \<or> c = TurnEnd"

definition queued_work :: "uuid \<Rightarrow> db \<Rightarrow> bool" where
  "queued_work lane db = list_ex (\<lambda>x. tk_lane x = lane \<and> tk_status x = Queued \<and> \<not> is_question x) (db_tasks db)"

definition follow_up_task :: "uuid \<Rightarrow> uuid \<Rightarrow> uuid \<Rightarrow> time \<Rightarrow> task_row \<Rightarrow> task_row" where
  "follow_up_task i msg cid now ended =
     \<lparr>tk_id = i, tk_lane = tk_lane ended, tk_room = tk_room ended, tk_runtime = None, tk_agent = tk_agent ended,
      tk_profile = tk_profile ended, tk_trigger = Some msg, tk_delegated_from = tk_delegated_from ended,
      tk_originator = tk_originator ended, tk_coalesced = [msg], tk_attempt = 1, tk_max_attempts = 3,
      tk_pending_hitl = False, tk_budget_override = None, tk_status = Queued, tk_paused_reason = None,
      tk_paused_detail = None, tk_failure = None, tk_not_before = None, tk_stop_reason = None,
      tk_heartbeat_at = None, tk_created_at = now, tk_updated_at = now, tk_dispatched_at = None,
      tk_started_at = None, tk_finished_at = None, tk_work = tk_work ended, tk_queued_reason = None,
      tk_kind = KindCard, tk_card = Some cid, tk_trigger_reason = Some ''result_card_missing'', tk_restarted_from = None,
     tk_fallback_for = None, tk_join_fired = None, tk_result_cards = []\<rparr>"

definition insert_task :: "task_row \<Rightarrow> db \<Rightarrow> db_error + db" where
  "insert_task t db =
     (if task_check t then Inr (db\<lparr>db_tasks := db_tasks db @ [t], db_next := db_next db + 1\<rparr>) else Inl DbCheck)"

definition queue_follow_up :: "uuid \<Rightarrow> card_row \<Rightarrow> time \<Rightarrow> db \<Rightarrow> db_error + uuid \<times> db" where
  "queue_follow_up ended c now db =
     (if \<not> (0 \<le> cd_follow_ups c + 1 \<and> cd_follow_ups c + 1 \<le> max_follow_ups) then Inl DbCheck
      else
        let db1 = update_card (cd_id c) (\<lambda>r. r\<lparr>cd_follow_ups := cd_follow_ups r + 1, cd_updated_at := now\<rparr>) db
        in case insert_message BySystem ''system'' (cd_work c) (cd_room c) None now db1 of (msg, db2) \<Rightarrow>
             (case get_task ended db2 of
                None \<Rightarrow> Inl DbMissingRow
              | Some t \<Rightarrow> bindE (insert_task (follow_up_task (db_next db2) msg (cd_id c) now t) db2)
                              (\<lambda>db3. Inr (db_next db2, db3))))"

text \<open>What the card gate decides before the lane is written.\<close>

datatype gate_step =
    Pass "gate option" db
  | Refuse db_error
  | Halt mark_result db

definition gate_result :: "lane_status \<Rightarrow> lane_status \<Rightarrow> gate \<Rightarrow> uuid \<Rightarrow> mark_result" where
  "gate_result st prev g follow_up =
     \<lparr>mr_status = Some st, mr_prev = Some prev, mr_gate = Some g, mr_follow_up_task = follow_up, mr_after_done = False\<rparr>"

definition card_gate :: "done_request \<Rightarrow> lane_status \<Rightarrow> card_row \<Rightarrow> db \<Rightarrow> gate_step" where
  "card_gate req prev c db =
     (if cd_status c \<noteq> InProgress then Pass None db
      else if dq_cause req = AgentDone then Refuse ErrResultCardRequired
      else if queued_work (dq_lane req) db then Pass None db
      else if cd_follow_ups c < max_follow_ups then
        (case queue_follow_up (dq_task req) c (dq_now req) db of
           Inl e \<Rightarrow> Refuse e
         | Inr (i, db') \<Rightarrow>
             Halt (gate_result LaneQueued prev GateFollowUp i)
               (update_lane (dq_lane req) (\<lambda>l. True)
                 (\<lambda>l. l\<lparr>ln_status := LaneQueued, ln_finished_at := None, ln_updated_at := dq_now req\<rparr>) db'))
      else Pass (Some GateAuto)
             (store_result c (auto_result (length (cd_criteria c))) (Some (dq_task req)) (dq_now req) db))"

definition gate_check :: "done_request \<Rightarrow> lane_status \<Rightarrow> db \<Rightarrow> gate_step" where
  "gate_check req prev db =
     (if dq_task req = uuid_nil then Pass None db
      else case get_task (dq_task req) db of
             None \<Rightarrow> Refuse DbMissingRow
           | Some t \<Rightarrow>
               if tk_kind t = KindQuestion then
                 (if dq_cause req = AgentDone then Refuse ErrQuestionDone
                  else case end_question (dq_task req) (dq_lane req) (dq_now req) db of
                         Inl e \<Rightarrow> Refuse e
                       | Inr (st, db') \<Rightarrow> Halt (gate_result st prev GateQuestion uuid_nil) db')
               else if tk_kind t = KindCard \<and> \<not> (dq_cause req = TurnEnd \<and> prev = LaneBlocked) then
                 (case tk_card t of
                    None \<Rightarrow> Pass None db
                  | Some i \<Rightarrow> (case get_card i db of None \<Rightarrow> Pass None db | Some c \<Rightarrow> card_gate req prev c db))
               else Pass None db)"

definition end_status :: "done_request \<Rightarrow> lane_status \<Rightarrow> db \<Rightarrow> lane_status" where
  "end_status req prev db =
     (if dq_cause req = AgentDone then LaneDone
      else if prev = LaneBlocked then LaneBlocked
      else if queued_work (dq_lane req) db then LaneQueued else LaneDone)"

definition write_end :: "done_request \<Rightarrow> lane_status \<Rightarrow> gate option \<Rightarrow> db \<Rightarrow> mark_result \<times> db" where
  "write_end req prev g db =
     (let st = end_status req prev db;
          db' = (if dq_cause req = TurnEnd \<and> prev = LaneBlocked then db
                 else update_lane (dq_lane req) (\<lambda>l. True)
                        (\<lambda>l. l\<lparr>ln_status := st, ln_finished_at := Some (dq_now req), ln_updated_at := dq_now req\<rparr>) db)
      in (\<lparr>mr_status = Some st, mr_prev = Some prev, mr_gate = g, mr_follow_up_task = uuid_nil,
          mr_after_done = (st = LaneDone \<and> prev \<noteq> LaneDone \<and> runs_follow_up (dq_cause req))\<rparr>, db'))"

definition mark_done :: "done_request \<Rightarrow> db \<Rightarrow> db_error + mark_result \<times> db" where
  "mark_done req db =
     (case get_lane (dq_lane req) db of
        None \<Rightarrow> Inr (\<lparr>mr_status = None, mr_prev = None, mr_gate = None, mr_follow_up_task = uuid_nil, mr_after_done = False\<rparr>, db)
      | Some l \<Rightarrow>
          (case gate_check req (ln_status l) db of
             Refuse e \<Rightarrow> Inl e
           | Halt res db' \<Rightarrow> Inr (res, db')
           | Pass g db' \<Rightarrow> Inr (write_end req (ln_status l) g db')))"

section \<open>What each write leaves alone\<close>

lemma get_task_frames [keeps, simp]:
  "get_task i (update_card j f db) = get_task i db"
  "get_task i (update_lane j p g db) = get_task i db"
  "get_task i (snd (insert_message a0 k0 w0 r src now db)) = get_task i db"
  "get_task i (store_result c res a now db) = get_task i db"
  by (simp_all add: get_task_def update_card_def update_lane_def insert_message_def store_result_def result_bubble_def update_message_def)

lemma db_tasks_frames [keeps, simp]:
  "db_tasks (update_card j f db) = db_tasks db"
  "db_tasks (update_lane j p g db) = db_tasks db"
  "db_tasks (snd (insert_message a0 k0 w0 r src now db)) = db_tasks db"
  "db_tasks (store_result c res a now db) = db_tasks db"
  by (simp_all add: update_card_def update_lane_def insert_message_def store_result_def result_bubble_def update_message_def)

lemma db_lanes_frames [keeps, simp]:
  "db_lanes (update_card j f db) = db_lanes db"
  "db_lanes (snd (insert_message a0 k0 w0 r src now db)) = db_lanes db"
  "db_lanes (store_result c res a now db) = db_lanes db"
  by (simp_all add: update_card_def insert_message_def store_result_def result_bubble_def update_message_def)

lemma db_cards_frames [keeps, simp]:
  "db_cards (update_lane j p g db) = db_cards db"
  "db_cards (snd (insert_message a0 k0 w0 r src now db)) = db_cards db"
  by (simp_all add: update_lane_def insert_message_def)

lemma queued_work_frames [keeps, simp]:
  "queued_work l (update_card j f db) = queued_work l db"
  "queued_work l (update_lane j p g db) = queued_work l db"
  "queued_work l (store_result c res a now db) = queued_work l db"
  by (simp_all add: queued_work_def)

lemma get_lane_update:
  assumes "\<And>l. ln_id (f l) = ln_id l"
  shows "get_lane i (update_lane j p f db) =
    (if i = j then map_option (\<lambda>l. if p l then f l else l) (get_lane i db) else get_lane i db)"
proof -
  have "get_lane i (update_lane j p f db) = map_option (\<lambda>l. if ln_id l = j \<and> p l then f l else l) (get_lane i db)"
    using tbl_get_upd [of ln_id f "\<lambda>l. ln_id l = j \<and> p l" "db_lanes db" i] assms
    by (simp add: get_lane_def update_lane_def)
  moreover have "ln_id l = i" if "get_lane i db = Some l" for l
    using that unfolding get_lane_def by (rule tbl_get_Some_key)
  ultimately show ?thesis by (cases "get_lane i db") auto
qed

lemma get_card_update:
  assumes "\<And>c. cd_id (f c) = cd_id c"
  shows "get_card i (update_card j f db) = (if i = j then map_option f (get_card i db) else get_card i db)"
  using assms by (simp add: get_card_def update_card_def tbl_get_modify)

lemma get_card_frames [keeps, simp]:
  "get_card i (update_lane j p g db) = get_card i db"
  "get_card i (snd (insert_message a0 k0 w0 r src now db)) = get_card i db"
  by (simp_all add: get_card_def)

lemma get_lane_frames [keeps, simp]:
  "get_lane i (update_card j f db) = get_lane i db"
  "get_lane i (snd (insert_message a0 k0 w0 r src now db)) = get_lane i db"
  "get_lane i (store_result c res a now db) = get_lane i db"
  by (simp_all add: get_lane_def)

lemma get_card_id: "get_card i db = Some c \<Longrightarrow> cd_id c = i"
  unfolding get_card_def by (rule tbl_get_Some_key)

lemma get_card_bubble [simp]: "get_card i (result_bubble c a now db) = get_card i db"
  by (simp add: get_card_def result_bubble_def insert_message_def update_message_def)

lemma get_card_store_result:
  "get_card i (store_result c res a now db) =
     (if i = cd_id c
      then map_option (\<lambda>r. r\<lparr>cd_status := ResultSubmitted, cd_result := Some res, cd_judgement := None, cd_updated_at := now\<rparr>)
             (get_card i db)
      else get_card i db)"
  by (simp add: store_result_def get_card_update get_card_bubble)

lemma follow_up_task_simps [simp]:
  "tk_id (follow_up_task i m c now t) = i" "tk_lane (follow_up_task i m c now t) = tk_lane t"
  "tk_status (follow_up_task i m c now t) = Queued" "tk_kind (follow_up_task i m c now t) = KindCard"
  "tk_card (follow_up_task i m c now t) = Some c" "task_check (follow_up_task i m c now t)"
  by (simp_all add: follow_up_task_def task_check_def)

text \<open>A successful follow-up: what it wrote.\<close>

lemma queue_follow_up_Inr:
  assumes "queue_follow_up ended c now db = Inr (i, db')"
  obtains t msg where "get_task ended db = Some t"
    and "db_tasks db' = db_tasks db @ [follow_up_task i msg (cd_id c) now t]"
    and "db_cards db' = db_cards (update_card (cd_id c) (\<lambda>r. r\<lparr>cd_follow_ups := cd_follow_ups r + 1, cd_updated_at := now\<rparr>) db)"
    and "db_lanes db' = db_lanes db" and "cd_follow_ups c + 1 \<le> max_follow_ups"
proof -
  let ?db1 = "update_card (cd_id c) (\<lambda>r. r\<lparr>cd_follow_ups := cd_follow_ups r + 1, cd_updated_at := now\<rparr>) db"
  obtain msg db2 where m: "insert_message BySystem ''system'' (cd_work c) (cd_room c) None now ?db1 = (msg, db2)" by fastforce
  then have db2: "db2 = snd (insert_message BySystem ''system'' (cd_work c) (cd_room c) None now ?db1)" by simp
  then have task: "get_task ended db2 = get_task ended db" by simp
  from assms m obtain t where t: "get_task ended db = Some t"
    by (auto simp: queue_follow_up_def task split: if_splits option.splits)
  have "\<not> (0 \<le> cd_follow_ups c + 1 \<and> cd_follow_ups c + 1 \<le> max_follow_ups) \<Longrightarrow> False"
    using assms by (simp add: queue_follow_up_def)
  moreover from this have "Inr (i, db') = (Inr (db_next db2, db2\<lparr>db_tasks := db_tasks db2 @ [follow_up_task (db_next db2) msg (cd_id c) now t],
      db_next := db_next db2 + 1\<rparr>) :: db_error + uuid \<times> db)"
    using assms m t task by (auto simp: queue_follow_up_def Let_def insert_task_def split: if_splits)
  ultimately show ?thesis
    using that [OF t] by (auto simp: db2)
qed

lemma queue_follow_up_total:
  assumes "get_task ended db = Some t" and "0 \<le> cd_follow_ups c" and "cd_follow_ups c < max_follow_ups"
  shows "\<exists>i db'. queue_follow_up ended c now db = Inr (i, db')"
proof -
  let ?db1 = "update_card (cd_id c) (\<lambda>r. r\<lparr>cd_follow_ups := cd_follow_ups r + 1, cd_updated_at := now\<rparr>) db"
  obtain msg db2 where m: "insert_message BySystem ''system'' (cd_work c) (cd_room c) None now ?db1 = (msg, db2)" by fastforce
  then have "db2 = snd (insert_message BySystem ''system'' (cd_work c) (cd_room c) None now ?db1)" by simp
  then have "get_task ended db2 = Some t" using assms(1) by simp
  with m assms(2,3) show ?thesis by (simp add: queue_follow_up_def Let_def insert_task_def)
qed

section \<open>The card gate\<close>

lemma write_end_lane:
  assumes "get_lane (dq_lane req) db = Some l" and "write_end req (ln_status l) g db = (res, db')"
  shows "\<exists>l'. get_lane (dq_lane req) db' = Some l' \<and> mr_status res = Some (ln_status l')
            \<and> mr_after_done res = (ln_status l' = LaneDone \<and> ln_status l \<noteq> LaneDone)"
    and "get_card i db' = get_card i db" and "db_tasks db' = db_tasks db"
  using assms
  by (cases "dq_cause req"; auto simp: write_end_def Let_def get_lane_update end_status_def runs_follow_up_def split: if_splits)+

text \<open>
  The card gate: whichever way its work ends, a lane that a delegation card made is \<open>done\<close>
  only when the card's current version has left \<open>in_progress\<close> - the agent submitted a result, a
  judge or a cancel closed the card, or the server filed the automatic one.
\<close>

theorem done_lane_has_result:
  assumes "mark_done req db = Inr (res, db')" and "mr_status res = Some LaneDone"
    and "get_task (dq_task req) db = Some t" and "dq_task req \<noteq> uuid_nil"
    and "tk_kind t = KindCard" and "tk_card t = Some i" and "get_card i db = Some c"
  shows "\<exists>c'. get_card i db' = Some c' \<and> cd_status c' \<noteq> InProgress"
proof -
  obtain l where l: "get_lane (dq_lane req) db = Some l"
    using assms(1,2) by (cases "get_lane (dq_lane req) db") (auto simp: mark_done_def)
  show ?thesis
  proof (cases "dq_cause req = TurnEnd \<and> ln_status l = LaneBlocked")
    case True
    with assms l show ?thesis
      by (auto simp: mark_done_def gate_check_def write_end_def end_status_def Let_def)
  next
    case False
    with assms(3-7) have gate: "gate_check req (ln_status l) db = card_gate req (ln_status l) c db"
      by (auto simp: gate_check_def)
    show ?thesis
    proof (cases "cd_status c = InProgress")
      case open_card: True
      with assms(1,2) l gate False assms(7) get_card_id [OF assms(7)] show ?thesis
        by (auto simp: mark_done_def card_gate_def gate_result_def write_end_def Let_def end_status_def
            get_card_store_result split: if_splits sum.splits)
    next
      case submitted: False
      with assms(1,2,7) l gate show ?thesis
        by (auto simp: mark_done_def card_gate_def write_end_def Let_def split: if_splits)
    qed
  qed
qed

definition done_lane :: lane_row where
  "done_lane = \<lparr>ln_id = 2, ln_room = 3, ln_agent = 4, ln_profile = 6, ln_status = LaneRunning, ln_finished_at = None,
     ln_updated_at = 0, ln_session_ref = None, ln_anchor = None, ln_work = None, ln_workdir = None, ln_depends_on = [],
     ln_reentry = 0, ln_created_at = 0, ln_delegated_from = None, ln_blocked_note = None, ln_blocked_message = None\<rparr>"

definition done_card :: card_row where
  "done_card = \<lparr>cd_id = 7, cd_lane = 2, cd_room = 3, cd_work = None, cd_status = InProgress, cd_version = 1,
     cd_criteria = [\<lparr>cr_n = 1, cr_text = ''doc'', cr_method = ''artifact''\<rparr>], cd_follow_ups = 2,
     cd_result = None, cd_judgement = None, cd_updated_at = 0,
     cd_number = 1, cd_delegator = 9, cd_delegator_task = None, cd_assignee = 4, cd_parent = None,
     cd_goal = ''ship'', cd_boundaries = ''none'', cd_refs = [], cd_bubble = None, cd_output = None, cd_budget = None,
     cd_reason = None, cd_versions = []\<rparr>"

definition card_task :: task_row where
  "card_task = follow_up_task 1 8 7 0
     \<lparr>tk_id = 1, tk_lane = 2, tk_room = 3, tk_runtime = Some 5, tk_agent = 4, tk_profile = 6, tk_trigger = None,
      tk_delegated_from = None, tk_originator = None, tk_coalesced = [], tk_attempt = 1, tk_max_attempts = 3,
      tk_pending_hitl = False, tk_budget_override = None, tk_status = Running, tk_paused_reason = None,
      tk_paused_detail = None, tk_failure = None, tk_not_before = None, tk_stop_reason = None, tk_heartbeat_at = None,
      tk_created_at = 0, tk_updated_at = 0, tk_dispatched_at = None, tk_started_at = None, tk_finished_at = None,
      tk_work = None, tk_queued_reason = None, tk_kind = KindCard, tk_card = Some 7, tk_trigger_reason = None, tk_restarted_from = None,
     tk_fallback_for = None, tk_join_fired = None, tk_result_cards = []\<rparr>
     \<lparr>tk_status := Running\<rparr>"

definition done_db :: db where
  "done_db = empty_db\<lparr>db_tasks := [card_task], db_lanes := [done_lane], db_cards := [done_card]\<rparr>"

definition done_req :: done_request where
  "done_req = \<lparr>dq_lane = 2, dq_task = 1, dq_cause = TurnEnd, dq_now = 9\<rparr>"

lemma done_db_gets:
  "get_lane 2 done_db = Some done_lane" "get_task 1 done_db = Some card_task" "get_card 7 done_db = Some done_card"
  "\<not> queued_work 2 done_db"
  by (simp_all add: done_db_def empty_db_def get_lane_def get_task_def get_card_def done_lane_def done_card_def
      card_task_def queued_work_def)

theorem done_lane_has_result_witness:
  "\<exists>res db'. mark_done done_req done_db = Inr (res, db') \<and> mr_status res = Some LaneDone
     \<and> (\<exists>c'. get_card 7 db' = Some c' \<and> cd_status c' \<noteq> InProgress)"
proof -
  obtain res db' where r: "mark_done done_req done_db = Inr (res, db')" "mr_status res = Some LaneDone"
    using done_db_gets
    by (simp add: mark_done_def gate_check_def card_gate_def done_req_def done_card_def max_follow_ups_def write_end_def
        Let_def end_status_def done_lane_def card_task_def)
  have "\<exists>c'. get_card 7 db' = Some c' \<and> cd_status c' \<noteq> InProgress"
    using done_lane_has_result [OF r, of card_task 7 done_card] done_db_gets
    by (simp add: done_req_def card_task_def follow_up_task_def)
  with r show ?thesis by blast
qed

text \<open>
  The gate always moves on: at the end of a turn that reported nothing, with no other work
  queued, either one more \<open>result_card_missing\<close> turn is queued on the lane - at most twice per
  version - or the automatic result is filed and the lane ends, so a join is never stuck on a card
  nobody reports.
\<close>

theorem gate_moves_on:
  assumes "get_lane (dq_lane req) db = Some l" and "ln_status l \<noteq> LaneBlocked" and "dq_cause req = TurnEnd"
    and "dq_task req \<noteq> uuid_nil" and "get_task (dq_task req) db = Some t" and "tk_kind t = KindCard"
    and "tk_card t = Some i" and "get_card i db = Some c" and "cd_status c = InProgress" and "0 \<le> cd_follow_ups c"
    and "\<not> queued_work (dq_lane req) db"
  shows "\<exists>res db' l' c'. mark_done req db = Inr (res, db') \<and> get_lane (dq_lane req) db' = Some l' \<and> get_card i db' = Some c' \<and>
     (if cd_follow_ups c < max_follow_ups
      then ln_status l' = LaneQueued \<and> cd_status c' = InProgress \<and> cd_follow_ups c' = cd_follow_ups c + 1
           \<and> (\<exists>f \<in> set (db_tasks db'). tk_id f = mr_follow_up_task res \<and> tk_status f = Queued \<and> tk_card f = Some i)
      else ln_status l' = LaneDone \<and> cd_result c' = Some (auto_result (length (cd_criteria c)))
           \<and> cd_status c' = ResultSubmitted)"
proof -
  have i: "cd_id c = i" using assms(8) by (rule get_card_id)
  have gate: "gate_check req (ln_status l) db = card_gate req (ln_status l) c db"
    using assms(2,4-8) by (simp add: gate_check_def)
  show ?thesis
  proof (cases "cd_follow_ups c < max_follow_ups")
    case True
    obtain f db1 where q: "queue_follow_up (dq_task req) c (dq_now req) db = Inr (f, db1)"
      using queue_follow_up_total [OF assms(5,10) True] by blast
    obtain t0 msg where w: "get_task (dq_task req) db = Some t0"
      "db_tasks db1 = db_tasks db @ [follow_up_task f msg (cd_id c) (dq_now req) t0]"
      "db_cards db1 = db_cards (update_card (cd_id c) (\<lambda>r. r\<lparr>cd_follow_ups := cd_follow_ups r + 1, cd_updated_at := dq_now req\<rparr>) db)"
      "db_lanes db1 = db_lanes db" "cd_follow_ups c + 1 \<le> max_follow_ups"
      by (rule queue_follow_up_Inr [OF q])
    have card: "get_card i db1 = Some (c\<lparr>cd_follow_ups := cd_follow_ups c + 1, cd_updated_at := dq_now req\<rparr>)"
      using w(3) assms(8) i by (simp add: get_card_def update_card_def tbl_get_modify)
    have lane: "get_lane (dq_lane req) db1 = Some l" using w(4) assms(1) by (simp add: get_lane_def)
    let ?r = "gate_result LaneQueued (ln_status l) GateFollowUp f"
    let ?set = "\<lambda>l. l\<lparr>ln_status := LaneQueued, ln_finished_at := None, ln_updated_at := dq_now req\<rparr>"
    let ?db = "update_lane (dq_lane req) (\<lambda>l. True) ?set db1"
    have "mark_done req db = Inr (?r, ?db)"
      using assms(1,3,9,11) True by (simp add: mark_done_def gate card_gate_def q)
    moreover have "get_lane (dq_lane req) ?db = Some (?set l)" by (simp add: get_lane_update lane)
    moreover have "get_card i ?db = Some (c\<lparr>cd_follow_ups := cd_follow_ups c + 1, cd_updated_at := dq_now req\<rparr>)"
      by (simp add: card)
    moreover have "\<exists>x \<in> set (db_tasks ?db). tk_id x = mr_follow_up_task ?r \<and> tk_status x = Queued \<and> tk_card x = Some i"
      by (simp add: w(2) i gate_result_def)
    ultimately show ?thesis using True assms(9) by auto
  next
    case False
    then show ?thesis using assms(1-3,8,9,11) gate i
      by (simp add: mark_done_def card_gate_def write_end_def Let_def end_status_def get_lane_update get_card_store_result)
  qed
qed

theorem gate_moves_on_witness:
  "\<exists>res db' l'. mark_done done_req done_db = Inr (res, db') \<and> get_lane 2 db' = Some l' \<and> ln_status l' = LaneDone"
  using gate_moves_on [of done_req done_db done_lane card_task 7 done_card] done_db_gets
  by (auto simp: done_req_def done_lane_def done_card_def card_task_def follow_up_task_def max_follow_ups_def)

text \<open>
  The follow-up of a lane's end (the join, or the report to whoever asked) runs exactly when
  the call moved the lane into \<open>done\<close>, so an agent's \<open>status set done\<close> followed by the end of its
  turn runs it once; a question never runs it.
\<close>

theorem follow_up_once_per_end:
  assumes "mark_done req db = Inr (res, db')" and "get_lane (dq_lane req) db = Some l"
    and "dq_task req = uuid_nil \<or> get_task (dq_task req) db = Some t"
  shows "\<exists>l'. get_lane (dq_lane req) db' = Some l' \<and>
     mr_after_done res = (ln_status l \<noteq> LaneDone \<and> ln_status l' = LaneDone \<and> (dq_task req = uuid_nil \<or> \<not> is_question t))"
proof -
  have pass: ?thesis
    if "gate_check req (ln_status l) db = Pass g db1" and "get_lane (dq_lane req) db1 = Some l"
      and "dq_task req = uuid_nil \<or> \<not> is_question t" for g db1
  proof -
    obtain r d where w: "write_end req (ln_status l) g db1 = (r, d)" by fastforce
    with assms(1,2) that(1) have "res = r" "db' = d" by (auto simp: mark_done_def)
    with write_end_lane(1) [OF that(2) w] that(3) show ?thesis by auto
  qed
  show ?thesis
  proof (cases "gate_check req (ln_status l) db")
    case (Pass g db1)
    have "(dq_task req = uuid_nil \<or> \<not> is_question t) \<and> get_lane (dq_lane req) db1 = Some l"
    proof (cases "dq_task req = uuid_nil")
      case True
      with Pass assms(2) show ?thesis by (simp add: gate_check_def)
    next
      case False
      with assms(3) have t: "get_task (dq_task req) db = Some t" by simp
      show ?thesis
      proof (cases "is_question t")
        case True
        with Pass False t show ?thesis
          by (simp add: gate_check_def is_question_def split: if_splits sum.splits prod.splits)
      next
        case nq: False
        with Pass False t assms(2) show ?thesis
          by (auto simp: gate_check_def is_question_def card_gate_def split: if_splits option.splits sum.splits prod.splits)
      qed
    qed
    with pass [OF Pass] show ?thesis by blast
  next
    case (Refuse e)
    with assms(1,2) show ?thesis by (simp add: mark_done_def)
  next
    case (Halt r d)
    with assms(1,2) have rd: "res = r" "db' = d" by (auto simp: mark_done_def)
    from Halt assms(2,3) show ?thesis
      unfolding rd
      by (auto simp: gate_check_def card_gate_def gate_result_def end_question_def get_lane_update is_question_def
          elim!: queue_follow_up_Inr split: if_splits option.splits sum.splits prod.splits bool.splits)
         (auto simp: get_lane_def)
  qed
qed

theorem follow_up_once_per_end_witness:
  "\<exists>res db' l'. mark_done done_req done_db = Inr (res, db') \<and> get_lane 2 db' = Some l'
     \<and> mr_after_done res = (ln_status l' = LaneDone)"
proof -
  have "\<exists>r. mark_done done_req done_db = Inr r"
    using done_db_gets
    by (simp add: mark_done_def gate_check_def card_gate_def done_req_def done_lane_def done_card_def card_task_def
        follow_up_task_def max_follow_ups_def)
  then obtain res db' where m: "mark_done done_req done_db = Inr (res, db')" by auto
  have "get_lane (dq_lane done_req) done_db = Some done_lane"
    and "dq_task done_req = uuid_nil \<or> get_task (dq_task done_req) done_db = Some card_task"
    using done_db_gets by (simp_all add: done_req_def)
  from follow_up_once_per_end [OF m this] m show ?thesis
    by (auto simp: done_req_def done_lane_def card_task_def follow_up_task_def is_question_def)
qed

end
