(* ===== verification/Task_Ends.thy ===== *)
theory Task_Ends
  imports Lane_Done
begin

text \<open>
  How an attempt starts and how it ends without a report of success, \<open>server/internal/tasks\<close>: the
  dispatch, the phase and heartbeat reports, the requeue with its profile fallback, the last
  failure, the cancel, and the stale sweep (\<open>service.go\<close>, \<open>fallback.go\<close>, \<open>sweep.go\<close>). Each
  operation takes the row \<open>t\<close> as it was read under its lock and returns the row as the Go code
  leaves it in memory, with the new store. The publishing of frames, the lane's focus sentence and
  the hooks that run after the commit are left out; the ends of lanes the hooks are told about are
  returned.
\<close>

section \<open>Is a stop on its way?\<close>

definition in_force :: "command_row \<Rightarrow> bool" where
  "in_force c \<longleftrightarrow> dc_type c = CmdCancel \<and> dc_consumed_by c \<noteq> Some ''ttl''"

definition cancels_of :: "uuid \<Rightarrow> int \<Rightarrow> db \<Rightarrow> command_row list" where
  "cancels_of i n db = filter (\<lambda>c. dc_task c = Some i \<and> dc_attempt c = Some n \<and> in_force c) (db_commands db)"

definition cancel_requested :: "uuid \<Rightarrow> int \<Rightarrow> db \<Rightarrow> bool" where
  "cancel_requested i n db \<longleftrightarrow> cancels_of i n db \<noteq> []"

definition non_budget_cancel_requested :: "uuid \<Rightarrow> int \<Rightarrow> db \<Rightarrow> bool" where
  "non_budget_cancel_requested i n db = list_ex (\<lambda>c. cm_reason (dc_payload c) \<noteq> ''budget'') (cancels_of i n db)"

definition budget_only_cancel_requested :: "uuid \<Rightarrow> int \<Rightarrow> db \<Rightarrow> bool" where
  "budget_only_cancel_requested i n db \<longleftrightarrow>
     (let total = length (cancels_of i n db);
          budget = length (filter (\<lambda>c. cm_reason (dc_payload c) = ''budget'') (cancels_of i n db))
      in total > 0 \<and> total = budget)"

definition cancel_command_for :: "task_row \<Rightarrow> string \<Rightarrow> command" where
  "cancel_command_for t reason =
     (let plan = plan_cancel_command reason
      in (plain_command CmdCancel (tk_id t) (tk_attempt t))
           \<lparr>cm_after_current_tool := cc_after_current_tool plan, cm_reason := cc_reason plan\<rparr>)"

section \<open>Dispatch, phase, heartbeat\<close>

definition task_scope :: "task_row \<Rightarrow> uuid \<Rightarrow> scope" where
  "task_scope t runtime = \<lparr>sc_task = tk_id t, sc_attempt = tk_attempt t, sc_lane = tk_lane t, sc_room = tk_room t,
     sc_agent = tk_agent t, sc_runtime = Some runtime, sc_expires_at = 0\<rparr>"

definition mark_dispatched ::
    "(string \<Rightarrow> string) \<Rightarrow> string \<Rightarrow> task_row \<Rightarrow> uuid \<Rightarrow> time \<Rightarrow> db \<Rightarrow> db_error + task_row \<times> db" where
  "mark_dispatched hash tok t runtime now db =
     bindE (transition (tk_status t) Dispatched) (\<lambda>_.
     bindE (update_task (tk_id t)
       (\<lambda>r. r\<lparr>tk_status := Dispatched, tk_runtime := Some runtime, tk_dispatched_at := Some now,
              tk_heartbeat_at := None, tk_queued_reason := None, tk_updated_at := now\<rparr>) db) (\<lambda>db.
     let db = upsert_attempt
                ((blank_attempt (tk_id t) (tk_attempt t))\<lparr>ar_runtime := Some runtime, ar_dispatched_at := Some now\<rparr>)
                (\<lambda>a. a\<lparr>ar_runtime := Some runtime, ar_dispatched_at := Some now\<rparr>) db;
         db = (if is_question t then db
               else update_lane (tk_lane t) (\<lambda>_. True) (\<lambda>l. l\<lparr>ln_status := LaneRunning, ln_updated_at := now\<rparr>) db)
     in bindE (issue hash tok (task_scope t runtime) db) (\<lambda>db.
        Inr (t\<lparr>tk_status := Dispatched, tk_runtime := Some runtime, tk_dispatched_at := Some now\<rparr>, db))))"

definition phase_status :: "string \<Rightarrow> db_error + task_status" where
  "phase_status phase =
     (if phase = ''preparing'' then Inr Preparing
      else if phase = ''running'' then Inr Running
      else Inl (ErrUnknownPhase phase))"

definition phase_report :: "uuid \<Rightarrow> int \<Rightarrow> string \<Rightarrow> db \<Rightarrow> db_error + db" where
  "phase_report i attempt phase db =
     (let now = db_clock db in
      bindE (lock_task i db) (\<lambda>t.
      if tk_attempt t \<noteq> attempt then Inl ErrStaleAttempt
      else
      bindE (phase_status phase) (\<lambda>to.
      if tk_status t = to then Inr db
      else
      bindE (transition (tk_status t) to) (\<lambda>_.
      let started = (if to = Running \<and> tk_started_at t = None then Some now else tk_started_at t) in
      bindE (update_task (tk_id t)
        (\<lambda>r. r\<lparr>tk_status := to, tk_heartbeat_at := Some now, tk_started_at := started, tk_updated_at := now\<rparr>) db) (\<lambda>db.
      Inr (if to = Running
           then db\<lparr>db_attempts := tbl_modify ar_key (tk_id t, tk_attempt t)
                     (\<lambda>a. a\<lparr>ar_started_at := (case ar_started_at a of None \<Rightarrow> Some now | Some s \<Rightarrow> Some s)\<rparr>) (db_attempts db)\<rparr>
           else db))))))"

definition heartbeat :: "uuid \<Rightarrow> int \<Rightarrow> time \<Rightarrow> db \<Rightarrow> db_error + db" where
  "heartbeat i attempt now db =
     (let live = (\<lambda>t. tk_id t = i \<and> tk_attempt t = attempt \<and> (tk_status t = Preparing \<or> tk_status t = Running))
      in if \<not> list_ex live (db_tasks db) then Inl ErrStaleAttempt
         else Inr (db\<lparr>db_tasks := tbl_upd live (\<lambda>t. t\<lparr>tk_heartbeat_at := Some now\<rparr>) (db_tasks db)\<rparr>))"

section \<open>Cancel\<close>

definition cancel_lane_cards :: "uuid \<Rightarrow> time \<Rightarrow> db \<Rightarrow> db" where
  "cancel_lane_cards lane = cancel_cards_where (\<lambda>c. cd_lane c = lane)"

definition lane_cast :: "string \<Rightarrow> db_error + lane_status" where
  "lane_cast s = (case cast_lane s of None \<Rightarrow> Inl DbCast | Some st \<Rightarrow> Inr st)"

definition cancel_locked :: "task_row \<Rightarrow> string \<Rightarrow> time \<Rightarrow> db \<Rightarrow> db_error + task_row \<times> db" where
  "cancel_locked t stop_reason now db =
     (let res = plan_cancel_result [];
          stop = (if stop_reason = [] then None else Some stop_reason) in
      bindE (transition (tk_status t) Cancelled) (\<lambda>_.
      bindE (update_task (tk_id t)
        (\<lambda>r. r\<lparr>tk_status := Cancelled, tk_failure := Some FailCancelled, tk_paused_reason := None,
               tk_paused_detail := None, tk_finished_at := Some now, tk_stop_reason := stop,
               tk_heartbeat_at := None, tk_updated_at := now\<rparr>) db) (\<lambda>db.
      let db = upsert_attempt
                 ((blank_attempt (tk_id t) (tk_attempt t))
                    \<lparr>ar_runtime := tk_runtime t, ar_finished_at := Some now, ar_outcome := Some ''cancelled'',
                     ar_failure := Some FailCancelled, ar_stop_reason := stop\<rparr>)
                 (\<lambda>a. a\<lparr>ar_finished_at := (case ar_finished_at a of None \<Rightarrow> Some now | Some v \<Rightarrow> Some v),
                        ar_outcome := Some ''cancelled'', ar_failure := Some FailCancelled,
                        ar_stop_reason := (case ar_stop_reason a of None \<Rightarrow> stop | Some v \<Rightarrow> Some v)\<rparr>) db;
          db = revoke (tk_id t) (tk_attempt t) ''cancelled'' db in
      bindE (if is_question t
             then bindE (end_question (tk_id t) (tk_lane t) now db) (\<lambda>(_, db). Inr db)
             else bindE (lane_cast (cr_lane_status res)) (\<lambda>st.
                    let db = update_lane (tk_lane t) (\<lambda>l. ln_status l \<noteq> LaneDone)
                               (\<lambda>l. l\<lparr>ln_status := st, ln_finished_at := Some now, ln_updated_at := now\<rparr>) db
                    in Inr (if cr_lane_status res = ''failed'' then cancel_lane_cards (tk_lane t) now db else db)))
        (\<lambda>db. Inr (t\<lparr>tk_status := cr_task_status res, tk_failure := Some (cr_failure_kind res),
                      tk_finished_at := Some now, tk_stop_reason := stop, tk_paused_reason := None\<rparr>, db)))))"

section \<open>The last failure\<close>

definition fail_lane :: "task_row \<Rightarrow> time \<Rightarrow> db \<Rightarrow> db_error + db" where
  "fail_lane t now db =
     (if is_question t then bindE (end_question (tk_id t) (tk_lane t) now db) (\<lambda>(_, db). Inr db)
      else Inr (cancel_lane_cards (tk_lane t) now
                 (update_lane (tk_lane t) (\<lambda>_. True)
                   (\<lambda>l. l\<lparr>ln_status := LaneFailed, ln_finished_at := Some now, ln_updated_at := now\<rparr>) db)))"

text \<open>The enum cast of a failure kind: a kind the enum does not list fails the statement.\<close>

definition failure_cast :: "failure_kind \<Rightarrow> db_error + failure_kind" where
  "failure_cast k = (if listed_failure k then Inr k else Inl DbCast)"

definition record_failed_attempt :: "task_row \<Rightarrow> failure_kind \<Rightarrow> time \<Rightarrow> db \<Rightarrow> db_error + db" where
  "record_failed_attempt t reason now db =
     bindE (failure_cast reason) (\<lambda>k.
     Inr (upsert_attempt
       ((blank_attempt (tk_id t) (tk_attempt t))
          \<lparr>ar_runtime := tk_runtime t, ar_finished_at := Some now, ar_outcome := Some (fk_text reason), ar_failure := Some k\<rparr>)
       (\<lambda>a. a\<lparr>ar_finished_at := Some now, ar_outcome := Some (fk_text reason), ar_failure := Some k\<rparr>) db))"

definition write_failed :: "task_row \<Rightarrow> failure_kind \<Rightarrow> time \<Rightarrow> db \<Rightarrow> db_error + task_row \<times> db" where
  "write_failed t reason now db =
     bindE (transition (tk_status t) Failed) (\<lambda>_.
     bindE (failure_cast reason) (\<lambda>k.
     bindE (update_task (tk_id t)
       (\<lambda>r. r\<lparr>tk_status := Failed, tk_failure := Some k, tk_finished_at := Some now,
              tk_heartbeat_at := None, tk_updated_at := now\<rparr>) db) (\<lambda>db.
     bindE (fail_lane t now db) (\<lambda>db.
     Inr (t\<lparr>tk_status := Failed, tk_failure := Some reason, tk_finished_at := Some now\<rparr>, db)))))"

definition fail_locked :: "task_row \<Rightarrow> failure_kind \<Rightarrow> time \<Rightarrow> db \<Rightarrow> db_error + task_row \<times> db" where
  "fail_locked t reason now db =
     (if terminal (tk_status t) then Inr (t, db)
      else if cancel_requested (tk_id t) (tk_attempt t) db then cancel_locked t (fk_text reason) now db
      else bindE (record_failed_attempt t reason now (revoke (tk_id t) (tk_attempt t) (fk_text reason) db))
             (write_failed t reason now))"

section \<open>Requeue\<close>

definition fallback_kind :: "profile_row \<Rightarrow> db \<Rightarrow> db_error + string" where
  "fallback_kind p db =
     (case pf_fallback p of
        None \<Rightarrow> Inr (pf_kind p)
      | Some f \<Rightarrow> (case tbl_get pf_id (db_profiles db) f of None \<Rightarrow> Inl DbMissingRow | Some q \<Rightarrow> Inr (pf_kind q)))"

definition switch_profile :: "task_row \<Rightarrow> fallback_decision \<Rightarrow> time \<Rightarrow> db \<Rightarrow> db_error + task_row \<times> db" where
  "switch_profile t d now db =
     bindE (update_task (tk_id t) (\<lambda>r. r\<lparr>tk_profile := fd_profile d, tk_updated_at := now\<rparr>) db) (\<lambda>db.
     let db = update_lane (tk_lane t) (\<lambda>_. True) (\<lambda>l. l\<lparr>ln_profile := fd_profile d, ln_updated_at := now\<rparr>) db;
         db = (if fd_clear_resume d
               then update_lane (tk_lane t) (\<lambda>_. True) (\<lambda>l. l\<lparr>ln_session_ref := None, ln_updated_at := now\<rparr>) db
               else db)
     in Inr (t\<lparr>tk_profile := fd_profile d\<rparr>, db))"

definition apply_profile_fallback ::
    "task_row \<Rightarrow> failure_kind \<Rightarrow> time \<Rightarrow> db \<Rightarrow> db_error + fallback_decision \<times> task_row \<times> db" where
  "apply_profile_fallback t reason now db =
     (case tbl_get pf_id (db_profiles db) (tk_profile t) of
        None \<Rightarrow> Inr (\<lparr>fd_profile = tk_profile t, fd_switched = False, fd_clear_resume = False,
                      fd_notify_director = False\<rparr>, t, db)
      | Some p \<Rightarrow>
          bindE (fallback_kind p db) (\<lambda>other.
            let d = plan_profile_fallback (Some (tk_profile t)) (pf_fallback p) (pf_kind p) other reason
            in if \<not> fd_switched d then Inr (d, t, db)
               else bindE (switch_profile t d now db) (\<lambda>(t, db). Inr (d, t, db))))"

definition note_no_fallback :: "task_row \<Rightarrow> time \<Rightarrow> db \<Rightarrow> db" where
  "note_no_fallback t now db =
     (if list_ex (\<lambda>b. ib_ref b = tk_id t \<and> ib_type b = ''run_failed'') (db_inbox db) then db
      else db\<lparr>db_inbox := db_inbox db @ [\<lparr>ib_ref = tk_id t, ib_type = ''run_failed'', ib_at = now, ib_read_at = None\<rparr>]\<rparr>)"

definition requeue_input :: "task_row \<Rightarrow> cause \<Rightarrow> attempt_input" where
  "requeue_input t c =
     \<lparr>ai_task = tk_id t, ai_attempt = tk_attempt t, ai_max_attempts = tk_max_attempts t, ai_trigger_message = uuid_nil,
      ai_new_task = uuid_nil, ai_new_trigger_message = uuid_nil, ai_session_ref = [], ai_ref_runtime_kind = [],
      ai_profile_runtime_kind = [], ai_resume_rejected = False, ai_cause = c, ai_posted_messages = [],
      ai_prev_workdir = ''-'', ai_prev_phase = [], ai_history_total = 0, ai_history_limit = 0,
      ai_new_instruction = [], ai_alternate_profile = False\<rparr>"

definition queue_again :: "task_row \<Rightarrow> time option \<Rightarrow> time \<Rightarrow> db \<Rightarrow> db_error + task_row \<times> db" where
  "queue_again t not_before now db =
     bindE (update_task (tk_id t)
       (\<lambda>r. r\<lparr>tk_status := Queued, tk_attempt := tk_attempt r + 1, tk_failure := None, tk_not_before := not_before,
              tk_profile := tk_profile t, tk_runtime := None, tk_heartbeat_at := None, tk_dispatched_at := None,
              tk_started_at := None, tk_updated_at := now\<rparr>) db) (\<lambda>db.
     Inr (t\<lparr>tk_status := Queued, tk_attempt := tk_attempt t + 1, tk_failure := None, tk_not_before := not_before,
            tk_runtime := None\<rparr>,
          if is_question t then db
          else update_lane (tk_lane t) (\<lambda>_. True) (\<lambda>l. l\<lparr>ln_status := LaneQueued, ln_updated_at := now\<rparr>) db))"

definition write_requeued :: "task_row \<Rightarrow> failure_kind \<Rightarrow> time option \<Rightarrow> time \<Rightarrow> db \<Rightarrow> db_error + task_row \<times> db" where
  "write_requeued t reason not_before now db =
     bindE (transition (tk_status t) Queued) (\<lambda>_.
     bindE (apply_profile_fallback t reason now db) (\<lambda>(fb, t, db).
     queue_again t not_before now (if fd_notify_director fb then note_no_fallback t now db else db)))"

definition requeue_locked ::
    "task_row \<Rightarrow> failure_kind \<Rightarrow> time option \<Rightarrow> time \<Rightarrow> db \<Rightarrow> db_error + task_row \<times> db" where
  "requeue_locked t reason not_before now db =
     (if terminal (tk_status t) then Inr (t, db)
      else if cancel_requested (tk_id t) (tk_attempt t) db then cancel_locked t (fk_text reason) now db
      else bindE (record_failed_attempt t reason now (revoke (tk_id t) (tk_attempt t) ''requeue'' db)) (\<lambda>db.
             let plan = plan_attempt (requeue_input t (cause_of_failure reason))
             in if ap_task_status plan = Queued then write_requeued t reason not_before now db
                else write_failed t reason now db))"

record lane_end =
  le_lane :: uuid
  le_task :: uuid
  le_attempt :: int
  le_status :: lane_status

definition failed_end :: "task_status \<Rightarrow> task_row \<Rightarrow> lane_end list" where
  "failed_end before t =
     (if \<not> terminal before \<and> (tk_status t = Failed \<or> tk_status t = Cancelled)
      then [\<lparr>le_lane = tk_lane t, le_task = tk_id t, le_attempt = tk_attempt t, le_status = LaneFailed\<rparr>]
      else [])"

definition requeue :: "uuid \<Rightarrow> failure_kind \<Rightarrow> time option \<Rightarrow> time \<Rightarrow> db \<Rightarrow> db_error + lane_end list \<times> db" where
  "requeue i reason not_before now db =
     bindE (lock_task i db) (\<lambda>t.
     bindE (requeue_locked t reason not_before now db) (\<lambda>(t', db).
     Inr (failed_end (tk_status t) t', db)))"

section \<open>The stale sweep\<close>

definition last_sign :: "task_row \<Rightarrow> time option" where
  "last_sign t =
     (if tk_status t = Running
      then (case tk_heartbeat_at t of Some v \<Rightarrow> Some v | None \<Rightarrow>
             (case tk_started_at t of Some v \<Rightarrow> Some v | None \<Rightarrow> tk_dispatched_at t))
      else tk_dispatched_at t)"

definition idle_since :: "task_row \<Rightarrow> time \<Rightarrow> duration" where
  "idle_since t now = now - (case last_sign t of Some v \<Rightarrow> v | None \<Rightarrow> tk_created_at t)"

definition apply_sweep :: "task_row \<Rightarrow> duration \<Rightarrow> time \<Rightarrow> db \<Rightarrow> db_error + task_row \<times> db" where
  "apply_sweep t idle now db =
     (case plan_sweep (tk_status t) idle (tk_attempt t) (tk_max_attempts t) of
        None \<Rightarrow> Inr (t, db)
      | Some out \<Rightarrow>
          if so_task_status out = Failed then fail_locked t (so_failure_kind out) now db
          else requeue_locked t (so_failure_kind out) None now db)"

definition stuck_ids :: "uuid list \<Rightarrow> time \<Rightarrow> db \<Rightarrow> uuid list" where
  "stuck_ids locked now db =
     map tk_id (filter (\<lambda>t. (tk_status t = Dispatched \<or> tk_status t = Preparing)
                         \<and> (case tk_dispatched_at t of None \<Rightarrow> False | Some d \<Rightarrow> d < now - dispatched_timeout)
                         \<and> \<not> List.member locked (tk_id t)) (db_tasks db))"

definition silent_ids :: "uuid list \<Rightarrow> time \<Rightarrow> db \<Rightarrow> uuid list" where
  "silent_ids locked now db =
     map tk_id (filter (\<lambda>t. tk_status t = Running
                         \<and> (case last_sign t of None \<Rightarrow> False | Some v \<Rightarrow> v < now - heartbeat_expiry)
                         \<and> \<not> List.member locked (tk_id t)) (db_tasks db))"

definition set_offline :: "(runtime_row \<Rightarrow> bool) \<Rightarrow> time \<Rightarrow> db \<Rightarrow> db" where
  "set_offline p now db =
     db\<lparr>db_runtimes := tbl_upd
          (\<lambda>r. p r \<and> (case rn_last_seen_at r of None \<Rightarrow> True | Some v \<Rightarrow> v < now - heartbeat_expiry))
          (\<lambda>r. r\<lparr>rn_online := False, rn_offline_since := (case rn_offline_since r of None \<Rightarrow> Some now | Some v \<Rightarrow> Some v),
                 rn_updated_at := now\<rparr>) (db_runtimes db)\<rparr>"

definition sweep_one :: "bool \<Rightarrow> time \<Rightarrow> uuid \<Rightarrow> lane_end list \<times> db \<Rightarrow> db_error + lane_end list \<times> db" where
  "sweep_one mark_runtime now i s =
     (case s of (ends, db) \<Rightarrow>
        bindE (lock_task i db) (\<lambda>t.
        bindE (apply_sweep t (idle_since t now) now db) (\<lambda>(t', db).
        let db = (case tk_runtime t of
                    Some rt \<Rightarrow> if mark_runtime then set_offline (\<lambda>r. rn_id r = rt) now db else db
                  | None \<Rightarrow> db)
        in Inr (ends @ failed_end (tk_status t) t', db))))"

definition promote_deferred :: "time \<Rightarrow> db \<Rightarrow> db" where
  "promote_deferred now db =
     db\<lparr>db_tasks := tbl_upd
          (\<lambda>t. tk_status t = Deferred \<and> (case tk_not_before t of None \<Rightarrow> False | Some v \<Rightarrow> v \<le> now))
          (\<lambda>t. t\<lparr>tk_status := Queued, tk_not_before := None, tk_updated_at := now\<rparr>) (db_tasks db)\<rparr>"

text \<open>\<open>locked\<close> are the rows another transaction holds (\<open>SKIP LOCKED\<close>).\<close>

definition expire_stale :: "uuid list \<Rightarrow> time \<Rightarrow> db \<Rightarrow> db_error + lane_end list \<times> db" where
  "expire_stale locked now db =
     bindE (foldE (sweep_one False now) (stuck_ids locked now db) ([], db)) (\<lambda>(ends, db).
     bindE (foldE (sweep_one True now) (silent_ids locked now db) (ends, db)) (\<lambda>(ends, db).
     Inr (ends, set_offline rn_online now (promote_deferred now db))))"

end
