(* ===== verification/Task_Finish.thy ===== *)
theory Task_Finish
  imports Task_Ends
begin

text \<open>
  The daemon's end-of-attempt report, \<open>Finish\<close> of \<open>server/internal/tasks/service.go\<close>, up to its
  commit: the idempotency check, the attempt, usage and session records, the server's decision
  about the outcome, and the transition each decision makes. The cost roll-up and the context
  metric, which run after it or beside it, are left out. The returned status is a text, as in Go.
\<close>

section \<open>The report\<close>

record usage_report =
  ur_input :: int
  ur_output :: int
  ur_cache_read :: int
  ur_cost :: rat
  ur_estimated :: bool
  ur_model :: string

record finish_report =
  fr_outcome :: string
  fr_stop_reason :: string
  fr_failure :: "failure_kind option"
  fr_not_before :: "time option"
  fr_usage :: usage_report
  fr_ref :: "session_ref option"
  fr_resume_outcome :: string

section \<open>Idempotency\<close>

datatype finish_seen = SeenNew | SeenStale | SeenDone string bool

definition finish_idempotency_check :: "task_row \<Rightarrow> int \<Rightarrow> db \<Rightarrow> finish_seen" where
  "finish_idempotency_check t attempt db =
     (if attempt \<noteq> tk_attempt t then
        (case get_attempt (tk_id t) attempt db of
           None \<Rightarrow> SeenStale
         | Some a \<Rightarrow> (case ar_outcome a of None \<Rightarrow> SeenStale | Some out \<Rightarrow> SeenDone out False))
      else
        let finished = (case get_attempt (tk_id t) attempt db of None \<Rightarrow> None | Some a \<Rightarrow> ar_finished_at a)
        in if finished \<noteq> None \<or> terminal (tk_status t) then SeenDone (status_text (tk_status t)) True
           else SeenNew)"

section \<open>The records every outcome owes\<close>

definition resumed_flag :: "string \<Rightarrow> bool option" where
  "resumed_flag out = (if out = ''resumed'' then Some True else if out = ''cold_start'' then Some False else None)"

definition record_attempt_finish :: "task_row \<Rightarrow> int \<Rightarrow> finish_report \<Rightarrow> time \<Rightarrow> db \<Rightarrow> db" where
  "record_attempt_finish t attempt f now db =
     (let res = resumed_flag (fr_resume_outcome f)
      in upsert_attempt
           ((blank_attempt (tk_id t) attempt)
              \<lparr>ar_runtime := tk_runtime t, ar_finished_at := Some now, ar_outcome := Some (fr_outcome f),
               ar_resumed := res, ar_stop_reason := Some (fr_stop_reason f)\<rparr>)
           (\<lambda>a. a\<lparr>ar_finished_at := Some now, ar_outcome := Some (fr_outcome f), ar_resumed := res,
                  ar_stop_reason := Some (fr_stop_reason f)\<rparr>) db)"

definition empty_usage :: "usage_report \<Rightarrow> bool" where
  "empty_usage u \<longleftrightarrow> ur_input u = 0 \<and> ur_output u = 0 \<and> ur_cache_read u = 0 \<and> ur_cost u = 0"

definition usage_of_report :: "uuid \<Rightarrow> int \<Rightarrow> usage_report \<Rightarrow> time \<Rightarrow> usage_row" where
  "usage_of_report i attempt u now =
     \<lparr>us_task = i, us_attempt = attempt, us_input = ur_input u, us_output = ur_output u, us_cache_read = ur_cache_read u,
      us_cost = (if ur_estimated u then 0 else ur_cost u), us_estimated = ur_estimated u,
      us_model = (if ur_model u = [] then None else Some (ur_model u)), us_updated_at = now\<rparr>"

definition merge_usage :: "usage_row \<Rightarrow> usage_row \<Rightarrow> usage_row" where
  "merge_usage new u = new\<lparr>us_model := (case us_model new of None \<Rightarrow> us_model u | Some m \<Rightarrow> Some m)\<rparr>"

definition record_usage :: "task_row \<Rightarrow> int \<Rightarrow> finish_report \<Rightarrow> time \<Rightarrow> db \<Rightarrow> db" where
  "record_usage t attempt f now db =
     (if empty_usage (fr_usage f) then db
      else let new = usage_of_report (tk_id t) attempt (fr_usage f) now
           in db\<lparr>db_usage := tbl_upsert us_key new (merge_usage new) (db_usage db)\<rparr>)"

definition apply_session_ref :: "task_row \<Rightarrow> int \<Rightarrow> finish_report \<Rightarrow> time \<Rightarrow> db \<Rightarrow> db_error + db" where
  "apply_session_ref t attempt f now db =
     (case validate_session_ref (fr_ref f) of
        Inl _ \<Rightarrow> Inl ErrInvalidSessionRef
      | Inr None \<Rightarrow> Inr db
      | Inr (Some r) \<Rightarrow>
          let anchor = (case get_attempt (tk_id t) attempt db of None \<Rightarrow> None | Some a \<Rightarrow> ar_anchor a)
          in Inr (update_lane (tk_lane t) (\<lambda>_. True)
                   (\<lambda>l. l\<lparr>ln_session_ref := Some r, ln_anchor := anchor, ln_updated_at := now\<rparr>) db))"

section \<open>The decision\<close>

definition decide_finish_outcome :: "task_row \<Rightarrow> int \<Rightarrow> finish_report \<Rightarrow> db \<Rightarrow> string" where
  "decide_finish_outcome t attempt f db =
     (if fr_outcome f \<noteq> ''completed'' then
        (if non_budget_cancel_requested (tk_id t) attempt db then ''cancelled''
         else if fr_outcome f = ''cancelled'' \<and> budget_only_cancel_requested (tk_id t) attempt db then ''paused_budget''
         else fr_outcome f)
      else fr_outcome f)"

definition persist_decided_outcome :: "task_row \<Rightarrow> int \<Rightarrow> string \<Rightarrow> string \<Rightarrow> db \<Rightarrow> db" where
  "persist_decided_outcome t attempt reported decided db =
     (if decided = reported then db
      else db\<lparr>db_attempts := tbl_modify ar_key (tk_id t, attempt) (\<lambda>a. a\<lparr>ar_outcome := Some decided\<rparr>) (db_attempts db)\<rparr>)"

definition turn_start :: "uuid \<Rightarrow> int \<Rightarrow> db \<Rightarrow> time option" where
  "turn_start i attempt db =
     (case (case get_attempt i attempt db of
              None \<Rightarrow> None
            | Some a \<Rightarrow> (case ar_dispatched_at a of Some d \<Rightarrow> Some d | None \<Rightarrow> ar_started_at a)) of
        Some v \<Rightarrow> Some v
      | None \<Rightarrow> map_option tk_created_at (get_task i db))"

definition empty_turn :: "uuid \<Rightarrow> int \<Rightarrow> db \<Rightarrow> bool" where
  "empty_turn i attempt db \<longleftrightarrow>
     \<not> list_ex (\<lambda>e. ev_task e = i \<and> ev_attempt e = attempt \<and> ev_class e = ''status''
                   \<and> \<not> List.member [''cancel'', ''error'', ''turn_end''] (ev_verb e)) (db_events db)
   \<and> \<not> list_ex (\<lambda>e. ev_task e = i \<and> ev_attempt e = attempt \<and> ev_class e = ''tool'' \<and> ev_verb e = ''edit_file'') (db_events db)
   \<and> \<not> list_ex (\<lambda>m. ms_source_task m = Some i
                   \<and> (case turn_start i attempt db of None \<Rightarrow> False | Some v \<Rightarrow> ms_created_at m \<ge> v)) (db_messages db)"

definition note_empty_turn :: "uuid \<Rightarrow> int \<Rightarrow> time \<Rightarrow> db \<Rightarrow> db" where
  "note_empty_turn i attempt = insert_server_event_once i attempt ''status'' ''turn_end'' ''empty_turn'' ''info''"

definition record_completed_side_effects :: "task_row \<Rightarrow> int \<Rightarrow> finish_report \<Rightarrow> time \<Rightarrow> db \<Rightarrow> db" where
  "record_completed_side_effects t attempt f now db =
     (let db = (if non_budget_cancel_requested (tk_id t) attempt db
                then consume_attempt_commands (tk_id t) attempt now
                       (insert_server_event_once (tk_id t) attempt ''status'' ''cancel'' ''cancel_raced_turn_end'' ''info'' now db)
                else db)
      in if fr_stop_reason f = ''end_turn'' \<and> empty_turn (tk_id t) attempt db
         then note_empty_turn (tk_id t) attempt now db else db)"

section \<open>The transitions\<close>

definition status_cast :: "string \<Rightarrow> db_error + task_status" where
  "status_cast s = (case cast_status s of None \<Rightarrow> Inl DbCast | Some st \<Rightarrow> Inr st)"

definition turn_end_status :: "db_error + task_status \<times> lane_status" where
  "turn_end_status = bindE (status_cast ''waiting_human'') (\<lambda>ts. bindE (lane_cast ''waiting_human'') (\<lambda>ls. Inr (ts, ls)))"

definition waiting_human_locked :: "task_row \<Rightarrow> int \<Rightarrow> time \<Rightarrow> db \<Rightarrow> db_error + task_row \<times> db" where
  "waiting_human_locked t attempt now db =
     bindE (transition (tk_status t) WaitingHuman) (\<lambda>_.
     bindE turn_end_status (\<lambda>(ts, ls).
     bindE (update_task (tk_id t)
       (\<lambda>r. r\<lparr>tk_status := ts, tk_finished_at := None, tk_heartbeat_at := None, tk_updated_at := now\<rparr>) db) (\<lambda>db.
     Inr (t\<lparr>tk_status := WaitingHuman\<rparr>,
          update_lane (tk_lane t) (\<lambda>_. True) (\<lambda>l. l\<lparr>ln_status := ls, ln_updated_at := now\<rparr>)
            (revoke (tk_id t) attempt ''waiting_human'' db)))))"

definition clear_rebind_prompt :: "uuid \<Rightarrow> time \<Rightarrow> db \<Rightarrow> db" where
  "clear_rebind_prompt room now db =
     db\<lparr>db_rooms := tbl_upd (\<lambda>r. rm_id r = room \<and> rm_rebind_prompt r \<noteq> None)
          (\<lambda>r. r\<lparr>rm_rebind_prompt := None, rm_updated_at := now\<rparr>) (db_rooms db)\<rparr>"

definition finish_completed ::
    "task_row \<Rightarrow> int \<Rightarrow> finish_report \<Rightarrow> time \<Rightarrow> db \<Rightarrow> db_error + task_row \<times> lane_end list \<times> db" where
  "finish_completed t attempt f now db =
     bindE (transition (tk_status t) Completed) (\<lambda>_.
     bindE (update_task (tk_id t)
       (\<lambda>r. r\<lparr>tk_status := Completed, tk_finished_at := Some now, tk_stop_reason := Some (fr_stop_reason f),
              tk_heartbeat_at := None, tk_updated_at := now\<rparr>) db) (\<lambda>db.
     bindE (mark_done \<lparr>dq_lane = tk_lane t, dq_task = tk_id t, dq_cause = TurnEnd, dq_now = now\<rparr>
             (revoke (tk_id t) attempt ''completed'' db)) (\<lambda>(res, db).
     Inr (t\<lparr>tk_status := Completed, tk_finished_at := Some now\<rparr>,
          (if mr_after_done res
           then [\<lparr>le_lane = tk_lane t, le_task = tk_id t, le_attempt = attempt, le_status = LaneDone\<rparr>] else []),
          clear_rebind_prompt (tk_room t) now db))))"

definition finish_paused_budget :: "task_row \<Rightarrow> int \<Rightarrow> time \<Rightarrow> db \<Rightarrow> db_error + db" where
  "finish_paused_budget t attempt now db =
     bindE (if tk_status t \<noteq> Paused then transition (tk_status t) Paused else Inr Paused) (\<lambda>_.
     bindE (update_task (tk_id t)
       (\<lambda>r. r\<lparr>tk_status := Paused, tk_paused_reason := Some ''budget'', tk_finished_at := None,
              tk_heartbeat_at := None, tk_updated_at := now\<rparr>) db) (\<lambda>db.
     let db = revoke (tk_id t) attempt ''paused'' db
     in Inr (if is_question t then db
             else update_lane (tk_lane t) (\<lambda>_. True) (\<lambda>l. l\<lparr>ln_status := LanePaused, ln_updated_at := now\<rparr>) db)))"

text \<open>The \<open>switch\<close> on the decided outcome, with the \<open>pending_hitl\<close> branch before it.\<close>

definition finish_switch ::
    "task_row \<Rightarrow> int \<Rightarrow> finish_report \<Rightarrow> string \<Rightarrow> time \<Rightarrow> db \<Rightarrow> db_error + task_row \<times> lane_end list \<times> db" where
  "finish_switch t attempt f decided now db =
     (if decided = ''completed'' \<and> tk_pending_hitl t then
        bindE (waiting_human_locked t attempt now db) (\<lambda>(t, db). Inr (t, [], db))
      else if decided = ''completed'' then finish_completed t attempt f now db
      else if decided = ''cancelled'' then
        bindE (cancel_locked t (fr_stop_reason f) now db) (\<lambda>(t', db). Inr (t', failed_end (tk_status t) t', db))
      else if decided = ''paused_budget'' then
        bindE (finish_paused_budget t attempt now db) (\<lambda>db. Inr (t\<lparr>tk_status := Paused\<rparr>, [], db))
      else
        bindE (requeue_locked t (case fr_failure f of None \<Rightarrow> FailOther | Some k \<Rightarrow> k) (fr_not_before f) now db)
          (\<lambda>(t', db). Inr (t', failed_end (tk_status t) t', db)))"

text \<open>Everything between the idempotency check and the transition.\<close>

definition finish_records :: "task_row \<Rightarrow> int \<Rightarrow> finish_report \<Rightarrow> time \<Rightarrow> db \<Rightarrow> db_error + string \<times> db" where
  "finish_records t attempt f now db =
     (let db = record_usage t attempt f now (record_attempt_finish t attempt f now db) in
      bindE (apply_session_ref t attempt f now db) (\<lambda>db.
      let decided = decide_finish_outcome t attempt f db;
          db = persist_decided_outcome t attempt (fr_outcome f) decided db
      in Inr (decided,
              if fr_outcome f = ''completed'' \<and> decided = ''completed''
              then record_completed_side_effects t attempt f now db else db)))"

definition finish :: "uuid \<Rightarrow> int \<Rightarrow> finish_report \<Rightarrow> db \<Rightarrow> db_error + string \<times> lane_end list \<times> db" where
  "finish i attempt f db =
     (let now = db_clock db in
      bindE (lock_task i db) (\<lambda>t.
      case finish_idempotency_check t attempt db of
        SeenStale \<Rightarrow> Inl ErrStaleAttempt
      | SeenDone final costed \<Rightarrow> Inr (final, [], db)
      | SeenNew \<Rightarrow>
          bindE (finish_records t attempt f now db) (\<lambda>(decided, db).
          bindE (finish_switch t attempt f decided now db) (\<lambda>(t', ends, db).
          Inr (status_text (tk_status t'), ends, db)))))"

end
