(* ===== verification/Task_Holds.thy ===== *)
theory Task_Holds
  imports Task_Finish "HOL-Library.Product_Lexorder"
begin

text \<open>
  The holds a person or a budget puts on tasks and lifts again: pausing a room's or a mission's
  tasks (\<open>gate.go\<close>), the budget pause of one task or lane, resuming from a human answer and the
  pending request (\<open>p3.go\<close>), and the cancels a person asks for (\<open>service.go\<close>, \<open>cancel.go\<close>), all of
  \<open>server/internal/tasks\<close>.
\<close>

section \<open>Pausing\<close>

definition pause_cast :: "string \<Rightarrow> db_error + string" where
  "pause_cast r = (if List.member pause_reasons r then Inr r else Inl DbCast)"

definition pause_locked ::
    "task_row \<Rightarrow> string \<Rightarrow> string \<Rightarrow> task_status \<Rightarrow> time \<Rightarrow> db \<Rightarrow> db_error + task_row \<times> db" where
  "pause_locked t reason detail target now db =
     bindE (transition (tk_status t) target) (\<lambda>_.
     bindE (pause_cast reason) (\<lambda>why.
     bindE (update_task (tk_id t)
       (\<lambda>r. r\<lparr>tk_status := target, tk_paused_reason := Some why,
              tk_paused_detail := (if detail = [] then None else Some detail), tk_updated_at := now\<rparr>) db) (\<lambda>db.
     let db = update_lane (tk_lane t) (\<lambda>_. True) (\<lambda>l. l\<lparr>ln_status := LanePaused, ln_updated_at := now\<rparr>) db;
         db = (case tk_runtime t of
                 None \<Rightarrow> db
               | Some rt \<Rightarrow> if cancel_requested (tk_id t) (tk_attempt t) db then db
                            else queue_command rt (cancel_command_for t reason) db)
     in Inr (t\<lparr>tk_status := target, tk_paused_reason := Some reason\<rparr>, db))))"

definition in_flight :: "task_status \<Rightarrow> bool" where
  "in_flight s \<longleftrightarrow> s = Dispatched \<or> s = Preparing \<or> s = Running"

definition by_creation :: "(task_row \<Rightarrow> bool) \<Rightarrow> db \<Rightarrow> uuid list" where
  "by_creation p db = map tk_id (sort_key tk_created_at (filter p (db_tasks db)))"

text \<open>\<open>mine\<close> selects the room's or the mission's tasks (\<open>PauseSessionTasks\<close>, \<open>PauseWorkTasks\<close>).\<close>

definition pause_tasks ::
    "(task_row \<Rightarrow> bool) \<Rightarrow> string \<Rightarrow> string \<Rightarrow> uuid list \<Rightarrow> time \<Rightarrow> db \<Rightarrow> db_error + db" where
  "pause_tasks mine reason detail locked now db =
     (let queued = by_creation (\<lambda>t. mine t \<and> tk_status t = Queued) db;
          running = by_creation (\<lambda>t. mine t \<and> in_flight (tk_status t) \<and> \<not> List.member locked (tk_id t)) db;
          plan = plan_dispatch ''paused'' reason queued (running \<noteq> [])
      in if \<not> do_turn_kill plan then Inr db
         else foldE (\<lambda>i db. bindE (lock_task i db) (\<lambda>t.
                bindE (pause_locked t reason detail
                         (case do_task_status plan of None \<Rightarrow> Paused | Some s \<Rightarrow> s) now db)
                  (\<lambda>(_, db). Inr db))) running db)"

definition pause_task_for_budget :: "uuid \<Rightarrow> string \<Rightarrow> time \<Rightarrow> db \<Rightarrow> db_error + db" where
  "pause_task_for_budget i detail now db =
     bindE (lock_task i db) (\<lambda>t.
     if terminal (tk_status t) \<or> tk_status t = Paused then Inr db
     else bindE (pause_locked t ''budget'' detail Paused now db) (\<lambda>(_, db). Inr db))"

definition pause_lane_for_budget :: "uuid \<Rightarrow> time \<Rightarrow> db \<Rightarrow> db" where
  "pause_lane_for_budget lane now =
     update_lane lane (\<lambda>l. ln_status l \<noteq> LanePaused) (\<lambda>l. l\<lparr>ln_status := LanePaused, ln_updated_at := now\<rparr>)"

definition resume_lane_for_budget :: "uuid \<Rightarrow> time \<Rightarrow> db \<Rightarrow> db" where
  "resume_lane_for_budget lane now db =
     (let st = (if list_ex (\<lambda>t. tk_lane t = lane \<and> tk_status t = Queued) (db_tasks db) then LaneQueued else LaneDone)
      in update_lane lane (\<lambda>l. ln_status l = LanePaused) (\<lambda>l. l\<lparr>ln_status := st, ln_updated_at := now\<rparr>) db)"

text \<open>\<open>ORDER BY created_at DESC, id DESC LIMIT 1\<close>.\<close>

definition lane_budget_override :: "uuid \<Rightarrow> db \<Rightarrow> rat option" where
  "lane_budget_override lane db =
     (case rev (sort_key (\<lambda>t. (tk_created_at t, tk_id t))
             (filter (\<lambda>t. tk_lane t = lane \<and> tk_budget_override t \<noteq> None) (db_tasks db))) of
        [] \<Rightarrow> None
      | t # _ \<Rightarrow> tk_budget_override t)"

section \<open>Resuming\<close>

definition requeue_parked_locked :: "task_row \<Rightarrow> cause \<Rightarrow> time \<Rightarrow> db \<Rightarrow> db_error + task_row \<times> db" where
  "requeue_parked_locked t c now db =
     bindE (transition (tk_status t) Queued) (\<lambda>_.
     let p = plan_attempt (requeue_input t c) in
     bindE (update_task (tk_id t)
       (\<lambda>r. r\<lparr>tk_status := Queued, tk_attempt := ap_attempt p, tk_pending_hitl := False, tk_paused_reason := None,
              tk_paused_detail := None, tk_failure := None, tk_not_before := None, tk_runtime := None,
              tk_heartbeat_at := None, tk_dispatched_at := None, tk_started_at := None, tk_finished_at := None,
              tk_updated_at := now\<rparr>) db) (\<lambda>db.
     Inr (t\<lparr>tk_status := Queued, tk_attempt := ap_attempt p, tk_pending_hitl := False, tk_paused_reason := None\<rparr>,
          update_lane (tk_lane t) (\<lambda>_. True)
            (\<lambda>l. l\<lparr>ln_status := LaneQueued, ln_finished_at := None, ln_updated_at := now\<rparr>) db)))"

definition resume_from_human :: "uuid \<Rightarrow> cause \<Rightarrow> db \<Rightarrow> db_error + task_row \<times> db" where
  "resume_from_human i c db =
     bindE (lock_task i db) (\<lambda>t.
     if tk_status t \<noteq> WaitingHuman \<and> tk_status t \<noteq> Paused then Inr (t, db)
     else requeue_parked_locked t c (db_clock db) db)"

definition budget_request_blocks :: "uuid \<Rightarrow> db \<Rightarrow> bool" where
  "budget_request_blocks i db =
     list_ex (\<lambda>h. hi_task h = Some i \<and> hi_purpose h = ''budget'' \<and> (hi_status h = ''open'' \<or> hi_approved h \<noteq> Some True))
       (db_hitls db)"

definition resume_tasks :: "(task_row \<Rightarrow> bool) \<Rightarrow> string \<Rightarrow> cause \<Rightarrow> time \<Rightarrow> db \<Rightarrow> db_error + uuid list \<times> db" where
  "resume_tasks mine reason c now db =
     (let ids = by_creation (\<lambda>t. mine t \<and> tk_status t = Paused \<and> (reason = [] \<or> tk_paused_reason t = Some reason)
                               \<and> \<not> budget_request_blocks (tk_id t) db) db
      in foldE (\<lambda>i (resumed, db). bindE (lock_task i db) (\<lambda>t.
           if tk_status t \<noteq> Paused then Inr (resumed, db)
           else bindE (requeue_parked_locked t c now db) (\<lambda>(_, db). Inr (resumed @ [i], db)))) ids ([], db))"

definition set_pending_hitl :: "uuid \<Rightarrow> time \<Rightarrow> db \<Rightarrow> db_error + db" where
  "set_pending_hitl i now = update_task i (\<lambda>r. r\<lparr>tk_pending_hitl := True, tk_updated_at := now\<rparr>)"

section \<open>Cancelling\<close>

definition cancellable :: "task_status \<Rightarrow> bool" where
  "cancellable s \<longleftrightarrow> s = Deferred \<or> s = Queued \<or> in_flight s"

text \<open>\<open>ORDER BY created_at DESC LIMIT 1\<close>; among equal times the last row of the table.\<close>

definition newest_task :: "uuid \<Rightarrow> db \<Rightarrow> task_row option" where
  "newest_task lane db =
     (case rev (sort_key tk_created_at (filter (\<lambda>t. tk_lane t = lane) (db_tasks db))) of
        [] \<Rightarrow> None | t # _ \<Rightarrow> Some t)"

definition cancel_lane :: "uuid \<Rightarrow> db \<Rightarrow> db_error + task_row \<times> bool \<times> db" where
  "cancel_lane lane db =
     (let now = db_clock db in
      case get_lane lane db of
        None \<Rightarrow> Inl ErrLaneNotFound
      | Some _ \<Rightarrow>
          (case newest_task lane db of
             None \<Rightarrow> Inl ErrLaneNotCancellable
           | Some cur \<Rightarrow>
               bindE (lock_task (tk_id cur) db) (\<lambda>t.
               if \<not> cancellable (tk_status t) then Inl ErrLaneNotCancellable
               else if cancel_requested (tk_id t) (tk_attempt t) db then Inr (t, False, db)
               else
                 let db = insert_server_event (tk_id t) (tk_attempt t) ''status'' ''cancel'' ''director'' ''ok'' now db
                 in (case (if in_flight (tk_status t) then tk_runtime t else None) of
                       Some rt \<Rightarrow> Inr (t, False, queue_command rt (cancel_command_for t ''director'') db)
                     | None \<Rightarrow> bindE (cancel_locked t ''director'' now db) (\<lambda>(t, db). Inr (t, True, db))))))"

definition cancel_in_room_one :: "time \<Rightarrow> uuid \<Rightarrow> db \<Rightarrow> db_error + db" where
  "cancel_in_room_one now i db =
     bindE (lock_task i db) (\<lambda>t.
     if \<not> in_flight (tk_status t) then Inr db
     else if cancel_requested (tk_id t) (tk_attempt t) db then Inr db
     else
       let db = insert_server_event (tk_id t) (tk_attempt t) ''status'' ''cancel'' ''director'' ''ok'' now db
       in (case tk_runtime t of
             None \<Rightarrow> bindE (cancel_locked t ''director'' now db) (\<lambda>(_, db). Inr db)
           | Some rt \<Rightarrow> Inr (queue_command rt (cancel_command_for t ''director'') db)))"

definition cancel_in_flight_in_room :: "uuid \<Rightarrow> time \<Rightarrow> db \<Rightarrow> db_error + db" where
  "cancel_in_flight_in_room room now db =
     foldE (cancel_in_room_one now) (by_creation (\<lambda>t. tk_room t = room \<and> in_flight (tk_status t)) db) db"

definition cancel_for_session :: "uuid \<Rightarrow> string \<Rightarrow> time \<Rightarrow> db \<Rightarrow> db_error + db" where
  "cancel_for_session i reason now db =
     bindE (lock_task i db) (\<lambda>t.
     if terminal (tk_status t) then Inr db
     else
       let db = insert_server_event (tk_id t) (tk_attempt t) ''status'' ''cancel'' reason ''ok'' now db
       in (case (if in_flight (tk_status t) then tk_runtime t else None) of
             Some rt \<Rightarrow> Inr (if cancel_requested (tk_id t) (tk_attempt t) db then db
                             else queue_command rt (cancel_command_for t reason) db)
           | None \<Rightarrow> bindE (cancel_locked t reason now db) (\<lambda>(_, db). Inr db)))"

end
