(* ===== verification/Task_Runs.thy ===== *)
theory Task_Runs
  imports Task_Holds
begin

text \<open>
  What every operation on tasks does to the rows of the table \<open>task\<close>: the abstract life of one
  attempt and of one task (\<open>life_step\<close>), the frame lemmas, the proof that each operation of
  \<open>Task_Ends\<close>, \<open>Task_Finish\<close> and \<open>Task_Holds\<close> refines that life, and the service as a whole: a
  request handler, run in a transaction, over any sequence of requests.
\<close>

section \<open>The life of a task\<close>

type_synonym life = "task_status \<times> int"

inductive life_step :: "life \<Rightarrow> life \<Rightarrow> bool" where
  Move: "can_transition s s' \<Longrightarrow> s' \<noteq> Queued \<or> s = Deferred \<Longrightarrow> life_step (s, n) (s', n)"
| Requeue: "can_transition s Queued \<Longrightarrow> life_step (s, n) (Queued, n + 1)"

inductive_simps life_step_simps: "life_step (s, n) (s', m)"

text \<open>Each step goes up in the order of attempts, and within an attempt in the order of statuses.\<close>

definition age :: "life \<Rightarrow> int \<times> task_status" where
  "age a = (snd a, fst a)"

lemma life_step_grows: "life_step a b \<Longrightarrow> age a < age b"
  by (cases rule: life_step.cases) (auto simp: age_def less_prod_def less_task_status_def dest: moves_go_up)

lemma life_grows: "life_step\<^sup>*\<^sup>* a b \<Longrightarrow> age a \<le> age b"
  by (induction rule: rtranclp_induct) (auto dest: life_step_grows)

lemma life_final: "life_step\<^sup>*\<^sup>* a b \<Longrightarrow> terminal (fst a) \<Longrightarrow> b = a"
proof (induction rule: rtranclp_induct)
  case (step b c)
  then have "b = a" by simp
  with step.hyps(2) step.prems show ?case
    by (cases a; cases c; cases "fst a") (auto simp: life_step_simps)
qed simp

definition view :: "task_row \<Rightarrow> life" where
  "view t = (tk_status t, tk_attempt t)"

definition same_task :: "task_row \<Rightarrow> task_row \<Rightarrow> bool" where
  "same_task t t' \<longleftrightarrow> tk_id t' = tk_id t \<and> tk_lane t' = tk_lane t \<and> tk_room t' = tk_room t \<and> tk_agent t' = tk_agent t
     \<and> tk_kind t' = tk_kind t \<and> tk_card t' = tk_card t \<and> tk_max_attempts t' = tk_max_attempts t \<and> tk_created_at t' = tk_created_at t"

lemma same_task_refl [simp]: "same_task t t"
  by (simp add: same_task_def)

lemma same_task_trans: "same_task t u \<Longrightarrow> same_task u v \<Longrightarrow> same_task t v"
  by (simp add: same_task_def)

section \<open>Stores that advance\<close>

definition tasks_wf :: "db \<Rightarrow> bool" where
  "tasks_wf db \<longleftrightarrow> distinct (map tk_id (db_tasks db))
     \<and> (\<forall>t \<in> set (db_tasks db). task_check t \<and> tk_id t < db_next db)"

definition lives_on :: "db \<Rightarrow> db \<Rightarrow> bool" where
  "lives_on db db' \<longleftrightarrow> (\<forall>i t. get_task i db = Some t \<longrightarrow>
     (\<exists>t'. get_task i db' = Some t' \<and> life_step\<^sup>*\<^sup>* (view t) (view t') \<and> same_task t t'))"

definition advances :: "db \<Rightarrow> db \<Rightarrow> bool" where
  "advances db db' \<longleftrightarrow> (tasks_wf db \<longrightarrow> tasks_wf db' \<and> lives_on db db')"

lemma lives_on_refl [simp]: "lives_on db db"
  by (auto simp: lives_on_def)

lemma lives_on_trans: "lives_on a b \<Longrightarrow> lives_on b c \<Longrightarrow> lives_on a c"
  unfolding lives_on_def by (meson rtranclp_trans same_task_trans)

lemma advances_refl [simp]: "advances db db"
  by (simp add: advances_def)

lemma advances_trans [trans]: "advances a b \<Longrightarrow> advances b c \<Longrightarrow> advances a c"
  unfolding advances_def by (meson lives_on_trans)

lemma advances_frame:
  assumes "db_tasks db' = db_tasks db" and "db_next db \<le> db_next db'"
  shows "advances db db'"
  using assms by (force simp: advances_def tasks_wf_def lives_on_def get_task_def)

lemma advances_foldE:
  assumes "foldE f xs s = Inr s'" and "\<And>x s s'. f x s = Inr s' \<Longrightarrow> advances (g s) (g s')"
  shows "advances (g s) (g s')"
  using assms(1)
proof (induction xs arbitrary: s)
  case (Cons x xs)
  then obtain s1 where "f x s = Inr s1" "foldE f xs s1 = Inr s'" by auto
  with Cons.IH assms(2) show ?case by (meson advances_trans)
qed simp

definition in_sync :: "task_row \<Rightarrow> db \<Rightarrow> bool" where
  "in_sync t db \<longleftrightarrow> (\<exists>r. get_task (tk_id t) db = Some r \<and> view r = view t)"

lemma in_sync_frame: "db_tasks db' = db_tasks db \<Longrightarrow> in_sync t db' = in_sync t db"
  by (simp add: in_sync_def get_task_def)

lemma get_task_id: "get_task i db = Some t \<Longrightarrow> tk_id t = i"
  unfolding get_task_def by (rule tbl_get_Some_key)

lemma lock_task_Inr: "lock_task i db = Inr t \<longleftrightarrow> get_task i db = Some t"
  by (simp add: lock_task_def split: option.split)

lemma lock_task_sync: "lock_task i db = Inr t \<Longrightarrow> in_sync t db \<and> tk_id t = i"
  by (auto simp: lock_task_Inr in_sync_def dest: get_task_id)

text \<open>The one lemma every write of a task row goes through.\<close>

lemma update_task_Inr:
  assumes "update_task i f db = Inr db'" and "\<And>t. tk_id (f t) = tk_id t"
  shows "db' = db\<lparr>db_tasks := tbl_modify tk_id i f (db_tasks db)\<rparr>"
    and "get_task i db = Some t \<Longrightarrow> task_check (f t)"
    and "get_task j db' = (if j = i then map_option f (get_task j db) else get_task j db)"
proof -
  show db': "db' = db\<lparr>db_tasks := tbl_modify tk_id i f (db_tasks db)\<rparr>"
  proof (cases "get_task i db")
    case None
    then have "\<forall>r \<in> set (db_tasks db). tk_id r \<noteq> i" by (simp add: get_task_def tbl_get_None_iff)
    then have "tbl_modify tk_id i f (db_tasks db) = db_tasks db"
      by (simp add: tbl_modify_def tbl_upd_def map_idI)
    with None assms show ?thesis by (simp add: update_task_def)
  qed (use assms in \<open>auto simp: update_task_def split: if_splits\<close>)
  show "get_task j db' = (if j = i then map_option f (get_task j db) else get_task j db)"
    using assms(2) by (simp add: db' get_task_def tbl_get_modify)
  show "get_task i db = Some t \<Longrightarrow> task_check (f t)"
    using assms by (auto simp: update_task_def split: if_splits)
qed

lemma get_task_in: "tasks_wf db \<Longrightarrow> t \<in> set (db_tasks db) \<Longrightarrow> get_task (tk_id t) db = Some t"
proof -
  assume "tasks_wf db" "t \<in> set (db_tasks db)"
  moreover have "distinct (map tk_id ts) \<Longrightarrow> t \<in> set ts \<Longrightarrow> tbl_get tk_id ts (tk_id t) = Some t" for ts
    by (induction ts) (auto simp: image_iff)
  ultimately show ?thesis by (simp add: tasks_wf_def get_task_def)
qed

lemma update_task_advances:
  assumes "update_task i f db = Inr db'" and "\<And>t. tk_id (f t) = tk_id t"
    and "\<And>t. get_task i db = Some t \<Longrightarrow> life_step\<^sup>*\<^sup>* (view t) (view (f t)) \<and> same_task t (f t)"
  shows "advances db db'"
  unfolding advances_def
proof (intro impI conjI)
  assume wf: "tasks_wf db"
  note u = update_task_Inr [OF assms(1,2)]
  show "lives_on db db'"
    using assms(3) u(3) by (auto simp: lives_on_def)
  have "task_check (f t)" if "t \<in> set (db_tasks db)" "tk_id t = i" for t
    using u(2) get_task_in [OF wf that(1)] that(2) by simp
  with wf show "tasks_wf db'"
    by (auto simp: u(1) tasks_wf_def map_modify_same set_tbl_modify assms(2))
qed

lemma life_to: "can_transition s s' \<Longrightarrow> s' \<noteq> Queued \<Longrightarrow> life_step\<^sup>*\<^sup>* (s, n) (s', n)"
  by (rule r_into_rtranclp) (simp add: life_step.Move)

lemma life_requeue: "can_transition s Queued \<Longrightarrow> life_step\<^sup>*\<^sup>* (s, n) (Queued, n + 1)"
  by (rule r_into_rtranclp) (rule life_step.Requeue)

text \<open>A write under the task's lock: the status in memory is the row's.\<close>

lemma sync_update_advances:
  assumes "update_task (tk_id t) f db = Inr db'" and "in_sync t db" and "\<And>r. tk_id (f r) = tk_id r"
    and "\<And>r. view r = view t \<Longrightarrow> life_step\<^sup>*\<^sup>* (view r) (view (f r))" and "\<And>r. same_task r (f r)"
  shows "advances db db'"
  by (rule update_task_advances [OF assms(1,3)]) (use assms(2,4,5) in \<open>auto simp: in_sync_def\<close>)

lemma sync_update_sync:
  assumes "update_task (tk_id t) f db = Inr db'" and "in_sync t db" and "\<And>r. tk_id (f r) = tk_id r"
    and "tk_id t' = tk_id t" and "\<And>r. view r = view t \<Longrightarrow> view (f r) = view t'"
  shows "in_sync t' db'"
  using assms(2,4,5) update_task_Inr(3) [OF assms(1,3)] by (auto simp: in_sync_def)

lemma transition_Inr: "transition a b = Inr s \<longleftrightarrow> can_transition a b \<and> s = b"
  by (auto simp: transition_def)

section \<open>What leaves the task rows alone\<close>

lemma tasks_revoke [keeps, simp]: "db_tasks (revoke i n why db) = db_tasks db"
  by (simp add: revoke_def queue_command_def Let_def split: option.split)

lemma tasks_frames [keeps, simp]:
  "db_tasks (queue_command rt c db) = db_tasks db"
  "db_tasks (upsert_attempt a merge db) = db_tasks db"
  "db_tasks (insert_server_event i n cls v obj out now db) = db_tasks db"
  "db_tasks (insert_server_event_once i n cls v obj out now db) = db_tasks db"
  "db_tasks (update_commands p g db) = db_tasks db"
  "db_tasks (cancel_lane_cards lane now db) = db_tasks db"
  "db_tasks (note_no_fallback t now db) = db_tasks db"
  "db_tasks (set_offline q now db) = db_tasks db"
  "db_tasks (clear_rebind_prompt room now db) = db_tasks db"
  "db_tasks (record_attempt_finish t n f now db) = db_tasks db"
  "db_tasks (record_usage t n f now db) = db_tasks db"
  "db_tasks (persist_decided_outcome t n rep dec db) = db_tasks db"
  "db_tasks (record_completed_side_effects t n f now db) = db_tasks db"
  by (simp_all add: queue_command_def upsert_attempt_def insert_server_event_def insert_server_event_once_def
      update_commands_def cancel_lane_cards_def cancel_cards_where_def note_no_fallback_def set_offline_def
      clear_rebind_prompt_def record_attempt_finish_def record_usage_def persist_decided_outcome_def
      record_completed_side_effects_def consume_attempt_commands_def note_empty_turn_def Let_def)

lemma next_frames [keeps, simp]:
  "m \<le> db_next db \<Longrightarrow> m \<le> db_next (queue_command rt cmd db)"
  "m \<le> db_next db \<Longrightarrow> m \<le> db_next (revoke i n why db)"
  "db_next (upsert_attempt a merge db) = db_next db"
  "db_next (insert_server_event i n cls v obj out now db) = db_next db"
  "db_next (insert_server_event_once i n cls v obj out now db) = db_next db"
  "db_next (update_commands p g db) = db_next db"
  "db_next (update_lane j r h db) = db_next db"
  "db_next (update_card k u db) = db_next db"
  "db_next (cancel_lane_cards lane now db) = db_next db"
  "db_next (note_no_fallback t now db) = db_next db"
  "db_next (set_offline q now db) = db_next db"
  "db_next (clear_rebind_prompt room now db) = db_next db"
  "db_next (record_attempt_finish t n f now db) = db_next db"
  "db_next (record_usage t n f now db) = db_next db"
  "db_next (persist_decided_outcome t n rep dec db) = db_next db"
  "db_next (record_completed_side_effects t n f now db) = db_next db"
  by (simp_all add: queue_command_def revoke_def upsert_attempt_def insert_server_event_def insert_server_event_once_def
      update_commands_def cancel_lane_cards_def cancel_cards_where_def note_no_fallback_def set_offline_def update_card_def
      clear_rebind_prompt_def record_attempt_finish_def record_usage_def persist_decided_outcome_def update_lane_def
      record_completed_side_effects_def consume_attempt_commands_def note_empty_turn_def Let_def split: option.split)

lemma end_question_frame:
  assumes "end_question i lane now db = Inr (st, db')"
  shows "db_tasks db' = db_tasks db \<and> db_next db' = db_next db"
  using assms by (auto simp: end_question_def split: option.splits prod.splits bool.splits)

lemma apply_session_ref_frame:
  assumes "apply_session_ref t n f now db = Inr db'"
  shows "db_tasks db' = db_tasks db \<and> db_next db' = db_next db"
  using assms by (auto simp: apply_session_ref_def Let_def split: sum.splits option.splits)

lemma record_failed_attempt_frame:
  assumes "record_failed_attempt t why now db = Inr db'"
  shows "db_tasks db' = db_tasks db \<and> db_next db' = db_next db"
  using assms by (auto simp: record_failed_attempt_def)

lemma fail_lane_frame:
  assumes "fail_lane t now db = Inr db'"
  shows "db_tasks db' = db_tasks db \<and> db_next db' = db_next db"
  using assms by (auto simp: fail_lane_def split: if_splits dest: end_question_frame)

lemma issue_frame:
  assumes "issue hash tok sc db = Inr db'"
  shows "db_tasks db' = db_tasks db \<and> db_next db' = db_next db"
  using assms by (auto simp: issue_def Let_def split: if_splits)

lemma store_result_next [keeps, simp]: "m \<le> db_next db \<Longrightarrow> m \<le> db_next (store_result c res a now db)"
  by (simp add: store_result_def result_bubble_def update_message_def insert_message_def)

section \<open>Ends of an attempt\<close>

text \<open>
  \<open>runs_to t db t' db'\<close>: the operation ran on the locked row \<open>t\<close>, the store advanced, the row in
  memory is again the stored one, and no other task's row was touched.
\<close>

definition others_same :: "uuid \<Rightarrow> db \<Rightarrow> db \<Rightarrow> bool" where
  "others_same i db db' \<longleftrightarrow> (\<forall>j. j \<noteq> i \<longrightarrow> get_task j db' = get_task j db)"

definition runs_to :: "task_row \<Rightarrow> db \<Rightarrow> task_row \<Rightarrow> db \<Rightarrow> bool" where
  "runs_to t db t' db' \<longleftrightarrow> advances db db' \<and> in_sync t' db' \<and> tk_id t' = tk_id t \<and> others_same (tk_id t) db db'"

lemma get_task_frame: "db_tasks db' = db_tasks db \<Longrightarrow> get_task j db' = get_task j db"
  by (simp add: get_task_def)

lemma runs_to_same: "in_sync t db \<Longrightarrow> runs_to t db t db"
  by (simp add: runs_to_def others_same_def)

lemma runs_to_pre:
  assumes "runs_to t db1 t' db'" and "db_tasks db1 = db_tasks db" and "db_next db \<le> db_next db1"
  shows "runs_to t db t' db'"
proof -
  have "advances db db1" using assms(2,3) by (rule advances_frame)
  with assms(1) show ?thesis
    by (auto simp: runs_to_def others_same_def get_task_frame [OF assms(2)] intro: advances_trans)
qed

lemma runs_to_post:
  assumes "runs_to t db t' db1" and "db_tasks db' = db_tasks db1" and "db_next db1 \<le> db_next db'"
  shows "runs_to t db t' db'"
proof -
  have "advances db1 db'" using assms(2,3) by (rule advances_frame)
  with assms(1) show ?thesis
    by (auto simp: runs_to_def others_same_def get_task_frame [OF assms(2)] in_sync_frame [OF assms(2)] intro: advances_trans)
qed

lemma runs_to_update:
  assumes "update_task (tk_id t) f db = Inr db1" and "in_sync t db" and "\<And>r. tk_id (f r) = tk_id r"
    and "\<And>r. view r = view t \<Longrightarrow> life_step\<^sup>*\<^sup>* (view t) (view (f r)) \<and> view (f r) = view t'"
    and "\<And>r. same_task r (f r)" and "tk_id t' = tk_id t"
    and "db_tasks db' = db_tasks db1" and "db_next db1 \<le> db_next db'"
  shows "runs_to t db t' db'"
proof (rule runs_to_post [OF _ assms(7,8)])
  have "others_same (tk_id t) db db1"
    using update_task_Inr(3) [OF assms(1,3)] by (simp add: others_same_def)
  then show "runs_to t db t' db1"
    unfolding runs_to_def using assms(2-6) sync_update_advances [OF assms(1)] sync_update_sync [OF assms(1)]
    by (metis)
qed

lemma cancel_locked_runs:
  assumes "cancel_locked t stop now db = Inr (t', db')" and "in_sync t db"
  shows "runs_to t db t' db'" and "tk_status t' = Cancelled" and "tk_attempt t' = tk_attempt t"
proof -
  let ?stop = "if stop = [] then None else Some stop"
  let ?f = "\<lambda>r. r\<lparr>tk_status := Cancelled, tk_failure := Some FailCancelled, tk_paused_reason := None,
               tk_paused_detail := None, tk_finished_at := Some now, tk_stop_reason := ?stop,
               tk_heartbeat_at := None, tk_updated_at := now\<rparr>"
  from assms(1) obtain db1 where can: "can_transition (tk_status t) Cancelled"
    and up: "update_task (tk_id t) ?f db = Inr db1"
    and fr: "db_tasks db' = db_tasks db1" "db_next db1 \<le> db_next db'"
    and t': "t' = t\<lparr>tk_status := Cancelled, tk_failure := Some FailCancelled, tk_finished_at := Some now,
              tk_stop_reason := ?stop, tk_paused_reason := None\<rparr>"
    by (auto simp: cancel_locked_def Let_def transition_Inr plan_cancel_result_def lane_cast_def
        split: if_splits option.splits dest!: end_question_frame)
  show "runs_to t db t' db'"
    by (rule runs_to_update [OF up assms(2) _ _ _ _ fr])
      (use can in \<open>auto simp: t' view_def same_task_def intro: life_to\<close>)
  show "tk_status t' = Cancelled" "tk_attempt t' = tk_attempt t"
    by (simp_all add: t')
qed

lemma runs_to_trans: "runs_to t db t1 db1 \<Longrightarrow> runs_to t1 db1 t' db' \<Longrightarrow> runs_to t db t' db'"
  unfolding runs_to_def others_same_def by (auto intro: advances_trans)

lemma runs_to_sync: "runs_to t db t' db' \<Longrightarrow> in_sync t' db'"
  by (simp add: runs_to_def)

lemma write_failed_runs:
  assumes "write_failed t why now db = Inr (t', db')" and "in_sync t db"
  shows "runs_to t db t' db' \<and> tk_status t' = Failed \<and> tk_attempt t' = tk_attempt t"
proof -
  let ?f = "\<lambda>k r. r\<lparr>tk_status := Failed, tk_failure := Some k, tk_finished_at := Some now,
              tk_heartbeat_at := None, tk_updated_at := now\<rparr>"
  from assms(1) obtain k db1 where can: "can_transition (tk_status t) Failed"
    and up: "update_task (tk_id t) (?f k) db = Inr db1"
    and fr: "db_tasks db' = db_tasks db1" "db_next db1 \<le> db_next db'"
    and t': "t' = t\<lparr>tk_status := Failed, tk_failure := Some why, tk_finished_at := Some now\<rparr>"
    by (auto simp: write_failed_def transition_Inr dest!: fail_lane_frame)
  have "runs_to t db t' db'"
    by (rule runs_to_update [OF up assms(2) _ _ _ _ fr])
      (use can in \<open>auto simp: t' view_def same_task_def intro: life_to\<close>)
  then show ?thesis by (simp add: t')
qed

lemma fail_locked_runs:
  assumes "fail_locked t why now db = Inr (t', db')" and "in_sync t db"
  shows "runs_to t db t' db' \<and> tk_attempt t' = tk_attempt t
       \<and> (tk_status t' = Failed \<or> tk_status t' = Cancelled \<or> terminal (tk_status t) \<and> t' = t)"
proof -
  consider "terminal (tk_status t)" "t' = t" "db' = db"
    | "\<not> terminal (tk_status t)" "cancel_locked t (fk_text why) now db = Inr (t', db')"
    | db1 where "\<not> terminal (tk_status t)"
        "record_failed_attempt t why now (revoke (tk_id t) (tk_attempt t) (fk_text why) db) = Inr db1"
        "write_failed t why now db1 = Inr (t', db')"
    using assms(1) by (auto simp: fail_locked_def split: if_splits)
  then show ?thesis
  proof cases
    case 1
    with assms(2) show ?thesis by (simp add: runs_to_same)
  next
    case 2
    with cancel_locked_runs [OF 2(2) assms(2)] show ?thesis by simp
  next
    case 3
    then have fr: "db_tasks db1 = db_tasks db" "db_next db \<le> db_next db1"
      by (auto dest!: record_failed_attempt_frame)
    from assms(2) have "in_sync t db1" using in_sync_frame [OF fr(1)] by simp
    with write_failed_runs [OF 3(3)] runs_to_pre [OF _ fr] show ?thesis by blast
  qed
qed

lemma switch_profile_runs:
  assumes "switch_profile t d now db = Inr (t', db')" and "in_sync t db"
  shows "runs_to t db t' db' \<and> view t' = view t"
proof -
  let ?f = "\<lambda>r. r\<lparr>tk_profile := fd_profile d, tk_updated_at := now\<rparr>"
  obtain db1 where up: "update_task (tk_id t) ?f db = Inr db1"
    using assms(1) by (auto simp: switch_profile_def)
  then have fr: "db_tasks db' = db_tasks db1" "db_next db1 \<le> db_next db'" and t': "t' = t\<lparr>tk_profile := fd_profile d\<rparr>"
    using assms(1) by (auto simp: switch_profile_def Let_def)
  have "runs_to t db t' db'"
    by (rule runs_to_update [OF up assms(2) _ _ _ _ fr]) (auto simp: t' view_def same_task_def)
  then show ?thesis by (simp add: t' view_def)
qed

lemma apply_profile_fallback_runs:
  assumes "apply_profile_fallback t why now db = Inr (d, t', db')" and "in_sync t db"
  shows "runs_to t db t' db' \<and> view t' = view t"
  using assms
  by (auto simp: apply_profile_fallback_def Let_def runs_to_same split: option.splits if_splits
      dest!: switch_profile_runs)

lemma queue_again_runs:
  assumes "queue_again t nb now db = Inr (t', db')" and "in_sync t db" and "can_transition (tk_status t) Queued"
  shows "runs_to t db t' db' \<and> tk_status t' = Queued \<and> tk_attempt t' = tk_attempt t + 1"
proof -
  let ?f = "\<lambda>r. r\<lparr>tk_status := Queued, tk_attempt := tk_attempt r + 1, tk_failure := None, tk_not_before := nb,
              tk_profile := tk_profile t, tk_runtime := None, tk_heartbeat_at := None, tk_dispatched_at := None,
              tk_started_at := None, tk_updated_at := now\<rparr>"
  obtain db1 where up: "update_task (tk_id t) ?f db = Inr db1"
    using assms(1) by (auto simp: queue_again_def)
  then have fr: "db_tasks db' = db_tasks db1" "db_next db1 \<le> db_next db'"
    and t': "t' = t\<lparr>tk_status := Queued, tk_attempt := tk_attempt t + 1, tk_failure := None, tk_not_before := nb,
               tk_runtime := None\<rparr>"
    using assms(1) by (auto simp: queue_again_def)
  have "runs_to t db t' db'"
    by (rule runs_to_update [OF up assms(2) _ _ _ _ fr])
      (use assms(3) in \<open>auto simp: t' view_def same_task_def intro: life_requeue\<close>)
  then show ?thesis by (simp add: t')
qed

lemma write_requeued_runs:
  assumes "write_requeued t why nb now db = Inr (t', db')" and "in_sync t db"
  shows "runs_to t db t' db' \<and> tk_status t' = Queued \<and> tk_attempt t' = tk_attempt t + 1"
proof -
  from assms(1) obtain d t1 db1 where can: "can_transition (tk_status t) Queued"
    and fb: "apply_profile_fallback t why now db = Inr (d, t1, db1)"
    and again: "queue_again t1 nb now (if fd_notify_director d then note_no_fallback t1 now db1 else db1) = Inr (t', db')"
    by (auto simp: write_requeued_def transition_Inr)
  let ?db1 = "if fd_notify_director d then note_no_fallback t1 now db1 else db1"
  have same: "db_tasks ?db1 = db_tasks db1" "db_next db1 \<le> db_next ?db1" by simp_all
  have r1: "runs_to t db t1 ?db1" and v: "tk_status t1 = tk_status t" "tk_attempt t1 = tk_attempt t"
    using apply_profile_fallback_runs [OF fb assms(2)] same by (auto simp: view_def intro: runs_to_post)
  have "runs_to t1 ?db1 t' db' \<and> tk_status t' = Queued \<and> tk_attempt t' = tk_attempt t1 + 1"
    using queue_again_runs [OF again runs_to_sync [OF r1]] can v by simp
  with r1 v show ?thesis by (auto intro: runs_to_trans)
qed

lemma requeue_locked_cases:
  assumes "requeue_locked t why nb now db = Inr (t', db')"
  obtains (done_already) "terminal (tk_status t)" "t' = t" "db' = db"
    | (absorbed) "\<not> terminal (tk_status t)" "cancel_requested (tk_id t) (tk_attempt t) db"
        "cancel_locked t (fk_text why) now db = Inr (t', db')"
    | (again) db1 where "\<not> terminal (tk_status t)" "\<not> cancel_requested (tk_id t) (tk_attempt t) db"
        "record_failed_attempt t why now (revoke (tk_id t) (tk_attempt t) ''requeue'' db) = Inr db1"
        "ap_task_status (plan_attempt (requeue_input t (cause_of_failure why))) = Queued"
        "write_requeued t why nb now db1 = Inr (t', db')"
    | (given_up) db1 where "\<not> terminal (tk_status t)" "\<not> cancel_requested (tk_id t) (tk_attempt t) db"
        "record_failed_attempt t why now (revoke (tk_id t) (tk_attempt t) ''requeue'' db) = Inr db1"
        "ap_task_status (plan_attempt (requeue_input t (cause_of_failure why))) \<noteq> Queued"
        "write_failed t why now db1 = Inr (t', db')"
  using assms by (auto simp: requeue_locked_def Let_def split: if_splits)

lemma requeue_locked_runs:
  assumes "requeue_locked t why nb now db = Inr (t', db')" and "in_sync t db"
  shows "runs_to t db t' db'
       \<and> (terminal (tk_status t) \<and> t' = t \<or> tk_status t' \<in> {Queued, Failed, Cancelled})
       \<and> tk_attempt t' = tk_attempt t + (if tk_status t' = Queued \<and> \<not> terminal (tk_status t) then 1 else 0)"
  using assms(1)
proof (cases rule: requeue_locked_cases)
  case done_already
  with assms(2) show ?thesis by (simp add: runs_to_same)
next
  case absorbed
  with cancel_locked_runs [OF absorbed(3) assms(2)] show ?thesis by simp
next
  case (again db1)
  then have fr: "db_tasks db1 = db_tasks db" "db_next db \<le> db_next db1"
    by (auto dest!: record_failed_attempt_frame)
  from assms(2) have "in_sync t db1" using in_sync_frame [OF fr(1)] by simp
  with write_requeued_runs [OF again(5)] runs_to_pre [OF _ fr] again(1) show ?thesis by simp
next
  case (given_up db1)
  then have fr: "db_tasks db1 = db_tasks db" "db_next db \<le> db_next db1"
    by (auto dest!: record_failed_attempt_frame)
  from assms(2) have "in_sync t db1" using in_sync_frame [OF fr(1)] by simp
  with write_failed_runs [OF given_up(5)] runs_to_pre [OF _ fr] show ?thesis by simp
qed

lemma requeue_advances: "requeue i why nb now db = Inr (ends, db') \<Longrightarrow> advances db db'"
  by (auto simp: requeue_def runs_to_def dest!: requeue_locked_runs lock_task_sync)

lemma apply_sweep_runs:
  assumes "apply_sweep t idle now db = Inr (t', db')" and "in_sync t db"
  shows "runs_to t db t' db'"
  using assms fail_locked_runs [of t _ now db t' db'] requeue_locked_runs [of t _ None now db t' db']
  by (auto simp: apply_sweep_def runs_to_same split: option.splits if_splits)

lemma sweep_one_advances:
  assumes "sweep_one mark now i (ends, db) = Inr (ends', db')"
  shows "advances db db'"
proof -
  from assms obtain t t' db1 where t: "lock_task i db = Inr t" and sw: "apply_sweep t (idle_since t now) now db = Inr (t', db1)"
    and fr: "db_tasks db' = db_tasks db1" "db_next db1 \<le> db_next db'"
    by (auto simp: sweep_one_def Let_def split: option.splits if_splits)
  have "runs_to t db t' db'"
    using apply_sweep_runs [OF sw] lock_task_sync [OF t] fr by (auto intro: runs_to_post)
  then show ?thesis by (simp add: runs_to_def)
qed

text \<open>A statement on many rows at once.\<close>

lemma update_rows_advances:
  assumes "db_tasks db' = tbl_upd p f (db_tasks db)" and "db_next db' = db_next db"
    and "\<And>t. tk_id (f t) = tk_id t"
    and "\<And>t. p t \<Longrightarrow> life_step\<^sup>*\<^sup>* (view t) (view (f t)) \<and> same_task t (f t)"
    and "\<And>t. p t \<Longrightarrow> task_check t \<Longrightarrow> task_check (f t)"
  shows "advances db db'"
  unfolding advances_def
proof (intro impI conjI)
  assume wf: "tasks_wf db"
  have "get_task i db' = map_option (\<lambda>r. if p r then f r else r) (get_task i db)" for i
    using tbl_get_upd [of tk_id f p "db_tasks db" i] assms(1,3) by (simp add: get_task_def)
  with assms(4) show "lives_on db db'"
    by (auto simp: lives_on_def)
  have "map tk_id (tbl_upd p f ts) = map tk_id ts" for ts
    using assms(3) by (auto simp: tbl_upd_def)
  moreover have "task_check r \<and> tk_id r < db_next db'" if "r \<in> set (tbl_upd p f (db_tasks db))" for r
    using that wf assms(2,3,5) by (auto simp: tbl_upd_def tasks_wf_def split: if_splits)
  ultimately show "tasks_wf db'" using wf by (simp add: tasks_wf_def assms(1))
qed

lemma promote_deferred_advances: "advances db (promote_deferred now db)"
  by (rule update_rows_advances [where p = "\<lambda>t. tk_status t = Deferred \<and> (case tk_not_before t of None \<Rightarrow> False | Some v \<Rightarrow> v \<le> now)"
        and f = "\<lambda>t. t\<lparr>tk_status := Queued, tk_not_before := None, tk_updated_at := now\<rparr>"])
    (auto simp: promote_deferred_def view_def same_task_def task_check_def
       intro!: r_into_rtranclp life_step.Move)

lemma heartbeat_advances:
  assumes "heartbeat i n now db = Inr db'"
  shows "advances db db'"
proof -
  let ?p = "\<lambda>t. tk_id t = i \<and> tk_attempt t = n \<and> (tk_status t = Preparing \<or> tk_status t = Running)"
  let ?f = "\<lambda>t :: task_row. t\<lparr>tk_heartbeat_at := Some now\<rparr>"
  from assms have "db' = db\<lparr>db_tasks := tbl_upd ?p ?f (db_tasks db)\<rparr>"
    by (simp add: heartbeat_def Let_def split: if_splits)
  then show ?thesis
    by (intro update_rows_advances [where p = ?p and f = ?f]) (simp_all add: view_def same_task_def task_check_def)
qed

lemma expire_stale_advances:
  assumes "expire_stale locked now db = Inr (ends, db')"
  shows "advances db db'"
proof -
  from assms obtain e1 db1 e2 db2
    where f1: "foldE (sweep_one False now) (stuck_ids locked now db) ([], db) = Inr (e1, db1)"
      and f2: "foldE (sweep_one True now) (silent_ids locked now db1) (e1, db1) = Inr (e2, db2)"
      and db': "db' = set_offline rn_online now (promote_deferred now db2)"
    by (auto simp: expire_stale_def)
  have step: "advances (snd s) (snd s')" if "sweep_one m now x s = Inr s'" for m x s s'
    using that sweep_one_advances by (cases s; cases s') auto
  have "advances db db1"
    using advances_foldE [where g = snd, OF f1 step] by simp
  moreover have "advances db1 db2"
    using advances_foldE [where g = snd, OF f2 step] by simp
  moreover have "advances (promote_deferred now db2) db'"
    by (rule advances_frame) (simp_all add: db')
  ultimately show ?thesis using promote_deferred_advances by (meson advances_trans)
qed

lemma mark_dispatched_runs:
  assumes "mark_dispatched hash tok t rt now db = Inr (t', db')" and "in_sync t db"
  shows "runs_to t db t' db' \<and> tk_status t' = Dispatched \<and> tk_attempt t' = tk_attempt t"
proof -
  let ?f = "\<lambda>r. r\<lparr>tk_status := Dispatched, tk_runtime := Some rt, tk_dispatched_at := Some now,
              tk_heartbeat_at := None, tk_queued_reason := None, tk_updated_at := now\<rparr>"
  obtain db1 where can: "can_transition (tk_status t) Dispatched" and up: "update_task (tk_id t) ?f db = Inr db1"
    using assms(1) by (auto simp: mark_dispatched_def transition_Inr)
  then have fr: "db_tasks db' = db_tasks db1 \<and> db_next db1 \<le> db_next db'"
    and t': "t' = t\<lparr>tk_status := Dispatched, tk_runtime := Some rt, tk_dispatched_at := Some now\<rparr>"
    using assms(1) by (auto simp: mark_dispatched_def transition_Inr Let_def split: if_splits dest!: issue_frame)
  have "runs_to t db t' db'"
    by (rule runs_to_update [OF up assms(2) _ _ _ _ conjunct1 [OF fr] conjunct2 [OF fr]])
      (use can in \<open>auto simp: t' view_def same_task_def intro: life_to\<close>)
  then show ?thesis by (simp add: t')
qed

lemma phase_report_advances:
  assumes "phase_report i n phase db = Inr db'"
  shows "advances db db'"
proof (cases "db' = db")
  case False
  let ?f = "\<lambda>to s r. r\<lparr>tk_status := to, tk_heartbeat_at := Some (db_clock db), tk_started_at := s, tk_updated_at := db_clock db\<rparr>"
  from assms False obtain t to s db1 where t: "lock_task i db = Inr t" and ph: "phase_status phase = Inr to"
    and can: "can_transition (tk_status t) to" and up: "update_task (tk_id t) (?f to s) db = Inr db1"
    and fr: "db_tasks db' = db_tasks db1 \<and> db_next db1 \<le> db_next db'"
    by (auto simp: phase_report_def Let_def transition_Inr split: if_splits)
  have to: "to \<noteq> Queued" using ph by (auto simp: phase_status_def split: if_splits)
  have "runs_to t db (t\<lparr>tk_status := to\<rparr>) db'"
    by (rule runs_to_update [OF up _ _ _ _ _ conjunct1 [OF fr] conjunct2 [OF fr]])
      (use can to lock_task_sync [OF t] in \<open>auto simp: view_def same_task_def intro: life_to\<close>)
  then show ?thesis by (simp add: runs_to_def)
qed simp

section \<open>The end of a lane\<close>

lemma append_task_advances:
  assumes "db_tasks db' = db_tasks db @ [t]" and "task_check t" and "db_next db \<le> tk_id t" and "tk_id t < db_next db'"
  shows "advances db db'"
  unfolding advances_def
proof (intro impI conjI)
  assume wf: "tasks_wf db"
  have "get_task i db' = Some r" if "get_task i db = Some r" for i r
    using that by (simp add: get_task_def assms(1) tbl_get_append)
  then show "lives_on db db'" by (auto simp: lives_on_def)
  from wf assms show "tasks_wf db'" by (force simp: tasks_wf_def)
qed

text \<open>Rows are added, none is touched.\<close>

definition adds_only :: "db \<Rightarrow> db \<Rightarrow> bool" where
  "adds_only db db' \<longleftrightarrow> (\<forall>j u. get_task j db = Some u \<longrightarrow> get_task j db' = Some u)"

lemma adds_only_frame: "db_tasks db' = db_tasks db \<Longrightarrow> adds_only db db'"
  by (simp add: adds_only_def get_task_def)

lemma adds_only_append: "db_tasks db' = db_tasks db @ ts \<Longrightarrow> adds_only db db'"
  by (simp add: adds_only_def get_task_def tbl_get_append)

lemma adds_only_trans: "adds_only a b \<Longrightarrow> adds_only b c \<Longrightarrow> adds_only a c"
  by (simp add: adds_only_def)

lemma queue_follow_up_adds:
  assumes "queue_follow_up ended c now db = Inr (i, db')"
  shows "adds_only db db'"
  by (rule queue_follow_up_Inr [OF assms]) (rule adds_only_append)

lemma adds_only_update_lane [simp]: "adds_only db (update_lane j p f db') = adds_only db db'"
  by (simp add: adds_only_def)

lemma queue_follow_up_advances:
  assumes "queue_follow_up ended c now db = Inr (i, db')"
  shows "advances db db'"
proof -
  obtain t msg where "db_tasks db' = db_tasks db @ [follow_up_task i msg (cd_id c) now t]"
    using assms by (rule queue_follow_up_Inr)
  moreover have "i = db_next db + 1 \<and> db_next db' = i + 1"
    using assms by (auto simp: queue_follow_up_def Let_def insert_message_def insert_task_def update_card_def
        split: if_splits option.splits)
  ultimately show ?thesis
    by (intro append_task_advances [where t = "follow_up_task i msg (cd_id c) now t"]) simp_all
qed

lemma advances_update_lane [simp]: "advances db (update_lane j p f db') = advances db db'"
  by (simp add: advances_def lives_on_def tasks_wf_def)

lemma card_gate_advances:
  "card_gate req prev c db = Pass g db' \<or> card_gate req prev c db = Halt r db' \<Longrightarrow> advances db db'"
  by (auto simp: card_gate_def intro: advances_frame split: if_splits sum.splits
      dest!: queue_follow_up_advances elim: advances_trans)

lemma gate_check_advances:
  "gate_check req prev db = Pass g db' \<or> gate_check req prev db = Halt r db' \<Longrightarrow> advances db db'"
  by (auto simp: gate_check_def intro: advances_frame card_gate_advances split: if_splits sum.splits option.splits
      dest!: end_question_frame)

lemma card_gate_adds:
  "card_gate req prev c db = Pass g db' \<or> card_gate req prev c db = Halt r db' \<Longrightarrow> adds_only db db'"
  by (auto simp: card_gate_def intro: adds_only_frame split: if_splits sum.splits dest!: queue_follow_up_adds)

lemma gate_check_adds:
  "gate_check req prev db = Pass g db' \<or> gate_check req prev db = Halt r db' \<Longrightarrow> adds_only db db'"
  by (auto simp: gate_check_def intro: adds_only_frame card_gate_adds split: if_splits sum.splits option.splits
      dest!: end_question_frame)

lemma mark_done_steps:
  assumes "mark_done req db = Inr (res, db')"
  shows "advances db db' \<and> adds_only db db'"
proof (cases "get_lane (dq_lane req) db")
  case None
  with assms show ?thesis by (simp add: mark_done_def adds_only_def)
next
  case (Some l)
  show ?thesis
  proof (cases "gate_check req (ln_status l) db")
    case (Pass g db1)
    with assms Some have fr: "db_tasks db' = db_tasks db1" "db_next db1 \<le> db_next db'"
      by (auto simp: mark_done_def write_end_def Let_def)
    have "advances db db1" "adds_only db db1" using gate_check_advances gate_check_adds Pass by blast+
    with advances_frame [OF fr] adds_only_frame [OF fr(1)] show ?thesis
      by (blast intro: advances_trans adds_only_trans)
  next
    case (Refuse e)
    with assms Some show ?thesis by (simp add: mark_done_def)
  next
    case (Halt r db1)
    with assms Some gate_check_advances [of req "ln_status l" db _ db1 r] gate_check_adds [of req "ln_status l" db _ db1 r]
    show ?thesis by (simp add: mark_done_def)
  qed
qed

lemma mark_done_advances: "mark_done req db = Inr (res, db') \<Longrightarrow> advances db db'"
  using mark_done_steps by blast

section \<open>The finish report\<close>

lemma waiting_human_runs:
  assumes "waiting_human_locked t n now db = Inr (t', db')" and "in_sync t db"
  shows "runs_to t db t' db' \<and> tk_status t' = WaitingHuman \<and> tk_attempt t' = tk_attempt t"
proof -
  let ?f = "\<lambda>r. r\<lparr>tk_status := WaitingHuman, tk_finished_at := None, tk_heartbeat_at := None, tk_updated_at := now\<rparr>"
  have cast: "turn_end_status = Inr (WaitingHuman, LaneWaitingHuman)"
    by (simp add: turn_end_status_def status_cast_def lane_cast_def)
  obtain db1 where can: "can_transition (tk_status t) WaitingHuman" and up: "update_task (tk_id t) ?f db = Inr db1"
    using assms(1) by (auto simp: waiting_human_locked_def transition_Inr cast)
  then have fr: "db_tasks db' = db_tasks db1" "db_next db1 \<le> db_next db'" and t': "t' = t\<lparr>tk_status := WaitingHuman\<rparr>"
    using assms(1) by (auto simp: waiting_human_locked_def transition_Inr cast)
  have "runs_to t db t' db'"
    by (rule runs_to_update [OF up assms(2) _ _ _ _ fr])
      (use can in \<open>auto simp: t' view_def same_task_def intro: life_to\<close>)
  then show ?thesis by (simp add: t')
qed

text \<open>As \<open>runs_to\<close>, but a follow-up task may have been added.\<close>

definition ends_at :: "task_row \<Rightarrow> db \<Rightarrow> task_row \<Rightarrow> db \<Rightarrow> bool" where
  "ends_at t db t' db' \<longleftrightarrow> advances db db' \<and> in_sync t' db' \<and> tk_id t' = tk_id t
     \<and> (\<forall>j u. j \<noteq> tk_id t \<longrightarrow> get_task j db = Some u \<longrightarrow> get_task j db' = Some u)"

lemma runs_ends: "runs_to t db t' db' \<Longrightarrow> ends_at t db t' db'"
  by (simp add: runs_to_def ends_at_def others_same_def)

lemma ends_at_pre:
  assumes "ends_at t db1 t' db'" and "db_tasks db1 = db_tasks db" and "db_next db \<le> db_next db1"
  shows "ends_at t db t' db'"
proof -
  have "advances db db1" using assms(2,3) by (rule advances_frame)
  with assms(1) show ?thesis
    by (auto simp: ends_at_def get_task_frame [OF assms(2)] intro: advances_trans)
qed

lemma finish_completed_steps:
  assumes "finish_completed t n f now db = Inr (t', ends, db')" and "in_sync t db"
  obtains db1 where "runs_to t db t' db1" and "advances db1 db'" and "adds_only db1 db'"
    and "tk_status t' = Completed" and "tk_attempt t' = tk_attempt t"
proof -
  let ?f = "\<lambda>r. r\<lparr>tk_status := Completed, tk_finished_at := Some now, tk_stop_reason := Some (fr_stop_reason f),
              tk_heartbeat_at := None, tk_updated_at := now\<rparr>"
  let ?req = "\<lparr>dq_lane = tk_lane t, dq_task = tk_id t, dq_cause = TurnEnd, dq_now = now\<rparr>"
  from assms(1) obtain db1 res db2 where can: "can_transition (tk_status t) Completed"
    and up: "update_task (tk_id t) ?f db = Inr db1"
    and md: "mark_done ?req (revoke (tk_id t) n ''completed'' db1) = Inr (res, db2)"
    and db': "db' = clear_rebind_prompt (tk_room t) now db2"
    and t': "t' = t\<lparr>tk_status := Completed, tk_finished_at := Some now\<rparr>"
    by (auto simp: finish_completed_def transition_Inr)
  show ?thesis
  proof (rule that)
    show "runs_to t db t' (revoke (tk_id t) n ''completed'' db1)"
      by (rule runs_to_update [OF up assms(2)])
        (use can in \<open>auto simp: t' view_def same_task_def intro: life_to\<close>)
    have fr: "db_tasks db' = db_tasks db2" "db_next db2 \<le> db_next db'" by (simp_all add: db')
    show "advances (revoke (tk_id t) n ''completed'' db1) db'" "adds_only (revoke (tk_id t) n ''completed'' db1) db'"
      using mark_done_steps [OF md] advances_frame [OF fr] adds_only_frame [OF fr(1)]
      by (blast intro: advances_trans adds_only_trans)+
  qed (simp_all add: t')
qed

lemma finish_completed_runs:
  assumes "finish_completed t n f now db = Inr (t', ends, db')" and "in_sync t db"
  shows "ends_at t db t' db' \<and> tk_status t' = Completed \<and> tk_attempt t' = tk_attempt t"
proof (rule finish_completed_steps [OF assms])
  fix db1
  assume r: "runs_to t db t' db1" and a: "advances db1 db'" "adds_only db1 db'"
    and t': "tk_status t' = Completed" "tk_attempt t' = tk_attempt t"
  from r a(2) have "in_sync t' db'" by (auto simp: runs_to_def in_sync_def adds_only_def)
  with r a t' show ?thesis
    by (auto simp: runs_to_def ends_at_def others_same_def adds_only_def intro: advances_trans)
qed

lemma finish_paused_budget_runs:
  assumes "finish_paused_budget t n now db = Inr db'" and "in_sync t db"
  shows "runs_to t db (t\<lparr>tk_status := Paused\<rparr>) db'"
proof -
  let ?f = "\<lambda>r. r\<lparr>tk_status := Paused, tk_paused_reason := Some ''budget'', tk_finished_at := None,
              tk_heartbeat_at := None, tk_updated_at := now\<rparr>"
  obtain db1 where can: "tk_status t = Paused \<or> can_transition (tk_status t) Paused" and up: "update_task (tk_id t) ?f db = Inr db1"
    using assms(1) by (auto simp: finish_paused_budget_def transition_Inr split: if_splits)
  then have fr: "db_tasks db' = db_tasks db1" "db_next db1 \<le> db_next db'"
    using assms(1) by (auto simp: finish_paused_budget_def transition_Inr Let_def split: if_splits)
  show ?thesis
    by (rule runs_to_update [OF up assms(2) _ _ _ _ fr])
      (use can in \<open>auto simp: view_def same_task_def intro: life_to\<close>)
qed

lemma finish_switch_runs:
  assumes "finish_switch t n f d now db = Inr (t', ends, db')" and "in_sync t db"
  shows "ends_at t db t' db'"
  using assms cancel_locked_runs(1) [of t _ now db t' db'] requeue_locked_runs [of t _ _ now db t' db']
    waiting_human_runs [of t n now db t' db'] finish_completed_runs [of t n f now db t' ends db']
    finish_paused_budget_runs [of t n now db db']
  by (auto simp: finish_switch_def intro: runs_ends split: if_splits option.splits)

lemma finish_records_frame:
  assumes "finish_records t n f now db = Inr (d, db')"
  shows "db_tasks db' = db_tasks db \<and> db_next db' = db_next db"
proof -
  obtain db1 where "apply_session_ref t n f now (record_usage t n f now (record_attempt_finish t n f now db)) = Inr db1"
    using assms by (auto simp: finish_records_def Let_def)
  with apply_session_ref_frame [OF this] assms show ?thesis by (auto simp: finish_records_def Let_def)
qed

lemma finish_Inr_cases:
  assumes "finish i n f db = Inr (st, ends, db')"
  obtains (seen) t costed where "get_task i db = Some t" "finish_idempotency_check t n db = SeenDone st costed"
      "ends = []" "db' = db"
    | (fresh) t t' d db1 where "get_task i db = Some t" "finish_idempotency_check t n db = SeenNew"
      "finish_records t n f (db_clock db) db = Inr (d, db1)"
      "finish_switch t n f d (db_clock db) db1 = Inr (t', ends, db')"
      "st = status_text (tk_status t')"
proof -
  obtain t where t: "get_task i db = Some t"
    using assms by (auto simp: finish_def Let_def lock_task_Inr)
  then have lock: "lock_task i db = Inr t" by (simp add: lock_task_Inr)
  show ?thesis
  proof (cases "finish_idempotency_check t n db")
    case SeenStale
    with assms lock show ?thesis by (simp add: finish_def)
  next
    case (SeenDone final costed)
    with assms lock t show ?thesis by (intro seen [of t costed]) (simp_all add: finish_def)
  next
    case SeenNew
    with assms lock obtain x y where "finish_records t n f (db_clock db) db = Inr x"
      and "finish_switch t n f (fst x) (db_clock db) (snd x) = Inr y"
      and "(status_text (tk_status (fst y)), snd y) = (st, ends, db')"
      by (auto simp: finish_def Let_def split_beta)
    with SeenNew t show ?thesis
      by (intro fresh [of t "fst x" "snd x" "fst y"]; cases y; auto)
  qed
qed

lemma finish_fresh_runs:
  assumes "get_task i db = Some t" and "finish_records t n f now db = Inr (d, db1)"
    and "finish_switch t n f d now db1 = Inr (t', ends, db')"
  shows "ends_at t db t' db'"
proof -
  note fr = finish_records_frame [OF assms(2)]
  have "in_sync t db" using assms(1) by (auto simp: in_sync_def dest: get_task_id)
  then have "ends_at t db1 t' db'"
    using finish_switch_runs [OF assms(3)] in_sync_frame [OF conjunct1 [OF fr]] by simp
  then show ?thesis by (rule ends_at_pre) (simp_all add: fr)
qed

lemma finish_advances:
  assumes "finish i n f db = Inr (st, ends, db')"
  shows "advances db db'"
  using assms
proof (cases rule: finish_Inr_cases)
  case (fresh t t' d db1)
  with finish_fresh_runs [OF fresh(1,3,4)] show ?thesis by (simp add: ends_at_def)
qed simp

section \<open>Holds and cancels\<close>

lemma pause_locked_runs:
  assumes "pause_locked t why detail target now db = Inr (t', db')" and "in_sync t db" and "target \<noteq> Queued"
  shows "runs_to t db t' db' \<and> tk_status t' = target"
proof -
  let ?f = "\<lambda>r. r\<lparr>tk_status := target, tk_paused_reason := Some why,
              tk_paused_detail := (if detail = [] then None else Some detail), tk_updated_at := now\<rparr>"
  have cast: "pause_cast why = Inr why"
    using assms(1) by (auto simp: pause_locked_def pause_cast_def transition_def split: if_splits)
  obtain db1 where can: "can_transition (tk_status t) target" and up: "update_task (tk_id t) ?f db = Inr db1"
    using assms(1) by (auto simp: pause_locked_def transition_Inr cast)
  then have fr: "db_tasks db' = db_tasks db1" "db_next db1 \<le> db_next db'"
    and t': "t' = t\<lparr>tk_status := target, tk_paused_reason := Some why\<rparr>"
    using assms(1) by (auto simp: pause_locked_def transition_Inr cast Let_def split: option.splits if_splits)
  have "runs_to t db t' db'"
    by (rule runs_to_update [OF up assms(2) _ _ _ _ fr])
      (use can assms(3) in \<open>auto simp: t' view_def same_task_def intro: life_to\<close>)
  then show ?thesis by (simp add: t')
qed

lemma pause_target: "(case do_task_status (plan_dispatch ''paused'' why queued running) of None \<Rightarrow> Paused | Some s \<Rightarrow> s) \<noteq> Queued"
  by (auto simp: plan_dispatch_def Let_def split: if_splits option.splits)

lemma pause_tasks_advances:
  assumes "pause_tasks mine why detail locked now db = Inr db'"
  shows "advances db db'"
proof (cases "do_turn_kill (plan_dispatch ''paused'' why (by_creation (\<lambda>t. mine t \<and> tk_status t = Queued) db)
    (by_creation (\<lambda>t. mine t \<and> in_flight (tk_status t) \<and> \<not> List.member locked (tk_id t)) db \<noteq> []))")
  case True
  let ?target = "case do_task_status (plan_dispatch ''paused'' why (by_creation (\<lambda>t. mine t \<and> tk_status t = Queued) db)
    (by_creation (\<lambda>t. mine t \<and> in_flight (tk_status t) \<and> \<not> List.member locked (tk_id t)) db \<noteq> [])) of None \<Rightarrow> Paused | Some s \<Rightarrow> s"
  let ?one = "\<lambda>i db. bindE (lock_task i db) (\<lambda>t. bindE (pause_locked t why detail ?target now db) (\<lambda>(_, db). Inr db))"
  have step: "advances a b" if "?one i a = Inr b" for i a b
    using that by (auto simp: runs_to_def pause_target dest!: pause_locked_runs lock_task_sync)
  have "foldE ?one (by_creation (\<lambda>t. mine t \<and> in_flight (tk_status t) \<and> \<not> List.member locked (tk_id t)) db) db = Inr db'"
    using assms True by (simp add: pause_tasks_def Let_def)
  then show ?thesis using advances_foldE [where g = "\<lambda>x. x"] step by blast
qed (use assms in \<open>simp add: pause_tasks_def Let_def\<close>)

lemma pause_task_for_budget_advances:
  "pause_task_for_budget i detail now db = Inr db' \<Longrightarrow> advances db db'"
  by (auto simp: pause_task_for_budget_def runs_to_def split: if_splits dest!: pause_locked_runs lock_task_sync)

lemma requeue_parked_runs:
  assumes "requeue_parked_locked t c now db = Inr (t', db')" and "in_sync t db" and "failure_for c = None" and "c \<noteq> CauseRestart"
  shows "runs_to t db t' db' \<and> tk_status t' = Queued \<and> tk_attempt t' = tk_attempt t + 1"
proof -
  let ?f = "\<lambda>r. r\<lparr>tk_status := Queued, tk_attempt := tk_attempt t + 1, tk_pending_hitl := False, tk_paused_reason := None,
              tk_paused_detail := None, tk_failure := None, tk_not_before := None, tk_runtime := None,
              tk_heartbeat_at := None, tk_dispatched_at := None, tk_started_at := None, tk_finished_at := None,
              tk_updated_at := now\<rparr>"
  have c: "ai_cause (requeue_input t c) \<noteq> CauseRestart" using assms(4) by (simp add: requeue_input_def)
  have n: "ap_attempt (plan_attempt (requeue_input t c)) = tk_attempt t + 1"
    using plan_attempt_status [OF c] assms(3) by (simp add: requeue_input_def)
  obtain db1 where can: "can_transition (tk_status t) Queued" and up: "update_task (tk_id t) ?f db = Inr db1"
    using assms(1) by (auto simp: requeue_parked_locked_def transition_Inr n)
  then have fr: "db_tasks db' = db_tasks db1" "db_next db1 \<le> db_next db'"
    and t': "t' = t\<lparr>tk_status := Queued, tk_attempt := tk_attempt t + 1, tk_pending_hitl := False, tk_paused_reason := None\<rparr>"
    using assms(1) by (auto simp: requeue_parked_locked_def transition_Inr n)
  have "runs_to t db t' db'"
    by (rule runs_to_update [OF up assms(2) _ _ _ _ fr])
      (use can in \<open>auto simp: t' view_def same_task_def intro: life_requeue\<close>)
  then show ?thesis by (simp add: t')
qed

lemma resume_from_human_advances:
  assumes "resume_from_human i c db = Inr (t', db')" and "failure_for c = None" and "c \<noteq> CauseRestart"
  shows "advances db db'"
  using assms requeue_parked_runs
  by (auto simp: resume_from_human_def runs_to_def split: if_splits dest!: lock_task_sync)

lemma resume_tasks_advances:
  assumes "resume_tasks mine why c now db = Inr (ids, db')" and "failure_for c = None" and "c \<noteq> CauseRestart"
  shows "advances db db'"
proof -
  let ?one = "\<lambda>i (resumed, db). bindE (lock_task i db) (\<lambda>t.
           if tk_status t \<noteq> Paused then Inr (resumed, db)
           else bindE (requeue_parked_locked t c now db) (\<lambda>(_, db). Inr (resumed @ [i], db)))"
  have step: "advances (snd a) (snd b)" if "?one i a = Inr b" for i a b
    using that requeue_parked_runs [OF _ _ assms(2,3)]
    by (cases a; cases b) (auto simp: runs_to_def split: if_splits dest!: lock_task_sync)
  obtain xs where "foldE ?one xs ([], db) = Inr (ids, db')"
    using assms(1) by (auto simp: resume_tasks_def Let_def)
  with advances_foldE [where g = snd and f = ?one] step show ?thesis by fastforce
qed

lemma set_pending_hitl_advances: "set_pending_hitl i now db = Inr db' \<Longrightarrow> advances db db'"
  unfolding set_pending_hitl_def
  by (erule update_task_advances) (simp_all add: view_def same_task_def)

lemma advances_frame_after:
  "advances db db1 \<Longrightarrow> db_tasks db' = db_tasks db1 \<Longrightarrow> db_next db1 \<le> db_next db' \<Longrightarrow> advances db db'"
  by (meson advances_frame advances_trans)

lemma advances_frame_before:
  "advances db1 db' \<Longrightarrow> db_tasks db1 = db_tasks db \<Longrightarrow> db_next db \<le> db_next db1 \<Longrightarrow> advances db db'"
  by (meson advances_frame advances_trans)

text \<open>A cancel after the event that records it.\<close>

lemma recorded_cancel_advances:
  assumes "cancel_locked t stop now (insert_server_event i n cls v obj out now' db) = Inr (t', db')" and "in_sync t db"
  shows "advances db db'"
proof -
  let ?db = "insert_server_event i n cls v obj out now' db"
  have "in_sync t ?db" using assms(2) in_sync_frame [of ?db db] by simp
  with cancel_locked_runs(1) [OF assms(1)] have "advances ?db db'" by (simp add: runs_to_def)
  then show ?thesis by (rule advances_frame_before) simp_all
qed

lemma cancel_lane_advances:
  assumes "cancel_lane lane db = Inr (t', done, db')"
  shows "advances db db'"
proof -
  from assms obtain cur t where cur: "newest_task lane db = Some cur" and t: "lock_task (tk_id cur) db = Inr t"
    by (auto simp: cancel_lane_def Let_def split: option.splits)
  let ?ev = "insert_server_event (tk_id t) (tk_attempt t) ''status'' ''cancel'' ''director'' ''ok'' (db_clock db) db"
  consider "db' = db" | rt where "db' = queue_command rt (cancel_command_for t ''director'') ?ev"
    | "cancel_locked t ''director'' (db_clock db) ?ev = Inr (t', db')"
    using assms cur t
    by (auto simp: cancel_lane_def Let_def split: if_splits option.splits)
  then show ?thesis
  proof cases
    case 3
    then show ?thesis using recorded_cancel_advances lock_task_sync [OF t] by blast
  qed (auto intro: advances_frame)
qed

lemma cancel_in_room_one_advances:
  assumes "cancel_in_room_one now i db = Inr db'"
  shows "advances db db'"
proof -
  from assms obtain t where t: "lock_task i db = Inr t" by (auto simp: cancel_in_room_one_def)
  let ?ev = "insert_server_event (tk_id t) (tk_attempt t) ''status'' ''cancel'' ''director'' ''ok'' now db"
  consider "db' = db" | rt where "db' = queue_command rt (cancel_command_for t ''director'') ?ev"
    | t' where "cancel_locked t ''director'' now ?ev = Inr (t', db')"
    using assms t by (auto simp: cancel_in_room_one_def Let_def split: if_splits option.splits)
  then show ?thesis
  proof cases
    case 3
    then show ?thesis using recorded_cancel_advances lock_task_sync [OF t] by blast
  qed (auto intro: advances_frame)
qed

lemma cancel_in_flight_in_room_advances:
  "cancel_in_flight_in_room room now db = Inr db' \<Longrightarrow> advances db db'"
  unfolding cancel_in_flight_in_room_def
  using advances_foldE [where g = "\<lambda>x. x"] cancel_in_room_one_advances by blast

lemma cancel_for_session_advances:
  assumes "cancel_for_session i why now db = Inr db'"
  shows "advances db db'"
proof -
  from assms obtain t where t: "lock_task i db = Inr t" by (auto simp: cancel_for_session_def)
  let ?ev = "insert_server_event (tk_id t) (tk_attempt t) ''status'' ''cancel'' why ''ok'' now db"
  consider "db' = db" | "db' = ?ev" | rt where "db' = queue_command rt (cancel_command_for t why) ?ev"
    | t' where "cancel_locked t why now ?ev = Inr (t', db')"
    using assms t by (auto simp: cancel_for_session_def Let_def split: if_splits option.splits)
  then show ?thesis
  proof cases
    case 4
    then show ?thesis using recorded_cancel_advances lock_task_sync [OF t] by blast
  qed (auto intro: advances_frame)
qed

end
