(* ===== verification/Task_Service.thy ===== *)
theory Task_Service
  imports Task_Runs
begin

text \<open>
  The task service as the HTTP handlers and the scheduler use it: one request, one transaction,
  any sequence of requests. The random token of a dispatch and sha256 are parameters; the causes of
  a resume are the two its callers pass.
\<close>

section \<open>Requests\<close>

datatype task_scope = OfRoom uuid | OfWork uuid

fun in_scope :: "task_scope \<Rightarrow> task_row \<Rightarrow> bool" where
  "in_scope (OfRoom r) t \<longleftrightarrow> tk_room t = r"
| "in_scope (OfWork w) t \<longleftrightarrow> tk_work t = Some w"

datatype human_cause = HitlAnswer | BudgetApproved

fun cause_of_human :: "human_cause \<Rightarrow> cause" where
  "cause_of_human HitlAnswer = CauseHitlAnswer"
| "cause_of_human BudgetApproved = CauseBudgetApproved"

datatype request =
    ReqDispatch uuid uuid string time
  | ReqPhase uuid int string
  | ReqHeartbeat uuid int time
  | ReqFinish uuid int finish_report
  | ReqRequeue uuid failure_kind "time option" time
  | ReqSweep "uuid list" time
  | ReqLaneDone done_request
  | ReqPause task_scope string string "uuid list" time
  | ReqPauseTask uuid string time
  | ReqPauseLane uuid time
  | ReqResumeLane uuid time
  | ReqResumeTask uuid human_cause
  | ReqResume task_scope string human_cause time
  | ReqPendingHitl uuid time
  | ReqCancelLane uuid
  | ReqCancelRoom uuid time
  | ReqCancelForSession uuid string time
  | ReqClock time time

definition storeE :: "('a \<Rightarrow> db) \<Rightarrow> 'e + 'a \<Rightarrow> 'e + db" where
  "storeE out m = bindE m (\<lambda>x. Inr (out x))"

fun serve :: "(string \<Rightarrow> string) \<Rightarrow> request \<Rightarrow> db \<Rightarrow> db_error + db" where
  "serve hash (ReqDispatch i rt tok now) db =
     bindE (lock_task i db) (\<lambda>t. storeE snd (mark_dispatched hash tok t rt now db))"
| "serve hash (ReqPhase i n phase) db = phase_report i n phase db"
| "serve hash (ReqHeartbeat i n now) db = heartbeat i n now db"
| "serve hash (ReqFinish i n f) db = storeE (\<lambda>(_, _, db). db) (finish i n f db)"
| "serve hash (ReqRequeue i why nb now) db = storeE snd (requeue i why nb now db)"
| "serve hash (ReqSweep locked now) db = storeE snd (expire_stale locked now db)"
| "serve hash (ReqLaneDone req) db = storeE snd (mark_done req db)"
| "serve hash (ReqPause sc why detail locked now) db = pause_tasks (in_scope sc) why detail locked now db"
| "serve hash (ReqPauseTask i detail now) db = pause_task_for_budget i detail now db"
| "serve hash (ReqPauseLane lane now) db = Inr (pause_lane_for_budget lane now db)"
| "serve hash (ReqResumeLane lane now) db = Inr (resume_lane_for_budget lane now db)"
| "serve hash (ReqResumeTask i c) db = storeE snd (resume_from_human i (cause_of_human c) db)"
| "serve hash (ReqResume sc why c now) db = storeE snd (resume_tasks (in_scope sc) why (cause_of_human c) now db)"
| "serve hash (ReqPendingHitl i now) db = set_pending_hitl i now db"
| "serve hash (ReqCancelLane lane) db = storeE (\<lambda>(_, _, db). db) (cancel_lane lane db)"
| "serve hash (ReqCancelRoom room now) db = cancel_in_flight_in_room room now db"
| "serve hash (ReqCancelForSession i why now) db = cancel_for_session i why now db"
| "serve hash (ReqClock clk dbnow) db = Inr (db\<lparr>db_clock := clk, db_now := dbnow\<rparr>)"

definition run :: "(string \<Rightarrow> string) \<Rightarrow> request list \<Rightarrow> db \<Rightarrow> db" where
  "run hash reqs = fold (\<lambda>r. in_tx (serve hash r)) reqs"

lemma storeE_Inr [simp]: "storeE out m = Inr db' \<longleftrightarrow> (\<exists>x. m = Inr x \<and> out x = db')"
  by (cases m) (auto simp: storeE_def)

lemma human_causes: "failure_for (cause_of_human c) = None" "cause_of_human c \<noteq> CauseRestart"
  by (cases c; simp)+

lemma serve_advances:
  assumes "serve hash r db = Inr db'"
  shows "advances db db'"
proof (cases r)
  case (ReqDispatch i rt tok now)
  with assms show ?thesis
    by (auto simp: runs_to_def dest!: mark_dispatched_runs lock_task_sync)
next
  case (ReqPhase i n phase)
  with assms show ?thesis by (simp add: phase_report_advances)
next
  case (ReqHeartbeat i n now)
  with assms show ?thesis by (simp add: heartbeat_advances)
next
  case (ReqFinish i n f)
  with assms show ?thesis by (auto simp: finish_advances)
next
  case (ReqRequeue i why nb now)
  with assms show ?thesis by (auto simp: requeue_advances)
next
  case (ReqSweep locked now)
  with assms show ?thesis by (auto simp: expire_stale_advances)
next
  case (ReqLaneDone req)
  with assms show ?thesis by (auto simp: mark_done_advances)
next
  case (ReqPause sc why detail locked now)
  with assms show ?thesis by (simp add: pause_tasks_advances)
next
  case (ReqPauseTask i detail now)
  with assms show ?thesis by (simp add: pause_task_for_budget_advances)
next
  case (ReqPauseLane lane now)
  with assms show ?thesis by (auto simp: pause_lane_for_budget_def)
next
  case (ReqResumeLane lane now)
  with assms show ?thesis by (auto simp: resume_lane_for_budget_def Let_def)
next
  case (ReqResumeTask i c)
  with assms human_causes show ?thesis by (auto intro: resume_from_human_advances)
next
  case (ReqResume sc why c now)
  with assms human_causes show ?thesis by (auto intro: resume_tasks_advances)
next
  case (ReqPendingHitl i now)
  with assms show ?thesis by (simp add: set_pending_hitl_advances)
next
  case (ReqCancelLane lane)
  with assms show ?thesis by (auto simp: cancel_lane_advances)
next
  case (ReqCancelRoom room now)
  with assms show ?thesis by (simp add: cancel_in_flight_in_room_advances)
next
  case (ReqCancelForSession i why now)
  with assms show ?thesis by (simp add: cancel_for_session_advances)
next
  case (ReqClock clk dbnow)
  with assms show ?thesis by (auto intro: advances_frame)
qed

interpretation service: transactional "serve hash" tasks_wf lives_on for hash :: "string \<Rightarrow> string"
  by unfold_locales (auto simp: advances_def dest: serve_advances intro: lives_on_trans)

section \<open>A sample store\<close>

definition sample_task :: task_row where
  "sample_task = \<lparr>tk_id = 1, tk_lane = 2, tk_room = 3, tk_runtime = Some 5, tk_agent = 6, tk_profile = 7,
     tk_trigger = None, tk_delegated_from = None, tk_originator = None, tk_coalesced = [], tk_attempt = 1,
     tk_max_attempts = 3, tk_pending_hitl = False, tk_budget_override = None, tk_status = Running,
     tk_paused_reason = None, tk_paused_detail = None, tk_failure = None, tk_not_before = None,
     tk_stop_reason = None, tk_heartbeat_at = Some 10, tk_created_at = 0, tk_updated_at = 10,
     tk_dispatched_at = Some 5, tk_started_at = Some 6, tk_finished_at = None, tk_work = None,
     tk_queued_reason = None, tk_kind = KindNormal, tk_card = None, tk_trigger_reason = None, tk_restarted_from = None,
     tk_fallback_for = None, tk_join_fired = None, tk_result_cards = []\<rparr>"

definition sample_lane :: lane_row where
  "sample_lane = \<lparr>ln_id = 2, ln_room = 3, ln_agent = 6, ln_profile = 7, ln_status = LaneRunning, ln_finished_at = None,
     ln_updated_at = 5, ln_session_ref = None, ln_anchor = None, ln_work = None, ln_workdir = None, ln_depends_on = [],
     ln_reentry = 0, ln_created_at = 0, ln_delegated_from = None, ln_blocked_note = None, ln_blocked_message = None\<rparr>"

definition sample_db :: db where
  "sample_db = empty_db\<lparr>db_tasks := [sample_task], db_lanes := [sample_lane], db_clock := 20, db_now := 20, db_next := 10,
     db_attempts := [(blank_attempt 1 1)\<lparr>ar_dispatched_at := Some 5\<rparr>],
     db_tokens := [\<lparr>tn_task = 1, tn_attempt = 1, tn_hash = ''h'', tn_lane = 2, tn_room = 3, tn_agent = 6,
       tn_runtime = Some 5, tn_issued_at = 5, tn_expires_at = 5 + token_ttl, tn_revoked_at = None, tn_revoke_reason = None\<rparr>]\<rparr>"

definition sample_report :: finish_report where
  "sample_report = \<lparr>fr_outcome = ''completed'', fr_stop_reason = ''end_turn'', fr_failure = None, fr_not_before = None,
     fr_usage = \<lparr>ur_input = 5, ur_output = 7, ur_cache_read = 0, ur_cost = 1, ur_estimated = False, ur_model = ''m''\<rparr>,
     fr_ref = None, fr_resume_outcome = []\<rparr>"

lemma sample_wf: "tasks_wf sample_db"
  by (simp add: tasks_wf_def sample_db_def sample_task_def task_check_def)

lemma sample_gets: "get_task 1 sample_db = Some sample_task" "get_lane 2 sample_db = Some sample_lane"
  by (simp_all add: sample_db_def sample_task_def sample_lane_def get_task_def get_lane_def)

definition ended_task :: task_row where
  "ended_task = sample_task\<lparr>tk_status := Completed\<rparr>"

definition ended_db :: db where
  "ended_db = sample_db\<lparr>db_tasks := [ended_task]\<rparr>"

lemma ended_facts:
  "tasks_wf ended_db" "get_task 1 ended_db = Some ended_task"
  "tk_status ended_task = Completed" "tk_attempt ended_task = 1"
  by (simp_all add: ended_db_def ended_task_def sample_db_def sample_task_def task_check_def tasks_wf_def get_task_def)

section \<open>What holds over every run\<close>

text \<open>
  C1 The service refines the task machine of FR-7.1. Whatever requests arrive, in whatever order,
  and whichever of them fail half-way: the table of tasks keeps its constraints and its unique ids,
  no task is lost, and each task's status and attempt number move only along the allowed edges,
  where the way back to \<open>queued\<close> is the one that opens the next attempt.
\<close>

theorem service_refines_machine:
  assumes "tasks_wf db" and "get_task i db = Some t"
  shows "tasks_wf (run hash reqs db) \<and> (\<exists>t'. get_task i (run hash reqs db) = Some t'
           \<and> life_step\<^sup>*\<^sup>* (view t) (view t') \<and> same_task t t')"
  using service.run_inv [OF assms(1), of hash reqs] service.run_rel [OF assms(1), of hash reqs] assms(2)
  by (auto simp: run_def lives_on_def)

theorem service_refines_machine_witness:
  "tasks_wf (run (\<lambda>s. s) [ReqSweep [] (hour + 1), ReqFinish 1 1 sample_report] sample_db)"
  using service_refines_machine [OF sample_wf sample_gets(1)] by blast

text \<open>
  A finished task stays finished: once a task is completed, failed or cancelled, no sequence of
  reports, sweeps, resumes, pauses or cancels changes its status or opens another attempt.
\<close>

theorem final_status_is_final:
  assumes "tasks_wf db" and "get_task i db = Some t" and "terminal (tk_status t)"
  shows "\<exists>t'. get_task i (run hash reqs db) = Some t' \<and> tk_status t' = tk_status t \<and> tk_attempt t' = tk_attempt t"
proof -
  obtain t' where "get_task i (run hash reqs db) = Some t'" "life_step\<^sup>*\<^sup>* (view t) (view t')"
    using service.run_rel [OF assms(1), of hash reqs] assms(2) by (auto simp: run_def lives_on_def)
  with life_final [of "view t" "view t'"] assms(3) show ?thesis by (auto simp: view_def)
qed

theorem final_status_is_final_witness:
  "\<exists>t'. get_task 1 (run (\<lambda>s. s) [ReqFinish 1 1 sample_report, ReqResumeTask 1 HitlAnswer, ReqRequeue 1 FailNetwork None 30]
          ended_db) = Some t' \<and> tk_status t' = Completed \<and> tk_attempt t' = 1"
  using final_status_is_final [of ended_db 1 ended_task "\<lambda>s. s"
      "[ReqFinish 1 1 sample_report, ReqResumeTask 1 HitlAnswer, ReqRequeue 1 FailNetwork None 30]"]
  by (simp del: One_nat_def add: ended_facts)

text \<open>
  Attempts never go back. Attempt numbers only grow, and while a task is in one attempt its
  status only moves forward (deferred, queued, dispatched, preparing, running, waiting or paused,
  ended): a late report cannot put an attempt back into an earlier phase.
\<close>

theorem attempts_never_go_back:
  assumes "tasks_wf db" and "get_task i db = Some t" and "get_task i (run hash reqs db) = Some t'"
  shows "tk_attempt t \<le> tk_attempt t' \<and> (if tk_attempt t = tk_attempt t' then tk_status t \<le> tk_status t' else True)"
proof -
  have "life_step\<^sup>*\<^sup>* (view t) (view t')"
    using service.run_rel [OF assms(1), of hash reqs] assms(2,3) by (force simp: run_def lives_on_def)
  then have "age (view t) \<le> age (view t')" by (rule life_grows)
  then show ?thesis by (auto simp: age_def view_def less_eq_prod_def)
qed

theorem attempts_never_go_back_witness:
  "get_task 1 (run (\<lambda>s. s) [ReqHeartbeat 1 1 30] sample_db) = Some (sample_task\<lparr>tk_heartbeat_at := Some 30\<rparr>)
   \<and> tk_attempt sample_task \<le> tk_attempt (sample_task\<lparr>tk_heartbeat_at := Some 30\<rparr>)"
proof -
  have r: "get_task 1 (run (\<lambda>s. s) [ReqHeartbeat 1 1 30] sample_db) = Some (sample_task\<lparr>tk_heartbeat_at := Some 30\<rparr>)"
    by (simp add: run_def in_tx_def heartbeat_def Let_def sample_db_def sample_task_def get_task_def tbl_upd_def)
  with attempts_never_go_back [OF sample_wf sample_gets(1) r] show ?thesis by simp
qed

end
