(* ===== verification/Finish_Facts.thy ===== *)
theory Finish_Facts
  imports Task_Service
begin

text \<open>
  What the end-of-attempt report promises: a repeat changes nothing, the answer is the stored
  status, the attempt's token is dead afterwards, and the status each report leads to.
\<close>

section \<open>What leaves attempts, tokens and commands alone\<close>

lemma update_task_frames:
  assumes "update_task i f db = Inr db'"
  shows "db_attempts db' = db_attempts db \<and> db_tokens db' = db_tokens db \<and> db_commands db' = db_commands db"
  using assms by (auto simp: update_task_def split: option.splits if_splits)

lemma attempts_frames [keeps, simp]:
  "db_attempts (queue_command rt cmd db) = db_attempts db"
  "db_attempts (revoke i n why db) = db_attempts db"
  "db_attempts (insert_server_event i n cls v obj out now db) = db_attempts db"
  "db_attempts (insert_server_event_once i n cls v obj out now db) = db_attempts db"
  "db_attempts (update_commands p g db) = db_attempts db"
  "db_attempts (update_lane j r h db) = db_attempts db"
  "db_attempts (update_card k u db) = db_attempts db"
  "db_attempts (cancel_lane_cards lane now db) = db_attempts db"
  "db_attempts (note_no_fallback t now db) = db_attempts db"
  "db_attempts (clear_rebind_prompt room now db) = db_attempts db"
  "db_attempts (record_usage t n f now db) = db_attempts db"
  "db_attempts (record_completed_side_effects t n f now db) = db_attempts db"
  "db_attempts (store_result c res src now db) = db_attempts db"
  by (simp_all add: queue_command_def revoke_def insert_server_event_def insert_server_event_once_def
      update_commands_def cancel_lane_cards_def cancel_cards_where_def note_no_fallback_def update_card_def store_result_def result_bubble_def update_message_def
      insert_message_def clear_rebind_prompt_def record_usage_def update_lane_def
      record_completed_side_effects_def consume_attempt_commands_def note_empty_turn_def Let_def split: option.split)

lemma tokens_frames [keeps, simp]:
  "db_tokens (upsert_attempt a merge db) = db_tokens db"
  "db_tokens (insert_server_event i n cls v obj out now db) = db_tokens db"
  "db_tokens (insert_server_event_once i n cls v obj out now db) = db_tokens db"
  "db_tokens (update_lane j r h db) = db_tokens db"
  "db_tokens (update_card k u db) = db_tokens db"
  "db_tokens (cancel_lane_cards lane now db) = db_tokens db"
  "db_tokens (note_no_fallback t now db) = db_tokens db"
  "db_tokens (clear_rebind_prompt room now db) = db_tokens db"
  "db_tokens (record_attempt_finish t n f now db) = db_tokens db"
  "db_tokens (record_usage t n f now db) = db_tokens db"
  "db_tokens (persist_decided_outcome t n rep dec db) = db_tokens db"
  "db_tokens (record_completed_side_effects t n f now db) = db_tokens db"
  "db_tokens (store_result c res src now db) = db_tokens db"
  by (simp_all add: upsert_attempt_def insert_server_event_def insert_server_event_once_def
      cancel_lane_cards_def cancel_cards_where_def note_no_fallback_def update_card_def store_result_def result_bubble_def update_message_def
      insert_message_def clear_rebind_prompt_def record_usage_def update_lane_def record_attempt_finish_def
      persist_decided_outcome_def
      record_completed_side_effects_def consume_attempt_commands_def note_empty_turn_def Let_def split: option.split)

text \<open>A step that writes neither attempts nor tokens.\<close>

definition keeps_books :: "db \<Rightarrow> db \<Rightarrow> bool" where
  "keeps_books db db' \<longleftrightarrow> db_attempts db' = db_attempts db \<and> db_tokens db' = db_tokens db"

lemma update_task_books: "update_task i f db = Inr db' \<Longrightarrow> keeps_books db db'"
  using update_task_frames by (simp add: keeps_books_def)

lemma end_question_books: "end_question i lane now db = Inr (st, db') \<Longrightarrow> keeps_books db db'"
  by (auto simp: end_question_def keeps_books_def split: option.splits prod.splits bool.splits)

lemma fail_lane_books: "fail_lane t now db = Inr db' \<Longrightarrow> keeps_books db db'"
  by (auto simp: fail_lane_def keeps_books_def split: if_splits dest!: end_question_books)

lemma queue_follow_up_books: "queue_follow_up ended c now db = Inr (i, db') \<Longrightarrow> keeps_books db db'"
  by (auto simp: queue_follow_up_def Let_def insert_message_def insert_task_def keeps_books_def
      split: if_splits option.splits)

lemma card_gate_books:
  "card_gate req prev c db = Pass g db' \<or> card_gate req prev c db = Halt r db' \<Longrightarrow> keeps_books db db'"
  by (auto simp: card_gate_def keeps_books_def split: if_splits sum.splits dest!: queue_follow_up_books)

lemma gate_check_books:
  "gate_check req prev db = Pass g db' \<or> gate_check req prev db = Halt r db' \<Longrightarrow> keeps_books db db'"
  by (auto simp: gate_check_def intro: card_gate_books split: if_splits sum.splits option.splits
      dest!: end_question_books) (auto simp: keeps_books_def)

lemma mark_done_books:
  assumes "mark_done req db = Inr (res, db')"
  shows "keeps_books db db'"
proof (cases "get_lane (dq_lane req) db")
  case None
  with assms show ?thesis by (simp add: mark_done_def keeps_books_def)
next
  case (Some l)
  show ?thesis
  proof (cases "gate_check req (ln_status l) db")
    case (Pass g db1)
    with assms Some have "keeps_books db1 db'"
      by (auto simp: mark_done_def write_end_def Let_def keeps_books_def)
    moreover have "keeps_books db db1" using gate_check_books Pass by blast
    ultimately show ?thesis by (simp add: keeps_books_def)
  next
    case (Refuse e)
    with assms Some show ?thesis by (simp add: mark_done_def)
  next
    case (Halt r db1)
    with assms Some gate_check_books [of req "ln_status l" db _ db1 r] show ?thesis
      by (simp add: mark_done_def)
  qed
qed

lemma switch_profile_books: "switch_profile t d now db = Inr (t', db') \<Longrightarrow> keeps_books db db'"
  by (auto simp: switch_profile_def Let_def keeps_books_def dest!: update_task_frames split: if_splits)

lemma apply_profile_fallback_books: "apply_profile_fallback t why now db = Inr (d, t', db') \<Longrightarrow> keeps_books db db'"
  by (auto simp: apply_profile_fallback_def Let_def split: option.splits if_splits dest!: switch_profile_books)
    (auto simp: keeps_books_def)

lemma queue_again_books: "queue_again t nb now db = Inr (t', db') \<Longrightarrow> keeps_books db db'"
  by (auto simp: queue_again_def keeps_books_def dest!: update_task_frames)

lemma write_requeued_books: "write_requeued t why nb now db = Inr (t', db') \<Longrightarrow> keeps_books db db'"
  by (auto simp: write_requeued_def keeps_books_def split: if_splits
      dest!: queue_again_books apply_profile_fallback_books)

lemma write_failed_books: "write_failed t why now db = Inr (t', db') \<Longrightarrow> keeps_books db db'"
  by (auto simp: write_failed_def keeps_books_def dest!: update_task_frames fail_lane_books)

section \<open>The attempt's books are closed\<close>

definition attempt_closed :: "uuid \<Rightarrow> int \<Rightarrow> db \<Rightarrow> bool" where
  "attempt_closed i n db \<longleftrightarrow> (\<exists>a. get_attempt i n db = Some a \<and> ar_finished_at a \<noteq> None \<and> ar_outcome a \<noteq> None)"

definition revokes_token :: "uuid \<Rightarrow> int \<Rightarrow> db \<Rightarrow> db \<Rightarrow> bool" where
  "revokes_token i n db db' \<longleftrightarrow>
     (\<exists>now why. db_tokens db' = tbl_modify tn_key (i, n) (revoked_row now why) (db_tokens db))"

lemma closed_books: "keeps_books db db' \<Longrightarrow> attempt_closed i n db' = attempt_closed i n db"
  by (simp add: keeps_books_def attempt_closed_def get_attempt_def)

lemma closed_same: "db_attempts db' = db_attempts db \<Longrightarrow> attempt_closed i n db' = attempt_closed i n db"
  by (simp add: attempt_closed_def get_attempt_def)

lemma revokes_books: "revokes_token i n db db1 \<Longrightarrow> keeps_books db1 db' \<Longrightarrow> revokes_token i n db db'"
  by (simp add: revokes_token_def keeps_books_def)

lemma revoke_revokes: "revokes_token i n db (revoke i n why db)"
  unfolding revokes_token_def tokens_revoke by blast

lemma closed_upsert:
  assumes "attempt_closed i n db" and "\<And>r. ar_key (merge r) = ar_key r"
    and "\<And>r. ar_finished_at r \<noteq> None \<Longrightarrow> ar_outcome r \<noteq> None \<Longrightarrow> ar_finished_at (merge r) \<noteq> None \<and> ar_outcome (merge r) \<noteq> None"
  shows "attempt_closed i n (upsert_attempt new merge db)"
  using assms tbl_get_upsert [of ar_key merge new "db_attempts db" "(i, n)"]
  by (auto simp: attempt_closed_def get_attempt_def upsert_attempt_def split: option.splits)

lemma closed_finish: "attempt_closed (tk_id t) n (record_attempt_finish t n f now db)"
proof -
  let ?res = "resumed_flag (fr_resume_outcome f)"
  let ?new = "(blank_attempt (tk_id t) n)\<lparr>ar_runtime := tk_runtime t, ar_finished_at := Some now, ar_outcome := Some (fr_outcome f),
               ar_resumed := ?res, ar_stop_reason := Some (fr_stop_reason f)\<rparr>"
  let ?merge = "\<lambda>a. a\<lparr>ar_finished_at := Some now, ar_outcome := Some (fr_outcome f), ar_resumed := ?res,
                  ar_stop_reason := Some (fr_stop_reason f)\<rparr>"
  have "tbl_get ar_key (tbl_upsert ar_key ?new ?merge (db_attempts db)) (tk_id t, n) =
      Some (case tbl_get ar_key (db_attempts db) (tk_id t, n) of Some r \<Rightarrow> ?merge r | None \<Rightarrow> ?new)"
    using tbl_get_upsert [of ar_key ?merge ?new "db_attempts db" "(tk_id t, n)"]
    by (simp add: ar_key_def blank_attempt_def)
  then show ?thesis
    by (auto simp: attempt_closed_def get_attempt_def record_attempt_finish_def Let_def upsert_attempt_def split: option.split)
qed

lemma closed_persist: "attempt_closed i n db \<Longrightarrow> attempt_closed i n (persist_decided_outcome t n rep dec db)"
  by (auto simp: persist_decided_outcome_def attempt_closed_def get_attempt_def tbl_get_modify ar_key_def)

lemma apply_session_ref_books: "apply_session_ref t n f now db = Inr db' \<Longrightarrow> keeps_books db db'"
  by (auto simp: apply_session_ref_def Let_def keeps_books_def split: sum.splits option.splits)

lemma finish_records_books:
  assumes "finish_records t n f now db = Inr (d, db')"
  shows "attempt_closed (tk_id t) n db' \<and> db_tokens db' = db_tokens db"
proof -
  let ?db0 = "record_usage t n f now (record_attempt_finish t n f now db)"
  obtain db1 where sr: "apply_session_ref t n f now ?db0 = Inr db1"
    using assms by (auto simp: finish_records_def Let_def)
  let ?db2 = "persist_decided_outcome t n (fr_outcome f) (decide_finish_outcome t n f db1) db1"
  have db': "db_attempts db' = db_attempts ?db2 \<and> db_tokens db' = db_tokens ?db2"
    using assms sr by (auto simp: finish_records_def Let_def)
  have "attempt_closed (tk_id t) n ?db0"
    using closed_finish closed_same [of ?db0 "record_attempt_finish t n f now db"] by simp
  then have "attempt_closed (tk_id t) n db1" using closed_books [OF apply_session_ref_books [OF sr]] by simp
  then have "attempt_closed (tk_id t) n ?db2" by (rule closed_persist)
  moreover have "db_tokens db1 = db_tokens db" using apply_session_ref_books [OF sr] by (simp add: keeps_books_def)
  ultimately show ?thesis using db' closed_same [of db' ?db2] by simp
qed

text \<open>What a transition owes the books.\<close>

definition closes :: "task_row \<Rightarrow> int \<Rightarrow> db \<Rightarrow> db \<Rightarrow> bool" where
  "closes t n db db' \<longleftrightarrow> (attempt_closed (tk_id t) n db \<longrightarrow> attempt_closed (tk_id t) n db') \<and> revokes_token (tk_id t) n db db'"

lemma closes_books_after: "closes t n db db1 \<Longrightarrow> keeps_books db1 db' \<Longrightarrow> closes t n db db'"
  by (auto simp: closes_def closed_books intro: revokes_books)

lemma closes_books_before: "keeps_books db db1 \<Longrightarrow> closes t n db1 db' \<Longrightarrow> closes t n db db'"
  by (simp add: closes_def closed_books revokes_token_def) (simp add: keeps_books_def)

lemma closes_revoke: "closes t n db (revoke (tk_id t) n why db)"
  by (simp add: closes_def revoke_revokes closed_same [of "revoke (tk_id t) n why db" db])

lemma closes_upsert:
  assumes "\<And>r. ar_key (merge r) = ar_key r"
    and "\<And>r. ar_finished_at r \<noteq> None \<Longrightarrow> ar_outcome r \<noteq> None \<Longrightarrow> ar_finished_at (merge r) \<noteq> None \<and> ar_outcome (merge r) \<noteq> None"
    and "closes t n (upsert_attempt new merge db) db'"
  shows "closes t n db db'"
  using assms(3) closed_upsert [OF _ assms(1,2)] by (auto simp: closes_def revokes_token_def)

lemma cancel_locked_closes:
  assumes "cancel_locked t stop now db = Inr (t', db')"
  shows "closes t (tk_attempt t) db db'"
proof -
  let ?stop = "if stop = [] then None else Some stop"
  let ?new = "(blank_attempt (tk_id t) (tk_attempt t))
                    \<lparr>ar_runtime := tk_runtime t, ar_finished_at := Some now, ar_outcome := Some ''cancelled'',
                     ar_failure := Some FailCancelled, ar_stop_reason := ?stop\<rparr>"
  let ?merge = "\<lambda>a. a\<lparr>ar_finished_at := (case ar_finished_at a of None \<Rightarrow> Some now | Some v \<Rightarrow> Some v),
                        ar_outcome := Some ''cancelled'', ar_failure := Some FailCancelled,
                        ar_stop_reason := (case ar_stop_reason a of None \<Rightarrow> ?stop | Some v \<Rightarrow> Some v)\<rparr>"
  let ?f = "\<lambda>r. r\<lparr>tk_status := Cancelled, tk_failure := Some FailCancelled, tk_paused_reason := None,
               tk_paused_detail := None, tk_finished_at := Some now, tk_stop_reason := ?stop,
               tk_heartbeat_at := None, tk_updated_at := now\<rparr>"
  obtain db1 where up: "update_task (tk_id t) ?f db = Inr db1"
    using assms by (auto simp: cancel_locked_def Let_def)
  let ?db2 = "revoke (tk_id t) (tk_attempt t) ''cancelled'' (upsert_attempt ?new ?merge db1)"
  have after: "keeps_books ?db2 db'"
    using assms up
    by (cases "is_question t") (auto simp: cancel_locked_def Let_def lane_cast_def keeps_books_def
        split: if_splits option.splits dest!: end_question_books)
  have "closes t (tk_attempt t) (upsert_attempt ?new ?merge db1) ?db2" by (rule closes_revoke)
  then have "closes t (tk_attempt t) (upsert_attempt ?new ?merge db1) db'" using after by (rule closes_books_after)
  then have "closes t (tk_attempt t) db1 db'"
    by (rule closes_upsert [rotated 2]) (auto simp: ar_key_def split: option.split)
  with update_task_books [OF up] show ?thesis by (rule closes_books_before)
qed

lemma record_failed_closes:
  assumes "record_failed_attempt t why now (revoke (tk_id t) (tk_attempt t) word db) = Inr db'"
  shows "closes t (tk_attempt t) db db'"
proof -
  let ?db = "revoke (tk_id t) (tk_attempt t) word db"
  have "db_tokens db' = db_tokens ?db \<and> (attempt_closed (tk_id t) (tk_attempt t) ?db \<longrightarrow> attempt_closed (tk_id t) (tk_attempt t) db')"
    using assms by (auto simp: record_failed_attempt_def ar_key_def intro!: closed_upsert)
  with closes_revoke [of t "tk_attempt t" db word] show ?thesis
    by (auto simp: closes_def revokes_token_def)
qed

lemma requeue_locked_closes:
  assumes "requeue_locked t why nb now db = Inr (t', db')" and "\<not> terminal (tk_status t)"
  shows "closes t (tk_attempt t) db db'"
  using assms(1)
proof (cases rule: requeue_locked_cases)
  case done_already
  with assms(2) show ?thesis by simp
next
  case absorbed
  then show ?thesis by (simp add: cancel_locked_closes)
next
  case (again db1)
  then show ?thesis using record_failed_closes write_requeued_books closes_books_after by meson
next
  case (given_up db1)
  then show ?thesis using record_failed_closes write_failed_books closes_books_after by meson
qed

lemma waiting_human_closes: "waiting_human_locked t n now db = Inr (t', db') \<Longrightarrow> closes t n db db'"
proof -
  assume w: "waiting_human_locked t n now db = Inr (t', db')"
  then obtain x f db1 where up: "update_task (tk_id t) f db = Inr db1"
    and db': "keeps_books (revoke (tk_id t) n ''waiting_human'' db1) db'"
    by (auto simp: waiting_human_locked_def keeps_books_def)
  from closes_books_after [OF closes_revoke db'] closes_books_before [OF update_task_books [OF up]] show ?thesis by blast
qed

lemma finish_paused_budget_closes: "finish_paused_budget t n now db = Inr db' \<Longrightarrow> closes t n db db'"
proof -
  assume w: "finish_paused_budget t n now db = Inr db'"
  then obtain f db1 where up: "update_task (tk_id t) f db = Inr db1"
    and db': "keeps_books (revoke (tk_id t) n ''paused'' db1) db'"
    by (auto simp: finish_paused_budget_def keeps_books_def Let_def)
  from closes_books_after [OF closes_revoke db'] closes_books_before [OF update_task_books [OF up]] show ?thesis by blast
qed

lemma finish_completed_closes: "finish_completed t n f now db = Inr (t', ends, db') \<Longrightarrow> closes t n db db'"
proof -
  assume w: "finish_completed t n f now db = Inr (t', ends, db')"
  then obtain g req db1 res db2 where up: "update_task (tk_id t) g db = Inr db1"
    and md: "mark_done req (revoke (tk_id t) n ''completed'' db1) = Inr (res, db2)"
    and db': "db' = clear_rebind_prompt (tk_room t) now db2"
    by (auto simp: finish_completed_def)
  have "keeps_books (revoke (tk_id t) n ''completed'' db1) db'"
    using mark_done_books [OF md] by (simp add: db' keeps_books_def)
  from closes_books_after [OF closes_revoke this] closes_books_before [OF update_task_books [OF up]] show ?thesis by blast
qed

lemma finish_switch_closes:
  assumes "finish_switch t (tk_attempt t) f d now db = Inr (t', ends, db')" and "\<not> terminal (tk_status t)"
  shows "closes t (tk_attempt t) db db'"
  using assms cancel_locked_closes [of t _ now db t' db'] requeue_locked_closes [of t _ _ now db t' db']
    waiting_human_closes [of t "tk_attempt t" now db t' db'] finish_completed_closes [of t "tk_attempt t" f now db t' ends db']
    finish_paused_budget_closes [of t "tk_attempt t" now db db']
  by (auto simp: finish_switch_def split: if_splits option.splits)

section \<open>Properties of the finish report\<close>

lemma seen_new_iff:
  "finish_idempotency_check t n db = SeenNew \<longleftrightarrow> n = tk_attempt t \<and> \<not> terminal (tk_status t)
     \<and> (case get_attempt (tk_id t) n db of None \<Rightarrow> True | Some a \<Rightarrow> ar_finished_at a = None)"
  by (auto simp: finish_idempotency_check_def Let_def split: option.splits)

lemma closed_is_seen: "attempt_closed (tk_id t) n db \<Longrightarrow> \<exists>st costed. finish_idempotency_check t n db = SeenDone st costed"
  by (auto simp: finish_idempotency_check_def attempt_closed_def Let_def split: option.splits)

lemma finish_of_seen:
  "get_task i db = Some t \<Longrightarrow> finish_idempotency_check t n db = SeenDone st costed \<Longrightarrow> finish i n f db = Inr (st, [], db)"
  by (simp add: finish_def Let_def lock_task_def)

lemma fresh_finish_closes:
  assumes "get_task i db = Some t" and "finish_idempotency_check t n db = SeenNew"
    and "finish_records t n f now db = Inr (d, db1)" and "finish_switch t n f d now db1 = Inr (t', ends, db')"
  shows "attempt_closed i n db' \<and> revokes_token i n db db'"
proof -
  note new = assms(2) [unfolded seen_new_iff]
  have i: "tk_id t = i" using assms(1) by (rule get_task_id)
  have "closes t n db1 db'" using finish_switch_closes [of t f d now db1 t' ends db'] assms(4) new by simp
  with finish_records_books [OF assms(3)] show ?thesis by (simp add: closes_def i revokes_token_def)
qed

text \<open>
  A daemon may repeat its end-of-attempt report as often as it likes, with whatever contents:
  after one report was accepted, a further report for the same attempt is answered and changes
  nothing at all - no second requeue, no second charge, no event.
\<close>

theorem finish_idempotent:
  assumes "tasks_wf db" and "finish i n f db = Inr (st, ends, db')"
  shows "\<exists>st'. finish i n g db' = Inr (st', [], db')"
  using assms(2)
proof (cases rule: finish_Inr_cases)
  case (seen t costed)
  then show ?thesis by (auto simp: finish_of_seen)
next
  case (fresh t t' d db1)
  obtain t2 where t2: "get_task i db' = Some t2"
    using finish_advances [OF assms(2)] assms(1) fresh(1) by (auto simp: advances_def lives_on_def)
  moreover have "attempt_closed (tk_id t2) n db'"
    using fresh_finish_closes [OF fresh(1-4)] get_task_id [OF t2] by simp
  ultimately show ?thesis using closed_is_seen finish_of_seen by meson
qed

text \<open>
  An ended attempt has no credentials: whatever the report says and however the server decides,
  the token of the attempt it ends is revoked in the same transaction.
\<close>

theorem finish_kills_token:
  assumes "get_task i db = Some t" and "finish_idempotency_check t n db = SeenNew"
    and "finish i n f db = Inr (st, ends, db')"
  shows "case get_token i n db' of None \<Rightarrow> get_token i n db = None | Some r \<Rightarrow> tn_revoked_at r \<noteq> None"
  using assms(3)
proof (cases rule: finish_Inr_cases)
  case (seen t' costed)
  with assms(1,2) show ?thesis by simp
next
  case (fresh u t' d db1)
  obtain now why where "db_tokens db' = tbl_modify tn_key (i, n) (revoked_row now why) (db_tokens db)"
    using fresh_finish_closes [OF fresh(1-4)] by (auto simp: revokes_token_def)
  then show ?thesis
    by (cases "tbl_get tn_key (db_tokens db) (i, n)") (simp_all add: get_token_def tbl_get_modify)
qed

text \<open>
  The server, not the daemon, decides, and it answers what it stored: the text returned for the
  task's current attempt is the status the task row has after the report.
\<close>

theorem finish_answers_stored_status:
  assumes "get_task i db = Some t" and "finish i (tk_attempt t) f db = Inr (st, ends, db')"
  shows "\<exists>t'. get_task i db' = Some t' \<and> st = status_text (tk_status t')"
  using assms(2)
proof (cases rule: finish_Inr_cases)
  case (seen u costed)
  with assms(1) show ?thesis
    by (auto simp: finish_idempotency_check_def Let_def split: if_splits)
next
  case (fresh u t' d db1)
  have "ends_at u db t' db'" using fresh(1,3,4) by (rule finish_fresh_runs)
  with get_task_id [OF fresh(1)] show ?thesis
    by (auto simp: ends_at_def in_sync_def view_def fresh(5))
qed

text \<open>
  A report is about one task: whatever it does to its own task, every other task of the server
  keeps its row exactly as it was.
\<close>

theorem finish_touches_one_task:
  assumes "finish i n f db = Inr (st, ends, db')" and "get_task j db = Some u" and "j \<noteq> i"
  shows "get_task j db' = Some u"
  using assms(1)
proof (cases rule: finish_Inr_cases)
  case (seen t costed)
  with assms(2) show ?thesis by simp
next
  case (fresh t t' d db1)
  then have "ends_at t db t' db'" by (intro finish_fresh_runs)
  with assms(2,3) get_task_id [OF fresh(1)] show ?thesis by (simp add: ends_at_def)
qed

section \<open>Where each report leads\<close>

text \<open>The decision table of daemon-protocol 4.4 with the cancels in force for the attempt.\<close>

definition expected_end :: "task_row \<Rightarrow> finish_report \<Rightarrow> command_row list \<Rightarrow> task_status" where
  "expected_end t f cancels =
     (if fr_outcome f = ''completed'' then (if tk_pending_hitl t then WaitingHuman else Completed)
      else if list_ex (\<lambda>c. cm_reason (dc_payload c) \<noteq> ''budget'') cancels then Cancelled
      else if fr_outcome f = ''cancelled'' then (if cancels = [] then Cancelled else Paused)
      else if fr_outcome f = ''paused_budget'' then Paused
      else if cancels \<noteq> [] then Cancelled
      else if retryable (case fr_failure f of None \<Rightarrow> FailOther | Some k \<Rightarrow> k)
              \<and> tk_attempt t < (if tk_max_attempts t \<le> 0 then 3 else tk_max_attempts t) then Queued
      else Failed)"

lemma commands_frames [keeps, simp]:
  "db_commands (record_attempt_finish t n f now db) = db_commands db"
  "db_commands (record_usage t n f now db) = db_commands db"
  "db_commands (persist_decided_outcome t n rep dec db) = db_commands db"
  by (simp_all add: record_attempt_finish_def record_usage_def persist_decided_outcome_def upsert_attempt_def Let_def)

lemma apply_session_ref_commands: "apply_session_ref t n f now db = Inr db' \<Longrightarrow> db_commands db' = db_commands db"
  by (auto simp: apply_session_ref_def Let_def update_lane_def split: sum.splits option.splits)

lemma cancels_of_same: "db_commands db' = db_commands db \<Longrightarrow> cancels_of i n db' = cancels_of i n db"
  by (simp add: cancels_of_def)

lemma decide_same:
  "db_commands db' = db_commands db \<Longrightarrow> decide_finish_outcome t n f db' = decide_finish_outcome t n f db"
  using cancels_of_same [of db' db]
  by (simp add: decide_finish_outcome_def non_budget_cancel_requested_def budget_only_cancel_requested_def Let_def)

lemma finish_records_decision:
  assumes "finish_records t n f now db = Inr (d, db')"
  shows "d = decide_finish_outcome t n f db"
    and "d \<noteq> ''completed'' \<Longrightarrow> cancel_requested i m db' = cancel_requested i m db"
proof -
  let ?db0 = "record_usage t n f now (record_attempt_finish t n f now db)"
  obtain db1 where sr: "apply_session_ref t n f now ?db0 = Inr db1"
    using assms by (auto simp: finish_records_def Let_def)
  then have c: "db_commands db1 = db_commands db" using apply_session_ref_commands by fastforce
  show d: "d = decide_finish_outcome t n f db"
    using assms sr decide_same [OF c] by (simp add: finish_records_def Let_def)
  assume "d \<noteq> ''completed''"
  then have "db_commands db' = db_commands db"
    using assms sr c by (auto simp: finish_records_def Let_def)
  then have "cancels_of i m db' = cancels_of i m db" by (rule cancels_of_same)
  then show "cancel_requested i m db' = cancel_requested i m db"
    by (simp add: cancel_requested_def)
qed

lemma filter_all: "length xs = length (filter P xs) \<longleftrightarrow> \<not> list_ex (\<lambda>x. \<not> P x) xs"
proof -
  have "length xs = length (filter P xs) \<longleftrightarrow> filter (\<lambda>x. \<not> P x) xs = []"
    using sum_length_filter_compl [of P xs] by (metis add_cancel_right_right length_0_conv)
  then show ?thesis by (auto simp: list_ex_iff filter_empty_conv)
qed

lemma decide_exact:
  "decide_finish_outcome t n f db =
     (if fr_outcome f \<noteq> ''completed'' \<and> list_ex (\<lambda>c. cm_reason (dc_payload c) \<noteq> ''budget'') (cancels_of (tk_id t) n db) then ''cancelled''
      else if fr_outcome f = ''cancelled'' \<and> cancels_of (tk_id t) n db \<noteq> [] then ''paused_budget''
      else fr_outcome f)"
  unfolding decide_finish_outcome_def non_budget_cancel_requested_def budget_only_cancel_requested_def Let_def filter_all
  by auto

lemma requeue_plan:
  "ap_task_status (plan_attempt (requeue_input t (cause_of_failure k))) =
     (if retryable k \<and> tk_attempt t < (if tk_max_attempts t \<le> 0 then 3 else tk_max_attempts t) then Queued else Failed)"
proof -
  have c: "ai_cause (requeue_input t (cause_of_failure k)) \<noteq> CauseRestart"
    by (simp add: requeue_input_def cause_of_failure.simps)
  show ?thesis
    unfolding plan_attempt_status(1) [OF c]
    by (cases k) (auto simp: requeue_input_def cause_of_failure.simps effective_max_def)
qed

lemma requeue_locked_status:
  assumes "requeue_locked t why nb now db = Inr (t', db')" and "in_sync t db" and "\<not> terminal (tk_status t)"
  shows "tk_status t' = (if cancel_requested (tk_id t) (tk_attempt t) db then Cancelled
           else if retryable why \<and> tk_attempt t < (if tk_max_attempts t \<le> 0 then 3 else tk_max_attempts t) then Queued
           else Failed)"
  using assms(1)
proof (cases rule: requeue_locked_cases)
  case absorbed
  with cancel_locked_runs(2) [OF absorbed(3) assms(2)] show ?thesis by simp
next
  case (again db1)
  then have "db_tasks db1 = db_tasks db" by (auto dest!: record_failed_attempt_frame)
  with assms(2) in_sync_frame [of db1 db t] write_requeued_runs [OF again(5)] again(2,4) show ?thesis
    unfolding requeue_plan by (auto split: if_splits)
next
  case (given_up db1)
  then have "db_tasks db1 = db_tasks db" by (auto dest!: record_failed_attempt_frame)
  with assms(2) in_sync_frame [of db1 db t] write_failed_runs [OF given_up(5)] given_up(2,4) show ?thesis
    unfolding requeue_plan by (auto split: if_splits)
qed (use assms(3) in simp)

lemma finish_completed_status:
  assumes "finish_completed t n f now db = Inr (t', ends, db')" and "in_sync t db"
  shows "tk_status t' = Completed \<and> tk_attempt t' = tk_attempt t"
  by (rule finish_completed_steps [OF assms]) simp

lemma finish_switch_status:
  assumes "finish_switch t (tk_attempt t) f d now db = Inr (t', ends, db')" and "in_sync t db" and "\<not> terminal (tk_status t)"
  shows "tk_status t' = (if d = ''completed'' then (if tk_pending_hitl t then WaitingHuman else Completed)
      else if d = ''cancelled'' then Cancelled
      else if d = ''paused_budget'' then Paused
      else if cancel_requested (tk_id t) (tk_attempt t) db then Cancelled
      else if retryable (case fr_failure f of None \<Rightarrow> FailOther | Some k \<Rightarrow> k)
              \<and> tk_attempt t < (if tk_max_attempts t \<le> 0 then 3 else tk_max_attempts t) then Queued
      else Failed)
    \<and> tk_attempt t' = tk_attempt t + (if tk_status t' = Queued then 1 else 0)"
proof (cases "d = ''completed''")
  case True
  show ?thesis
  proof (cases "tk_pending_hitl t")
    case pending: True
    with True assms(1) have "waiting_human_locked t (tk_attempt t) now db = Inr (t', db')"
      by (auto simp: finish_switch_def)
    from waiting_human_runs [OF this assms(2)] True pending show ?thesis by simp
  next
    case False
    with True assms(1) have "finish_completed t (tk_attempt t) f now db = Inr (t', ends, db')"
      by (simp add: finish_switch_def)
    from finish_completed_status [OF this assms(2)] True False show ?thesis by simp
  qed
next
  case completed: False
  show ?thesis
  proof (cases "d = ''cancelled''")
    case True
    with assms(1) have "cancel_locked t (fr_stop_reason f) now db = Inr (t', db')"
      by (auto simp: finish_switch_def)
    from cancel_locked_runs(2,3) [OF this assms(2)] True show ?thesis by simp
  next
    case cancelled: False
    show ?thesis
    proof (cases "d = ''paused_budget''")
      case True
      with assms(1) have "t' = t\<lparr>tk_status := Paused\<rparr>"
        by (auto simp: finish_switch_def)
      with True show ?thesis by simp
    next
      case False
      let ?k = "case fr_failure f of None \<Rightarrow> FailOther | Some k \<Rightarrow> k"
      from False assms(1) completed cancelled have "requeue_locked t ?k (fr_not_before f) now db = Inr (t', db')"
        by (auto simp: finish_switch_def)
      from requeue_locked_status [OF this assms(2,3)] requeue_locked_runs [OF this assms(2)] completed cancelled False assms(3)
      show ?thesis by simp
    qed
  qed
qed

text \<open>
  C7 Where a report leads, for every report and every set of cancels in force: a completed turn is
  completed (or waits for the human it asked) even when a cancel raced it; otherwise a stop somebody
  other than the budget asked for ends the task as cancelled; the budget's own stop leaves it paused
  and resumable; and a failure is retried only without a stop, for a retryable kind, below the
  attempt limit.
\<close>

theorem finish_leads_to:
  assumes "get_task i db = Some t" and "finish_idempotency_check t n db = SeenNew"
    and "finish i n f db = Inr (st, ends, db')"
  shows "\<exists>t'. get_task i db' = Some t' \<and> st = status_text (tk_status t')
           \<and> tk_status t' = expected_end t f (cancels_of i n db)
           \<and> tk_attempt t' = tk_attempt t + (if tk_status t' = Queued then 1 else 0)"
  using assms(3)
proof (cases rule: finish_Inr_cases)
  case (seen u costed)
  with assms(1,2) show ?thesis by simp
next
  case (fresh u t' d db1)
  with assms(1,2) have u: "u = t" and new: "n = tk_attempt t" "\<not> terminal (tk_status t)"
    by (auto simp: seen_new_iff)
  have i: "tk_id t = i" using assms(1) by (rule get_task_id)
  have r: "ends_at t db t' db'" using finish_fresh_runs [OF fresh(1,3,4)] u by simp
  then obtain t2 where t2: "get_task i db' = Some t2" "tk_status t2 = tk_status t'" "tk_attempt t2 = tk_attempt t'"
    by (auto simp: ends_at_def in_sync_def view_def i)
  have "in_sync t db" using assms(1) by (auto simp: in_sync_def i)
  then have "in_sync t db1"
    using in_sync_frame [OF conjunct1 [OF finish_records_frame [OF fresh(3)]], of t] by simp
  note st = finish_switch_status [OF fresh(4) [unfolded u new(1)] this new(2)]
  note d = finish_records_decision [OF fresh(3), unfolded decide_exact]
  have "tk_status t' = expected_end t f (cancels_of i n db)"
    using st d(1) d(2) [of i n] by (auto simp: u new(1) expected_end_def i cancel_requested_def list_ex_iff)
  with st have "tk_status t' = expected_end t f (cancels_of i n db)
      \<and> tk_attempt t' = tk_attempt t + (if tk_status t' = Queued then 1 else 0)" by simp
  with t2 fresh(5) show ?thesis by auto
qed

text \<open>
  A turn that ends while its task is being paused is refused: the task machine has no edge from
  paused to completed, so the report of a finished turn fails with an invalid transition and, being
  one transaction, records neither the outcome, the usage nor the session to resume.
\<close>

theorem completed_report_on_paused_task:
  assumes "get_task i db = Some t" and "tk_status t = Paused" and "finish_idempotency_check t n db = SeenNew"
    and "fr_outcome f = ''completed''" and "fr_ref f = None"
  shows "finish i n f db = Inl (ErrInvalidTransition Paused (if tk_pending_hitl t then WaitingHuman else Completed))
    \<and> in_tx (serve hash (ReqFinish i n f)) db = db"
proof -
  let ?now = "db_clock db"
  have ref: "apply_session_ref t n f ?now x = Inr x" for x
    using assms(5) by (simp add: apply_session_ref_def validate_session_ref_def)
  obtain d x where r: "finish_records t n f ?now db = Inr (d, x)"
    by (simp add: finish_records_def Let_def ref)
  with finish_records_decision(1) [OF r] have d: "d = ''completed''"
    by (simp add: decide_exact assms(4))
  have "finish_switch t n f d ?now x = Inl (ErrInvalidTransition Paused (if tk_pending_hitl t then WaitingHuman else Completed))"
    by (simp add: d finish_switch_def waiting_human_locked_def finish_completed_def transition_def assms(2))
  with assms(1,3) r have "finish i n f db = Inl (ErrInvalidTransition Paused (if tk_pending_hitl t then WaitingHuman else Completed))"
    by (simp add: finish_def Let_def lock_task_def)
  then show ?thesis by (simp add: in_tx_def storeE_def)
qed

section \<open>Witnesses\<close>

lemma sample_finishes: "\<exists>ends db'. finish 1 1 sample_report sample_db = Inr (''completed'', ends, db')"
proof -
  have "case finish 1 1 sample_report sample_db of Inl e \<Rightarrow> False | Inr (st, ends, db') \<Rightarrow> st = ''completed''"
    by code_simp
  then show ?thesis by (auto split: sum.splits)
qed

lemma sample_open: "finish_idempotency_check sample_task 1 sample_db = SeenNew"
  by code_simp

definition failed_report :: finish_report where
  "failed_report = sample_report\<lparr>fr_outcome := ''failed'', fr_failure := Some FailNetwork\<rparr>"

theorem finish_idempotent_witness:
  "\<exists>st ends db' st'. finish 1 1 sample_report sample_db = Inr (st, ends, db') \<and> finish 1 1 failed_report db' = Inr (st', [], db')"
  using sample_finishes finish_idempotent [OF sample_wf, of 1 1 sample_report _ _ _ failed_report] by blast

theorem finish_kills_token_witness:
  "\<exists>st ends db'. finish 1 1 sample_report sample_db = Inr (st, ends, db')
     \<and> (case get_token 1 1 db' of None \<Rightarrow> get_token 1 1 sample_db = None | Some r \<Rightarrow> tn_revoked_at r \<noteq> None)"
  using sample_finishes finish_kills_token [OF sample_gets(1) sample_open, of sample_report] by blast

theorem finish_answers_stored_status_witness:
  "\<exists>ends db' t'. finish 1 1 sample_report sample_db = Inr (''completed'', ends, db') \<and> get_task 1 db' = Some t'
     \<and> status_text (tk_status t') = ''completed''"
proof -
  obtain ends db' where f: "finish 1 1 sample_report sample_db = Inr (''completed'', ends, db')"
    using sample_finishes by blast
  moreover from f have "finish 1 (tk_attempt sample_task) sample_report sample_db = Inr (''completed'', ends, db')"
    by (simp add: sample_task_def)
  from finish_answers_stored_status [OF sample_gets(1) this]
  obtain t' where "get_task 1 db' = Some t'" "status_text (tk_status t') = ''completed''" by metis
  ultimately show ?thesis by blast
qed

theorem finish_leads_to_witness:
  "\<exists>ends db' t'. finish 1 1 sample_report sample_db = Inr (''completed'', ends, db') \<and> get_task 1 db' = Some t'
     \<and> tk_status t' = expected_end sample_task sample_report (cancels_of 1 1 sample_db)"
  using sample_finishes finish_leads_to [OF sample_gets(1) sample_open, of sample_report] by blast

definition paused_db :: db where
  "paused_db = sample_db\<lparr>db_tasks := [sample_task\<lparr>tk_status := Paused, tk_paused_reason := Some ''director''\<rparr>]\<rparr>"

theorem completed_report_on_paused_task_witness:
  "finish 1 1 sample_report paused_db = Inl (ErrInvalidTransition Paused Completed)"
  using completed_report_on_paused_task [of 1 paused_db "sample_task\<lparr>tk_status := Paused, tk_paused_reason := Some ''director''\<rparr>" 1 sample_report]
  by (simp add: paused_db_def sample_db_def sample_task_def sample_report_def get_task_def seen_new_iff get_attempt_def
      blank_attempt_def ar_key_def)

definition two_tasks :: db where
  "two_tasks = sample_db\<lparr>db_tasks := [sample_task, sample_task\<lparr>tk_id := 4\<rparr>]\<rparr>"

theorem finish_touches_one_task_witness:
  "\<exists>st ends db'. finish 1 1 failed_report two_tasks = Inr (st, ends, db') \<and> get_task 4 db' = Some (sample_task\<lparr>tk_id := 4\<rparr>)"
proof -
  have "case finish 1 1 failed_report two_tasks of Inl e \<Rightarrow> False | Inr r \<Rightarrow> True" by code_simp
  then obtain st ends db' where f: "finish 1 1 failed_report two_tasks = Inr (st, ends, db')"
    by (auto split: sum.splits)
  have "get_task 4 two_tasks = Some (sample_task\<lparr>tk_id := 4\<rparr>)"
    by (simp add: two_tasks_def sample_task_def get_task_def)
  from finish_touches_one_task [OF f this] f show ?thesis by auto
qed

end
