(* ===== verification/Stale_Sweep.thy ===== *)
theory Stale_Sweep
  imports Task_Guarantees
begin

text \<open>
  The stale sweep runs to its end on every well-formed store and leaves no attempt hanging. The
  foreign keys the sweep reads through (a task's lane, a profile's fallback) are \<open>refs_ok\<close>.
\<close>

section \<open>References between tables\<close>

definition refs_ok :: "db \<Rightarrow> bool" where
  "refs_ok db \<longleftrightarrow> (\<forall>t \<in> set (db_tasks db). get_lane (tk_lane t) db \<noteq> None)
     \<and> (\<forall>p \<in> set (db_profiles db). case pf_fallback p of None \<Rightarrow> True | Some f \<Rightarrow> tbl_get pf_id (db_profiles db) f \<noteq> None)"

definition same_refs :: "db \<Rightarrow> db \<Rightarrow> bool" where
  "same_refs db db' \<longleftrightarrow> map ln_id (db_lanes db') = map ln_id (db_lanes db) \<and> db_profiles db' = db_profiles db
     \<and> map (\<lambda>t. (tk_id t, tk_lane t)) (db_tasks db') = map (\<lambda>t. (tk_id t, tk_lane t)) (db_tasks db)"

lemma same_refs_refl [simp]: "same_refs db db"
  by (simp add: same_refs_def)

lemma same_refs_trans: "same_refs a b \<Longrightarrow> same_refs b c \<Longrightarrow> same_refs a c"
  by (simp add: same_refs_def)

lemma same_refs_frame:
  "db_lanes db' = db_lanes db \<Longrightarrow> db_profiles db' = db_profiles db \<Longrightarrow> db_tasks db' = db_tasks db \<Longrightarrow> same_refs db db'"
  by (simp add: same_refs_def)

lemma get_lane_None_iff: "get_lane i db = None \<longleftrightarrow> i \<notin> set (map ln_id (db_lanes db))"
  by (auto simp: get_lane_def tbl_get_None_iff)

lemma map_snd_set: "map f xs = map f ys \<Longrightarrow> x \<in> set xs \<Longrightarrow> \<exists>y \<in> set ys. f x = f y"
  by (metis image_eqI image_iff list.set_map)

lemma refs_ok_same: "refs_ok db \<Longrightarrow> same_refs db db' \<Longrightarrow> refs_ok db'"
proof -
  assume r: "refs_ok db" and s: "same_refs db db'"
  have "get_lane (tk_lane t) db' \<noteq> None" if t: "t \<in> set (db_tasks db')" for t
  proof -
    obtain u where u: "u \<in> set (db_tasks db)" "tk_lane u = tk_lane t"
      using map_snd_set [OF _ t, of "\<lambda>t. (tk_id t, tk_lane t)" "db_tasks db"] s by (auto simp: same_refs_def)
    from r u(1) have "get_lane (tk_lane u) db \<noteq> None" by (simp add: refs_ok_def)
    with s u(2) show ?thesis unfolding get_lane_None_iff same_refs_def by simp
  qed
  then have lanes: "\<forall>t \<in> set (db_tasks db'). get_lane (tk_lane t) db' \<noteq> None" by blast
  have prof: "db_profiles db' = db_profiles db" using s by (simp add: same_refs_def)
  show ?thesis unfolding refs_ok_def prof using r lanes by (simp add: refs_ok_def)
qed

lemma update_task_refs:
  assumes "update_task i f db = Inr db'" and "\<And>t. tk_id (f t) = tk_id t \<and> tk_lane (f t) = tk_lane t"
  shows "same_refs db db'"
proof -
  have "db' = db\<lparr>db_tasks := tbl_modify tk_id i f (db_tasks db)\<rparr>"
    using assms(2) by (intro update_task_Inr(1) [OF assms(1)]) simp
  then show ?thesis using assms(2) by (simp add: same_refs_def map_modify_same)
qed

lemma update_lane_refs: "(\<And>l. ln_id (f l) = ln_id l) \<Longrightarrow> same_refs db (update_lane j p f db)"
  by (simp add: same_refs_def update_lane_def tbl_upd_def)

lemma end_question_refs: "end_question i lane now db = Inr (st, db') \<Longrightarrow> same_refs db db'"
  by (auto simp: end_question_def split: option.splits prod.splits bool.splits intro!: update_lane_refs)

lemma cancel_lane_cards_refs: "same_refs db (cancel_lane_cards lane now db')
    \<longleftrightarrow> same_refs db db'"
  by (simp add: same_refs_def)

lemma fail_lane_refs: "fail_lane t now db = Inr db' \<Longrightarrow> same_refs db db'"
  by (auto simp: fail_lane_def cancel_lane_cards_refs split: if_splits intro!: update_lane_refs dest!: end_question_refs)

lemma books_refs:
  "same_refs db (revoke i n why db')  \<longleftrightarrow> same_refs db db'"
  "same_refs db (upsert_attempt a merge db')  \<longleftrightarrow> same_refs db db'"
  "same_refs db (note_no_fallback t now db')  \<longleftrightarrow> same_refs db db'"
  by (simp_all add: same_refs_def)

lemma lane_write_refs:
  "(\<And>l. ln_id (f l) = ln_id l) \<Longrightarrow> same_refs db (update_lane j p f db') \<longleftrightarrow> same_refs db db'"
  using update_lane_refs [of f db' j p] by (simp add: same_refs_def)

section \<open>Progress\<close>

text \<open>Each step of the sweep succeeds on a well-formed store with its references.\<close>

lemma row_of_sync:
  assumes "tasks_wf db" and "in_sync t db"
  obtains r where "get_task (tk_id t) db = Some r" and "view r = view t" and "task_check r"
proof -
  obtain r where r: "get_task (tk_id t) db = Some r" "view r = view t" using assms(2) by (auto simp: in_sync_def)
  then have "r \<in> set (db_tasks db)" unfolding get_task_def by (auto intro: tbl_get_Some_in)
  with assms(1) r that show ?thesis by (simp add: tasks_wf_def)
qed

lemma update_sync_total:
  assumes "tasks_wf db" and "in_sync t db"
    and "\<And>r. task_check r \<Longrightarrow> view r = view t \<Longrightarrow> task_check (f r)"
  shows "\<not> isl (update_task (tk_id t) f db)"
  by (rule row_of_sync [OF assms(1,2)]) (simp add: update_task_def assms(3))

definition lane_there :: "task_row \<Rightarrow> db \<Rightarrow> bool" where
  "lane_there t db \<longleftrightarrow> tk_lane t \<in> set (map ln_id (db_lanes db))"

lemma lane_there_same: "same_refs db db' \<Longrightarrow> lane_there t db' = lane_there t db"
  unfolding same_refs_def lane_there_def by metis

lemma end_question_total: "lane_there t db \<Longrightarrow> \<not> isl (end_question i (tk_lane t) now db)"
  using get_lane_None_iff [of "tk_lane t" db]
  by (auto simp: end_question_def lane_there_def split: option.splits prod.splits bool.splits)

lemma fail_lane_total: "lane_there t db \<Longrightarrow> \<not> isl (fail_lane t now db)"
  using end_question_total by (simp add: fail_lane_def isl_bindE split_beta)

lemma projr_Inr: "\<not> isl m \<Longrightarrow> m = Inr (projr m)"
  by (cases m) simp_all

lemma cancel_locked_total:
  assumes "tasks_wf db" and "in_sync t db" and "can_transition (tk_status t) Cancelled" and "lane_there t db"
  shows "\<not> isl (cancel_locked t stop now db)"
proof -
  let ?stop = "if stop = [] then None else Some stop"
  let ?f = "\<lambda>r. r\<lparr>tk_status := Cancelled, tk_failure := Some FailCancelled, tk_paused_reason := None,
               tk_paused_detail := None, tk_finished_at := Some now, tk_stop_reason := ?stop,
               tk_heartbeat_at := None, tk_updated_at := now\<rparr>"
  have "\<not> isl (update_task (tk_id t) ?f db)"
    by (rule update_sync_total [OF assms(1,2)]) (auto simp: task_check_def)
  then obtain db1 where up: "update_task (tk_id t) ?f db = Inr db1" by (metis projr_Inr)
  have lane: "lane_there t (revoke i n why (upsert_attempt a merge db1))" for i n why a merge
    using update_task_rest [OF up] assms(4) by (simp add: lane_there_def)
  show ?thesis
    using assms(3) up end_question_total [OF lane, of _ now]
    by (simp add: cancel_locked_def Let_def transition_def lane_cast_def plan_cancel_result_def isl_bindE split_beta)
qed

lemma write_failed_total:
  assumes "tasks_wf db" and "in_sync t db" and "can_transition (tk_status t) Failed" and "lane_there t db" and "listed_failure why"
  shows "\<not> isl (write_failed t why now db)"
proof -
  let ?f = "\<lambda>r. r\<lparr>tk_status := Failed, tk_failure := Some why, tk_finished_at := Some now,
              tk_heartbeat_at := None, tk_updated_at := now\<rparr>"
  have "tk_status t \<noteq> Paused" using assms(3) by auto
  then have "\<not> isl (update_task (tk_id t) ?f db)"
    by (intro update_sync_total [OF assms(1,2)]) (auto simp: task_check_def view_def)
  then obtain db1 where up: "update_task (tk_id t) ?f db = Inr db1" by (metis projr_Inr)
  have "lane_there t db1" using update_task_rest [OF up] assms(4) by (simp add: lane_there_def)
  from fail_lane_total [OF this, of now] assms(3,5) up show ?thesis
    by (simp add: write_failed_def transition_def failure_cast_def isl_bindE)
qed

lemma fallback_kind_total:
  assumes "refs_ok db" and "tbl_get pf_id (db_profiles db) i = Some p"
  shows "\<not> isl (fallback_kind p db)"
  using assms tbl_get_Some_in [OF assms(2)]
  by (auto simp: refs_ok_def fallback_kind_def split: option.splits)

lemma switch_profile_total:
  assumes "tasks_wf db" and "in_sync t db"
  shows "\<not> isl (switch_profile t d now db)"
proof -
  let ?f = "\<lambda>r. r\<lparr>tk_profile := fd_profile d, tk_updated_at := now\<rparr>"
  have "\<not> isl (update_task (tk_id t) ?f db)"
    by (rule update_sync_total [OF assms]) (simp add: task_check_def)
  then show ?thesis by (simp add: switch_profile_def isl_bindE Let_def)
qed

lemma apply_profile_fallback_total:
  assumes "tasks_wf db" and "in_sync t db" and "refs_ok db"
  shows "\<not> isl (apply_profile_fallback t why now db)"
  using fallback_kind_total [OF assms(3), of "tk_profile t"] switch_profile_total [OF assms(1,2)]
  by (auto simp: apply_profile_fallback_def isl_bindE Let_def split_beta split: option.split)

lemma queue_again_total:
  assumes "tasks_wf db" and "in_sync t db" and "tk_status t \<noteq> Paused"
  shows "\<not> isl (queue_again t nb now db)"
proof -
  let ?f = "\<lambda>r. r\<lparr>tk_status := Queued, tk_attempt := tk_attempt r + 1, tk_failure := None, tk_not_before := nb,
              tk_profile := tk_profile t, tk_runtime := None, tk_heartbeat_at := None, tk_dispatched_at := None,
              tk_started_at := None, tk_updated_at := now\<rparr>"
  have "\<not> isl (update_task (tk_id t) ?f db)"
    using assms(3) by (intro update_sync_total [OF assms(1,2)]) (auto simp: task_check_def view_def)
  then show ?thesis by (simp add: queue_again_def isl_bindE)
qed

lemma write_requeued_total:
  assumes "tasks_wf db" and "in_sync t db" and "refs_ok db" and "can_transition (tk_status t) Queued" and "tk_status t \<noteq> Paused"
  shows "\<not> isl (write_requeued t why nb now db)"
proof -
  obtain d t1 db1 where fb: "apply_profile_fallback t why now db = Inr (d, t1, db1)"
    using apply_profile_fallback_total [OF assms(1-3), of why now] projr_Inr by (metis surj_pair)
  let ?db1 = "if fd_notify_director d then note_no_fallback t1 now db1 else db1"
  note r = apply_profile_fallback_runs [OF fb assms(2)]
  have "runs_to t db t1 ?db1" using conjunct1 [OF r] by (rule runs_to_post) simp_all
  with assms(1) have "tasks_wf ?db1" "in_sync t1 ?db1" by (simp_all add: runs_to_def advances_def)
  moreover have "tk_status t1 \<noteq> Paused" using r assms(5) by (simp add: view_def)
  ultimately have "\<not> isl (queue_again t1 nb now ?db1)" by (rule queue_again_total)
  with assms(4) fb show ?thesis by (simp add: write_requeued_def transition_def isl_bindE)
qed

section \<open>References are kept\<close>

lemma update_then_refs:
  assumes "update_task i f db = Inr db1" and "same_refs db1 db'" and "\<And>t. tk_id (f t) = tk_id t \<and> tk_lane (f t) = tk_lane t"
  shows "same_refs db db'"
  using update_task_refs [OF assms(1,3)] assms(2) by (rule same_refs_trans)

lemma cancel_locked_refs:
  assumes "cancel_locked t stop now db = Inr (t', db')"
  shows "same_refs db db'"
proof -
  let ?stop = "if stop = [] then None else Some stop"
  let ?f = "\<lambda>r. r\<lparr>tk_status := Cancelled, tk_failure := Some FailCancelled, tk_paused_reason := None,
               tk_paused_detail := None, tk_finished_at := Some now, tk_stop_reason := ?stop,
               tk_heartbeat_at := None, tk_updated_at := now\<rparr>"
  obtain db1 where up: "update_task (tk_id t) ?f db = Inr db1"
    using assms by (auto simp: cancel_locked_def Let_def)
  moreover have "same_refs db1 db'"
  proof (cases "is_question t")
    case True
    with assms up show ?thesis
      by (auto simp: cancel_locked_def Let_def dest!: end_question_refs) (simp_all add: same_refs_def)
  next
    case False
    with assms up show ?thesis
      by (auto simp: cancel_locked_def Let_def lane_cast_def plan_cancel_result_def cancel_lane_cards_refs lane_write_refs books_refs)
  qed
  ultimately show ?thesis by (rule update_then_refs) simp
qed

lemma record_failed_refs: "record_failed_attempt t why now db = Inr db' \<Longrightarrow> same_refs db db'"
  by (auto simp: record_failed_attempt_def books_refs)

lemma write_failed_refs:
  assumes "write_failed t why now db = Inr (t', db')"
  shows "same_refs db db'"
proof -
  obtain f db1 where up: "update_task (tk_id t) f db = Inr db1" "\<And>t. tk_id (f t) = tk_id t \<and> tk_lane (f t) = tk_lane t"
    and fl: "fail_lane t now db1 = Inr db'"
    using assms by (auto simp: write_failed_def)
  show ?thesis by (rule update_then_refs [OF up(1) fail_lane_refs [OF fl] up(2)])
qed

lemma switch_profile_refs:
  assumes "switch_profile t d now db = Inr (t', db')"
  shows "same_refs db db'"
proof -
  let ?f = "\<lambda>r. r\<lparr>tk_profile := fd_profile d, tk_updated_at := now\<rparr>"
  obtain db1 where up: "update_task (tk_id t) ?f db = Inr db1"
    using assms by (auto simp: switch_profile_def)
  moreover have "same_refs db1 db'" using assms up by (auto simp: switch_profile_def Let_def lane_write_refs)
  ultimately show ?thesis by (rule update_then_refs) simp
qed

lemma apply_profile_fallback_refs: "apply_profile_fallback t why now db = Inr (d, t', db') \<Longrightarrow> same_refs db db'"
  by (auto simp: apply_profile_fallback_def Let_def split: option.splits if_splits dest!: switch_profile_refs)

lemma queue_again_refs:
  assumes "queue_again t nb now db = Inr (t', db')"
  shows "same_refs db db'"
proof -
  let ?f = "\<lambda>r. r\<lparr>tk_status := Queued, tk_attempt := tk_attempt r + 1, tk_failure := None, tk_not_before := nb,
              tk_profile := tk_profile t, tk_runtime := None, tk_heartbeat_at := None, tk_dispatched_at := None,
              tk_started_at := None, tk_updated_at := now\<rparr>"
  obtain db1 where up: "update_task (tk_id t) ?f db = Inr db1"
    using assms by (auto simp: queue_again_def)
  moreover have "same_refs db1 db'" using assms up by (auto simp: queue_again_def lane_write_refs)
  ultimately show ?thesis by (rule update_then_refs) simp
qed

lemma write_requeued_refs:
  assumes "write_requeued t why nb now db = Inr (t', db')"
  shows "same_refs db db'"
proof -
  obtain d t1 db1 where fb: "apply_profile_fallback t why now db = Inr (d, t1, db1)"
    and q: "queue_again t1 nb now (if fd_notify_director d then note_no_fallback t1 now db1 else db1) = Inr (t', db')"
    using assms by (auto simp: write_requeued_def)
  from q have "same_refs (if fd_notify_director d then note_no_fallback t1 now db1 else db1) db'" by (rule queue_again_refs)
  with apply_profile_fallback_refs [OF fb] show ?thesis by (simp add: same_refs_def split: if_splits)
qed

section \<open>One task swept\<close>

definition sweep_ready :: "db \<Rightarrow> bool" where
  "sweep_ready db \<longleftrightarrow> tasks_wf db \<and> refs_ok db"

lemma ready_lane:
  assumes "refs_ok db" and "get_task i db = Some t"
  shows "lane_there t db"
proof -
  have "t \<in> set (db_tasks db)" using assms(2) unfolding get_task_def by (rule tbl_get_Some_in)
  with assms(1) have "get_lane (tk_lane t) db \<noteq> None" by (simp add: refs_ok_def)
  then show ?thesis using get_lane_None_iff [of "tk_lane t" db] by (simp add: lane_there_def)
qed

lemma recorded_ready:
  assumes "record_failed_attempt t why now (revoke i n word db) = Inr db1" and "sweep_ready db" and "in_sync t db" and "lane_there t db"
  shows "sweep_ready db1 \<and> in_sync t db1 \<and> lane_there t db1"
proof -
  have fr: "db_tasks db1 = db_tasks db" "db_next db \<le> db_next db1"
    using record_failed_attempt_frame [OF assms(1)] by simp_all
  have refs: "same_refs db db1"
    using record_failed_refs [OF assms(1)] by (simp add: same_refs_def)
  from assms(2) advances_frame [OF fr] have "tasks_wf db1" by (simp add: sweep_ready_def advances_def)
  with assms(2-4) show ?thesis
    by (simp add: sweep_ready_def refs_ok_same [OF _ refs] lane_there_same [OF refs] in_sync_frame [OF fr(1)])
qed

lemma fail_locked_total:
  assumes "sweep_ready db" and "get_task (tk_id t) db = Some t" and "in_flight (tk_status t)" and "listed_failure why"
  shows "\<not> isl (fail_locked t why now db)"
proof -
  have sync: "in_sync t db" using assms(2) by (simp add: in_sync_def)
  have lane: "lane_there t db" using assms(1,2) by (auto simp: sweep_ready_def intro: ready_lane)
  have can: "can_transition (tk_status t) Cancelled" "can_transition (tk_status t) Failed" "\<not> terminal (tk_status t)"
    using assms(3) by (auto simp: in_flight_def)
  have "\<not> isl (cancel_locked t stop now db)" for stop
    using assms(1) sync lane can(1) by (intro cancel_locked_total) (auto simp: sweep_ready_def)
  moreover obtain db1 where r: "record_failed_attempt t why now (revoke (tk_id t) (tk_attempt t) (fk_text why) db) = Inr db1"
    using assms(4) by (simp add: record_failed_attempt_def failure_cast_def)
  from recorded_ready [OF r assms(1) sync lane] can(2) assms(4) have "\<not> isl (write_failed t why now db1)"
    by (intro write_failed_total) (auto simp: sweep_ready_def)
  ultimately show ?thesis using r can(3) by (simp add: fail_locked_def isl_bindE)
qed

lemma requeue_locked_total:
  assumes "sweep_ready db" and "get_task (tk_id t) db = Some t" and "in_flight (tk_status t)" and "listed_failure why"
  shows "\<not> isl (requeue_locked t why nb now db)"
proof -
  have sync: "in_sync t db" using assms(2) by (simp add: in_sync_def)
  have lane: "lane_there t db" using assms(1,2) by (auto simp: sweep_ready_def intro: ready_lane)
  have can: "can_transition (tk_status t) Cancelled" "can_transition (tk_status t) Failed" "can_transition (tk_status t) Queued"
    "\<not> terminal (tk_status t)" "tk_status t \<noteq> Paused"
    using assms(3) by (auto simp: in_flight_def)
  have "\<not> isl (cancel_locked t stop now db)" for stop
    using assms(1) sync lane can(1) by (intro cancel_locked_total) (auto simp: sweep_ready_def)
  moreover obtain db1 where r: "record_failed_attempt t why now (revoke (tk_id t) (tk_attempt t) ''requeue'' db) = Inr db1"
    using assms(4) by (simp add: record_failed_attempt_def failure_cast_def)
  have ready: "tasks_wf db1" "refs_ok db1" "in_sync t db1" "lane_there t db1"
    using recorded_ready [OF r assms(1) sync lane] by (simp_all add: sweep_ready_def)
  have "\<not> isl (write_failed t why now db1)" using ready can(2) assms(4) by (intro write_failed_total)
  moreover have "\<not> isl (write_requeued t why nb now db1)" using ready can(3,5) by (intro write_requeued_total)
  ultimately show ?thesis using r can(4) by (simp add: requeue_locked_def isl_bindE Let_def)
qed

lemma fail_locked_refs: "fail_locked t why now db = Inr (t', db') \<Longrightarrow> same_refs db db'"
  by (auto simp: fail_locked_def split: if_splits dest!: cancel_locked_refs record_failed_refs write_failed_refs)
    (simp add: same_refs_def)

lemma requeue_locked_refs: "requeue_locked t why nb now db = Inr (t', db') \<Longrightarrow> same_refs db db'"
  by (erule requeue_locked_cases) (auto dest!: cancel_locked_refs record_failed_refs write_failed_refs write_requeued_refs
      simp: same_refs_def)

lemma apply_sweep_refs: "apply_sweep t idle now db = Inr (t', db') \<Longrightarrow> same_refs db db'"
  by (auto simp: apply_sweep_def split: option.splits if_splits dest: fail_locked_refs requeue_locked_refs)

lemma swept_kind:
  assumes "plan_sweep s idle n m = Some out"
  shows "listed_failure (so_failure_kind out)" and "in_flight s"
  using assms by (auto simp: plan_sweep_def in_flight_def split: if_splits)

lemma apply_sweep_total:
  assumes "sweep_ready db" and "get_task i db = Some t"
  shows "\<not> isl (apply_sweep t idle now db)"
proof (cases "plan_sweep (tk_status t) idle (tk_attempt t) (tk_max_attempts t)")
  case None
  then show ?thesis by (simp add: apply_sweep_def)
next
  case (Some out)
  have "get_task (tk_id t) db = Some t" using assms(2) get_task_id [OF assms(2)] by simp
  with Some assms(1) swept_kind [OF Some] show ?thesis
    by (simp add: apply_sweep_def fail_locked_total requeue_locked_total)
qed

section \<open>The whole sweep\<close>

definition hung :: "time \<Rightarrow> task_row \<Rightarrow> bool" where
  "hung now t \<longleftrightarrow> plan_sweep (tk_status t) (idle_since t now) (tk_attempt t) (tk_max_attempts t) \<noteq> None"

definition settled_down :: "task_row \<Rightarrow> bool" where
  "settled_down t \<longleftrightarrow> tk_status t = Queued \<or> tk_status t = Failed \<or> tk_status t = Cancelled"

lemma apply_sweep_settles:
  assumes "apply_sweep t (idle_since t now) now db = Inr (t', db')" and "hung now t" and "in_sync t db"
  shows "settled_down t'"
proof -
  obtain out where out: "plan_sweep (tk_status t) (idle_since t now) (tk_attempt t) (tk_max_attempts t) = Some out"
    using assms(2) by (auto simp: hung_def)
  from swept_kind(2) [OF this] have live: "\<not> terminal (tk_status t)" by (auto simp: in_flight_def)
  show ?thesis
  proof (cases "so_task_status out = Failed")
    case True
    with assms(1) out have "fail_locked t (so_failure_kind out) now db = Inr (t', db')" by (simp add: apply_sweep_def)
    from fail_locked_runs [OF this assms(3)] live show ?thesis by (auto simp: settled_down_def)
  next
    case False
    with assms(1) out have "requeue_locked t (so_failure_kind out) None now db = Inr (t', db')" by (simp add: apply_sweep_def)
    from requeue_locked_runs [OF this assms(3)] live show ?thesis by (auto simp: settled_down_def)
  qed
qed

lemma sweep_step:
  assumes "sweep_ready db" and "get_task i db = Some t" and "hung now t"
  shows "\<exists>ends' db' r. sweep_one m now i (ends, db) = Inr (ends', db') \<and> sweep_ready db' \<and> others_same i db db'
           \<and> get_task i db' = Some r \<and> settled_down r"
proof -
  have i: "tk_id t = i" using assms(2) by (rule get_task_id)
  have sync: "in_sync t db" using assms(2) by (auto simp: in_sync_def i)
  obtain t' db1 where sw: "apply_sweep t (idle_since t now) now db = Inr (t', db1)"
    using apply_sweep_total [OF assms(1,2)] projr_Inr by (metis surj_pair)
  let ?db = "case tk_runtime t of Some rt \<Rightarrow> if m then set_offline (\<lambda>r. rn_id r = rt) now db1 else db1 | None \<Rightarrow> db1"
  have fr: "db_tasks ?db = db_tasks db1" "db_next db1 \<le> db_next ?db" "db_lanes ?db = db_lanes db1" "db_profiles ?db = db_profiles db1"
    by (auto simp: set_offline_def split: option.split)
  have one: "sweep_one m now i (ends, db) = Inr (ends @ failed_end (tk_status t) t', ?db)"
    using assms(2) sw by (simp add: sweep_one_def lock_task_def Let_def split: option.split)
  have runs: "runs_to t db t' ?db" using apply_sweep_runs [OF sw sync] fr(1,2) by (rule runs_to_post)
  have "same_refs db1 ?db" using fr by (intro same_refs_frame)
  with apply_sweep_refs [OF sw] have "same_refs db ?db" by (rule same_refs_trans)
  with assms(1) runs have "sweep_ready ?db" by (auto simp: sweep_ready_def runs_to_def advances_def intro: refs_ok_same)
  moreover obtain r where "get_task i ?db = Some r" "tk_status r = tk_status t'"
    using runs i by (auto simp: runs_to_def in_sync_def view_def)
  moreover from this apply_sweep_settles [OF sw assms(3) sync] have "settled_down r" by (simp add: settled_down_def)
  ultimately show ?thesis using one runs i by (auto simp: runs_to_def)
qed

lemma sweep_loop:
  assumes "sweep_ready (snd s)" and "distinct ids" and "\<And>i. i \<in> set ids \<Longrightarrow> \<exists>t. get_task i (snd s) = Some t \<and> hung now t"
  shows "\<exists>s'. foldE (sweep_one m now) ids s = Inr s' \<and> sweep_ready (snd s')
           \<and> (\<forall>i \<in> set ids. \<exists>t. get_task i (snd s') = Some t \<and> settled_down t)
           \<and> (\<forall>j. j \<notin> set ids \<longrightarrow> get_task j (snd s') = get_task j (snd s))"
  using assms
proof (induction ids arbitrary: s)
  case Nil
  then show ?case by simp
next
  case (Cons i ids)
  obtain ends db where s: "s = (ends, db)" by (cases s)
  from Cons.prems(3) [of i] obtain t where t: "get_task i db = Some t" "hung now t" by (auto simp: s)
  obtain ends1 db1 r where one: "sweep_one m now i (ends, db) = Inr (ends1, db1)" and ready: "sweep_ready db1"
    and others: "others_same i db db1" and r: "get_task i db1 = Some r" "settled_down r"
    using sweep_step [OF _ t] Cons.prems(1) s by (metis snd_conv)
  have "\<exists>t. get_task j (snd (ends1, db1)) = Some t \<and> hung now t" if "j \<in> set ids" for j
    using Cons.prems(2) Cons.prems(3) [of j] others that by (auto simp: s others_same_def)
  with Cons.IH [of "(ends1, db1)"] Cons.prems(2) ready obtain s'
    where s': "foldE (sweep_one m now) ids (ends1, db1) = Inr s'" "sweep_ready (snd s')"
      "\<forall>i \<in> set ids. \<exists>t. get_task i (snd s') = Some t \<and> settled_down t"
      "\<forall>j. j \<notin> set ids \<longrightarrow> get_task j (snd s') = get_task j db1"
    by auto
  have "get_task i (snd s') = Some r" using s'(4) r(1) Cons.prems(2) by simp
  with r(2) s' one others show ?case by (auto simp: s others_same_def)
qed

lemma stuck_row:
  "i \<in> set (stuck_ids locked now db) \<longleftrightarrow> \<not> List.member locked i \<and>
     (\<exists>t \<in> set (db_tasks db). tk_id t = i \<and> (tk_status t = Dispatched \<or> tk_status t = Preparing)
        \<and> (\<exists>d. tk_dispatched_at t = Some d \<and> d < now - dispatched_timeout))"
  by (fastforce simp: stuck_ids_def split: option.splits)

lemma silent_row:
  "i \<in> set (silent_ids locked now db) \<longleftrightarrow> \<not> List.member locked i \<and>
     (\<exists>t \<in> set (db_tasks db). tk_id t = i \<and> tk_status t = Running
        \<and> (\<exists>v. last_sign t = Some v \<and> v < now - heartbeat_expiry))"
  by (fastforce simp: silent_ids_def split: option.splits)

lemma stuck_hung:
  assumes "i \<in> set (stuck_ids locked now db)" and "tasks_wf db"
  shows "\<exists>t. get_task i db = Some t \<and> hung now t"
proof -
  obtain t d where t: "t \<in> set (db_tasks db)" "tk_id t = i" "tk_status t = Dispatched \<or> tk_status t = Preparing"
    "tk_dispatched_at t = Some d" "d < now - dispatched_timeout"
    using assms(1) unfolding stuck_row by blast
  then have "idle_since t now = now - d" by (auto simp: idle_since_def last_sign_def)
  with t have "hung now t" by (simp add: hung_def plan_sweep_def)
  with t(2) get_task_in [OF assms(2) t(1)] show ?thesis by blast
qed

lemma silent_hung:
  assumes "i \<in> set (silent_ids locked now db)" and "tasks_wf db"
  shows "\<exists>t. get_task i db = Some t \<and> hung now t"
proof -
  obtain t v where t: "t \<in> set (db_tasks db)" "tk_id t = i" "tk_status t = Running" "last_sign t = Some v" "v < now - heartbeat_expiry"
    using assms(1) unfolding silent_row by blast
  then have "hung now t" by (simp add: hung_def plan_sweep_def idle_since_def)
  with t(2) get_task_in [OF assms(2) t(1)] show ?thesis by blast
qed

lemma swept_ids_distinct:
  "tasks_wf db \<Longrightarrow> distinct (stuck_ids locked now db)" "tasks_wf db \<Longrightarrow> distinct (silent_ids locked now db)"
  by (auto simp: tasks_wf_def stuck_ids_def silent_ids_def intro!: distinct_map_filter)

lemma not_stuck_if_same:
  assumes "tasks_wf db" and "tasks_wf db'" and "i \<in> set (stuck_ids locked now db')" and "get_task i db' = get_task i db"
  shows "i \<in> set (stuck_ids locked now db)"
proof -
  obtain t where t: "t \<in> set (db_tasks db')" "tk_id t = i" using assms(3) unfolding stuck_row by blast
  then have "get_task i db = Some t" using get_task_in [OF assms(2) t(1)] assms(4) by simp
  then have "t \<in> set (db_tasks db)" unfolding get_task_def by (rule tbl_get_Some_in)
  moreover have "u = t" if "u \<in> set (db_tasks db')" "tk_id u = i" for u
    using get_task_in [OF assms(2) that(1)] get_task_in [OF assms(2) t(1)] t(2) that(2) by simp
  ultimately show ?thesis using assms(3) unfolding stuck_row by blast
qed

lemma not_silent_if_same:
  assumes "tasks_wf db" and "tasks_wf db'" and "i \<in> set (silent_ids locked now db')" and "get_task i db' = get_task i db"
  shows "i \<in> set (silent_ids locked now db)"
proof -
  obtain t where t: "t \<in> set (db_tasks db')" "tk_id t = i" using assms(3) unfolding silent_row by blast
  then have "get_task i db = Some t" using get_task_in [OF assms(2) t(1)] assms(4) by simp
  then have "t \<in> set (db_tasks db)" unfolding get_task_def by (rule tbl_get_Some_in)
  moreover have "u = t" if "u \<in> set (db_tasks db')" "tk_id u = i" for u
    using get_task_in [OF assms(2) that(1)] get_task_in [OF assms(2) t(1)] t(2) that(2) by simp
  ultimately show ?thesis using assms(3) unfolding silent_row by blast
qed

lemma settled_not_listed:
  assumes "tasks_wf db" and "get_task i db = Some t" and "settled_down t"
  shows "i \<notin> set (stuck_ids locked now db) \<and> i \<notin> set (silent_ids locked now db)"
proof -
  have "u = t" if "u \<in> set (db_tasks db)" "tk_id u = i" for u
    using get_task_in [OF assms(1) that(1)] assms(2) that(2) by simp
  with assms(3) show ?thesis unfolding stuck_row silent_row settled_down_def by auto
qed

lemma filter_untouched:
  assumes "\<And>t. q t \<Longrightarrow> \<not> P t \<and> \<not> P (f t)"
  shows "filter P (tbl_upd q f ts) = filter P ts"
  by (induction ts) (use assms in \<open>simp_all add: tbl_upd_def\<close>)

lemma promoted_lists:
  "stuck_ids locked now (promote_deferred now db) = stuck_ids locked now db"
  "silent_ids locked now (promote_deferred now db) = silent_ids locked now db"
  unfolding stuck_ids_def silent_ids_def promote_deferred_def
  by (simp_all, (intro arg_cong [where f = "map tk_id"] filter_untouched; auto)+)

text \<open>
  C6 The stale sweep always gets through and leaves nothing hanging. On a well-formed store it
  never fails half-way, and afterwards no task is dispatched or preparing past five minutes, none is
  running without a sign of life for three, and no deferred task is due - but for rows another
  transaction holds.
\<close>

theorem sweep_leaves_nothing_hanging:
  assumes "tasks_wf db" and "refs_ok db"
  shows "\<exists>ends db'. expire_stale locked now db = Inr (ends, db') \<and> stuck_ids locked now db' = []
     \<and> silent_ids locked now db' = []
     \<and> \<not> list_ex (\<lambda>t. tk_status t = Deferred \<and> tk_not_before t \<noteq> None \<and> the (tk_not_before t) \<le> now) (db_tasks db')"
proof -
  have ready: "sweep_ready db" using assms by (simp add: sweep_ready_def)
  obtain s1 where f1: "foldE (sweep_one False now) (stuck_ids locked now db) ([], db) = Inr s1"
    and r1: "sweep_ready (snd s1)"
    and d1: "\<And>i. i \<in> set (stuck_ids locked now db) \<Longrightarrow> \<exists>t. get_task i (snd s1) = Some t \<and> settled_down t"
    and k1: "\<And>j. j \<notin> set (stuck_ids locked now db) \<Longrightarrow> get_task j (snd s1) = get_task j db"
    using sweep_loop [of "([], db)" "stuck_ids locked now db" now False] ready assms(1) swept_ids_distinct(1) stuck_hung
    by (metis snd_conv)
  let ?db1 = "snd s1"
  have wf1: "tasks_wf ?db1" using r1 by (simp add: sweep_ready_def)
  have "i \<notin> set (stuck_ids locked now ?db1)" for i
    using settled_not_listed [OF wf1] not_stuck_if_same [OF assms(1) wf1, of i] d1 [of i] k1 [of i] by blast
  then have no1: "stuck_ids locked now ?db1 = []"
    by (simp add: set_eq_iff flip: set_empty)
  obtain s2 where f2: "foldE (sweep_one True now) (silent_ids locked now ?db1) s1 = Inr s2"
    and r2: "sweep_ready (snd s2)"
    and d2: "\<And>i. i \<in> set (silent_ids locked now ?db1) \<Longrightarrow> \<exists>t. get_task i (snd s2) = Some t \<and> settled_down t"
    and k2: "\<And>j. j \<notin> set (silent_ids locked now ?db1) \<Longrightarrow> get_task j (snd s2) = get_task j ?db1"
    using sweep_loop [of s1 "silent_ids locked now ?db1" now True] r1 wf1 swept_ids_distinct(2) silent_hung
    by metis
  let ?db2 = "snd s2"
  have wf2: "tasks_wf ?db2" using r2 by (simp add: sweep_ready_def)
  have "i \<notin> set (stuck_ids locked now ?db2) \<and> i \<notin> set (silent_ids locked now ?db2)" for i
  proof (cases "i \<in> set (silent_ids locked now ?db1)")
    case True
    with d2 settled_not_listed [OF wf2] show ?thesis by blast
  next
    case False
    with k2 not_stuck_if_same [OF wf1 wf2, of i locked now] not_silent_if_same [OF wf1 wf2, of i locked now] no1 show ?thesis by auto
  qed
  then have no2: "stuck_ids locked now ?db2 = []" and no3: "silent_ids locked now ?db2 = []"
    by (simp_all add: set_eq_iff flip: set_empty)
  let ?db3 = "set_offline rn_online now (promote_deferred now ?db2)"
  have "expire_stale locked now db = Inr (fst s2, ?db3)"
    using f1 f2 by (cases s1; cases s2) (simp add: expire_stale_def)
  moreover have "stuck_ids locked now ?db3 = stuck_ids locked now (promote_deferred now ?db2)"
    "silent_ids locked now ?db3 = silent_ids locked now (promote_deferred now ?db2)"
    by (simp_all add: stuck_ids_def silent_ids_def)
  moreover have "\<not> list_ex (\<lambda>t. tk_status t = Deferred \<and> tk_not_before t \<noteq> None \<and> the (tk_not_before t) \<le> now) (db_tasks ?db3)"
  proof -
    have "\<not> list_ex (\<lambda>t. tk_status t = Deferred \<and> tk_not_before t \<noteq> None \<and> the (tk_not_before t) \<le> now)
        (tbl_upd (\<lambda>t. tk_status t = Deferred \<and> (case tk_not_before t of None \<Rightarrow> False | Some v \<Rightarrow> v \<le> now))
          (\<lambda>t. t\<lparr>tk_status := Queued, tk_not_before := None, tk_updated_at := now\<rparr>) ts)" for ts
      by (induction ts) (auto simp: tbl_upd_def split: option.splits)
    then show ?thesis by (simp add: promote_deferred_def)
  qed
  ultimately show ?thesis using no2 no3 promoted_lists by auto
qed

theorem sweep_leaves_nothing_hanging_witness:
  "stuck_ids [] hour sample_db = [] \<and> silent_ids [] hour sample_db = [1]
   \<and> (\<exists>ends db'. expire_stale [] hour sample_db = Inr (ends, db') \<and> silent_ids [] hour db' = [])"
proof -
  have "refs_ok sample_db"
    by (simp add: refs_ok_def sample_db_def empty_db_def sample_task_def sample_lane_def get_lane_def)
  from sweep_leaves_nothing_hanging [OF sample_wf this, of "[]" hour]
  have "\<exists>ends db'. expire_stale [] hour sample_db = Inr (ends, db') \<and> silent_ids [] hour db' = []" by blast
  moreover have "stuck_ids [] hour sample_db = [] \<and> silent_ids [] hour sample_db = [1]"
    by (simp add: stuck_ids_def silent_ids_def sample_db_def sample_task_def last_sign_def dur_simps)
  ultimately show ?thesis by blast
qed

end
