(* ===== verification/Mission_Tree.thy ===== *)
theory Mission_Tree
  imports Task_Store "HOL-Library.Char_ord" "HOL-Library.List_Lexorder"
begin

text \<open>
  The completion condition of a mission (\<open>sessions/completion.go\<close>) and its reader
  (\<open>ParseTree\<close> in \<open>complete.go\<close>): which atoms an event satisfies, when the mission completes,
  when the platform asks the Director, and which trees may be stored. A Go \<open>map[string]bool\<close> of
  satisfied atoms is the list of the atoms that are true. \<open>uuid.Parse\<close> is the parameter
  \<open>parse_id\<close>.
\<close>

section \<open>Trees\<close>

record condition =
  cn_type :: string
  cn_agent :: "uuid option"
  cn_who :: string

record cond_tree =
  tr_op :: string
  tr_conditions :: "condition list"

abbreviation "cond_artifact \<equiv> ''artifact_submitted''"
abbreviation "cond_agent_approval \<equiv> ''agent_approval''"
abbreviation "cond_user_approval \<equiv> ''user_approval''"
abbreviation "cond_criteria_met \<equiv> ''criteria_met''"
abbreviation "cond_manual \<equiv> ''manual''"

definition norm_op :: "string \<Rightarrow> string" where
  "norm_op op = (if op = ''and'' \<or> op = ''AND'' then ''AND'' else if op = ''or'' \<or> op = ''OR'' then ''OR'' else op)"

datatype tree_error = TreeRequired | TreeInvalidOp | TreeUnknownType | TreeCriteriaMetAlone

definition tree_error_code :: "tree_error \<Rightarrow> string" where
  "tree_error_code e = (case e of TreeRequired \<Rightarrow> ''required'' | TreeInvalidOp \<Rightarrow> ''invalid_op''
     | TreeUnknownType \<Rightarrow> ''unknown_type'' | TreeCriteriaMetAlone \<Rightarrow> ''criteria_met_alone'')"

text \<open>One pass over the atoms: \<open>None\<close> at the first unknown type, else (criteria, approval) seen.\<close>

fun scan_types :: "condition list \<Rightarrow> bool \<times> bool \<Rightarrow> (bool \<times> bool) option" where
  "scan_types [] r = Some r"
| "scan_types (c # cs) (crit, appr) =
     (if cn_type c = cond_criteria_met then scan_types cs (True, appr)
      else if cn_type c = cond_user_approval \<or> cn_type c = cond_manual then scan_types cs (crit, True)
      else if cn_type c = cond_agent_approval then scan_types cs (crit, True)
      else if cn_type c = cond_artifact then scan_types cs (crit, appr)
      else None)"

definition validate_tree :: "cond_tree \<Rightarrow> tree_error option" where
  "validate_tree t =
     (let op = norm_op (tr_op t) in
      if tr_conditions t = [] then Some TreeRequired
      else if op \<noteq> ''AND'' \<and> op \<noteq> ''OR'' then Some TreeInvalidOp
      else (case scan_types (tr_conditions t) (False, False) of
              None \<Rightarrow> Some TreeUnknownType
            | Some (crit, appr) \<Rightarrow>
                if crit \<and> (\<not> appr \<or> op \<noteq> ''AND'') then Some TreeCriteriaMetAlone else None))"

definition satisfied :: "cond_tree \<Rightarrow> string list \<Rightarrow> bool" where
  "satisfied t met \<longleftrightarrow>
     (if tr_conditions t = [] then False
      else if norm_op (tr_op t) = ''OR'' then list_ex (\<lambda>c. cn_type c \<in> set met) (tr_conditions t)
      else list_all (\<lambda>c. cn_type c \<in> set met) (tr_conditions t))"

definition needs_user_approval :: "cond_tree \<Rightarrow> string list \<Rightarrow> bool" where
  "needs_user_approval t met \<longleftrightarrow>
     (if norm_op (tr_op t) = ''AND''
         \<and> list_ex (\<lambda>c. cn_type c \<noteq> cond_user_approval \<and> cn_type c \<notin> set met) (tr_conditions t)
      then False
      else list_ex (\<lambda>c. cn_type c = cond_user_approval) (tr_conditions t) \<and> cond_user_approval \<notin> set met)"

definition names_actor :: "cond_tree \<Rightarrow> string \<Rightarrow> uuid \<Rightarrow> bool" where
  "names_actor t ty actor = list_ex (\<lambda>c. cn_type c = ty \<and> cn_agent c = Some actor) (tr_conditions t)"

definition atoms :: "string list \<Rightarrow> string list" where
  "atoms met = sort (remdups met)"

section \<open>Events\<close>

datatype event_kind =
    ArtifactSubmit | ArtifactEndorse | ReviewApprove | ReviewReject | DirectorApprove | DirectorReject
  | DirectorEnd | BudgetExhausted | TasksSettled | ConditionChanged | OtherEvent string

record mission_event =
  me_kind :: event_kind
  me_actor :: uuid
  me_note :: string
  me_ref :: "uuid option"

datatype cli_error = NotSubmitter | NotReviewerToApprove | NotReviewerToReject

record outcome =
  oc_state :: work_status
  oc_pause :: string
  oc_met :: "string list"
  oc_hitl :: bool
  oc_held :: bool
  oc_summaries :: nat
  oc_decision :: bool
  oc_reason :: string
  oc_decision_id :: "uuid option"
  oc_error :: "cli_error option"

definition quiet_outcome :: "string list \<Rightarrow> outcome" where
  "quiet_outcome met = \<lparr>oc_state = WkActive, oc_pause = [], oc_met = atoms met, oc_hitl = False, oc_held = False,
     oc_summaries = 0, oc_decision = False, oc_reason = [], oc_decision_id = None, oc_error = None\<rparr>"

text \<open>The re-read of the tree after an event that may have moved it.\<close>

definition read_tree :: "cond_tree \<Rightarrow> bool \<Rightarrow> string list \<Rightarrow> outcome" where
  "read_tree t advanced met =
     (if satisfied t met then (quiet_outcome met)\<lparr>oc_state := WkCompleted, oc_summaries := 1\<rparr>
      else if advanced \<and> needs_user_approval t met then (quiet_outcome met)\<lparr>oc_hitl := True\<rparr>
      else quiet_outcome met)"

definition apply_event :: "cond_tree \<Rightarrow> string list \<Rightarrow> mission_event \<Rightarrow> outcome" where
  "apply_event t met ev =
     (case me_kind ev of
        ArtifactSubmit \<Rightarrow>
          if names_actor t cond_artifact (me_actor ev) \<and> cond_artifact \<notin> set met
          then read_tree t True (cond_artifact # met) else read_tree t False met
      | ArtifactEndorse \<Rightarrow>
          if \<not> names_actor t cond_artifact (me_actor ev) then (quiet_outcome met)\<lparr>oc_error := Some NotSubmitter\<rparr>
          else read_tree t (cond_artifact \<notin> set met) (cond_artifact # met)
      | ReviewApprove \<Rightarrow>
          if names_actor t cond_agent_approval (me_actor ev)
          then read_tree t (cond_agent_approval \<notin> set met) (cond_agent_approval # met)
          else (quiet_outcome met)\<lparr>oc_error := Some NotReviewerToApprove\<rparr>
      | ReviewReject \<Rightarrow>
          if \<not> names_actor t cond_agent_approval (me_actor ev)
          then (quiet_outcome met)\<lparr>oc_error := Some NotReviewerToReject\<rparr>
          else (quiet_outcome met)\<lparr>oc_decision := True, oc_reason := me_note ev\<rparr>
      | DirectorApprove \<Rightarrow> read_tree t (cond_user_approval \<notin> set met) (cond_user_approval # met)
      | DirectorReject \<Rightarrow> (quiet_outcome met)\<lparr>oc_decision := True, oc_reason := me_note ev\<rparr>
      | DirectorEnd \<Rightarrow> (quiet_outcome (cond_manual # met))\<lparr>oc_state := WkCompleted, oc_summaries := 1\<rparr>
      | BudgetExhausted \<Rightarrow> (quiet_outcome met)\<lparr>oc_state := WkPaused, oc_pause := ''budget'', oc_hitl := True\<rparr>
      | TasksSettled \<Rightarrow> read_tree t True met
      | ConditionChanged \<Rightarrow> read_tree t True met
      | OtherEvent _ \<Rightarrow> read_tree t False met)"

record summary_outcome =
  so_summaries :: nat
  so_feed_error :: bool
  so_category :: string

definition run_summary :: "string \<Rightarrow> string \<Rightarrow> summary_outcome" where
  "run_summary stop category =
     (if stop = [] \<or> stop = ''end_turn'' \<or> stop = ''stop''
      then \<lparr>so_summaries = 1, so_feed_error = False, so_category = []\<rparr>
      else \<lparr>so_summaries = 0, so_feed_error = True, so_category = (if category = [] then stop else category)\<rparr>)"

section \<open>Reading the stored condition\<close>

definition field :: "(string \<times> json) list \<Rightarrow> string \<Rightarrow> json option" where
  "field m k = map_of (rev m) k"

definition str_field :: "(string \<times> json) list \<Rightarrow> string \<Rightarrow> string option" where
  "str_field m k = (case field m k of Some (JStr s) \<Rightarrow> Some s | _ \<Rightarrow> None)"

definition leaf :: "(string \<Rightarrow> uuid option) \<Rightarrow> (string \<times> json) list \<Rightarrow> condition list" where
  "leaf parse_id m =
     (case str_field m ''type'' of
        None \<Rightarrow> []
      | Some ty \<Rightarrow> if ty = [] then []
          else [\<lparr>cn_type = ty, cn_agent = Option.bind (str_field m ''agent_id'') parse_id,
                 cn_who = (case str_field m ''who'' of None \<Rightarrow> [] | Some w \<Rightarrow> w)\<rparr>])"

lemma field_smaller: "field m k = Some j \<Longrightarrow> size j < size (JObj m)"
proof -
  assume "field m k = Some j"
  then have "(k, j) \<in> set m" by (auto simp: field_def dest: map_of_SomeD)
  then show "size j < size (JObj m)" by (induction m) auto
qed

lemma item_smaller: "c \<in> set cs \<Longrightarrow> size c < size (JList cs)"
  by (induction cs) auto

definition read_op :: "(string \<times> json) list \<Rightarrow> cond_tree \<Rightarrow> cond_tree" where
  "read_op m t = (case str_field m ''op'' of
     Some op \<Rightarrow> if tr_op t = ''AND'' then t\<lparr>tr_op := norm_op op\<rparr> else t | None \<Rightarrow> t)"

function walk :: "(string \<Rightarrow> uuid option) \<Rightarrow> json \<Rightarrow> cond_tree \<Rightarrow> cond_tree" where
  "walk parse_id n t =
     (case n of
        JObj m \<Rightarrow>
          (case field m ''conditions'' of
             Some (JList cs) \<Rightarrow> fold (walk parse_id) cs (read_op m t)
           | _ \<Rightarrow> t\<lparr>tr_conditions := tr_conditions t @ leaf parse_id m\<rparr>)
      | _ \<Rightarrow> t)"
  by auto
termination
  by (relation "measure (\<lambda>(p, n, t). size n)")
     (auto dest!: field_smaller item_smaller simp del: json.size)

declare walk.simps [simp del]

definition parse_tree :: "(string \<Rightarrow> uuid option) \<Rightarrow> json option \<Rightarrow> cond_tree" where
  "parse_tree parse_id raw =
     (case raw of None \<Rightarrow> \<lparr>tr_op = [], tr_conditions = []\<rparr>
      | Some n \<Rightarrow> walk parse_id n \<lparr>tr_op = ''AND'', tr_conditions = []\<rparr>)"

text \<open>\<open>who: assignee\<close> names whoever is the assignee now.\<close>

definition bind_assignee :: "uuid option \<Rightarrow> cond_tree \<Rightarrow> cond_tree" where
  "bind_assignee a t = t\<lparr>tr_conditions :=
     map (\<lambda>c. if cn_agent c = None \<and> cn_who c = ''assignee'' then c\<lparr>cn_agent := a\<rparr> else c) (tr_conditions t)\<rparr>"

section \<open>Runs of events\<close>

text \<open>What a mission answers to a sequence of events, carrying its satisfied atoms.\<close>

fun mission_run :: "cond_tree \<Rightarrow> string list \<Rightarrow> mission_event list \<Rightarrow> outcome list" where
  "mission_run t met [] = []"
| "mission_run t met (ev # evs) = (let o1 = apply_event t met ev in o1 # mission_run t (oc_met o1) evs)"

lemma set_atoms [simp]: "set (atoms met) = set met"
  by (simp add: atoms_def)

lemma quiet_outcome_simps [simp]:
  "oc_state (quiet_outcome met) = WkActive" "oc_met (quiet_outcome met) = atoms met"
  "oc_hitl (quiet_outcome met) = False" "oc_error (quiet_outcome met) = None"
  "oc_decision (quiet_outcome met) = False"
  by (simp_all add: quiet_outcome_def)

lemma read_tree_simps [simp]:
  "oc_met (read_tree t adv met) = atoms met"
  "oc_state (read_tree t adv met) = (if satisfied t met then WkCompleted else WkActive)"
  "oc_hitl (read_tree t adv met) \<longleftrightarrow> adv \<and> \<not> satisfied t met \<and> needs_user_approval t met"
  "oc_error (read_tree t adv met) = None"
  by (simp_all add: read_tree_def)

lemma reads_atoms [simp]:
  "satisfied t (atoms met) = satisfied t met"
  "needs_user_approval t (atoms met) = needs_user_approval t met"
  by (simp_all add: satisfied_def needs_user_approval_def)

text \<open>The atom an event adds, when the actor is entitled to it.\<close>

definition added :: "cond_tree \<Rightarrow> mission_event \<Rightarrow> string set" where
  "added t ev = (case me_kind ev of
      ArtifactSubmit \<Rightarrow> if names_actor t cond_artifact (me_actor ev) then {cond_artifact} else {}
    | ArtifactEndorse \<Rightarrow> if names_actor t cond_artifact (me_actor ev) then {cond_artifact} else {}
    | ReviewApprove \<Rightarrow> if names_actor t cond_agent_approval (me_actor ev) then {cond_agent_approval} else {}
    | DirectorApprove \<Rightarrow> {cond_user_approval} | DirectorEnd \<Rightarrow> {cond_manual} | _ \<Rightarrow> {})"

lemma met_after: "set (oc_met (apply_event t met ev)) = set met \<union> added t ev"
  by (cases "me_kind ev") (auto simp: apply_event_def added_def)

lemma completed_satisfied:
  "oc_state (apply_event t met ev) = WkCompleted \<Longrightarrow>
   me_kind ev = DirectorEnd \<or> satisfied t (oc_met (apply_event t met ev))"
  by (cases "me_kind ev") (auto simp: apply_event_def split: if_splits)

lemma run_met_subset:
  "o1 \<in> set (mission_run t met evs) \<Longrightarrow> set (oc_met o1) \<subseteq> set met \<union> (\<Union>ev \<in> set evs. added t ev)"
proof (induction evs arbitrary: met)
  case (Cons ev evs)
  show ?case
  proof (cases "o1 = apply_event t met ev")
    case True
    then show ?thesis by (auto simp: met_after)
  next
    case False
    with Cons.prems have "o1 \<in> set (mission_run t (oc_met (apply_event t met ev)) evs)" by (simp add: Let_def)
    from Cons.IH [OF this] show ?thesis by (auto simp: met_after)
  qed
qed simp

lemma run_completed_satisfied:
  "o1 \<in> set (mission_run t met evs) \<Longrightarrow> oc_state o1 = WkCompleted \<Longrightarrow>
   (\<exists>ev \<in> set evs. me_kind ev = DirectorEnd) \<or> satisfied t (oc_met o1)"
  by (induction evs arbitrary: met) (auto simp: Let_def dest: completed_satisfied)

lemma scan_types_seen:
  "scan_types cs (crit, appr) = Some (c', a') \<Longrightarrow>
   (c' \<longleftrightarrow> crit \<or> cond_criteria_met \<in> cn_type ` set cs)
   \<and> (a' \<longleftrightarrow> appr \<or> cn_type ` set cs \<inter> {cond_user_approval, cond_manual, cond_agent_approval} \<noteq> {})"
  by (induction cs arbitrary: crit appr) (auto split: if_splits)

lemma valid_criteria_anded:
  assumes "validate_tree t = None" and "cond_criteria_met \<in> cn_type ` set (tr_conditions t)"
  shows "norm_op (tr_op t) = ''AND''"
    and "\<exists>a \<in> {cond_user_approval, cond_manual, cond_agent_approval}. a \<in> cn_type ` set (tr_conditions t)"
  using assms scan_types_seen [of "tr_conditions t" False False]
  by (fastforce simp: validate_tree_def Let_def split: if_splits option.splits)+

definition is_approval :: "cond_tree \<Rightarrow> mission_event \<Rightarrow> bool" where
  "is_approval t ev \<longleftrightarrow> me_kind ev = DirectorApprove \<or> me_kind ev = DirectorEnd
     \<or> me_kind ev = ReviewApprove \<and> names_actor t cond_agent_approval (me_actor ev)"

text \<open>
  A mission cannot end on its own scoring. If a stored tree (one \<open>ValidateTree\<close> accepts)
  contains \<open>criteria_met\<close>, then whatever else happens, starting without any approval, the mission
  completes only if one of the events was the Director's approval, the Director's end, or an
  approval by a reviewer the tree names.
\<close>

theorem criteria_never_alone:
  assumes "validate_tree t = None" and "cond_criteria_met \<in> cn_type ` set (tr_conditions t)"
    and "set met \<inter> {cond_user_approval, cond_manual, cond_agent_approval} = {}"
    and "o1 \<in> set (mission_run t met evs)" and "oc_state o1 = WkCompleted"
  shows "list_ex (is_approval t) evs"
proof (cases "\<exists>ev \<in> set evs. me_kind ev = DirectorEnd")
  case True
  then show ?thesis by (auto simp: list_ex_iff is_approval_def)
next
  case False
  with run_completed_satisfied [OF assms(4,5)] have sat: "satisfied t (oc_met o1)" by blast
  obtain a where a: "a \<in> {cond_user_approval, cond_manual, cond_agent_approval}"
    and "a \<in> cn_type ` set (tr_conditions t)" using valid_criteria_anded [OF assms(1,2)] by blast
  with sat valid_criteria_anded(1) [OF assms(1,2)] have "a \<in> set (oc_met o1)"
    by (auto simp: satisfied_def list_all_iff split: if_splits)
  with run_met_subset [OF assms(4)] a assms(3) obtain ev where "ev \<in> set evs" and "a \<in> added t ev" by auto
  with a have "is_approval t ev"
    by (cases "me_kind ev") (auto simp: added_def is_approval_def split: if_splits)
  with \<open>ev \<in> set evs\<close> show ?thesis by (auto simp: list_ex_iff)
qed

definition reviewed_tree :: cond_tree where
  "reviewed_tree = \<lparr>tr_op = ''and'', tr_conditions =
     [\<lparr>cn_type = cond_criteria_met, cn_agent = None, cn_who = []\<rparr>,
      \<lparr>cn_type = cond_agent_approval, cn_agent = Some 8, cn_who = []\<rparr>]\<rparr>"

definition happens :: "event_kind \<Rightarrow> uuid \<Rightarrow> mission_event" where
  "happens k a = \<lparr>me_kind = k, me_actor = a, me_note = ''no'', me_ref = None\<rparr>"

theorem criteria_never_alone_witness:
  "map oc_state (mission_run reviewed_tree [cond_criteria_met] [happens ReviewApprove 9, happens ReviewApprove 8])
     = [WkActive, WkCompleted]
   \<and> list_ex (is_approval reviewed_tree) [happens ReviewApprove 9, happens ReviewApprove 8]"
proof -
  let ?evs = "[happens ReviewApprove 9, happens ReviewApprove 8]"
  have run: "map oc_state (mission_run reviewed_tree [cond_criteria_met] ?evs) = [WkActive, WkCompleted]"
    by code_simp
  have "WkCompleted \<in> set (map oc_state (mission_run reviewed_tree [cond_criteria_met] ?evs))"
    unfolding run by simp
  then obtain o1 where "o1 \<in> set (mission_run reviewed_tree [cond_criteria_met] ?evs)" "oc_state o1 = WkCompleted"
    by auto
  moreover have "validate_tree reviewed_tree = None" by code_simp
  ultimately have "list_ex (is_approval reviewed_tree) ?evs"
    using criteria_never_alone [of reviewed_tree "[cond_criteria_met]" o1 ?evs]
    by (simp add: reviewed_tree_def)
  with run show ?thesis by simp
qed

text \<open>The platform's question moves the tree only once: what can still advance completes it.\<close>

definition re_reads :: "mission_event \<Rightarrow> bool" where
  "re_reads ev \<longleftrightarrow> me_kind ev = TasksSettled \<or> me_kind ev = ConditionChanged \<or> me_kind ev = BudgetExhausted"

lemma names_actor_in: "names_actor t ty actor \<Longrightarrow> ty \<in> cn_type ` set (tr_conditions t)"
  by (auto simp: names_actor_def list_ex_iff)

lemma named_atom_needed:
  "ty \<in> cn_type ` set (tr_conditions t) \<Longrightarrow> ty \<noteq> cond_user_approval \<Longrightarrow> ty \<notin> set met
   \<Longrightarrow> norm_op (tr_op t) = ''AND'' \<Longrightarrow> \<not> needs_user_approval t met"
  by (auto simp: needs_user_approval_def list_ex_iff)

lemma or_satisfied:
  "ty \<in> cn_type ` set (tr_conditions t) \<Longrightarrow> ty \<in> set met \<Longrightarrow> norm_op (tr_op t) = ''OR'' \<Longrightarrow> satisfied t met"
  by (auto simp: satisfied_def list_ex_iff)

lemma user_approval_met: "cond_user_approval \<in> set met \<Longrightarrow> \<not> needs_user_approval t met"
  by (simp add: needs_user_approval_def)

text \<open>Outside a re-read, the question is asked by the event that meets the last other atom.\<close>

lemma asked_by_last_atom:
  assumes "validate_tree t = None" and "oc_hitl (apply_event t met ev)" and "\<not> re_reads ev"
  shows "\<not> needs_user_approval t met \<and> needs_user_approval t (oc_met (apply_event t met ev))"
proof -
  have op: "norm_op (tr_op t) = ''AND'' \<or> norm_op (tr_op t) = ''OR''"
    using assms(1) by (auto simp: validate_tree_def Let_def split: if_splits)
  have step: "\<not> needs_user_approval t met"
    if "names_actor t ty (me_actor ev)" "ty \<noteq> cond_user_approval" "ty \<notin> set met" "\<not> satisfied t (ty # met)" for ty
    using that op names_actor_in [OF that(1)] named_atom_needed or_satisfied [of ty t "ty # met"] by auto
  show ?thesis
    using assms(2,3) step [of cond_artifact] step [of cond_agent_approval] user_approval_met
    by (cases "me_kind ev") (auto simp: apply_event_def re_reads_def split: if_splits)
qed

lemma need_persists:
  assumes "needs_user_approval t met" and "cond_user_approval \<notin> set (oc_met (apply_event t met ev))"
  shows "needs_user_approval t (oc_met (apply_event t met ev))"
  using assms by (auto simp: needs_user_approval_def met_after list_ex_iff split: if_splits)

lemma never_asked_again:
  assumes "validate_tree t = None" and "needs_user_approval t met \<or> cond_user_approval \<in> set met"
    and "\<not> list_ex re_reads evs"
  shows "filter oc_hitl (mission_run t met evs) = []"
  using assms(2,3)
proof (induction evs arbitrary: met)
  case (Cons ev evs)
  let ?o = "apply_event t met ev"
  have "\<not> oc_hitl ?o"
  proof
    assume asked: "oc_hitl ?o"
    with asked_by_last_atom [OF assms(1) this] Cons.prems have "cond_user_approval \<in> set met" by auto
    then have "\<not> needs_user_approval t (oc_met ?o)" by (simp add: user_approval_met met_after)
    with asked_by_last_atom [OF assms(1) asked] Cons.prems show False by simp
  qed
  moreover have "needs_user_approval t (oc_met ?o) \<or> cond_user_approval \<in> set (oc_met ?o)"
    using Cons.prems(1) need_persists by (auto simp: met_after)
  ultimately show ?case using Cons.IH Cons.prems(2) by (simp add: Let_def)
qed simp

text \<open>
  The completion question is asked once. However many artifacts, endorsements, reviews and
  verdicts arrive, and whoever sends them, the platform issues at most one \<open>user_approval\<close>
  request for a stored tree, unless the work settled, the condition was changed or the budget ran
  out in between.
\<close>

theorem approval_asked_once:
  assumes "validate_tree t = None" and "\<not> list_ex re_reads evs"
  shows "length (filter oc_hitl (mission_run t met evs)) \<le> 1"
  using assms(2)
proof (induction evs arbitrary: met)
  case (Cons ev evs)
  let ?o = "apply_event t met ev"
  show ?case
  proof (cases "oc_hitl ?o")
    case True
    with asked_by_last_atom [OF assms(1) True] Cons.prems
    have "filter oc_hitl (mission_run t (oc_met ?o) evs) = []" by (intro never_asked_again [OF assms(1)]) auto
    with True show ?thesis by (simp add: Let_def)
  next
    case False
    with Cons show ?thesis by (simp add: Let_def)
  qed
qed simp

definition default_tree :: cond_tree where
  "default_tree = \<lparr>tr_op = ''and'', tr_conditions =
     [\<lparr>cn_type = cond_artifact, cn_agent = Some 4, cn_who = ''assignee''\<rparr>,
      \<lparr>cn_type = cond_user_approval, cn_agent = None, cn_who = []\<rparr>]\<rparr>"

theorem approval_asked_once_witness:
  "map oc_hitl (mission_run default_tree []
      [happens ArtifactSubmit 4, happens ArtifactSubmit 5, happens ArtifactSubmit 4, happens DirectorReject 1])
     = [True, False, False, False]
   \<and> length (filter oc_hitl (mission_run default_tree []
      [happens ArtifactSubmit 4, happens ArtifactSubmit 5, happens ArtifactSubmit 4, happens DirectorReject 1])) \<le> 1"
proof
  show "map oc_hitl (mission_run default_tree []
      [happens ArtifactSubmit 4, happens ArtifactSubmit 5, happens ArtifactSubmit 4, happens DirectorReject 1])
     = [True, False, False, False]"
    by code_simp
  have "validate_tree default_tree = None" by code_simp
  then show "length (filter oc_hitl (mission_run default_tree []
      [happens ArtifactSubmit 4, happens ArtifactSubmit 5, happens ArtifactSubmit 4, happens DirectorReject 1])) \<le> 1"
    by (rule approval_asked_once) (simp add: re_reads_def happens_def)
qed

section \<open>Nested conditions\<close>

text \<open>
  A nested condition is read as one flat list. Its operator is not the top one: a group under an
  AND still sets it, so an OR anywhere below the top AND makes the whole tree an OR.
\<close>

definition nested_condition :: json where
  "nested_condition =
     JObj [(''op'', JStr ''and''), (''conditions'', JList
       [JObj [(''type'', JStr ''user_approval'')],
        JObj [(''op'', JStr ''or''), (''conditions'', JList
          [JObj [(''type'', JStr ''artifact_submitted'')], JObj [(''type'', JStr ''agent_approval'')]])]])]"

lemma nested_or_replaces_and:
  "tr_op (parse_tree (\<lambda>_. None) (Some nested_condition)) = ''OR''
   \<and> satisfied (parse_tree (\<lambda>_. None) (Some nested_condition)) [''artifact_submitted'']"
  by (simp add: parse_tree_def nested_condition_def walk.simps field_def read_op_def str_field_def norm_op_def
      leaf_def satisfied_def)

end
