(* ===== verification/Approval_Quiet.thy ===== *)
theory Approval_Quiet
  imports Task_Holds
begin

text \<open>
  A mission that only waits for its Director holds back the work its agents make for each other
  (\<open>internal/quiet\<close>): entering and leaving the quiet, holding one trigger, and what happens to the
  held triggers when the mission closes. The sentences and the feed's payload are left out.
\<close>

section \<open>Missions\<close>

definition get_work :: "uuid \<Rightarrow> db \<Rightarrow> work_row option" where
  "get_work w db = tbl_get wk_id (db_works db) w"

text \<open>The CHECK constraints of the table \<open>work\<close>.\<close>

definition work_check :: "work_row \<Rightarrow> bool" where
  "work_check w \<longleftrightarrow>
     (wk_status w = WkPaused \<longleftrightarrow> wk_paused_reason w \<noteq> None)
   \<and> (wk_paused_detail w \<noteq> None \<longrightarrow> wk_paused_reason w \<noteq> None)
   \<and> (wk_quiet w = None \<or> wk_quiet w = Some ''quiet'' \<or> wk_quiet w = Some ''released'')"

definition update_work :: "uuid \<Rightarrow> (work_row \<Rightarrow> work_row) \<Rightarrow> db \<Rightarrow> db_error + db" where
  "update_work i f db =
     (case get_work i db of
        None \<Rightarrow> Inr db
      | Some w \<Rightarrow> if work_check (f w) then Inr (db\<lparr>db_works := tbl_modify wk_id i f (db_works db)\<rparr>)
                  else Inl DbCheck)"

text \<open>The writes of the quiet column take only the two values the constraint lists.\<close>

definition set_quiet :: "uuid \<Rightarrow> string option \<Rightarrow> time option \<Rightarrow> db \<Rightarrow> db" where
  "set_quiet i q since db = db\<lparr>db_works := tbl_modify wk_id i (\<lambda>w. w\<lparr>wk_quiet := q, wk_quiet_at := since\<rparr>) (db_works db)\<rparr>"

section \<open>Held triggers\<close>

abbreviation "approval_pending \<equiv> ''approval_pending''"

definition held_task :: "task_row \<Rightarrow> bool" where
  "held_task t \<longleftrightarrow> tk_status t = Queued \<and> tk_queued_reason t = Some approval_pending"

definition quiet_state :: "uuid \<Rightarrow> db \<Rightarrow> string" where
  "quiet_state w db =
     (case get_work w db of None \<Rightarrow> []
      | Some r \<Rightarrow> if wk_status r = WkActive then (case wk_quiet r of None \<Rightarrow> [] | Some s \<Rightarrow> s) else [])"

text \<open>A queued first attempt that an agent's message made, with nothing a person wrote merged in.\<close>

definition agent_made :: "db \<Rightarrow> task_row \<Rightarrow> bool" where
  "agent_made db t \<longleftrightarrow> tk_status t = Queued \<and> tk_attempt t = 1 \<and> \<not> tk_pending_hitl t \<and> tk_restarted_from t = None
     \<and> list_ex (\<lambda>m. tk_trigger t = Some (ms_id m) \<and> ms_author m = ByAgent) (db_messages db)
     \<and> \<not> list_ex (\<lambda>m. List.member (tk_coalesced t) (ms_id m) \<and> ms_author m \<noteq> ByAgent) (db_messages db)"

definition quiet_enter :: "uuid \<Rightarrow> time \<Rightarrow> db \<Rightarrow> bool \<times> db" where
  "quiet_enter w now db =
     (case get_work w db of
        None \<Rightarrow> (False, db)
      | Some r \<Rightarrow>
          if wk_status r \<noteq> WkActive \<or> wk_quiet r = Some ''quiet'' then (False, db)
          else let db1 = set_quiet w (Some ''quiet'') (Some now) db
               in (True, db1\<lparr>db_tasks := tbl_upd (\<lambda>t. tk_work t = Some w \<and> agent_made db1 t)
                                          (\<lambda>t. t\<lparr>tk_queued_reason := Some approval_pending\<rparr>) (db_tasks db1)\<rparr>))"

definition release_held_tasks :: "uuid \<Rightarrow> time \<Rightarrow> db \<Rightarrow> db" where
  "release_held_tasks w now db =
     db\<lparr>db_tasks := tbl_upd (\<lambda>t. tk_work t = Some w \<and> held_task t)
                       (\<lambda>t. t\<lparr>tk_queued_reason := None, tk_updated_at := now\<rparr>) (db_tasks db)\<rparr>"

text \<open>\<open>to\<close> is \<open>StateNone\<close> (\<open>None\<close>) or \<open>StateReleased\<close>.\<close>

definition quiet_release :: "uuid \<Rightarrow> string option \<Rightarrow> time \<Rightarrow> db \<Rightarrow> db" where
  "quiet_release w to now db =
     release_held_tasks w now
       (case get_work w db of
          None \<Rightarrow> db
        | Some r \<Rightarrow> if wk_quiet r = to then db
                    else set_quiet w to (if to = None then None else Some now) db)"

definition quiet_hold :: "uuid \<Rightarrow> db \<Rightarrow> bool \<times> db" where
  "quiet_hold i db =
     (case get_task i db of
        None \<Rightarrow> (False, db)
      | Some t \<Rightarrow> if tk_status t \<noteq> Queued then (False, db)
                  else (True, db\<lparr>db_tasks := tbl_modify tk_id i (\<lambda>t. t\<lparr>tk_queued_reason := Some approval_pending\<rparr>)
                                                 (db_tasks db)\<rparr>))"

definition is_held :: "uuid \<Rightarrow> db \<Rightarrow> bool" where
  "is_held i db = list_ex (\<lambda>t. tk_id t = i \<and> held_task t) (db_tasks db)"

definition held_count :: "uuid \<Rightarrow> db \<Rightarrow> nat" where
  "held_count w db = length (filter (\<lambda>t. tk_work t = Some w \<and> held_task t) (db_tasks db))"

section \<open>Closing\<close>

definition live_status :: "task_status \<Rightarrow> bool" where
  "live_status s \<longleftrightarrow> s = Queued \<or> s = Deferred \<or> s = Dispatched \<or> s = Preparing \<or> s = Running \<or> s = WaitingHuman \<or> s = Paused"

definition cancel_one :: "uuid \<Rightarrow> int \<Rightarrow> uuid \<Rightarrow> time \<Rightarrow> db \<Rightarrow> db_error + db" where
  "cancel_one i attempt lane now db =
     bindE (update_task i
       (\<lambda>t. t\<lparr>tk_status := Cancelled, tk_failure := Some FailCancelled, tk_finished_at := Some now,
              tk_stop_reason := Some ''approval_closed'', tk_updated_at := now\<rparr>)
       (insert_server_event i attempt ''status'' ''cancel'' ''approval_closed'' ''ok'' now db)) (\<lambda>db.
     Inr (if list_ex (\<lambda>t. tk_lane t = lane \<and> live_status (tk_status t)) (db_tasks db) then db
          else update_lane lane (\<lambda>l. ln_status l = LaneQueued)
                 (\<lambda>l. l\<lparr>ln_status := LaneDone, ln_finished_at := Some now, ln_updated_at := now\<rparr>) db))"

definition cancel_held :: "uuid \<Rightarrow> time \<Rightarrow> db \<Rightarrow> db_error + db" where
  "cancel_held w now db =
     bindE (foldE (\<lambda>t. cancel_one (tk_id t) (tk_attempt t) (tk_lane t) now)
              (sort_key tk_created_at (filter (\<lambda>t. tk_work t = Some w \<and> held_task t) (db_tasks db))) db) (\<lambda>db.
     Inr (set_quiet w None None db))"

definition cancel_closed :: "uuid \<Rightarrow> time \<Rightarrow> db \<Rightarrow> db_error + db" where
  "cancel_closed i now db =
     (case get_task i db of
        None \<Rightarrow> Inr db
      | Some t \<Rightarrow> if tk_status t \<noteq> Queued then Inr db else cancel_one i (tk_attempt t) (tk_lane t) now db)"

end
