(* ===== verification/Mission_Close.thy ===== *)
theory Mission_Close
  imports Mission_Tree Approval_Quiet
begin

text \<open>
  What an event does to a mission (\<open>ApplyWorkEvent\<close> in \<open>sessions/complete.go\<close>): folding it into
  the completion state, the budget pause, the completing and completed steps with the summary, the
  platform's approval request with its three guards and its hold, and the re-reads of
  \<open>approval_hold.go\<close>. The platform LLM is the parameter \<open>llm\<close> (\<open>None\<close>: not configured), the
  rendering of a UUID is \<open>id_text\<close>. Sentences, banner numbers and frames are left out.
\<close>

record env =
  en_parse_id :: "string \<Rightarrow> uuid option"
  en_id_text :: "uuid \<Rightarrow> string"

section \<open>Summary\<close>

text \<open>An answer of the platform LLM: stop reason, category and body, or a failed call.\<close>

datatype llm_reply = CallFailed | NoReply | Reply string string string

record summary_plan =
  sp_post :: bool
  sp_feed_error :: bool
  sp_category :: string
  sp_by_llm :: bool

definition reply_category :: "string \<Rightarrow> string \<Rightarrow> string" where
  "reply_category stop category = (if category \<noteq> [] then category else stop)"

definition reply_succeeded :: "string \<Rightarrow> bool" where
  "reply_succeeded stop \<longleftrightarrow> stop = ''end_turn'' \<or> stop = ''stop'' \<or> stop = []"

definition failed_summary :: "string \<Rightarrow> summary_plan" where
  "failed_summary category = \<lparr>sp_post = False, sp_feed_error = True, sp_category = category, sp_by_llm = True\<rparr>"

definition plan_summary :: "llm_reply \<Rightarrow> bool \<Rightarrow> summary_plan" where
  "plan_summary r already =
     (case r of
        CallFailed \<Rightarrow> failed_summary ''transport_error''
      | NoReply \<Rightarrow> failed_summary ''no_response''
      | Reply stop category body \<Rightarrow>
          if stop = ''refusal'' then failed_summary (reply_category stop category)
          else if \<not> reply_succeeded stop then failed_summary (reply_category stop category)
          else if already then \<lparr>sp_post = False, sp_feed_error = False, sp_category = [], sp_by_llm = True\<rparr>
          else if trim_space body = [] then failed_summary ''empty_summary''
          else \<lparr>sp_post = True, sp_feed_error = False, sp_category = [], sp_by_llm = True\<rparr>)"

definition summarise :: "llm_reply option \<Rightarrow> bool \<Rightarrow> summary_plan" where
  "summarise llm already =
     (case llm of
        None \<Rightarrow> \<lparr>sp_post = \<not> already, sp_feed_error = False, sp_category = [], sp_by_llm = False\<rparr>
      | Some r \<Rightarrow> plan_summary r already)"

definition mission_summary :: "uuid \<Rightarrow> message_row \<Rightarrow> bool" where
  "mission_summary w m \<longleftrightarrow> ms_work m = Some w \<and> ms_kind m = ''summary'' \<and> \<not> ms_ranged m"

definition summaries :: "uuid \<Rightarrow> db \<Rightarrow> message_row list" where
  "summaries w db = filter (mission_summary w) (db_messages db)"

definition post_summary_once :: "uuid \<Rightarrow> uuid \<Rightarrow> time \<Rightarrow> db \<Rightarrow> db" where
  "post_summary_once room w now db =
     (if summaries w db \<noteq> [] then db else snd (insert_message BySystem ''summary'' (Some w) room None now db))"

text \<open>\<open>ORDER BY created_at DESC, id DESC LIMIT 1\<close>\<close>

definition latest_summary :: "uuid \<Rightarrow> db \<Rightarrow> uuid option" where
  "latest_summary w db =
     (case rev (sort_key (\<lambda>m. (ms_created_at m, ms_id m)) (summaries w db)) of [] \<Rightarrow> None | m # _ \<Rightarrow> Some (ms_id m))"

definition feed_task :: "uuid \<Rightarrow> db \<Rightarrow> task_row option" where
  "feed_task w db =
     (case rev (sort_key tk_created_at (filter (\<lambda>t. tk_work t = Some w) (db_tasks db))) of [] \<Rightarrow> None | t # _ \<Rightarrow> Some t)"

definition record_summary_origin :: "uuid \<Rightarrow> bool \<Rightarrow> time \<Rightarrow> db \<Rightarrow> db" where
  "record_summary_origin w by_llm now db =
     (case feed_task w db of
        None \<Rightarrow> db
      | Some t \<Rightarrow> insert_server_event_once (tk_id t) (tk_attempt t) ''runtime'' ''report''
          (''summary.generated_by:'' @ (if by_llm then ''platform_llm'' else ''fallback'')) ''info'' now db)"

definition record_summary_failure :: "uuid \<Rightarrow> time \<Rightarrow> db \<Rightarrow> db" where
  "record_summary_failure w now db =
     (case feed_task w db of
        None \<Rightarrow> db
      | Some t \<Rightarrow> insert_server_event_once (tk_id t) (tk_attempt t) ''runtime'' ''error'' ''summary.failed'' ''failed'' now db)"

definition write_summary :: "llm_reply option \<Rightarrow> uuid \<Rightarrow> uuid \<Rightarrow> time \<Rightarrow> db \<Rightarrow> db" where
  "write_summary llm room w now db =
     (let plan = summarise llm (summaries w db \<noteq> []);
          db = (if sp_post plan then record_summary_origin w (sp_by_llm plan) now (post_summary_once room w now db) else db)
      in if sp_feed_error plan then record_summary_failure w now db else db)"

section \<open>Directories\<close>

fun segments :: "string \<Rightarrow> string list" where
  "segments [] = [[]]"
| "segments (c # cs) =
     (if c = CHR ''/'' then [] # segments cs
      else (case segments cs of [] \<Rightarrow> [[c]] | s # ss \<Rightarrow> (c # s) # ss))"

text \<open>The folder \<open>.../rooms/x/_room/y\<close> of an agent's turns outside any mission.\<close>

definition room_folder :: "workdir_row \<Rightarrow> bool" where
  "room_folder d \<longleftrightarrow> \<not> wd_worktree d \<and>
     (let r = rev (segments (wd_path d));
          r = (case r of [] # r' \<Rightarrow> r' | _ \<Rightarrow> r)
      in case r of
           y # outside # x # rooms # parent # _ \<Rightarrow>
             y \<noteq> [] \<and> outside = ''_room'' \<and> x \<noteq> [] \<and> rooms = ''rooms''
         | _ \<Rightarrow> False)"

definition open_elsewhere :: "uuid \<Rightarrow> db \<Rightarrow> lane_row \<Rightarrow> bool" where
  "open_elsewhere w db l \<longleftrightarrow> ln_work l \<noteq> Some w \<and>
     (case ln_work l of
        None \<Rightarrow> True
      | Some v \<Rightarrow> (case get_work v db of None \<Rightarrow> False
                    | Some r \<Rightarrow> wk_status r \<noteq> WkCompleted \<and> wk_status r \<noteq> WkCancelled))"

definition mission_dir :: "uuid \<Rightarrow> db \<Rightarrow> workdir_row \<Rightarrow> bool" where
  "mission_dir w db d \<longleftrightarrow> wd_work d = None \<and> \<not> room_folder d
     \<and> \<not> list_ex (\<lambda>l. (ln_workdir l = Some (wd_id d) \<or> wd_lane d = Some (ln_id l)) \<and> open_elsewhere w db l) (db_lanes db)"

definition is_abs :: "string \<Rightarrow> bool" where
  "is_abs p = (case p of c # _ \<Rightarrow> c = CHR ''/'' | [] \<Rightarrow> False)"

definition build_gc_command :: "(uuid \<Rightarrow> string) \<Rightarrow> uuid \<Rightarrow> workdir_row list \<Rightarrow> command" where
  "build_gc_command id_text room ds =
     \<lparr>cm_type = CmdGC, cm_task = None, cm_attempt = 0, cm_after_current_tool = False, cm_reason = [],
      cm_workdirs = map (\<lambda>d. (id_text (wd_id d), wd_path d)) (filter (\<lambda>d. is_abs (wd_path d)) ds),
      cm_session = Some room, cm_test_chat = None\<rparr>"

definition gc_workdirs :: "(uuid \<Rightarrow> string) \<Rightarrow> uuid \<Rightarrow> uuid \<Rightarrow> db \<Rightarrow> db_error + db" where
  "gc_workdirs id_text room w db =
     (case tbl_get rm_id (db_rooms db) room of
        None \<Rightarrow> Inl DbMissingRow
      | Some r \<Rightarrow>
          if rm_isolation r \<noteq> ''none'' \<and> rm_isolation r \<noteq> ''container'' then Inr db
          else (case rm_runtime r of
                  None \<Rightarrow> Inr db
                | Some rt \<Rightarrow>
                    let ds = sort_key wd_created_at
                               (filter (\<lambda>d. wd_room d = room \<and> \<not> wd_deleted d \<and> mission_dir w db d) (db_workdirs db));
                        c = build_gc_command id_text room ds
                    in if ds = [] \<or> cm_workdirs c = [] then Inr db else Inr (queue_command rt c db)))"

section \<open>The approval request\<close>

definition open_approval :: "uuid \<Rightarrow> hitl_row \<Rightarrow> bool" where
  "open_approval w h \<longleftrightarrow> hi_work h = Some w \<and> hi_source h = ''system'' \<and> hi_purpose h = cond_user_approval
     \<and> hi_status h = ''open''"

definition approval_open :: "uuid \<Rightarrow> db \<Rightarrow> bool" where
  "approval_open w db = list_ex (open_approval w) (db_hitls db)"

definition mission_busy :: "uuid \<Rightarrow> db \<Rightarrow> bool" where
  "mission_busy w db = list_ex (\<lambda>t. tk_work t = Some w
     \<and> (tk_status t = Queued \<or> tk_status t = Dispatched \<or> tk_status t = Preparing \<or> tk_status t = Running)
     \<and> \<not> held_task t) (db_tasks db)"

definition turned_down :: "uuid \<Rightarrow> hitl_row \<Rightarrow> bool" where
  "turned_down w h \<longleftrightarrow> hi_work h = Some w \<and> hi_purpose h = cond_user_approval \<and> hi_status h = ''answered''
     \<and> hi_approved h = Some False"

text \<open>The latest rejection; \<open>None\<close> where the comparison is NULL (an answer without a time sorts first).\<close>

definition last_rejection :: "uuid \<Rightarrow> db \<Rightarrow> time option" where
  "last_rejection w db =
     (let ts = map hi_answered_at (filter (turned_down w) (db_hitls db)) in
      if List.member ts None then None
      else (case map the ts of [] \<Rightarrow> None | t # ts \<Rightarrow> Some (fold max ts t)))"

definition revision_addressed :: "uuid \<Rightarrow> db \<Rightarrow> bool" where
  "revision_addressed w db \<longleftrightarrow>
     \<not> list_ex (turned_down w) (db_hitls db)
   \<or> list_ex (\<lambda>c. cd_work c = Some w \<and> cd_status c = Accepted
                \<and> (case last_rejection w db of None \<Rightarrow> False | Some t \<Rightarrow> cd_updated_at c > t)) (db_cards db)"

text \<open>\<open>INSERT ... ON CONFLICT DO NOTHING\<close> under the unique index of the open approvals.\<close>

definition insert_request :: "uuid \<Rightarrow> uuid \<Rightarrow> string \<Rightarrow> db \<Rightarrow> uuid option \<times> db" where
  "insert_request room w purpose db =
     (if purpose = cond_user_approval \<and> approval_open w db then (None, db)
      else (Some (db_next db),
            db\<lparr>db_hitls := db_hitls db @ [\<lparr>hi_id = db_next db, hi_task = None, hi_purpose = purpose, hi_status = ''open'',
                 hi_approved = None, hi_source = ''system'', hi_room = room, hi_work = Some w, hi_answered_at = None,
                 hi_message = None, hi_spec = ''director''\<rparr>],
               db_next := db_next db + 1\<rparr>))"

definition insert_inbox :: "uuid \<Rightarrow> string \<Rightarrow> time \<Rightarrow> db \<Rightarrow> db" where
  "insert_inbox ref ty now db = db\<lparr>db_inbox := db_inbox db @ [\<lparr>ib_ref = ref, ib_type = ty, ib_at = now, ib_read_at = None\<rparr>]\<rparr>"

definition attach_hitl_card :: "uuid \<Rightarrow> uuid option \<Rightarrow> uuid \<Rightarrow> time \<Rightarrow> db \<Rightarrow> db" where
  "attach_hitl_card room work h now db =
     (case insert_message BySystem ''hitl'' work room None now db of (msg, db) \<Rightarrow>
        db\<lparr>db_hitls := tbl_modify hi_id h (\<lambda>r. r\<lparr>hi_message := Some msg\<rparr>) (db_hitls db)\<rparr>)"

section \<open>One event\<close>

definition record_rejection :: "work_row \<Rightarrow> mission_event \<Rightarrow> outcome \<Rightarrow> time \<Rightarrow> db \<Rightarrow> outcome \<times> db" where
  "record_rejection w ev out now db =
     (if oc_decision out \<and> oc_reason out \<noteq> [] then
        (out\<lparr>oc_decision_id := Some (db_next db)\<rparr>,
         db\<lparr>db_decisions := db_decisions db @ [\<lparr>de_id = db_next db, de_room = wk_room w, de_work = Some (wk_id w),
              de_summary = [], de_rationale = oc_reason out,
              de_source = (if me_kind ev = ReviewReject then ''agent'' else ''hitl''),
              de_ref = me_ref ev, de_created_at = now\<rparr>],
            db_next := db_next db + 1\<rparr>)
      else (out, db))"

definition pause_mission :: "work_row \<Rightarrow> string \<Rightarrow> uuid list \<Rightarrow> time \<Rightarrow> db \<Rightarrow> db_error + db" where
  "pause_mission w why locked now db =
     bindE (update_work (wk_id w)
       (\<lambda>r. r\<lparr>wk_status := WkPaused, wk_paused_reason := Some why, wk_paused_detail := Some False, wk_updated_at := now\<rparr>) db) (\<lambda>db.
     bindE (pause_tasks (\<lambda>t. tk_work t = Some (wk_id w)) why [] locked now db) (\<lambda>db.
     Inr (insert_inbox (wk_id w) ''work_paused'' now db)))"

text \<open>A statement over many tasks fails as a whole when one row breaks a constraint.\<close>

definition update_tasks :: "(task_row \<Rightarrow> bool) \<Rightarrow> (task_row \<Rightarrow> task_row) \<Rightarrow> db \<Rightarrow> db_error + db" where
  "update_tasks p f db =
     (if list_all (\<lambda>t. p t \<longrightarrow> task_check (f t)) (db_tasks db)
      then Inr (db\<lparr>db_tasks := tbl_upd p f (db_tasks db)\<rparr>) else Inl DbCheck)"

definition close_mission ::
    "env \<Rightarrow> llm_reply option \<Rightarrow> work_row \<Rightarrow> outcome \<Rightarrow> time \<Rightarrow> db \<Rightarrow> db_error + outcome \<times> db" where
  "close_mission env llm w out now db =
     bindE (update_work (wk_id w) (\<lambda>r. r\<lparr>wk_status := WkCompleting, wk_updated_at := now\<rparr>) db) (\<lambda>db.
     let db = write_summary llm (wk_room w) (wk_id w) now db;
         out = out\<lparr>oc_summaries := length (summaries (wk_id w) db)\<rparr> in
     bindE (update_work (wk_id w)
       (\<lambda>r. r\<lparr>wk_status := WkCompleted, wk_paused_reason := None, wk_paused_detail := None, wk_finished_at := Some now,
              wk_updated_at := now, wk_summary := latest_summary (wk_id w) db\<rparr>) db) (\<lambda>db.
     bindE (cancel_held (wk_id w) now db) (\<lambda>db.
     bindE (update_tasks (\<lambda>t. tk_work t = Some (wk_id w) \<and> (tk_status t = Queued \<or> tk_status t = Deferred))
       (\<lambda>t. t\<lparr>tk_status := Cancelled, tk_finished_at := Some now, tk_updated_at := now\<rparr>) db) (\<lambda>db.
     let db = cancel_cards_where (\<lambda>c. cd_work c = Some (wk_id w)) now db;
         db = insert_inbox (wk_id w) ''work_completed'' now db in
     bindE (gc_workdirs (en_id_text env) (wk_room w) (wk_id w) db) (\<lambda>db.
     Inr (out, db))))))"

definition carry_out ::
    "env \<Rightarrow> llm_reply option \<Rightarrow> uuid list \<Rightarrow> work_row \<Rightarrow> outcome \<Rightarrow> time \<Rightarrow> db \<Rightarrow> db_error + outcome \<times> db" where
  "carry_out env llm locked w out now db =
     (if oc_state out = WkPaused then
        bindE (pause_mission w (oc_pause out) locked now db) (\<lambda>db. Inr (out, db))
      else if oc_state out = WkCompleted then close_mission env llm w out now db
      else Inr (out, db))"

text \<open>The guards on the platform's question: one open request, a revised mission, no running work.\<close>

definition approval_ask :: "mission_event \<Rightarrow> outcome \<Rightarrow> bool" where
  "approval_ask ev out \<longleftrightarrow> oc_hitl out \<and> me_kind ev \<noteq> BudgetExhausted"

definition may_ask :: "uuid \<Rightarrow> db \<Rightarrow> bool" where
  "may_ask w db \<longleftrightarrow> \<not> approval_open w db \<and> revision_addressed w db"

definition judge_approval :: "uuid \<Rightarrow> mission_event \<Rightarrow> outcome \<Rightarrow> db \<Rightarrow> outcome" where
  "judge_approval w ev out db =
     (if \<not> approval_ask ev out then out
      else let held = may_ask w db \<and> mission_busy w db
           in out\<lparr>oc_hitl := may_ask w db \<and> \<not> held, oc_held := held\<rparr>)"

definition mark_hold :: "uuid \<Rightarrow> bool \<Rightarrow> outcome \<Rightarrow> time \<Rightarrow> db \<Rightarrow> db" where
  "mark_hold w asked out now db =
     (if asked \<or> oc_state out = WkCompleted
      then db\<lparr>db_works := tbl_modify wk_id w (\<lambda>r. r\<lparr>wk_held_at :=
             (if oc_held out then Some (case wk_held_at r of None \<Rightarrow> now | Some v \<Rightarrow> v) else None)\<rparr>) (db_works db)\<rparr>
      else db)"

definition judge_quiet :: "cond_tree \<Rightarrow> uuid \<Rightarrow> bool \<Rightarrow> mission_event \<Rightarrow> outcome \<Rightarrow> time \<Rightarrow> db \<Rightarrow> db" where
  "judge_quiet tree w asked ev out now db =
     (if oc_state out \<noteq> WkActive then db
      else if asked \<and> (oc_hitl out \<or> oc_held out) then snd (quiet_enter w now db)
      else if me_kind ev = DirectorReject then quiet_release w (Some ''released'') now db
      else if \<not> needs_user_approval tree (oc_met out) then quiet_release w None now db
      else db)"

definition issue_request :: "work_row \<Rightarrow> mission_event \<Rightarrow> outcome \<Rightarrow> time \<Rightarrow> db \<Rightarrow> outcome \<times> db" where
  "issue_request w ev out now db =
     (if \<not> oc_hitl out then (out, db)
      else case insert_request (wk_room w) (wk_id w)
                  (if me_kind ev = BudgetExhausted then ''budget'' else cond_user_approval) db of
             (None, db) \<Rightarrow> (out\<lparr>oc_hitl := False\<rparr>, db)
           | (Some h, db) \<Rightarrow> (out, insert_inbox h ''hitl_request'' now (attach_hitl_card (wk_room w) (Some (wk_id w)) h now db)))"

definition closed_work :: "work_row \<Rightarrow> bool" where
  "closed_work w \<longleftrightarrow> wk_status w = WkCompleted \<or> wk_status w = WkCancelled"

definition mission_tree :: "env \<Rightarrow> work_row \<Rightarrow> cond_tree" where
  "mission_tree env w = bind_assignee (wk_assignee w) (parse_tree (en_parse_id env) (wk_condition w))"

definition apply_work_event ::
    "env \<Rightarrow> llm_reply option \<Rightarrow> uuid list \<Rightarrow> uuid \<Rightarrow> mission_event \<Rightarrow> time \<Rightarrow> db \<Rightarrow> db_error + outcome \<times> db" where
  "apply_work_event env llm locked i ev now db =
     (case get_work i db of
        None \<Rightarrow> Inl ErrNotFound
      | Some w \<Rightarrow>
          if closed_work w then Inl ErrWorkClosed
          else let tree = mission_tree env w;
                   out = apply_event tree (wk_met w) ev in
          if oc_error out \<noteq> None then Inr (out, db)
          else bindE (update_work i (\<lambda>r. r\<lparr>wk_met := oc_met out, wk_updated_at := now\<rparr>) db) (\<lambda>db.
               case record_rejection w ev out now db of (out, db) \<Rightarrow>
               bindE (carry_out env llm locked w out now db) (\<lambda>(out, db).
               let asked = approval_ask ev out;
                   out = judge_approval i ev out db;
                   db = judge_quiet tree i asked ev out now (mark_hold i asked out now db)
               in Inr (issue_request w ev out now db))))"

section \<open>Re-reads\<close>

definition settled_event :: mission_event where
  "settled_event = \<lparr>me_kind = TasksSettled, me_actor = 0, me_note = [], me_ref = None\<rparr>"

definition hold_due :: "uuid \<Rightarrow> db \<Rightarrow> bool" where
  "hold_due i db = (case get_work i db of None \<Rightarrow> False
     | Some w \<Rightarrow> wk_held_at w \<noteq> None \<and> wk_status w = WkActive \<and> \<not> mission_busy i db)"

definition release_held_approval ::
    "env \<Rightarrow> llm_reply option \<Rightarrow> uuid \<Rightarrow> time \<Rightarrow> db \<Rightarrow> db_error + bool \<times> db" where
  "release_held_approval env llm i now db =
     (if \<not> hold_due i db then Inr (False, db)
      else (case apply_work_event env llm [] i settled_event now db of
              Inl e \<Rightarrow> if e = ErrWorkClosed then Inr (False, db) else Inl e
            | Inr (out, db) \<Rightarrow> Inr (oc_hitl out, db)))"

text \<open>A loop of transactions of its own each: an error stops it, what was committed stays.\<close>

fun each_committed :: "(uuid \<Rightarrow> db \<Rightarrow> db_error + bool \<times> db) \<Rightarrow> uuid list \<Rightarrow> nat \<Rightarrow> db \<Rightarrow> (db_error + nat) \<times> db" where
  "each_committed f [] n db = (Inr n, db)"
| "each_committed f (i # is) n db =
     (case f i db of Inl e \<Rightarrow> (Inl e, db)
      | Inr (opened, db') \<Rightarrow> each_committed f is (if opened then n + 1 else n) db')"

definition release_held_approvals :: "env \<Rightarrow> llm_reply option \<Rightarrow> time \<Rightarrow> db \<Rightarrow> (db_error + nat) \<times> db" where
  "release_held_approvals env llm now db =
     each_committed (\<lambda>i. release_held_approval env llm i now)
       (map wk_id (filter (\<lambda>w. wk_held_at w \<noteq> None \<and> wk_status w = WkActive) (db_works db))) 0 db"

definition stalled_revision :: "db \<Rightarrow> work_row \<Rightarrow> bool" where
  "stalled_revision db w \<longleftrightarrow> wk_status w = WkActive \<and> \<not> approval_open (wk_id w) db
     \<and> list_ex (turned_down (wk_id w)) (db_hitls db)"

definition reread_stalled :: "env \<Rightarrow> llm_reply option \<Rightarrow> time \<Rightarrow> uuid \<Rightarrow> db \<Rightarrow> db_error + bool \<times> db" where
  "reread_stalled env llm now i db =
     (case apply_work_event env llm [] i settled_event now db of
        Inl e \<Rightarrow> if e = ErrWorkClosed then Inr (False, db) else Inl e
      | Inr (out, db) \<Rightarrow> Inr (oc_hitl out, db))"

definition release_stalled_revisions :: "env \<Rightarrow> llm_reply option \<Rightarrow> time \<Rightarrow> db \<Rightarrow> (db_error + nat) \<times> db" where
  "release_stalled_revisions env llm now db =
     each_committed (reread_stalled env llm now) (map wk_id (filter (stalled_revision db) (db_works db))) 0 db"

definition settle_quiet :: "uuid \<Rightarrow> time \<Rightarrow> db \<Rightarrow> bool \<times> db" where
  "settle_quiet i now db =
     (case get_work i db of
        None \<Rightarrow> (False, db)
      | Some w \<Rightarrow> if wk_quiet w = Some ''released'' \<and> wk_status w = WkActive \<and> \<not> mission_busy i db \<and> approval_open i db
                  then quiet_enter i now db else (False, db))"

definition notify_mission_idle :: "uuid \<Rightarrow> time \<Rightarrow> db \<Rightarrow> bool \<times> db" where
  "notify_mission_idle i now db =
     (case get_work i db of
        None \<Rightarrow> (False, db)
      | Some w \<Rightarrow>
          if wk_status w = WkActive \<and> wk_held_at w = None \<and> \<not> mission_busy i db \<and> \<not> approval_open i db
             \<and> \<not> list_ex (\<lambda>b. ib_ref b = i \<and> ib_type b = ''work_idle'' \<and> ib_read_at b = None) (db_inbox db)
          then (True, insert_inbox i ''work_idle'' now
                        (snd (insert_message BySystem ''system'' (Some i) (wk_room w) None now db)))
          else (False, db))"

section \<open>The Director's answer\<close>

text \<open>
  \<open>answerCompletionApproval\<close> (\<open>httpapi/handlers_hitl.go\<close>): the answer is committed first, then
  folded into the completion state. \<open>Inr None\<close> is the ignored second answer.
\<close>

definition answer_request :: "uuid \<Rightarrow> bool \<Rightarrow> time \<Rightarrow> db \<Rightarrow> db" where
  "answer_request h approved now db = db\<lparr>db_hitls := tbl_modify hi_id h
     (\<lambda>r. r\<lparr>hi_status := ''answered'', hi_approved := Some approved, hi_answered_at := Some now\<rparr>) (db_hitls db),
     db_inbox := tbl_upd (\<lambda>b. ib_ref b = h)
       (\<lambda>b. b\<lparr>ib_read_at := Some (case ib_read_at b of None \<Rightarrow> now | Some v \<Rightarrow> v)\<rparr>) (db_inbox db)\<rparr>"

definition request_work :: "hitl_row \<Rightarrow> db \<Rightarrow> uuid option" where
  "request_work h db = (case hi_work h of Some w \<Rightarrow> Some w
     | None \<Rightarrow> (case tbl_get rm_id (db_rooms db) (hi_room h) of None \<Rightarrow> None | Some r \<Rightarrow> rm_legacy_work r))"

definition answer_completion ::
    "env \<Rightarrow> llm_reply option \<Rightarrow> uuid \<Rightarrow> uuid \<Rightarrow> bool \<Rightarrow> string \<Rightarrow> time \<Rightarrow> db \<Rightarrow> (db_error + outcome option) \<times> db" where
  "answer_completion env llm h user approved reason now db =
     (case tbl_get hi_id (db_hitls db) h of
        None \<Rightarrow> (Inl ErrNotFound, db)
      | Some r \<Rightarrow>
          if hi_status r \<noteq> ''open'' then (Inr None, db)
          else let db1 = answer_request h approved now db in
          (case request_work r db of
             None \<Rightarrow> (Inl ErrNotFound, db1)
           | Some w \<Rightarrow>
               (case apply_work_event env llm [] w
                       \<lparr>me_kind = (if approved then DirectorApprove else DirectorReject), me_actor = user,
                        me_note = reason, me_ref = Some h\<rparr> now db1 of
                  Inl e \<Rightarrow> (Inl e, db1)
                | Inr (out, db2) \<Rightarrow> (Inr (Some out), db2))))"

end
