(* ===== verification/Mission_Facts.thy ===== *)
theory Mission_Facts
  imports Mission_Close Task_Service
begin

text \<open>
  What the events of a mission guarantee: one open question and one summary per mission, a closed
  mission stays closed, the question is only put when nothing runs, a held question is put once
  the work settles, and what closing a mission leaves behind.
\<close>

section \<open>What the steps leave alone\<close>

text \<open>The requests and the messages of the mission layer.\<close>

definition same_talk :: "db \<Rightarrow> db \<Rightarrow> bool" where
  "same_talk db db' \<longleftrightarrow> db_hitls db' = db_hitls db \<and> db_messages db' = db_messages db \<and> db_works db' = db_works db"

lemma same_talk_refl [simp]: "same_talk db db"
  by (simp add: same_talk_def)

lemma same_talk_trans: "same_talk a b \<Longrightarrow> same_talk b c \<Longrightarrow> same_talk a c"
  by (simp add: same_talk_def)

lemma foldE_same_talk:
  assumes "foldE f xs db = Inr db'" and "\<And>x db db'. f x db = Inr db' \<Longrightarrow> same_talk db db'"
  shows "same_talk db db'"
  using assms(1) by (induction xs arbitrary: db) (auto dest: assms(2) intro: same_talk_trans)

lemma insert_event_same_talk [simp]: "same_talk db (insert_server_event i n c v ob oc now db)"
  by (simp add: same_talk_def insert_server_event_def)

lemma insert_event_once_same_talk [simp]: "same_talk db (insert_server_event_once i n c v ob oc now db)"
  by (simp add: insert_server_event_once_def)

lemma update_task_same_talk: "update_task i f db = Inr db' \<Longrightarrow> same_talk db db'"
  by (auto simp: same_talk_def update_task_def split: option.splits if_splits)

lemma update_tasks_same_talk: "update_tasks p f db = Inr db' \<Longrightarrow> same_talk db db'"
  by (auto simp: same_talk_def update_tasks_def split: if_splits)

lemma pause_locked_same_talk: "pause_locked t why detail target now db = Inr (t', db') \<Longrightarrow> same_talk db db'"
  by (auto simp: pause_locked_def Let_def same_talk_def update_lane_def queue_command_def
      dest!: update_task_same_talk split: option.splits if_splits)

lemma pause_tasks_same_talk: "pause_tasks p why detail locked now db = Inr db' \<Longrightarrow> same_talk db db'"
  by (auto simp: pause_tasks_def Let_def split: if_splits
      elim!: foldE_same_talk dest: pause_locked_same_talk)

lemma cancel_one_same_talk: "cancel_one i n lane now db = Inr db' \<Longrightarrow> same_talk db db'"
  by (auto simp: cancel_one_def same_talk_def update_lane_def insert_server_event_def
      dest!: update_task_same_talk split: if_splits)

lemma gc_workdirs_same_talk: "gc_workdirs f room w db = Inr db' \<Longrightarrow> same_talk db db'"
  by (auto simp: gc_workdirs_def Let_def same_talk_def queue_command_def split: option.splits if_splits)

lemma record_events_same_talk [simp]:
  "same_talk db (record_summary_origin w b now db)" "same_talk db (record_summary_failure w now db)"
  by (simp_all add: record_summary_origin_def record_summary_failure_def split: option.split)

section \<open>One question, one summary\<close>

definition one_question :: "db \<Rightarrow> bool" where
  "one_question db \<longleftrightarrow> (\<forall>w. length (filter (open_approval w) (db_hitls db)) \<le> 1)"

definition one_summary :: "db \<Rightarrow> bool" where
  "one_summary db \<longleftrightarrow> (\<forall>w. length (summaries w db) \<le> 1)"

lemma same_talk_keeps:
  "same_talk db db' \<Longrightarrow> one_question db' = one_question db \<and> one_summary db' = one_summary db
     \<and> summaries w db' = summaries w db \<and> approval_open w db' = approval_open w db"
  by (simp add: same_talk_def one_question_def one_summary_def summaries_def approval_open_def)

definition talk_ok :: "db \<Rightarrow> bool" where
  "talk_ok db \<longleftrightarrow> one_question db \<and> one_summary db"

lemma talk_ok_same: "talk_ok db \<Longrightarrow> db_hitls db' = db_hitls db \<Longrightarrow> db_messages db' = db_messages db \<Longrightarrow> talk_ok db'"
  by (simp add: talk_ok_def one_question_def one_summary_def summaries_def)

lemma talk_ok_same_talk: "talk_ok db \<Longrightarrow> same_talk db db' \<Longrightarrow> talk_ok db'"
  by (rule talk_ok_same) (auto simp: same_talk_def)

lemma same_talk_ok: "same_talk db db' \<Longrightarrow> talk_ok db' = talk_ok db"
  by (simp add: same_talk_def talk_ok_def one_question_def one_summary_def summaries_def)

lemma talk_ok_summary [intro]: "talk_ok db \<Longrightarrow> talk_ok (post_summary_once room w now db)"
  by (auto simp: talk_ok_def post_summary_once_def one_question_def one_summary_def summaries_def insert_message_def
      mission_summary_def)

lemma talk_ok_message [intro]:
  "talk_ok db \<Longrightarrow> k \<noteq> ''summary'' \<Longrightarrow> talk_ok (snd (insert_message a k wk room src now db))"
  by (auto simp: talk_ok_def one_question_def one_summary_def summaries_def insert_message_def mission_summary_def)

lemma open_approval_modify:
  assumes "\<And>h. open_approval w (f h) \<Longrightarrow> open_approval w h"
  shows "length (filter (open_approval w) (tbl_modify hi_id k f hs)) \<le> length (filter (open_approval w) hs)"
  by (induction hs) (auto dest: assms)

lemma talk_ok_hitls:
  assumes "talk_ok db" and "db_messages db' = db_messages db"
    and "\<And>w. length (filter (open_approval w) (db_hitls db')) \<le> length (filter (open_approval w) (db_hitls db))"
  shows "talk_ok db'"
  using assms order_trans by (fastforce simp: talk_ok_def one_question_def one_summary_def summaries_def)

lemma talk_ok_request:
  assumes "talk_ok db" and "insert_request room w purpose db = (h, db')"
  shows "talk_ok db'"
  using assms by (auto simp: insert_request_def talk_ok_def one_question_def one_summary_def summaries_def
      open_approval_def approval_open_def list_ex_iff filter_empty_conv split: if_splits)

lemma talk_ok_attach:
  assumes "talk_ok db"
  shows "talk_ok (attach_hitl_card room w h now db)"
proof -
  obtain msg db1 where m: "insert_message BySystem ''hitl'' w room None now db = (msg, db1)" by fastforce
  then have "talk_ok db1" using talk_ok_message [OF assms, of "''hitl''" BySystem w room None now] by simp
  then have "talk_ok (db1\<lparr>db_hitls := tbl_modify hi_id h (\<lambda>r. r\<lparr>hi_message := Some msg\<rparr>) (db_hitls db1)\<rparr>)"
    by (rule talk_ok_hitls) (auto intro!: open_approval_modify simp: open_approval_def)
  with m show ?thesis by (simp add: attach_hitl_card_def)
qed

lemma talk_ok_works [simp]: "talk_ok (db\<lparr>db_works := ws\<rparr>) = talk_ok db"
  by (simp add: talk_ok_def one_question_def one_summary_def summaries_def)

lemma talk_ok_inbox [simp]: "talk_ok (insert_inbox ref ty now db) = talk_ok db"
  by (simp add: talk_ok_def one_question_def one_summary_def summaries_def insert_inbox_def)

lemma talk_ok_cards [simp]: "talk_ok (cancel_cards_where p now db) = talk_ok db"
  by (simp add: talk_ok_def one_question_def one_summary_def summaries_def cancel_cards_where_def)

lemma talk_ok_tasks [simp]: "talk_ok (db\<lparr>db_tasks := ts\<rparr>) = talk_ok db"
  by (simp add: talk_ok_def one_question_def one_summary_def summaries_def)

lemma talk_ok_quiet [simp]:
  "talk_ok (set_quiet w q since db) = talk_ok db" "talk_ok (quiet_release w q now db) = talk_ok db"
  "talk_ok (snd (quiet_enter w now db)) = talk_ok db" "talk_ok (snd (quiet_hold i db)) = talk_ok db"
  "talk_ok (mark_hold w asked out now db) = talk_ok db"
  by (auto simp: set_quiet_def quiet_release_def quiet_enter_def quiet_hold_def mark_hold_def release_held_tasks_def Let_def
      split: option.split)

lemma talk_ok_update_work: "talk_ok db \<Longrightarrow> update_work i f db = Inr db' \<Longrightarrow> talk_ok db'"
  by (auto simp: update_work_def split: option.splits if_splits)

lemma talk_ok_events [simp]:
  "talk_ok (record_summary_origin w b now db) = talk_ok db" "talk_ok (record_summary_failure w now db) = talk_ok db"
  by (simp_all add: same_talk_ok [OF record_events_same_talk(1)] same_talk_ok [OF record_events_same_talk(2)])

lemma talk_ok_write_summary: "talk_ok db \<Longrightarrow> talk_ok (write_summary llm room w now db)"
  by (auto simp: write_summary_def Let_def)

lemma cancel_held_talk: "talk_ok db \<Longrightarrow> cancel_held w now db = Inr db' \<Longrightarrow> talk_ok db'"
proof -
  assume ok: "talk_ok db" and run: "cancel_held w now db = Inr db'"
  then obtain db1 where f: "foldE (\<lambda>t. cancel_one (tk_id t) (tk_attempt t) (tk_lane t) now)
       (sort_key tk_created_at (filter (\<lambda>t. tk_work t = Some w \<and> held_task t) (db_tasks db))) db = Inr db1"
    and db': "db' = set_quiet w None None db1" by (auto simp: cancel_held_def)
  have "same_talk db db1" by (rule foldE_same_talk [OF f]) (rule cancel_one_same_talk)
  with ok db' show "talk_ok db'" by (simp add: same_talk_ok)
qed

text \<open>The steps of closing a mission.\<close>

lemma close_mission_steps:
  assumes "close_mission env llm w out now db = Inr (out', db')"
  obtains a b c d where
    "update_work (wk_id w) (\<lambda>r. r\<lparr>wk_status := WkCompleting, wk_updated_at := now\<rparr>) db = Inr a"
    and "update_work (wk_id w) (\<lambda>r. r\<lparr>wk_status := WkCompleted, wk_paused_reason := None, wk_paused_detail := None,
        wk_finished_at := Some now, wk_updated_at := now,
        wk_summary := latest_summary (wk_id w) (write_summary llm (wk_room w) (wk_id w) now a)\<rparr>)
      (write_summary llm (wk_room w) (wk_id w) now a) = Inr b"
    and "cancel_held (wk_id w) now b = Inr c"
    and "update_tasks (\<lambda>t. tk_work t = Some (wk_id w) \<and> (tk_status t = Queued \<or> tk_status t = Deferred))
       (\<lambda>t. t\<lparr>tk_status := Cancelled, tk_finished_at := Some now, tk_updated_at := now\<rparr>) c = Inr d"
    and "gc_workdirs (en_id_text env) (wk_room w) (wk_id w)
       (insert_inbox (wk_id w) ''work_completed'' now (cancel_cards_where (\<lambda>c. cd_work c = Some (wk_id w)) now d)) = Inr db'"
    and "out' = out\<lparr>oc_summaries := length (summaries (wk_id w) (write_summary llm (wk_room w) (wk_id w) now a))\<rparr>"
  using assms by (auto simp: close_mission_def Let_def)

lemma talk_ok_close:
  assumes "talk_ok db" and "close_mission env llm w out now db = Inr (out', db')"
  shows "talk_ok db'"
  using assms(2)
proof (rule close_mission_steps)
  fix a b c d
  assume a: "update_work (wk_id w) (\<lambda>r. r\<lparr>wk_status := WkCompleting, wk_updated_at := now\<rparr>) db = Inr a"
    and b: "update_work (wk_id w) (\<lambda>r. r\<lparr>wk_status := WkCompleted, wk_paused_reason := None, wk_paused_detail := None,
        wk_finished_at := Some now, wk_updated_at := now,
        wk_summary := latest_summary (wk_id w) (write_summary llm (wk_room w) (wk_id w) now a)\<rparr>)
      (write_summary llm (wk_room w) (wk_id w) now a) = Inr b"
    and c: "cancel_held (wk_id w) now b = Inr c"
    and d: "update_tasks (\<lambda>t. tk_work t = Some (wk_id w) \<and> (tk_status t = Queued \<or> tk_status t = Deferred))
       (\<lambda>t. t\<lparr>tk_status := Cancelled, tk_finished_at := Some now, tk_updated_at := now\<rparr>) c = Inr d"
    and e: "gc_workdirs (en_id_text env) (wk_room w) (wk_id w)
       (insert_inbox (wk_id w) ''work_completed'' now (cancel_cards_where (\<lambda>c. cd_work c = Some (wk_id w)) now d)) = Inr db'"
  have "talk_ok c"
    using cancel_held_talk [OF _ c] talk_ok_update_work [OF _ b] talk_ok_write_summary talk_ok_update_work [OF assms(1) a] by blast
  then have "talk_ok d" using talk_ok_same_talk update_tasks_same_talk [OF d] by blast
  then show ?thesis using talk_ok_same_talk [OF _ gc_workdirs_same_talk [OF e]] by simp
qed

lemma talk_ok_record [simp]: "talk_ok (snd (record_rejection w ev out now db)) = talk_ok db"
  by (simp add: record_rejection_def talk_ok_def one_question_def one_summary_def summaries_def)

lemma talk_ok_carry_out:
  assumes "talk_ok db" and "carry_out env llm locked w out now db = Inr (out', db')"
  shows "talk_ok db'"
  using assms by (auto simp: carry_out_def pause_mission_def split: if_splits
      intro: talk_ok_close talk_ok_same_talk [OF talk_ok_update_work pause_tasks_same_talk])

lemma talk_ok_issue:
  "talk_ok db \<Longrightarrow> talk_ok (snd (issue_request w ev out now db))"
  by (auto simp: issue_request_def split: prod.split option.split dest: talk_ok_request intro: talk_ok_attach)

lemma talk_ok_judge [simp]: "talk_ok (judge_quiet tree w asked ev out now db) = talk_ok db"
  by (simp add: judge_quiet_def)

text \<open>The steps of an event that is not refused.\<close>

lemma apply_work_event_steps:
  assumes "apply_work_event env llm locked i ev now db = Inr (out, db')"
  obtains (refused) w where "get_work i db = Some w" "\<not> closed_work w"
      "out = apply_event (mission_tree env w) (wk_met w) ev" "oc_error out \<noteq> None" "db' = db"
  | (applied) w a o1 b o2 c o3 where "get_work i db = Some w" "\<not> closed_work w"
      "oc_error (apply_event (mission_tree env w) (wk_met w) ev) = None"
      "update_work i (\<lambda>r. r\<lparr>wk_met := oc_met (apply_event (mission_tree env w) (wk_met w) ev), wk_updated_at := now\<rparr>) db = Inr a"
      "record_rejection w ev (apply_event (mission_tree env w) (wk_met w) ev) now a = (o1, b)"
      "carry_out env llm locked w o1 now b = Inr (o2, c)"
      "o3 = judge_approval i ev o2 c"
      "(out, db') = issue_request w ev o3 now
         (judge_quiet (mission_tree env w) i (approval_ask ev o2) ev o3 now (mark_hold i (approval_ask ev o2) o3 now c))"
  using assms by (auto simp: apply_work_event_def Let_def split: option.splits if_splits prod.splits)

lemma talk_ok_apply:
  assumes "talk_ok db" and "apply_work_event env llm locked i ev now db = Inr (out, db')"
  shows "talk_ok db'"
  using assms(2)
proof (cases rule: apply_work_event_steps)
  case refused
  then show ?thesis using assms(1) by simp
next
  case (applied w a o1 b o2 c o3)
  have "talk_ok a" using talk_ok_update_work assms(1) applied(4) .
  then have "talk_ok b" using talk_ok_record [of w ev _ now a] applied(5) by (metis snd_conv)
  then have "talk_ok c" using talk_ok_carry_out applied(6) by blast
  then show ?thesis using talk_ok_issue [of _ w ev o3 now] applied(8) by (metis snd_conv talk_ok_judge talk_ok_quiet(5))
qed

section \<open>Other missions are left alone, closed ones too\<close>

lemma get_work_id: "get_work i db = Some w \<Longrightarrow> wk_id w = i"
  unfolding get_work_def by (rule tbl_get_Some_key)

lemma get_work_modify:
  assumes "\<And>w. wk_id (f w) = wk_id w"
  shows "get_work j (db\<lparr>db_works := tbl_modify wk_id i f (db_works db)\<rparr>) =
    (if j = i then map_option f (get_work j db) else get_work j db)"
  unfolding get_work_def using tbl_get_modify [of wk_id f, OF assms] by simp

lemma get_work_update:
  assumes "update_work i f db = Inr db'" and "\<And>w. wk_id (f w) = wk_id w"
  shows "get_work j db' = (if j = i then map_option f (get_work j db) else get_work j db)"
proof (cases "get_work i db")
  case None
  with assms(1) show ?thesis by (auto simp: update_work_def)
next
  case (Some w)
  with assms(1) have "db' = db\<lparr>db_works := tbl_modify wk_id i f (db_works db)\<rparr>"
    by (simp add: update_work_def split: if_splits)
  then show ?thesis using get_work_modify [OF assms(2)] by simp
qed

lemma get_work_set_quiet:
  "get_work j (set_quiet i q since db) =
     (if j = i then map_option (\<lambda>w. w\<lparr>wk_quiet := q, wk_quiet_at := since\<rparr>) (get_work j db) else get_work j db)"
  by (simp add: set_quiet_def get_work_modify)

lemma get_work_tasks [simp]: "get_work j (db\<lparr>db_tasks := ts\<rparr>) = get_work j db"
  by (simp add: get_work_def)

lemma get_work_keep [simp]:
  "get_work j (insert_inbox ref ty now db) = get_work j db"
  "get_work j (cancel_cards_where p now db) = get_work j db"
  "get_work j (snd (insert_message a k wk room src now db)) = get_work j db"
  "get_work j (snd (record_rejection w ev out now db)) = get_work j db"
  "get_work j (attach_hitl_card room wk h now db) = get_work j db"
  "get_work j (snd (insert_request room i purpose db)) = get_work j db"
  "get_work j (snd (issue_request w ev out now db)) = get_work j db"
  by (auto simp: get_work_def insert_inbox_def cancel_cards_where_def insert_message_def record_rejection_def
      attach_hitl_card_def insert_request_def issue_request_def split: prod.split option.split)

lemma get_work_same_talk: "same_talk db db' \<Longrightarrow> get_work j db' = get_work j db"
  by (simp add: same_talk_def get_work_def)

lemma get_work_write_summary [simp]: "get_work j (write_summary llm room w now db) = get_work j db"
  by (auto simp: write_summary_def Let_def post_summary_once_def
      get_work_same_talk [OF record_events_same_talk(1)] get_work_same_talk [OF record_events_same_talk(2)])

lemma get_work_cancel_held:
  assumes "cancel_held i now db = Inr db'"
  shows "get_work j db' = (if j = i then map_option (\<lambda>w. w\<lparr>wk_quiet := None, wk_quiet_at := None\<rparr>) (get_work j db) else get_work j db)"
proof -
  from assms obtain db1 where f: "foldE (\<lambda>t. cancel_one (tk_id t) (tk_attempt t) (tk_lane t) now)
       (sort_key tk_created_at (filter (\<lambda>t. tk_work t = Some i \<and> held_task t) (db_tasks db))) db = Inr db1"
    and "db' = set_quiet i None None db1" by (auto simp: cancel_held_def)
  moreover have "same_talk db db1" by (rule foldE_same_talk [OF f]) (rule cancel_one_same_talk)
  ultimately show ?thesis by (simp add: get_work_set_quiet get_work_same_talk)
qed

lemma get_work_close:
  assumes "close_mission env llm w out now db = Inr (out', db')"
  shows "j \<noteq> wk_id w \<Longrightarrow> get_work j db' = get_work j db"
    and "get_work (wk_id w) db = Some w0 \<Longrightarrow>
      \<exists>w1. get_work (wk_id w) db' = Some w1 \<and> wk_status w1 = WkCompleted \<and> wk_quiet w1 = None"
proof -
  from assms obtain a b c d where
    a: "update_work (wk_id w) (\<lambda>r. r\<lparr>wk_status := WkCompleting, wk_updated_at := now\<rparr>) db = Inr a"
    and b: "update_work (wk_id w) (\<lambda>r. r\<lparr>wk_status := WkCompleted, wk_paused_reason := None, wk_paused_detail := None,
        wk_finished_at := Some now, wk_updated_at := now,
        wk_summary := latest_summary (wk_id w) (write_summary llm (wk_room w) (wk_id w) now a)\<rparr>)
      (write_summary llm (wk_room w) (wk_id w) now a) = Inr b"
    and c: "cancel_held (wk_id w) now b = Inr c"
    and d: "update_tasks (\<lambda>t. tk_work t = Some (wk_id w) \<and> (tk_status t = Queued \<or> tk_status t = Deferred))
       (\<lambda>t. t\<lparr>tk_status := Cancelled, tk_finished_at := Some now, tk_updated_at := now\<rparr>) c = Inr d"
    and e: "gc_workdirs (en_id_text env) (wk_room w) (wk_id w)
       (insert_inbox (wk_id w) ''work_completed'' now (cancel_cards_where (\<lambda>c. cd_work c = Some (wk_id w)) now d)) = Inr db'"
    by (rule close_mission_steps)
  have "get_work j db' = get_work j c" for j
    using get_work_same_talk [OF gc_workdirs_same_talk [OF e]] get_work_same_talk [OF update_tasks_same_talk [OF d]] by simp
  then show "j \<noteq> wk_id w \<Longrightarrow> get_work j db' = get_work j db"
    and "get_work (wk_id w) db = Some w0 \<Longrightarrow>
      \<exists>w1. get_work (wk_id w) db' = Some w1 \<and> wk_status w1 = WkCompleted \<and> wk_quiet w1 = None"
    by (simp_all add: get_work_cancel_held [OF c] get_work_update [OF b] get_work_update [OF a])
qed

lemma get_work_pause:
  assumes "pause_mission w why locked now db = Inr db'"
  shows "j \<noteq> wk_id w \<Longrightarrow> get_work j db' = get_work j db"
    and "get_work (wk_id w) db = Some w0 \<Longrightarrow> \<exists>w1. get_work (wk_id w) db' = Some w1 \<and> wk_status w1 = WkPaused"
  using assms by (auto simp: pause_mission_def get_work_same_talk [OF pause_tasks_same_talk] get_work_update)

lemma get_work_judge:
  "j \<noteq> i \<Longrightarrow> get_work j (judge_quiet tree i asked ev o1 now (mark_hold i asked o2 now db)) = get_work j db"
  "map_option wk_status (get_work i (judge_quiet tree i asked ev o1 now (mark_hold i asked o2 now db)))
     = map_option wk_status (get_work i db)"
  by (auto simp: judge_quiet_def mark_hold_def quiet_enter_def quiet_release_def release_held_tasks_def Let_def
      get_work_set_quiet get_work_modify option.map_comp comp_def split: option.split)

lemma get_work_carry_out:
  assumes "carry_out env llm locked w out now db = Inr (out', db')"
  shows "j \<noteq> wk_id w \<Longrightarrow> get_work j db' = get_work j db"
  using assms get_work_close(1) get_work_pause(1) by (fastforce simp: carry_out_def split: if_splits)

lemma apply_other_missions:
  assumes "apply_work_event env llm locked i ev now db = Inr (out, db')" and "j \<noteq> i"
  shows "get_work j db' = get_work j db"
  using assms(1)
proof (cases rule: apply_work_event_steps)
  case refused
  then show ?thesis by simp
next
  case (applied w a o1 b o2 c o3)
  have "get_work j c = get_work j b"
    using get_work_carry_out [OF applied(6)] get_work_id [OF applied(1)] assms(2) by simp
  moreover have "get_work j b = get_work j a" using get_work_keep(4) [of j w ev _ now a] applied(5) by (metis snd_conv)
  moreover have "get_work j a = get_work j db" using assms(2) by (simp add: get_work_update [OF applied(4)])
  ultimately show ?thesis
    using get_work_keep(7) [of j w ev o3 now] applied(8) get_work_judge(1) [OF assms(2)] by (metis snd_conv)
qed

text \<open>A closed mission keeps its status.\<close>

definition keeps_closed :: "db \<Rightarrow> db \<Rightarrow> bool" where
  "keeps_closed db db' \<longleftrightarrow> (\<forall>i w. get_work i db = Some w \<longrightarrow> closed_work w \<longrightarrow>
     (\<exists>w'. get_work i db' = Some w' \<and> wk_status w' = wk_status w))"

lemma keeps_closed_refl [simp]: "keeps_closed db db"
  by (simp add: keeps_closed_def)

lemma keeps_closed_trans: "keeps_closed a b \<Longrightarrow> keeps_closed b c \<Longrightarrow> keeps_closed a c"
  unfolding keeps_closed_def closed_work_def by metis

lemma keeps_closed_status:
  "(\<And>i. map_option wk_status (get_work i db') = map_option wk_status (get_work i db)) \<Longrightarrow> keeps_closed db db'"
  unfolding keeps_closed_def by (metis map_option_eq_Some option.simps(9))

lemma apply_keeps_closed:
  assumes "apply_work_event env llm locked i ev now db = Inr (out, db')"
  shows "keeps_closed db db'"
proof -
  have "\<exists>w. get_work i db = Some w \<and> \<not> closed_work w"
    using assms by (auto simp: apply_work_event_def split: option.splits if_splits)
  with apply_other_missions [OF assms] show ?thesis by (metis keeps_closed_def option.inject)
qed

section \<open>Runs of mission requests\<close>

text \<open>
  Every operation of the mission layer, each with what the platform LLM answers when it is asked.
  A request commits what its operation committed, also when it ends in an error.
\<close>

datatype mission_request =
    MissionEvent uuid mission_event "uuid list" time
  | ReleaseHeld uuid time | ReleaseAllHeld time | ReleaseStalled time
  | SettleQuiet uuid time | NotifyIdle uuid time
  | AnswerCompletion uuid uuid bool string time
  | HoldTrigger uuid | CancelClosed uuid time

definition commit :: "db \<Rightarrow> 'e + 'a \<times> db \<Rightarrow> db" where
  "commit db r = (case r of Inl _ \<Rightarrow> db | Inr (_, db') \<Rightarrow> db')"

fun serve_mission :: "env \<Rightarrow> llm_reply option \<times> mission_request \<Rightarrow> db \<Rightarrow> db" where
  "serve_mission env (llm, MissionEvent i ev locked now) db = commit db (apply_work_event env llm locked i ev now db)"
| "serve_mission env (llm, ReleaseHeld i now) db = commit db (release_held_approval env llm i now db)"
| "serve_mission env (llm, ReleaseAllHeld now) db = snd (release_held_approvals env llm now db)"
| "serve_mission env (llm, ReleaseStalled now) db = snd (release_stalled_revisions env llm now db)"
| "serve_mission env (llm, SettleQuiet i now) db = snd (settle_quiet i now db)"
| "serve_mission env (llm, NotifyIdle i now) db = snd (notify_mission_idle i now db)"
| "serve_mission env (llm, AnswerCompletion h user approved reason now) db =
     snd (answer_completion env llm h user approved reason now db)"
| "serve_mission env (llm, HoldTrigger i) db = snd (quiet_hold i db)"
| "serve_mission env (llm, CancelClosed i now) db = in_tx (cancel_closed i now) db"

definition run_missions :: "env \<Rightarrow> (llm_reply option \<times> mission_request) list \<Rightarrow> db \<Rightarrow> db" where
  "run_missions env rs db = fold (\<lambda>r. in_tx (\<lambda>db. (Inr (serve_mission env r db) :: unit + db))) rs db"

text \<open>A property of one transaction that composes holds of all the loops.\<close>

lemma each_committed_rel:
  assumes "\<And>i db b db'. f i db = Inr (b, db') \<Longrightarrow> P db \<Longrightarrow> P db' \<and> R db db'"
    and "P db" and "\<And>db. R db db" and "\<And>a b c. R a b \<Longrightarrow> R b c \<Longrightarrow> R a c"
  shows "P (snd (each_committed f is n db)) \<and> R db (snd (each_committed f is n db))"
  using assms(2)
proof (induction "is" arbitrary: n db)
  case (Cons i "is")
  show ?case
  proof (cases "f i db")
    case (Inl e)
    with Cons.prems assms(3) show ?thesis by simp
  next
    case (Inr r)
    obtain b db' where r: "r = (b, db')" by (cases r)
    with assms(1) [of i db b db'] Inr Cons.prems have "P db'" "R db db'" by auto
    with Cons.IH [of db'] Inr r assms(4) show ?thesis by auto
  qed
qed (simp add: assms(3))

definition mission_step :: "db \<Rightarrow> db \<Rightarrow> bool" where
  "mission_step db db' \<longleftrightarrow> (talk_ok db \<longrightarrow> talk_ok db') \<and> keeps_closed db db'"

lemma mission_step_refl [simp]: "mission_step db db"
  by (simp add: mission_step_def)

lemma mission_step_trans: "mission_step a b \<Longrightarrow> mission_step b c \<Longrightarrow> mission_step a c"
  using keeps_closed_trans by (auto simp: mission_step_def)

lemma apply_step: "apply_work_event env llm locked i ev now db = Inr (out, db') \<Longrightarrow> mission_step db db'"
  using talk_ok_apply apply_keeps_closed by (auto simp: mission_step_def)

lemma release_held_step: "release_held_approval env llm i now db = Inr (b, db') \<Longrightarrow> mission_step db db'"
  by (auto simp: release_held_approval_def split: if_splits sum.splits dest: apply_step)

lemma reread_stalled_step: "reread_stalled env llm now i db = Inr (b, db') \<Longrightarrow> mission_step db db'"
  by (auto simp: reread_stalled_def split: if_splits sum.splits dest: apply_step)

lemma each_committed_step:
  assumes "\<And>i db b db'. f i db = Inr (b, db') \<Longrightarrow> mission_step db db'"
  shows "mission_step db (snd (each_committed f is n db))"
  using each_committed_rel [where P = "\<lambda>_. True" and R = mission_step and f = f] assms mission_step_trans by auto

lemma works_kept_step: "talk_ok db' = talk_ok db \<Longrightarrow> (\<And>i. map_option wk_status (get_work i db') = map_option wk_status (get_work i db)) \<Longrightarrow> mission_step db db'"
  by (simp add: mission_step_def keeps_closed_status)

lemma quiet_enter_step: "mission_step db (snd (quiet_enter w now db))"
  by (rule works_kept_step)
     (auto simp: quiet_enter_def Let_def get_work_set_quiet option.map_comp comp_def split: option.split)

lemma quiet_hold_step: "mission_step db (snd (quiet_hold i db))"
  by (rule works_kept_step) (auto simp: quiet_hold_def split: option.split)

lemma same_talk_step: "same_talk db db' \<Longrightarrow> mission_step db db'"
  by (rule works_kept_step) (auto simp: same_talk_ok get_work_same_talk)

lemma cancel_closed_step: "mission_step db (in_tx (cancel_closed i now) db)"
  by (auto simp: in_tx_def cancel_closed_def split: sum.split option.split
      intro: same_talk_step dest: cancel_one_same_talk)

lemma notify_step: "mission_step db (snd (notify_mission_idle i now db))"
  by (auto simp: notify_mission_idle_def mission_step_def keeps_closed_status talk_ok_message split: option.split)

lemma talk_ok_answer: "talk_ok db \<Longrightarrow> talk_ok (answer_request h approved now db)"
proof (erule talk_ok_hitls)
  show "length (filter (open_approval w) (db_hitls (answer_request h approved now db)))
      \<le> length (filter (open_approval w) (db_hitls db))" for w
    unfolding answer_request_def by simp (rule open_approval_modify, simp add: open_approval_def)
qed (simp add: answer_request_def)

lemma answer_step: "mission_step db (answer_request h approved now db)"
proof -
  have "keeps_closed db (answer_request h approved now db)"
    by (rule keeps_closed_status) (simp add: answer_request_def get_work_def)
  then show ?thesis by (simp add: mission_step_def talk_ok_answer)
qed

lemma answer_completion_step: "mission_step db (snd (answer_completion env llm h user approved reason now db))"
  by (auto simp: answer_completion_def Let_def split: option.split sum.split
      intro: answer_step mission_step_trans [OF answer_step apply_step])

lemma serve_mission_step: "mission_step db (serve_mission env r db)"
proof (cases "(env, r, db)" rule: serve_mission.cases)
qed (auto simp: commit_def release_held_approvals_def release_stalled_revisions_def settle_quiet_def
    split: sum.split option.split
    intro: apply_step release_held_step each_committed_step reread_stalled_step quiet_enter_step quiet_hold_step
      cancel_closed_step notify_step answer_completion_step)

interpretation missions: transactional "\<lambda>r db. (Inr (serve_mission env r db) :: unit + db)" talk_ok keeps_closed
  using serve_mission_step keeps_closed_trans by unfold_locales (auto simp: mission_step_def)

text \<open>
  C30 One question, one summary. Whatever events, answers, re-reads and sweeps arrive, in any
  order and with any answers of the platform LLM, no mission ever has two open completion
  approvals, and none ever gets two summaries.
\<close>

theorem one_question_one_summary:
  assumes "\<And>v. length (filter (open_approval v) (db_hitls db)) \<le> 1 \<and> length (summaries v db) \<le> 1"
  shows "length (filter (open_approval w) (db_hitls (run_missions env rs db))) \<le> 1
    \<and> length (summaries w (run_missions env rs db)) \<le> 1"
proof -
  have "talk_ok db" using assms by (simp add: talk_ok_def one_question_def one_summary_def)
  then have "talk_ok (run_missions env rs db)" unfolding run_missions_def by (rule missions.run_inv)
  then show ?thesis by (simp add: talk_ok_def one_question_def one_summary_def)
qed

text \<open>
  A closed mission stays closed. Once a mission is completed or cancelled, no run of mission
  requests changes its status, and every later event on it is refused with the conflict the
  callers expect.
\<close>

theorem closed_mission_is_final:
  assumes "talk_ok db" and "get_work i db = Some w" and "closed_work w"
  shows "map_option wk_status (get_work i (run_missions env rs db)) = Some (wk_status w)
    \<and> apply_work_event env llm locked i ev now (run_missions env rs db) = Inl ErrWorkClosed"
proof -
  have "keeps_closed db (run_missions env rs db)"
    unfolding run_missions_def using assms(1) by (rule missions.run_rel)
  with assms(2,3) obtain w' where w': "get_work i (run_missions env rs db) = Some w'" "wk_status w' = wk_status w"
    unfolding keeps_closed_def by blast
  with assms(3) have "closed_work w'" by (simp add: closed_work_def)
  with w' show ?thesis by (simp add: apply_work_event_def)
qed

section \<open>When the question is put\<close>

lemma ask_is_read:
  assumes "oc_hitl (apply_event t met ev)" and "me_kind ev \<noteq> BudgetExhausted"
  shows "oc_state (apply_event t met ev) = WkActive \<and> \<not> oc_decision (apply_event t met ev)
    \<and> oc_error (apply_event t met ev) = None \<and> needs_user_approval t (oc_met (apply_event t met ev))"
  using assms by (cases "me_kind ev") (auto simp: apply_event_def read_tree_def split: if_splits)

lemma error_asks_nothing: "oc_error (apply_event t met ev) \<noteq> None \<Longrightarrow> \<not> oc_hitl (apply_event t met ev)"
  by (cases "me_kind ev") (auto simp: apply_event_def split: if_splits)

lemma completed_asks_nothing:
  "oc_state (apply_event t met ev) = WkCompleted \<Longrightarrow>
   \<not> oc_hitl (apply_event t met ev) \<and> \<not> oc_held (apply_event t met ev) \<and> \<not> oc_decision (apply_event t met ev)"
  by (cases "me_kind ev") (auto simp: apply_event_def read_tree_def quiet_outcome_def split: if_splits)

lemma issue_request_simps [simp]:
  "db_tasks (snd (issue_request w ev out now db)) = db_tasks db"
  "db_cards (snd (issue_request w ev out now db)) = db_cards db"
  by (auto simp: issue_request_def insert_request_def insert_inbox_def attach_hitl_card_def insert_message_def
      split: prod.split option.split)

lemma judge_frames [simp]:
  "db_hitls (judge_quiet tree i asked ev out now db) = db_hitls db"
  "db_hitls (mark_hold i asked out now db) = db_hitls db"
  "db_tasks (mark_hold i asked out now db) = db_tasks db"
  "db_messages (judge_quiet tree i asked ev out now db) = db_messages db"
  "db_messages (mark_hold i asked out now db) = db_messages db"
  "db_cards (judge_quiet tree i asked ev out now db) = db_cards db"
  "db_cards (mark_hold i asked out now db) = db_cards db"
  by (auto simp: judge_quiet_def mark_hold_def quiet_enter_def quiet_release_def release_held_tasks_def set_quiet_def Let_def
      split: option.split)

lemma busy_cong: "db_tasks db' = db_tasks db \<Longrightarrow> mission_busy i db' = mission_busy i db"
  by (simp add: mission_busy_def)

lemma quiet_enter_frees:
  "mission_busy i (snd (quiet_enter w now db)) \<Longrightarrow> mission_busy i db"
  by (auto simp: mission_busy_def quiet_enter_def set_quiet_def held_task_def tbl_upd_def list_ex_iff Let_def
      split: option.splits if_splits)

lemma approval_open_issued:
  assumes "oc_hitl out" and "me_kind ev \<noteq> BudgetExhausted" and "\<not> approval_open (wk_id w) db"
  shows "oc_hitl (fst (issue_request w ev out now db))" and "approval_open (wk_id w) (snd (issue_request w ev out now db))"
  using assms by (auto simp: issue_request_def insert_request_def approval_open_def list_ex_iff open_approval_def
      attach_hitl_card_def insert_message_def insert_inbox_def set_tbl_modify)

lemma issue_request_keeps: "oc_hitl (fst (issue_request w ev out now db)) \<Longrightarrow> oc_hitl out"
  "oc_met (fst (issue_request w ev out now db)) = oc_met out"
  "oc_state (fst (issue_request w ev out now db)) = oc_state out"
  by (auto simp: issue_request_def split: prod.splits option.splits if_splits)

lemma talk_update_work:
  "update_work i f db = Inr db' \<Longrightarrow> db_hitls db' = db_hitls db \<and> db_tasks db' = db_tasks db \<and> db_cards db' = db_cards db
     \<and> db_messages db' = db_messages db"
  by (auto simp: update_work_def split: option.splits if_splits)

lemma judge_approval_simps [simp]:
  "oc_state (judge_approval i ev out db) = oc_state out" "oc_met (judge_approval i ev out db) = oc_met out"
  by (simp_all add: judge_approval_def Let_def)

lemma carry_out_keeps:
  "carry_out env llm locked w out now db = Inr (out', db') \<Longrightarrow>
   oc_hitl out' = oc_hitl out \<and> oc_held out' = oc_held out \<and> oc_state out' = oc_state out \<and> oc_met out' = oc_met out"
  by (auto simp: carry_out_def split: if_splits elim!: close_mission_steps)

lemma record_keeps:
  "oc_hitl (fst (record_rejection w ev out now db)) = oc_hitl out"
  "oc_held (fst (record_rejection w ev out now db)) = oc_held out"
  "oc_state (fst (record_rejection w ev out now db)) = oc_state out"
  "oc_met (fst (record_rejection w ev out now db)) = oc_met out"
  "oc_decision (fst (record_rejection w ev out now db)) = oc_decision out"
  "\<not> oc_decision out \<Longrightarrow> record_rejection w ev out now db = (out, db)"
  by (simp_all add: record_rejection_def)

text \<open>
  C31 The Director is only asked when the answer is all that is missing. If an event makes the
  platform issue its completion approval, then every other condition of the mission's tree is met,
  no completion approval was open and one is now, the latest rejection has been answered by a card
  accepted after it, and none of the mission's tasks is queued to run or running.
\<close>

theorem approval_asked_soundly:
  assumes "apply_work_event env llm locked i ev now db = Inr (out, db')"
    and "oc_hitl out" and "me_kind ev \<noteq> BudgetExhausted"
  shows "\<exists>w. get_work i db = Some w \<and> needs_user_approval (mission_tree env w) (oc_met out)
    \<and> \<not> approval_open i db \<and> approval_open i db' \<and> revision_addressed i db \<and> \<not> mission_busy i db'"
  using assms(1)
proof (cases rule: apply_work_event_steps)
  case (refused w)
  with error_asks_nothing assms(2) show ?thesis by blast
next
  case (applied w a o1 b o2 c o3)
  let ?o = "apply_event (mission_tree env w) (wk_met w) ev"
  let ?d = "judge_quiet (mission_tree env w) i (approval_ask ev o2) ev o3 now (mark_hold i (approval_ask ev o2) o3 now c)"
  have "oc_hitl o3" using issue_request_keeps(1) [of w ev o3 now ?d] applied(8) assms(2) by (metis fst_conv)
  then have asked: "approval_ask ev o2" and may: "may_ask i c" "\<not> mission_busy i c" and held: "\<not> oc_held o3"
    using assms(3) by (auto simp: applied(7) judge_approval_def approval_ask_def Let_def split: if_splits)
  have "oc_hitl ?o" using asked carry_out_keeps [OF applied(6)] record_keeps(1) [of w ev ?o now a] applied(5)
    by (metis approval_ask_def fst_conv)
  note read = ask_is_read [OF this assms(3)]
  then have "o1 = ?o" "b = a" using record_keeps(6) [of ?o w ev now a] applied(5) by auto
  then have c: "c = a" "o2 = ?o" using applied(6) read by (simp_all add: carry_out_def)
  have same: "approval_open i c = approval_open i db" "revision_addressed i c = revision_addressed i db"
    using talk_update_work [OF applied(4)] c by (simp_all add: approval_open_def revision_addressed_def last_rejection_def)
  have wid: "wk_id w = i" using get_work_id [OF applied(1)] .
  have "approval_open i db'"
    using approval_open_issued(2) [of o3 ev w ?d now] \<open>oc_hitl o3\<close> assms(3) may applied(8) wid
    by (metis approval_open_def judge_frames(1,2) may_ask_def snd_conv)
  moreover have "\<not> mission_busy i db'"
  proof -
    have "db_tasks db' = db_tasks ?d" using issue_request_simps(1) [of w ev o3 now ?d] applied(8) by (metis snd_conv)
    moreover have "?d = snd (quiet_enter i now (mark_hold i (approval_ask ev o2) o3 now c))"
    using asked \<open>oc_hitl o3\<close> read c(2) by (simp add: judge_quiet_def applied(7))
    ultimately show ?thesis
    using may(2) quiet_enter_frees [of i i now "mark_hold i (approval_ask ev o2) o3 now c"]
      busy_cong [of db' ?d] busy_cong [OF judge_frames(3)] by metis
  qed
  moreover have "oc_met out = oc_met ?o"
    using issue_request_keeps(2) [of w ev o3 now ?d] applied(7,8) c by (metis fst_conv judge_approval_simps(2))
  ultimately show ?thesis using applied(1) read may(1) same by (auto simp: may_ask_def)
qed

lemma get_work_enter:
  assumes "get_work i db = Some w" and "wk_status w = WkActive"
  shows "get_work i (snd (quiet_enter i now db)) = Some (w\<lparr>wk_quiet := Some ''quiet'',
     wk_quiet_at := (if wk_quiet w = Some ''quiet'' then wk_quiet_at w else Some now)\<rparr>)"
  using assms by (cases w) (simp add: quiet_enter_def Let_def get_work_set_quiet)

lemma get_work_mark:
  assumes "get_work i db = Some w"
  shows "get_work i (mark_hold i True out now db) = Some (w\<lparr>wk_held_at :=
     (if oc_held out then Some (case wk_held_at w of None \<Rightarrow> now | Some v \<Rightarrow> v) else None)\<rparr>)"
  using assms unfolding mark_hold_def by (simp add: get_work_modify)

text \<open>
  C32 A held question is put. Once the work of a mission whose question was held has settled,
  \<open>ReleaseHeldApproval\<close> succeeds, opens the request, takes the hold off and lets the mission go
  quiet, provided no request is open yet, the last rejection was answered and the approval is
  still all that is missing.
\<close>

theorem held_question_is_put:
  assumes "get_work i db = Some w" and "work_check w" and "hold_due i db"
    and "needs_user_approval (mission_tree env w) (wk_met w)" and "\<not> satisfied (mission_tree env w) (wk_met w)"
    and "\<not> approval_open i db" and "revision_addressed i db"
  shows "\<exists>db'. release_held_approval env llm i now db = Inr (True, db') \<and> approval_open i db'
    \<and> map_option wk_held_at (get_work i db') = Some None \<and> quiet_state i db' = ''quiet''"
proof -
  let ?t = "mission_tree env w"
  let ?o = "apply_event ?t (wk_met w) settled_event"
  have wid: "wk_id w = i" using get_work_id [OF assms(1)] .
  have active: "wk_status w = WkActive" and idle: "\<not> mission_busy i db"
    using assms(1,3) by (simp_all add: hold_due_def)
  then have open_: "\<not> closed_work w" by (simp add: closed_work_def)
  have o: "?o = (quiet_outcome (wk_met w))\<lparr>oc_hitl := True\<rparr>"
    using assms(4,5) by (simp add: apply_event_def settled_event_def read_tree_def)
  have k [simp]: "me_kind settled_event = TasksSettled" by (simp add: settled_event_def)
  let ?f = "\<lambda>r. r\<lparr>wk_met := oc_met ?o, wk_updated_at := now\<rparr>"
  let ?a = "db\<lparr>db_works := tbl_modify wk_id i ?f (db_works db)\<rparr>"
  have a: "update_work i ?f db = Inr ?a" using assms(1,2) by (simp add: update_work_def work_check_def)
  have may: "may_ask i ?a" "\<not> mission_busy i ?a"
    using assms(6,7) idle by (simp_all add: may_ask_def approval_open_def revision_addressed_def last_rejection_def mission_busy_def)
  let ?d = "snd (quiet_enter i now (mark_hold i True ?o now ?a))"
  have j: "judge_approval i settled_event ?o ?a = ?o"
    unfolding o judge_approval_def approval_ask_def Let_def using may o by (simp add: k quiet_outcome_def)
  have "apply_work_event env llm [] i settled_event now db = Inr (issue_request w settled_event ?o now ?d)"
  proof -
    have "oc_error ?o = None" "oc_state ?o = WkActive" "\<not> oc_decision ?o" "approval_ask settled_event ?o" "oc_hitl ?o"
      by (simp_all add: o approval_ask_def)
    with assms(1) open_ a j show ?thesis
      by (simp add: apply_work_event_def record_keeps(6) carry_out_def judge_quiet_def Let_def)
  qed
  moreover have nopen: "\<not> approval_open (wk_id w) ?d"
  proof -
    have "db_hitls ?d = db_hitls db"
      by (auto simp: quiet_enter_def set_quiet_def mark_hold_def Let_def split: option.split)
    with assms(6) wid show ?thesis by (simp add: approval_open_def)
  qed
  moreover obtain out db' where r: "issue_request w settled_event ?o now ?d = (out, db')" by fastforce
  moreover have "oc_hitl out" "approval_open i db'"
    using approval_open_issued [of ?o settled_event w ?d now] nopen wid r o by (simp_all add: settled_event_def)
  moreover have w': "get_work i db' = get_work i ?d" using get_work_keep(7) [of i w settled_event ?o now ?d] r by simp
  have "get_work i ?a = Some (?f w)" using assms(1) by (simp add: get_work_modify)
  from get_work_mark [OF this, of ?o now]
  have "get_work i (mark_hold i True ?o now ?a) = Some ((?f w)\<lparr>wk_held_at := None\<rparr>)"
    by (simp add: o quiet_outcome_def)
  from get_work_enter [OF this, of now] active
  have "\<exists>v. get_work i ?d = Some v \<and> wk_held_at v = None \<and> wk_quiet v = Some ''quiet'' \<and> wk_status v = WkActive" by simp
  ultimately show ?thesis using assms(3) w' by (auto simp: release_held_approval_def quiet_state_def)
qed

text \<open>
  C39 A paused mission cannot be completed. The step into \<open>completing\<close> writes the status without
  clearing \<open>paused_reason\<close>, which the constraint \<open>work_paused_check\<close> refuses: an event that
  should complete a paused mission (the Director's end, or the last missing approval) fails with
  a database error, and nothing of it is kept.
\<close>

theorem paused_mission_cannot_complete:
  assumes "get_work i db = Some w" and "work_check w" and "wk_status w = WkPaused"
    and "oc_state (apply_event (mission_tree env w) (wk_met w) ev) = WkCompleted"
  shows "apply_work_event env llm locked i ev now db = Inl DbCheck"
proof -
  let ?o = "apply_event (mission_tree env w) (wk_met w) ev"
  let ?f = "\<lambda>r. r\<lparr>wk_met := oc_met ?o, wk_updated_at := now\<rparr>"
  let ?a = "db\<lparr>db_works := tbl_modify wk_id i ?f (db_works db)\<rparr>"
  have wid: "wk_id w = i" using get_work_id [OF assms(1)] .
  have a: "update_work i ?f db = Inr ?a" using assms(1,2) by (simp add: update_work_def work_check_def)
  have "get_work i ?a = Some (?f w)" using assms(1) by (simp add: get_work_modify)
  then have "update_work i (\<lambda>r. r\<lparr>wk_status := WkCompleting, wk_updated_at := now\<rparr>) ?a = Inl DbCheck"
    using assms(2,3) by (simp add: update_work_def work_check_def)
  then have "close_mission env llm w ?o now ?a = Inl DbCheck" by (simp add: close_mission_def wid)
  moreover have "oc_error ?o = None" "\<not> oc_decision ?o"
    using assms(4) by (cases "me_kind ev"; auto simp: apply_event_def read_tree_def quiet_outcome_def split: if_splits)+
  ultimately show ?thesis using assms a
    by (simp add: apply_work_event_def record_keeps(6) carry_out_def closed_work_def Let_def)
qed

section \<open>What closing leaves behind\<close>

lemma gc_workdirs_frames:
  "gc_workdirs f room w db = Inr db' \<Longrightarrow> db_tasks db' = db_tasks db \<and> db_cards db' = db_cards db"
  by (auto simp: gc_workdirs_def Let_def queue_command_def split: option.splits if_splits)

lemma summaries_posted:
  "summaries w db = [] \<Longrightarrow> length (summaries w (snd (insert_message BySystem ''summary'' (Some w) room None now db))) = 1"
  by (simp add: summaries_def insert_message_def mission_summary_def)

lemma summary_written:
  "length (summaries w db) \<le> 1 \<Longrightarrow> length (summaries w (write_summary None room w now db)) = 1"
  using summaries_posted [of w db room now]
    same_talk_keeps [OF record_events_same_talk(1)] same_talk_keeps [OF record_events_same_talk(2)]
  by (cases "summaries w db") (auto simp: write_summary_def summarise_def post_summary_once_def Let_def)

text \<open>The state right after the steps of closing a mission.\<close>

lemma closed_leaves:
  assumes "close_mission env llm w out now db = Inr (out', db')" and "wk_id w = i"
  shows "\<not> list_ex (\<lambda>t. tk_work t = Some i \<and> (tk_status t = Queued \<or> tk_status t = Deferred)) (db_tasks db')"
    and "\<not> list_ex (\<lambda>c. cd_work c = Some i \<and> open_card c) (db_cards db')"
    and "oc_summaries out' = length (summaries i db')"
    and "llm = None \<Longrightarrow> length (summaries i db) \<le> 1 \<Longrightarrow> oc_summaries out' = 1"
proof -
  from assms(1) obtain a b c d where
    a: "update_work (wk_id w) (\<lambda>r. r\<lparr>wk_status := WkCompleting, wk_updated_at := now\<rparr>) db = Inr a"
    and b: "update_work (wk_id w) (\<lambda>r. r\<lparr>wk_status := WkCompleted, wk_paused_reason := None, wk_paused_detail := None,
        wk_finished_at := Some now, wk_updated_at := now,
        wk_summary := latest_summary (wk_id w) (write_summary llm (wk_room w) (wk_id w) now a)\<rparr>)
      (write_summary llm (wk_room w) (wk_id w) now a) = Inr b"
    and c: "cancel_held (wk_id w) now b = Inr c"
    and d: "update_tasks (\<lambda>t. tk_work t = Some (wk_id w) \<and> (tk_status t = Queued \<or> tk_status t = Deferred))
       (\<lambda>t. t\<lparr>tk_status := Cancelled, tk_finished_at := Some now, tk_updated_at := now\<rparr>) c = Inr d"
    and e: "gc_workdirs (en_id_text env) (wk_room w) (wk_id w)
       (insert_inbox (wk_id w) ''work_completed'' now (cancel_cards_where (\<lambda>c. cd_work c = Some (wk_id w)) now d)) = Inr db'"
    and o: "out' = out\<lparr>oc_summaries := length (summaries (wk_id w) (write_summary llm (wk_room w) (wk_id w) now a))\<rparr>"
    by (rule close_mission_steps)
  have tasks: "db_tasks db' = db_tasks d" and cards: "db_cards db' = db_cards (cancel_cards_where (\<lambda>c. cd_work c = Some i) now d)"
    using gc_workdirs_frames [OF e] assms(2) by (simp_all add: insert_inbox_def cancel_cards_where_def)
  from d have "db_tasks d = tbl_upd (\<lambda>t. tk_work t = Some (wk_id w) \<and> (tk_status t = Queued \<or> tk_status t = Deferred))
       (\<lambda>t. t\<lparr>tk_status := Cancelled, tk_finished_at := Some now, tk_updated_at := now\<rparr>) (db_tasks c)"
    by (auto simp: update_tasks_def split: if_splits)
  then show "\<not> list_ex (\<lambda>t. tk_work t = Some i \<and> (tk_status t = Queued \<or> tk_status t = Deferred)) (db_tasks db')"
    unfolding tasks using assms(2) by (auto simp: tbl_upd_def list_ex_iff)
  show "\<not> list_ex (\<lambda>c. cd_work c = Some i \<and> open_card c) (db_cards db')"
    unfolding cards by (auto simp: cancel_cards_where_def tbl_upd_def list_ex_iff open_card_def)
  from c obtain c0 where f: "foldE (\<lambda>t. cancel_one (tk_id t) (tk_attempt t) (tk_lane t) now)
       (sort_key tk_created_at (filter (\<lambda>t. tk_work t = Some (wk_id w) \<and> held_task t) (db_tasks b))) b = Inr c0"
    and c0: "c = set_quiet (wk_id w) None None c0" by (auto simp: cancel_held_def)
  have "same_talk b c0" by (rule foldE_same_talk [OF f]) (rule cancel_one_same_talk)
  then have "db_messages c = db_messages b" using c0 by (simp add: set_quiet_def same_talk_def)
  moreover have "db_messages db' = db_messages d" using gc_workdirs_same_talk [OF e]
    by (simp add: same_talk_def insert_inbox_def cancel_cards_where_def)
  moreover have "db_messages d = db_messages c" using update_tasks_same_talk [OF d] by (simp add: same_talk_def)
  moreover have "db_messages b = db_messages (write_summary llm (wk_room w) (wk_id w) now a)" using talk_update_work [OF b] by simp
  ultimately have "summaries i db' = summaries i (write_summary llm (wk_room w) (wk_id w) now a)"
    by (simp add: summaries_def)
  with o assms(2) show s: "oc_summaries out' = length (summaries i db')" by simp
  assume "llm = None" and "length (summaries i db) \<le> 1"
  moreover have "summaries i a = summaries i db" using talk_update_work [OF a] by (simp add: summaries_def)
  ultimately show "oc_summaries out' = 1" using o assms(2) summary_written [of i a] by simp
qed

text \<open>
  What completing a mission does. When an event completes a mission, the mission is completed
  and no longer quiet or held, none of its tasks is queued or deferred (the held triggers
  included), none of its cards is open, the number of summaries is reported, and without a
  platform LLM there is exactly one.
\<close>

theorem completing_settles:
  assumes "apply_work_event env llm locked i ev now db = Inr (out, db')" and "oc_state out = WkCompleted"
    and "length (summaries i db) \<le> 1"
  shows "(\<exists>w. get_work i db' = Some w \<and> wk_status w = WkCompleted \<and> wk_quiet w = None \<and> wk_held_at w = None)
    \<and> \<not> list_ex (\<lambda>t. tk_work t = Some i \<and> (tk_status t = Queued \<or> tk_status t = Deferred)) (db_tasks db')
    \<and> \<not> list_ex (\<lambda>c. cd_work c = Some i \<and> open_card c) (db_cards db')
    \<and> oc_summaries out = length (summaries i db')
    \<and> (if llm = None then oc_summaries out = 1 else True)"
  using assms(1)
proof (cases rule: apply_work_event_steps)
  case (refused w)
  then have "oc_state out = WkActive" by (cases "me_kind ev") (auto simp: apply_event_def split: if_splits)
  with assms(2) show ?thesis by simp
next
  case (applied w a o1 b o2 c o3)
  let ?o = "apply_event (mission_tree env w) (wk_met w) ev"
  let ?d = "judge_quiet (mission_tree env w) i (approval_ask ev o2) ev o3 now (mark_hold i (approval_ask ev o2) o3 now c)"
  have wid: "wk_id w = i" using get_work_id [OF applied(1)] .
  have "oc_state o3 = WkCompleted"
    using issue_request_keeps(3) [of w ev o3 now ?d] applied(8) assms(2) by (metis fst_conv)
  then have "oc_state o2 = WkCompleted" using applied(7) by simp
  then have fin: "oc_state o1 = WkCompleted" using carry_out_keeps [OF applied(6)] by simp
  then have "oc_state ?o = WkCompleted"
    using record_keeps(3) [of w ev ?o now a] applied(5) by simp
  note quiet = completed_asks_nothing [OF this]
  then have "o1 = ?o" "b = a" using record_keeps(6) [of ?o w ev now a] applied(5) by auto
  then have close: "close_mission env llm w ?o now a = Inr (o2, c)" and o2: "\<not> oc_hitl o2" "\<not> oc_held o2"
    using applied(6) fin quiet carry_out_keeps [OF applied(6)] by (simp_all add: carry_out_def)
  then have o3: "o3 = o2" "\<not> approval_ask ev o2" using applied(7) by (simp_all add: judge_approval_def approval_ask_def)
  have out: "out = o2" and db': "db' = mark_hold i False o2 now c"
    using applied(8) o2 o3 \<open>oc_state o2 = WkCompleted\<close> by (simp_all add: issue_request_def judge_quiet_def)
  have w: "get_work i a = Some (w\<lparr>wk_met := oc_met ?o, wk_updated_at := now\<rparr>)"
    using applied(1) get_work_update [OF applied(4)] by simp
  obtain v where v: "get_work i c = Some v" "wk_status v = WkCompleted" "wk_quiet v = None"
    using get_work_close(2) [OF close] w wid by auto
  have "get_work i db' = Some (v\<lparr>wk_held_at := None\<rparr>)"
    unfolding db' mark_hold_def using v o2 \<open>oc_state o2 = WkCompleted\<close> by (simp add: get_work_modify)
  moreover have "summaries i a = summaries i db" using talk_update_work [OF applied(4)] by (simp add: summaries_def)
  moreover have "summaries i db' = summaries i c" unfolding db' by (simp add: summaries_def)
  ultimately show ?thesis using closed_leaves [OF close wid] v assms(3) out by (simp add: db')
qed

section \<open>Concrete missions\<close>

definition default_condition :: json where
  "default_condition = JObj [(''op'', JStr ''and''), (''conditions'', JList
     [JObj [(''type'', JStr ''artifact_submitted''), (''who'', JStr ''assignee'')],
      JObj [(''type'', JStr ''user_approval'')]])]"

definition sample_env :: env where
  "sample_env = \<lparr>en_parse_id = \<lambda>_. None, en_id_text = \<lambda>_. ''id''\<rparr>"

definition sample_mission :: work_row where
  "sample_mission = \<lparr>wk_id = 20, wk_room = 3, wk_status = WkActive, wk_condition = Some default_condition,
     wk_met = [''artifact_submitted''], wk_assignee = Some 6, wk_paused_reason = None, wk_paused_detail = None,
     wk_held_at = Some 4, wk_quiet = Some ''quiet'', wk_quiet_at = Some 4, wk_summary = None,
     wk_finished_at = None, wk_updated_at = 4, wk_plan_required = False, wk_plan_confirmed = None,
     wk_director = 1, wk_deputy = None, wk_budget = None\<rparr>"

definition sample_room :: room_row where
  "sample_room = \<lparr>rm_id = 3, rm_workspace = 1, rm_name = ''r'', rm_description = [], rm_visibility = ''workspace'',
     rm_active = True, rm_blocked = None, rm_pending = None,
     rm_isolation = ''none'', rm_repo = [], rm_owner = 1, rm_deputy = None, rm_runtime = Some 5, rm_max_lanes = None, rm_budget = None,
     rm_legacy_work = None, rm_rebind_prompt = None,
     rm_updated_at = 0\<rparr>"

text \<open>One mission whose question is held and one task of it, in the given status.\<close>

definition mission_db :: "task_status \<Rightarrow> db" where
  "mission_db s = sample_db\<lparr>db_works := [sample_mission], db_rooms := [sample_room],
     db_tasks := [sample_task\<lparr>tk_work := Some 20, tk_status := s\<rparr>]\<rparr>"

lemma sample_tree:
  "mission_tree sample_env sample_mission = \<lparr>tr_op = ''AND'', tr_conditions =
     [\<lparr>cn_type = ''artifact_submitted'', cn_agent = Some 6, cn_who = ''assignee''\<rparr>,
      \<lparr>cn_type = ''user_approval'', cn_agent = None, cn_who = []\<rparr>]\<rparr>"
  by (simp add: mission_tree_def sample_mission_def sample_env_def default_condition_def parse_tree_def walk.simps
      field_def read_op_def str_field_def norm_op_def leaf_def bind_assignee_def)

lemma sample_get_work: "get_work 20 (mission_db s) = Some sample_mission"
  by (simp add: get_work_def mission_db_def sample_mission_def)

lemma sample_talk: "open_approval v h \<Longrightarrow> h \<notin> set (db_hitls (mission_db s))" "summaries v (mission_db s) = []"
  by (simp_all add: mission_db_def sample_db_def empty_db_def summaries_def)

definition sample_requests :: "(llm_reply option \<times> mission_request) list" where
  "sample_requests = [(None, ReleaseHeld 20 9), (None, MissionEvent 20 (happens ArtifactSubmit 6) [] 10),
     (None, MissionEvent 20 (happens TasksSettled 0) [] 11)]"

theorem one_question_one_summary_witness:
  "length (filter (open_approval 20) (db_hitls (run_missions sample_env sample_requests (mission_db Completed)))) \<le> 1
   \<and> length (summaries 20 (run_missions sample_env sample_requests (mission_db Completed))) \<le> 1"
  by (rule one_question_one_summary)
     (simp add: sample_talk(2), simp add: mission_db_def sample_db_def empty_db_def)

definition closed_db :: db where
  "closed_db = (mission_db Completed)\<lparr>db_works := [sample_mission\<lparr>wk_status := WkCompleted, wk_quiet := None, wk_held_at := None\<rparr>]\<rparr>"

theorem closed_mission_is_final_witness:
  "map_option wk_status (get_work 20 (run_missions sample_env sample_requests closed_db)) = Some WkCompleted
   \<and> apply_work_event sample_env None [] 20 (happens DirectorEnd 1) 12 (run_missions sample_env sample_requests closed_db)
       = Inl ErrWorkClosed"
proof -
  have "talk_ok closed_db"
    by (simp add: talk_ok_def one_question_def one_summary_def closed_db_def mission_db_def sample_db_def empty_db_def summaries_def)
  moreover have "get_work 20 closed_db = Some (sample_mission\<lparr>wk_status := WkCompleted, wk_quiet := None, wk_held_at := None\<rparr>)"
    by (simp add: get_work_def closed_db_def sample_mission_def)
  ultimately show ?thesis
    using closed_mission_is_final [of closed_db 20 _ sample_env sample_requests None "[]" "happens DirectorEnd 1" 12]
    by (simp add: closed_work_def)
qed

lemma sample_needs: "needs_user_approval (mission_tree sample_env sample_mission) (wk_met sample_mission)"
  "\<not> satisfied (mission_tree sample_env sample_mission) (wk_met sample_mission)"
  unfolding sample_tree by (simp_all add: sample_mission_def needs_user_approval_def satisfied_def norm_op_def)

lemma sample_quiet_db:
  "\<not> approval_open 20 (mission_db s)" "revision_addressed 20 (mission_db s)" "work_check sample_mission"
  "mission_busy 20 (mission_db Completed) = False" "mission_busy 20 (mission_db Running) = True"
  by (simp_all add: approval_open_def mission_db_def sample_db_def empty_db_def revision_addressed_def work_check_def
      sample_mission_def mission_busy_def held_task_def sample_task_def)

theorem held_question_is_put_witness:
  "\<exists>db'. release_held_approval sample_env None 20 9 (mission_db Completed) = Inr (True, db') \<and> approval_open 20 db'
     \<and> map_option wk_held_at (get_work 20 db') = Some None \<and> quiet_state 20 db' = ''quiet''"
proof (rule held_question_is_put [OF sample_get_work sample_quiet_db(3) _ sample_needs sample_quiet_db(1,2)])
  show "hold_due 20 (mission_db Completed)"
    by (simp add: hold_due_def sample_get_work sample_quiet_db) (simp add: sample_mission_def)
qed

lemma sample_release_asks:
  "case apply_work_event sample_env None [] 20 settled_event 9 (mission_db Completed) of
     Inl e \<Rightarrow> False | Inr (out, db') \<Rightarrow> oc_hitl out"
  by code_simp

theorem approval_asked_soundly_witness:
  "\<exists>out db'. apply_work_event sample_env None [] 20 settled_event 9 (mission_db Completed) = Inr (out, db') \<and> oc_hitl out
     \<and> approval_open 20 db' \<and> \<not> mission_busy 20 db'"
proof -
  obtain out db' where r: "apply_work_event sample_env None [] 20 settled_event 9 (mission_db Completed) = Inr (out, db')"
    and "oc_hitl out"
    using sample_release_asks by (auto split: sum.splits)
  with approval_asked_soundly [OF r] show ?thesis by (auto simp: settled_event_def)
qed

text \<open>While the task still runs, the same event keeps the question held.\<close>

lemma running_task_holds_question:
  "case apply_work_event sample_env None [] 20 settled_event 9 (mission_db Running) of
     Inl e \<Rightarrow> False | Inr (out, db') \<Rightarrow> \<not> oc_hitl out \<and> oc_held out \<and> \<not> approval_open 20 db'"
  by code_simp

definition paused_mission :: work_row where
  "paused_mission = sample_mission\<lparr>wk_status := WkPaused, wk_paused_reason := Some ''director'', wk_quiet := None, wk_held_at := None\<rparr>"

definition paused_mission_db :: db where
  "paused_mission_db = (mission_db Paused)\<lparr>db_works := [paused_mission]\<rparr>"

theorem paused_mission_cannot_complete_witness:
  "apply_work_event sample_env None [] 20 (happens DirectorEnd 1) 9 paused_mission_db = Inl DbCheck
   \<and> apply_work_event sample_env None [] 20 (happens DirectorApprove 1) 9 paused_mission_db = Inl DbCheck"
proof -
  have w: "get_work 20 paused_mission_db = Some paused_mission" "work_check paused_mission" "wk_status paused_mission = WkPaused"
    by (simp_all add: get_work_def paused_mission_db_def paused_mission_def work_check_def sample_mission_def)
  have t: "mission_tree sample_env paused_mission = mission_tree sample_env sample_mission"
    and m: "wk_met paused_mission = [''artifact_submitted'']"
    by (simp_all add: mission_tree_def paused_mission_def) (simp add: sample_mission_def)
  have "oc_state (apply_event (mission_tree sample_env paused_mission) (wk_met paused_mission) (happens DirectorEnd 1)) = WkCompleted"
    "oc_state (apply_event (mission_tree sample_env paused_mission) (wk_met paused_mission) (happens DirectorApprove 1)) = WkCompleted"
    unfolding t m sample_tree by (simp_all add: apply_event_def happens_def satisfied_def norm_op_def)
  with paused_mission_cannot_complete [OF w] show ?thesis by blast
qed

text \<open>An active mission with a queued turn and a running one.\<close>

definition busy_mission_db :: db where
  "busy_mission_db = (mission_db Running)\<lparr>db_tasks :=
     [sample_task\<lparr>tk_work := Some 20, tk_status := Running\<rparr>,
      sample_task\<lparr>tk_id := 11, tk_work := Some 20, tk_status := Queued\<rparr>]\<rparr>"

lemma ending_outcome:
  "case apply_work_event sample_env None [] 20 (happens DirectorEnd 1) 9 busy_mission_db of
     Inl e \<Rightarrow> False | Inr (out, db') \<Rightarrow> oc_state out = WkCompleted \<and> map tk_status (db_tasks db') = [Running, Cancelled]"
  by code_simp

theorem completing_settles_witness:
  "\<exists>out db'. apply_work_event sample_env None [] 20 (happens DirectorEnd 1) 9 busy_mission_db = Inr (out, db')
     \<and> oc_summaries out = 1 \<and> map tk_status (db_tasks db') = [Running, Cancelled]
     \<and> (\<exists>w. get_work 20 db' = Some w \<and> wk_status w = WkCompleted)"
proof -
  obtain out db' where r: "apply_work_event sample_env None [] 20 (happens DirectorEnd 1) 9 busy_mission_db = Inr (out, db')"
    and st: "oc_state out = WkCompleted" "map tk_status (db_tasks db') = [Running, Cancelled]"
    using ending_outcome by (auto split: sum.splits)
  have "length (summaries 20 busy_mission_db) \<le> 1" by (simp add: busy_mission_db_def summaries_def mission_db_def sample_db_def empty_db_def)
  from completing_settles [OF r st(1) this] r st(2) show ?thesis by auto
qed

section \<open>A hold the condition change leaves behind\<close>

text \<open>
  A mission waits for running work with its question held; the Director adds a reviewer to the
  condition; the work ends. The hold is still marked, although nothing is left to ask, so the
  notice for a mission nobody drives on (which skips held missions) is never sent.
\<close>

definition reviewed_condition :: json where
  "reviewed_condition = JObj [(''op'', JStr ''and''), (''conditions'', JList
     [JObj [(''type'', JStr ''artifact_submitted''), (''who'', JStr ''assignee'')],
      JObj [(''type'', JStr ''agent_approval'')], JObj [(''type'', JStr ''user_approval'')]])]"

definition changed_db :: db where
  "changed_db = (mission_db Completed)\<lparr>db_works := [sample_mission\<lparr>wk_condition := Some reviewed_condition\<rparr>]\<rparr>"

lemma stale_hold_silences_idle_notice:
  "let db1 = run_missions sample_env [(None, MissionEvent 20 (happens ConditionChanged 1) [] 8), (None, ReleaseHeld 20 9)] changed_db
   in \<not> approval_open 20 db1 \<and> (case get_work 20 db1 of None \<Rightarrow> False | Some w \<Rightarrow> wk_held_at w = Some 4)
      \<and> fst (notify_mission_idle 20 10 db1) = False"
  by code_simp

end
