(* ===== verification/Room_Gate.thy ===== *)
theory Room_Gate
  imports Mission_Facts
begin

text \<open>
  The stop switch of a room and the choices its first run settles (\<open>internal/roomgate\<close>): blocking
  and unblocking with the missions a block parks, the question of the isolation and of the
  repository, the pin of the room to a computer, and the chain of people who may answer for the
  room. Names, sentences and the recipients of inbox items are left out.
\<close>

section \<open>The gate\<close>

abbreviation "reason_budget \<equiv> ''budget''"
abbreviation "reason_loop \<equiv> ''loop''"
abbreviation "reason_manual \<equiv> ''manual''"
abbreviation "reason_runtime_offline \<equiv> ''runtime_offline''"

definition mirrors :: "string \<Rightarrow> bool" where
  "mirrors r \<longleftrightarrow> r = reason_budget \<or> r = reason_loop \<or> r = reason_runtime_offline"

definition get_room :: "uuid \<Rightarrow> db \<Rightarrow> room_row option" where
  "get_room i db = tbl_get rm_id (db_rooms db) i"

definition update_room :: "uuid \<Rightarrow> (room_row \<Rightarrow> bool) \<Rightarrow> (room_row \<Rightarrow> room_row) \<Rightarrow> db \<Rightarrow> bool \<times> db" where
  "update_room i p f db =
     (case get_room i db of
        None \<Rightarrow> (False, db)
      | Some r \<Rightarrow> if p r then (True, db\<lparr>db_rooms := tbl_modify rm_id i f (db_rooms db)\<rparr>) else (False, db))"

definition active_in :: "uuid \<Rightarrow> work_row \<Rightarrow> bool" where
  "active_in room w \<longleftrightarrow> wk_room w = room \<and> wk_status w = WkActive"

definition park :: "string \<Rightarrow> time \<Rightarrow> work_row \<Rightarrow> work_row" where
  "park why now w = w\<lparr>wk_status := WkPaused, wk_paused_reason := Some why, wk_paused_detail := Some True, wk_updated_at := now\<rparr>"

definition block :: "uuid \<Rightarrow> string \<Rightarrow> time \<Rightarrow> db \<Rightarrow> db_error + nat \<times> db" where
  "block room why now db =
     (let stopped = length (filter (active_in room) (db_works db));
          db = (if mirrors why then db\<lparr>db_works := tbl_upd (active_in room) (park why now) (db_works db)\<rparr> else db)
      in case update_room room (\<lambda>r. rm_blocked r = None) (\<lambda>r. r\<lparr>rm_blocked := Some why, rm_updated_at := now\<rparr>) db of
           (False, _) \<Rightarrow> Inl ErrAlreadyBlocked
         | (True, db) \<Rightarrow> Inr (stopped, db))"

definition parked_by :: "uuid \<Rightarrow> string \<Rightarrow> work_row \<Rightarrow> bool" where
  "parked_by room why w \<longleftrightarrow> wk_room w = room \<and> wk_status w = WkPaused \<and> wk_paused_reason w = Some why
     \<and> wk_paused_detail w = Some True"

definition unpark :: "time \<Rightarrow> work_row \<Rightarrow> work_row" where
  "unpark now w = w\<lparr>wk_status := WkActive, wk_paused_reason := None, wk_paused_detail := None, wk_updated_at := now\<rparr>"

definition unblock :: "uuid \<Rightarrow> string \<Rightarrow> time \<Rightarrow> db \<Rightarrow> db_error + uuid list \<times> db" where
  "unblock room why now db =
     (case update_room room (\<lambda>r. rm_blocked r = Some why) (\<lambda>r. r\<lparr>rm_blocked := None, rm_updated_at := now\<rparr>) db of
        (False, _) \<Rightarrow> Inl ErrNotBlocked
      | (True, db) \<Rightarrow>
          if \<not> mirrors why then Inr ([], db)
          else Inr (map wk_id (filter (parked_by room why) (db_works db)),
                    db\<lparr>db_works := tbl_upd (parked_by room why) (unpark now) (db_works db)\<rparr>))"

section \<open>The computer and the isolation\<close>

definition runtime_workspace :: "uuid \<Rightarrow> db \<Rightarrow> uuid option" where
  "runtime_workspace rt db = map_option rn_workspace (tbl_get rn_id (db_runtimes db) rt)"

text \<open>An unpinned room of the runtime's own workspace.\<close>

definition pinnable :: "uuid \<Rightarrow> db \<Rightarrow> room_row \<Rightarrow> bool" where
  "pinnable rt db r \<longleftrightarrow> rm_runtime r = None \<and> runtime_workspace rt db = Some (rm_workspace r)"

definition announce_computer :: "uuid \<Rightarrow> time \<Rightarrow> db \<Rightarrow> db" where
  "announce_computer room now db = snd (insert_message BySystem ''system'' None room None now db)"

definition pin_room :: "uuid \<Rightarrow> uuid \<Rightarrow> time \<Rightarrow> db \<Rightarrow> db" where
  "pin_room room rt now db =
     (case update_room room (pinnable rt db) (\<lambda>r. r\<lparr>rm_runtime := Some rt, rm_updated_at := now\<rparr>) db of
        (False, db) \<Rightarrow> db | (True, db) \<Rightarrow> announce_computer room now db)"

definition file_isolation :: "uuid \<Rightarrow> time \<Rightarrow> db \<Rightarrow> db" where
  "file_isolation h now db =
     (if list_ex (\<lambda>b. ib_ref b = h \<and> ib_type b = ''isolation_confirm'' \<and> ib_read_at b = None) (db_inbox db) then db
      else insert_inbox h ''isolation_confirm'' now db)"

definition insert_isolation_request :: "uuid \<Rightarrow> db \<Rightarrow> uuid \<times> db" where
  "insert_isolation_request room db =
     (db_next db,
      db\<lparr>db_hitls := db_hitls db @ [\<lparr>hi_id = db_next db, hi_task = None, hi_purpose = ''isolation'', hi_status = ''open'',
           hi_approved = None, hi_source = ''system'', hi_room = room, hi_work = None, hi_answered_at = None,
           hi_message = None, hi_spec = ''room_owner''\<rparr>],
         db_next := db_next db + 1\<rparr>)"

text \<open>Both questions: the isolation of a room (with the repository) and the choice of a repository (without).\<close>

definition ask_room :: "uuid \<Rightarrow> uuid \<Rightarrow> string \<Rightarrow> time \<Rightarrow> db \<Rightarrow> db" where
  "ask_room room rt repo now db =
     (case insert_isolation_request room db of (h, db) \<Rightarrow>
        file_isolation h now (attach_hitl_card room None h now
          (snd (update_room room (\<lambda>_. True) (\<lambda>r. r\<lparr>rm_pending := Some (h, rt, repo), rm_updated_at := now\<rparr>) db))))"

definition ask_isolation :: "uuid \<Rightarrow> uuid \<Rightarrow> string \<Rightarrow> time \<Rightarrow> db \<Rightarrow> db" where
  "ask_isolation room rt repo now db = ask_room room rt repo now db"

definition ask_repo :: "uuid \<Rightarrow> uuid \<Rightarrow> time \<Rightarrow> db \<Rightarrow> db" where
  "ask_repo room rt now db = ask_room room rt [] now db"

datatype worktree_settle = SettleWait | SettleFill string | SettleAsk

definition plan_worktree :: "string \<Rightarrow> string list \<Rightarrow> worktree_settle" where
  "plan_worktree room_repo repos =
     (if room_repo \<noteq> [] then (if List.member repos room_repo then SettleFill room_repo else SettleWait)
      else (case repos of [] \<Rightarrow> SettleWait | [r] \<Rightarrow> SettleFill r | _ \<Rightarrow> SettleAsk))"

definition fill_worktree :: "uuid \<Rightarrow> uuid \<Rightarrow> string \<Rightarrow> time \<Rightarrow> db \<Rightarrow> bool \<times> db" where
  "fill_worktree room rt repo now db =
     (case update_room room (pinnable rt db)
             (\<lambda>r. r\<lparr>rm_isolation := ''worktree'', rm_repo := repo, rm_pending := None, rm_runtime := Some rt,
                    rm_updated_at := now\<rparr>) db of
        (False, db) \<Rightarrow> (False, db)
      | (True, db) \<Rightarrow> (True, announce_computer room now db))"

definition drop_pending :: "uuid \<Rightarrow> time \<Rightarrow> db \<Rightarrow> db" where
  "drop_pending room now db = snd (update_room room (\<lambda>_. True) (\<lambda>r. r\<lparr>rm_pending := None, rm_updated_at := now\<rparr>) db)"

definition pending_of :: "uuid \<Rightarrow> uuid \<Rightarrow> db \<Rightarrow> db_error + uuid \<times> string" where
  "pending_of room h db =
     (case get_room room db of
        None \<Rightarrow> Inl DbMissingRow
      | Some r \<Rightarrow> (case rm_pending r of
                     None \<Rightarrow> Inl ErrNoPending
                   | Some (h', rt, repo) \<Rightarrow> if h' \<noteq> h then Inl ErrNoPending else Inr (rt, repo)))"

definition answer_isolation :: "uuid \<Rightarrow> uuid \<Rightarrow> bool \<Rightarrow> time \<Rightarrow> db \<Rightarrow> db_error + db" where
  "answer_isolation room h approved now db =
     bindE (pending_of room h db) (\<lambda>(rt, repo).
     let db = (if approved then snd (update_room room (\<lambda>_. True) (\<lambda>r. r\<lparr>rm_isolation := ''worktree'', rm_repo := repo\<rparr>) db) else db)
     in case update_room room (pinnable rt db)
               (\<lambda>r. r\<lparr>rm_pending := None, rm_runtime := Some rt, rm_updated_at := now\<rparr>) db of
          (False, db) \<Rightarrow> Inr (drop_pending room now db)
        | (True, db) \<Rightarrow> Inr (announce_computer room now db))"

definition answer_repo :: "uuid \<Rightarrow> uuid \<Rightarrow> string \<Rightarrow> time \<Rightarrow> db \<Rightarrow> db_error + db" where
  "answer_repo room h repo now db =
     bindE (pending_of room h db) (\<lambda>(rt, _).
     case fill_worktree room rt repo now db of
       (True, db) \<Rightarrow> Inr db
     | (False, db) \<Rightarrow> Inr (drop_pending room now db))"

section \<open>Who answers for the room\<close>

record approvers =
  ap_owner :: uuid
  ap_deputy :: "uuid option"
  ap_ws_owner :: "uuid option"

datatype delegate_role = RoomDeputy | WorkspaceOwner

record room_turn =
  rt_approver :: uuid
  rt_delegate_at :: "time option"
  rt_next :: "(uuid \<times> delegate_role) option"

definition delegate :: "approvers \<Rightarrow> (uuid \<times> delegate_role) option" where
  "delegate a = (case ap_deputy a of Some d \<Rightarrow> Some (d, RoomDeputy)
     | None \<Rightarrow> (case ap_ws_owner a of Some d \<Rightarrow> Some (d, WorkspaceOwner) | None \<Rightarrow> None))"

definition approvers_now :: "approvers \<Rightarrow> time \<Rightarrow> time \<Rightarrow> time \<Rightarrow> room_turn" where
  "approvers_now a created due now =
     (let half = created + (due - created) sdiv 2 in
      case delegate a of
        None \<Rightarrow> \<lparr>rt_approver = ap_owner a, rt_delegate_at = None, rt_next = None\<rparr>
      | Some d \<Rightarrow>
          if now < half then \<lparr>rt_approver = ap_owner a, rt_delegate_at = Some half, rt_next = Some d\<rparr>
          else \<lparr>rt_approver = fst d, rt_delegate_at = None, rt_next = None\<rparr>)"

section \<open>Blocking and unblocking\<close>

lemma get_room_id: "get_room i db = Some r \<Longrightarrow> rm_id r = i"
  unfolding get_room_def by (rule tbl_get_Some_key)

lemma get_room_works [simp]: "get_room i (db\<lparr>db_works := ws\<rparr>) = get_room i db"
  by (simp add: get_room_def)

text \<open>A mission as it was, up to the time of its last change.\<close>

definition same_mission :: "work_row \<Rightarrow> work_row \<Rightarrow> bool" where
  "same_mission v w \<longleftrightarrow> v\<lparr>wk_updated_at := 0\<rparr> = w\<lparr>wk_updated_at := 0\<rparr>"

lemma unpark_park: "wk_status w = WkActive \<Longrightarrow> work_check w \<Longrightarrow> same_mission (unpark s (park why t w)) w"
  by (cases w) (auto simp: same_mission_def unpark_def park_def work_check_def)

text \<open>
  C29 A room's stop takes nothing with it. Blocking an unblocked room for a reason that parks
  missions and later lifting the block for that reason succeeds, returns exactly the missions the
  block parked, and gives every mission back its state from before the block: the active ones are
  active again, and a mission that was paused for its own reason is still paused for it.
\<close>

theorem block_unblock_roundtrip:
  assumes "get_room room db = Some r" and "rm_blocked r = None" and "mirrors why"
    and "list_all work_check (db_works db)"
    and "list_all (\<lambda>w. \<not> parked_by room why w) (db_works db)"
  shows "\<exists>n db1 ids db2. block room why t db = Inr (n, db1) \<and> unblock room why s db1 = Inr (ids, db2)
    \<and> ids = map wk_id (filter (active_in room) (db_works db)) \<and> n = length ids
    \<and> list_all2 same_mission (db_works db2) (db_works db) \<and> map_option rm_blocked (get_room room db2) = Some None"
proof -
  let ?ws = "tbl_upd (active_in room) (park why t) (db_works db)"
  let ?rs = "tbl_modify rm_id room (\<lambda>r. r\<lparr>rm_blocked := Some why, rm_updated_at := t\<rparr>) (db_rooms db)"
  let ?db1 = "db\<lparr>db_works := ?ws, db_rooms := ?rs\<rparr>"
  have b: "block room why t db = Inr (length (filter (active_in room) (db_works db)), ?db1)"
    using assms(1-3) by (simp add: block_def update_room_def)
  have r1: "get_room room ?db1 = Some (r\<lparr>rm_blocked := Some why, rm_updated_at := t\<rparr>)"
    using assms(1) by (simp add: get_room_def tbl_get_modify)
  let ?db2 = "?db1\<lparr>db_rooms := tbl_modify rm_id room (\<lambda>r. r\<lparr>rm_blocked := None, rm_updated_at := s\<rparr>) ?rs,
       db_works := tbl_upd (parked_by room why) (unpark s) ?ws\<rparr>"
  have u: "unblock room why s ?db1 = Inr (map wk_id (filter (parked_by room why) ?ws), ?db2)"
    using r1 assms(3) by (simp add: unblock_def update_room_def)
  have parked: "map wk_id (filter (parked_by room why) (tbl_upd (active_in room) (park why t) ws))
      = map wk_id (filter (active_in room) ws)"
    if "list_all (\<lambda>w. \<not> parked_by room why w) ws" for ws
    using that by (induction ws) (auto simp: tbl_upd_def active_in_def parked_by_def park_def)
  have restored: "list_all2 same_mission (tbl_upd (parked_by room why) (unpark s) (tbl_upd (active_in room) (park why t) ws)) ws"
    if "list_all (\<lambda>w. \<not> parked_by room why w) ws" "list_all work_check ws" for ws
    using that
  proof (induction ws)
    case (Cons w ws)
    have "active_in room w \<Longrightarrow> parked_by room why (park why t w)"
      by (simp add: active_in_def parked_by_def park_def)
    with Cons unpark_park [of w s why t] show ?case
      by (auto simp: tbl_upd_def active_in_def same_mission_def)
  qed (simp add: tbl_upd_def)
  have "map_option rm_blocked (get_room room ?db2) = Some None"
    using assms(1) by (simp add: get_room_def tbl_get_modify)
  with b u parked [OF assms(5)] restored [OF assms(5,4)] show ?thesis by simp
qed

definition gate_db :: db where
  "gate_db = (mission_db Completed)\<lparr>db_works :=
     [sample_mission, sample_mission\<lparr>wk_id := 21, wk_status := WkPaused, wk_paused_reason := Some reason_budget,
        wk_paused_detail := Some False\<rparr>]\<rparr>"

theorem block_unblock_roundtrip_witness:
  "\<exists>n db1 ids db2. block 3 reason_budget 7 gate_db = Inr (n, db1) \<and> unblock 3 reason_budget 8 db1 = Inr (ids, db2)
    \<and> ids = [20] \<and> n = 1 \<and> list_all2 same_mission (db_works db2) (db_works gate_db)
    \<and> map_option rm_blocked (get_room 3 db2) = Some None"
proof -
  have "get_room 3 gate_db = Some sample_room" by (simp add: get_room_def gate_db_def mission_db_def sample_room_def)
  moreover have "rm_blocked sample_room = None" by (simp add: sample_room_def)
  moreover have "mirrors reason_budget" by (simp add: mirrors_def)
  moreover have "list_all work_check (db_works gate_db)" "list_all (\<lambda>w. \<not> parked_by 3 reason_budget w) (db_works gate_db)"
    by (simp_all add: gate_db_def work_check_def sample_mission_def parked_by_def)
  moreover have "map wk_id (filter (active_in 3) (db_works gate_db)) = [20]"
    by (simp add: gate_db_def active_in_def sample_mission_def)
  ultimately show ?thesis
    using block_unblock_roundtrip [of 3 gate_db sample_room reason_budget 7 8] by auto
qed

end
