(* ===== verification/Queue_Claim.thy ===== *)
theory Queue_Claim
  imports Room_Gate
begin

text \<open>
  A computer asks for work (\<open>Claim\<close> in \<open>queue/postgres.go\<close>): the questions a first run raises, the
  candidates, the four concurrency layers, the reasons written on what is held back, and the
  dispatch of what is admitted. Building a bundle is the parameter \<open>build\<close>, which answers whether
  the bundle of a task could be built; \<open>locked\<close> are the rows other transactions hold (SKIP
  LOCKED). The test chats that ride the same claim are left out.
\<close>

section \<open>Which tasks may run\<close>

definition busy_tasks :: "db \<Rightarrow> task_row list" where
  "busy_tasks db = filter (\<lambda>t. in_flight (tk_status t)) (db_tasks db)"

definition mission_runs :: "db \<Rightarrow> task_row \<Rightarrow> bool" where
  "mission_runs db t \<longleftrightarrow> (case tk_work t of None \<Rightarrow> True
     | Some w \<Rightarrow> (case get_work w db of None \<Rightarrow> False | Some r \<Rightarrow> wk_status r = WkActive))"

definition due :: "time \<Rightarrow> task_row \<Rightarrow> bool" where
  "due now t \<longleftrightarrow> (case tk_not_before t of None \<Rightarrow> True | Some v \<Rightarrow> v \<le> now)"

definition room_open :: "room_row \<Rightarrow> bool" where
  "room_open s \<longleftrightarrow> rm_active s \<and> rm_blocked s = None \<and> rm_pending s = None"

text \<open>The layers a candidate is judged by.\<close>

record layer_caps =
  lc_lanes :: int
  lc_agent :: int
  lc_serial :: bool
  lc_runtime :: int
  lc_workspace :: "int option"

definition eligible :: "uuid \<Rightarrow> time \<Rightarrow> db \<Rightarrow> task_row \<Rightarrow> bool" where
  "eligible rt now db t \<longleftrightarrow>
     (case (get_room (tk_room t) db, get_lane (tk_lane t) db, tbl_get ag_id (db_agents db) (tk_agent t),
            tbl_get rn_id (db_runtimes db) rt) of
        (Some s, Some l, Some a, Some r) \<Rightarrow>
            tk_status t = Queued \<and> tk_queued_reason t \<noteq> Some approval_pending
          \<and> room_open s \<and> mission_runs db t \<and> ln_status l \<noteq> LanePaused
          \<and> rm_workspace s = rn_workspace r
          \<and> (rm_runtime s = Some rt \<or> rm_runtime s = None \<and> rm_isolation s = ''none'')
          \<and> due now t
          \<and> \<not> list_ex (\<lambda>b. tk_lane b = tk_lane t) (busy_tasks db)
          \<and> \<not> list_ex (\<lambda>d. List.member (ln_depends_on l) (ln_id d)
                 \<and> \<not> (ln_status d = LaneDone \<or> ln_status d = LaneFailed \<or> ln_status d = LaneBlocked)) (db_lanes db)
      | _ \<Rightarrow> False)"

text \<open>\<open>DISTINCT ON (lane_id) ... ORDER BY lane_id, created_at\<close>, then \<open>ORDER BY created_at, id\<close>.\<close>

fun distinct_on :: "('a \<Rightarrow> 'k) \<Rightarrow> 'a list \<Rightarrow> 'a list" where
  "distinct_on f [] = []"
| "distinct_on f (x # xs) = x # filter (\<lambda>y. f y \<noteq> f x) (distinct_on f xs)"

definition candidates :: "uuid \<Rightarrow> time \<Rightarrow> db \<Rightarrow> task_row list" where
  "candidates rt now db = sort_key (\<lambda>t. (tk_created_at t, tk_id t))
     (distinct_on tk_lane (sort_key tk_created_at (filter (eligible rt now db) (db_tasks db))))"

section \<open>The concurrency layers\<close>

definition caps_of :: "uuid \<Rightarrow> db \<Rightarrow> task_row \<Rightarrow> layer_caps" where
  "caps_of rt db t =
     (let s = get_room (tk_room t) db;
          cfg = Option.bind (runtime_workspace rt db) (tbl_get st_workspace (db_settings db))
      in \<lparr>lc_lanes = (case Option.bind s rm_max_lanes of None \<Rightarrow> 5 | Some n \<Rightarrow> n),
          lc_agent = (case tbl_get ag_id (db_agents db) (tk_agent t) of None \<Rightarrow> 0 | Some a \<Rightarrow> ag_max_tasks a),
          lc_serial = (case s of None \<Rightarrow> False | Some r \<Rightarrow> rm_isolation r = ''worktree''),
          lc_runtime = (case Option.bind cfg st_runtime_cap of None \<Rightarrow> 10 | Some n \<Rightarrow> n),
          lc_workspace = Option.bind cfg st_workspace_cap\<rparr>)"

definition number :: "('a \<Rightarrow> bool) \<Rightarrow> 'a list \<Rightarrow> int" where
  "number p xs = int (length (filter p xs))"

definition busy_lanes :: "uuid \<Rightarrow> db \<Rightarrow> int" where
  "busy_lanes room db = int (length (remdups (map tk_lane (filter (\<lambda>b. tk_room b = room) (busy_tasks db)))))"

definition room_workspace :: "db \<Rightarrow> uuid \<Rightarrow> uuid option" where
  "room_workspace db room = map_option rm_workspace (get_room room db)"

text \<open>
  The layer that holds a candidate back, or \<open>None\<close>. \<open>sofar\<close> are the candidates up to and including
  it, so the counts over it are the \<open>row_number\<close>s.
\<close>

definition layer_of :: "uuid \<Rightarrow> db \<Rightarrow> task_row list \<Rightarrow> task_row \<Rightarrow> string option" where
  "layer_of rt db sofar t =
     (let c = caps_of rt db t; busy = busy_tasks db in
      if busy_lanes (tk_room t) db + number (\<lambda>x. tk_room x = tk_room t) sofar > lc_lanes c then Some ''room_lanes''
      else if number (\<lambda>b. tk_agent b = tk_agent t) busy + number (\<lambda>x. tk_agent x = tk_agent t) sofar > lc_agent c
        then Some ''agent_global''
      else if lc_serial c \<and> number (\<lambda>b. tk_agent b = tk_agent t \<and> tk_room b = tk_room t) busy
                + number (\<lambda>x. tk_agent x = tk_agent t \<and> tk_room x = tk_room t) sofar > 1 then Some ''serial''
      else if number (\<lambda>b. tk_runtime b = Some rt) busy + int (length sofar) > lc_runtime c then Some ''runtime''
      else (case lc_workspace c of
              None \<Rightarrow> None
            | Some cap \<Rightarrow>
                if number (\<lambda>b. room_workspace db (tk_room b) = runtime_workspace rt db) busy + int (length sofar) > cap
                then Some ''workspace'' else None))"

definition queued_reason_of :: "string \<Rightarrow> string" where
  "queued_reason_of layer =
     (if layer = ''room_lanes'' \<or> layer = ''agent_global'' \<or> layer = ''runtime'' \<or> layer = ''workspace'' then layer else [])"

record held_row =
  hd_id :: uuid
  hd_prev :: "string option"
  hd_reason :: string

text \<open>The candidates in order: admitted up to the capacity, held back with a reason otherwise.\<close>

fun admit ::
    "uuid \<Rightarrow> db \<Rightarrow> int \<Rightarrow> task_row list \<Rightarrow> task_row list \<Rightarrow> uuid list \<times> held_row list \<Rightarrow> uuid list \<times> held_row list" where
  "admit rt db capacity prior [] r = r"
| "admit rt db capacity prior (t # ts) (adm, held) =
     (let sofar = prior @ [t]; layer = layer_of rt db sofar t in
      if layer = None \<and> int (length adm) < capacity then admit rt db capacity sofar ts (adm @ [tk_id t], held)
      else admit rt db capacity sofar ts
             (adm, held @ [\<lparr>hd_id = tk_id t, hd_prev = tk_queued_reason t,
                            hd_reason = (case layer of None \<Rightarrow> ''runtime'' | Some l \<Rightarrow> queued_reason_of l)\<rparr>]))"

text \<open>An absent reason reads as the empty one.\<close>

definition reason_text :: "string option \<Rightarrow> string" where
  "reason_text r = (case r of None \<Rightarrow> [] | Some s \<Rightarrow> s)"

definition note_queued_reasons :: "uuid list \<Rightarrow> held_row list \<Rightarrow> db \<Rightarrow> db" where
  "note_queued_reasons locked held db =
     fold (\<lambda>h db. if hd_reason h = reason_text (hd_prev h) \<or> List.member locked (hd_id h) then db
        else db\<lparr>db_tasks := tbl_upd (\<lambda>t. tk_id t = hd_id h \<and> tk_status t = Queued)
               (\<lambda>t. t\<lparr>tk_queued_reason := (if hd_reason h = [] then None else Some (hd_reason h))\<rparr>) (db_tasks db)\<rparr>) held db"

section \<open>The first run of a room\<close>

definition first_run_waits :: "time \<Rightarrow> db \<Rightarrow> (task_row \<Rightarrow> bool) \<Rightarrow> room_row \<Rightarrow> bool" where
  "first_run_waits now db p s = list_ex (\<lambda>t. tk_room t = rm_id s \<and> tk_status t = Queued \<and> p t \<and> mission_runs db t \<and> due now t) (db_tasks db)"

definition unpinned :: "uuid \<Rightarrow> db \<Rightarrow> string \<Rightarrow> room_row \<Rightarrow> bool" where
  "unpinned rt db kind s \<longleftrightarrow> runtime_workspace rt db = Some (rm_workspace s) \<and> rm_runtime s = None \<and> rm_isolation s = kind \<and> room_open s"

definition repos_of :: "uuid \<Rightarrow> db \<Rightarrow> string list" where
  "repos_of rt db = (case tbl_get rn_id (db_runtimes db) rt of None \<Rightarrow> [] | Some r \<Rightarrow> rn_repos r)"

definition ask_isolations :: "uuid \<Rightarrow> uuid list \<Rightarrow> time \<Rightarrow> db \<Rightarrow> db" where
  "ask_isolations rt locked now db =
     (if repos_of rt db = [] then db
      else fold (\<lambda>room. ask_isolation room rt (hd (repos_of rt db)) now)
             (map rm_id (filter (\<lambda>s. unpinned rt db ''none'' s \<and> \<not> List.member locked (rm_id s)
                 \<and> first_run_waits now db (\<lambda>t. tk_queued_reason t \<noteq> Some approval_pending) s) (db_rooms db))) db)"

definition note_waiting_for_computer :: "uuid list \<Rightarrow> uuid \<Rightarrow> db \<Rightarrow> db" where
  "note_waiting_for_computer locked room db =
     db\<lparr>db_tasks := tbl_upd (\<lambda>t. tk_room t = room \<and> tk_status t = Queued \<and> tk_queued_reason t \<noteq> Some ''runtime''
            \<and> tk_queued_reason t \<noteq> Some approval_pending \<and> \<not> List.member locked (tk_id t))
          (\<lambda>t. t\<lparr>tk_queued_reason := Some ''runtime''\<rparr>) (db_tasks db)\<rparr>"

definition settle_worktrees :: "uuid \<Rightarrow> uuid list \<Rightarrow> time \<Rightarrow> db \<Rightarrow> db" where
  "settle_worktrees rt locked now db =
     fold (\<lambda>s db. case plan_worktree (rm_repo s) (filter (\<lambda>p. p \<noteq> []) (repos_of rt db)) of
                    SettleFill repo \<Rightarrow> snd (fill_worktree (rm_id s) rt repo now db)
                  | SettleAsk \<Rightarrow> ask_repo (rm_id s) rt now db
                  | SettleWait \<Rightarrow> note_waiting_for_computer locked (rm_id s) db)
       (filter (\<lambda>s. unpinned rt db ''worktree'' s \<and> \<not> List.member locked (rm_id s)
                  \<and> first_run_waits now db (\<lambda>_. True) s) (db_rooms db)) db"

section \<open>The claim\<close>

datatype build_answer = Built | NoWorkdirRoot | BuildFailed db_error

text \<open>
  One admitted task: pin its room, dispatch it, build its bundle. A missing working folder root
  undoes the dispatch of this task alone; any other error fails the claim.
\<close>

definition hand_out ::
    "(string \<Rightarrow> string) \<Rightarrow> (uuid \<Rightarrow> string) \<Rightarrow> (uuid \<Rightarrow> db \<Rightarrow> build_answer) \<Rightarrow> uuid \<Rightarrow> time \<Rightarrow> uuid
     \<Rightarrow> uuid list \<times> db \<Rightarrow> db_error + uuid list \<times> db" where
  "hand_out hash tok build rt now i = (\<lambda>(out, db).
     bindE (lock_task i db) (\<lambda>t.
     let db = pin_room (tk_room t) rt now db in
     bindE (mark_dispatched hash (tok i) t rt now db) (\<lambda>(_, db').
     case build i db' of
       Built \<Rightarrow> Inr (out @ [i], db')
     | NoWorkdirRoot \<Rightarrow> Inr (out, insert_server_event_once (tk_id t) (tk_attempt t) ''runtime'' ''error'' ''workdir_root'' ''failed'' now db)
     | BuildFailed e \<Rightarrow> Inl e)))"

definition claim ::
    "(string \<Rightarrow> string) \<Rightarrow> (uuid \<Rightarrow> string) \<Rightarrow> (uuid \<Rightarrow> db \<Rightarrow> build_answer) \<Rightarrow> uuid list \<Rightarrow> uuid \<Rightarrow> int \<Rightarrow> time \<Rightarrow> db
     \<Rightarrow> db_error + uuid list \<times> db" where
  "claim hash tok build locked rt capacity now db =
     (if capacity \<le> 0 then Inr ([], db)
      else let db = settle_worktrees rt locked now (ask_isolations rt locked now db) in
      case admit rt db capacity [] (candidates rt now db) ([], []) of
        (adm, held) \<Rightarrow>
          let db = note_queued_reasons locked held db;
              ids = map tk_id (sort_key tk_created_at (filter (\<lambda>t. List.member adm (tk_id t) \<and> tk_status t = Queued
                      \<and> \<not> List.member locked (tk_id t)) (db_tasks db)))
          in foldE (hand_out hash tok build rt now) ids ([], db))"

end
