(* ===== verification/Claim_Facts.thy ===== *)
theory Claim_Facts
  imports Queue_Claim
begin

text \<open>
  What a claim guarantees: the concurrency layers hold after it, no lane runs two turns, and only
  tasks that may run are handed out.
\<close>

section \<open>Counting\<close>

lemma number_simps [simp]:
  "number p [] = 0" "number p (x # xs) = (if p x then 1 else 0) + number p xs"
  "number p (xs @ ys) = number p xs + number p ys"
  by (simp_all add: number_def)

lemma number_nonneg [simp]: "0 \<le> number p xs"
  by (simp add: number_def)

lemma number_mono: "(\<And>x. x \<in> set xs \<Longrightarrow> p x \<Longrightarrow> q x) \<Longrightarrow> number p xs \<le> number q xs"
  by (induction xs) fastforce+

lemma number_True: "number (\<lambda>_. True) xs = int (length xs)"
  by (simp add: number_def)

lemma number_distinct_subset:
  assumes "distinct xs" and "set xs \<subseteq> set ys"
  shows "number p xs \<le> number p ys"
proof -
  have "length (filter p xs) = card (set (filter p xs))" using assms(1) distinct_card [of "filter p xs"] by simp
  also have "\<dots> \<le> card (set (filter p ys))" using assms(2) by (intro card_mono) auto
  also have "\<dots> \<le> length (filter p ys)" by (rule card_length)
  finally show ?thesis by (simp add: number_def)
qed

text \<open>Changing the one row with a key adds at most that row.\<close>

lemma number_modify:
  assumes "distinct (map key ts)" and "tbl_get key ts i = Some t"
  shows "number p (tbl_modify key i f ts) \<le> number p ts + (if p (f t) then 1 else 0)"
  using assms
proof (induction ts)
  case (Cons r ts)
  show ?case
  proof (cases "key r = i")
    case True
    then have "key x \<noteq> i" if "x \<in> set ts" for x using Cons.prems(1) that by (metis distinct.simps(2) image_eqI list.map(2) list.set_map)
    then have "tbl_modify key i f ts = ts" by (simp add: tbl_modify_def tbl_upd_def map_idI)
    with True Cons.prems show ?thesis by auto
  next
    case False
    with Cons show ?thesis by auto
  qed
qed simp

lemma tbl_get_in: "distinct (map key ts) \<Longrightarrow> t \<in> set ts \<Longrightarrow> tbl_get key ts (key t) = Some t"
  by (induction ts) (auto simp: image_iff)

section \<open>Candidates\<close>

lemma set_distinct_on: "set (distinct_on f xs) \<subseteq> set xs"
  by (induction xs) auto

lemma distinct_distinct_on: "distinct (map f (distinct_on f xs))"
  by (induction xs) (auto simp: distinct_map inj_on_def)

lemma candidate_eligible: "t \<in> set (candidates rt now db) \<Longrightarrow> t \<in> set (db_tasks db) \<and> eligible rt now db t"
  using set_distinct_on by (fastforce simp: candidates_def)

lemma candidate_lanes_distinct: "distinct (map tk_lane (candidates rt now db))"
  using distinct_distinct_on [of tk_lane "sort_key tk_created_at (filter (eligible rt now db) (db_tasks db))"]
  by (simp add: candidates_def distinct_map)

lemma number_lane_candidates: "number (\<lambda>t. tk_lane t = l) (candidates rt now db) \<le> 1"
proof -
  have "number (\<lambda>t. tk_lane t = l) ts \<le> 1" if "distinct (map tk_lane ts)" for ts
    using that
  proof (induction ts)
    case (Cons t ts)
    have "tk_lane t = l \<Longrightarrow> number (\<lambda>t. tk_lane t = l) ts = 0"
      using Cons.prems by (auto simp: number_def filter_empty_conv) (metis image_eqI)
    with Cons show ?case by auto
  qed simp
  then show ?thesis using candidate_lanes_distinct by blast
qed

section \<open>What is admitted\<close>

lemma layer_of_None:
  assumes "layer_of rt db sofar t = None"
  shows "busy_lanes (tk_room t) db + number (\<lambda>x. tk_room x = tk_room t) sofar \<le> lc_lanes (caps_of rt db t)"
    and "number (\<lambda>b. tk_agent b = tk_agent t) (busy_tasks db) + number (\<lambda>x. tk_agent x = tk_agent t) sofar \<le> lc_agent (caps_of rt db t)"
    and "lc_serial (caps_of rt db t) \<Longrightarrow>
      number (\<lambda>b. tk_agent b = tk_agent t \<and> tk_room b = tk_room t) (busy_tasks db)
        + number (\<lambda>x. tk_agent x = tk_agent t \<and> tk_room x = tk_room t) sofar \<le> 1"
    and "number (\<lambda>b. tk_runtime b = Some rt) (busy_tasks db) + int (length sofar) \<le> lc_runtime (caps_of rt db t)"
  using assms by (auto simp: layer_of_def Let_def split: if_splits option.splits)

text \<open>
  The admitted tasks are among the candidates, no more than the capacity, and for every class of
  tasks whose members are only admitted while at most \<open>k\<close> of the class came up, at most \<open>k\<close>.
\<close>

lemma admit_takes:
  assumes "admit rt db capacity prior ts (adm, held) = (adm', held')"
  shows "\<exists>new. adm' = adm @ map tk_id new \<and> set new \<subseteq> set ts
    \<and> (\<forall>p k. (\<forall>t sofar. t \<in> set ts \<longrightarrow> p t \<longrightarrow> layer_of rt db sofar t = None \<longrightarrow> number p sofar \<le> k)
          \<longrightarrow> number p new \<le> max 0 (k - number p prior))
    \<and> (\<forall>p. number p new \<le> number p ts)
    \<and> int (length adm) + int (length new) \<le> max (int (length adm)) capacity"
  using assms
proof (induction ts arbitrary: prior adm held)
  case Nil
  then show ?case by (intro exI [of _ "[]"]) auto
next
  case (Cons t ts)
  show ?case
  proof (cases "layer_of rt db (prior @ [t]) t = None \<and> int (length adm) < capacity")
    case True
    with Cons.prems have "admit rt db capacity (prior @ [t]) ts (adm @ [tk_id t], held) = (adm', held')"
      by (simp add: Let_def)
    from Cons.IH [OF this] obtain new where new: "adm' = (adm @ [tk_id t]) @ map tk_id new" "set new \<subseteq> set ts"
      and k: "\<And>p k. (\<forall>t sofar. t \<in> set ts \<longrightarrow> p t \<longrightarrow> layer_of rt db sofar t = None \<longrightarrow> number p sofar \<le> k)
          \<Longrightarrow> number p new \<le> max 0 (k - number p (prior @ [t]))"
      and le: "\<And>p. number p new \<le> number p ts"
      and len: "int (length (adm @ [tk_id t])) + int (length new) \<le> max (int (length (adm @ [tk_id t]))) capacity" by blast
    have "number p (t # new) \<le> max 0 (k - number p prior)"
      if h: "\<forall>s sofar. s \<in> set (t # ts) \<longrightarrow> p s \<longrightarrow> layer_of rt db sofar s = None \<longrightarrow> number p sofar \<le> k" for p k
    proof (cases "p t")
      case True
      then have "number p (prior @ [t]) \<le> k" using h \<open>layer_of rt db (prior @ [t]) t = None \<and> _\<close> by (meson list.set_intros(1))
      with True k [of p k] h show ?thesis by auto
    next
      case False
      with k [of p k] h show ?thesis by auto
    qed
    with new le len True show ?thesis
      by (intro exI [of _ "t # new"]) (auto simp: add_mono)
  next
    case False
    then obtain held1 where "admit rt db capacity (prior @ [t]) ts (adm, held1) = (adm', held')"
      using Cons.prems by (auto simp: Let_def split: if_splits)
    from Cons.IH [OF this] obtain new where new: "adm' = adm @ map tk_id new" "set new \<subseteq> set ts"
      and k: "\<And>p k. (\<forall>t sofar. t \<in> set ts \<longrightarrow> p t \<longrightarrow> layer_of rt db sofar t = None \<longrightarrow> number p sofar \<le> k)
          \<Longrightarrow> number p new \<le> max 0 (k - number p (prior @ [t]))"
      and le: "\<And>p. number p new \<le> number p ts"
      and len: "int (length adm) + int (length new) \<le> max (int (length adm)) capacity" by blast
    have "number p new \<le> max 0 (k - number p prior)"
      if "\<forall>s sofar. s \<in> set (t # ts) \<longrightarrow> p s \<longrightarrow> layer_of rt db sofar s = None \<longrightarrow> number p sofar \<le> k" for p k
      using k [of p k] that number_nonneg [of p "[t]"] by (auto split: if_splits)
    moreover have "number p new \<le> number p (t # ts)" for p using le [of p] by simp
    ultimately show ?thesis using new len by (intro exI [of _ new]) auto
  qed
qed

section \<open>What the steps before the dispatch keep\<close>

text \<open>A task up to the reason it waits for.\<close>

definition core :: "task_row \<Rightarrow> task_row" where
  "core t = t\<lparr>tk_queued_reason := None\<rparr>"

definition cores :: "db \<Rightarrow> task_row list" where
  "cores db = map core (db_tasks db)"

text \<open>The columns the limits are read from.\<close>

definition limits_of :: "room_row \<Rightarrow> int option \<times> uuid \<times> bool \<times> string option" where
  "limits_of r = (rm_max_lanes r, rm_workspace r, rm_active r, rm_blocked r)"

definition quiet_step :: "db \<Rightarrow> db \<Rightarrow> bool" where
  "quiet_step db db' \<longleftrightarrow> cores db' = cores db \<and> db_agents db' = db_agents db \<and> db_settings db' = db_settings db
     \<and> db_runtimes db' = db_runtimes db \<and> db_works db' = db_works db \<and> db_lanes db' = db_lanes db
     \<and> (\<forall>room. map_option limits_of (get_room room db') = map_option limits_of (get_room room db))"

lemma quiet_step_refl [simp]: "quiet_step db db"
  by (simp add: quiet_step_def)

lemma quiet_step_trans: "quiet_step a b \<Longrightarrow> quiet_step b c \<Longrightarrow> quiet_step a c"
  by (simp add: quiet_step_def)

lemma fold_quiet_step: "(\<And>x db. quiet_step db (f x db)) \<Longrightarrow> quiet_step db (fold f xs db)"
  by (induction xs arbitrary: db) (auto intro: quiet_step_trans)

lemma core_reason [simp]: "core (t\<lparr>tk_queued_reason := r\<rparr>) = core t"
  by (simp add: core_def)

lemma quiet_step_reasons:
  "quiet_step db (db\<lparr>db_tasks := tbl_upd p (\<lambda>t. t\<lparr>tk_queued_reason := r\<rparr>) (db_tasks db)\<rparr>)"
  by (simp add: quiet_step_def cores_def tbl_upd_def get_room_def)

lemma update_room_quiet:
  assumes "\<And>r. limits_of (f r) = limits_of r" and "\<And>r. rm_id (f r) = rm_id r"
  shows "quiet_step db (snd (update_room i p f db))"
proof -
  have "get_room room (db\<lparr>db_rooms := tbl_modify rm_id i f (db_rooms db)\<rparr>) =
      (if room = i then map_option f (get_room room db) else get_room room db)" for room
    unfolding get_room_def using tbl_get_modify [of rm_id f, OF assms(2)] by simp
  moreover have "limits_of \<circ> f = limits_of" using assms(1) by (simp add: fun_eq_iff)
  ultimately show ?thesis
    using assms(1) by (auto simp: update_room_def quiet_step_def cores_def option.map_comp split: option.split)
qed

lemma message_quiet [simp]: "quiet_step db (snd (insert_message a k w room src now db))"
  by (simp add: quiet_step_def cores_def insert_message_def get_room_def)

lemma attach_quiet [simp]: "quiet_step db (attach_hitl_card room w h now db)"
  by (simp add: quiet_step_def cores_def attach_hitl_card_def insert_message_def get_room_def)

lemma request_quiet [simp]: "quiet_step db (snd (insert_isolation_request room db))"
  by (simp add: quiet_step_def cores_def insert_isolation_request_def get_room_def)

lemma file_quiet [simp]: "quiet_step db (file_isolation h now db)"
  by (simp add: quiet_step_def cores_def file_isolation_def insert_inbox_def get_room_def)

lemma ask_room_quiet [simp]: "quiet_step db (ask_room room rt repo now db)"
proof -
  obtain h db1 where r: "insert_isolation_request room db = (h, db1)" by fastforce
  have "quiet_step db db1" using request_quiet [of db room] r by simp
  moreover have "quiet_step db1 (snd (update_room room (\<lambda>_. True) (\<lambda>r. r\<lparr>rm_pending := Some (h, rt, repo), rm_updated_at := now\<rparr>) db1))"
    by (rule update_room_quiet) (simp_all add: limits_of_def)
  ultimately show ?thesis unfolding ask_room_def r
    by (auto intro: quiet_step_trans [OF _ file_quiet] quiet_step_trans [OF _ attach_quiet] quiet_step_trans)
qed

lemma pin_room_quiet: "quiet_step db (pin_room room rt now db)"
proof -
  obtain b db1 where u: "update_room room (pinnable rt db) (\<lambda>r. r\<lparr>rm_runtime := Some rt, rm_updated_at := now\<rparr>) db = (b, db1)"
    by fastforce
  have "quiet_step db (snd (update_room room (pinnable rt db) (\<lambda>r. r\<lparr>rm_runtime := Some rt, rm_updated_at := now\<rparr>) db))"
    by (rule update_room_quiet) (simp_all add: limits_of_def)
  with u show ?thesis by (auto simp: pin_room_def announce_computer_def intro: quiet_step_trans split: bool.split)
qed

lemma fill_worktree_quiet: "quiet_step db (snd (fill_worktree room rt repo now db))"
proof -
  let ?f = "\<lambda>r. r\<lparr>rm_isolation := ''worktree'', rm_repo := repo, rm_pending := None, rm_runtime := Some rt, rm_updated_at := now\<rparr>"
  obtain b db1 where u: "update_room room (pinnable rt db) ?f db = (b, db1)" by fastforce
  have "quiet_step db (snd (update_room room (pinnable rt db) ?f db))"
    by (rule update_room_quiet) (simp_all add: limits_of_def)
  with u show ?thesis by (auto simp: fill_worktree_def announce_computer_def intro: quiet_step_trans split: bool.split)
qed

lemma ask_isolations_quiet: "quiet_step db (ask_isolations rt locked now db)"
  by (auto simp: ask_isolations_def ask_isolation_def intro: fold_quiet_step)

lemma note_waiting_quiet: "quiet_step db (note_waiting_for_computer locked room db)"
  unfolding note_waiting_for_computer_def by (rule quiet_step_reasons)

lemma settle_worktrees_quiet: "quiet_step db (settle_worktrees rt locked now db)"
  unfolding settle_worktrees_def
  by (rule fold_quiet_step) (auto simp: ask_repo_def note_waiting_quiet fill_worktree_quiet split: worktree_settle.split)

lemma note_reasons_quiet: "quiet_step db (note_queued_reasons locked held db)"
  unfolding note_queued_reasons_def by (rule fold_quiet_step) (auto intro: quiet_step_reasons)

text \<open>The questions of a first run leave the held triggers held.\<close>

definition held_kept :: "db \<Rightarrow> db \<Rightarrow> bool" where
  "held_kept db db' \<longleftrightarrow> map (\<lambda>t. (tk_id t, held_task t)) (db_tasks db') = map (\<lambda>t. (tk_id t, held_task t)) (db_tasks db)"

lemma held_kept_task: "held_kept db db' \<Longrightarrow> map_option held_task (get_task i db') = map_option held_task (get_task i db)"
proof -
  have "map_option held_task (tbl_get tk_id ts i) = map_of (map (\<lambda>t. (tk_id t, held_task t)) ts) i" for ts
    by (induction ts) auto
  then show "held_kept db db' \<Longrightarrow> ?thesis" by (simp add: held_kept_def get_task_def)
qed

lemma held_kept_same: "db_tasks db' = db_tasks db \<Longrightarrow> held_kept db db'"
  by (simp add: held_kept_def)

lemma ask_room_tasks [simp]: "db_tasks (ask_room room rt repo now db) = db_tasks db"
  by (auto simp: ask_room_def insert_isolation_request_def file_isolation_def attach_hitl_card_def update_room_def
      insert_message_def insert_inbox_def split: option.split)

lemma ask_isolations_tasks [simp]: "db_tasks (ask_isolations rt locked now db) = db_tasks db"
proof -
  have "db_tasks (fold (\<lambda>room. ask_isolation room rt repo now) rs db) = db_tasks db" for repo rs
    by (induction rs arbitrary: db) (simp_all add: ask_isolation_def)
  then show ?thesis by (simp add: ask_isolations_def)
qed

lemma fill_worktree_tasks [simp]: "db_tasks (snd (fill_worktree room rt repo now db)) = db_tasks db"
  by (auto simp: fill_worktree_def update_room_def announce_computer_def insert_message_def split: option.split)

lemma note_waiting_held: "held_kept db (note_waiting_for_computer locked room db)"
  by (auto simp: held_kept_def note_waiting_for_computer_def tbl_upd_def held_task_def)

lemma fold_held_kept: "(\<And>x db. held_kept db (f x db)) \<Longrightarrow> held_kept db (fold f xs db)"
  by (induction xs arbitrary: db) (auto simp: held_kept_def)

lemma settle_worktrees_held: "held_kept db (settle_worktrees rt locked now db)"
  unfolding settle_worktrees_def
  by (rule fold_held_kept) (auto simp: ask_repo_def note_waiting_held intro: held_kept_same split: worktree_settle.split)

section \<open>The dispatch\<close>

definition dispatched :: "uuid \<Rightarrow> time \<Rightarrow> task_row \<Rightarrow> task_row" where
  "dispatched rt now r = r\<lparr>tk_status := Dispatched, tk_runtime := Some rt, tk_dispatched_at := Some now,
     tk_heartbeat_at := None, tk_queued_reason := None, tk_updated_at := now\<rparr>"

lemma mark_dispatched_tasks:
  assumes "mark_dispatched hash tok t rt now db = Inr (t', db')" and "get_task (tk_id t) db = Some r"
  shows "db_tasks db' = tbl_modify tk_id (tk_id t) (dispatched rt now) (db_tasks db)"
  using assms by (auto simp: mark_dispatched_def Let_def update_task_def dispatched_def [abs_def] upsert_attempt_def
      update_lane_def dest!: issue_frame split: if_splits)

lemma pin_room_tasks [simp]: "db_tasks (pin_room room rt now db) = db_tasks db"
  by (auto simp: pin_room_def update_room_def announce_computer_def insert_message_def split: option.split)

lemma event_once_tasks [simp]: "db_tasks (insert_server_event_once i n c v ob oc now db) = db_tasks db"
  by (simp add: insert_server_event_once_def insert_server_event_def)

lemma hand_out_tasks:
  assumes "hand_out hash tok build rt now i (out, db) = Inr (out', db')"
  obtains t where "get_task i db = Some t" and
    "db_tasks db' = db_tasks db \<and> out' = out
     \<or> db_tasks db' = tbl_modify tk_id i (dispatched rt now) (db_tasks db) \<and> out' = out @ [i] \<and> tk_status t = Queued"
proof -
  from assms obtain t where t: "get_task i db = Some t"
    by (cases "get_task i db") (auto simp: hand_out_def lock_task_def)
  let ?p = "pin_room (tk_room t) rt now db"
  from assms t obtain t1 db1 where d: "mark_dispatched hash (tok i) t rt now ?p = Inr (t1, db1)"
    and rest: "(case build i db1 of Built \<Rightarrow> Inr (out @ [i], db1)
       | NoWorkdirRoot \<Rightarrow> Inr (out, insert_server_event_once (tk_id t) (tk_attempt t) ''runtime'' ''error'' ''workdir_root'' ''failed'' now ?p)
       | BuildFailed e \<Rightarrow> Inl e) = Inr (out', db')"
    by (auto simp: hand_out_def lock_task_def Let_def)
  have id: "tk_id t = i" using t unfolding get_task_def by (rule tbl_get_Some_key)
  have "get_task (tk_id t) ?p = Some t" using t id by (simp add: get_task_def)
  from mark_dispatched_tasks [OF d this] have "db_tasks db1 = tbl_modify tk_id i (dispatched rt now) (db_tasks db)" by (simp add: id)
  moreover have "tk_status t = Queued"
    using d by (cases "tk_status t") (auto simp: mark_dispatched_def transition_def can_transition_def)
  ultimately show thesis using that [OF t] rest by (auto split: build_answer.splits)
qed

text \<open>
  A measure of the busy tasks: it does not read the queued reason, and a dispatch adds at most one
  when the dispatched task is in the class.
\<close>

definition class_measure :: "(db \<Rightarrow> int) \<Rightarrow> (task_row \<Rightarrow> bool) \<Rightarrow> bool" where
  "class_measure m p \<longleftrightarrow>
     (\<forall>db db'. cores db' = cores db \<longrightarrow> m db' = m db)
   \<and> (\<forall>t t'. core t' = core t \<longrightarrow> p t' = p t)
   \<and> (\<forall>rt now db db' i t. distinct (map tk_id (db_tasks db)) \<longrightarrow> get_task i db = Some t
        \<longrightarrow> db_tasks db' = tbl_modify tk_id i (dispatched rt now) (db_tasks db)
        \<longrightarrow> m db' \<le> m db + (if p t then 1 else 0))"

definition in_class :: "(task_row \<Rightarrow> bool) \<Rightarrow> db \<Rightarrow> uuid \<Rightarrow> bool" where
  "in_class p db i = (case get_task i db of None \<Rightarrow> False | Some t \<Rightarrow> p t)"

lemma cores_ids: "cores db' = cores db \<Longrightarrow> map tk_id (db_tasks db') = map tk_id (db_tasks db)"
proof -
  assume "cores db' = cores db"
  then have "map (tk_id \<circ> core) (db_tasks db') = map (tk_id \<circ> core) (db_tasks db)"
    by (simp add: cores_def flip: map_map)
  then show ?thesis by (simp add: core_def comp_def)
qed

lemma hand_out_loop:
  assumes "class_measure m p" and "distinct (map tk_id (db_tasks db))" and "distinct ids"
    and "foldE (hand_out hash tok build rt now) ids (out, db) = Inr (out', db')"
  shows "m db' \<le> m db + number (in_class p db) ids \<and> (\<exists>new. out' = out @ new \<and> set new \<subseteq> set ids \<and> length new \<le> length ids)"
  using assms(2-)
proof (induction ids arbitrary: out db)
  case Nil
  then show ?case by simp
next
  case (Cons i ids)
  from Cons.prems(3) obtain out1 db1 where h: "hand_out hash tok build rt now i (out, db) = Inr (out1, db1)"
    and rest: "foldE (hand_out hash tok build rt now) ids (out1, db1) = Inr (out', db')" by fastforce
  from h obtain t where t: "get_task i db = Some t" and
    step: "db_tasks db1 = db_tasks db \<and> out1 = out
     \<or> db_tasks db1 = tbl_modify tk_id i (dispatched rt now) (db_tasks db) \<and> out1 = out @ [i] \<and> tk_status t = Queued"
    by (rule hand_out_tasks)
  have ids1: "map tk_id (db_tasks db1) = map tk_id (db_tasks db)"
    using step map_modify_same [of tk_id "dispatched rt now"] by (auto simp: dispatched_def)
  have other: "get_task j db1 = get_task j db" if "j \<noteq> i" for j
    using step that tbl_get_modify [of tk_id "dispatched rt now"] by (auto simp: get_task_def dispatched_def)
  from Cons.IH [OF _ _ rest] Cons.prems ids1
  have IH: "m db' \<le> m db1 + number (in_class p db1) ids"
    "\<exists>new. out' = out1 @ new \<and> set new \<subseteq> set ids \<and> length new \<le> length ids" by auto
  have "number (in_class p db1) ids = number (in_class p db) ids"
  proof -
    have "in_class p db1 j = in_class p db j" if "j \<in> set ids" for j
    proof -
      have "j \<noteq> i" using that Cons.prems(2) by auto
      then show ?thesis by (simp add: in_class_def other)
    qed
    then have "filter (in_class p db1) ids = filter (in_class p db) ids" by (rule filter_cong [OF refl])
    then show ?thesis by (simp add: number_def)
  qed
  moreover have "m db1 \<le> m db + (if p t then 1 else 0)"
  proof (cases "db_tasks db1 = db_tasks db")
    case True
    then have "cores db1 = cores db" by (simp add: cores_def)
    with assms(1) have "m db1 = m db" unfolding class_measure_def by blast
    then show ?thesis by simp
  next
    case False
    with step have "db_tasks db1 = tbl_modify tk_id i (dispatched rt now) (db_tasks db)" by blast
    with assms(1) Cons.prems(1) t show ?thesis unfolding class_measure_def by blast
  qed
  moreover have "in_class p db i = p t" using t by (simp add: in_class_def)
  ultimately have "m db' \<le> m db + number (in_class p db) (i # ids)" using IH(1) by simp
  then show ?case using IH(2) step by auto
qed

lemma get_task_core:
  assumes "cores db' = cores db" and "get_task i db = Some t"
  shows "\<exists>t'. get_task i db' = Some t' \<and> core t' = core t"
proof -
  have "map_option core (tbl_get tk_id ts i) = tbl_get tk_id (map core ts) i" for ts
    by (induction ts) (auto simp: core_def)
  then have "map_option core (get_task i db) = tbl_get tk_id (cores db) i" for db
    by (simp add: get_task_def cores_def)
  with assms show ?thesis by (metis map_option_eq_Some)
qed

text \<open>A claim as its three parts: what it looked at, what it admitted, what the measure became.\<close>

lemma claim_measures:
  assumes "claim hash tok build locked rt capacity now db = Inr (out, db')" and "distinct (map tk_id (db_tasks db))"
  obtains "capacity \<le> 0" "out = []" "db' = db"
  | db1 new where "quiet_step db db1" "held_kept db db1" "set new \<subseteq> set (candidates rt now db1)"
      "set out \<subseteq> tk_id ` set new" "int (length out) \<le> capacity"
      "\<And>p. number p new \<le> number p (candidates rt now db1)"
      "\<And>p k. (\<And>t sofar. t \<in> set (candidates rt now db1) \<Longrightarrow> p t \<Longrightarrow> layer_of rt db1 sofar t = None \<Longrightarrow> number p sofar \<le> k)
         \<Longrightarrow> number p new \<le> max 0 k"
      "\<And>m p. class_measure m p \<Longrightarrow> m db' \<le> m db + number p new"
proof (cases "capacity \<le> 0")
  case True
  with assms that(1) show thesis by (simp add: claim_def)
next
  case False
  define db1 where "db1 = settle_worktrees rt locked now (ask_isolations rt locked now db)"
  obtain adm held where a: "admit rt db1 capacity [] (candidates rt now db1) ([], []) = (adm, held)" by fastforce
  define db2 where "db2 = note_queued_reasons locked held db1"
  define ids where "ids = map tk_id (sort_key tk_created_at (filter (\<lambda>t. List.member adm (tk_id t) \<and> tk_status t = Queued
                      \<and> \<not> List.member locked (tk_id t)) (db_tasks db2)))"
  have run: "foldE (hand_out hash tok build rt now) ids ([], db2) = Inr (out, db')"
    using assms(1) False a by (simp add: claim_def db1_def db2_def ids_def Let_def)
  have q1: "quiet_step db db1" unfolding db1_def
    using quiet_step_trans [OF ask_isolations_quiet settle_worktrees_quiet] .
  have hk: "held_kept db db1" unfolding db1_def
    using settle_worktrees_held [of "ask_isolations rt locked now db" rt locked now] by (simp add: held_kept_def)
  have q2: "quiet_step db db2" unfolding db2_def using quiet_step_trans [OF q1 note_reasons_quiet] .
  from admit_takes [OF a] obtain new where new: "adm = map tk_id new" "set new \<subseteq> set (candidates rt now db1)"
    and k: "\<And>p k. (\<forall>t sofar. t \<in> set (candidates rt now db1) \<longrightarrow> p t \<longrightarrow> layer_of rt db1 sofar t = None \<longrightarrow> number p sofar \<le> k)
         \<Longrightarrow> number p new \<le> max 0 k"
    and le: "\<And>p. number p new \<le> number p (candidates rt now db1)" and len: "int (length new) \<le> capacity"
    using False by fastforce
  have d2: "distinct (map tk_id (db_tasks db2))"
    using q2 cores_ids [of db2 db] assms(2) by (simp add: quiet_step_def)
  have d1: "distinct (map tk_id (db_tasks db1))"
    using q1 cores_ids [of db1 db] assms(2) by (simp add: quiet_step_def)
  have di: "distinct ids" using d2 by (simp add: ids_def distinct_map inj_on_def)
  have sub: "set ids \<subseteq> set (map tk_id new)" unfolding ids_def using new(1) by auto
  have measure: "m db' \<le> m db + number p new" if c: "class_measure m p" for m p
  proof -
    have "m db' \<le> m db2 + number (in_class p db2) ids" using hand_out_loop [OF c d2 di run] by blast
    moreover have "m db2 = m db" using c q2 unfolding class_measure_def quiet_step_def by blast
    moreover have "number (in_class p db2) ids \<le> number (in_class p db2) (map tk_id new)"
      by (rule number_distinct_subset [OF di sub])
    moreover have "number (in_class p db2) (map tk_id new) = number (\<lambda>t. in_class p db2 (tk_id t)) new"
      by (simp add: number_def filter_map comp_def)
    moreover have "number (\<lambda>t. in_class p db2 (tk_id t)) new \<le> number p new"
    proof (rule number_mono)
      fix t
      assume "t \<in> set new" and i: "in_class p db2 (tk_id t)"
      then have "t \<in> set (db_tasks db1)" using new(2) candidate_eligible by blast
      then have "get_task (tk_id t) db1 = Some t" using d1 by (simp add: get_task_def tbl_get_in)
      moreover have "cores db2 = cores db1" using q1 q2 by (simp add: quiet_step_def)
      ultimately obtain t' where t': "get_task (tk_id t) db2 = Some t'" and "core t' = core t" using get_task_core by blast
      then have "p t' = p t" using c unfolding class_measure_def by blast
      with i t' show "p t" by (simp add: in_class_def)
    qed
    ultimately show ?thesis by simp
  qed
  have "\<exists>new'. out = [] @ new' \<and> set new' \<subseteq> set ids \<and> length new' \<le> length ids"
    using hand_out_loop [of "\<lambda>_. 0" "\<lambda>_. False" db2 ids hash tok build rt now "[]" out db'] run d2 di
    by (auto simp: class_measure_def)
  then have out: "set out \<subseteq> set ids" "length out \<le> length ids" by auto
  have "int (length ids) \<le> int (length new)"
    using number_distinct_subset [OF di sub, of "\<lambda>_. True"] by (simp add: number_True)
  with out(2) len have lo: "int (length out) \<le> capacity" by linarith
  from sub out(1) have so: "set out \<subseteq> tk_id ` set new" by auto
  show thesis
    by (rule that(2) [OF q1 hk new(2) so lo le _ measure]) (use k in blast)
qed

section \<open>The guarantees\<close>

lemma busy_number: "number q (busy_tasks db) = number (\<lambda>t. in_flight (tk_status t) \<and> q t) (db_tasks db)"
  by (simp add: number_def busy_tasks_def conj_commute)

lemma number_map: "number p (map f xs) = number (\<lambda>x. p (f x)) xs"
  by (simp add: number_def filter_map comp_def)

lemma measure_number:
  assumes "\<And>t. q (core t) = q t" and "\<And>t t'. core t' = core t \<Longrightarrow> p t' = p t"
    and "\<And>rt now t. q (dispatched rt now t) \<Longrightarrow> p t"
  shows "class_measure (\<lambda>db. number q (busy_tasks db)) p"
proof -
  have "number q (busy_tasks db) = number (\<lambda>t. in_flight (tk_status t) \<and> q t) (cores db)" for db
    unfolding busy_number cores_def number_map using assms(1) by (simp add: core_def)
  then have "\<forall>db db'. cores db' = cores db \<longrightarrow> number q (busy_tasks db') = number q (busy_tasks db)" by simp
  moreover have "number q (busy_tasks db') \<le> number q (busy_tasks db) + (if p t then 1 else 0)"
    if "distinct (map tk_id (db_tasks db))" "get_task i db = Some t"
      "db_tasks db' = tbl_modify tk_id i (dispatched rt now) (db_tasks db)" for rt now db db' i t
  proof -
    have "number q (busy_tasks db') \<le> number q (busy_tasks db) + (if q (dispatched rt now t) then 1 else 0)"
      using number_modify [of tk_id "db_tasks db" i t "\<lambda>t. in_flight (tk_status t) \<and> q t" "dispatched rt now"] that
      by (auto simp: busy_number get_task_def split: if_splits)
    with assms(3) [of rt now t] show ?thesis by (auto split: if_splits)
  qed
  ultimately show ?thesis using assms(2) unfolding class_measure_def by blast
qed

lemma busy_lanes_card:
  "busy_lanes room db = int (card (tk_lane ` {t \<in> set (db_tasks db). in_flight (tk_status t) \<and> tk_room t = room}))"
proof -
  have "length (remdups (map tk_lane (filter (\<lambda>b. tk_room b = room) (busy_tasks db))))
      = card (set (map tk_lane (filter (\<lambda>b. tk_room b = room) (busy_tasks db))))"
    by (simp add: length_remdups_card_conv)
  also have "set (map tk_lane (filter (\<lambda>b. tk_room b = room) (busy_tasks db)))
      = tk_lane ` {t \<in> set (db_tasks db). in_flight (tk_status t) \<and> tk_room t = room}"
    by (auto simp: busy_tasks_def)
  finally show ?thesis by (simp add: busy_lanes_def)
qed

lemma measure_lanes: "class_measure (busy_lanes room) (\<lambda>t. tk_room t = room)"
proof -
  have c: "tk_room (core t) = tk_room t" "tk_lane (core t) = tk_lane t" "tk_status (core t) = tk_status t" for t
    by (simp_all add: core_def)
  have "tk_lane ` {t \<in> set (db_tasks db). in_flight (tk_status t) \<and> tk_room t = room}
      = tk_lane ` {t \<in> set (cores db). in_flight (tk_status t) \<and> tk_room t = room}" for db
  proof -
    have "{t \<in> set (cores db). in_flight (tk_status t) \<and> tk_room t = room}
        = core ` {t \<in> set (db_tasks db). in_flight (tk_status t) \<and> tk_room t = room}"
      by (auto simp: cores_def c)
    then show ?thesis by (simp add: image_image c)
  qed
  then have "\<forall>db db'. cores db' = cores db \<longrightarrow> busy_lanes room db' = busy_lanes room db" by (simp add: busy_lanes_card)
  moreover have "\<forall>t t'. core t' = core t \<longrightarrow> (tk_room t' = room) = (tk_room t = room)" by (metis c(1))
  moreover have "busy_lanes room db' \<le> busy_lanes room db + (if tk_room t = room then 1 else 0)"
    if "get_task i db = Some t" "db_tasks db' = tbl_modify tk_id i (dispatched rt now) (db_tasks db)"
      "distinct (map tk_id (db_tasks db))" for rt now db db' i t
  proof -
    let ?B = "\<lambda>db. tk_lane ` {t \<in> set (db_tasks db). in_flight (tk_status t) \<and> tk_room t = room}"
    have only: "r = t" if "r \<in> set (db_tasks db)" "tk_id r = i" for r
      using tbl_get_in [OF \<open>distinct _\<close> that(1)] that(2) \<open>get_task i db = Some t\<close> by (simp add: get_task_def)
    have "?B db' \<subseteq> ?B db \<union> (if tk_room t = room then {tk_lane t} else {})"
      using only unfolding that(2) set_tbl_modify by (force simp: dispatched_def split: if_splits)
    then have "card (?B db') \<le> card (?B db \<union> (if tk_room t = room then {tk_lane t} else {}))"
      by (intro card_mono) auto
    also have "\<dots> \<le> card (?B db) + (if tk_room t = room then 1 else 0)"
      using card_Un_le [of "?B db" "if tk_room t = room then {tk_lane t} else {}"] by (auto split: if_splits)
    finally show ?thesis by (simp add: busy_lanes_card split: if_splits)
  qed
  ultimately show ?thesis unfolding class_measure_def by blast
qed

text \<open>The limits as the settings name them.\<close>

definition room_cap :: "uuid \<Rightarrow> db \<Rightarrow> int" where
  "room_cap room db = (case Option.bind (get_room room db) rm_max_lanes of None \<Rightarrow> 5 | Some n \<Rightarrow> n)"

definition agent_cap :: "uuid \<Rightarrow> db \<Rightarrow> int" where
  "agent_cap agent db = (case tbl_get ag_id (db_agents db) agent of None \<Rightarrow> 0 | Some a \<Rightarrow> ag_max_tasks a)"

definition runtime_cap :: "uuid \<Rightarrow> db \<Rightarrow> int" where
  "runtime_cap rt db =
     (case Option.bind (Option.bind (runtime_workspace rt db) (tbl_get st_workspace (db_settings db))) st_runtime_cap of
        None \<Rightarrow> 10 | Some n \<Rightarrow> n)"

lemma caps_same:
  assumes "quiet_step db db1"
  shows "lc_lanes (caps_of rt db1 t) = room_cap (tk_room t) db" "lc_agent (caps_of rt db1 t) = agent_cap (tk_agent t) db"
    "lc_runtime (caps_of rt db1 t) = runtime_cap rt db"
proof -
  have m: "map_option rm_max_lanes (get_room room db1) = map_option rm_max_lanes (get_room room db)" for room
  proof -
    have "map_option (fst \<circ> limits_of) (get_room room db1) = map_option (fst \<circ> limits_of) (get_room room db)"
      using assms unfolding quiet_step_def by (metis option.map_comp)
    then show ?thesis by (simp add: limits_of_def comp_def)
  qed
  have "Option.bind (get_room room db1) rm_max_lanes = Option.bind (get_room room db) rm_max_lanes" for room
  proof -
    have b: "Option.bind v f = Option.bind (map_option f v) id" for v :: "'v option" and f :: "'v \<Rightarrow> 'x option"
      by (cases v) simp_all
    show ?thesis unfolding b [of "get_room room db1"] b [of "get_room room db"] by (simp add: m)
  qed
  then show "lc_lanes (caps_of rt db1 t) = room_cap (tk_room t) db" by (simp add: caps_of_def room_cap_def)
  show "lc_agent (caps_of rt db1 t) = agent_cap (tk_agent t) db" "lc_runtime (caps_of rt db1 t) = runtime_cap rt db"
    using assms by (simp_all add: quiet_step_def caps_of_def agent_cap_def runtime_cap_def runtime_workspace_def Let_def)
qed

lemma core_keeps:
  assumes "core t' = core t"
  shows "tk_lane t' = tk_lane t" "tk_agent t' = tk_agent t" "tk_work t' = tk_work t" "tk_status t' = tk_status t"
    "tk_not_before t' = tk_not_before t" "tk_room t' = tk_room t"
  using arg_cong [OF assms, of tk_lane] arg_cong [OF assms, of tk_agent] arg_cong [OF assms, of tk_work]
    arg_cong [OF assms, of tk_status] arg_cong [OF assms, of tk_not_before] arg_cong [OF assms, of tk_room]
  by (simp_all add: core_def)

lemma agent_measure: "class_measure (\<lambda>db. number (\<lambda>t. tk_agent t = a) (busy_tasks db)) (\<lambda>t. tk_agent t = a)"
proof (rule measure_number)
  show "(tk_agent (core t) = a) = (tk_agent t = a)" for t by (simp add: core_def)
  show "core t' = core t \<Longrightarrow> (tk_agent t' = a) = (tk_agent t = a)" for t t' by (drule core_keeps(2)) (rule arg_cong [of _ _ "\<lambda>x. x = a"])
  show "tk_agent (dispatched rt now t) = a \<Longrightarrow> tk_agent t = a" for rt now t by (simp add: dispatched_def)
qed

lemma runtime_measure: "class_measure (\<lambda>db. number (\<lambda>t. tk_runtime t = Some rt) (busy_tasks db)) (\<lambda>_. True)"
  by (rule measure_number) (auto simp: core_def)

lemma lane_measure: "class_measure (\<lambda>db. number (\<lambda>t. tk_lane t = l) (busy_tasks db)) (\<lambda>t. tk_lane t = l)"
proof (rule measure_number)
  show "(tk_lane (core t) = l) = (tk_lane t = l)" for t by (simp add: core_def)
  show "core t' = core t \<Longrightarrow> (tk_lane t' = l) = (tk_lane t = l)" for t t' by (drule core_keeps(1)) (rule arg_cong [of _ _ "\<lambda>x. x = l"])
  show "tk_lane (dispatched rt now t) = l \<Longrightarrow> tk_lane t = l" for rt now t by (simp add: dispatched_def)
qed

text \<open>
  C8 A claim respects every concurrency layer. However many tasks are queued and whatever
  the capacity asked for: the claim hands out at most the capacity; the lanes running in a room,
  the tasks in flight of an agent over all rooms and the tasks in flight on the claiming computer
  stay within their limits (a limit that was lowered below what already runs is not exceeded
  further).
\<close>

theorem claim_respects_caps:
  assumes "claim hash tok build locked rt capacity now db = Inr (out, db')"
    and "distinct (map tk_id (db_tasks db))"
  shows "int (length out) \<le> max 0 capacity
    \<and> busy_lanes room db' \<le> max (busy_lanes room db) (room_cap room db)
    \<and> number (\<lambda>t. tk_agent t = a) (busy_tasks db') \<le> max (number (\<lambda>t. tk_agent t = a) (busy_tasks db)) (agent_cap a db)
    \<and> number (\<lambda>t. tk_runtime t = Some rt) (busy_tasks db')
        \<le> max (number (\<lambda>t. tk_runtime t = Some rt) (busy_tasks db)) (runtime_cap rt db)"
  using assms
proof (cases rule: claim_measures)
  case 1
  then show ?thesis by simp
next
  case (2 db1 new)
  have bounded: "m db' \<le> max (m db) cap"
    if "class_measure m p" and "\<And>t sofar. p t \<Longrightarrow> layer_of rt db1 sofar t = None \<Longrightarrow> m db1 + number p sofar \<le> cap"
    for m :: "db \<Rightarrow> int" and p cap
  proof -
    have "m db1 = m db" using that(1) 2(1) unfolding class_measure_def quiet_step_def by blast
    have "number p sofar \<le> cap - m db" if "p t" "layer_of rt db1 sofar t = None" for t sofar
      using \<open>\<And>t sofar. p t \<Longrightarrow> layer_of rt db1 sofar t = None \<Longrightarrow> m db1 + number p sofar \<le> cap\<close> [OF that]
        \<open>m db1 = m db\<close> by linarith
    then have "number p new \<le> max 0 (cap - m db)" by (rule 2(7))
    with 2(8) [OF that(1)] show ?thesis by linarith
  qed
  have "busy_lanes room db' \<le> max (busy_lanes room db) (room_cap room db)"
  proof (rule bounded [OF measure_lanes])
    fix t sofar
    assume "tk_room t = room" and "layer_of rt db1 sofar t = None"
    with layer_of_None(1) [OF this(2)] caps_same(1) [OF 2(1), of rt t]
    show "busy_lanes room db1 + number (\<lambda>t. tk_room t = room) sofar \<le> room_cap room db" by simp
  qed
  moreover have "number (\<lambda>t. tk_agent t = a) (busy_tasks db') \<le> max (number (\<lambda>t. tk_agent t = a) (busy_tasks db)) (agent_cap a db)"
  proof (rule bounded [OF agent_measure])
    fix t sofar
    assume "tk_agent t = a" and "layer_of rt db1 sofar t = None"
    with layer_of_None(2) [OF this(2)] caps_same(2) [OF 2(1), of rt t]
    show "number (\<lambda>t. tk_agent t = a) (busy_tasks db1) + number (\<lambda>t. tk_agent t = a) sofar \<le> agent_cap a db" by simp
  qed
  moreover have "number (\<lambda>t. tk_runtime t = Some rt) (busy_tasks db')
        \<le> max (number (\<lambda>t. tk_runtime t = Some rt) (busy_tasks db)) (runtime_cap rt db)"
  proof (rule bounded [OF runtime_measure])
    fix t sofar
    assume "layer_of rt db1 sofar t = None"
    with layer_of_None(4) [OF this] caps_same(3) [OF 2(1), of rt t]
    show "number (\<lambda>t. tk_runtime t = Some rt) (busy_tasks db1) + number (\<lambda>_. True) sofar \<le> runtime_cap rt db"
      by (simp add: number_True)
  qed
  ultimately show ?thesis using 2(5) by simp
qed

text \<open>
  No lane ever runs two turns because of a claim: a lane with at most one task in flight has at
  most one after it.
\<close>

theorem claim_one_turn_per_lane:
  assumes "claim hash tok build locked rt capacity now db = Inr (out, db')"
    and "distinct (map tk_id (db_tasks db))" and "number (\<lambda>t. tk_lane t = l) (busy_tasks db) \<le> 1"
  shows "number (\<lambda>t. tk_lane t = l) (busy_tasks db') \<le> 1"
  using assms(1,2)
proof (cases rule: claim_measures)
  case 1
  then show ?thesis using assms(3) by simp
next
  case (2 db1 new)
  let ?m = "\<lambda>db. number (\<lambda>t. tk_lane t = l) (busy_tasks db)"
  have m: "?m db1 = ?m db" using lane_measure [of l] 2(1) unfolding class_measure_def quiet_step_def by blast
  have le: "?m db' \<le> ?m db + number (\<lambda>t. tk_lane t = l) (candidates rt now db1)"
    using 2(8) [OF lane_measure [of l]] 2(6) [of "\<lambda>t. tk_lane t = l"] by linarith
  show ?thesis
  proof (cases "\<exists>t \<in> set (candidates rt now db1). tk_lane t = l")
    case True
    then have "\<not> list_ex (\<lambda>b. tk_lane b = l) (busy_tasks db1)"
      using candidate_eligible by (fastforce simp: eligible_def split: option.splits)
    then have "?m db1 = 0" by (auto simp: number_def filter_empty_conv list_ex_iff)
    with le m number_lane_candidates [of l rt now db1] show ?thesis by linarith
  next
    case False
    then have "number (\<lambda>t. tk_lane t = l) (candidates rt now db1) = 0" by (auto simp: number_def filter_empty_conv)
    with le assms(3) show ?thesis by linarith
  qed
qed

text \<open>What may be handed out: read off the state before the claim.\<close>

definition runnable :: "uuid \<Rightarrow> time \<Rightarrow> db \<Rightarrow> uuid \<Rightarrow> bool" where
  "runnable rt now db i =
     (case get_task i db of None \<Rightarrow> False
      | Some t \<Rightarrow>
         (case (get_room (tk_room t) db, get_lane (tk_lane t) db) of
            (Some s, Some l) \<Rightarrow>
                tk_status t = Queued \<and> due now t \<and> mission_runs db t
              \<and> rm_active s \<and> rm_blocked s = None \<and> runtime_workspace rt db = Some (rm_workspace s)
              \<and> ln_status l \<noteq> LanePaused
              \<and> \<not> list_ex (\<lambda>b. tk_lane b = tk_lane t) (busy_tasks db)
              \<and> \<not> list_ex (\<lambda>d. List.member (ln_depends_on l) (ln_id d)
                     \<and> \<not> (ln_status d = LaneDone \<or> ln_status d = LaneFailed \<or> ln_status d = LaneBlocked)) (db_lanes db)
          | _ \<Rightarrow> False))"

lemma busy_lane_cores: "list_ex (\<lambda>b. tk_lane b = l) (busy_tasks db) = list_ex (\<lambda>b. in_flight (tk_status b) \<and> tk_lane b = l) (cores db)"
  by (auto simp: busy_tasks_def cores_def list_ex_iff core_def)

lemma eligible_before:
  assumes "quiet_step db db1" and "get_task i db1 = Some t1" and "eligible rt now db1 t1"
  shows "runnable rt now db i"
proof -
  from assms(3) obtain s1 l r where g: "get_room (tk_room t1) db1 = Some s1" "get_lane (tk_lane t1) db1 = Some l"
      "tbl_get rn_id (db_runtimes db1) rt = Some r" and
    e: "tk_status t1 = Queued" "room_open s1" "mission_runs db1 t1" "ln_status l \<noteq> LanePaused" "rm_workspace s1 = rn_workspace r"
      "due now t1" "\<not> list_ex (\<lambda>b. tk_lane b = tk_lane t1) (busy_tasks db1)"
      "\<not> list_ex (\<lambda>d. List.member (ln_depends_on l) (ln_id d)
                 \<and> \<not> (ln_status d = LaneDone \<or> ln_status d = LaneFailed \<or> ln_status d = LaneBlocked)) (db_lanes db1)"
    by (auto simp: eligible_def split: option.splits)
  have c: "cores db = cores db1" using assms(1) by (simp add: quiet_step_def)
  from get_task_core [OF c assms(2)] obtain t where t: "get_task i db = Some t" and ct: "core t = core t1" by blast
  note k = core_keeps [OF ct]
  have "map_option limits_of (get_room (tk_room t1) db) = Some (limits_of s1)"
    using assms(1) g(1) unfolding quiet_step_def by (metis option.map(2))
  then obtain s where s: "get_room (tk_room t) db = Some s" "limits_of s = limits_of s1" by (auto simp: k(6))
  have same: "db_lanes db1 = db_lanes db" "db_runtimes db1 = db_runtimes db" "db_works db1 = db_works db"
    using assms(1) by (simp_all add: quiet_step_def)
  have "get_lane (tk_lane t) db = Some l" using g(2) same k(1) by (simp add: get_lane_def)
  moreover have "mission_runs db t" 
    using e(3) same k(3) by (cases "tk_work t") (auto simp: mission_runs_def get_work_def split: option.splits)
  moreover have "due now t" using e(6) k(5) by (simp add: due_def)
  moreover have "runtime_workspace rt db = Some (rm_workspace s)"
    using g(3) same(2) s(2) e(5) by (simp add: runtime_workspace_def limits_of_def)
  moreover have "rm_active s \<and> rm_blocked s = None" using s(2) e(2) by (simp add: limits_of_def room_open_def)
  moreover have "\<not> list_ex (\<lambda>b. tk_lane b = tk_lane t) (busy_tasks db)" using e(7) c k(1) by (simp add: busy_lane_cores)
  ultimately show ?thesis using t s(1) e(1,4,8) k(4) same(1) by (simp add: runnable_def)
qed

text \<open>
  C9 Only what may run is handed out. Every task of a claim's answer was queued and due, its room
  open for this computer's workspace and not blocked, its mission active, its lane not paused, with
  no other turn running in it and with every lane it depends on settled - also when the same claim
  asked its first-run questions, pinned rooms and dispatched other tasks on the way.
\<close>

theorem claim_only_runnable:
  assumes "claim hash tok build locked rt capacity now db = Inr (out, db')"
    and "distinct (map tk_id (db_tasks db))"
  shows "list_all (runnable rt now db) out"
  using assms
proof (cases rule: claim_measures)
  case 1
  then show ?thesis by simp
next
  case (2 db1 new)
  have d1: "distinct (map tk_id (db_tasks db1))"
    using 2(1) cores_ids [of db1 db] assms(2) by (simp add: quiet_step_def)
  have "runnable rt now db i" if "i \<in> set out" for i
  proof -
    from that 2(4) obtain t where t: "t \<in> set new" "i = tk_id t" by blast
    then have "t \<in> set (db_tasks db1)" "eligible rt now db1 t" using 2(3) candidate_eligible by blast+
    moreover from this d1 have "get_task i db1 = Some t" by (simp add: get_task_def tbl_get_in t(2))
    ultimately show ?thesis using eligible_before [OF 2(1)] by blast
  qed
  then show ?thesis by (simp add: list_all_iff)
qed

section \<open>A claim at work\<close>

text \<open>Three tasks queued in three lanes of one room; the agent may run one task at a time.\<close>

definition claim_db :: db where
  "claim_db = (mission_db Completed)\<lparr>
     db_tasks := map (\<lambda>i. sample_task\<lparr>tk_id := i, tk_lane := i, tk_status := Queued\<rparr>) [1, 2, 3],
     db_lanes := map (\<lambda>i. sample_lane\<lparr>ln_id := i\<rparr>) [1, 2, 3],
     db_attempts := [], db_tokens := [],
     db_agents := [\<lparr>ag_id = tk_agent sample_task, ag_max_tasks = 1, ag_name = ''Dev'', ag_disabled = False, ag_budget = None\<rparr>],
     db_runtimes := [\<lparr>rn_id = 5, rn_workspace = 1, rn_repos = [], rn_online = True, rn_offline_since = None,
        rn_last_seen_at = None, rn_updated_at = 0\<rparr>]\<rparr>"

definition claim_now :: "db_error + uuid list \<times> db" where
  "claim_now = claim (\<lambda>s. s) (\<lambda>_. ''tok'') (\<lambda>_ _. Built) [] 5 3 50 claim_db"

lemma claim_hands_out_one: "\<exists>db'. claim_now = Inr ([1], db')"
proof -
  have "(case claim_now of Inl e \<Rightarrow> False | Inr (out, db') \<Rightarrow> out = [1])" by code_simp
  then show ?thesis by (auto split: sum.splits)
qed

lemma claim_db_distinct: "distinct (map tk_id (db_tasks claim_db))"
  by (simp add: claim_db_def)

theorem claim_respects_caps_witness:
  "\<exists>db'. claim_now = Inr ([1], db') \<and> number (\<lambda>t. tk_agent t = tk_agent sample_task) (busy_tasks db')
     \<le> max (number (\<lambda>t. tk_agent t = tk_agent sample_task) (busy_tasks claim_db)) (agent_cap (tk_agent sample_task) claim_db)"
proof -
  obtain db' where c: "claim_now = Inr ([1], db')" using claim_hands_out_one by blast
  from claim_respects_caps [OF c [unfolded claim_now_def] claim_db_distinct] c show ?thesis by blast
qed

theorem claim_one_turn_per_lane_witness:
  "\<exists>db'. claim_now = Inr ([1], db') \<and> number (\<lambda>t. tk_lane t = 1) (busy_tasks db') \<le> 1"
proof -
  obtain db' where c: "claim_now = Inr ([1], db')" using claim_hands_out_one by blast
  have "number (\<lambda>t. tk_lane t = 1) (busy_tasks claim_db) \<le> 1" by code_simp
  from claim_one_turn_per_lane [OF c [unfolded claim_now_def] claim_db_distinct this] c show ?thesis by blast
qed

theorem claim_only_runnable_witness: "\<exists>db'. claim_now = Inr ([1], db') \<and> list_all (runnable 5 50 claim_db) [1]"
proof -
  obtain db' where c: "claim_now = Inr ([1], db')" using claim_hands_out_one by blast
  from claim_only_runnable [OF c [unfolded claim_now_def] claim_db_distinct] c show ?thesis by blast
qed

end
