(* ===== verification/Event_Batcher.thy ===== *)
theory Event_Batcher
  imports Task_Store
begin

text \<open>
  The daemon's half of the activity feed (\<open>daemon/internal/api/batcher.go\<close>, daemon protocol 4.2):
  events are kept until the server has confirmed them and resent with the next flush. The server is
  a parameter here, the function \<open>receive\<close>; what the batcher relies on is the locale
  \<open>feed_receiver\<close>, which \<open>Event_Feed\<close> discharges for the server's ingest.
\<close>

section \<open>Events and the batcher\<close>

text \<open>
  \<open>contracts.TaskEvent\<close>. An empty task id is \<open>None\<close>, a zero time is \<open>None\<close>, an absent payload is
  \<open>None\<close>.
\<close>

record task_event =
  te_task :: "uuid option"
  te_attempt :: int
  te_seq :: int
  te_at :: "time option"
  te_class :: string
  te_verb :: string
  te_object :: string
  te_outcome :: string
  te_partial :: bool
  te_payload :: "(string \<times> json) list option"

text \<open>\<open>bt_failed\<close>: the last flush ended in an error.\<close>

record batcher =
  bt_pending :: "task_event list"
  bt_acked :: int
  bt_last_seq :: int
  bt_max_batch :: nat
  bt_preview :: string
  bt_failed :: bool

definition new_batcher :: "nat \<Rightarrow> batcher" where
  "new_batcher n = \<lparr>bt_pending = [], bt_acked = 0, bt_last_seq = 0, bt_max_batch = n, bt_preview = [], bt_failed = False\<rparr>"

text \<open>The first component: the flush loop is poked.\<close>

definition emit :: "task_event \<Rightarrow> batcher \<Rightarrow> bool \<times> batcher" where
  "emit ev b =
     (let b = b\<lparr>bt_pending := bt_pending b @ [ev],
               bt_last_seq := (if te_seq ev > bt_last_seq b then te_seq ev else bt_last_seq b)\<rparr>
      in (length (bt_pending b) \<ge> bt_max_batch b, b))"

text \<open>The text and the message id, which is always empty.\<close>

definition take_preview :: "batcher \<Rightarrow> (string \<times> string) option" where
  "take_preview b = (if bt_preview b = [] then None else Some (bt_preview b, []))"

definition unacked :: "batcher \<Rightarrow> nat" where
  "unacked b = length (bt_pending b)"

definition batch_of :: "batcher \<Rightarrow> task_event list" where
  "batch_of b = take (bt_max_batch b) (bt_pending b)"

definition flush_failed :: "batcher \<Rightarrow> batcher" where
  "flush_failed b = b\<lparr>bt_failed := True\<rparr>"

definition flush_accepted :: "int \<Rightarrow> batcher \<Rightarrow> batcher" where
  "flush_accepted m b =
     (let acked = (if m > bt_acked b then m else bt_acked b)
      in b\<lparr>bt_acked := acked, bt_pending := filter (\<lambda>ev. te_seq ev > acked) (bt_pending b), bt_failed := False\<rparr>)"

text \<open>
  The flush loop while nobody else emits; \<open>None\<close> is a loop that outlasts the fuel. \<open>receive\<close> is a
  call of the server: its new state and the answer.
\<close>

fun flush :: "(task_event list \<Rightarrow> 's \<Rightarrow> 's \<times> ('e + int)) \<Rightarrow> nat \<Rightarrow> batcher \<times> 's \<Rightarrow> (batcher \<times> 's) option" where
  "flush receive 0 w = None"
| "flush receive (Suc n) (b, s) =
     (if bt_pending b = [] then Some (b, s)
      else case receive (batch_of b) s of
             (s', Inl e) \<Rightarrow> Some (flush_failed b, s')
           | (s', Inr m) \<Rightarrow>
               let b' = flush_accepted m b in
               if length (bt_pending b') \<ge> bt_max_batch b' then flush receive n (b', s') else Some (b', s'))"

text \<open>
  \<open>Close\<close>: flush until nothing is left, at most \<open>tries\<close> times before the context expires. The first
  component of the result is whether an error is returned.
\<close>

fun close_batcher ::
    "(task_event list \<Rightarrow> 's \<Rightarrow> 's \<times> ('e + int)) \<Rightarrow> nat \<Rightarrow> nat \<Rightarrow> batcher \<times> 's \<Rightarrow> (bool \<times> batcher \<times> 's) option" where
  "close_batcher receive fuel 0 (b, s) = Some (bt_failed b, b, s)"
| "close_batcher receive fuel (Suc tries) w =
     (case flush receive fuel w of
        None \<Rightarrow> None
      | Some (b, s) \<Rightarrow> if bt_pending b = [] then Some (False, b, s) else close_batcher receive fuel tries (b, s))"

section \<open>The feed under an unreliable network\<close>

text \<open>
  What is in flight: nothing, a request, or the answer to one. A request that was given up may
  still arrive, any number of times: \<open>sent\<close> are the batches ever sent.
\<close>

datatype flight = NoFlight | Sent "task_event list" | Answered int

record 's wire =
  wr_batcher :: batcher
  wr_flight :: flight
  wr_sent :: "task_event list list"
  wr_server :: 's

text \<open>
  Every run of the attempt's feed, with the events emitted so far. The runner numbers its events
  one by one (\<open>emit\<close> in \<open>harness/acp/runner.go\<close>) and hands each over before the next; \<open>quiet\<close> are
  the other things the server does meanwhile.
\<close>

inductive feed_run ::
    "(task_event list \<Rightarrow> 's \<Rightarrow> 's \<times> ('e + int)) \<Rightarrow> ('s \<Rightarrow> 's \<Rightarrow> bool) \<Rightarrow> (task_event \<Rightarrow> bool) \<Rightarrow> 's wire
     \<Rightarrow> task_event list \<Rightarrow> 's wire \<Rightarrow> bool"
  for receive quiet fine w0 where
  start: "feed_run receive quiet fine w0 [] w0"
| emitted: "feed_run receive quiet fine w0 es w \<Longrightarrow> te_seq ev = bt_last_seq (wr_batcher w) + 1 \<Longrightarrow> fine ev
    \<Longrightarrow> feed_run receive quiet fine w0 (es @ [ev]) (w\<lparr>wr_batcher := snd (emit ev (wr_batcher w))\<rparr>)"
| sent: "feed_run receive quiet fine w0 es w \<Longrightarrow> wr_flight w = NoFlight \<Longrightarrow> bt_pending (wr_batcher w) \<noteq> []
    \<Longrightarrow> feed_run receive quiet fine w0 es
          (w\<lparr>wr_flight := Sent (batch_of (wr_batcher w)), wr_sent := batch_of (wr_batcher w) # wr_sent w\<rparr>)"
| handled: "feed_run receive quiet fine w0 es w \<Longrightarrow> wr_flight w = Sent es' \<Longrightarrow> receive es' (wr_server w) = (s', Inr m)
    \<Longrightarrow> feed_run receive quiet fine w0 es (w\<lparr>wr_flight := Answered m, wr_server := s'\<rparr>)"
| refused: "feed_run receive quiet fine w0 es w \<Longrightarrow> wr_flight w = Sent es' \<Longrightarrow> receive es' (wr_server w) = (s', Inl e)
    \<Longrightarrow> feed_run receive quiet fine w0 es
          (w\<lparr>wr_batcher := flush_failed (wr_batcher w), wr_flight := NoFlight, wr_server := s'\<rparr>)"
| broken: "feed_run receive quiet fine w0 es w
    \<Longrightarrow> feed_run receive quiet fine w0 es (w\<lparr>wr_batcher := flush_failed (wr_batcher w), wr_flight := NoFlight\<rparr>)"
| answered: "feed_run receive quiet fine w0 es w \<Longrightarrow> wr_flight w = Answered m
    \<Longrightarrow> feed_run receive quiet fine w0 es
          (w\<lparr>wr_batcher := flush_accepted m (wr_batcher w), wr_flight := NoFlight\<rparr>)"
| late: "feed_run receive quiet fine w0 es w \<Longrightarrow> es' \<in> set (wr_sent w) \<Longrightarrow> receive es' (wr_server w) = (s', r)
    \<Longrightarrow> feed_run receive quiet fine w0 es (w\<lparr>wr_server := s'\<rparr>)"
| other: "feed_run receive quiet fine w0 es w \<Longrightarrow> quiet (wr_server w) s'
    \<Longrightarrow> feed_run receive quiet fine w0 es (w\<lparr>wr_server := s'\<rparr>)"

section \<open>Events by number\<close>

definition ascending :: "task_event list \<Rightarrow> bool" where
  "ascending es \<longleftrightarrow> sorted_wrt (\<lambda>a b. te_seq a < te_seq b) es"

definition up_to :: "int \<Rightarrow> task_event list \<Rightarrow> task_event list" where
  "up_to h es = filter (\<lambda>e. te_seq e \<le> h) es"

definition stretch :: "int \<Rightarrow> int \<Rightarrow> task_event list \<Rightarrow> task_event list" where
  "stretch lo hi es = filter (\<lambda>e. lo < te_seq e \<and> te_seq e \<le> hi) es"

definition after :: "int \<Rightarrow> task_event list \<Rightarrow> task_event list" where
  "after a es = filter (\<lambda>e. a < te_seq e) es"

lemma up_to_stretch: "ascending es \<Longrightarrow> up_to h es @ stretch h hi es = up_to (max h hi) es"
proof (induction es)
  case (Cons e es)
  show ?case
  proof (cases "te_seq e \<le> h")
    case True
    with Cons show ?thesis by (simp add: up_to_def stretch_def ascending_def)
  next
    case False
    have "te_seq x > h" if "x \<in> set es" for x using Cons.prems False that by (force simp: ascending_def)
    then have "up_to h es = []" by (fastforce simp: up_to_def filter_empty_conv)
    with Cons False show ?thesis by (simp add: up_to_def stretch_def ascending_def max_def)
  qed
qed (simp add: up_to_def stretch_def)

lemma take_after:
  assumes "ascending es" and "take n (after a es) \<noteq> []"
  shows "take n (after a es) = stretch a (te_seq (last (take n (after a es)))) es"
proof -
  have asc: "ascending (after a es)" using assms(1) by (simp add: after_def ascending_def sorted_wrt_filter)
  have "take n xs = filter (\<lambda>e. te_seq e \<le> te_seq (last (take n xs))) xs" if "ascending xs" "take n xs \<noteq> []" for xs
  proof -
    let ?l = "te_seq (last (take n xs))"
    have s: "sorted_wrt (\<lambda>a b. te_seq a < te_seq b) (take n xs @ drop n xs)" using that(1) by (simp add: ascending_def)
    then have cross: "te_seq x < te_seq y" if "x \<in> set (take n xs)" "y \<in> set (drop n xs)" for x y
      using that unfolding sorted_wrt_append by blast
    have "te_seq x \<le> ?l" if "x \<in> set (take n xs)" for x
    proof -
      have "te_seq x \<le> te_seq (last ys)" if "sorted_wrt (\<lambda>a b. te_seq a < te_seq b) ys" "x \<in> set ys" for ys
        using that
      proof (induction ys)
        case (Cons y ys)
        have "te_seq y < te_seq (last ys)" if "ys \<noteq> []" using Cons.prems(1) that by simp
        moreover have "te_seq x \<le> te_seq (last ys)" if "x \<in> set ys" using Cons that by simp
        ultimately show ?case using Cons.prems(2) by auto
      qed simp
      with s that show ?thesis unfolding sorted_wrt_append by blast
    qed
    moreover have "\<not> te_seq y \<le> ?l" if "y \<in> set (drop n xs)" for y
      using cross [OF last_in_set [OF \<open>take n xs \<noteq> []\<close>] that] by simp
    ultimately have "filter (\<lambda>e. te_seq e \<le> ?l) (take n xs @ drop n xs) = take n xs"
      unfolding filter_append by (simp add: filter_id_conv filter_empty_conv)
    then show ?thesis by simp
  qed
  from this [OF asc assms(2)] show ?thesis by (simp add: after_def stretch_def conj_commute)
qed

lemma after_after: "filter (\<lambda>e. te_seq e > m) (after a es) = after (max a m) es"
  by (auto simp: after_def conj_commute intro!: filter_cong)

lemma number_snoc [simp]:
  "up_to h (es @ [ev]) = up_to h es @ (if te_seq ev \<le> h then [ev] else [])"
  "stretch lo hi (es @ [ev]) = stretch lo hi es @ (if lo < te_seq ev \<and> te_seq ev \<le> hi then [ev] else [])"
  "after a (es @ [ev]) = after a es @ (if a < te_seq ev then [ev] else [])"
  by (simp_all add: up_to_def stretch_def after_def)

section \<open>What the batcher relies on\<close>

text \<open>
  A receiver keeps rows of the events it accepted, in order. Sent a stretch that leaves no gap, it
  either refuses it and keeps its rows, or adds what it does not have and answers a number that
  covers the stretch and nothing it does not have.
\<close>

locale feed_receiver =
  fixes receive :: "task_event list \<Rightarrow> 's \<Rightarrow> 's \<times> ('e + int)"
    and quiet :: "'s \<Rightarrow> 's \<Rightarrow> bool"
    and fine :: "task_event \<Rightarrow> bool"
    and stored :: "'s \<Rightarrow> 'r list"
    and col :: "task_event \<Rightarrow> 'r"
  assumes receives: "ascending es \<Longrightarrow> list_all fine es \<Longrightarrow> stored s = map col (up_to h es) \<Longrightarrow> lo \<le> h \<Longrightarrow> 0 \<le> h
      \<Longrightarrow> receive (stretch lo hi es) s = (s', r)
      \<Longrightarrow> isl r \<and> stored s' = stored s
        \<or> (\<exists>m. r = Inr m \<and> stored s' = map col (up_to (max h hi) es) \<and> m \<le> max h hi \<and> (\<forall>e \<in> set (stretch lo hi es). te_seq e \<le> m))"
    and quiet_keeps: "quiet s s' \<Longrightarrow> stored s' = stored s"
    and fine_positive: "fine ev \<Longrightarrow> 0 < te_seq ev"
begin

definition agree :: "task_event list \<Rightarrow> 's wire \<Rightarrow> int \<Rightarrow> bool" where
  "agree es w h \<longleftrightarrow> ascending es \<and> list_all fine es \<and> 0 < bt_max_batch (wr_batcher w)
     \<and> (\<forall>e \<in> set es. te_seq e \<le> bt_last_seq (wr_batcher w))
     \<and> bt_pending (wr_batcher w) = after (bt_acked (wr_batcher w)) es
     \<and> 0 \<le> bt_acked (wr_batcher w) \<and> bt_acked (wr_batcher w) \<le> h \<and> h \<le> bt_last_seq (wr_batcher w)
     \<and> stored (wr_server w) = map col (up_to h es)
     \<and> (\<forall>m. wr_flight w = Answered m \<longrightarrow> m \<le> h)
     \<and> (\<forall>B. wr_flight w = Sent B \<longrightarrow> B \<in> set (wr_sent w))
     \<and> (\<forall>B \<in> set (wr_sent w). \<exists>lo hi. B = stretch lo hi es \<and> lo \<le> h \<and> hi \<le> bt_last_seq (wr_batcher w))"

lemma agree_emit:
  assumes "agree es w h" and "te_seq ev = bt_last_seq (wr_batcher w) + 1" and "fine ev"
  shows "agree (es @ [ev]) (w\<lparr>wr_batcher := snd (emit ev (wr_batcher w))\<rparr>) h"
proof -
  let ?b = "wr_batcher w"
  have "ascending (es @ [ev])"
    using assms unfolding agree_def ascending_def by (fastforce simp: sorted_wrt_append)
  moreover have "\<exists>lo hi. B = stretch lo hi (es @ [ev]) \<and> lo \<le> h \<and> hi \<le> te_seq ev" if B: "B \<in> set (wr_sent w)" for B
  proof -
    from assms(1) B obtain lo hi where "B = stretch lo hi es" "lo \<le> h" "hi \<le> bt_last_seq ?b" unfolding agree_def by blast
    then show ?thesis using assms(2) by (intro exI [of _ lo] exI [of _ hi]) simp
  qed
  ultimately show ?thesis
    using assms unfolding agree_def by (auto simp: emit_def Let_def)
qed

lemma agree_send:
  assumes "agree es w h" and "bt_pending (wr_batcher w) \<noteq> []"
  shows "agree es (w\<lparr>wr_flight := Sent (batch_of (wr_batcher w)), wr_sent := batch_of (wr_batcher w) # wr_sent w\<rparr>) h"
proof -
  let ?b = "wr_batcher w" and ?B = "batch_of (wr_batcher w)"
  have p: "bt_pending ?b = after (bt_acked ?b) es" and asc: "ascending es" and lo: "bt_acked ?b \<le> h"
    and top: "\<forall>e \<in> set es. te_seq e \<le> bt_last_seq ?b" and "0 < bt_max_batch ?b"
    using assms(1) unfolding agree_def by simp_all
  then have ne: "take (bt_max_batch ?b) (after (bt_acked ?b) es) \<noteq> []" using assms(2) p by simp
  from take_after [OF asc ne] have "?B = stretch (bt_acked ?b) (te_seq (last ?B)) es" unfolding batch_of_def p .
  moreover have "te_seq (last ?B) \<le> bt_last_seq ?b"
  proof -
    have "last ?B \<in> set (after (bt_acked ?b) es)" using last_in_set [OF ne] unfolding batch_of_def p by (rule in_set_takeD)
    then show ?thesis using top by (simp add: after_def)
  qed
  ultimately show ?thesis using assms(1) lo unfolding agree_def by auto
qed

lemma agree_receive:
  assumes "agree es w h" and "B \<in> set (wr_sent w)" and "receive B (wr_server w) = (s', r)"
  shows "\<exists>h'. h \<le> h' \<and> h' \<le> bt_last_seq (wr_batcher w) \<and> stored s' = map col (up_to h' es) \<and> (\<forall>m. r = Inr m \<longrightarrow> m \<le> h')"
proof -
  from assms(1,2) obtain lo hi where B: "B = stretch lo hi es" "lo \<le> h" "hi \<le> bt_last_seq (wr_batcher w)"
    unfolding agree_def by blast
  have "ascending es" "list_all fine es" "stored (wr_server w) = map col (up_to h es)" "0 \<le> h" "h \<le> bt_last_seq (wr_batcher w)"
    using assms(1) unfolding agree_def by simp_all
  from receives [OF this(1-3) B(2) this(4) assms(3) [unfolded B(1)]] this B(3) show ?thesis
    by (elim disjE) (auto intro: exI [of _ h] exI [of _ "max h hi"])
qed

lemma agree_server:
  assumes "agree es w h" and "h \<le> h'" and "h' \<le> bt_last_seq (wr_batcher w)" and "stored s' = map col (up_to h' es)"
  shows "agree es (w\<lparr>wr_server := s'\<rparr>) h'"
  using assms unfolding agree_def by (auto intro: order_trans) (meson order_trans)

lemma agree_flight:
  assumes "agree es w h" and "\<And>m. p = Answered m \<Longrightarrow> m \<le> h" and "\<And>B. p \<noteq> Sent B"
  shows "agree es (w\<lparr>wr_flight := p\<rparr>) h"
  using assms unfolding agree_def by auto

lemma agree_failed: "agree es w h \<Longrightarrow> agree es (w\<lparr>wr_batcher := flush_failed (wr_batcher w)\<rparr>) h"
  unfolding agree_def by (simp add: flush_failed_def)

lemma agree_accepted:
  assumes "agree es w h" and "m \<le> h"
  shows "agree es (w\<lparr>wr_batcher := flush_accepted m (wr_batcher w)\<rparr>) h"
  using assms unfolding agree_def by (auto simp: flush_accepted_def Let_def after_after max_def)

lemma feed_agrees:
  assumes "feed_run receive quiet fine w0 es w" and "wr_batcher w0 = new_batcher n" and "0 < n"
    and "wr_flight w0 = NoFlight" and "wr_sent w0 = []" and "stored (wr_server w0) = []"
  shows "\<exists>h. agree es w h"
  using assms(1)
proof induction
  case start
  then show ?case using assms(2-)
    by (intro exI [of _ 0]) (simp add: agree_def new_batcher_def ascending_def after_def up_to_def)
next
  case (emitted es w ev)
  then show ?case using agree_emit by blast
next
  case (sent es w)
  then show ?case using agree_send by blast
next
  case (handled es w es' s' m)
  then obtain h where a: "agree es w h" by blast
  then have "es' \<in> set (wr_sent w)" using handled.hyps unfolding agree_def by blast
  from agree_receive [OF a this handled.hyps(3)] obtain h' where h': "h \<le> h'" "h' \<le> bt_last_seq (wr_batcher w)"
    "stored s' = map col (up_to h' es)" "m \<le> h'" by blast
  have "agree es (w\<lparr>wr_server := s', wr_flight := Answered m\<rparr>) h'"
    using agree_flight [OF agree_server [OF a h'(1-3)], of "Answered m"] h'(4) by simp
  then show ?case by (cases w) auto
next
  case (refused es w es' s' e)
  then obtain h where a: "agree es w h" by blast
  then have "es' \<in> set (wr_sent w)" using refused.hyps unfolding agree_def by blast
  from agree_receive [OF a this refused.hyps(3)] obtain h' where h': "h \<le> h'" "h' \<le> bt_last_seq (wr_batcher w)"
    "stored s' = map col (up_to h' es)" by blast
  have "agree es (w\<lparr>wr_server := s', wr_flight := NoFlight, wr_batcher := flush_failed (wr_batcher w)\<rparr>) h'"
    using agree_failed [OF agree_flight [OF agree_server [OF a h'], of NoFlight]] by simp
  then show ?case by (cases w) auto
next
  case (broken es w)
  then obtain h where a: "agree es w h" by blast
  have "agree es (w\<lparr>wr_flight := NoFlight, wr_batcher := flush_failed (wr_batcher w)\<rparr>) h"
    using agree_failed [OF agree_flight [OF a, of NoFlight]] by simp
  then show ?case by (cases w) auto
next
  case (answered es w m)
  then obtain h where a: "agree es w h" by blast
  then have "m \<le> h" using answered.hyps unfolding agree_def by blast
  then have "agree es (w\<lparr>wr_flight := NoFlight, wr_batcher := flush_accepted m (wr_batcher w)\<rparr>) h"
    using agree_accepted [OF agree_flight [OF a, of NoFlight], of m] by simp
  then show ?case by (cases w) auto
next
  case (late es w es' s' r)
  then obtain h where a: "agree es w h" by blast
  from agree_receive [OF a late.hyps(2,3)] agree_server [OF a] show ?case by blast
next
  case (other es w s')
  then obtain h where a: "agree es w h" by blast
  then have "stored s' = map col (up_to h es)" "h \<le> bt_last_seq (wr_batcher w)"
    using quiet_keeps [OF other.hyps(2)] unfolding agree_def by simp_all
  then show ?case using agree_server [OF a order_refl] by blast
qed

text \<open>What every run leaves: no event is lost, none is kept twice, the order is kept.\<close>

lemma feed_kept:
  assumes "feed_run receive quiet fine w0 es w" and "wr_batcher w0 = new_batcher n" and "0 < n"
    and "wr_flight w0 = NoFlight" and "wr_sent w0 = []" and "stored (wr_server w0) = []"
  shows "\<exists>kept confirmed. confirmed \<le> kept \<and> kept \<le> length es
    \<and> stored (wr_server w) = map col (take kept es) \<and> bt_pending (wr_batcher w) = drop confirmed es"
proof -
  from feed_agrees [OF assms] obtain h where a: "agree es w h" by blast
  have split: "es = up_to a es @ after a es" if "ascending es" for a es
    using that
  proof (induction es)
    case (Cons e es)
    show ?case
    proof (cases "te_seq e \<le> a")
      case True
      with Cons show ?thesis by (simp add: up_to_def after_def ascending_def)
    next
      case False
      have "te_seq x > a" if "x \<in> set es" for x using Cons.prems False that by (force simp: ascending_def)
      then have "up_to a es = []" "after a es = es" by (fastforce simp: up_to_def after_def filter_empty_conv filter_id_conv)+
      with False show ?thesis by (simp add: up_to_def after_def)
    qed
  qed (simp add: up_to_def after_def)
  let ?c = "bt_acked (wr_batcher w)"
  have asc: "ascending es" and "?c \<le> h" "bt_pending (wr_batcher w) = after ?c es" "stored (wr_server w) = map col (up_to h es)"
    using a unfolding agree_def by simp_all
  have t: "take (length (up_to b es)) es = up_to b es" and d: "drop (length (up_to b es)) es = after b es"
    and l: "length (up_to b es) \<le> length es" for b
  proof -
    have e: "up_to b es @ after b es = es" using split [OF asc, of b] by simp
    then show "take (length (up_to b es)) es = up_to b es" "drop (length (up_to b es)) es = after b es"
      unfolding append_eq_conv_conj by simp_all
    from arg_cong [OF e, of length] show "length (up_to b es) \<le> length es" by simp
  qed
  have "length (up_to ?c es) \<le> length (up_to h es)"
  proof -
    have "length (filter (\<lambda>e. te_seq e \<le> ?c) xs) \<le> length (filter (\<lambda>e. te_seq e \<le> h) xs)" for xs
      using \<open>?c \<le> h\<close> by (induction xs) auto
    then show ?thesis by (simp add: up_to_def)
  qed
  moreover have "stored (wr_server w) = map col (take (length (up_to h es)) es)"
    using \<open>stored (wr_server w) = map col (up_to h es)\<close> t by simp
  moreover have "bt_pending (wr_batcher w) = drop (length (up_to ?c es)) es"
    using \<open>bt_pending (wr_batcher w) = after ?c es\<close> d by simp
  ultimately show ?thesis using l by blast
qed

end

text \<open>A receiver that is up takes every stretch of sound events.\<close>

locale healthy_receiver = feed_receiver receive quiet fine stored col
  for receive :: "task_event list \<Rightarrow> 's \<Rightarrow> 's \<times> ('e + int)" and quiet :: "'s \<Rightarrow> 's \<Rightarrow> bool"
    and fine :: "task_event \<Rightarrow> bool" and stored :: "'s \<Rightarrow> 'r list" and col :: "task_event \<Rightarrow> 'r" +
  fixes up :: "'s \<Rightarrow> bool" and sound :: "task_event \<Rightarrow> bool"
  assumes accepts: "up s \<Longrightarrow> list_all sound es \<Longrightarrow> \<exists>s' m. receive es s = (s', Inr m) \<and> up s'"
begin

lemma flush_step:
  assumes "agree es w h" and "up (wr_server w)" and "list_all sound es" and "bt_pending (wr_batcher w) \<noteq> []"
  obtains s' m h' where "receive (batch_of (wr_batcher w)) (wr_server w) = (s', Inr m)" and "up s'"
    and "agree es (w\<lparr>wr_batcher := flush_accepted m (wr_batcher w), wr_server := s', wr_flight := NoFlight,
           wr_sent := batch_of (wr_batcher w) # wr_sent w\<rparr>) h'"
    and "length (bt_pending (flush_accepted m (wr_batcher w)))
           \<le> length (bt_pending (wr_batcher w)) - bt_max_batch (wr_batcher w)"
proof -
  let ?b = "wr_batcher w" and ?B = "batch_of (wr_batcher w)"
  let ?w = "w\<lparr>wr_flight := Sent ?B, wr_sent := ?B # wr_sent w\<rparr>"
  have p: "bt_pending ?b = after (bt_acked ?b) es" using assms(1) unfolding agree_def by simp
  have "set ?B \<subseteq> set es" using set_take_subset [of _ "bt_pending ?b"] p by (auto simp: batch_of_def after_def dest!: in_set_takeD)
  then have "list_all sound ?B" using assms(3) by (auto simp: list_all_iff)
  from accepts [OF assms(2) this] obtain s' m where r: "receive ?B (wr_server w) = (s', Inr m)" "up s'" by blast
  have a: "agree es ?w h" using agree_send [OF assms(1,4)] .
  from agree_receive [OF a _ , of ?B s' "Inr m"] r obtain h' where h': "h \<le> h'" "h' \<le> bt_last_seq ?b"
      "stored s' = map col (up_to h' es)" "m \<le> h'" by auto
  have "agree es (?w\<lparr>wr_server := s', wr_flight := NoFlight, wr_batcher := flush_accepted m ?b\<rparr>) h'"
    using agree_accepted [OF agree_flight [OF agree_server [OF a h'(1)], of s' NoFlight], of m] h'(2-) by simp
  then have a': "agree es (w\<lparr>wr_batcher := flush_accepted m ?b, wr_server := s', wr_flight := NoFlight, wr_sent := ?B # wr_sent w\<rparr>) h'"
    by (cases w) auto
  have cover: "te_seq e \<le> m" if "e \<in> set ?B" for e
  proof -
    have asc: "ascending es" and f: "list_all fine es" and s: "stored (wr_server w) = map col (up_to h es)" and h: "0 \<le> h"
      and lo: "bt_acked ?b \<le> h" and "0 < bt_max_batch ?b" using assms(1) unfolding agree_def by simp_all
    then have ne: "take (bt_max_batch ?b) (after (bt_acked ?b) es) \<noteq> []" using assms(4) p by simp
    have B: "?B = stretch (bt_acked ?b) (te_seq (last ?B)) es" using take_after [OF asc ne] unfolding batch_of_def p .
    from receives [OF asc f s lo h, of "te_seq (last ?B)" s' "Inr m"] r(1) B that show ?thesis by auto
  qed
  have "filter (\<lambda>e. te_seq e > max (bt_acked ?b) m) (bt_pending ?b)
      = filter (\<lambda>e. te_seq e > max (bt_acked ?b) m) (drop (bt_max_batch ?b) (bt_pending ?b))"
  proof -
    have "filter (\<lambda>e. te_seq e > max (bt_acked ?b) m) ?B = []" using cover by (force simp: filter_empty_conv)
    moreover have "bt_pending ?b = ?B @ drop (bt_max_batch ?b) (bt_pending ?b)" by (simp add: batch_of_def)
    ultimately show ?thesis by (metis append_Nil filter_append)
  qed
  then have "length (bt_pending (flush_accepted m ?b)) \<le> length (drop (bt_max_batch ?b) (bt_pending ?b))"
    by (auto simp: flush_accepted_def Let_def max_def simp del: length_drop split: if_splits)
  then show thesis using that [OF r a'] by simp
qed

lemma flush_drains:
  assumes "agree es w h" and "up (wr_server w)" and "list_all sound es" and "length (bt_pending (wr_batcher w)) < fuel"
  shows "\<exists>w' h'. flush receive fuel (wr_batcher w, wr_server w) = Some (wr_batcher w', wr_server w') \<and> agree es w' h'
     \<and> up (wr_server w') \<and> bt_max_batch (wr_batcher w') = bt_max_batch (wr_batcher w)
     \<and> (bt_pending (wr_batcher w') = [] \<or> length (bt_pending (wr_batcher w')) < bt_max_batch (wr_batcher w))
     \<and> (length (bt_pending (wr_batcher w)) < bt_max_batch (wr_batcher w) \<longrightarrow> bt_pending (wr_batcher w') = [])"
  using assms
proof (induction fuel arbitrary: w h)
  case (Suc fuel)
  let ?b = "wr_batcher w"
  show ?case
  proof (cases "bt_pending ?b = []")
    case True
    with Suc.prems show ?thesis by (intro exI [of _ w] exI [of _ h]) simp
  next
    case False
    from flush_step [OF Suc.prems(1-3) False] obtain s' m h' where r: "receive (batch_of ?b) (wr_server w) = (s', Inr m)"
      and u: "up s'" and a: "agree es (w\<lparr>wr_batcher := flush_accepted m ?b, wr_server := s', wr_flight := NoFlight,
           wr_sent := batch_of ?b # wr_sent w\<rparr>) h'" (is "agree es ?w h'")
      and len: "length (bt_pending (flush_accepted m ?b)) \<le> length (bt_pending ?b) - bt_max_batch ?b" by blast
    have mb: "bt_max_batch (flush_accepted m ?b) = bt_max_batch ?b" by (simp add: flush_accepted_def Let_def)
    have "0 < bt_max_batch ?b" using Suc.prems(1) unfolding agree_def by simp
    moreover have "0 < length (bt_pending ?b)" using False by simp
    ultimately have small: "length (bt_pending (flush_accepted m ?b)) < fuel" using len Suc.prems(4) by linarith
    show ?thesis
    proof (cases "length (bt_pending (flush_accepted m ?b)) \<ge> bt_max_batch ?b")
      case True
      from Suc.IH [OF a] small u Suc.prems(3) obtain w'' h'' where
        "flush receive fuel (flush_accepted m ?b, s') = Some (wr_batcher w'', wr_server w'')" "agree es w'' h''" "up (wr_server w'')"
        "bt_max_batch (wr_batcher w'') = bt_max_batch ?b"
        "bt_pending (wr_batcher w'') = [] \<or> length (bt_pending (wr_batcher w'')) < bt_max_batch ?b"
        by (auto simp: mb)
      then show ?thesis using False True r mb len
        by (intro exI [of _ w''] exI [of _ h'']) (auto simp: Let_def)
    next
      case more: False
      then show ?thesis using False r mb len a u
        by (intro exI [of _ ?w] exI [of _ h']) (auto simp: Let_def)
    qed
  qed
qed simp

lemma close_drains:
  assumes "agree es w h" and "up (wr_server w)" and "list_all sound es" and "length (bt_pending (wr_batcher w)) < fuel"
    and "bt_max_batch (wr_batcher w) \<le> fuel" and "2 \<le> tries"
  shows "\<exists>b' s'. close_batcher receive fuel tries (wr_batcher w, wr_server w) = Some (False, b', s')
     \<and> bt_pending b' = [] \<and> stored s' = map col es"
proof -
  have "tries = Suc (Suc (tries - 2))" using assms(6) by simp
  then obtain k where k: "tries = Suc (Suc k)" by blast
  have full: "stored (wr_server w') = map col es" if "agree es w' h'" "bt_pending (wr_batcher w') = []" for w' h'
  proof -
    let ?c = "bt_acked (wr_batcher w')"
    have "after ?c es = []" "?c \<le> h'" "stored (wr_server w') = map col (up_to h' es)" using that unfolding agree_def by simp_all
    then have "up_to h' es = es" by (fastforce simp: after_def up_to_def filter_empty_conv filter_id_conv)
    with \<open>stored (wr_server w') = map col (up_to h' es)\<close> show ?thesis by simp
  qed
  from flush_drains [OF assms(1-4)] obtain w1 h1 where
    f1: "flush receive fuel (wr_batcher w, wr_server w) = Some (wr_batcher w1, wr_server w1)" and a1: "agree es w1 h1"
    and u1: "up (wr_server w1)" and m1: "bt_max_batch (wr_batcher w1) = bt_max_batch (wr_batcher w)"
    and p1: "bt_pending (wr_batcher w1) = [] \<or> length (bt_pending (wr_batcher w1)) < bt_max_batch (wr_batcher w)" by blast
  show ?thesis
  proof (cases "bt_pending (wr_batcher w1) = []")
    case True
    then have "close_batcher receive fuel tries (wr_batcher w, wr_server w) = Some (False, wr_batcher w1, wr_server w1)"
      by (simp add: k f1)
    with full [OF a1 True] True show ?thesis by blast
  next
    case False
    with p1 have l: "length (bt_pending (wr_batcher w1)) < bt_max_batch (wr_batcher w)" by simp
    with assms(5) have "length (bt_pending (wr_batcher w1)) < fuel" by simp
    from flush_drains [OF a1 u1 assms(3) this] l m1 obtain w2 h2 where
      f2: "flush receive fuel (wr_batcher w1, wr_server w1) = Some (wr_batcher w2, wr_server w2)" and a2: "agree es w2 h2"
      and p2: "bt_pending (wr_batcher w2) = []" by auto
    have "close_batcher receive fuel tries (wr_batcher w, wr_server w) = Some (False, wr_batcher w2, wr_server w2)"
      by (simp add: k f1 f2 False p2)
    with full [OF a2 p2] p2 show ?thesis by blast
  qed
qed

end

end
