(* ===== verification/Event_Feed.thy ===== *)
theory Event_Feed
  imports Event_Batcher
begin

text \<open>
  The server's half of the activity feed: the schema of an event (\<open>internal/eventschema\<close>), the
  masking of a workspace that does not store content (\<open>internal/events/mask.go\<close>) and the ingest of
  a batch (\<open>internal/events/events.go\<close>). A payload is a list of keys and values in place of a Go map;
  in the masking a string is its UTF-8 bytes, and the length of \<open>[]rune(s)\<close> counts the bytes that start a
  character. Publication to the screens, the usage column (a copy of the payload) and the sentences
  of errors are left out.
\<close>

section \<open>The schema\<close>

definition classes :: "string list" where
  "classes = [''message'', ''tool'', ''usage'', ''plan'', ''runtime'', ''status'']"

definition verbs :: "string list" where
  "verbs = [''say'', ''think'', ''edit_file'', ''run_shell'', ''read'', ''search'', ''use_tool'', ''permission'', ''report'',
     ''update'', ''start'', ''resume'', ''error'', ''cancel'', ''turn_end'', ''post_message'', ''delegate'', ''set_status'',
     ''submit_artifact'', ''record_decision'', ''hitl'', ''review'', ''card'']"

definition outcomes :: "string list" where
  "outcomes = [''started'', ''ok'', ''failed'', ''allowed'', ''rejected'', ''cancelled'', ''resumed'', ''cold_start'', ''report'',
     ''update'', ''info'']"

definition message_kinds :: "string list" where "message_kinds = [''text'', ''thought'']"

definition tool_kinds :: "string list" where
  "tool_kinds = [''edit'', ''execute'', ''read'', ''search'', ''fetch'', ''think'', ''other'']"

definition option_kinds :: "string list" where
  "option_kinds = [''allow_once'', ''allow_always'', ''reject_once'', ''reject_always'']"

definition policies :: "string list" where "policies = [''allowed_by_profile'', ''denied_by_profile'']"

definition rate_limit_statuses :: "string list" where
  "rate_limit_statuses = [''allowed'', ''allowed_warning'', ''rejected'']"

definition payload_properties :: "(string \<times> string list) list" where
  "payload_properties =
    [(''message'', [''kind'', ''text'', ''chars'']),
     (''tool'', [''tool_call_id'', ''kind'', ''title'', ''path'', ''lines_added'', ''lines_removed'', ''command'', ''exit_code'',
        ''summary'', ''masked'', ''duration_ms'', ''policy'']),
     (''permission'', [''tool_call_id'', ''title'', ''option_kind'', ''options_offered'', ''allow_once_missing'', ''policy'']),
     (''usage'', [''input_tokens'', ''output_tokens'', ''cache_read_tokens'', ''cache_write_tokens'', ''cost_usd'', ''estimated'',
        ''cumulative'', ''model'', ''model_drift'', ''rate_limit'']),
     (''plan'', [''entries_total'', ''entries_done'', ''current'']),
     (''runtime'', [''runtime_kind'', ''adapter_version'', ''protocol_version'', ''session_id'', ''failure_kind'', ''detail'',
        ''not_before'', ''stop_reason'', ''resume_reason'']),
     (''status'', [''command'', ''args'', ''result_ref'', ''rejected_reason''])]"

definition payload_def_for :: "string \<Rightarrow> string \<Rightarrow> string" where
  "payload_def_for cls verb = (if cls = ''tool'' \<and> verb = ''permission'' then ''permission'' else cls)"

text \<open>A violated rule is the field and the code.\<close>

type_synonym field_error = "string \<times> string"

definition str_of :: "(string \<times> json) list \<Rightarrow> string \<Rightarrow> string option" where
  "str_of p k = (case map_of p k of Some (JStr s) \<Rightarrow> Some s | _ \<Rightarrow> None)"

definition needs_enum :: "(string \<times> json) list \<Rightarrow> string \<Rightarrow> string list \<Rightarrow> field_error list" where
  "needs_enum p k allowed =
     (case str_of p k of Some s \<Rightarrow> if List.member allowed s then [] else [(''payload.'' @ k, ''enum'')]
                       | None \<Rightarrow> [(''payload.'' @ k, ''enum'')])"

definition opt_enum :: "(string \<times> json) list \<Rightarrow> string \<Rightarrow> string list \<Rightarrow> field_error list" where
  "opt_enum p k allowed = (if map_of p k = None then [] else needs_enum p k allowed)"

definition needs_str :: "(string \<times> json) list \<Rightarrow> string \<Rightarrow> field_error list" where
  "needs_str p k = (if str_of p k = None then [(''payload.'' @ k, ''required'')] else [])"

definition unknown_keys :: "string \<Rightarrow> string \<Rightarrow> (string \<times> json) list \<Rightarrow> field_error list" where
  "unknown_keys cls verb p =
     (case map_of payload_properties (payload_def_for cls verb) of
        None \<Rightarrow> []
      | Some allowed \<Rightarrow> map (\<lambda>k. (''payload.'' @ k, ''additionalProperties''))
                         (filter (\<lambda>k. \<not> List.member allowed k) (map fst p)))"

definition rate_limit_errors :: "(string \<times> json) list \<Rightarrow> field_error list" where
  "rate_limit_errors p =
     (case map_of p ''rate_limit'' of
        None \<Rightarrow> []
      | Some (JObj m) \<Rightarrow>
          (case str_of m ''status'' of
             Some s \<Rightarrow> if List.member rate_limit_statuses s then [] else [(''payload.rate_limit.status'', ''enum'')]
           | None \<Rightarrow> [(''payload.rate_limit.status'', ''enum'')])
      | Some _ \<Rightarrow> [(''payload.rate_limit'', ''type'')])"

definition class_errors :: "string \<Rightarrow> string \<Rightarrow> (string \<times> json) list \<Rightarrow> field_error list" where
  "class_errors cls verb p =
     (if cls = ''message'' then needs_enum p ''kind'' message_kinds
      else if cls = ''tool'' then
        needs_str p ''tool_call_id''
        @ (if verb = ''permission'' then opt_enum p ''option_kind'' option_kinds else needs_enum p ''kind'' tool_kinds)
        @ opt_enum p ''policy'' policies
      else if cls = ''usage'' then rate_limit_errors p
      else if cls = ''status'' then needs_str p ''command''
      else [])"

definition validate :: "task_event \<Rightarrow> field_error list" where
  "validate e =
     (if te_attempt e < 1 then [(''attempt'', ''minimum'')] else [])
     @ (if te_seq e < 1 then [(''seq'', ''minimum'')] else [])
     @ (if te_at e = None then [(''ts'', ''required'')] else [])
     @ (if List.member classes (te_class e) then [] else [(''class'', ''enum'')])
     @ (if List.member verbs (te_verb e) then [] else [(''verb'', ''enum'')])
     @ (if List.member outcomes (te_outcome e) then [] else [(''outcome'', ''enum'')])
     @ (if length (te_object e) > 512 then [(''object_ref'', ''maxLength'')] else [])
     @ (case te_payload e of
          None \<Rightarrow> []
        | Some p \<Rightarrow> unknown_keys (te_class e) (te_verb e) p @ class_errors (te_class e) (te_verb e) p)"

section \<open>Masking\<close>

text \<open>\<open>len([]rune(s))\<close> of a UTF-8 string.\<close>

definition rune_count :: "string \<Rightarrow> nat" where
  "rune_count s = length (filter (\<lambda>c. \<not> (128 \<le> (of_char c :: nat) \<and> of_char c < (192 :: nat))) s)"

text \<open>The mark that stands in for a content of \<open>n\<close> characters.\<close>

definition mask_mark :: "nat \<Rightarrow> string" where
  "mask_mark n =
     [CHR ''['', CHR 0xEB, CHR 0xA7, CHR 0x88, CHR 0xEC, CHR 0x8A, CHR 0xA4, CHR 0xED, CHR 0x82, CHR 0xB9,
      CHR 0xEB, CHR 0x90, CHR 0xA8, CHR '' '', CHR 0xC2, CHR 0xB7, CHR '' '']
     @ itoa n @ [CHR 0xEC, CHR 0x9E, CHR 0x90, CHR '']'']"

text \<open>The white space of Unicode, as \<open>strings.TrimSpace\<close> trims it.\<close>

definition white_space :: "string list" where
  "white_space = map (\<lambda>c. [c]) [CHR 0x09, CHR 0x0A, CHR 0x0B, CHR 0x0C, CHR 0x0D, CHR 0x20]
     @ [[CHR 0xC2, CHR 0x85], [CHR 0xC2, CHR 0xA0], [CHR 0xE1, CHR 0x9A, CHR 0x80]]
     @ map (\<lambda>c. [CHR 0xE2, CHR 0x80, c])
         [CHR 0x80, CHR 0x81, CHR 0x82, CHR 0x83, CHR 0x84, CHR 0x85, CHR 0x86, CHR 0x87, CHR 0x88, CHR 0x89, CHR 0x8A,
          CHR 0xA8, CHR 0xA9, CHR 0xAF]
     @ [[CHR 0xE2, CHR 0x81, CHR 0x9F], [CHR 0xE3, CHR 0x80, CHR 0x80]]"

definition leading :: "string list \<Rightarrow> string \<Rightarrow> string option" where
  "leading ws s = find (\<lambda>w. w \<noteq> [] \<and> take (length w) s = w) ws"

function strip_left :: "string list \<Rightarrow> string \<Rightarrow> string" where
  "strip_left ws s = (case leading ws s of None \<Rightarrow> s | Some w \<Rightarrow> strip_left ws (drop (length w) s))"
  by pat_completeness auto
termination
proof (relation "measure (\<lambda>(ws, s). length s)")
  fix ws s w
  assume "leading ws s = Some w"
  then have "w \<noteq> []" "take (length w) s = w" by (auto simp: leading_def find_Some_iff)
  then show "((ws, drop (length w) s), ws, s) \<in> measure (\<lambda>(ws, s). length s)" by (cases s) auto
qed simp

declare strip_left.simps [simp del]

definition trim_space :: "string \<Rightarrow> string" where
  "trim_space s = rev (strip_left (map rev white_space) (rev (strip_left white_space s)))"

definition put :: "string \<Rightarrow> json \<Rightarrow> (string \<times> json) list \<Rightarrow> (string \<times> json) list" where
  "put k v p = (k, v) # filter (\<lambda>(k', _). k' \<noteq> k) p"

text \<open>The value of a key rewritten when it is a string that \<open>g\<close> has a mark for; whether it was.\<close>

definition rewrite_key ::
    "(string \<Rightarrow> string option) \<Rightarrow> string \<Rightarrow> (string \<times> json) list \<times> bool \<Rightarrow> (string \<times> json) list \<times> bool" where
  "rewrite_key g k x =
     (case Option.bind (str_of (fst x) k) g of None \<Rightarrow> x | Some w \<Rightarrow> (put k (JStr w) (fst x), True))"

definition content_mark :: "string \<Rightarrow> string option" where
  "content_mark v = (if v = [] then None else Some (mask_mark (rune_count v)))"

definition head_mark :: "string \<Rightarrow> string option" where
  "head_mark v =
     (let t = trim_space v in
      if v = [] \<or> \<not> List.member t CHR '' '' then None
      else Some (takeWhile (\<lambda>c. c \<noteq> CHR '' '') t @ '' ''
                 @ mask_mark (rune_count (drop 1 (dropWhile (\<lambda>c. c \<noteq> CHR '' '') t)))))"

definition replace_content :: "string \<Rightarrow> (string \<times> json) list \<times> bool \<Rightarrow> (string \<times> json) list \<times> bool" where
  "replace_content = rewrite_key content_mark"

definition head_only :: "string \<Rightarrow> (string \<times> json) list \<times> bool \<Rightarrow> (string \<times> json) list \<times> bool" where
  "head_only = rewrite_key head_mark"

definition mask_payload :: "string \<Rightarrow> string \<Rightarrow> (string \<times> json) list \<Rightarrow> (string \<times> json) list \<times> bool" where
  "mask_payload cls verb p =
     (if cls = ''message'' then
        (case str_of p ''text'' of
           None \<Rightarrow> (p, False)
         | Some txt \<Rightarrow>
             if txt = [] then (p, False)
             else replace_content ''text''
                    (if map_of p ''chars'' = None then put ''chars'' (JNum (of_nat (rune_count txt))) p else p, False))
      else if cls = ''tool'' then
        (let (p, masked) = head_only ''title'' (head_only ''command'' (replace_content ''summary'' (p, False)))
         in (if masked \<and> verb \<noteq> ''permission'' then put ''masked'' (JBool True) p else p, masked))
      else (p, False))"

definition mask_event :: "task_event \<Rightarrow> task_event \<times> bool" where
  "mask_event e = (case te_payload e of
     None \<Rightarrow> (e, False)
   | Some p \<Rightarrow> (case mask_payload (te_class e) (te_verb e) p of (p', m) \<Rightarrow> (e\<lparr>te_payload := Some p'\<rparr>, m)))"

section \<open>Ingest\<close>

datatype ingest_error = TaskMismatch | AttemptMismatch | SchemaRejected int "field_error list" | StoreError db_error

text \<open>An event without an attempt gets the one of the path.\<close>

definition with_attempt :: "int \<Rightarrow> task_event \<Rightarrow> task_event" where
  "with_attempt n e = (if te_attempt e = 0 then e\<lparr>te_attempt := n\<rparr> else e)"

definition check_event :: "uuid \<Rightarrow> int \<Rightarrow> task_event \<Rightarrow> ingest_error + task_event" where
  "check_event i n e =
     (if te_task e \<noteq> None \<and> te_task e \<noteq> Some i then Inl TaskMismatch
      else let e = with_attempt n e in
        if te_attempt e \<noteq> n then Inl AttemptMismatch
        else if validate e \<noteq> [] then Inl (SchemaRejected (te_seq e) (validate e))
        else Inr e)"

fun check_events :: "uuid \<Rightarrow> int \<Rightarrow> task_event list \<Rightarrow> ingest_error + task_event list" where
  "check_events i n [] = Inr []"
| "check_events i n (e # es) = bindE (check_event i n e) (\<lambda>e. bindE (check_events i n es) (\<lambda>es. Inr (e # es)))"

definition masking :: "task_row \<Rightarrow> db \<Rightarrow> bool" where
  "masking t db =
     (case Option.bind (tbl_get rm_id (db_rooms db) (tk_room t)) (\<lambda>r. tbl_get st_workspace (db_settings db) (rm_workspace r)) of
        None \<Rightarrow> False | Some cfg \<Rightarrow> st_masking cfg)"

text \<open>\<open>ON CONFLICT (task_id, attempt, seq) DO NOTHING\<close>; \<open>seq\<close> is an \<open>integer\<close> column.\<close>

definition store_event :: "uuid \<Rightarrow> int \<Rightarrow> bool \<Rightarrow> time \<Rightarrow> task_event \<Rightarrow> event_row list \<Rightarrow> db_error + event_row list" where
  "store_event i n mask_on now e rows =
     (if te_partial e then Inr rows
      else case (if mask_on then mask_event e else (e, False)) of (e, masked) \<Rightarrow>
        if te_seq e > 2147483647 then Inl DbCast
        else if list_ex (\<lambda>r. ev_task r = i \<and> ev_attempt r = n \<and> ev_seq r = te_seq e) rows then Inr rows
        else Inr (rows @ [\<lparr>ev_task = i, ev_attempt = n, ev_seq = te_seq e, ev_class = te_class e, ev_verb = te_verb e,
               ev_object = te_object e, ev_outcome = te_outcome e, ev_payload = te_payload e, ev_masked = masked, ev_at = now\<rparr>]))"

definition daemon_rows :: "uuid \<Rightarrow> int \<Rightarrow> event_row list \<Rightarrow> event_row list" where
  "daemon_rows i n rows = filter (\<lambda>r. ev_task r = i \<and> ev_attempt r = n \<and> ev_seq r < server_seq_base) rows"

definition accepted_max :: "uuid \<Rightarrow> int \<Rightarrow> event_row list \<Rightarrow> int" where
  "accepted_max i n rows = fold max (map ev_seq (daemon_rows i n rows)) 0"

text \<open>The answer, and the database after the call: a batch the schema rejects leaves a line in the feed.\<close>

definition ingest :: "uuid \<Rightarrow> int \<Rightarrow> task_event list \<Rightarrow> db \<Rightarrow> db \<times> (ingest_error + int)" where
  "ingest i n es db =
     (let now = db_clock db in case get_task i db of
        None \<Rightarrow> (db, Inl (StoreError ErrNotFound))
      | Some t \<Rightarrow>
          if tk_attempt t \<noteq> n then (db, Inl (StoreError ErrStaleAttempt))
          else case check_events i n es of
                 Inl e \<Rightarrow>
                   ((case e of SchemaRejected _ _ \<Rightarrow>
                       insert_server_event_once i n ''runtime'' ''error'' ''task_event.schema_rejected'' ''failed'' now db
                     | _ \<Rightarrow> db), Inl e)
               | Inr es \<Rightarrow>
                   (case foldE (store_event i n (masking t db) now) es (db_events db) of
                      Inl e \<Rightarrow> (db, Inl (StoreError e))
                    | Inr rows \<Rightarrow>
                        (db\<lparr>db_events := rows,
                            db_tasks := tbl_upd (\<lambda>r. tk_id r = i \<and> tk_attempt r = n \<and> (tk_status r = Preparing \<or> tk_status r = Running))
                                          (\<lambda>r. r\<lparr>tk_heartbeat_at := Some now\<rparr>) (db_tasks db)\<rparr>,
                         Inr (accepted_max i n rows))))"

end
