(* ===== verification/Feed_Facts.thy ===== *)
theory Feed_Facts
  imports Event_Feed Finish_Facts
begin

text \<open>
  The feed end to end: the server's ingest is a receiver in the sense of the batcher, so the events of
  an attempt reach the server exactly once and in order over any network, and a closing batcher
  delivers everything once the server answers. A masked event shows nothing but its shape.
\<close>

section \<open>What a stored row shows\<close>

type_synonym row_cols = "int \<times> string \<times> string \<times> string \<times> string"

definition col :: "task_event \<Rightarrow> row_cols" where
  "col e = (te_seq e, te_class e, te_verb e, te_object e, te_outcome e)"

definition row_col :: "event_row \<Rightarrow> row_cols" where
  "row_col r = (ev_seq r, ev_class r, ev_verb r, ev_object r, ev_outcome r)"

definition shown :: "uuid \<Rightarrow> int \<Rightarrow> event_row list \<Rightarrow> row_cols list" where
  "shown i n rows = map row_col (daemon_rows i n rows)"

definition feed_of :: "uuid \<Rightarrow> int \<Rightarrow> db \<Rightarrow> row_cols list" where
  "feed_of i n db = shown i n (db_events db)"

text \<open>An event as the runner of the attempt builds it.\<close>

definition own_event :: "uuid \<Rightarrow> int \<Rightarrow> task_event \<Rightarrow> bool" where
  "own_event i n e \<longleftrightarrow> (te_task e = None \<or> te_task e = Some i) \<and> (te_attempt e = 0 \<or> te_attempt e = n)
     \<and> 0 < te_seq e \<and> te_seq e < server_seq_base \<and> \<not> te_partial e"

lemma mask_keeps [simp]: "col (fst (mask_event e)) = col e" "te_seq (fst (mask_event e)) = te_seq e"
  by (auto simp: mask_event_def col_def split: option.split prod.split)

lemma with_attempt_keeps [simp]:
  "col (with_attempt n e) = col e" "te_seq (with_attempt n e) = te_seq e" "te_partial (with_attempt n e) = te_partial e"
  by (simp_all add: with_attempt_def col_def)

lemma with_attempt_own: "te_attempt e = n \<Longrightarrow> with_attempt n e = e"
  by (cases e) (simp add: with_attempt_def)

lemma check_events_list: "check_events i n es = Inr es' \<Longrightarrow> es' = map (with_attempt n) es"
  by (induction es arbitrary: es') (auto simp: check_event_def Let_def split: if_splits)

text \<open>The server's own lines have numbers above every event of a daemon.\<close>

lemma next_server_seq_high: "server_seq_base \<le> next_server_seq i n rows"
proof -
  have grow: "s \<le> fold max ss s" for s :: int and ss by (induction ss arbitrary: s) (auto intro: order_trans [OF max.cobounded2])
  let ?rs = "filter (\<lambda>e. ev_task e = i \<and> ev_attempt e = n \<and> ev_seq e \<ge> server_seq_base) rows"
  show ?thesis
  proof (cases ?rs)
    case (Cons r rs)
    then have "r \<in> set ?rs" by simp
    then have "server_seq_base \<le> ev_seq r" by simp
    with grow [of "ev_seq r" "map ev_seq rs"] Cons show ?thesis by (simp add: next_server_seq_def)
  qed (simp add: next_server_seq_def)
qed

lemma note_quiet [simp]: "feed_of i n (insert_server_event j k c v ob oc now db) = feed_of i n db"
  using next_server_seq_high [of j k "db_events db"]
  by (auto simp: feed_of_def shown_def daemon_rows_def insert_server_event_def)

lemma note_once_quiet [simp]: "feed_of i n (insert_server_event_once j k c v ob oc now db) = feed_of i n db"
  by (simp add: insert_server_event_once_def)

section \<open>Storing a batch\<close>

definition present :: "uuid \<Rightarrow> int \<Rightarrow> event_row list \<Rightarrow> int \<Rightarrow> bool" where
  "present i n rows s \<longleftrightarrow> list_ex (\<lambda>r. ev_task r = i \<and> ev_attempt r = n \<and> ev_seq r = s) rows"

lemma store_event_cases:
  assumes "0 < te_seq e" and "te_seq e < server_seq_base" and "\<not> te_partial e"
  shows "\<exists>rows'. store_event i n m now e rows = Inr rows'
    \<and> shown i n rows' = shown i n rows @ (if present i n rows (te_seq e) then [] else [col e])
    \<and> (\<forall>s. present i n rows' s = (present i n rows s \<or> s = te_seq e))"
proof -
  obtain e' x where e': "(if m then mask_event e else (e, False)) = (e', x)" by fastforce
  have c: "col e' = col e" "te_seq e' = te_seq e" using mask_keeps [of e] arg_cong [OF e', of fst] by (auto split: if_splits)
  have "te_seq e \<le> 2147483647" using assms(2) by (simp add: server_seq_base_def)
  with c assms show ?thesis
    by (auto simp: store_event_def e' present_def shown_def daemon_rows_def row_col_def col_def)
qed

lemma store_batch:
  assumes "ascending es" and "\<forall>e \<in> set es. 0 < te_seq e \<and> te_seq e < server_seq_base \<and> \<not> te_partial e"
    and "\<forall>e \<in> set es. present i n rows (te_seq e) = (te_seq e \<le> h)"
  shows "\<exists>rows'. foldE (store_event i n m now) es rows = Inr rows' \<and> shown i n rows' = shown i n rows @ map col (after h es)"
  using assms
proof (induction es arbitrary: rows)
  case (Cons e es)
  obtain rows1 where r: "store_event i n m now e rows = Inr rows1"
    and s: "shown i n rows1 = shown i n rows @ (if present i n rows (te_seq e) then [] else [col e])"
    and p: "\<And>x. present i n rows1 x = (present i n rows x \<or> x = te_seq e)"
    using store_event_cases [of e i n m now rows] Cons.prems(2) by auto
  have "\<forall>x \<in> set es. present i n rows1 (te_seq x) = (te_seq x \<le> h)"
    using Cons.prems p by (fastforce simp: ascending_def)
  with Cons.IH [of rows1] Cons.prems obtain rows' where "foldE (store_event i n m now) es rows1 = Inr rows'"
    "shown i n rows' = shown i n rows1 @ map col (after h es)" by (auto simp: ascending_def)
  with r s Cons.prems(3) show ?case by (auto simp: after_def)
qed (simp add: after_def)

lemma present_shown: "0 < s \<Longrightarrow> s < server_seq_base \<Longrightarrow> present i n rows s = (s \<in> fst ` set (shown i n rows))"
  by (force simp: present_def shown_def daemon_rows_def row_col_def list_ex_iff image_iff)

lemma fold_max_int: "fold max xs (a :: int) = Max (set (a # xs))"
  unfolding Max.set_eq_fold ..

lemma accepted_max_shown: "accepted_max i n rows = Max (insert 0 (fst ` set (shown i n rows)))"
proof -
  have "fst ` set (shown i n rows) = set (map ev_seq (daemon_rows i n rows))"
    by (auto simp: shown_def row_col_def image_image)
  then show ?thesis unfolding accepted_max_def fold_max_int by simp
qed

section \<open>Ingest is the batcher's receiver\<close>

definition other_writes :: "uuid \<Rightarrow> int \<Rightarrow> db \<Rightarrow> db \<Rightarrow> bool" where
  "other_writes i n db db' \<longleftrightarrow> feed_of i n db' = feed_of i n db"

lemma ascending_map: "ascending (map (with_attempt n) es) = ascending es"
  by (simp add: ascending_def sorted_wrt_map)

lemma after_map: "after h (map (with_attempt n) es) = map (with_attempt n) (after h es)"
  by (simp add: after_def filter_map comp_def)

lemma ingest_receives:
  assumes asc: "ascending es" and own: "list_all (own_event i n) es" and s: "feed_of i n db = map col (up_to h es)"
    and lo: "lo \<le> h" and h: "0 \<le> h" and run: "ingest i n (stretch lo hi es) db = (db', r)"
  shows "isl r \<and> feed_of i n db' = feed_of i n db
    \<or> (\<exists>m. r = Inr m \<and> feed_of i n db' = map col (up_to (max h hi) es) \<and> m \<le> max h hi
          \<and> (\<forall>e \<in> set (stretch lo hi es). te_seq e \<le> m))"
proof (cases "isl r")
  case True
  with run have "feed_of i n db' = feed_of i n db"
    by (auto simp: ingest_def Let_def split: option.splits if_splits sum.splits ingest_error.splits)
  with True show ?thesis by blast
next
  case False
  then obtain m where m: "r = Inr m" by (cases r) auto
  let ?B = "map (with_attempt n) (stretch lo hi es)"
  obtain t rows where g: "get_task i db = Some t" and st: "foldE (store_event i n (masking t db) (db_clock db)) ?B (db_events db) = Inr rows"
    and out: "db_events db' = rows" "m = accepted_max i n rows"
    using run m check_events_list [of i n "stretch lo hi es"]
    by (auto simp: ingest_def Let_def split: option.splits if_splits sum.splits ingest_error.splits)
  have ascB: "ascending ?B" 
    unfolding ascending_map using asc by (simp add: ascending_def stretch_def sorted_wrt_filter)
  have inB: "e \<in> set es \<and> te_seq e \<le> hi" if "e \<in> set (stretch lo hi es)" for e using that by (simp add: stretch_def)
  have ok: "\<forall>e \<in> set ?B. 0 < te_seq e \<and> te_seq e < server_seq_base \<and> \<not> te_partial e"
    using own inB by (fastforce simp: list_all_iff own_event_def)
  have keys: "fst ` set (shown i n (db_events db)) = te_seq ` set (up_to h es)"
    using s by (simp add: feed_of_def image_image col_def)
  have pre: "\<forall>e \<in> set ?B. present i n (db_events db) (te_seq e) = (te_seq e \<le> h)"
  proof
    fix e
    assume e: "e \<in> set ?B"
    then obtain e0 where e0: "e0 \<in> set es" "te_seq e = te_seq e0" using inB by fastforce
    have "present i n (db_events db) (te_seq e) = (te_seq e \<in> te_seq ` set (up_to h es))"
      using present_shown ok e keys by metis
    then show "present i n (db_events db) (te_seq e) = (te_seq e \<le> h)"
      using e0 by (auto simp: up_to_def)
  qed
  from store_batch [OF ascB ok pre, of "masking t db" "db_clock db"] st
  have sh: "shown i n rows = shown i n (db_events db) @ map col (after h ?B)" by auto
  have "after h (stretch lo hi es) = stretch h hi es"
    using lo by (auto simp: after_def stretch_def intro!: filter_cong)
  then have "map col (after h ?B) = map col (stretch h hi es)" by (simp add: after_map comp_def)
  with sh s have f: "shown i n rows = map col (up_to (max h hi) es)"
    using up_to_stretch [OF asc, of h hi] by (simp add: feed_of_def flip: map_append)
  have mx: "m = Max (insert 0 (te_seq ` set (up_to (max h hi) es)))"
    unfolding out(2) accepted_max_shown f by (simp add: image_image col_def)
  have "m \<le> max h hi" unfolding mx using h by (intro Max.boundedI) (auto simp: up_to_def)
  moreover have "te_seq e \<le> m" if "e \<in> set (stretch lo hi es)" for e
    unfolding mx using inB [OF that] by (intro Max_ge) (auto simp: up_to_def)
  ultimately show ?thesis using m f out(1) by (simp add: feed_of_def)
qed

lemma check_events_sound:
  "list_all (\<lambda>e. own_event i n e \<and> validate (with_attempt n e) = []) es \<Longrightarrow> isl (check_events i n es) = False"
  by (induction es) (auto simp: check_event_def own_event_def with_attempt_def Let_def isl_bindE)

definition attempt_current :: "uuid \<Rightarrow> int \<Rightarrow> db \<Rightarrow> bool" where
  "attempt_current i n db \<longleftrightarrow> (case get_task i db of None \<Rightarrow> False | Some t \<Rightarrow> tk_attempt t = n)"

definition sound_event :: "uuid \<Rightarrow> int \<Rightarrow> task_event \<Rightarrow> bool" where
  "sound_event i n e \<longleftrightarrow> own_event i n e \<and> validate (with_attempt n e) = []"

lemma store_total:
  assumes "\<forall>e \<in> set es. 0 < te_seq e \<and> te_seq e < server_seq_base \<and> \<not> te_partial e"
  shows "\<exists>rows'. foldE (store_event i n m now) es rows = Inr rows'"
  using assms
proof (induction es arbitrary: rows)
  case (Cons e es)
  then obtain rows1 where "store_event i n m now e rows = Inr rows1" using store_event_cases [of e i n m now rows] by auto
  with Cons show ?case by auto
qed simp

lemma ingest_accepts:
  assumes "attempt_current i n db" and "list_all (sound_event i n) es"
  shows "\<exists>db' m. ingest i n es db = (db', Inr m) \<and> attempt_current i n db'"
proof -
  from assms(1) obtain t where t: "get_task i db = Some t" "tk_attempt t = n" by (auto simp: attempt_current_def split: option.splits)
  have "\<not> isl (check_events i n es)" using check_events_sound [of i n es] assms(2) by (simp add: sound_event_def list_all_iff)
  then obtain es' where es': "check_events i n es = Inr es'" by (cases "check_events i n es") auto
  have "\<forall>e \<in> set es'. 0 < te_seq e \<and> te_seq e < server_seq_base \<and> \<not> te_partial e"
    using assms(2) unfolding check_events_list [OF es'] by (auto simp: list_all_iff sound_event_def own_event_def)
  from store_total [OF this] obtain rows where rows: "foldE (store_event i n (masking t db) (db_clock db)) es' (db_events db) = Inr rows" by blast
  have "tbl_get tk_id (db_tasks db) i = Some t" using t(1) by (simp add: get_task_def)
  then have "attempt_current i n (db\<lparr>db_events := rows, db_tasks := tbl_upd p (\<lambda>r. r\<lparr>tk_heartbeat_at := Some (db_clock db)\<rparr>) (db_tasks db)\<rparr>)" for p
    using t(2) by (simp add: attempt_current_def get_task_def tbl_get_upd)
  with t es' rows show ?thesis by (simp add: ingest_def Let_def)
qed

interpretation feed: healthy_receiver "ingest i n" "other_writes i n" "own_event i n" "feed_of i n" col
    "attempt_current i n" "sound_event i n" for i n
proof unfold_locales
  show "isl r \<and> feed_of i n s' = feed_of i n s \<or>
       (\<exists>m. r = Inr m \<and> feed_of i n s' = map col (up_to (max h hi) es) \<and> m \<le> max h hi \<and> (\<forall>e \<in> set (stretch lo hi es). te_seq e \<le> m))"
    if "ascending es" "list_all (own_event i n) es" "feed_of i n s = map col (up_to h es)" "lo \<le> h" "0 \<le> h"
      "ingest i n (stretch lo hi es) s = (s', r)" for es s h lo hi s' r
    by (rule ingest_receives [OF that])
  show "other_writes i n s s' \<Longrightarrow> feed_of i n s' = feed_of i n s" for s s' by (simp add: other_writes_def)
  show "own_event i n ev \<Longrightarrow> 0 < te_seq ev" for ev by (simp add: own_event_def)
  show "attempt_current i n s \<Longrightarrow> list_all (sound_event i n) es \<Longrightarrow> \<exists>s' m. ingest i n es s = (s', Inr m) \<and> attempt_current i n s'" for s es
    by (rule ingest_accepts)
qed

section \<open>The guarantees\<close>

text \<open>The wire of a fresh attempt.\<close>

definition fresh_wire :: "nat \<Rightarrow> db \<Rightarrow> db wire" where
  "fresh_wire k db = \<lparr>wr_batcher = new_batcher k, wr_flight = NoFlight, wr_sent = [], wr_server = db\<rparr>"

text \<open>
  C33 Every event of an attempt is in the feed at most once and in order, and none is lost. Whatever
  the network does - requests that never arrive, answers that are lost, old requests that arrive
  late or twice - and whatever else the server writes meanwhile, the server's rows are exactly the
  first events the attempt emitted, and the batcher still holds every event beyond the ones that are
  confirmed, all of which are stored.
\<close>

theorem feed_exactly_once:
  assumes "feed_run (ingest i n) (other_writes i n) (own_event i n) (fresh_wire k db) es w"
    and "0 < k" and "feed_of i n db = []"
  shows "\<exists>kept confirmed. confirmed \<le> kept \<and> kept \<le> length es
    \<and> feed_of i n (wr_server w) = map col (take kept es) \<and> bt_pending (wr_batcher w) = drop confirmed es"
  by (rule feed.feed_kept [OF assms(1), of k]) (simp_all add: fresh_wire_def assms)

text \<open>
  C34 A closing batcher delivers everything. After any such run, as soon as the server answers, the
  task is still in this attempt and every event is valid, two rounds of \<open>Close\<close> end with the complete
  feed at the server and nothing left behind; each flush loop ends within as many rounds as events
  are waiting.
\<close>

theorem feed_delivered:
  assumes "feed_run (ingest i n) (other_writes i n) (own_event i n) (fresh_wire k db) es w"
    and "0 < k" and "feed_of i n db = []"
    and "attempt_current i n (wr_server w)" and "list_all (sound_event i n) es"
    and "length es < fuel" and "bt_max_batch (wr_batcher w) \<le> fuel" and "2 \<le> tries"
  shows "\<exists>b' db'. close_batcher (ingest i n) fuel tries (wr_batcher w, wr_server w) = Some (False, b', db')
    \<and> bt_pending b' = [] \<and> feed_of i n db' = map col es"
proof -
  obtain h where a: "feed.agree i n es w h"
    using feed.feed_agrees [OF assms(1), of k] assms(2,3) by (auto simp: fresh_wire_def)
  have "length (bt_pending (wr_batcher w)) \<le> length es"
    using a unfolding feed.agree_def by (simp add: after_def)
  with assms(6) have "length (bt_pending (wr_batcher w)) < fuel" by simp
  from feed.close_drains [OF a assms(4,5) this assms(7,8)] show ?thesis .
qed

section \<open>What is rejected, what comes late\<close>

lemma rejected_flush:
  assumes "attempt_current i n db" and "bt_pending b \<noteq> []" and "isl (check_events i n (batch_of b))" and "0 < fuel"
  shows "\<exists>db'. flush (ingest i n) fuel (b, db) = Some (flush_failed b, db') \<and> attempt_current i n db' \<and> feed_of i n db' = feed_of i n db"
proof -
  obtain f where f: "fuel = Suc f" using assms(4) by (cases fuel) auto
  obtain t where t: "get_task i db = Some t" "tk_attempt t = n"
    using assms(1) by (auto simp: attempt_current_def split: option.splits)
  obtain e where e: "check_events i n (batch_of b) = Inl e" using assms(3) by (cases "check_events i n (batch_of b)") auto
  obtain db' where i: "ingest i n (batch_of b) db = (db', Inl e)"
    and q: "db' = db \<or> db' = insert_server_event_once i n ''runtime'' ''error'' ''task_event.schema_rejected'' ''failed'' (db_clock db) db"
    using t e by (cases e) (auto simp: ingest_def Let_def)
  have "get_task i (insert_server_event_once i n c v ob oc now db) = get_task i db" for c v ob oc now
    by (simp add: insert_server_event_once_def insert_server_event_def get_task_def)
  then have "attempt_current i n db'" "feed_of i n db' = feed_of i n db" using q assms(1) by (auto simp: attempt_current_def)
  with i f assms(2) show ?thesis by simp
qed

lemma rejected_close:
  assumes "attempt_current i n db" and "bt_pending b \<noteq> []" and "isl (check_events i n (batch_of b))" and "0 < fuel"
  shows "\<exists>b' db'. close_batcher (ingest i n) fuel (Suc tries) (b, db) = Some (True, b', db') \<and> bt_pending b' = bt_pending b
    \<and> feed_of i n db' = feed_of i n db"
  using assms
proof (induction tries arbitrary: b db)
  case 0
  from rejected_flush [OF 0] 0(2) show ?case by (auto simp: flush_failed_def)
next
  case (Suc tries)
  from rejected_flush [OF Suc.prems] obtain db' where f: "flush (ingest i n) fuel (b, db) = Some (flush_failed b, db')"
    and a: "attempt_current i n db'" "feed_of i n db' = feed_of i n db" by blast
  have "bt_pending (flush_failed b) = bt_pending b" "batch_of (flush_failed b) = batch_of b"
    by (simp_all add: flush_failed_def batch_of_def)
  with Suc.IH [OF a(1), of "flush_failed b"] Suc.prems f a(2) show ?case by (simp del: flush.simps)
qed

text \<open>
  C38 One event the server does not accept stops the feed of its attempt for good: while it is among
  the first events waiting, every attempt to close the batcher fails, nothing behind it or before it in
  the batch is stored, and all of it is still waiting when the batcher gives up.
\<close>

theorem rejected_event_blocks_feed:
  assumes "attempt_current i n db" and "ev \<in> set (batch_of b)" and "te_attempt ev = n" and "validate ev \<noteq> []"
    and "list_all (\<lambda>e. te_task e = Some i \<and> te_attempt e = n) (bt_pending b)" and "0 < fuel"
  shows "\<exists>b' db'. close_batcher (ingest i n) fuel (Suc tries) (b, db) = Some (True, b', db') \<and> bt_pending b' = bt_pending b
    \<and> feed_of i n db' = feed_of i n db"
proof (rule rejected_close [OF assms(1) _ _ assms(6)])
  have sub: "set (batch_of b) \<subseteq> set (bt_pending b)" by (auto simp: batch_of_def dest: in_set_takeD)
  then show "bt_pending b \<noteq> []" using assms(2) by auto
  have "isl (check_events i n es)" if "ev \<in> set es" "list_all (\<lambda>e. te_task e = Some i \<and> te_attempt e = n) es" for es
    using that
  proof (induction es)
    case (Cons e es)
    then show ?case using assms(3,4) by (auto simp: isl_bindE check_event_def with_attempt_own Let_def)
  qed simp
  then show "isl (check_events i n (batch_of b))" using assms(2,5) sub by (auto simp: list_all_iff subset_iff)
qed

text \<open>
  An event handed over after a later one that is already on its way is dropped without ever being
  sent: the answer confirms the later number. The runner takes the number and hands the event over in
  two steps, without a lock around both.
\<close>

definition plain_event :: "int \<Rightarrow> task_event" where
  "plain_event s = \<lparr>te_task = Some 1, te_attempt = 1, te_seq = s, te_at = Some 1, te_class = ''runtime'', te_verb = ''start'',
     te_object = [], te_outcome = ''ok'', te_partial = False, te_payload = None\<rparr>"

lemma late_handover_lost:
  "case ingest 1 1 [plain_event 2] sample_db of
     (db', Inr m) \<Rightarrow>
        bt_pending (flush_accepted m (snd (emit (plain_event 1) (snd (emit (plain_event 2) (new_batcher 100)))))) = []
      \<and> feed_of 1 1 db' = [col (plain_event 2)]
   | _ \<Rightarrow> False"
  by code_simp

section \<open>The guarantees at work\<close>

text \<open>Two events; the answer to the first request is lost, the second request repeats the event.\<close>

lemma sample_feed:
  "\<exists>w. feed_run (ingest 1 1) (other_writes 1 1) (own_event 1 1) (fresh_wire 100 sample_db) [plain_event 1, plain_event 2] w
     \<and> attempt_current 1 1 (wr_server w) \<and> bt_max_batch (wr_batcher w) \<le> 200"
proof -
  let ?run = "feed_run (ingest 1 1) (other_writes 1 1) (own_event 1 1) (fresh_wire 100 sample_db)"
  let ?w0 = "fresh_wire 100 sample_db"
  let ?b1 = "snd (emit (plain_event 1) (wr_batcher ?w0))"
  let ?w1 = "?w0\<lparr>wr_batcher := ?b1\<rparr>"
  have own: "own_event 1 1 (plain_event s)" if "0 < s" "s < 3" for s
    using that by (simp add: own_event_def plain_event_def server_seq_base_def)
  have "?run ([] @ [plain_event 1]) ?w1"
    by (rule feed_run.emitted [OF feed_run.start]) (simp_all add: own del: One_nat_def, simp add: fresh_wire_def new_batcher_def plain_event_def)
  then have 1: "?run [plain_event 1] ?w1" by simp
  let ?w2 = "?w1\<lparr>wr_flight := Sent (batch_of (wr_batcher ?w1)), wr_sent := batch_of (wr_batcher ?w1) # wr_sent ?w1\<rparr>"
  have 2: "?run [plain_event 1] ?w2"
    by (rule feed_run.sent [OF 1]) (simp_all add: fresh_wire_def new_batcher_def emit_def Let_def)
  obtain db1 m where i: "ingest 1 1 (batch_of ?b1) sample_db = (db1, Inr m)" and a: "attempt_current 1 1 db1"
  proof -
    have "case ingest 1 1 (batch_of ?b1) sample_db of (db1, Inr m) \<Rightarrow> attempt_current 1 1 db1 | _ \<Rightarrow> False" by code_simp
    then show thesis using that by (auto split: prod.splits sum.splits)
  qed
  let ?w3 = "?w2\<lparr>wr_flight := Answered m, wr_server := db1\<rparr>"
  have 3: "?run [plain_event 1] ?w3"
    by (rule feed_run.handled [OF 2]) (simp, use i in \<open>simp add: fresh_wire_def del: One_nat_def\<close>)
  let ?w4 = "?w3\<lparr>wr_batcher := flush_failed (wr_batcher ?w3), wr_flight := NoFlight\<rparr>"
  have 4: "?run [plain_event 1] ?w4" by (rule feed_run.broken [OF 3])
  have "?run ([plain_event 1] @ [plain_event 2]) (?w4\<lparr>wr_batcher := snd (emit (plain_event 2) (wr_batcher ?w4))\<rparr>)"
    by (rule feed_run.emitted [OF 4])
      (simp_all add: own del: One_nat_def, simp add: fresh_wire_def new_batcher_def plain_event_def emit_def flush_failed_def Let_def)
  then show ?thesis using a
    by (intro exI [of _ "?w4\<lparr>wr_batcher := snd (emit (plain_event 2) (wr_batcher ?w4))\<rparr>"])
      (simp add: emit_def flush_failed_def Let_def fresh_wire_def new_batcher_def)
qed

lemma sample_feed_empty: "feed_of 1 1 sample_db = []"
  by code_simp

theorem feed_exactly_once_witness:
  "\<exists>w kept confirmed. confirmed \<le> kept \<and> kept \<le> 2
     \<and> feed_of 1 1 (wr_server w) = map col (take kept [plain_event 1, plain_event 2])
     \<and> bt_pending (wr_batcher (w :: db wire)) = drop confirmed [plain_event 1, plain_event 2]"
proof -
  obtain w where r: "feed_run (ingest 1 1) (other_writes 1 1) (own_event 1 1) (fresh_wire 100 sample_db) [plain_event 1, plain_event 2] w"
    using sample_feed by blast
  have "length [plain_event 1, plain_event 2] = 2" by simp
  with feed_exactly_once [OF r _ sample_feed_empty] show ?thesis by (metis zero_less_numeral)
qed

theorem feed_delivered_witness:
  "\<exists>(w :: db wire) b' db'. close_batcher (ingest 1 1) 200 2 (wr_batcher w, wr_server w) = Some (False, b', db')
    \<and> bt_pending b' = [] \<and> feed_of 1 1 db' = map col [plain_event 1, plain_event 2]"
proof -
  obtain w where r: "feed_run (ingest 1 1) (other_writes 1 1) (own_event 1 1) (fresh_wire 100 sample_db) [plain_event 1, plain_event 2] w"
    "attempt_current 1 1 (wr_server w)" "bt_max_batch (wr_batcher w) \<le> 200"
    using sample_feed by blast
  have "list_all (sound_event 1 1) [plain_event 1, plain_event 2]" by code_simp
  moreover have "0 < (100 :: nat)" "length [plain_event 1, plain_event 2] < 200" "2 \<le> (2 :: nat)" by simp_all
  ultimately have "\<exists>b' db'. close_batcher (ingest 1 1) 200 2 (wr_batcher w, wr_server w) = Some (False, b', db')
      \<and> bt_pending b' = [] \<and> feed_of 1 1 db' = map col [plain_event 1, plain_event 2]"
    by (intro feed_delivered [OF r(1) _ sample_feed_empty r(2) _ _ r(3)])
  then show ?thesis by (rule exI)
qed

theorem rejected_event_blocks_feed_witness:
  "\<exists>b' db'. close_batcher (ingest 1 1) 5 3
       (snd (emit ((plain_event 1)\<lparr>te_verb := ''begin''\<rparr>) (new_batcher 100)), sample_db) = Some (True, b', db')
     \<and> length (bt_pending b') = 1 \<and> feed_of 1 1 db' = []"
proof -
  let ?e = "(plain_event 1)\<lparr>te_verb := ''begin''\<rparr>"
  let ?b = "snd (emit ?e (new_batcher 100))"
  have "attempt_current 1 1 sample_db" by code_simp
  moreover have "?e \<in> set (batch_of ?b)" by (simp add: emit_def new_batcher_def batch_of_def Let_def)
  moreover have "te_attempt ?e = 1" by (simp add: plain_event_def)
  moreover have "validate ?e \<noteq> []" by code_simp
  moreover have "list_all (\<lambda>e. te_task e = Some 1 \<and> te_attempt e = 1) (bt_pending ?b)"
    by (simp add: emit_def new_batcher_def plain_event_def Let_def)
  ultimately obtain b' db' where "close_batcher (ingest 1 1) 5 (Suc 2) (?b, sample_db) = Some (True, b', db')"
      "bt_pending b' = bt_pending ?b" "feed_of 1 1 db' = feed_of 1 1 sample_db"
    using rejected_event_blocks_feed [of 1 1 sample_db ?e ?b 5 2] by auto
  moreover have "length (bt_pending ?b) = 1" by (simp add: emit_def new_batcher_def Let_def)
  moreover have "Suc 2 = (3 :: nat)" by simp
  ultimately show ?thesis using sample_feed_empty by auto
qed

end
