(* ===== verification/Feed_Mask.thy ===== *)
theory Feed_Mask
  imports Event_Feed
begin

text \<open>
  What masking hides. Two payloads that differ only in what a person would read - the words of a
  message, the output of a tool, the arguments of a command line - and agree in their lengths are
  stored as the same row.
\<close>

section \<open>Payloads by key\<close>

lemma payload_eqI:
  assumes "map fst p = map fst p'" and "distinct (map fst p)" and "\<And>k. map_of p k = map_of p' k"
  shows "p = p'"
  using assms
proof (induction p arbitrary: p')
  case (Cons x p)
  obtain k v where x: "x = (k, v)" by fastforce
  with Cons.prems(1) obtain v' q where p': "p' = (k, v') # q" "map fst p = map fst q" by (cases p') auto
  have fresh: "k \<notin> set (map fst p)" using Cons.prems(2) x by simp
  then have "map_of p k = None" unfolding map_of_eq_None_iff by simp
  moreover have "map_of q k = None" using fresh unfolding p'(2) map_of_eq_None_iff by simp
  moreover have "map_of p j = map_of q j" if "j \<noteq> k" for j using Cons.prems(3) [of j] that by (simp add: x p')
  ultimately have "map_of p j = map_of q j" for j by (cases "j = k") simp_all
  moreover have "distinct (map fst p)" using Cons.prems(2) by simp
  ultimately have "p = q" using Cons.IH p'(2) by blast
  moreover have "v = v'" using Cons.prems(3) [of k] by (simp add: x p')
  ultimately show ?case by (simp add: x p')
qed simp

lemma put_keys [simp]: "map fst (put k v p) = k # filter (\<lambda>k'. k' \<noteq> k) (map fst p)"
  by (induction p) (auto simp: put_def)

lemma put_get [simp]: "map_of (put k v p) = (map_of p)(k \<mapsto> v)"
proof
  fix k'
  have "k' \<noteq> k \<Longrightarrow> map_of (filter (\<lambda>(k', _). k' \<noteq> k) p) k' = map_of p k'" by (induction p) auto
  then show "map_of (put k v p) k' = ((map_of p)(k \<mapsto> v)) k'" by (simp add: put_def)
qed

section \<open>Alike\<close>

definition same_length :: "string \<Rightarrow> string \<Rightarrow> bool" where
  "same_length v v' \<longleftrightarrow> v \<noteq> [] \<and> v' \<noteq> [] \<and> rune_count v = rune_count v'"

text \<open>The same first word, and as much after it.\<close>

definition same_head :: "string \<Rightarrow> string \<Rightarrow> bool" where
  "same_head v v' \<longleftrightarrow>
     (let t = trim_space v; t' = trim_space v'; word = takeWhile (\<lambda>c. c \<noteq> CHR '' ''); rest = dropWhile (\<lambda>c. c \<noteq> CHR '' '')
      in List.member t CHR '' '' \<and> List.member t' CHR '' '' \<and> word t = word t'
         \<and> rune_count (drop 1 (rest t)) = rune_count (drop 1 (rest t')))"

definition alike :: "string \<Rightarrow> string \<Rightarrow> json option \<Rightarrow> json option \<Rightarrow> bool" where
  "alike cls k v v' \<longleftrightarrow>
     (case (v, v') of
        (Some (JStr s), Some (JStr s')) \<Rightarrow>
          (cls = ''message'' \<and> k = ''text'' \<or> cls = ''tool'' \<and> k = ''summary'') \<and> same_length s s'
          \<or> (cls = ''tool'' \<and> (k = ''command'' \<or> k = ''title'')) \<and> same_head s s'
      | _ \<Rightarrow> False)"

definition alike_payloads :: "string \<Rightarrow> (string \<times> json) list \<Rightarrow> (string \<times> json) list \<Rightarrow> bool" where
  "alike_payloads cls p p' \<longleftrightarrow> map fst p = map fst p' \<and> distinct (map fst p)
     \<and> list_all (\<lambda>k. map_of p k = map_of p' k \<or> alike cls k (map_of p k) (map_of p' k)) (map fst p)"

text \<open>Alike up to the keys of a set; a step of the masking takes its key out.\<close>

definition alike_but :: "string \<Rightarrow> string set \<Rightarrow> (string \<times> json) list \<Rightarrow> (string \<times> json) list \<Rightarrow> bool" where
  "alike_but cls ks p p' \<longleftrightarrow> map fst p = map fst p' \<and> distinct (map fst p)
     \<and> (\<forall>k. map_of p k = map_of p' k \<or> k \<in> ks \<and> alike cls k (map_of p k) (map_of p' k))"

lemma alike_start: "alike_payloads cls p p' \<Longrightarrow> alike_but cls UNIV p p'"
proof -
  assume a: "alike_payloads cls p p'"
  have "map_of p k = map_of p' k \<or> alike cls k (map_of p k) (map_of p' k)" for k
  proof (cases "k \<in> set (map fst p)")
    case True
    with a show ?thesis unfolding alike_payloads_def list_all_iff by blast
  next
    case False
    moreover from this have "k \<notin> set (map fst p')" using a by (metis alike_payloads_def)
    ultimately have "map_of p k = None" "map_of p' k = None" unfolding map_of_eq_None_iff by auto
    then show ?thesis by simp
  qed
  with a show ?thesis by (auto simp: alike_but_def alike_payloads_def)
qed

lemma alike_put: "alike_but cls ks p p' \<Longrightarrow> alike_but cls (ks - {k}) (put k v p) (put k v p')"
  by (auto simp: alike_but_def simp flip: map_map)

lemma alike_stay:
  assumes "alike_but cls ks p p'" and "map_of p k = map_of p' k"
  shows "alike_but cls (ks - {k}) p p'"
proof -
  have "map_of p j = map_of p' j \<or> j \<in> ks - {k} \<and> alike cls j (map_of p j) (map_of p' j)" for j
    by (cases "j = k") (use assms in \<open>simp_all add: alike_but_def\<close>)
  with assms(1) show ?thesis unfolding alike_but_def by blast
qed

lemma alike_strings:
  assumes "alike cls k v v'"
  shows "\<exists>s s'. v = Some (JStr s) \<and> v' = Some (JStr s')"
proof -
  obtain s where v: "v = Some (JStr s)" using assms by (simp add: alike_def split: option.splits json.splits)
  obtain s' where "v' = Some (JStr s')" using assms unfolding v by (simp add: alike_def split: option.splits json.splits)
  with v show ?thesis by blast
qed

lemma alike_keys:
  assumes "alike cls k v v'"
  shows "cls = ''message'' \<and> k = ''text'' \<or> cls = ''tool'' \<and> (k = ''summary'' \<or> k = ''command'' \<or> k = ''title'')"
  using alike_strings [OF assms] assms by (auto simp: alike_def)

lemma alike_put_all: "alike_but cls ks p p' \<Longrightarrow> alike_but cls ks (put k v p) (put k v p')"
  unfolding alike_but_def put_keys put_get by (elim conjE, intro conjI) simp_all

lemma str_of_Some: "map_of p k = Some (JStr s) \<Longrightarrow> str_of p k = Some s"
  by (simp add: str_of_def)

lemma str_of_same: "map_of p k = map_of p' k \<Longrightarrow> str_of p k = str_of p' k"
  by (simp add: str_of_def)

text \<open>One step of the masking: the payloads and the flags.\<close>

definition alike_pair :: "string \<Rightarrow> string set \<Rightarrow> (string \<times> json) list \<times> bool \<Rightarrow> (string \<times> json) list \<times> bool \<Rightarrow> bool" where
  "alike_pair cls ks x y \<longleftrightarrow> alike_but cls ks (fst x) (fst y) \<and> snd x = snd y"

lemma rewrite_alike:
  assumes agree: "\<And>s s'. alike cls k (Some (JStr s)) (Some (JStr s')) \<Longrightarrow> g s = g s' \<and> g s \<noteq> None"
    and a: "alike_pair cls ks x y"
  shows "alike_pair cls (ks - {k}) (rewrite_key g k x) (rewrite_key g k y)"
proof (cases "map_of (fst x) k = map_of (fst y) k")
  case True
  with a show ?thesis
    by (auto simp: alike_pair_def rewrite_key_def str_of_same [OF True] alike_put alike_stay split: option.split)
next
  case False
  then have al: "alike cls k (map_of (fst x) k) (map_of (fst y) k)" using a by (auto simp: alike_pair_def alike_but_def)
  then obtain s s' where s: "map_of (fst x) k = Some (JStr s)" "map_of (fst y) k = Some (JStr s')" using alike_strings by blast
  with agree [of s s'] al obtain w where "g s = Some w" "g s' = Some w" by (cases "g s") auto
  with s a show ?thesis by (simp add: alike_pair_def rewrite_key_def str_of_Some alike_put)
qed

lemma content_agree: "same_length s s' \<Longrightarrow> content_mark s = content_mark s' \<and> content_mark s \<noteq> None"
  by (simp add: same_length_def content_mark_def)

lemma trim_empty: "trim_space [] = []"
proof -
  have "leading ws [] = None" for ws by (auto simp: leading_def find_None_iff)
  then have "strip_left ws [] = []" for ws by (subst strip_left.simps) simp
  then show ?thesis by (simp add: trim_space_def)
qed

lemma head_agree: "same_head s s' \<Longrightarrow> head_mark s = head_mark s' \<and> head_mark s \<noteq> None"
proof -
  assume h: "same_head s s'"
  then have "s \<noteq> []" "s' \<noteq> []" by (auto simp: same_head_def Let_def trim_empty)
  moreover obtain t t' where "trim_space s = t" "trim_space s' = t'" by simp
  ultimately show ?thesis using h unfolding same_head_def head_mark_def Let_def by (elim conjE) simp
qed

lemma replace_alike:
  assumes "alike_pair cls ks x y" and "cls = ''message'' \<and> k = ''text'' \<or> cls = ''tool'' \<and> k = ''summary''"
  shows "alike_pair cls (ks - {k}) (replace_content k x) (replace_content k y)"
  unfolding replace_content_def
  by (rule rewrite_alike [OF _ assms(1)]) (use assms(2) content_agree in \<open>auto simp: alike_def\<close>)

lemma head_alike:
  assumes "alike_pair ''tool'' ks x y" and "k = ''command'' \<or> k = ''title''"
  shows "alike_pair ''tool'' (ks - {k}) (head_only k x) (head_only k y)"
  unfolding head_only_def
  by (rule rewrite_alike [OF _ assms(1)]) (use assms(2) head_agree in \<open>auto simp: alike_def\<close>)

lemma alike_final:
  assumes "alike_but cls ks p p'" and "\<And>k v v'. k \<in> ks \<Longrightarrow> \<not> alike cls k v v'"
  shows "p = p'"
  using assms by (intro payload_eqI) (auto simp: alike_but_def)

lemma alike_final_pair:
  assumes "alike_pair cls ks x y" and "\<And>k v v'. k \<in> ks \<Longrightarrow> \<not> alike cls k v v'"
  shows "x = y"
  using assms alike_final [of cls ks "fst x" "fst y"] by (auto simp: alike_pair_def prod_eq_iff)

lemma mask_message:
  assumes "alike_payloads ''message'' p p'"
  shows "mask_payload ''message'' verb p = mask_payload ''message'' verb p'"
proof -
  have a: "alike_but ''message'' UNIV p p'" using alike_start [OF assms] .
  have chars: "map_of p ''chars'' = map_of p' ''chars''" using a by (auto simp: alike_but_def dest: alike_keys)
  show ?thesis
  proof (cases "map_of p ''text'' = map_of p' ''text''")
    case True
    have "p = p'" by (rule alike_final [OF alike_stay [OF a True]]) (auto dest: alike_keys)
    then show ?thesis by simp
  next
    case False
    then have al: "alike ''message'' ''text'' (map_of p ''text'') (map_of p' ''text'')" using a by (auto simp: alike_but_def)
    then obtain s s' where m: "map_of p ''text'' = Some (JStr s)" "map_of p' ''text'' = Some (JStr s')"
      using alike_strings by blast
    with al have "same_length s s'" by (simp add: alike_def)
    then have r: "rune_count s' = rune_count s" "s \<noteq> []" "s' \<noteq> []" by (simp_all add: same_length_def)
    let ?q = "\<lambda>p. (if map_of p ''chars'' = None then put ''chars'' (JNum (of_nat (rune_count s))) p else p, False)"
    have "alike_but ''message'' UNIV (put ''chars'' v p) (put ''chars'' v p')" for v
      using alike_put_all [OF a] .
    then have "alike_pair ''message'' UNIV (?q p) (?q p')" using a chars by (simp add: alike_pair_def)
    from replace_alike [OF this, of "''text''"]
    have "alike_pair ''message'' (UNIV - {''text''}) (replace_content ''text'' (?q p)) (replace_content ''text'' (?q p'))" by simp
    then have "replace_content ''text'' (?q p) = replace_content ''text'' (?q p')"
      by (rule alike_final_pair) (auto dest: alike_keys)
    then show ?thesis using r by (simp add: mask_payload_def str_of_Some [OF m(1)] str_of_Some [OF m(2)])
  qed
qed

lemma mask_tool:
  assumes "alike_payloads ''tool'' p p'"
  shows "mask_payload ''tool'' verb p = mask_payload ''tool'' verb p'"
proof -
  have "alike_pair ''tool'' UNIV (p, False) (p', False)" using alike_start [OF assms] by (simp add: alike_pair_def)
  from head_alike [OF head_alike [OF replace_alike [OF this, of "''summary''"], of "''command''"], of "''title''"]
  have "alike_pair ''tool'' (UNIV - {''summary''} - {''command''} - {''title''})
      (head_only ''title'' (head_only ''command'' (replace_content ''summary'' (p, False))))
      (head_only ''title'' (head_only ''command'' (replace_content ''summary'' (p', False))))" by simp
  then have "head_only ''title'' (head_only ''command'' (replace_content ''summary'' (p, False)))
      = head_only ''title'' (head_only ''command'' (replace_content ''summary'' (p', False)))"
    by (rule alike_final_pair) (auto dest: alike_keys)
  then show ?thesis by (simp add: mask_payload_def)
qed

text \<open>
  C35 Masking keeps only the shape of the work. With masking on, two events that differ in nothing
  but the words of a message, the output of a tool or the arguments of a command - and agree in how
  long those are and in the first word of the command - leave the same rows in the feed.
\<close>

theorem masked_shape_only:
  assumes "te_payload e = Some p" and "alike_payloads (te_class e) p p'"
  shows "store_event i n True now e rows = store_event i n True now (e\<lparr>te_payload := Some p'\<rparr>) rows"
proof -
  have "mask_payload (te_class e) (te_verb e) p = mask_payload (te_class e) (te_verb e) p'"
  proof (cases "te_class e = ''message'' \<or> te_class e = ''tool''")
    case True
    with assms(2) show ?thesis using mask_message mask_tool by auto
  next
    case False
    have "p = p'"
    proof (rule alike_final [OF alike_start [OF assms(2)]])
      show "\<not> alike (te_class e) k v v'" for k v v'
        using False by (auto dest: alike_keys)
    qed
    then show ?thesis by simp
  qed
  then show ?thesis
    using assms(1) by (auto simp: store_event_def mask_event_def split: prod.splits)
qed

definition shell_event :: "string \<Rightarrow> task_event" where
  "shell_event c = \<lparr>te_task = None, te_attempt = 1, te_seq = 4, te_at = Some 1, te_class = ''tool'', te_verb = ''run_shell'',
     te_object = ''git'', te_outcome = ''ok'', te_partial = False,
     te_payload = Some [(''tool_call_id'', JStr ''t1''), (''kind'', JStr ''execute''), (''command'', JStr c)]\<rparr>"

theorem masked_shape_only_witness:
  "store_event 1 1 True 9 (shell_event ''git push origin'') [] = store_event 1 1 True 9 (shell_event ''git diff secret'') []"
proof -
  let ?p = "\<lambda>c. [(''tool_call_id'', JStr ''t1''), (''kind'', JStr ''execute''), (''command'', JStr c)]"
  have "alike_payloads ''tool'' (?p ''git push origin'') (?p ''git diff secret'')" by code_simp
  then have "alike_payloads (te_class (shell_event ''git push origin'')) (?p ''git push origin'') (?p ''git diff secret'')"
    by (simp add: shell_event_def)
  moreover have "te_payload (shell_event ''git push origin'') = Some (?p ''git push origin'')" by (simp add: shell_event_def)
  moreover have "(shell_event ''git push origin'')\<lparr>te_payload := Some (?p ''git diff secret'')\<rparr> = shell_event ''git diff secret''"
    by (simp add: shell_event_def)
  ultimately show ?thesis using masked_shape_only [of "shell_event ''git push origin''"] by metis
qed

end
