(* ===== verification/Message_Speech.thy ===== *)
theory Message_Speech
  imports Lane_Done
begin

text \<open>
  The kind of speech a message is and who it is addressed to, \<open>server/internal/messages/speech.go\<close>
  (PRD FR-3.1.3): the rule table \<open>Classify\<close>, the walk to the instruction a report ultimately
  answers, and \<open>Store\<close>, which every message row goes through in the transaction that inserts it.
  \<open>uuid.Parse\<close> is the parameter \<open>pu\<close>. An absent author has no id; its type is then irrelevant and
  set to \<open>BySystem\<close>.
\<close>

section \<open>The premises\<close>

record speech_input =
  si_kind :: string
  si_author_type :: author_type
  si_author :: "uuid option"
  si_mentions :: "mention list"
  si_content :: string
  si_parent_kind :: string
  si_parent_type :: author_type
  si_parent_author :: "uuid option"
  si_parent_name :: string
  si_waiting :: "addressee option"
  si_deleg_lane :: "uuid option"
  si_deleg_target :: "uuid option"
  si_deleg_name :: string
  si_trigger :: "uuid option"
  si_trig_type :: author_type
  si_trig_author :: "uuid option"
  si_trig_name :: string
  si_trig_speech :: "speech option"
  si_trig_addressees :: "addressee list"
  si_up :: "uuid option"
  si_up_type :: author_type
  si_up_author :: "uuid option"
  si_up_name :: string
  si_asks :: bool
  si_asker :: "addressee option"
  si_report_to :: "addressee option"
  si_card_responds :: "uuid option"

record speech_out =
  so_speech :: speech
  so_addressees :: "addressee list"
  so_responds_to :: "uuid option"
  so_lane :: "uuid option"

definition upstream_max_steps :: nat where "upstream_max_steps = 5"

definition same_addr :: "addressee \<Rightarrow> addressee \<Rightarrow> bool" where
  "same_addr a b \<longleftrightarrow> ad_kind a = ad_kind b \<and>
     (case (ad_id a, ad_id b) of
        (Some i, Some j) \<Rightarrow> i = j
      | (None, None) \<Rightarrow> ad_name a = ad_name b
      | _ \<Rightarrow> False)"

definition has_addr :: "addressee list \<Rightarrow> addressee \<Rightarrow> bool" where
  "has_addr as a = list_ex (\<lambda>x. same_addr x a) as"

definition append_uniq :: "addressee list \<Rightarrow> addressee \<Rightarrow> addressee list" where
  "append_uniq as a = (if has_addr as a then as else as @ [a])"

definition append_all :: "addressee list \<Rightarrow> addressee list \<Rightarrow> addressee list" where
  "append_all new as = fold (\<lambda>a out. append_uniq out a) new as"

definition agent_addr :: "uuid option \<Rightarrow> string \<Rightarrow> addressee" where
  "agent_addr i n = \<lparr>ad_kind = MentionAgent, ad_id = i, ad_name = n\<rparr>"

definition woken_by_report_to :: "speech_input \<Rightarrow> bool" where
  "woken_by_report_to i \<longleftrightarrow> si_trigger i \<noteq> None \<and> si_author i \<noteq> None
     \<and> (si_trig_speech i = Some SpReport \<or> si_trig_speech i = Some SpAnswer)
     \<and> has_addr (si_trig_addressees i) (agent_addr (si_author i) [])"

definition speech_note :: "string \<Rightarrow> bool" where
  "speech_note content = has_prefix ''/note'' content"

text \<open>The mentions of the content, without the author.\<close>

definition mention_addr_step :: "(string \<Rightarrow> uuid option) \<Rightarrow> uuid option \<Rightarrow> mention \<Rightarrow> addressee list \<Rightarrow> addressee list" where
  "mention_addr_step pu author m out =
     (if m_kind m = MentionAll then append_uniq out \<lparr>ad_kind = MentionAll, ad_id = None, ad_name = ''all''\<rparr>
      else case pu (m_id m) of
             None \<Rightarrow> out
           | Some i \<Rightarrow> if author = Some i then out
                       else append_uniq out \<lparr>ad_kind = m_kind m, ad_id = Some i, ad_name = m_name m\<rparr>)"

definition mention_addressees :: "(string \<Rightarrow> uuid option) \<Rightarrow> speech_input \<Rightarrow> addressee list" where
  "mention_addressees pu i = fold (mention_addr_step pu (si_author i)) (si_mentions i) []"

definition author_as_addressee :: "author_type \<Rightarrow> uuid option \<Rightarrow> string \<Rightarrow> addressee option" where
  "author_as_addressee ty a n =
     (case a of
        None \<Rightarrow> None
      | Some i \<Rightarrow> if ty = BySystem then None
                  else Some \<lparr>ad_kind = (if ty = ByAgent then MentionAgent else MentionUser), ad_id = Some i, ad_name = n\<rparr>)"

text \<open>\<open>a != nil && (in.AuthorID == nil || *a.ID != *in.AuthorID)\<close>\<close>

definition somebody_else :: "speech_input \<Rightarrow> addressee option \<Rightarrow> bool" where
  "somebody_else i a = (case a of None \<Rightarrow> False | Some x \<Rightarrow> si_author i = None \<or> ad_id x \<noteq> si_author i)"

section \<open>The rule table\<close>

definition said :: "speech \<Rightarrow> addressee list \<Rightarrow> speech_out" where
  "said sp as = \<lparr>so_speech = sp, so_addressees = as, so_responds_to = None, so_lane = None\<rparr>"

definition agent_ask :: "speech_input \<Rightarrow> speech" where
  "agent_ask i = (if si_asks i then SpQuestion else SpRequest)"

definition mentions_agent :: "addressee list \<Rightarrow> bool" where
  "mentions_agent as = list_ex (\<lambda>a. ad_kind a = MentionAgent) as"

definition parent_of :: "speech_input \<Rightarrow> addressee option" where
  "parent_of i = author_as_addressee (si_parent_type i) (si_parent_author i) (si_parent_name i)"

text \<open>What an agent says after a report made to it.\<close>

definition after_report :: "speech_input \<Rightarrow> addressee list \<Rightarrow> addressee list \<Rightarrow> speech_out" where
  "after_report i mentioned base =
     (if mentions_agent mentioned then said (agent_ask i) mentioned
      else
        let up = (if si_up i = None then None else author_as_addressee (si_up_type i) (si_up_author i) (si_up_name i));
            people = append_all (filter (\<lambda>a. ad_kind a \<noteq> MentionAll) mentioned) []
        in if people \<noteq> [] then
             (said SpReport people)\<lparr>so_responds_to :=
                (case up of None \<Rightarrow> None | Some u \<Rightarrow> if has_addr people u then si_up i else None)\<rparr>
           else case up of
                  Some u \<Rightarrow> if mentioned = [] then (said SpReport [u])\<lparr>so_responds_to := si_up i\<rparr> else said SpChat base
                | None \<Rightarrow> said SpChat base)"

definition delegation :: "speech_input \<Rightarrow> addressee list \<Rightarrow> speech_out option" where
  "delegation i mentioned =
     (case (si_deleg_lane i, si_deleg_target i) of
        (Some lane, Some target) \<Rightarrow>
          let to = agent_addr (Some target) (si_deleg_name i);
              to = fold (\<lambda>a to. if same_addr a to \<and> ad_name a \<noteq> [] then to\<lparr>ad_name := ad_name a\<rparr> else to) mentioned to
          in Some ((said SpDelegate [to])\<lparr>so_lane := Some lane\<rparr>)
      | _ \<Rightarrow> None)"

text \<open>The answer to the message that woke the turn, when its author is addressed (or nobody is).\<close>

definition own_report :: "speech_input \<Rightarrow> addressee list \<Rightarrow> speech_out option" where
  "own_report i base =
     (let requester = author_as_addressee (si_trig_type i) (si_trig_author i) (si_trig_name i) in
      case (si_trigger i, requester) of
        (Some trig, Some r) \<Rightarrow>
          if (si_author i = None \<or> ad_id r \<noteq> si_author i) \<and> (base = [] \<or> has_addr base r)
          then Some ((said SpReport [r])\<lparr>so_responds_to := Some trig\<rparr>) else None
      | _ \<Rightarrow> None)"

definition plain_speech :: "speech_input \<Rightarrow> addressee list \<Rightarrow> addressee list \<Rightarrow> speech_out" where
  "plain_speech i mentioned base =
     (if mentions_agent mentioned
      then (if si_author_type i = ByUser then said SpInstruct mentioned else said (agent_ask i) mentioned)
      else said SpChat base)"

definition agent_speech :: "speech_input \<Rightarrow> addressee list \<Rightarrow> addressee list \<Rightarrow> speech_out" where
  "agent_speech i mentioned base =
     (case si_report_to i of
        Some to \<Rightarrow> (said SpReport [to])\<lparr>so_responds_to := si_card_responds i\<rparr>
      | None \<Rightarrow>
          (case (case si_asker i of
                   None \<Rightarrow> None
                 | Some a \<Rightarrow> if \<not> si_asks i \<and> (base = [] \<or> has_addr base a) then Some a else None) of
             Some a \<Rightarrow> said SpAnswer (append_all mentioned [a])
           | None \<Rightarrow>
               (case delegation i mentioned of
                  Some out \<Rightarrow> out
                | None \<Rightarrow>
                    if woken_by_report_to i then after_report i mentioned base
                    else (case own_report i base of Some out \<Rightarrow> out | None \<Rightarrow> plain_speech i mentioned base))))"

definition thread_answer :: "speech_input \<Rightarrow> addressee list \<Rightarrow> speech_out" where
  "thread_answer i mentioned =
     said SpAnswer (append_all mentioned (if somebody_else i (parent_of i) then [the (parent_of i)] else []))"

definition question_card :: "speech_input \<Rightarrow> addressee list \<Rightarrow> speech_out" where
  "question_card i mentioned =
     (case si_waiting i of
        None \<Rightarrow> said SpQuestion mentioned
      | Some w \<Rightarrow> if mentioned = [] \<and> ad_name w \<noteq> [] then said SpQuestion [w] else said SpQuestion mentioned)"

definition spoken :: "speech_input \<Rightarrow> addressee list \<Rightarrow> speech_out" where
  "spoken i mentioned =
     (if si_parent_kind i = ''blocked_q'' \<and> \<not> si_asks i then thread_answer i mentioned
      else if speech_note (si_content i) then said SpNote []
      else
        let base = (if mentioned = [] \<and> somebody_else i (parent_of i) then [the (parent_of i)] else mentioned)
        in if si_author_type i = ByAgent then agent_speech i mentioned base else plain_speech i mentioned base)"

definition classify :: "(string \<Rightarrow> uuid option) \<Rightarrow> speech_input \<Rightarrow> speech_out" where
  "classify pu i =
     (if si_kind i = ''system'' then said SpSystem []
      else if si_kind i = ''hitl'' then said SpHitl []
      else if si_kind i = ''blocked_q'' then question_card i (mention_addressees pu i)
      else if si_kind i = ''summary'' then said SpSummary []
      else spoken i (mention_addressees pu i))"

section \<open>Store\<close>

record store_opts =
  sx_lane :: "uuid option"
  sx_target :: "uuid option"
  sx_target_name :: string
  sx_asks :: bool
  sx_asker :: "addressee option"
  sx_report_to :: "addressee option"
  sx_responds :: "uuid option"

definition no_opts :: store_opts where
  "no_opts = \<lparr>sx_lane = None, sx_target = None, sx_target_name = [], sx_asks = False, sx_asker = None,
     sx_report_to = None, sx_responds = None\<rparr>"

definition get_message :: "uuid \<Rightarrow> db \<Rightarrow> message_row option" where
  "get_message i db = tbl_get ms_id (db_messages db) i"

definition user_name :: "uuid \<Rightarrow> db \<Rightarrow> string" where
  "user_name u db = (case tbl_get au_id (db_users db) u of None \<Rightarrow> [] | Some r \<Rightarrow> au_name r)"

text \<open>\<open>COALESCE(u.display_name, a.name, '')\<close>\<close>

definition author_name :: "author_type \<Rightarrow> uuid option \<Rightarrow> db \<Rightarrow> string" where
  "author_name ty a db =
     (case a of None \<Rightarrow> [] | Some i \<Rightarrow> if ty = ByUser then user_name i db else if ty = ByAgent then agent_name i db else [])"

definition question_task :: "uuid option \<Rightarrow> db \<Rightarrow> task_row option" where
  "question_task src db =
     (case src of None \<Rightarrow> None
      | Some i \<Rightarrow> (case get_task i db of None \<Rightarrow> None | Some t \<Rightarrow> if tk_kind t = KindQuestion then Some t else None))"

text \<open>
  What a message answers: the message a report names, or the question an answer's turn was woken by.
\<close>

definition answered_message :: "message_row \<Rightarrow> db \<Rightarrow> uuid option" where
  "answered_message c db =
     (case ms_responds_to c of
        Some r \<Rightarrow> Some r
      | None \<Rightarrow> if ms_speech c = Some SpAnswer
                then (case question_task (ms_source_task c) db of None \<Rightarrow> None | Some t \<Rightarrow> tk_trigger t) else None)"

definition get_message_opt :: "uuid option \<Rightarrow> db \<Rightarrow> message_row option" where
  "get_message_opt i db = (case i of None \<Rightarrow> None | Some m \<Rightarrow> get_message m db)"

definition get_task_opt :: "uuid option \<Rightarrow> db \<Rightarrow> task_row option" where
  "get_task_opt i db = (case i of None \<Rightarrow> None | Some t \<Rightarrow> get_task t db)"

text \<open>One row of the climb: the message that woke the turn which wrote what \<open>cur\<close> answers.\<close>

definition upstream_row :: "uuid \<Rightarrow> db \<Rightarrow> message_row option" where
  "upstream_row cur db =
     (case get_message cur db of None \<Rightarrow> None
      | Some c \<Rightarrow>
          (case get_message_opt (answered_message c db) db of None \<Rightarrow> None
           | Some r \<Rightarrow>
               if ms_author r \<noteq> ByAgent then None
               else (case get_task_opt (ms_source_task r) db of None \<Rightarrow> None
                     | Some t \<Rightarrow> get_message_opt (tk_trigger t) db)))"

fun walk_upstream :: "nat \<Rightarrow> uuid \<Rightarrow> uuid option \<Rightarrow> db \<Rightarrow> message_row option" where
  "walk_upstream 0 cur author db = None"
| "walk_upstream (Suc n) cur author db =
     (case upstream_row cur db of None \<Rightarrow> None
      | Some u \<Rightarrow>
          if ms_author u = BySystem \<or> ms_author_id u = None \<or> ms_author_id u = author then None
          else if ms_speech u = Some SpReport \<or> ms_speech u = Some SpAnswer then walk_upstream n (ms_id u) author db
          else Some u)"

definition blank_premises :: "message_row \<Rightarrow> store_opts \<Rightarrow> speech_input" where
  "blank_premises m o' =
     \<lparr>si_kind = ms_kind m, si_author_type = ms_author m, si_author = ms_author_id m, si_mentions = ms_mentions m,
      si_content = ms_content m, si_parent_kind = [], si_parent_type = BySystem, si_parent_author = None,
      si_parent_name = [], si_waiting = None, si_deleg_lane = sx_lane o', si_deleg_target = sx_target o',
      si_deleg_name = sx_target_name o', si_trigger = None, si_trig_type = BySystem, si_trig_author = None,
      si_trig_name = [], si_trig_speech = None, si_trig_addressees = [], si_up = None, si_up_type = BySystem,
      si_up_author = None, si_up_name = [], si_asks = sx_asks o', si_asker = sx_asker o',
      si_report_to = sx_report_to o', si_card_responds = sx_responds o'\<rparr>"

definition with_parent :: "message_row \<Rightarrow> db \<Rightarrow> speech_input \<Rightarrow> speech_input" where
  "with_parent m db i =
     (case get_message_opt (ms_parent m) db of None \<Rightarrow> i
      | Some p \<Rightarrow> i\<lparr>si_parent_kind := ms_kind p, si_parent_type := ms_author p, si_parent_author := ms_author_id p,
                  si_parent_name := author_name (ms_author p) (ms_author_id p) db\<rparr>)"

text \<open>Whom a lane waits for: its delegator, or the person who started the chain.\<close>

definition waiting_for :: "uuid option \<Rightarrow> db \<Rightarrow> addressee option" where
  "waiting_for src db =
     (case get_task_opt src db of None \<Rightarrow> None
      | Some t \<Rightarrow>
          (case get_lane (tk_lane t) db of None \<Rightarrow> None
           | Some l \<Rightarrow>
               (case get_task_opt (ln_delegated_from l) db of
                  Some d \<Rightarrow> Some (agent_addr (Some (tk_agent d)) (agent_name (tk_agent d) db))
                | None \<Rightarrow> (case tk_originator t of None \<Rightarrow> None
                           | Some u \<Rightarrow> Some \<lparr>ad_kind = MentionUser, ad_id = Some u, ad_name = user_name u db\<rparr>))))"

definition with_waiting :: "message_row \<Rightarrow> db \<Rightarrow> speech_input \<Rightarrow> speech_input" where
  "with_waiting m db i =
     (if ms_kind m = ''blocked_q'' \<and> ms_mentions m = [] then i\<lparr>si_waiting := waiting_for (ms_source_task m) db\<rparr> else i)"

definition with_upstream :: "db \<Rightarrow> speech_input \<Rightarrow> speech_input" where
  "with_upstream db i =
     (if \<not> woken_by_report_to i then i
      else case walk_upstream upstream_max_steps (the (si_trigger i)) (si_author i) db of
             None \<Rightarrow> i
           | Some u \<Rightarrow> i\<lparr>si_up := Some (ms_id u), si_up_type := ms_author u, si_up_author := ms_author_id u,
                       si_up_name := author_name (ms_author u) (ms_author_id u) db\<rparr>)"

definition with_trigger :: "message_row \<Rightarrow> store_opts \<Rightarrow> db \<Rightarrow> speech_input \<Rightarrow> speech_input" where
  "with_trigger m o' db i =
     (if sx_lane o' \<noteq> None then i
      else case get_task_opt (ms_source_task m) db of None \<Rightarrow> i
      | Some t \<Rightarrow>
          (case get_message_opt (tk_trigger t) db of None \<Rightarrow> i
           | Some tm \<Rightarrow> with_upstream db (i\<lparr>si_trigger := Some (ms_id tm), si_trig_type := ms_author tm,
                 si_trig_author := ms_author_id tm, si_trig_name := author_name (ms_author tm) (ms_author_id tm) db,
                 si_trig_speech := ms_speech tm, si_trig_addressees := ms_addressees tm\<rparr>)))"

definition speech_premises :: "message_row \<Rightarrow> store_opts \<Rightarrow> db \<Rightarrow> speech_input" where
  "speech_premises m o' db = with_trigger m o' db (with_waiting m db (with_parent m db (blank_premises m o')))"

text \<open>
  The CHECK constraints \<open>message_responds_to_shape\<close> and \<open>message_delegated_lane_shape\<close>. The foreign keys of
  the two columns are not modelled: the message and the lane the callers name are rows they have read or written.
\<close>

definition speech_check :: "speech_out \<Rightarrow> bool" where
  "speech_check out \<longleftrightarrow> (so_responds_to out \<noteq> None \<longrightarrow> so_speech out = SpReport)
     \<and> (so_lane out \<noteq> None \<longrightarrow> so_speech out = SpDelegate)"

definition set_speech :: "speech_out \<Rightarrow> message_row \<Rightarrow> message_row" where
  "set_speech out m = m\<lparr>ms_speech := Some (so_speech out), ms_addressees := so_addressees out,
     ms_responds_to := so_responds_to out, ms_delegated_lane := so_lane out\<rparr>"

definition store_speech :: "(string \<Rightarrow> uuid option) \<Rightarrow> uuid \<Rightarrow> store_opts \<Rightarrow> db \<Rightarrow> db_error + db" where
  "store_speech pu msg o' db =
     (case get_message msg db of None \<Rightarrow> Inl ErrNotFound
      | Some m \<Rightarrow>
          let out = classify pu (speech_premises m o' db) in
          if speech_check out then Inr (update_message msg (set_speech out) db) else Inl DbCheck)"

section \<open>The table keeps the row's constraints\<close>

lemma said_simps [simp]:
  "so_speech (said sp as) = sp" "so_addressees (said sp as) = as" "so_responds_to (said sp as) = None"
  "so_lane (said sp as) = None"
  by (simp_all add: said_def)

lemma speech_check_said [simp]: "speech_check (said sp as)"
  by (simp add: speech_check_def)

lemma speech_check_report [simp]: "speech_check ((said SpReport as)\<lparr>so_responds_to := r\<rparr>)"
  by (simp add: speech_check_def)

lemma speech_check_parts:
  "speech_check (after_report i ms base)" "speech_check (plain_speech i ms base)"
  "delegation i ms = Some out \<Longrightarrow> speech_check out" "own_report i base = Some out \<Longrightarrow> speech_check out"
  by (auto simp: after_report_def plain_speech_def delegation_def own_report_def Let_def speech_check_def
      split: if_splits option.splits)

lemma speech_check_agent: "speech_check (agent_speech i ms base)"
  by (auto simp: agent_speech_def speech_check_parts split: option.splits)

lemma classify_shape: "speech_check (classify pu i)"
  by (auto simp: classify_def question_card_def spoken_def thread_answer_def Let_def speech_check_agent
      speech_check_parts split: option.splits)

section \<open>Whom a report answers\<close>

lemma walk_upstream_found:
  "walk_upstream n cur a db = Some u \<Longrightarrow>
     get_message (ms_id u) db = Some u \<and> ms_speech u \<noteq> Some SpReport \<and> ms_speech u \<noteq> Some SpAnswer"
proof (induction n cur a db rule: walk_upstream.induct)
  case (2 n cur a db)
  have "upstream_row cur db = Some v \<Longrightarrow> get_message (ms_id v) db = Some v" for v
    using tbl_get_Some_key [of ms_id "db_messages db"]
    by (auto simp: upstream_row_def get_message_opt_def get_message_def split: option.splits if_splits)
  with 2 show ?case by (auto split: option.splits if_splits)
qed simp

lemma responds_to_parts:
  "so_responds_to (after_report i ms base) = Some r \<Longrightarrow> si_up i = Some r"
  "own_report i base = Some out \<Longrightarrow> so_responds_to out = si_trigger i"
  "delegation i ms = Some out \<Longrightarrow> so_responds_to out = None"
  "so_responds_to (plain_speech i ms base) = None"
  by (auto simp: after_report_def own_report_def delegation_def plain_speech_def Let_def split: option.splits if_splits)

lemma responds_to_agent:
  assumes "so_responds_to (agent_speech i ms base) = Some r" and "si_report_to i = None"
  shows "if woken_by_report_to i then si_up i = Some r else si_trigger i = Some r"
  using assms responds_to_parts(1) [of i ms base r] responds_to_parts(2,3)
  by (auto simp: agent_speech_def responds_to_parts(4) split: option.splits if_splits)

lemma responds_to_split:
  assumes "so_responds_to (classify pu i) = Some r" and "si_report_to i = None"
  shows "if woken_by_report_to i then si_up i = Some r else si_trigger i = Some r"
proof -
  obtain ms base where "so_responds_to (agent_speech i ms base) = Some r"
    using assms(1)
    by (auto simp: classify_def question_card_def spoken_def thread_answer_def Let_def responds_to_parts(4)
        split: option.splits if_splits)
  then show ?thesis using assms(2) by (rule responds_to_agent)
qed

lemma responds_to_named:
  assumes "so_responds_to (classify pu i) = Some r" and "si_report_to i = Some to"
  shows "si_card_responds i = Some r"
  using assms
  by (auto simp: classify_def question_card_def spoken_def thread_answer_def agent_speech_def Let_def
      responds_to_parts(4) split: option.splits if_splits)

definition report_made_to :: "uuid \<Rightarrow> message_row \<Rightarrow> bool" where
  "report_made_to a q \<longleftrightarrow> (ms_speech q = Some SpReport \<or> ms_speech q = Some SpAnswer)
     \<and> has_addr (ms_addressees q) (agent_addr (Some a) [])"

lemma premises_plain [simp]:
  "si_report_to (with_trigger m o' db i) = si_report_to i" "si_author (with_trigger m o' db i) = si_author i"
  "si_report_to (with_waiting m db i) = si_report_to i" "si_author (with_waiting m db i) = si_author i"
  "si_trigger (with_waiting m db i) = si_trigger i" "si_up (with_waiting m db i) = si_up i"
  "si_report_to (with_parent m db i) = si_report_to i" "si_author (with_parent m db i) = si_author i"
  "si_trigger (with_parent m db i) = si_trigger i" "si_up (with_parent m db i) = si_up i"
  "si_card_responds (with_trigger m o' db i) = si_card_responds i" "si_card_responds (with_waiting m db i) = si_card_responds i"
  "si_card_responds (with_parent m db i) = si_card_responds i"
  by (simp_all add: with_trigger_def with_upstream_def with_waiting_def with_parent_def split: option.split)

lemma trigger_premise:
  assumes "si_trigger i = None" and "si_up i = None" and "si_author i = Some a"
    and j: "j = with_trigger m o' db i"
  shows "si_trigger j = Some r \<Longrightarrow> \<not> woken_by_report_to j \<Longrightarrow>
      (case get_message r db of None \<Rightarrow> False | Some q \<Rightarrow> \<not> report_made_to a q)"
    and "si_up j = Some r \<Longrightarrow> (case get_message r db of None \<Rightarrow> False | Some q \<Rightarrow> \<not> report_made_to a q)"
proof -
  have id: "get_message_opt x db = Some v \<Longrightarrow> get_message (ms_id v) db = Some v" for x v
    using tbl_get_Some_key [of ms_id "db_messages db"]
    by (auto simp: get_message_opt_def get_message_def split: option.splits)
  show "si_trigger j = Some r \<Longrightarrow> \<not> woken_by_report_to j \<Longrightarrow>
      (case get_message r db of None \<Rightarrow> False | Some q \<Rightarrow> \<not> report_made_to a q)"
    using assms id
    by (auto simp: with_trigger_def with_upstream_def woken_by_report_to_def report_made_to_def
        split: option.splits if_splits)
  show "si_up j = Some r \<Longrightarrow> (case get_message r db of None \<Rightarrow> False | Some q \<Rightarrow> \<not> report_made_to a q)"
    using assms(1,2) walk_upstream_found [of _ _ _ db]
    by (auto simp: j with_trigger_def with_upstream_def report_made_to_def split: option.splits if_splits)
qed

text \<open>
  The filing of a result card names itself what its report answers: the bubble the card's version was
  handed over with. Such a bubble is stored with the lane and the target of the delegation, in the
  main stream, and is never a report or an answer, whoever wrote it.
\<close>

lemma bubble_is_no_report:
  assumes "get_message msg db = Some m" and "ms_kind m = ''text''" and "ms_parent m = None"
    and "store_speech pu msg (no_opts\<lparr>sx_lane := Some lane, sx_target := Some target, sx_target_name := nm\<rparr>) db = Inr db'"
  obtains q where "get_message msg db' = Some q" "ms_speech q \<noteq> Some SpReport" "ms_speech q \<noteq> Some SpAnswer"
proof -
  let ?o = "no_opts\<lparr>sx_lane := Some lane, sx_target := Some target, sx_target_name := nm\<rparr>"
  let ?i = "speech_premises m ?o db"
  have i: "si_kind ?i = ''text''" "si_parent_kind ?i = []" "si_parent_author ?i = None" "si_report_to ?i = None"
      "si_asker ?i = None" "si_deleg_lane ?i = Some lane" "si_deleg_target ?i = Some target"
    using assms(2,3)
    by (simp_all add: speech_premises_def with_trigger_def with_waiting_def with_parent_def blank_premises_def
        get_message_opt_def no_opts_def)
  then have "so_speech (classify pu ?i) \<noteq> SpReport \<and> so_speech (classify pu ?i) \<noteq> SpAnswer"
    by (auto simp: classify_def spoken_def agent_speech_def plain_speech_def delegation_def agent_ask_def Let_def
        split: option.split)
  moreover have "get_message msg db' = Some (set_speech (classify pu ?i) m)"
    using assms(1,4)
    by (auto simp: store_speech_def Let_def get_message_def update_message_def tbl_get_modify set_speech_def split: if_splits)
  ultimately show thesis using that by (simp add: set_speech_def)
qed

text \<open>The message a caller names as the one its report answers, if it names one, is no report and no answer.\<close>

definition names_no_report :: "store_opts \<Rightarrow> db \<Rightarrow> bool" where
  "names_no_report o' db =
     (case (sx_report_to o', sx_responds o') of
        (Some to, Some r) \<Rightarrow>
          (case get_message r db of None \<Rightarrow> False | Some q \<Rightarrow> ms_speech q \<noteq> Some SpReport \<and> ms_speech q \<noteq> Some SpAnswer)
      | _ \<Rightarrow> True)"

text \<open>
  C36 A message never answers a report that was made to its author: whatever message the stored speech
  points at exists and is neither a report nor an answer addressed to the author (FR-3.1.3), so reports
  do not bounce between two agents. Only the filing of a result card names itself the message its
  report answers, and it names the bubble that handed the card over: for a caller that names a message,
  the message must be there and be neither a report nor an answer, which every such bubble is by
  \<open>bubble_is_no_report\<close>. All other callers name none.
\<close>

theorem report_answers_a_request:
  assumes "store_speech pu msg o' db = Inr db'" and "get_message msg db = Some m" and "ms_author_id m = Some a"
    and "names_no_report o' db"
  shows "case get_message msg db' of None \<Rightarrow> False | Some m' \<Rightarrow>
     (case ms_responds_to m' of None \<Rightarrow> True | Some r \<Rightarrow>
        (case get_message r db of None \<Rightarrow> False | Some q \<Rightarrow> \<not> report_made_to a q))"
proof -
  let ?i = "speech_premises m o' db" and ?j = "with_waiting m db (with_parent m db (blank_premises m o'))"
  have db': "db' = update_message msg (set_speech (classify pu ?i)) db"
    using assms(1,2) by (auto simp: store_speech_def Let_def split: if_splits)
  have got: "get_message msg db' = Some (set_speech (classify pu ?i) m)"
    using assms(2) by (simp add: db' get_message_def update_message_def tbl_get_modify set_speech_def)
  have none: "si_trigger ?j = None" "si_up ?j = None" "si_author ?j = Some a"
    and card: "si_report_to ?i = sx_report_to o'" "si_card_responds ?i = sx_responds o'"
    using assms(3) by (simp_all add: blank_premises_def speech_premises_def)
  have "case get_message r db of None \<Rightarrow> False | Some q \<Rightarrow> \<not> report_made_to a q"
    if r: "so_responds_to (classify pu ?i) = Some r" for r
  proof (cases "sx_report_to o'")
    case None
    then show ?thesis
      using responds_to_split [OF r] trigger_premise [OF none refl, of m o' db r] card
      by (auto simp: speech_premises_def split: if_splits)
  next
    case (Some to)
    then have "sx_responds o' = Some r" using responds_to_named [OF r] card by simp
    with Some assms(4) show ?thesis by (auto simp: names_no_report_def report_made_to_def split: option.splits)
  qed
  with got show ?thesis by (auto simp: set_speech_def split: option.split)
qed

lemma store_speech_ok:
  "get_message msg db = Some m \<Longrightarrow>
     store_speech pu msg o' db = Inr (update_message msg (set_speech (classify pu (speech_premises m o' db))) db)"
  by (simp add: store_speech_def Let_def classify_shape)

text \<open>
  C37 The speech of a message is well typed: storing it fails only for a message that does not exist, never
  on a constraint of the table, and the stored row has a kind of speech, points at an earlier message
  only as a report and at a lane only as a delegation.
\<close>

theorem stored_speech_typed:
  "case store_speech pu msg o' db of
     Inl e \<Rightarrow> e = ErrNotFound \<and> get_message msg db = None
   | Inr db' \<Rightarrow>
       (case get_message msg db' of None \<Rightarrow> False
        | Some m \<Rightarrow> ms_speech m \<noteq> None \<and> (ms_responds_to m = None \<or> ms_speech m = Some SpReport)
            \<and> (ms_delegated_lane m = None \<or> ms_speech m = Some SpDelegate))"
proof (cases "get_message msg db")
  case (Some m)
  let ?out = "classify pu (speech_premises m o' db)"
  have "get_message msg (update_message msg (set_speech ?out) db) = Some (set_speech ?out m)"
    using Some by (simp add: get_message_def update_message_def tbl_get_modify set_speech_def)
  then show ?thesis
    using Some classify_shape [of pu "speech_premises m o' db"]
    by (auto simp: store_speech_ok set_speech_def speech_check_def)
qed (simp add: store_speech_def)

lemma store_speech_Inr:
  assumes "store_speech pu msg o' db = Inr db'"
  shows "\<exists>out. db' = update_message msg (set_speech out) db"
  using assms by (auto simp: store_speech_def Let_def split: option.splits if_splits)

text \<open>
  The two tests for a note differ: a text that only begins with the letters of the command is a note
  for its readers although it is routed, and one with a blank before the command is routed as a note
  although its readers see a plain message.
\<close>

lemma note_tests_differ:
  "speech_note ''/notes for you'' \<and> \<not> is_note ''/notes for you''"
  "is_note '' /note mine'' \<and> \<not> speech_note '' /note mine''"
  by (simp_all add: speech_note_def is_note_def has_prefix_def is_trim_space_def)

end
