(* ===== verification/Post_Lanes.thy ===== *)
theory Post_Lanes
  imports Message_Speech Room_Gate
begin

text \<open>
  How a trigger reaches a lane and a task, the shared steps of \<open>server/internal/router\<close>:
  \<open>route_helpers.go\<close>, \<open>resolveLaneFor\<close> of \<open>service.go\<close> (PRD FR-3.3, lane rules 1 to 4),
  \<open>bindLaneWork\<close> of \<open>work.go\<close>, the rule for questions of \<open>question.go\<close>, the loop limits as the
  workspace sets them and what tripping one does to the room (FR-3.5). A foreign key the statements can
  violate, the profile of a lane or a task, is checked. The frames sent to the screens are left out.
\<close>

section \<open>Participants\<close>

definition live_agents :: "uuid \<Rightarrow> db \<Rightarrow> participant_row list" where
  "live_agents room db =
     sort_key pr_joined (filter (\<lambda>p. pr_room p = room \<and> pr_agent p \<noteq> None \<and> pr_left p = None) (db_participants db))"

definition agent_disabled :: "uuid \<Rightarrow> db \<Rightarrow> bool" where
  "agent_disabled a db = (case tbl_get ag_id (db_agents db) a of None \<Rightarrow> False | Some r \<Rightarrow> ag_disabled r)"

definition load_participants :: "uuid \<Rightarrow> db \<Rightarrow> participant list" where
  "load_participants room db =
     map (\<lambda>p. \<lparr>p_agent = the (pr_agent p), p_name = agent_name (the (pr_agent p)) db,
               p_disabled = agent_disabled (the (pr_agent p)) db\<rparr>) (live_agents room db)"

text \<open>\<open>profiles[agent]\<close>: the zero id for an agent that is not in the room.\<close>

definition profile_of :: "uuid \<Rightarrow> uuid \<Rightarrow> db \<Rightarrow> uuid" where
  "profile_of room a db =
     (case find (\<lambda>p. pr_agent p = Some a) (rev (live_agents room db)) of
        None \<Rightarrow> uuid_nil
      | Some p \<Rightarrow> (case pr_profile p of None \<Rightarrow> uuid_nil | Some f \<Rightarrow> f))"

definition profile_exists :: "uuid \<Rightarrow> db \<Rightarrow> bool" where
  "profile_exists f db \<longleftrightarrow> tbl_get pf_id (db_profiles db) f \<noteq> None"

section \<open>Lanes\<close>

record lane_opts =
  lo_root :: uuid
  lo_top :: bool
  lo_force :: bool
  lo_work :: "uuid option"
  lo_pinned :: bool
  lo_question :: bool

definition lane_candidate :: "lane_row \<Rightarrow> candidate" where
  "lane_candidate l = \<lparr>cand_id = ln_id l, cand_agent = ln_agent l, cand_status = ln_status l,
     cand_reentry_count = ln_reentry l, cand_last_used = max (ln_created_at l) (ln_updated_at l)\<rparr>"

text \<open>The agent's lanes of the mission, the unbound ones, and the lane named outright.\<close>

definition may_land :: "uuid \<Rightarrow> uuid \<Rightarrow> lane_opts \<Rightarrow> lane_row \<Rightarrow> bool" where
  "may_land room a opts l \<longleftrightarrow> ln_room l = room \<and> ln_agent l = a
     \<and> (ln_work l = None \<or> ln_work l = lo_work opts \<or> (lo_pinned opts \<and> ln_id l = lo_root opts))"

definition lane_candidates :: "uuid \<Rightarrow> uuid \<Rightarrow> lane_opts \<Rightarrow> db \<Rightarrow> candidate list" where
  "lane_candidates room a opts db =
     map lane_candidate (sort_key ln_created_at (filter (may_land room a opts) (db_lanes db)))"

definition lane_request_of :: "uuid \<Rightarrow> uuid \<Rightarrow> lane_opts \<Rightarrow> db \<Rightarrow> lane_request" where
  "lane_request_of room a opts db = \<lparr>lr_agent = a, lr_existing = lane_candidates room a opts db,
     lr_thread_root_lane = lo_root opts, lr_via_delegate = False, lr_delegator_task = uuid_nil,
     lr_top_level_mention = lo_top opts, lr_force_new_lane = lo_force opts\<rparr>"

definition reenter_lane :: "uuid \<Rightarrow> time \<Rightarrow> db \<Rightarrow> db" where
  "reenter_lane lane now db =
     update_lane lane (\<lambda>_. True)
       (\<lambda>l. l\<lparr>ln_status := LaneQueued, ln_reentry := ln_reentry l + 1, ln_finished_at := None, ln_updated_at := now\<rparr>) db"

definition new_lane :: "uuid \<Rightarrow> uuid \<Rightarrow> uuid \<Rightarrow> uuid list \<Rightarrow> uuid option \<Rightarrow> uuid option \<Rightarrow> time \<Rightarrow> uuid \<Rightarrow> lane_row" where
  "new_lane room a profile deps deleg work now i =
     \<lparr>ln_id = i, ln_room = room, ln_agent = a, ln_profile = profile, ln_status = LaneQueued, ln_finished_at = None,
      ln_updated_at = now, ln_session_ref = None, ln_anchor = None, ln_work = work, ln_workdir = None, ln_depends_on = deps,
      ln_reentry = 0, ln_created_at = now, ln_delegated_from = deleg, ln_blocked_note = None, ln_blocked_message = None\<rparr>"

definition insert_lane ::
    "uuid \<Rightarrow> uuid \<Rightarrow> uuid \<Rightarrow> uuid list \<Rightarrow> uuid option \<Rightarrow> uuid option \<Rightarrow> time \<Rightarrow> db \<Rightarrow> db_error + uuid \<times> db" where
  "insert_lane room a profile deps deleg work now db =
     (if \<not> profile_exists profile db then Inl DbForeignKey
      else Inr (db_next db,
        db\<lparr>db_lanes := db_lanes db @ [new_lane room a profile deps deleg work now (db_next db)], db_next := db_next db + 1\<rparr>))"

definition resolve_lane_for :: "uuid \<Rightarrow> uuid \<Rightarrow> uuid \<Rightarrow> lane_opts \<Rightarrow> time \<Rightarrow> db \<Rightarrow> db_error + uuid \<times> db" where
  "resolve_lane_for room a profile opts now db =
     (let d = resolve (lane_request_of room a opts db) in
      if \<not> ld_created d then
        Inr (ld_lane d, if ld_reentry d \<and> \<not> lo_question opts then reenter_lane (ld_lane d) now db else db)
      else insert_lane room a profile []
             (if ld_delegated_from d = uuid_nil then None else Some (ld_delegated_from d)) None now db)"

text \<open>A lane belongs to at most one mission: the first one a trigger reaches it for.\<close>

definition bind_lane_work :: "uuid \<Rightarrow> uuid option \<Rightarrow> db \<Rightarrow> db_error + uuid option \<times> db" where
  "bind_lane_work lane work db =
     (case get_lane lane db of
        None \<Rightarrow> Inl DbMissingRow
      | Some l \<Rightarrow>
          let w = (case ln_work l of None \<Rightarrow> work | Some v \<Rightarrow> Some v)
          in Inr (w, update_lane lane (\<lambda>_. True) (\<lambda>l. l\<lparr>ln_work := w\<rparr>) db))"

section \<open>Tasks\<close>

definition queued_on :: "uuid \<Rightarrow> task_row \<Rightarrow> bool" where
  "queued_on lane t \<longleftrightarrow> tk_lane t = lane \<and> tk_status t = Queued"

definition lock_queued_task :: "uuid \<Rightarrow> db \<Rightarrow> task_row option" where
  "lock_queued_task lane db =
     (case sort_key tk_created_at (filter (queued_on lane) (db_tasks db)) of [] \<Rightarrow> None | t # _ \<Rightarrow> Some t)"

definition card_of_lane :: "uuid \<Rightarrow> db \<Rightarrow> card_row option" where
  "card_of_lane lane db = find (\<lambda>c. cd_lane c = lane) (db_cards db)"

definition open_on_lane :: "uuid \<Rightarrow> db \<Rightarrow> uuid option" where
  "open_on_lane lane db =
     map_option cd_id (find (\<lambda>c. cd_lane c = lane \<and> cd_status c = InProgress) (db_cards db))"

record new_task =
  nt_lane :: uuid
  nt_room :: uuid
  nt_agent :: uuid
  nt_profile :: uuid
  nt_trigger :: uuid
  nt_delegated_from :: "uuid option"
  nt_originator :: "uuid option"
  nt_coalesced :: "uuid list"
  nt_work :: "uuid option"
  nt_now :: time
  nt_kind :: "task_kind option"
  nt_card :: "uuid option"

definition fresh_task :: "new_task \<Rightarrow> task_kind \<Rightarrow> uuid option \<Rightarrow> uuid \<Rightarrow> task_row" where
  "fresh_task n kind card' i = \<lparr>tk_id = i, tk_lane = nt_lane n, tk_room = nt_room n, tk_runtime = None,
     tk_agent = nt_agent n, tk_profile = nt_profile n, tk_trigger = Some (nt_trigger n),
     tk_delegated_from = nt_delegated_from n, tk_originator = nt_originator n, tk_coalesced = nt_coalesced n,
     tk_attempt = 1, tk_max_attempts = 3, tk_pending_hitl = False, tk_budget_override = None, tk_status = Queued,
     tk_paused_reason = None, tk_paused_detail = None, tk_failure = None, tk_not_before = None, tk_stop_reason = None,
     tk_heartbeat_at = None, tk_created_at = nt_now n, tk_updated_at = nt_now n, tk_dispatched_at = None,
     tk_started_at = None, tk_finished_at = None, tk_work = nt_work n, tk_queued_reason = None, tk_kind = kind,
     tk_card = card', tk_trigger_reason = None, tk_restarted_from = None, tk_fallback_for = None,
     tk_join_fired = None, tk_result_cards = []\<rparr>"

definition insert_task_row :: "task_row \<Rightarrow> db \<Rightarrow> db_error + db" where
  "insert_task_row t db = (if \<not> profile_exists (tk_profile t) db then Inl DbForeignKey else insert_task t db)"

text \<open>Without a kind of its own a task takes the lane's: a card task while the lane's card is open.\<close>

definition lane_kind :: "new_task \<Rightarrow> db \<Rightarrow> task_kind \<times> uuid option" where
  "lane_kind n db =
     (case nt_kind n of
        Some k \<Rightarrow> (k, nt_card n)
      | None \<Rightarrow> (case open_on_lane (nt_lane n) db of None \<Rightarrow> (KindNormal, nt_card n) | Some c \<Rightarrow> (KindCard, Some c)))"

definition insert_queued_task :: "new_task \<Rightarrow> db \<Rightarrow> db_error + uuid \<times> db" where
  "insert_queued_task n db =
     (case lane_kind n db of (kind, card') \<Rightarrow>
        bindE (insert_task_row (fresh_task n kind card' (db_next db)) db) (\<lambda>db'.
          Inr (db_next db, db')))"

definition promote_queued :: "uuid \<Rightarrow> uuid \<Rightarrow> bool \<Rightarrow> db \<Rightarrow> db_error + db" where
  "promote_queued task lane question db =
     (if question then Inr db
      else case get_task task db of
             None \<Rightarrow> Inl DbMissingRow
           | Some t \<Rightarrow>
               if tk_kind t \<noteq> KindQuestion then Inr db
               else (case open_on_lane lane db of
                       Some c \<Rightarrow> update_task task (\<lambda>t. t\<lparr>tk_kind := KindCard, tk_card := Some c\<rparr>) db
                     | None \<Rightarrow> update_task task (\<lambda>t. t\<lparr>tk_kind := KindNormal\<rparr>) db))"

section \<open>The loop limits of a room\<close>

definition setting_or :: "(string \<times> int) list \<Rightarrow> string \<Rightarrow> int \<Rightarrow> int" where
  "setting_or m k d = (case map_of m k of None \<Rightarrow> d | Some v \<Rightarrow> v)"

definition loop_limits :: "uuid \<Rightarrow> db \<Rightarrow> limits" where
  "loop_limits ws db =
     (case tbl_get st_workspace (db_settings db) ws of
        None \<Rightarrow> default_limits
      | Some r \<Rightarrow>
          \<lparr>max_chain_depth_limit = setting_or (st_loop r) ''max_chain_depth'' (max_chain_depth_limit default_limits),
           max_hops_per_hour = setting_or (st_loop r) ''max_hops_per_hour'' (max_hops_per_hour default_limits),
           max_pair_roundtrips = setting_or (st_loop r) ''max_pair_roundtrips'' (max_pair_roundtrips default_limits),
           max_pair_window = setting_or (st_loop r) ''max_pair_roundtrips_window'' (max_pair_window default_limits),
           pair_window_duration =
             (case map_of (st_loop r) ''max_pair_roundtrips_window_minutes'' of
                None \<Rightarrow> pair_window_duration default_limits | Some v \<Rightarrow> v * minute)\<rparr>)"

definition hop_read_cap :: nat where "hop_read_cap = 5000"

definition judge_room_hop :: "uuid \<Rightarrow> uuid \<Rightarrow> hop \<Rightarrow> uuid \<Rightarrow> nat \<Rightarrow> time \<Rightarrow> db \<Rightarrow> loop_verdict \<times> db" where
  "judge_room_hop room ws next msg rule now db =
     (case judge_hop (loop_limits ws db) hop_read_cap room next msg rule now (db_hops db) of
        (v, hops) \<Rightarrow> (v, db\<lparr>db_hops := hops\<rparr>))"

text \<open>
  The hop that made a task: the latest one toward its agent for its trigger or a message it absorbed,
  as its id and its own cause (0 when there is none).
\<close>

definition made_by :: "task_row \<Rightarrow> hop_row \<Rightarrow> bool" where
  "made_by t h \<longleftrightarrow> hr_session h = tk_room t \<and> hr_to h = tk_agent t
     \<and> (case hr_message h of None \<Rightarrow> False | Some m \<Rightarrow> tk_trigger t = Some m \<or> List.member (tk_coalesced t) m)"

definition cause_of_task :: "uuid \<Rightarrow> db \<Rightarrow> int \<times> int" where
  "cause_of_task i db =
     (case get_task i db of
        None \<Rightarrow> (0, 0)
      | Some t \<Rightarrow>
          (case rev (sort_key hr_id (filter (made_by t) (ht_rows (db_hops db)))) of
             [] \<Rightarrow> (0, 0)
           | h # _ \<Rightarrow> (hr_id h, case hr_cause h of None \<Rightarrow> 0 | Some c \<Rightarrow> c)))"

definition file_room_card :: "uuid \<Rightarrow> string \<Rightarrow> time \<Rightarrow> db \<Rightarrow> db" where
  "file_room_card h ty now db =
     (if list_ex (\<lambda>b. ib_ref b = h \<and> ib_type b = ty \<and> ib_read_at b = None) (db_inbox db) then db
      else insert_inbox h ty now db)"

definition insert_loop_request :: "uuid \<Rightarrow> db \<Rightarrow> uuid \<times> db" where
  "insert_loop_request room db =
     (db_next db,
      db\<lparr>db_hitls := db_hitls db @ [\<lparr>hi_id = db_next db, hi_task = None, hi_purpose = ''loop'', hi_status = ''open'',
           hi_approved = None, hi_source = ''system'', hi_room = room, hi_work = None, hi_answered_at = None,
           hi_message = None, hi_spec = ''room_owner''\<rparr>],
         db_next := db_next db + 1\<rparr>)"

definition pause_for_loop :: "uuid \<Rightarrow> time \<Rightarrow> db \<Rightarrow> db_error + db" where
  "pause_for_loop room now db =
     (case get_room room db of
        None \<Rightarrow> Inl ErrNotFound
      | Some r \<Rightarrow>
          if rm_blocked r \<noteq> None then Inr db
          else bindE (block room reason_loop now db) (\<lambda>(_, db).
               case insert_loop_request room db of (h, db) \<Rightarrow>
                 pause_tasks (\<lambda>t. tk_room t = room) ''loop'' ''loop'' [] now
                   (file_room_card h ''room_paused'' now (attach_hitl_card room None h now db))))"

section \<open>Questions\<close>

record question_ctx =
  qc_from_agent :: bool
  qc_blocked_thread :: bool
  qc_asker :: "uuid option"
  qc_asker_name :: string
  qc_asks :: bool

definition no_question :: question_ctx where
  "no_question = \<lparr>qc_from_agent = False, qc_blocked_thread = False, qc_asker = None, qc_asker_name = [], qc_asks = False\<rparr>"

definition plan_question :: "bool \<Rightarrow> bool \<Rightarrow> nat \<Rightarrow> uuid option \<Rightarrow> uuid \<Rightarrow> bool" where
  "plan_question from_agent blocked_thread rule asker target \<longleftrightarrow>
     from_agent \<and> \<not> blocked_thread \<and> rule = 2 \<and> asker \<noteq> Some target"

definition makes_question :: "question_ctx \<Rightarrow> trigger \<Rightarrow> bool" where
  "makes_question q tr = plan_question (qc_from_agent q) (qc_blocked_thread q) (tr_rule tr) (qc_asker q) (tr_agent tr)"

definition asker_addr :: "question_ctx \<Rightarrow> addressee option" where
  "asker_addr q = map_option (\<lambda>a. agent_addr (Some a) (qc_asker_name q)) (qc_asker q)"

definition refine_asks :: "uuid list \<Rightarrow> question_ctx \<Rightarrow> question_ctx" where
  "refine_asks agents q =
     (if \<not> qc_asks q then q else if list_ex (\<lambda>i. qc_asker q \<noteq> Some i) agents then q else q\<lparr>qc_asks := False\<rparr>)"

end
