(* ===== verification/Message_Post.thy ===== *)
theory Message_Post
  imports Post_Lanes
begin

text \<open>
  Posting a message, \<open>postRow\<close>, \<open>routeTrigger\<close> and what they call in \<open>server/internal/router\<close>
  (\<open>service.go\<close>, \<open>work.go\<close>, \<open>quiet.go\<close>, \<open>question.go\<close>): the premises, the mission the message belongs
  to, the row with its speech, the lanes and tasks its triggers reach, the held triggers of a mission
  that waits for its Director, the deferred assignee. A post is one transaction under the room's lock,
  so it is one function on the store. Attachments, the message's \<open>detail\<close> and the frames are left out.
\<close>

section \<open>What is posted\<close>

record post_author =
  pa_type :: author_type
  pa_user :: "uuid option"
  pa_agent :: "uuid option"
  pa_task :: "uuid option"
  pa_attempt :: int

text \<open>The key \<open>work_id\<close> of the request: absent, null or a mission.\<close>

datatype work_choice = WorkAbsent | WorkNull | WorkIs uuid

record message_create =
  mc_content :: string
  mc_parent :: "uuid option"
  mc_work :: work_choice
  mc_suppress :: "uuid list"
  mc_new_lane :: bool

record part_row =
  pt_group :: uuid
  pt_index :: nat
  pt_size :: nat
  pt_to :: "mention list"

record platform_trigger =
  pl_agent :: uuid
  pl_lane :: uuid

section \<open>Premises\<close>

record thread =
  th_parent :: "uuid option"
  th_reply_to :: "uuid option"
  th_owner :: "uuid option"
  th_root_lane :: uuid
  th_root_agent :: uuid
  th_root_kind :: string

definition no_thread :: thread where
  "no_thread = \<lparr>th_parent = None, th_reply_to = None, th_owner = None, th_root_lane = uuid_nil,
     th_root_agent = uuid_nil, th_root_kind = []\<rparr>"

definition agent_author :: "message_row \<Rightarrow> uuid option" where
  "agent_author m = (if ms_author m = ByAgent then ms_author_id m else None)"

definition task_lane :: "uuid option \<Rightarrow> db \<Rightarrow> lane_row option" where
  "task_lane t db = (case get_task_opt t db of None \<Rightarrow> None | Some r \<Rightarrow> get_lane (tk_lane r) db)"

definition thread_premise :: "uuid \<Rightarrow> uuid option \<Rightarrow> db \<Rightarrow> db_error + thread" where
  "thread_premise room parent db =
     (case parent of None \<Rightarrow> Inr no_thread
      | Some pid \<Rightarrow>
          (case get_message pid db of None \<Rightarrow> Inl ErrParentNotFound
           | Some p \<Rightarrow>
               if ms_room p \<noteq> room then Inl ErrParentNotFound
               else let root = (case ms_parent p of None \<Rightarrow> pid | Some r \<Rightarrow> r) in
                    (case get_message root db of None \<Rightarrow> Inl DbMissingRow
                     | Some r \<Rightarrow>
                         let th = \<lparr>th_parent = Some root, th_reply_to = agent_author p, th_owner = agent_author r,
                                   th_root_lane = uuid_nil, th_root_agent = uuid_nil, th_root_kind = ms_kind r\<rparr>
                         in Inr (case task_lane (ms_source_task r) db of None \<Rightarrow> th
                                 | Some l \<Rightarrow> th\<lparr>th_root_lane := ln_id l, th_root_agent := ln_agent l\<rparr>))))"

text \<open>Lane rule 1's premise for one trigger: the root's lane, and whether it counts as a top-level mention.\<close>

definition lane_for :: "thread \<Rightarrow> trigger \<Rightarrow> uuid \<times> bool" where
  "lane_for th tr =
     (if th_parent th = None then (uuid_nil, tr_rule tr = 2)
      else if th_root_lane th = uuid_nil then (uuid_nil, False)
      else if th_root_agent th = tr_agent tr then (th_root_lane th, False)
      else (uuid_nil, tr_rule tr = 2 \<or> tr_rule tr = 5))"

definition delegator_premise :: "uuid option \<Rightarrow> db \<Rightarrow> uuid option \<times> bool" where
  "delegator_premise task db =
     (case task_lane task db of None \<Rightarrow> (None, False)
      | Some l \<Rightarrow>
          (case get_task_opt (ln_delegated_from l) db of None \<Rightarrow> (None, False)
           | Some d \<Rightarrow> (Some (tk_agent d), tk_join_fired d \<noteq> None)))"

definition closed_status :: "work_status \<Rightarrow> bool" where
  "closed_status s \<longleftrightarrow> s = WkCompleted \<or> s = WkCancelled"

definition legacy_session_work :: "message_create \<Rightarrow> uuid option \<Rightarrow> uuid option" where
  "legacy_session_work inp legacy = (if mc_work inp = WorkAbsent then legacy else None)"

definition room_work :: "uuid \<Rightarrow> uuid \<Rightarrow> db \<Rightarrow> work_row option" where
  "room_work room w db = (case get_work w db of None \<Rightarrow> None | Some r \<Rightarrow> if wk_room r = room then Some r else None)"

definition routing_assignee :: "uuid \<Rightarrow> message_create \<Rightarrow> uuid option \<Rightarrow> db \<Rightarrow> uuid option" where
  "routing_assignee room inp legacy db =
     (case (case mc_work inp of WorkIs w \<Rightarrow> Some w | _ \<Rightarrow> legacy_session_work inp legacy) of
        None \<Rightarrow> None
      | Some w \<Rightarrow> (case room_work room w db of None \<Rightarrow> None | Some r \<Rightarrow> wk_assignee r))"

section \<open>The mission of a message\<close>

datatype work_source = SrcChosen | SrcThread | SrcRunningLane | SrcNone

definition task_mission :: "uuid \<Rightarrow> db \<Rightarrow> uuid option" where
  "task_mission i db =
     (case get_task i db of None \<Rightarrow> None
      | Some t \<Rightarrow> (case get_lane (tk_lane t) db of None \<Rightarrow> None
                  | Some l \<Rightarrow> (case ln_work l of None \<Rightarrow> tk_work t | Some w \<Rightarrow> Some w)))"

definition open_mission :: "uuid option \<Rightarrow> db \<Rightarrow> uuid option" where
  "open_mission w db =
     (case w of None \<Rightarrow> None
      | Some i \<Rightarrow> (case get_work i db of None \<Rightarrow> None | Some r \<Rightarrow> if closed_status (wk_status r) then None else Some i))"

definition thread_mission :: "thread \<Rightarrow> db \<Rightarrow> uuid option" where
  "thread_mission th db =
     (case get_message_opt (th_parent th) db of None \<Rightarrow> None | Some m \<Rightarrow> open_mission (ms_work m) db)"

text \<open>The agent's running lane of an open mission that changed last.\<close>

definition running_mission :: "uuid \<Rightarrow> uuid \<Rightarrow> db \<Rightarrow> uuid option" where
  "running_mission room a db =
     (case sort_key (\<lambda>l. (- ln_updated_at l, ln_id l))
             (filter (\<lambda>l. ln_room l = room \<and> ln_agent l = a \<and> ln_status l = LaneRunning
                         \<and> open_mission (ln_work l) db \<noteq> None) (db_lanes db)) of
        [] \<Rightarrow> None | l # _ \<Rightarrow> ln_work l)"

fun mentioned_mission :: "uuid \<Rightarrow> trigger list \<Rightarrow> db \<Rightarrow> uuid option" where
  "mentioned_mission room [] db = None"
| "mentioned_mission room (tr # trs) db =
     (case (if tr_rule tr = 2 then running_mission room (tr_agent tr) db else None) of
        Some w \<Rightarrow> Some w | None \<Rightarrow> mentioned_mission room trs db)"

definition attribute ::
    "uuid \<Rightarrow> message_create \<Rightarrow> post_author \<Rightarrow> thread \<Rightarrow> trigger list \<Rightarrow> uuid option \<Rightarrow> db \<Rightarrow>
     db_error + uuid option \<times> work_source" where
  "attribute room inp author th trs legacy db =
     (case (if pa_type author = ByAgent then pa_task author else None) of
        Some task \<Rightarrow>
          Inr (case task_mission task db of Some w \<Rightarrow> (Some w, SrcRunningLane) | None \<Rightarrow> (None, SrcNone))
      | None \<Rightarrow>
          (case mc_work inp of
             WorkIs w \<Rightarrow>
               (case room_work room w db of None \<Rightarrow> Inl (ErrValidation ''not_in_room'')
                | Some r \<Rightarrow> if closed_status (wk_status r) then Inl (ErrValidation ''closed'')
                            else Inr (Some w, SrcChosen))
           | _ \<Rightarrow>
               Inr (case thread_mission th db of Some w \<Rightarrow> (Some w, SrcThread)
                    | None \<Rightarrow>
                        (case mentioned_mission room trs db of Some w \<Rightarrow> (Some w, SrcRunningLane)
                         | None \<Rightarrow>
                             (case legacy_session_work inp legacy of Some w \<Rightarrow> (Some w, SrcChosen)
                              | None \<Rightarrow> (None, SrcNone))))))"

section \<open>The approval wait\<close>

definition state_of :: "uuid \<Rightarrow> db \<Rightarrow> db_error + string \<times> bool" where
  "state_of w db =
     (case get_work w db of None \<Rightarrow> Inl DbMissingRow
      | Some r \<Rightarrow> if closed_status (wk_status r) then Inr ([], True) else Inr (quiet_state w db, False))"

definition reports_to_person :: "uuid \<Rightarrow> db \<Rightarrow> bool" where
  "reports_to_person msg db =
     (case get_message msg db of None \<Rightarrow> False
      | Some m \<Rightarrow> ms_speech m = Some SpReport \<and> list_ex (\<lambda>a. ad_kind a = MentionUser) (ms_addressees m))"

definition gate_message ::
    "uuid option \<Rightarrow> post_author \<Rightarrow> string \<Rightarrow> uuid \<Rightarrow> time \<Rightarrow> db \<Rightarrow> db_error + db" where
  "gate_message work author content msg now db =
     (case work of None \<Rightarrow> Inr db
      | Some w \<Rightarrow>
          bindE (state_of w db) (\<lambda>(st, closed).
          Inr (if pa_type author = ByUser then
                 (if is_note content \<or> closed \<or> st = [] then db else quiet_release w (Some ''released'') now db)
               else if pa_type author = ByAgent then
                 (if \<not> closed \<and> st = ''released'' \<and> reports_to_person msg db then snd (quiet_enter w now db) else db)
               else db)))"

definition holds_for :: "uuid option \<Rightarrow> db \<Rightarrow> db_error + bool \<times> bool" where
  "holds_for work db =
     (case work of None \<Rightarrow> Inr (False, False)
      | Some w \<Rightarrow> bindE (state_of w db) (\<lambda>(st, closed). Inr (st = ''quiet'', closed)))"

section \<open>Questions and reports\<close>

definition lane_delegator :: "uuid \<Rightarrow> db \<Rightarrow> uuid option" where
  "lane_delegator lane db =
     (case get_lane lane db of None \<Rightarrow> None
      | Some l \<Rightarrow> map_option tk_agent (get_task_opt (ln_delegated_from l) db))"

definition question_premise :: "post_author \<Rightarrow> thread \<Rightarrow> platform_trigger option \<Rightarrow> db \<Rightarrow> question_ctx" where
  "question_premise author th platform db =
     (case (if pa_type author = ByAgent then pa_task author else None) of
        None \<Rightarrow> no_question
      | Some task \<Rightarrow>
          let blocked = th_root_kind th = ''blocked_q'' \<and> pa_agent author \<noteq> None \<and> th_root_lane th \<noteq> uuid_nil
                        \<and> lane_delegator (th_root_lane th) db = pa_agent author;
              q = no_question\<lparr>qc_from_agent := True, qc_blocked_thread := blocked\<rparr>
          in (case get_task task db of None \<Rightarrow> q
              | Some t \<Rightarrow>
                  let asker = (case get_message_opt (tk_trigger t) db of None \<Rightarrow> None | Some m \<Rightarrow> agent_author m);
                      q = (if tk_kind t = KindQuestion
                           then q\<lparr>qc_asker := asker, qc_asker_name := (case asker of None \<Rightarrow> [] | Some a \<Rightarrow> agent_name a db)\<rparr>
                           else q)
                  in q\<lparr>qc_asks := \<not> blocked \<and> platform = None\<rparr>))"

text \<open>
  A report coming back to the agent that asked: the requester, and the cause of the turn that wrote
  the request (a question turn's answer counts as one).
\<close>

definition returning_report :: "uuid \<Rightarrow> db \<Rightarrow> (uuid \<times> int) option" where
  "returning_report msg db =
     (let home = (\<lambda>r. case (ms_author_id r, ms_source_task r) of
                        (Some requester, Some t) \<Rightarrow> Some (requester, snd (cause_of_task t db)) | _ \<Rightarrow> None);
          by_agent = (\<lambda>r. case r of None \<Rightarrow> None | Some r \<Rightarrow> if ms_author r = ByAgent then Some r else None)
      in case get_message msg db of None \<Rightarrow> None
         | Some m \<Rightarrow>
             (case (if ms_speech m = Some SpReport then by_agent (get_message_opt (ms_responds_to m) db) else None) of
                Some r \<Rightarrow> home r
              | None \<Rightarrow>
                  (case (if ms_speech m = Some SpAnswer
                         then (case question_task (ms_source_task m) db of None \<Rightarrow> None
                               | Some t \<Rightarrow> by_agent (get_message_opt (tk_trigger t) db)) else None) of
                     Some r \<Rightarrow> home r | None \<Rightarrow> None)))"

section \<open>One trigger\<close>

record route_ctx =
  rc_room :: uuid
  rc_ws :: uuid
  rc_author :: post_author
  rc_thread :: thread
  rc_platform :: "platform_trigger option"
  rc_work :: "uuid option"
  rc_msg :: uuid
  rc_originator :: "uuid option"
  rc_new_lane :: bool
  rc_now :: time
  rc_question :: question_ctx

record post_entry =
  pe_agent :: uuid
  pe_lane :: uuid
  pe_task :: uuid
  pe_coalesced :: bool
  pe_deferred :: "time option"

definition trigger_opts :: "route_ctx \<Rightarrow> trigger \<Rightarrow> lane_opts" where
  "trigger_opts rc tr =
     (case lane_for (rc_thread rc) tr of (rl, mention) \<Rightarrow>
        let opts = \<lparr>lo_root = rl, lo_top = mention, lo_force = rc_new_lane rc, lo_work = rc_work rc, lo_pinned = False,
                    lo_question = makes_question (rc_question rc) tr\<rparr>
        in case (if tr_rule tr = rule_platform then rc_platform rc else None) of
             None \<Rightarrow> opts
           | Some p \<Rightarrow> if pl_lane p = uuid_nil then opts
                       else opts\<lparr>lo_root := pl_lane p, lo_force := False, lo_pinned := True\<rparr>)"

definition lane_state_text :: "lane_status \<Rightarrow> string" where
  "lane_state_text s = (case s of LaneQueued \<Rightarrow> ''queued'' | LaneRunning \<Rightarrow> ''running'' | LaneWaitingHuman \<Rightarrow> ''waiting_human''
     | LaneBlocked \<Rightarrow> ''blocked'' | LanePaused \<Rightarrow> ''paused'' | LaneDone \<Rightarrow> ''done'' | LaneFailed \<Rightarrow> ''failed'')"

text \<open>The queued task of the lane absorbs the message, or a new task carries it.\<close>

definition enqueue ::
    "route_ctx \<Rightarrow> trigger \<Rightarrow> uuid \<Rightarrow> uuid \<Rightarrow> uuid option \<Rightarrow> db \<Rightarrow> db_error + (uuid \<times> bool) \<times> db" where
  "enqueue rc tr profile lane lane_work db =
     (let q = makes_question (rc_question rc) tr in
      case get_lane lane db of
        None \<Rightarrow> Inl DbMissingRow
      | Some l \<Rightarrow>
          (case lock_queued_task lane db of
             Some t \<Rightarrow>
               bindE (update_task (tk_id t)
                 (\<lambda>r. r\<lparr>tk_coalesced := ar_coalesced (plan_arrival lane (lane_state_text (ln_status l)) (tk_coalesced r) [rc_msg rc]),
                        tk_work := (case tk_work r of None \<Rightarrow> lane_work | Some w \<Rightarrow> Some w),
                        tk_updated_at := rc_now rc\<rparr>) db) (\<lambda>db.
               bindE (promote_queued (tk_id t) lane q db) (\<lambda>db. Inr ((tk_id t, True), db)))
           | None \<Rightarrow>
               let arr = plan_arrival lane (lane_state_text (ln_status l)) [] [rc_msg rc] in
               bindE (insert_queued_task
                 \<lparr>nt_lane = lane, nt_room = rc_room rc, nt_agent = tr_agent tr, nt_profile = profile,
                  nt_trigger = rc_msg rc, nt_delegated_from = None, nt_originator = rc_originator rc,
                  nt_coalesced = ar_coalesced arr, nt_work = lane_work, nt_now = rc_now rc,
                  nt_kind = (if q then Some KindQuestion else None), nt_card = None\<rparr> db) (\<lambda>(i, db).
               Inr ((i, False), db))))"

text \<open>Holding an agent's trigger while its mission waits, or cancelling it when the mission closed first.\<close>

definition hold_trigger ::
    "route_ctx \<Rightarrow> trigger \<Rightarrow> uuid option \<Rightarrow> uuid \<Rightarrow> bool \<Rightarrow> db \<Rightarrow> db_error + bool \<times> db" where
  "hold_trigger rc tr lane_work task coalesced db =
     (if pa_type (rc_author rc) \<noteq> ByAgent \<or> tr_rule tr = rule_platform then Inr (False, db)
      else bindE (holds_for lane_work db) (\<lambda>(hold, closed).
           bindE (if closed \<and> \<not> coalesced then cancel_closed task (rc_now rc) db else Inr db) (\<lambda>db.
           let (held, db) = (if \<not> hold then (False, db)
                             else if coalesced then (is_held task db, db) else quiet_hold task db)
           in Inr (held \<or> (closed \<and> \<not> coalesced), db))))"

definition route_trigger :: "route_ctx \<Rightarrow> trigger \<Rightarrow> db \<Rightarrow> db_error + (post_entry \<times> bool) \<times> db" where
  "route_trigger rc tr db =
     (let profile = profile_of (rc_room rc) (tr_agent tr) db in
      bindE (resolve_lane_for (rc_room rc) (tr_agent tr) profile (trigger_opts rc tr) (rc_now rc) db) (\<lambda>(lane, db).
      bindE (bind_lane_work lane (rc_work rc) db) (\<lambda>(lane_work, db).
      bindE (enqueue rc tr profile lane lane_work db) (\<lambda>((task, coalesced), db).
      bindE (hold_trigger rc tr lane_work task coalesced db) (\<lambda>(held, db).
      Inr ((\<lparr>pe_agent = tr_agent tr, pe_lane = lane, pe_task = task, pe_coalesced = coalesced, pe_deferred = None\<rparr>, held), db))))))"

section \<open>The deferred assignee\<close>

definition fallback_task ::
    "uuid \<Rightarrow> uuid \<Rightarrow> fallback \<Rightarrow> uuid \<Rightarrow> uuid \<Rightarrow> uuid \<Rightarrow> uuid option \<Rightarrow> uuid option \<Rightarrow> time \<Rightarrow> uuid \<Rightarrow> task_row" where
  "fallback_task room lane fb primary profile msg originator work now i =
     (fresh_task \<lparr>nt_lane = lane, nt_room = room, nt_agent = fb_agent fb, nt_profile = profile, nt_trigger = msg,
        nt_delegated_from = None, nt_originator = originator, nt_coalesced = [], nt_work = work, nt_now = now,
        nt_kind = None, nt_card = None\<rparr> KindNormal None i)
       \<lparr>tk_status := Deferred, tk_not_before := Some (fb_due_at fb), tk_fallback_for := Some primary\<rparr>"

definition pending_fallback :: "uuid \<Rightarrow> task_row \<Rightarrow> bool" where
  "pending_fallback primary t \<longleftrightarrow> tk_fallback_for t = Some primary \<and> tk_status t = Deferred"

definition fallback_opts :: "uuid option \<Rightarrow> lane_opts" where
  "fallback_opts work = \<lparr>lo_root = uuid_nil, lo_top = True, lo_force = False, lo_work = work, lo_pinned = False,
     lo_question = False\<rparr>"

definition schedule_fallback ::
    "uuid \<Rightarrow> fallback \<Rightarrow> uuid \<Rightarrow> uuid \<Rightarrow> uuid \<Rightarrow> uuid option \<Rightarrow> uuid option \<Rightarrow> time \<Rightarrow> db \<Rightarrow>
     db_error + (uuid \<times> uuid) option \<times> db" where
  "schedule_fallback room fb primary profile msg originator work now db =
     (if list_ex (pending_fallback primary) (db_tasks db) then Inr (None, db)
      else bindE (resolve_lane_for room (fb_agent fb) profile (fallback_opts work) now db) (\<lambda>(lane, db).
           bindE (bind_lane_work lane work db) (\<lambda>(lane_work, db).
           bindE (insert_task_row (fallback_task room lane fb primary profile msg originator lane_work now (db_next db)) db) (\<lambda>db'.
           Inr (Some (lane, db_next db), db')))))"

definition cancel_fallbacks_for :: "uuid \<Rightarrow> time \<Rightarrow> db \<Rightarrow> db_error + db" where
  "cancel_fallbacks_for primary now db =
     update_tasks (pending_fallback primary)
       (\<lambda>t. t\<lparr>tk_status := Cancelled, tk_finished_at := Some now, tk_updated_at := now\<rparr>) db"

section \<open>The whole row\<close>

datatype post_warning = PwRoute warning | PwLoop uuid | PwHeld uuid

record post_result =
  po_msg :: uuid
  po_work :: "uuid option"
  po_triggers :: "post_entry list"
  po_warnings :: "post_warning list"

definition message_check :: "message_row \<Rightarrow> bool" where
  "message_check m \<longleftrightarrow> (ms_author m = BySystem \<longleftrightarrow> ms_author_id m = None)
     \<and> (case ms_group m of None \<Rightarrow> True | Some (_, i, n) \<Rightarrow> 2 \<le> n \<and> n \<le> 6 \<and> i < n)"

definition insert_row :: "message_row \<Rightarrow> db \<Rightarrow> db_error + db" where
  "insert_row m db =
     (if message_check m then Inr (db\<lparr>db_messages := db_messages db @ [m], db_next := db_next db + 1\<rparr>) else Inl DbCheck)"

definition text_message ::
    "uuid \<Rightarrow> author_type \<Rightarrow> uuid option \<Rightarrow> uuid option \<Rightarrow> string \<Rightarrow> mention list \<Rightarrow> uuid option \<Rightarrow> time \<Rightarrow>
     uuid option \<Rightarrow> uuid \<Rightarrow> message_row" where
  "text_message room ty author parent content mentions src now work i =
     \<lparr>ms_id = i, ms_room = room, ms_source_task = src, ms_created_at = now, ms_author = ty, ms_kind = ''text'',
      ms_work = work, ms_ranged = False, ms_author_id = author, ms_parent = parent, ms_content = content,
      ms_mentions = mentions, ms_speech = None, ms_addressees = [], ms_responds_to = None, ms_delegated_lane = None,
      ms_group = None, ms_card = None\<rparr>"

definition author_id :: "post_author \<Rightarrow> uuid option" where
  "author_id a = (if pa_type a = ByUser then pa_user a else if pa_type a = ByAgent then pa_agent a else None)"

text \<open>Each person the message mentions who is in the room, once, and not the author.\<close>

definition in_room :: "uuid \<Rightarrow> uuid \<Rightarrow> db \<Rightarrow> bool" where
  "in_room room u db = list_ex (\<lambda>p. pr_room p = room \<and> pr_user p = Some u \<and> pr_left p = None) (db_participants db)"

definition notify_mentioned_people ::
    "(string \<Rightarrow> uuid option) \<Rightarrow> uuid \<Rightarrow> uuid \<Rightarrow> post_author \<Rightarrow> mention list \<Rightarrow> time \<Rightarrow> db \<Rightarrow> db" where
  "notify_mentioned_people pu room msg author mentions now db =
     (let people = remdups (List.map_filter (\<lambda>m. if m_kind m = MentionUser then pu (m_id m) else None) mentions);
          told = filter (\<lambda>u. \<not> (pa_type author = ByUser \<and> pa_user author = Some u) \<and> in_room room u db) people
      in fold (\<lambda>_ db. insert_inbox msg ''mention'' now db) told db)"

definition route_input_of ::
    "uuid \<Rightarrow> message_create \<Rightarrow> post_author \<Rightarrow> thread \<Rightarrow> uuid option \<Rightarrow> mention list option \<Rightarrow> db \<Rightarrow> route_input" where
  "route_input_of room inp author th assignee mentions db =
     (case delegator_premise (pa_task author) db of (deleg, fired) \<Rightarrow>
        \<lparr>ri_content = mc_content inp, ri_author_type = pa_type author, ri_participants = load_participants room db,
         ri_author_agent = pa_agent author, ri_assignee = assignee, ri_suppress = mc_suppress inp,
         ri_reply_to_agent = th_reply_to th, ri_thread_owner = th_owner th, ri_lane_delegator = deleg,
         ri_join_group_fired = fired, ri_mentions = mentions\<rparr>)"

definition add_platform :: "platform_trigger option \<Rightarrow> trigger list \<Rightarrow> trigger list" where
  "add_platform platform trs =
     (case platform of None \<Rightarrow> trs
      | Some p \<Rightarrow> if pl_agent p = uuid_nil \<or> list_ex (\<lambda>t. tr_agent t = pl_agent p) trs then trs
                  else trs @ [\<lparr>tr_agent = pl_agent p, tr_rule = rule_platform\<rparr>])"

text \<open>What the loop over the triggers accumulates: the entries, the loop warnings, the held agents.\<close>

type_synonym progress = "(post_entry list \<times> uuid list \<times> uuid list) \<times> db"

definition hop_of_post :: "route_ctx \<Rightarrow> int \<Rightarrow> (uuid \<times> int) option \<Rightarrow> uuid \<Rightarrow> hop" where
  "hop_of_post rc cause ret a =
     \<lparr>h_from = (if pa_type (rc_author rc) = ByAgent then (case pa_agent (rc_author rc) of None \<Rightarrow> uuid_nil | Some f \<Rightarrow> f) else uuid_nil),
      h_to = a, h_at = rc_now rc, h_id = 0,
      h_cause = (case ret of Some (requester, c) \<Rightarrow> if requester = a then c else cause | None \<Rightarrow> cause)\<rparr>"

fun post_judged :: "route_ctx \<Rightarrow> trigger \<Rightarrow> post_entry list \<times> uuid list \<times> uuid list \<Rightarrow> loop_verdict \<times> db \<Rightarrow> db_error + progress" where
  "post_judged rc tr (entries, looped, held) (v, db) =
     (if \<not> lv_allowed v
      then bindE (pause_for_loop (rc_room rc) (rc_now rc) db) (\<lambda>db. Inr ((entries, looped @ [tr_agent tr], held), db))
      else bindE (route_trigger rc tr db) (\<lambda>((e, h), db).
           Inr ((entries @ [e], looped, held @ (if h then [tr_agent tr] else [])), db)))"

definition post_step ::
    "route_ctx \<Rightarrow> int \<Rightarrow> (uuid \<times> int) option \<Rightarrow> trigger \<Rightarrow> progress \<Rightarrow> db_error + progress" where
  "post_step rc cause ret tr st =
     post_judged rc tr (fst st)
       (judge_room_hop (rc_room rc) (rc_ws rc) (hop_of_post rc cause ret (tr_agent tr)) (rc_msg rc) (tr_rule tr) (rc_now rc) (snd st))"

definition primary_task :: "trigger list \<Rightarrow> post_entry list \<Rightarrow> uuid" where
  "primary_task trs entries =
     fold (\<lambda>tr p. if tr_rule tr = 5
                  then (case find (\<lambda>e. pe_agent e = tr_agent tr) (rev entries) of None \<Rightarrow> uuid_nil | Some e \<Rightarrow> pe_task e)
                  else p) trs uuid_nil"

definition post_fallback ::
    "route_ctx \<Rightarrow> decision \<Rightarrow> uuid option \<Rightarrow> post_entry list \<Rightarrow> db \<Rightarrow> db_error + post_entry list \<times> db" where
  "post_fallback rc dec assignee entries db =
     (case plan_fallback dec assignee (rc_now rc) of None \<Rightarrow> Inr (entries, db)
      | Some fb \<Rightarrow>
          let primary = primary_task (dec_triggers dec) entries in
          if primary = uuid_nil then Inr (entries, db)
          else bindE (schedule_fallback (rc_room rc) fb primary (profile_of (rc_room rc) (fb_agent fb) db) (rc_msg rc)
                        (rc_originator rc) (rc_work rc) (rc_now rc) db) (\<lambda>(made, db).
               Inr (case made of None \<Rightarrow> (entries, db)
                    | Some (lane, task) \<Rightarrow> (entries @ [\<lparr>pe_agent = fb_agent fb, pe_lane = lane, pe_task = task,
                        pe_coalesced = False, pe_deferred = Some (fb_due_at fb)\<rparr>], db))))"

definition author_task :: "post_author \<Rightarrow> uuid option" where
  "author_task a = (if pa_type a = ByAgent then pa_task a else None)"

definition author_attempt :: "post_author \<Rightarrow> db \<Rightarrow> int" where
  "author_attempt a db =
     (if pa_attempt a \<ge> 1 then pa_attempt a
      else case get_task_opt (pa_task a) db of None \<Rightarrow> 1 | Some t \<Rightarrow> tk_attempt t)"

definition post_originator :: "post_author \<Rightarrow> db \<Rightarrow> uuid option" where
  "post_originator a db =
     (case get_task_opt (author_task a) db of None \<Rightarrow> pa_user a | Some t \<Rightarrow> tk_originator t)"

definition finish_post :: "post_author \<Rightarrow> uuid \<Rightarrow> uuid \<Rightarrow> time \<Rightarrow> db \<Rightarrow> db_error + db" where
  "finish_post author room msg now db =
     bindE (case author_task author of None \<Rightarrow> Inr db
            | Some t \<Rightarrow> bindE (cancel_fallbacks_for t now db) (\<lambda>db.
                Inr (insert_server_event t (author_attempt author db) ''status'' ''post_message'' [] ''ok'' now db))) (\<lambda>db.
     Inr (snd (update_room room (\<lambda>_. True) (\<lambda>r. r\<lparr>rm_updated_at := now\<rparr>) db)))"

text \<open>\<open>postRow\<close>, its writes in the code's order; \<open>legacy\<close> is the room's old-path mark.\<close>

definition agent_mentions :: "(string \<Rightarrow> uuid option) \<Rightarrow> mention list \<Rightarrow> uuid list" where
  "agent_mentions pu ms = List.map_filter (\<lambda>m. if m_kind m = MentionAgent then pu (m_id m) else None) ms"

definition store_post ::
    "(string \<Rightarrow> uuid option) \<Rightarrow> uuid \<Rightarrow> message_create \<Rightarrow> post_author \<Rightarrow> thread \<Rightarrow> part_row option \<Rightarrow> mention list \<Rightarrow>
     uuid option \<Rightarrow> question_ctx \<Rightarrow> time \<Rightarrow> db \<Rightarrow> db_error + uuid \<times> db" where
  "store_post pu room inp author th part mentions work qp now db =
     (let i = db_next db;
          m = (text_message room (pa_type author) (author_id author) (th_parent th) (mc_content inp) mentions
                 (pa_task author) now work i)
                \<lparr>ms_group := map_option (\<lambda>p. (pt_group p, pt_index p, pt_size p)) part\<rparr>
      in bindE (insert_row m db) (\<lambda>db.
         bindE (store_speech pu i (no_opts\<lparr>sx_asks := qc_asks qp, sx_asker := asker_addr qp\<rparr>) db) (\<lambda>db.
         Inr (i, if is_note (mc_content inp) then db else notify_mentioned_people pu room i author mentions now db))))"

definition route_all ::
    "route_ctx \<Rightarrow> decision \<Rightarrow> uuid option \<Rightarrow> db \<Rightarrow> db_error + post_result \<times> db" where
  "route_all rc dec assignee db =
     (let cause = (case author_task (rc_author rc) of None \<Rightarrow> 0 | Some t \<Rightarrow> fst (cause_of_task t db));
          ret = (case author_task (rc_author rc) of None \<Rightarrow> None | Some _ \<Rightarrow> returning_report (rc_msg rc) db)
      in bindE (foldE (post_step rc cause ret) (dec_triggers dec) (([], [], []), db)) (\<lambda>((entries, looped, held), db).
         bindE (post_fallback rc dec assignee entries db) (\<lambda>(entries, db).
         Inr (\<lparr>po_msg = rc_msg rc, po_work = rc_work rc, po_triggers = entries,
               po_warnings = map PwRoute (dec_warnings dec) @ map PwLoop looped @ map PwHeld held\<rparr>, db))))"

text \<open>What follows the store of the row: the approval wait, the triggers, the end.\<close>

definition route_stored ::
    "(uuid option \<Rightarrow> route_ctx) \<Rightarrow> decision \<Rightarrow> uuid option \<Rightarrow> db \<Rightarrow> db_error + post_result \<times> db" where
  "route_stored ctx dec assignee db =
     (let rc = ctx (post_originator (rc_author (ctx None)) db)
      in bindE (route_all rc dec assignee db) (\<lambda>(res, db).
         bindE (finish_post (rc_author rc) (rc_room rc) (rc_msg rc) (rc_now rc) db) (\<lambda>db. Inr (res, db))))"

fun post_stored ::
    "(uuid \<Rightarrow> uuid option \<Rightarrow> route_ctx) \<Rightarrow> string \<Rightarrow> decision \<Rightarrow> uuid option \<Rightarrow> uuid \<times> db \<Rightarrow> db_error + post_result \<times> db" where
  "post_stored ctx content dec assignee (msg, db) =
     (let rc = ctx msg None
      in bindE (gate_message (rc_work rc) (rc_author rc) content msg (rc_now rc) db) (route_stored (ctx msg) dec assignee))"

definition post_row ::
    "(string \<Rightarrow> uuid option) \<Rightarrow> uuid \<Rightarrow> uuid \<Rightarrow> uuid option \<Rightarrow> post_author \<Rightarrow> message_create \<Rightarrow>
     platform_trigger option \<Rightarrow> part_row option \<Rightarrow> time \<Rightarrow> db \<Rightarrow> db_error + post_result \<times> db" where
  "post_row pu room ws legacy author inp platform part now db =
     (let assignee = routing_assignee room inp legacy db in
      bindE (thread_premise room (mc_parent inp) db) (\<lambda>th.
      let dec0 = decide pu (route_input_of room inp author th assignee (map_option pt_to part) db);
          dec = dec0\<lparr>dec_triggers := add_platform platform (dec_triggers dec0)\<rparr>
      in bindE (attribute room inp author th (dec_triggers dec) legacy db) (\<lambda>(work, _).
      let qp = refine_asks (agent_mentions pu (dec_mentions dec)) (question_premise author th platform db);
          ctx = (\<lambda>msg originator. \<lparr>rc_room = room, rc_ws = ws, rc_author = author, rc_thread = th, rc_platform = platform,
                   rc_work = work, rc_msg = msg, rc_originator = originator,
                   rc_new_lane = (mc_new_lane inp \<and> pa_type author = ByUser), rc_now = now, rc_question = qp\<rparr>)
      in bindE (store_post pu room inp author th part (dec_mentions dec) work qp now db)
           (post_stored ctx (mc_content inp) dec assignee))))"

definition post_message ::
    "(string \<Rightarrow> uuid option) \<Rightarrow> uuid \<Rightarrow> post_author \<Rightarrow> message_create \<Rightarrow> platform_trigger option \<Rightarrow> db \<Rightarrow>
     db_error + post_result \<times> db" where
  "post_message pu room author inp platform db =
     (case get_room room db of
        None \<Rightarrow> Inl ErrNotFound
      | Some r \<Rightarrow> post_row pu room (rm_workspace r) (rm_legacy_work r) author inp platform None (db_clock db) db)"

section \<open>Preview (preview.go)\<close>

record preview_target =
  pv_agent :: uuid
  pv_rule :: nat
  pv_lane_rule :: nat
  pv_lane :: "uuid option"
  pv_reentry :: bool
  pv_busy :: bool
  pv_deferred :: "time option"

definition busy_status :: "task_status \<Rightarrow> bool" where
  "busy_status s \<longleftrightarrow> s = Queued \<or> s = Dispatched \<or> s = Preparing \<or> s = Running"

definition preview_target_of :: "uuid \<Rightarrow> thread \<Rightarrow> bool \<Rightarrow> uuid option \<Rightarrow> db \<Rightarrow> trigger \<Rightarrow> preview_target" where
  "preview_target_of room th forced work db tr =
     (case lane_for th tr of (rl, mention) \<Rightarrow>
        let d = resolve (lane_request_of room (tr_agent tr)
                  \<lparr>lo_root = rl, lo_top = mention, lo_force = forced, lo_work = work, lo_pinned = False, lo_question = False\<rparr> db)
        in \<lparr>pv_agent = tr_agent tr, pv_rule = tr_rule tr, pv_lane_rule = ld_rule d,
            pv_lane = (if ld_created d then None else Some (ld_lane d)), pv_reentry = ld_reentry d,
            pv_busy = (\<not> ld_created d \<and> list_ex (\<lambda>t. tk_lane t = ld_lane d \<and> busy_status (tk_status t)) (db_tasks db)),
            pv_deferred = None\<rparr>)"

text \<open>
  The preview's mission and its rule, the targets with the deferred assignee last, and whether an
  implicit target was suppressed; names and profiles are left out.
\<close>

definition preview ::
    "(string \<Rightarrow> uuid option) \<Rightarrow> uuid \<Rightarrow> post_author \<Rightarrow> message_create \<Rightarrow> db \<Rightarrow>
     db_error + (uuid option \<times> work_source) \<times> preview_target list \<times> bool" where
  "preview pu room author inp db =
     (case get_room room db of
        None \<Rightarrow> Inl ErrNotFound
      | Some r \<Rightarrow>
          let assignee = routing_assignee room inp (rm_legacy_work r) db in
          bindE (thread_premise room (mc_parent inp) db) (\<lambda>th.
          let dec = decide pu (route_input_of room inp author th assignee None db) in
          bindE (attribute room inp author th (dec_triggers dec) (rm_legacy_work r) db) (\<lambda>(work, src).
          let targets = map (preview_target_of room th (mc_new_lane inp \<and> pa_type author = ByUser) work db) (dec_triggers dec);
              late = (case plan_fallback dec assignee (db_clock db) of None \<Rightarrow> []
                      | Some fb \<Rightarrow> [\<lparr>pv_agent = fb_agent fb, pv_rule = 7, pv_lane_rule = 0, pv_lane = None, pv_reentry = False,
                                    pv_busy = False, pv_deferred = Some (fb_due_at fb)\<rparr>])
          in Inr ((work, src), targets @ late,
                  \<not> is_note (mc_content inp) \<and> dec_triggers dec = [] \<and> dec_mentions dec \<noteq> []))))"

section \<open>Part messages (group.go)\<close>

definition min_parts :: nat where "min_parts = 2"
definition max_parts :: nat where "max_parts = 6"

record part_create =
  pc_content :: string
  pc_to :: "string list"

definition blank_text :: "string \<Rightarrow> bool" where
  "blank_text s = list_all is_trim_space s"

fun validate_part_list :: "part_create list \<Rightarrow> db_error option" where
  "validate_part_list [] = None"
| "validate_part_list (p # ps) =
     (if is_note (pc_content p) then Some (ErrValidation ''parts_note'')
      else if blank_text (pc_content p) then Some (ErrValidation ''required'')
      else if pc_to p = [] then Some (ErrValidation ''unknown_mention'')
      else validate_part_list ps)"

definition validate_parts :: "part_create list \<Rightarrow> db_error option" where
  "validate_parts ps =
     (if length ps < min_parts \<or> length ps > max_parts then Some (ErrValidation ''parts_count'') else validate_part_list ps)"

text \<open>The element is one mention link and blanks around it.\<close>

fun first_link :: "string \<Rightarrow> (string \<times> string) option" where
  "first_link [] = None"
| "first_link (c # s) =
     (case match_mention (c # s) of
        Some (_, rest) \<Rightarrow> Some ([], rest)
      | None \<Rightarrow> map_option (\<lambda>(before, rest). (c # before, rest)) (first_link s))"

definition is_whole_link :: "string \<Rightarrow> bool" where
  "is_whole_link raw =
     (case first_link raw of None \<Rightarrow> False | Some (before, rest) \<Rightarrow> blank_text before \<and> blank_text rest)"

text \<open>The targets so far: which part each agent is in; the part's mentions without repeats.\<close>

type_synonym targets = "(uuid \<times> nat) list \<times> mention list"

definition target_step ::
    "(string \<Rightarrow> uuid option) \<Rightarrow> participant list \<Rightarrow> uuid list \<Rightarrow> nat \<Rightarrow> string \<Rightarrow> targets \<Rightarrow> db_error + targets" where
  "target_step pu agents people i raw st =
     (case (parse_mentions raw, st) of
        ([m], (owner, out)) \<Rightarrow>
          if \<not> is_whole_link raw then Inl (ErrValidation ''unknown_mention'')
          else
            bindE (case m_kind m of
               MentionAll \<Rightarrow> Inr owner
             | MentionAgent \<Rightarrow>
                 (case pu (m_id m) of None \<Rightarrow> Inl (ErrValidation ''unknown_mention'')
                  | Some a \<Rightarrow>
                      if \<not> list_ex (\<lambda>p. p_agent p = a) agents then Inl (ErrValidation ''unknown_mention'')
                      else (case map_of owner a of
                              Some j \<Rightarrow> if j \<noteq> i then Inl (ErrValidation ''parts_duplicate_agent'') else Inr ((a, i) # owner)
                            | None \<Rightarrow> Inr ((a, i) # owner)))
             | MentionUser \<Rightarrow>
                 (case pu (m_id m) of None \<Rightarrow> Inl (ErrValidation ''unknown_mention'')
                  | Some u \<Rightarrow> if List.member people u then Inr owner else Inl (ErrValidation ''unknown_mention'')))
            (\<lambda>owner. Inr (owner, if list_ex (\<lambda>x. m_kind x = m_kind m \<and> m_id x = m_id m) out then out else out @ [m]))
      | _ \<Rightarrow> Inl (ErrValidation ''unknown_mention''))"

fun resolve_part_targets ::
    "(string \<Rightarrow> uuid option) \<Rightarrow> participant list \<Rightarrow> uuid list \<Rightarrow> nat \<Rightarrow> (uuid \<times> nat) list \<Rightarrow> part_create list \<Rightarrow>
     db_error + mention list list" where
  "resolve_part_targets pu agents people i owner [] = Inr []"
| "resolve_part_targets pu agents people i owner (p # ps) =
     bindE (foldE (target_step pu agents people i) (pc_to p) (owner, [])) (\<lambda>(owner, ms).
     bindE (resolve_part_targets pu agents people (Suc i) owner ps) (\<lambda>rest. Inr (ms # rest)))"

definition room_people :: "uuid \<Rightarrow> db \<Rightarrow> uuid list" where
  "room_people room db =
     List.map_filter (\<lambda>p. if pr_room p = room \<and> pr_left p = None then pr_user p else None) (db_participants db)"

fun post_parts ::
    "(nat \<Rightarrow> part_create \<times> mention list \<Rightarrow> db \<Rightarrow> db_error + post_result \<times> db) \<Rightarrow> nat \<Rightarrow>
     (part_create \<times> mention list) list \<Rightarrow> db \<Rightarrow> db_error + post_result list \<times> db" where
  "post_parts post i [] db = Inr ([], db)"
| "post_parts post i (p # ps) db =
     bindE (post i p db) (\<lambda>(r, db). bindE (post_parts post (Suc i) ps db) (\<lambda>(rs, db). Inr (r # rs, db)))"

definition part_message :: "message_create \<Rightarrow> part_create \<Rightarrow> message_create" where
  "part_message inp p = inp\<lparr>mc_content := pc_content p, mc_suppress := [], mc_new_lane := False\<rparr>"

definition post_group ::
    "(string \<Rightarrow> uuid option) \<Rightarrow> uuid \<Rightarrow> post_author \<Rightarrow> message_create \<Rightarrow> part_create list \<Rightarrow> db \<Rightarrow>
     db_error + post_result list \<times> db" where
  "post_group pu room author inp parts db =
     (if pa_type author \<noteq> ByAgent \<or> pa_agent author = None then Inl (ErrForbidden ''agent_only'')
      else case validate_parts parts of Some e \<Rightarrow> Inl e
      | None \<Rightarrow>
          (case get_room room db of None \<Rightarrow> Inl ErrNotFound
           | Some r \<Rightarrow>
               bindE (resolve_part_targets pu (load_participants room db) (room_people room db) 0 [] parts) (\<lambda>tos.
               post_parts (\<lambda>i (p, ms). post_row pu room (rm_workspace r) (rm_legacy_work r) author (part_message inp p) None
                   (Some \<lparr>pt_group = db_next db, pt_index = i, pt_size = length parts, pt_to = ms\<rparr>) (db_clock db))
                 0 (zip parts tos) (db\<lparr>db_next := db_next db + 1\<rparr>))))"

end
