(* ===== verification/Lane_Follow.thy ===== *)
theory Lane_Follow
  imports Message_Post
begin

text \<open>
  What an agent's own status does to its lane, and what a lane's end owes to the others,
  \<open>server/internal/router/status.go\<close> and \<open>blocked.go\<close>: \<open>colab status set\<close>, the question to the delegator
  (PRD FR-6.2.1), the join of a delegation group (FR-6.5), the report to whoever asked for a re-entry,
  the wake-ups these make, and the recovery of a join whose follow-up was lost. The sentences of the
  notices, the lane's focus line and the frames are left out; \<open>ut\<close> is the text of a UUID.
\<close>

section \<open>Wake-ups\<close>

definition system_post :: "uuid \<Rightarrow> time \<Rightarrow> db \<Rightarrow> uuid \<times> db" where
  "system_post room now db = insert_message BySystem ''system'' None room None now db"

text \<open>The row of the agent in the room, whether it left or not.\<close>

definition participant_profile :: "uuid \<Rightarrow> uuid \<Rightarrow> db \<Rightarrow> uuid option" where
  "participant_profile room a db =
     (case find (\<lambda>p. pr_room p = room \<and> pr_agent p = Some a) (db_participants db) of
        None \<Rightarrow> None | Some p \<Rightarrow> pr_profile p)"

definition originator_of :: "uuid \<Rightarrow> db \<Rightarrow> uuid option" where
  "originator_of i db = Option.bind (get_task i db) tk_originator"

definition inherited_originator :: "uuid \<Rightarrow> uuid \<Rightarrow> db \<Rightarrow> uuid option" where
  "inherited_originator waker requester db =
     (case originator_of waker db of None \<Rightarrow> originator_of requester db | Some u \<Rightarrow> Some u)"

record wake_up =
  wu_room :: uuid
  wu_ws :: uuid
  wu_from :: uuid
  wu_agent :: uuid
  wu_waker :: uuid
  wu_requester :: uuid
  wu_trigger :: uuid
  wu_notice :: bool
  wu_now :: time

definition wake_opts :: "uuid option \<Rightarrow> lane_opts" where
  "wake_opts work = \<lparr>lo_root = uuid_nil, lo_top = True, lo_force = False, lo_work = work, lo_pinned = False,
     lo_question = False\<rparr>"

definition wake_enqueue :: "wake_up \<Rightarrow> uuid \<Rightarrow> uuid \<Rightarrow> uuid \<Rightarrow> uuid option \<Rightarrow> uuid option \<Rightarrow> db \<Rightarrow> db_error + uuid \<times> db" where
  "wake_enqueue w profile lane msg originator lane_work db =
     (case lock_queued_task lane db of
        Some t \<Rightarrow>
          bindE (update_task (tk_id t)
            (\<lambda>r. r\<lparr>tk_coalesced := tk_coalesced r @ [msg],
                   tk_originator := (case tk_originator r of None \<Rightarrow> originator | Some u \<Rightarrow> Some u),
                   tk_work := (case tk_work r of None \<Rightarrow> lane_work | Some v \<Rightarrow> Some v), tk_updated_at := wu_now w\<rparr>) db) (\<lambda>db.
          bindE (promote_queued (tk_id t) lane False db) (\<lambda>db. Inr (tk_id t, db)))
      | None \<Rightarrow>
          insert_queued_task
            \<lparr>nt_lane = lane, nt_room = wu_room w, nt_agent = wu_agent w, nt_profile = profile, nt_trigger = msg,
             nt_delegated_from = None, nt_originator = originator, nt_coalesced = [], nt_work = lane_work,
             nt_now = wu_now w, nt_kind = None, nt_card = None\<rparr> db)"

definition requester_mission :: "uuid \<Rightarrow> db \<Rightarrow> uuid option" where
  "requester_mission r db = (if r = uuid_nil then None else task_mission r db)"

text \<open>\<open>wakeTask\<close>: the task that carries the wake-up, the zero id when nothing was woken.\<close>

definition hop_of_wake :: "wake_up \<Rightarrow> db \<Rightarrow> hop" where
  "hop_of_wake w db =
     \<lparr>h_from = wu_from w, h_to = wu_agent w, h_at = wu_now w, h_id = 0,
      h_cause = (if wu_requester w = uuid_nil then 0 else snd (cause_of_task (wu_requester w) db))\<rparr>"

fun wake_judged :: "wake_up \<Rightarrow> uuid \<Rightarrow> uuid \<Rightarrow> loop_verdict \<times> db \<Rightarrow> db_error + uuid \<times> db" where
  "wake_judged w profile msg (v, db) =
     (if \<not> lv_allowed v then bindE (pause_for_loop (wu_room w) (wu_now w) db) (\<lambda>db. Inr (uuid_nil, db))
      else
        let work = requester_mission (wu_requester w) db in
        bindE (resolve_lane_for (wu_room w) (wu_agent w) profile (wake_opts work) (wu_now w) db) (\<lambda>(lane, db).
        let originator = inherited_originator (wu_waker w) (wu_requester w) db in
        bindE (bind_lane_work lane work db) (\<lambda>(lane_work, db).
        wake_enqueue w profile lane msg originator lane_work db)))"

fun wake_posted :: "wake_up \<Rightarrow> uuid \<Rightarrow> uuid \<times> db \<Rightarrow> db_error + uuid \<times> db" where
  "wake_posted w profile (msg, db) =
     wake_judged w profile msg
       (judge_room_hop (wu_room w) (wu_ws w) (hop_of_wake w db) msg rule_platform (wu_now w) db)"

definition wake_task :: "wake_up \<Rightarrow> db \<Rightarrow> db_error + uuid \<times> db" where
  "wake_task w db =
     (case participant_profile (wu_room w) (wu_agent w) db of
        None \<Rightarrow> Inr (uuid_nil, db)
      | Some profile \<Rightarrow>
          wake_posted w profile (if wu_notice w then system_post (wu_room w) (wu_now w) db else (wu_trigger w, db)))"

section \<open>The join of a delegation group\<close>

definition children :: "uuid \<Rightarrow> db \<Rightarrow> lane_row list" where
  "children deleg db = sort_key ln_created_at (filter (\<lambda>l. ln_delegated_from l = Some deleg) (db_lanes db))"

definition group_result_cards :: "uuid \<Rightarrow> db \<Rightarrow> uuid list" where
  "group_result_cards deleg db =
     concat (map (\<lambda>l. map cd_id (filter (\<lambda>c. cd_lane c = ln_id l \<and> cd_result c \<noteq> None) (db_cards db))) (children deleg db))"

definition attach_result_cards :: "uuid \<Rightarrow> uuid list \<Rightarrow> db \<Rightarrow> db_error + db" where
  "attach_result_cards task ids db =
     (if task = uuid_nil \<or> ids = [] then Inr db
      else update_task task (\<lambda>t. t\<lparr>tk_result_cards := remdups (tk_result_cards t @ ids)\<rparr>) db)"

text \<open>The turn that ended a lane: what \<open>lockTaskCtx\<close> reads.\<close>

record end_ctx =
  ec_room :: uuid
  ec_ws :: uuid
  ec_lane :: uuid
  ec_agent :: uuid
  ec_task :: uuid
  ec_trigger :: "uuid option"
  ec_reentry :: int
  ec_lane_status :: lane_status
  ec_now :: time

definition lock_task_ctx :: "uuid \<Rightarrow> time \<Rightarrow> db \<Rightarrow> db_error + end_ctx" where
  "lock_task_ctx i now db =
     (case get_task i db of None \<Rightarrow> Inl ErrNotFound
      | Some t \<Rightarrow>
          (case (get_lane (tk_lane t) db, get_room (tk_room t) db) of
             (Some l, Some r) \<Rightarrow>
               Inr \<lparr>ec_room = tk_room t, ec_ws = rm_workspace r, ec_lane = tk_lane t, ec_agent = tk_agent t, ec_task = i,
                    ec_trigger = tk_trigger t, ec_reentry = ln_reentry l, ec_lane_status = ln_status l, ec_now = now\<rparr>
           | _ \<Rightarrow> Inl ErrNotFound))"

definition wake_of :: "end_ctx \<Rightarrow> uuid \<Rightarrow> uuid \<Rightarrow> uuid \<Rightarrow> bool \<Rightarrow> wake_up" where
  "wake_of c agent requester trigger notice =
     \<lparr>wu_room = ec_room c, wu_ws = ec_ws c, wu_from = ec_agent c, wu_agent = agent, wu_waker = ec_task c,
      wu_requester = requester, wu_trigger = trigger, wu_notice = notice, wu_now = ec_now c\<rparr>"

fun join_posted :: "end_ctx \<Rightarrow> uuid \<Rightarrow> uuid \<Rightarrow> uuid list \<Rightarrow> uuid \<times> db \<Rightarrow> db_error + bool \<times> db" where
  "join_posted c agent deleg cards (msg, db) =
     bindE (wake_task (wake_of c agent deleg msg False) db) (\<lambda>(woken, db).
     bindE (attach_result_cards woken cards db) (\<lambda>db. Inr (True, db)))"

lemma join_posted_case:
  "join_posted c a d cs p = (case p of (msg, db) \<Rightarrow>
     bindE (wake_task (wake_of c a d msg False) db) (\<lambda>(woken, db). bindE (attach_result_cards woken cs db) (\<lambda>db. Inr (True, db))))"
  by (cases p) simp

definition join_marked :: "end_ctx \<Rightarrow> uuid \<Rightarrow> uuid \<Rightarrow> db \<Rightarrow> db_error + bool \<times> db" where
  "join_marked c agent deleg db =
     join_posted c agent deleg (group_result_cards deleg db) (system_post (ec_room c) (ec_now c) db)"

definition maybe_fire_join :: "end_ctx \<Rightarrow> uuid \<Rightarrow> db \<Rightarrow> db_error + bool \<times> db" where
  "maybe_fire_join c deleg db =
     (case get_task deleg db of None \<Rightarrow> Inl DbMissingRow
      | Some d \<Rightarrow>
          let kids = children deleg db in
          if tk_join_fired d \<noteq> None \<or> kids = [] \<or> \<not> list_all (\<lambda>l. lane_terminal (ln_status l)) kids then Inr (False, db)
          else bindE (update_task deleg (\<lambda>t. t\<lparr>tk_join_fired := Some (ec_now c), tk_updated_at := ec_now c\<rparr>) db)
                 (join_marked c (tk_agent d) deleg))"

section \<open>The report of a re-entry\<close>

text \<open>A message of the lane's turns since the request already woke the requester.\<close>

definition woke_requester :: "uuid \<Rightarrow> uuid \<Rightarrow> time \<Rightarrow> db \<Rightarrow> message_row \<Rightarrow> bool" where
  "woke_requester lane requester since db m \<longleftrightarrow>
     (case get_task_opt (ms_source_task m) db of None \<Rightarrow> False
      | Some own \<Rightarrow> tk_lane own = lane \<and> tk_created_at own \<ge> since)
   \<and> list_ex (\<lambda>a. ad_kind a = MentionAgent \<and> ad_id a = Some requester) (ms_addressees m)
   \<and> list_ex (\<lambda>t. tk_agent t = requester \<and> (tk_trigger t = Some (ms_id m) \<or> List.member (tk_coalesced t) (ms_id m))
        \<and> \<not> held_task t \<and> \<not> (tk_status t = Cancelled \<and> tk_stop_reason t = Some ''approval_closed'')) (db_tasks db)"

definition requester_already_woken :: "uuid \<Rightarrow> uuid \<Rightarrow> uuid \<Rightarrow> db \<Rightarrow> bool" where
  "requester_already_woken lane requester request db =
     (case get_message request db of None \<Rightarrow> False
      | Some req \<Rightarrow> list_ex (woke_requester lane requester (ms_created_at req) db) (db_messages db))"

definition returned_cards :: "uuid \<Rightarrow> uuid \<Rightarrow> db \<Rightarrow> uuid list" where
  "returned_cards lane author db =
     (case card_of_lane lane db of None \<Rightarrow> []
      | Some c \<Rightarrow> if cd_status c = ResultSubmitted \<and> cd_delegator c = author then [cd_id c] else [])"

text \<open>
  \<open>notifyReentry\<close>: a person that wrote the trigger is told in the inbox, and so is the Director for any other
  author; an agent is woken. The Director is there in every case: \<open>lockTaskCtx\<close> takes the mission's, else the
  room's owner, and the column of the owner is NOT NULL. The inbox row of the model does not name the reader.
\<close>

definition notify_reentry :: "end_ctx \<Rightarrow> db \<Rightarrow> db_error + db" where
  "notify_reentry c db =
     (case get_message_opt (ec_trigger c) db of None \<Rightarrow> Inr db
      | Some m \<Rightarrow>
          (case agent_author m of
             Some a \<Rightarrow>
               if requester_already_woken (ec_lane c) a (ms_id m) db then Inr db
               else bindE (wake_task (wake_of c a (case ms_source_task m of None \<Rightarrow> uuid_nil | Some t \<Rightarrow> t) (ms_id m) True) db)
                      (\<lambda>(woken, db'). attach_result_cards woken (returned_cards (ec_lane c) a db) db')
           | None \<Rightarrow> Inr (insert_inbox (ms_id m) ''mention'' (ec_now c) db)))"

definition after_lane_done :: "end_ctx \<Rightarrow> db \<Rightarrow> db_error + db" where
  "after_lane_done c db =
     (case get_lane (ec_lane c) db of None \<Rightarrow> Inl DbMissingRow
      | Some l \<Rightarrow>
          bindE (if ec_reentry c > 0 \<or> ln_delegated_from l = None then notify_reentry c db else Inr db) (\<lambda>db.
          case ln_delegated_from l of
            None \<Rightarrow> Inr db
          | Some d \<Rightarrow> bindE (maybe_fire_join c d db) (\<lambda>(_, db). Inr db)))"

text \<open>\<open>AfterLaneEnded\<close>, in a transaction of its own after the one that ended the lane.\<close>

definition after_lane_ended :: "lane_end \<Rightarrow> db \<Rightarrow> db_error + db" where
  "after_lane_ended e db =
     (case lock_task_ctx (le_task e) (db_clock db) db of
        Inl _ \<Rightarrow> Inr db
      | Inr c \<Rightarrow>
          if le_status e = LaneDone then after_lane_done c db
          else if le_status e \<noteq> LaneFailed then Inl (ErrValidation ''lane end'')
          else if ec_lane_status c \<noteq> LaneFailed then Inr db
          else (case get_lane (ec_lane c) db of None \<Rightarrow> Inl DbMissingRow
                | Some l \<Rightarrow> (case ln_delegated_from l of
                               None \<Rightarrow> Inr db
                             | Some d \<Rightarrow> bindE (maybe_fire_join c d db) (\<lambda>(_, db). Inr db))))"

section \<open>Recovering a lost join\<close>

definition join_recover_grace :: duration where "join_recover_grace = 30 * second"
definition join_recover_lookback :: duration where "join_recover_lookback = hour"

definition in_window :: "time \<Rightarrow> time \<Rightarrow> bool" where
  "in_window now f \<longleftrightarrow> now - join_recover_lookback \<le> f \<and> f \<le> now - join_recover_grace"

definition group_ended :: "lane_row \<Rightarrow> bool" where
  "group_ended l \<longleftrightarrow> (ln_status l = LaneDone \<or> ln_status l = LaneFailed) \<and> ln_finished_at l \<noteq> None"

definition last_finish :: "lane_row list \<Rightarrow> time option" where
  "last_finish ls = (case List.map_filter ln_finished_at ls of [] \<Rightarrow> None | f # fs \<Rightarrow> Some (fold max fs f))"

definition recoverable :: "time \<Rightarrow> db \<Rightarrow> task_row \<Rightarrow> bool" where
  "recoverable now db d \<longleftrightarrow>
     list_ex (\<lambda>l. case ln_finished_at l of None \<Rightarrow> False | Some f \<Rightarrow> in_window now f) (children (tk_id d) db)
   \<and> tk_join_fired d = None
   \<and> (case tk_work d of None \<Rightarrow> True
      | Some w \<Rightarrow> (case get_work w db of None \<Rightarrow> True | Some r \<Rightarrow> \<not> closed_status (wk_status r)))
   \<and> list_all group_ended (children (tk_id d) db)
   \<and> (case last_finish (children (tk_id d) db) of None \<Rightarrow> False | Some f \<Rightarrow> in_window now f)"

text \<open>The newest task of the child that ended last.\<close>

definition last_child_task :: "uuid \<Rightarrow> db \<Rightarrow> uuid option" where
  "last_child_task deleg db =
     (let pairs = [(l, t). l \<leftarrow> children deleg db, t \<leftarrow> db_tasks db, tk_lane t = ln_id l]
      in case sort_key (\<lambda>(l, t). (- (case ln_finished_at l of None \<Rightarrow> 0 | Some f \<Rightarrow> f), - tk_created_at t)) pairs of
           [] \<Rightarrow> None | (_, t) # _ \<Rightarrow> Some (tk_id t))"

definition recover_join :: "uuid \<Rightarrow> uuid \<Rightarrow> time \<Rightarrow> db \<Rightarrow> db_error + bool \<times> db" where
  "recover_join deleg last_task now db =
     (case lock_task_ctx last_task now db of
        Inl _ \<Rightarrow> Inr (False, db)
      | Inr c \<Rightarrow>
          bindE (maybe_fire_join c deleg db) (\<lambda>(fired, db').
          if \<not> fired then Inr (False, db)
          else case get_task deleg db' of
                 None \<Rightarrow> Inl DbMissingRow
               | Some d \<Rightarrow> Inr (True, insert_server_event_once deleg (if tk_attempt d < 1 then 1 else tk_attempt d)
                   ''runtime'' ''report'' ''lane_end.join_recovered'' ''info'' now db')))"

definition recover_joins :: "time \<Rightarrow> db \<Rightarrow> (db_error + nat) \<times> db" where
  "recover_joins now db =
     each_committed (\<lambda>d db'. case last_child_task d db of None \<Rightarrow> Inr (False, db') | Some l \<Rightarrow> recover_join d l now db')
       (map tk_id (sort_key tk_id (filter (recoverable now db) (db_tasks db)))) 0 db"

section \<open>An agent's status\<close>

datatype agent_status = StWorking | StBlocked | StDone | StOther

definition status_word :: "agent_status \<Rightarrow> string" where
  "status_word s = (case s of StWorking \<Rightarrow> ''working'' | StBlocked \<Rightarrow> ''blocked'' | StDone \<Rightarrow> ''done'' | StOther \<Rightarrow> [])"

record status_result =
  sr_lane :: uuid
  sr_turn_end :: bool
  sr_question :: "uuid option"
  sr_delegator :: "uuid option"

record blocked_plan =
  bp_card :: uuid
  bp_lane_message :: uuid
  bp_note :: string
  bp_delegator :: "uuid option"
  bp_woken :: bool
  bp_to_director :: bool
  bp_turn_end :: bool

definition plan_blocked :: "uuid option \<Rightarrow> string \<Rightarrow> uuid \<Rightarrow> blocked_plan" where
  "plan_blocked delegator msg i = \<lparr>bp_card = i, bp_lane_message = i, bp_note = msg, bp_delegator = delegator,
     bp_woken = (delegator \<noteq> None), bp_to_director = (delegator = None), bp_turn_end = True\<rparr>"

text \<open>The delegator of a lane, its name and the delegating task; the agent row must be there.\<close>

definition delegator_of_lane :: "uuid \<Rightarrow> db \<Rightarrow> (uuid \<times> string \<times> uuid) option" where
  "delegator_of_lane lane db =
     (case Option.bind (get_lane lane db) ln_delegated_from of None \<Rightarrow> None
      | Some d \<Rightarrow> (case get_task d db of None \<Rightarrow> None
                  | Some t \<Rightarrow> (case tbl_get ag_id (db_agents db) (tk_agent t) of None \<Rightarrow> None
                              | Some a \<Rightarrow> Some (tk_agent t, ag_name a, d))))"

definition set_working :: "end_ctx \<Rightarrow> db \<Rightarrow> db_error + status_result \<times> db" where
  "set_working c db =
     (case get_task (ec_task c) db of None \<Rightarrow> Inl DbMissingRow
      | Some t \<Rightarrow>
          let res = \<lparr>sr_lane = ec_lane c, sr_turn_end = False, sr_question = None, sr_delegator = None\<rparr>
          in Inr (res, if tk_kind t = KindQuestion then db
                       else update_lane (ec_lane c) (\<lambda>_. True) (\<lambda>l. l\<lparr>ln_status := LaneRunning, ln_updated_at := ec_now c\<rparr>) db))"

text \<open>The question card: the note, with the delegator mentioned when there is one.\<close>

definition question_text :: "(uuid \<Rightarrow> string) \<Rightarrow> string \<Rightarrow> (uuid \<times> string \<times> uuid) option \<Rightarrow> string \<times> mention list" where
  "question_text ut msg deleg =
     (case deleg of None \<Rightarrow> (msg, [])
      | Some (a, name, _) \<Rightarrow>
          let content = msg @ [CHR 0x0A, CHR 0x0A] @ mention_link ut name a in (content, parse_mentions content))"

definition set_blocked ::
    "(string \<Rightarrow> uuid option) \<Rightarrow> (uuid \<Rightarrow> string) \<Rightarrow> string \<Rightarrow> end_ctx \<Rightarrow> db \<Rightarrow> db_error + status_result \<times> db" where
  "set_blocked pu ut msg c db =
     (let deleg = delegator_of_lane (ec_lane c) db;
          plan = plan_blocked (map_option fst deleg) msg (db_next db);
          row = (case question_text ut msg deleg of (content, mentions) \<Rightarrow>
                  (text_message (ec_room c) ByAgent (Some (ec_agent c)) None content mentions (Some (ec_task c)) (ec_now c) None
                     (bp_card plan))\<lparr>ms_kind := ''blocked_q''\<rparr>)
      in bindE (insert_row row db) (\<lambda>db.
         bindE (store_speech pu (bp_card plan) no_opts db) (\<lambda>db.
         let db = update_lane (ec_lane c) (\<lambda>_. True)
               (\<lambda>l. l\<lparr>ln_status := LaneBlocked, ln_blocked_note := Some msg, ln_blocked_message := Some (bp_card plan),
                      ln_finished_at := Some (ec_now c), ln_updated_at := ec_now c\<rparr>) db;
             res = \<lparr>sr_lane = ec_lane c, sr_turn_end = True, sr_question = Some (bp_card plan),
                    sr_delegator = (if bp_woken plan then bp_delegator plan else None)\<rparr>
         in case deleg of
              Some (a, _, d) \<Rightarrow>
                bindE (case tbl_get ag_id (db_agents db) (ec_agent c) of None \<Rightarrow> Inl DbMissingRow | Some _ \<Rightarrow>
                         wake_task (wake_of c a d (bp_card plan) True) db) (\<lambda>(_, db). Inr (res, db))
            | None \<Rightarrow> Inr (res, insert_inbox (bp_card plan) ''lane_blocked'' (ec_now c) db))))"

definition set_done :: "end_ctx \<Rightarrow> db \<Rightarrow> db_error + status_result \<times> db" where
  "set_done c db =
     bindE (mark_done \<lparr>dq_lane = ec_lane c, dq_task = ec_task c, dq_cause = AgentDone, dq_now = ec_now c\<rparr> db) (\<lambda>(r, db).
     bindE (if mr_after_done r then after_lane_done c db else Inr db) (\<lambda>db.
     Inr (\<lparr>sr_lane = ec_lane c, sr_turn_end = True, sr_question = None, sr_delegator = None\<rparr>, db)))"

text \<open>
  \<open>SetAgentStatus\<close>. A refused \<open>done\<close> rolls the transaction back and writes its feed row in a
  transaction of its own, so an error comes with a store too.
\<close>

definition set_agent_status ::
    "(string \<Rightarrow> uuid option) \<Rightarrow> (uuid \<Rightarrow> string) \<Rightarrow> uuid \<Rightarrow> int \<Rightarrow> agent_status \<Rightarrow> string \<Rightarrow> db \<Rightarrow>
     (db_error + status_result) \<times> db" where
  "set_agent_status pu ut task attempt st msg db =
     (if st = StBlocked \<and> msg = [] then (Inl (ErrValidation ''note''), db)
      else case lock_task_ctx task (db_clock db) db of
        Inl e \<Rightarrow> (Inl e, db)
      | Inr c \<Rightarrow>
          let db1 = insert_server_event task attempt ''status'' ''set_status'' (status_word st) ''ok'' (ec_now c) db
          in case (case st of StWorking \<Rightarrow> set_working c db1 | StBlocked \<Rightarrow> set_blocked pu ut msg c db1
                   | StDone \<Rightarrow> set_done c db1 | StOther \<Rightarrow> Inl (ErrValidation ''status'')) of
               Inl e \<Rightarrow>
                 (Inl e, if e = ErrResultCardRequired
                         then insert_server_event task (if attempt < 1 then 1 else attempt) ''status'' ''set_status'' ''done''
                                ''rejected'' (ec_now c) db
                         else db)
             | Inr (res, db2) \<Rightarrow>
                 (Inr res, snd (update_room (ec_room c) (\<lambda>_. True) (\<lambda>r. r\<lparr>rm_updated_at := ec_now c\<rparr>) db2)))"

end
