(* ===== verification/Delegation.thy ===== *)
theory Delegation
  imports Lane_Follow
begin

text \<open>
  \<open>colab card delegate\<close>, \<open>Delegate\<close> in \<open>server/internal/router/delegate.go\<close> with \<open>NextNumber\<close>, \<open>Create\<close> and
  \<open>CheckRefsExist\<close> of \<open>server/internal/cards/store.go\<close>: a delegation is always a new lane, whose card and
  first task are made in the transaction that checks the card and judges the hop. The text of the
  delegation bubble is the parameter \<open>bubble\<close> (its label and the draft are what it is made from);
  \<open>artifact_here\<close> answers whether an artifact is in a room.
\<close>

section \<open>Cards\<close>

definition next_number :: "uuid \<Rightarrow> uuid option \<Rightarrow> db \<Rightarrow> int" where
  "next_number room work db =
     fold max (map cd_number (filter (\<lambda>c. cd_room c = room \<and> cd_work c = work) (db_cards db))) 0 + 1"

definition create_card ::
    "uuid \<Rightarrow> uuid option \<Rightarrow> int \<Rightarrow> uuid \<Rightarrow> uuid \<Rightarrow> uuid \<Rightarrow> uuid option \<Rightarrow> draft \<Rightarrow> uuid \<Rightarrow> time \<Rightarrow> db \<Rightarrow>
     db_error + uuid \<times> db" where
  "create_card room work number' delegator dtask lane par d msg now db =
     (if number' < 1 then Inl DbCheck
      else if list_ex (\<lambda>c. cd_lane c = lane \<or> cd_room c = room \<and> cd_work c = work \<and> cd_number c = number') (db_cards db)
      then Inl DbUnique
      else Inr (db_next db,
        db\<lparr>db_cards := db_cards db @ [\<lparr>cd_id = db_next db, cd_lane = lane, cd_room = room, cd_work = work,
             cd_status = InProgress, cd_version = 1, cd_criteria = numbered (dr_criteria d), cd_follow_ups = 0,
             cd_result = None, cd_judgement = None, cd_updated_at = now, cd_number = number', cd_delegator = delegator,
             cd_delegator_task = Some dtask, cd_assignee = dr_assignee d, cd_parent = par,
             cd_goal = trim_space (dr_goal d), cd_boundaries = trim_space (dr_boundaries d), cd_refs = dr_refs d,
             cd_bubble = Some msg, cd_output = dr_output_format d, cd_budget = dr_budget d,
             cd_reason = None, cd_versions = []\<rparr>],
           db_next := db_next db + 1\<rparr>))"

definition ref_exists :: "(uuid \<Rightarrow> uuid \<Rightarrow> bool) \<Rightarrow> uuid \<Rightarrow> card_ref \<Rightarrow> db \<Rightarrow> bool" where
  "ref_exists artifact_here room r db =
     (if rf_kind r = ''artifact'' then artifact_here (rf_id r) room
      else if rf_kind r = ''decision'' then list_ex (\<lambda>e. de_id e = rf_id r \<and> de_room e = room) (db_decisions db)
      else if rf_kind r = ''message'' then list_ex (\<lambda>m. ms_id m = rf_id r \<and> ms_room m = room) (db_messages db)
      else True)"

definition check_refs_exist :: "(uuid \<Rightarrow> uuid \<Rightarrow> bool) \<Rightarrow> uuid \<Rightarrow> card_ref list \<Rightarrow> db \<Rightarrow> field_error list" where
  "check_refs_exist artifact_here room refs db =
     concat (map (\<lambda>(i, r). if ref_exists artifact_here room r db then [] else [(FldAt ''card.refs'' i ''id'', ''not_found'')])
       (List.enumerate 0 refs))"

section \<open>The delegation\<close>

record delegate_input =
  di_card :: draft
  di_depends_on :: "uuid list"
  di_profile :: "string option"

record delegate_result =
  dg_lane :: uuid
  dg_msg :: uuid
  dg_task :: uuid
  dg_card :: uuid
  dg_held :: bool

text \<open>The caller: its room, workspace, agent, attempt and mission.\<close>

record caller =
  cl_task :: uuid
  cl_room :: uuid
  cl_ws :: uuid
  cl_agent :: uuid
  cl_attempt :: int
  cl_work :: "uuid option"
  cl_now :: time

definition find_caller :: "uuid \<Rightarrow> db \<Rightarrow> db_error + caller" where
  "find_caller i db =
     (case get_task i db of None \<Rightarrow> Inl ErrNotFound
      | Some t \<Rightarrow>
          (case (get_room (tk_room t) db, get_lane (tk_lane t) db, tbl_get ag_id (db_agents db) (tk_agent t)) of
             (Some r, Some l, Some _) \<Rightarrow>
               Inr \<lparr>cl_task = i, cl_room = tk_room t, cl_ws = rm_workspace r, cl_agent = tk_agent t, cl_attempt = tk_attempt t,
                    cl_work = task_mission i db, cl_now = db_clock db\<rparr>
           | _ \<Rightarrow> Inl ErrNotFound))"

definition plan_gate :: "uuid option \<Rightarrow> db \<Rightarrow> db_error + unit" where
  "plan_gate work db =
     (case work of None \<Rightarrow> Inr ()
      | Some w \<Rightarrow> (case get_work w db of None \<Rightarrow> Inl DbMissingRow
                  | Some r \<Rightarrow> if wk_plan_required r \<and> wk_plan_confirmed r = None then Inl ErrPlanConfirmation else Inr ()))"

text \<open>The assignee's profile in the room; the zero id when the card names nobody or its own author.\<close>

definition target_profile :: "caller \<Rightarrow> uuid \<Rightarrow> db \<Rightarrow> db_error + uuid" where
  "target_profile c a db =
     (if a = uuid_nil \<or> a = cl_agent c then Inr uuid_nil
      else case find (\<lambda>p. pr_agent p = Some a) (live_agents (cl_room c) db) of
             None \<Rightarrow> Inl (ErrValidation ''not_participant'')
           | Some p \<Rightarrow> Inr (case pr_profile p of None \<Rightarrow> uuid_nil | Some f \<Rightarrow> f))"

definition named_profile :: "uuid \<Rightarrow> string option \<Rightarrow> uuid \<Rightarrow> db \<Rightarrow> db_error + uuid" where
  "named_profile a name dflt db =
     (case name of None \<Rightarrow> Inr dflt
      | Some n \<Rightarrow>
          if n = [] then Inr dflt
          else case find (\<lambda>f. pf_agent f = a \<and> pf_name f = n) (db_profiles db) of
                 None \<Rightarrow> Inl (ErrValidation ''profile'') | Some f \<Rightarrow> Inr (pf_id f))"

definition deps_here :: "uuid \<Rightarrow> uuid list \<Rightarrow> db \<Rightarrow> bool" where
  "deps_here room deps db = list_all (\<lambda>d. list_ex (\<lambda>l. ln_id l = d \<and> ln_room l = room) (db_lanes db)) deps"

definition parent_card :: "uuid \<Rightarrow> db \<Rightarrow> uuid option" where
  "parent_card i db = (case get_task i db of None \<Rightarrow> None | Some t \<Rightarrow> if tk_kind t = KindCard then tk_card t else None)"

text \<open>Everything that is checked before anything is written: the profile the lane will have.\<close>

definition check_delegation ::
    "(uuid \<Rightarrow> uuid \<Rightarrow> bool) \<Rightarrow> caller \<Rightarrow> delegate_input \<Rightarrow> db \<Rightarrow> db_error + uuid" where
  "check_delegation artifact_here c inp db =
     (let d = di_card inp in
      bindE (plan_gate (cl_work c) db) (\<lambda>_.
      bindE (target_profile c (dr_assignee d) db) (\<lambda>profile.
      if check_draft d (cl_agent c) @ check_refs_exist artifact_here (cl_room c) (dr_refs d) db \<noteq> [] then Inl ErrCardInvalid
      else bindE (named_profile (dr_assignee d) (di_profile inp) profile db) (\<lambda>profile.
           if \<not> deps_here (cl_room c) (di_depends_on inp) db then Inl (ErrValidation ''depends_on'') else Inr profile))))"

definition delegation_bubble ::
    "(string \<Rightarrow> draft \<Rightarrow> string) \<Rightarrow> (uuid \<Rightarrow> string) \<Rightarrow> caller \<Rightarrow> draft \<Rightarrow> db \<Rightarrow> message_row" where
  "delegation_bubble bubble ut c d db =
     (let content = mention_link ut (agent_name (dr_assignee d) db) (dr_assignee d)
                    @ bubble (card_label (nat (next_number (cl_room c) (cl_work c) db))) d
      in text_message (cl_room c) ByAgent (Some (cl_agent c)) None content (parse_mentions content) (Some (cl_task c))
           (cl_now c) (cl_work c) (db_next db))"

definition delegate_hop :: "caller \<Rightarrow> uuid \<Rightarrow> db \<Rightarrow> hop" where
  "delegate_hop c a db = \<lparr>h_from = cl_agent c, h_to = a, h_at = cl_now c, h_id = 0, h_cause = fst (cause_of_task (cl_task c) db)\<rparr>"

text \<open>A tripped limit: the bubble stays as an ordinary mention, the room stops, the call is on the feed.\<close>

definition refuse_delegation ::
    "(string \<Rightarrow> uuid option) \<Rightarrow> caller \<Rightarrow> uuid \<Rightarrow> uuid \<Rightarrow> (uuid \<Rightarrow> string) \<Rightarrow> db \<Rightarrow> db_error + db" where
  "refuse_delegation pu c msg a ut db =
     bindE (pause_for_loop (cl_room c) (cl_now c) db) (\<lambda>db.
     store_speech pu msg no_opts
       (insert_server_event (cl_task c) (cl_attempt c) ''status'' ''delegate'' (ut a) ''rejected'' (cl_now c) db))"

definition hold_delegation :: "uuid option \<Rightarrow> uuid \<Rightarrow> time \<Rightarrow> db \<Rightarrow> db_error + bool \<times> db" where
  "hold_delegation work task now db =
     bindE (holds_for work db) (\<lambda>(hold, closed).
     if hold then Inr (quiet_hold task db)
     else if closed then bindE (cancel_closed task now db) (\<lambda>db. Inr (False, db))
     else Inr (False, db))"

text \<open>The lane, its card, the bubble's speech, the card task with its budget, and the hold.\<close>

definition write_delegation ::
    "(string \<Rightarrow> uuid option) \<Rightarrow> caller \<Rightarrow> delegate_input \<Rightarrow> uuid \<Rightarrow> int \<Rightarrow> uuid \<Rightarrow> db \<Rightarrow> db_error + delegate_result \<times> db" where
  "write_delegation pu c inp profile num msg db =
     (let d = di_card inp; a = dr_assignee d in
      bindE (insert_lane (cl_room c) a profile (di_depends_on inp) (Some (cl_task c)) (cl_work c) (cl_now c) db) (\<lambda>(lane, db).
      bindE (create_card (cl_room c) (cl_work c) num (cl_agent c) (cl_task c) lane (parent_card (cl_task c) db) d msg (cl_now c) db) (\<lambda>(cid, db).
      let db = update_message msg (\<lambda>m. m\<lparr>ms_card := Some (cid, ''delegation'', 1)\<rparr>) db in
      bindE (store_speech pu msg (no_opts\<lparr>sx_lane := Some lane, sx_target := Some a, sx_target_name := agent_name a db\<rparr>) db) (\<lambda>db.
      bindE (insert_queued_task
        \<lparr>nt_lane = lane, nt_room = cl_room c, nt_agent = a, nt_profile = profile, nt_trigger = msg,
         nt_delegated_from = Some (cl_task c), nt_originator = originator_of (cl_task c) db, nt_coalesced = [],
         nt_work = cl_work c, nt_now = cl_now c, nt_kind = Some KindCard, nt_card = Some cid\<rparr> db) (\<lambda>(task, db).
      bindE (case dr_budget d of None \<Rightarrow> Inr db | Some b \<Rightarrow> update_task task (\<lambda>t. t\<lparr>tk_budget_override := Some b\<rparr>) db) (\<lambda>db.
      let db = insert_server_event (cl_task c) (cl_attempt c) ''status'' ''set_status'' ''delegate'' ''ok'' (cl_now c) db in
      bindE (hold_delegation (cl_work c) task (cl_now c) db) (\<lambda>(held, db).
      Inr (\<lparr>dg_lane = lane, dg_msg = msg, dg_task = task, dg_card = cid, dg_held = held\<rparr>, db))))))))"

text \<open>A loop refusal commits what it wrote and answers an error.\<close>

definition delegate_card ::
    "(string \<Rightarrow> uuid option) \<Rightarrow> (uuid \<Rightarrow> string) \<Rightarrow> (string \<Rightarrow> draft \<Rightarrow> string) \<Rightarrow> (uuid \<Rightarrow> uuid \<Rightarrow> bool) \<Rightarrow> uuid \<Rightarrow>
     delegate_input \<Rightarrow> db \<Rightarrow> (db_error + delegate_result) \<times> db" where
  "delegate_card pu ut bubble artifact_here i inp db =
     (case bindE (find_caller i db) (\<lambda>c. bindE (check_delegation artifact_here c inp db) (\<lambda>profile. Inr (c, profile))) of
        Inl e \<Rightarrow> (Inl e, db)
      | Inr (c, profile) \<Rightarrow>
          let a = dr_assignee (di_card inp); num = next_number (cl_room c) (cl_work c) db; msg = db_next db in
          (case insert_row (delegation_bubble bubble ut c (di_card inp) db) db of
             Inl e \<Rightarrow> (Inl e, db)
           | Inr db1 \<Rightarrow>
               (case judge_room_hop (cl_room c) (cl_ws c) (delegate_hop c a db1) msg 2 (cl_now c) db1 of
                  (v, db2) \<Rightarrow>
                    if \<not> lv_allowed v then
                      (case refuse_delegation pu c msg a ut db2 of Inl e \<Rightarrow> (Inl e, db) | Inr db3 \<Rightarrow> (Inl ErrLoopLimit, db3))
                    else (case write_delegation pu c inp profile num msg db2 of
                            Inl e \<Rightarrow> (Inl e, db) | Inr (res, db3) \<Rightarrow> (Inr res, db3)))))"

end
