(* ===== verification/Route_Steps.thy ===== *)
theory Route_Steps
  imports Delegation
begin

text \<open>
  What the router may do to the table \<open>task\<close>, once for all its operations. The locale \<open>router_writes\<close> is
  the contract of a relation between two stores that every primitive write of the router satisfies:
  rewriting a row that has not started, cancelling one that is deferred or whose mission is closed, adding
  a queued row to a lane that has none, adding a deferred row, never letting a held row go, never opening
  a closed mission again. It carries the relation through the lane rules, the
  merge, the hold, the loop pause, the triggers of a post and a wake-up. \<open>post_writes\<close> adds the release of
  a mission's held rows, and with it a whole post and a group of posts; \<open>follow_writes\<close> adds the one write a post never
  makes, the mark of a fired join, and carries the relation through what a lane's end owes the others.
\<close>

definition waiting :: "task_row \<Rightarrow> bool" where
  "waiting t \<longleftrightarrow> tk_status t = Queued \<or> tk_status t = Deferred"

definition same_core :: "task_row \<Rightarrow> task_row \<Rightarrow> bool" where
  "same_core x y \<longleftrightarrow> tk_id x = tk_id y \<and> tk_lane x = tk_lane y \<and> tk_room x = tk_room y \<and> tk_agent x = tk_agent y
     \<and> tk_attempt x = tk_attempt y \<and> tk_trigger x = tk_trigger y \<and> tk_created_at x = tk_created_at y
     \<and> tk_join_fired x = tk_join_fired y \<and> set (tk_coalesced y) \<subseteq> set (tk_coalesced x)"

text \<open>The same task, with its messages and, when it was held, its hold.\<close>

definition same_task :: "task_row \<Rightarrow> task_row \<Rightarrow> bool" where
  "same_task x y \<longleftrightarrow> same_core x y
     \<and> (tk_queued_reason y = Some approval_pending \<longrightarrow> tk_queued_reason x = Some approval_pending)"

definition light_write :: "(task_row \<Rightarrow> task_row) \<Rightarrow> bool" where
  "light_write f \<longleftrightarrow> (\<forall>t. same_task (f t) t \<and> tk_status (f t) = tk_status t)"

definition ids_ok :: "db \<Rightarrow> bool" where
  "ids_ok db \<longleftrightarrow> distinct (map tk_id (db_tasks db)) \<and> list_all (\<lambda>t. tk_id t < db_next db) (db_tasks db)"

definition fresh_row :: "task_row \<Rightarrow> db \<Rightarrow> bool" where
  "fresh_row t db \<longleftrightarrow> tk_id t = db_next db
     \<and> (tk_status t = Deferred \<or> tk_status t = Queued \<and> \<not> list_ex (queued_on (tk_lane t)) (db_tasks db))"

definition step_of :: "(db \<Rightarrow> db \<Rightarrow> bool) \<Rightarrow> db \<Rightarrow> db \<Rightarrow> bool" where
  "step_of R db db' \<longleftrightarrow> (ids_ok db \<longrightarrow> R db db' \<and> ids_ok db')"

lemma ids_ok_other: "ids_ok db \<Longrightarrow> db_tasks db' = db_tasks db \<Longrightarrow> db_next db \<le> db_next db' \<Longrightarrow> ids_ok db'"
  by (auto simp: ids_ok_def list_all_iff)

lemma map_id_upd: "(\<And>t. t \<in> set ts \<Longrightarrow> p t \<Longrightarrow> tk_id (f t) = tk_id t) \<Longrightarrow> map tk_id (tbl_upd p f ts) = map tk_id ts"
  by (induction ts) (auto simp: tbl_upd_def)

lemma ids_ok_ids: "ids_ok db \<longleftrightarrow> distinct (map tk_id (db_tasks db)) \<and> list_all (\<lambda>i. i < db_next db) (map tk_id (db_tasks db))"
  by (simp add: ids_ok_def list_all_iff)

lemma ids_ok_upd:
  assumes "ids_ok db" and "\<And>t. t \<in> set (db_tasks db) \<Longrightarrow> p t \<Longrightarrow> tk_id (f t) = tk_id t"
  shows "ids_ok (db\<lparr>db_tasks := tbl_upd p f (db_tasks db)\<rparr>)"
proof -
  have "map tk_id (tbl_upd p f (db_tasks db)) = map tk_id (db_tasks db)" using assms(2) by (rule map_id_upd)
  with assms(1) show ?thesis by (simp add: ids_ok_ids)
qed

lemma get_task_unique:
  assumes "ids_ok db" and "t \<in> set (db_tasks db)"
  shows "get_task (tk_id t) db = Some t"
proof -
  have "distinct (map tk_id ts) \<Longrightarrow> t \<in> set ts \<Longrightarrow> tbl_get tk_id ts (tk_id t) = Some t" for ts
    by (induction ts) force+
  with assms show ?thesis by (simp add: ids_ok_def get_task_def)
qed

lemma get_task_row: "get_task i db = Some t \<Longrightarrow> t \<in> set (db_tasks db) \<and> tk_id t = i"
  unfolding get_task_def using tbl_get_Some_in tbl_get_Some_key by fast

lemma task_with_id: "ids_ok db \<Longrightarrow> get_task i db = Some t \<Longrightarrow> r \<in> set (db_tasks db) \<Longrightarrow> tk_id r = i \<Longrightarrow> r = t"
  using get_task_unique by fastforce

lemma lock_queued_task_Some:
  assumes "lock_queued_task lane db = Some t"
  shows "t \<in> set (db_tasks db)" and "queued_on lane t"
proof -
  obtain ts where "sort_key tk_created_at (filter (queued_on lane) (db_tasks db)) = t # ts"
    using assms by (auto simp: lock_queued_task_def split: list.splits)
  then have "t \<in> set (filter (queued_on lane) (db_tasks db))" by (metis list.set_intros(1) set_sort)
  then show "t \<in> set (db_tasks db)" "queued_on lane t" by simp_all
qed

lemma lock_queued_task_None:
  "lock_queued_task lane db = None \<Longrightarrow> \<not> list_ex (queued_on lane) (db_tasks db)"
proof -
  assume "lock_queued_task lane db = None"
  then have "sort_key tk_created_at (filter (queued_on lane) (db_tasks db)) = []"
    by (auto simp: lock_queued_task_def split: list.splits)
  then have "filter (queued_on lane) (db_tasks db) = []" by (metis set_empty set_sort)
  then show ?thesis by (auto simp: list_ex_iff filter_empty_conv)
qed

section \<open>Closed missions\<close>

definition closed_mission :: "uuid option \<Rightarrow> db \<Rightarrow> bool" where
  "closed_mission w db =
     (case w of None \<Rightarrow> False
      | Some i \<Rightarrow> (case get_work i db of None \<Rightarrow> False | Some r \<Rightarrow> closed_status (wk_status r)))"

text \<open>What the router writes never opens a closed mission again.\<close>

definition closed_kept :: "db \<Rightarrow> db \<Rightarrow> bool" where
  "closed_kept db db' \<longleftrightarrow> (\<forall>w. closed_mission w db \<longrightarrow> closed_mission w db')"

text \<open>The only cancels of the router: a deferred row, or a queued one whose mission is closed.\<close>

definition cancels :: "db \<Rightarrow> task_row \<Rightarrow> task_row \<Rightarrow> bool" where
  "cancels db t t' \<longleftrightarrow> tk_status t' = Cancelled \<and> (tk_status t = Deferred \<or> closed_mission (tk_work t') db)"

lemma closed_mission_same: "db_works db' = db_works db \<Longrightarrow> closed_mission w db' = closed_mission w db"
  unfolding closed_mission_def get_work_def by (rule arg_cong [where f = "\<lambda>t. case w of None \<Rightarrow> False
      | Some i \<Rightarrow> (case tbl_get wk_id t i of None \<Rightarrow> False | Some r \<Rightarrow> closed_status (wk_status r))"])

lemma closed_kept_same [simp]: "db_works db' = db_works db \<Longrightarrow> closed_kept db db'"
  using closed_mission_same [of db' db] by (simp add: closed_kept_def)

lemma closed_kept_trans: "closed_kept a b \<Longrightarrow> closed_kept b c \<Longrightarrow> closed_kept a c"
  by (simp add: closed_kept_def)

lemma closed_kept_upd:
  assumes "db_works db' = tbl_upd p f (db_works db)"
    and "\<And>w. wk_id (f w) = wk_id w"
    and "\<And>w. p w \<Longrightarrow> closed_status (wk_status w) \<Longrightarrow> closed_status (wk_status (f w))"
  shows "closed_kept db db'"
proof -
  have "get_work i db' = map_option (\<lambda>w. if p w then f w else w) (get_work i db)" for i
    unfolding get_work_def assms(1) using assms(2) by (rule tbl_get_upd)
  with assms(3) show ?thesis by (auto simp: closed_kept_def closed_mission_def split: option.split)
qed

lemma closed_kept_writes [simp]:
  "closed_kept db (set_quiet w q since db)"
  "db_works db' = tbl_upd (active_in room) (park why now) (db_works db) \<Longrightarrow> closed_kept db db'"
  by (rule closed_kept_upd [where p = "\<lambda>r. wk_id r = w" and f = "\<lambda>w. w\<lparr>wk_quiet := q, wk_quiet_at := since\<rparr>"],
      simp_all add: set_quiet_def tbl_modify_def)
    (rule closed_kept_upd, assumption, simp_all add: active_in_def park_def closed_status_def)

lemma holds_closed: "holds_for w db = Inr (hold, True) \<Longrightarrow> closed_mission w db"
  by (auto simp: holds_for_def state_of_def closed_mission_def split: option.splits if_splits)

section \<open>Writes on other tables\<close>

definition no_tasks :: "db \<Rightarrow> db \<Rightarrow> bool" where
  "no_tasks db db' \<longleftrightarrow> db_tasks db' = db_tasks db \<and> db_next db \<le> db_next db' \<and> closed_kept db db'"

named_theorems quiet_writes \<open>writes that leave the tasks alone\<close>

lemma no_tasks_refl [quiet_writes, simp]: "no_tasks db db"
  by (simp add: no_tasks_def)

lemma no_tasks_trans: "no_tasks a b \<Longrightarrow> no_tasks b c \<Longrightarrow> no_tasks a c"
  by (auto simp: no_tasks_def dest: closed_kept_trans)

lemma no_tasks_quiet: "no_tasks db (set_quiet w qs since db)"
  by (simp add: no_tasks_def) (simp add: set_quiet_def)

lemma no_tasks_writes [quiet_writes, simp]:
  "no_tasks db (update_lane l p f db)" "no_tasks db (reenter_lane l now db)" "no_tasks db (update_message m g db)"
  "no_tasks db (insert_inbox r ty now db)" "no_tasks db (file_room_card r ty now db)"
  "no_tasks db (snd (update_room room q h db))" "no_tasks db (insert_server_event t n c v ob out now db)"
  "no_tasks db (insert_server_event_once t n c v ob out now db)" "no_tasks db (set_quiet w qs since db)"
  "no_tasks db (snd (insert_message a k w' rm src now db))" "no_tasks db (snd (system_post rm now db))"
  "no_tasks db (snd (insert_loop_request rm db))" "no_tasks db (attach_hitl_card rm w' hi now db)"
  "no_tasks db (db\<lparr>db_hops := hs\<rparr>)" "no_tasks db (update_card ci g' db)"
  by (simp_all add: no_tasks_quiet)
    (simp_all add: no_tasks_def update_lane_def reenter_lane_def update_message_def insert_inbox_def file_room_card_def
      update_room_def insert_server_event_def insert_server_event_once_def insert_message_def system_post_def
      insert_loop_request_def attach_hitl_card_def update_card_def split: option.split)

lemma no_tasks_insert_row [quiet_writes]: "insert_row m db = Inr db' \<Longrightarrow> no_tasks db db'"
  by (auto simp: insert_row_def no_tasks_def split: if_splits)

lemma no_tasks_store [quiet_writes]: "store_speech pu m o' db = Inr db' \<Longrightarrow> no_tasks db db'"
  using store_speech_Inr no_tasks_writes(3) by blast

lemma no_tasks_lane [quiet_writes]: "insert_lane room a p deps d w now db = Inr (l, db') \<Longrightarrow> no_tasks db db'"
  by (auto simp: insert_lane_def no_tasks_def split: if_splits)

lemma no_tasks_resolve [quiet_writes]: "resolve_lane_for room a p opts now db = Inr (l, db') \<Longrightarrow> no_tasks db db'"
  by (auto simp: resolve_lane_for_def Let_def quiet_writes split: if_splits)

lemma no_tasks_bind [quiet_writes]: "bind_lane_work l w db = Inr (w', db') \<Longrightarrow> no_tasks db db'"
  by (auto simp: bind_lane_work_def Let_def quiet_writes split: option.splits)

lemma no_tasks_card [quiet_writes]:
  "create_card room w n dl dt l par d m now db = Inr (c, db') \<Longrightarrow> no_tasks db db'"
  by (auto simp: create_card_def no_tasks_def split: if_splits)

lemma no_tasks_hop [quiet_writes]: "judge_room_hop room ws h m r now db = (v, db') \<Longrightarrow> no_tasks db db'"
  by (auto simp: judge_room_hop_def split: prod.splits)

lemma no_tasks_notify [quiet_writes, simp]: "no_tasks db (notify_mentioned_people pu room m a ms now db)"
proof -
  have "no_tasks db (fold (\<lambda>_. insert_inbox m ''mention'' now) us db)" for us
  proof (induction us arbitrary: db)
    case (Cons u us)
    then have "no_tasks (insert_inbox m ''mention'' now db) (fold (\<lambda>_. insert_inbox m ''mention'' now) us (insert_inbox m ''mention'' now db))"
      by blast
    with no_tasks_trans [OF no_tasks_writes(4)] show ?case by simp
  qed simp
  then show ?thesis by (simp add: notify_mentioned_people_def Let_def)
qed

lemma no_tasks_block [quiet_writes]: "block room why now db = Inr (n, db') \<Longrightarrow> no_tasks db db'"
  by (auto simp: block_def update_room_def no_tasks_def Let_def split: option.splits if_splits prod.splits
      intro: closed_kept_writes(2))

text \<open>A loop pause drains: the running turns go on (FR-2.3).\<close>

lemma pause_loop_drains: "pause_tasks mine ''loop'' d locked now db = Inr db"
  by (simp add: pause_tasks_def plan_dispatch_def Let_def)

lemma no_tasks_pause [quiet_writes]:
  assumes "pause_for_loop room now db = Inr db'"
  shows "no_tasks db db'"
proof -
  have "no_tasks db (file_room_card h ''room_paused'' now (attach_hitl_card room None h now b))"
    if "insert_loop_request room a = (h, b)" "no_tasks db a" for a b h
  proof -
    have "no_tasks db b" using no_tasks_trans [OF that(2) no_tasks_writes(12) [of a room]] that(1) by simp
    then show ?thesis
      using no_tasks_trans [OF no_tasks_trans [OF _ no_tasks_writes(13)] no_tasks_writes(5)] by blast
  qed
  with assms show ?thesis
    by (auto simp: pause_for_loop_def pause_loop_drains split: option.splits if_splits prod.splits
        dest!: no_tasks_block)
qed

lemma no_tasks_store_post [quiet_writes]:
  assumes "store_post pu room inp author th part ms work qp now db = Inr (i, db')"
  shows "no_tasks db db'"
  using assms unfolding store_post_def Let_def
  by (auto split: if_splits dest!: no_tasks_insert_row no_tasks_store intro: no_tasks_trans)

section \<open>One row\<close>

definition same_messages :: "(task_row \<Rightarrow> task_row) \<Rightarrow> bool" where
  "same_messages f \<longleftrightarrow> (\<forall>t. tk_coalesced (f t) = tk_coalesced t)"

lemma promote_queued_write:
  assumes "promote_queued i lane q db = Inr db'"
  shows "db' = db \<or> (\<exists>f. update_task i f db = Inr db' \<and> light_write f \<and> same_messages f)"
proof -
  have light: "light_write (\<lambda>t. t\<lparr>tk_kind := KindCard, tk_card := Some c\<rparr>)" "light_write (\<lambda>t. t\<lparr>tk_kind := KindNormal\<rparr>)"
    "same_messages (\<lambda>t. t\<lparr>tk_kind := KindCard, tk_card := Some c\<rparr>)" "same_messages (\<lambda>t. t\<lparr>tk_kind := KindNormal\<rparr>)" for c
    by (simp_all add: light_write_def same_task_def same_core_def same_messages_def)
  show ?thesis
  proof (cases "q \<or> get_task i db = None")
    case True
    with assms show ?thesis by (auto simp: promote_queued_def split: if_splits)
  next
    case False
    then obtain t where t: "get_task i db = Some t" by blast
    with False assms light show ?thesis
      by (cases "open_on_lane lane db") (auto simp: promote_queued_def split: if_splits)
  qed
qed

section \<open>The contract\<close>

locale router_writes =
  fixes R :: "db \<Rightarrow> db \<Rightarrow> bool"
  assumes R_refl: "R db db"
    and R_trans: "R a b \<Longrightarrow> R b c \<Longrightarrow> R a c"
    and R_other: "db_tasks db' = db_tasks db \<Longrightarrow> closed_kept db db' \<Longrightarrow> R db db'"
    and R_write: "ids_ok db \<Longrightarrow>
        (\<And>t. t \<in> set (db_tasks db) \<Longrightarrow> p t \<Longrightarrow>
          waiting t \<and> same_task (f t) t \<and> (tk_status (f t) = tk_status t \<or> cancels db t (f t))) \<Longrightarrow>
        R db (db\<lparr>db_tasks := tbl_upd p f (db_tasks db)\<rparr>)"
    and R_insert: "ids_ok db \<Longrightarrow> fresh_row t db \<Longrightarrow>
        R db (db\<lparr>db_tasks := db_tasks db @ [t], db_next := db_next db + 1\<rparr>)"
begin

lemma step_refl [simp, intro]: "step_of R db db"
  by (simp add: step_of_def R_refl)

lemma step_trans: "step_of R a b \<Longrightarrow> step_of R b c \<Longrightarrow> step_of R a c"
  unfolding step_of_def using R_trans by blast

lemma step_other: "db_tasks db' = db_tasks db \<Longrightarrow> db_next db \<le> db_next db' \<Longrightarrow> closed_kept db db' \<Longrightarrow> step_of R db db'"
  unfolding step_of_def using R_other ids_ok_other by blast

lemma step_write:
  assumes "\<And>t. t \<in> set (db_tasks db) \<Longrightarrow> p t \<Longrightarrow>
      waiting t \<and> same_task (f t) t \<and> (tk_status (f t) = tk_status t \<or> cancels db t (f t))"
  shows "step_of R db (db\<lparr>db_tasks := tbl_upd p f (db_tasks db)\<rparr>)"
  unfolding step_of_def using R_write [of db p f] ids_ok_upd [of db p f] assms
  by (auto simp: same_task_def same_core_def)

lemma step_insert:
  assumes "fresh_row t db"
  shows "step_of R db (db\<lparr>db_tasks := db_tasks db @ [t], db_next := db_next db + 1\<rparr>)"
proof -
  have "ids_ok db \<Longrightarrow> ids_ok (db\<lparr>db_tasks := db_tasks db @ [t], db_next := db_next db + 1\<rparr>)"
    using assms by (fastforce simp: ids_ok_def fresh_row_def list_all_iff)
  with R_insert [OF _ assms] show ?thesis by (simp add: step_of_def)
qed

text \<open>One row by its id, through \<open>UPDATE task ... WHERE id = $1\<close>.\<close>

lemma step_update:
  assumes "update_task i f db = Inr db'" and "light_write f"
    and "\<And>t. ids_ok db \<Longrightarrow> get_task i db = Some t \<Longrightarrow> waiting t"
  shows "step_of R db db'"
proof (cases "get_task i db")
  case None
  with assms(1) show ?thesis by (simp add: update_task_def)
next
  case (Some t)
  with assms(1) have db': "db' = db\<lparr>db_tasks := tbl_modify tk_id i f (db_tasks db)\<rparr>"
    by (auto simp: update_task_def split: if_splits)
  show ?thesis
  proof (cases "ids_ok db")
    case True
    then have "r \<in> set (db_tasks db) \<Longrightarrow> tk_id r = i \<Longrightarrow>
        waiting r \<and> same_task (f r) r \<and> (tk_status (f r) = tk_status r \<or> cancels db r (f r))" for r
      using task_with_id [OF True Some] assms(2) assms(3) [OF True Some] by (auto simp: light_write_def)
    then show ?thesis unfolding db' tbl_modify_def by (rule step_write)
  qed (simp add: step_of_def)
qed

lemma step_no_tasks: "no_tasks db db' \<Longrightarrow> step_of R db db'"
  unfolding no_tasks_def using step_other by blast

lemma step_seq: "step_of R a b \<Longrightarrow> (ids_ok a \<Longrightarrow> ids_ok b \<Longrightarrow> step_of R b c) \<Longrightarrow> step_of R a c"
  unfolding step_of_def using R_trans by blast

lemma step_promote:
  assumes "promote_queued i lane q db = Inr db'" and "ids_ok db \<Longrightarrow> \<exists>t. get_task i db = Some t \<and> waiting t"
  shows "step_of R db db'"
proof -
  have w: "ids_ok db \<Longrightarrow> get_task i db = Some t \<Longrightarrow> waiting t" for t using assms(2) by auto
  from promote_queued_write [OF assms(1)] show ?thesis
    by (elim disjE exE conjE) (simp, rule step_update [OF _ _ w])
qed

lemma step_insert_task:
  assumes "insert_task_row t db = Inr db'" and "fresh_row t db"
  shows "step_of R db db'"
  using assms step_insert [OF assms(2)] by (auto simp: insert_task_row_def insert_task_def split: if_splits)

lemma step_queued_insert:
  assumes "insert_queued_task n db = Inr (i, db')" and "\<not> list_ex (queued_on (nt_lane n)) (db_tasks db)"
  shows "step_of R db db'"
proof -
  obtain k c where "insert_task_row (fresh_task n k c (db_next db)) db = Inr db'"
    using assms(1) by (auto simp: insert_queued_task_def split: prod.splits)
  moreover have "fresh_row (fresh_task n k c (db_next db)) db"
    using assms(2) by (simp add: fresh_row_def fresh_task_def)
  ultimately show ?thesis by (rule step_insert_task)
qed

lemma step_merge:
  assumes "lock_queued_task lane db = Some t" and "update_task (tk_id t) f db = Inr db'" and "light_write f"
  shows "step_of R db db' \<and> (ids_ok db \<longrightarrow> get_task (tk_id t) db' = Some (f t) \<and> queued_on lane (f t))"
proof -
  note t = lock_queued_task_Some [OF assms(1)]
  have w: "waiting r" if "ids_ok db" "get_task (tk_id t) db = Some r" for r
    using t task_with_id [OF that t(1)] by (auto simp: waiting_def queued_on_def)
  have "get_task (tk_id t) db' = Some (f t) \<and> queued_on lane (f t)" if "ids_ok db"
  proof -
    have keep: "\<And>r. tk_id (f r) = tk_id r" using assms(3) by (simp add: light_write_def same_task_def same_core_def)
    have g: "get_task (tk_id t) db = Some t" using that t(1) by (rule get_task_unique)
    then have "db' = db\<lparr>db_tasks := tbl_modify tk_id (tk_id t) f (db_tasks db)\<rparr>"
      using assms(2) by (auto simp: update_task_def split: if_splits)
    then show ?thesis
      using g t(2) assms(3) tbl_get_modify [of tk_id f, OF keep]
      by (simp add: get_task_def light_write_def same_task_def same_core_def queued_on_def)
  qed
  with step_update [OF assms(2,3) w] show ?thesis by blast
qed

end

text \<open>The task a trigger lands on, whichever way: queued on the lane, with the message in it.\<close>

definition carried_by :: "uuid \<Rightarrow> uuid \<Rightarrow> uuid \<Rightarrow> db \<Rightarrow> bool" where
  "carried_by i lane msg db =
     (case get_task i db of None \<Rightarrow> False | Some t \<Rightarrow> queued_on lane t \<and> List.member (tk_coalesced t) msg)"

lemma carried_update:
  assumes "update_task i f db = Inr db'" and "light_write f" and "same_messages f" and "carried_by j l m db"
  shows "carried_by j l m db'"
proof -
  have f: "tk_id (f t) = tk_id t" "queued_on l (f t) = queued_on l t" "tk_coalesced (f t) = tk_coalesced t" for t
    using assms(2,3) by (simp_all add: light_write_def same_task_def same_core_def same_messages_def queued_on_def)
  show ?thesis
  proof (cases "get_task i db")
    case None
    with assms(1,4) show ?thesis by (simp add: update_task_def)
  next
    case (Some t)
    with assms(1) have "db' = db\<lparr>db_tasks := tbl_modify tk_id i f (db_tasks db)\<rparr>"
      by (auto simp: update_task_def split: if_splits)
    with assms(4) f tbl_get_modify [of tk_id f i "db_tasks db" j, OF f(1)] show ?thesis
      by (auto simp: carried_by_def get_task_def split: option.splits)
  qed
qed

lemma promote_keeps:
  assumes "promote_queued i lane q db = Inr db'" and "carried_by j l m db"
  shows "carried_by j l m db'"
  using promote_queued_write [OF assms(1)] carried_update [OF _ _ _ assms(2)] assms(2) by blast

lemma carried_queued: "carried_by i lane m db \<Longrightarrow> \<exists>t. get_task i db = Some t \<and> queued_on lane t"
  by (auto simp: carried_by_def split: option.splits)

lemma inserted_carried:
  assumes "insert_queued_task n db = Inr (i, db')" and "ids_ok db" and "List.member (nt_coalesced n) m"
  shows "carried_by i (nt_lane n) m db'"
proof -
  have "get_task (db_next db) db = None"
    using assms(2) by (auto simp: get_task_def tbl_get_None_iff ids_ok_def list_all_iff)
  with assms(1,3) show ?thesis
    by (auto simp: insert_queued_task_def insert_task_row_def insert_task_def fresh_task_def carried_by_def get_task_def
        tbl_get_append queued_on_def split: prod.splits if_splits)
qed

text \<open>A fresh row belongs to the mission of its lane.\<close>

lemma inserted_work:
  assumes "insert_queued_task n db = Inr (i, db')" and "ids_ok db"
  shows "\<exists>t. get_task i db' = Some t \<and> tk_work t = nt_work n"
proof -
  have "get_task (db_next db) db = None"
    using assms(2) by (auto simp: get_task_def tbl_get_None_iff ids_ok_def list_all_iff)
  with assms(1) show ?thesis
    by (auto simp: insert_queued_task_def insert_task_row_def insert_task_def fresh_task_def get_task_def
        tbl_get_append split: prod.splits if_splits)
qed

section \<open>The operations of a post\<close>

lemma light_merge:
  "light_write (\<lambda>r. r\<lparr>tk_coalesced := tk_coalesced r @ ms, tk_work := w r, tk_updated_at := n\<rparr>)"
  "light_write (\<lambda>r. r\<lparr>tk_coalesced := tk_coalesced r @ ms, tk_originator := orf r, tk_work := w r, tk_updated_at := n\<rparr>)"
  "light_write (\<lambda>r. r\<lparr>tk_queued_reason := Some approval_pending\<rparr>)"
  "light_write (\<lambda>r. r\<lparr>tk_result_cards := rf r\<rparr>)" "light_write (\<lambda>r. r\<lparr>tk_budget_override := b\<rparr>)"
  by (simp_all add: light_write_def same_task_def same_core_def)

context router_writes
begin

lemma step_light:
  assumes "light_write f" and "\<And>t. t \<in> set (db_tasks db) \<Longrightarrow> p t \<Longrightarrow> waiting t"
  shows "step_of R db (db\<lparr>db_tasks := tbl_upd p f (db_tasks db)\<rparr>)"
  using assms by (intro step_write) (simp add: light_write_def)

lemma step_enqueue:
  assumes "enqueue rc tr profile lane lw db = Inr ((i, co), db')"
  shows "step_of R db db' \<and> (ids_ok db \<longrightarrow> carried_by i lane (rc_msg rc) db')
    \<and> (\<not> co \<longrightarrow> ids_ok db \<longrightarrow> (\<exists>t. get_task i db' = Some t \<and> tk_work t = lw))"
proof (cases "lock_queued_task lane db")
  case None
  with assms obtain n where n: "insert_queued_task n db = Inr (i, db')" "nt_lane n = lane" "nt_coalesced n = [rc_msg rc]"
      "nt_work n = lw"
    by (auto simp: enqueue_def Let_def plan_arrival_def split: option.splits)
  show ?thesis
    using step_queued_insert [OF n(1)] lock_queued_task_None [OF None] inserted_carried [OF n(1), of "rc_msg rc"]
      inserted_work [OF n(1)] n(2-)
    by simp
next
  case (Some t)
  let ?f = "\<lambda>r. r\<lparr>tk_coalesced := tk_coalesced r @ [rc_msg rc],
      tk_work := (case tk_work r of None \<Rightarrow> lw | Some w \<Rightarrow> Some w), tk_updated_at := rc_now rc\<rparr>"
  from Some assms obtain db1 where u: "update_task (tk_id t) ?f db = Inr db1"
      and p: "promote_queued (tk_id t) lane (makes_question (rc_question rc) tr) db1 = Inr db'" and i: "i = tk_id t" and co
    by (auto simp: enqueue_def Let_def plan_arrival_def split: option.splits)
  note m = step_merge [OF Some u light_merge(1)]
  then have c: "ids_ok db \<Longrightarrow> carried_by i lane (rc_msg rc) db1" by (simp add: carried_by_def i)
  have "step_of R db db'"
  proof (rule step_seq [OF conjunct1 [OF m]])
    assume "ids_ok db" "ids_ok db1"
    with m show "step_of R db1 db'"
      by (intro step_promote [OF p]) (auto simp: waiting_def queued_on_def)
  qed
  with c promote_keeps [OF p] \<open>co\<close> show ?thesis by blast
qed

lemma step_cancel_closed:
  assumes "cancel_closed i now db = Inr db'"
    and "\<And>t. ids_ok db \<Longrightarrow> get_task i db = Some t \<Longrightarrow> closed_mission (tk_work t) db"
  shows "step_of R db db'"
proof (cases "get_task i db")
  case None
  with assms(1) show ?thesis by (simp add: cancel_closed_def)
next
  case (Some t)
  show ?thesis
  proof (cases "tk_status t = Queued")
    case False
    with Some assms(1) show ?thesis by (simp add: cancel_closed_def)
  next
    case True
    let ?f = "\<lambda>t. t\<lparr>tk_status := Cancelled, tk_failure := Some FailCancelled, tk_finished_at := Some now,
        tk_stop_reason := Some ''approval_closed'', tk_updated_at := now\<rparr>"
    let ?e = "insert_server_event i (tk_attempt t) ''status'' ''cancel'' ''approval_closed'' ''ok'' now db"
    have ev: "step_of R db ?e" by (simp add: step_no_tasks)
    have tasks: "db_tasks ?e = db_tasks db" "db_works ?e = db_works db" by (simp_all add: insert_server_event_def)
    with Some have "get_task i ?e = Some t" by (simp add: get_task_def)
    with Some True assms(1) obtain db2 where d2: "db2 = ?e\<lparr>db_tasks := tbl_modify tk_id i ?f (db_tasks ?e)\<rparr>"
        and db': "db_tasks db' = db_tasks db2" "db_next db' = db_next db2" "db_works db' = db_works db2"
      by (auto simp: cancel_closed_def cancel_one_def update_task_def update_lane_def split: if_splits)
    have "step_of R ?e db2" if ids: "ids_ok db"
    proof -
      have "closed_mission (tk_work t) ?e" using assms(2) [OF ids Some] closed_mission_same [OF tasks(2)] by simp
      then show ?thesis
        unfolding d2 tbl_modify_def using task_with_id [OF ids Some] True tasks(1)
        by (intro step_write) (auto simp: waiting_def same_task_def same_core_def cancels_def)
    qed
    then have "step_of R db db2" using step_seq [OF ev] by blast
    with db' step_other [of db' db2] show ?thesis using step_trans by force
  qed
qed

lemma step_quiet_hold: "step_of R db (snd (quiet_hold i db))"
proof (cases "ids_ok db")
  case True
  have "step_of R db (db\<lparr>db_tasks := tbl_modify tk_id i (\<lambda>t. t\<lparr>tk_queued_reason := Some approval_pending\<rparr>) (db_tasks db)\<rparr>)"
    if "get_task i db = Some t" "tk_status t = Queued" for t
    unfolding tbl_modify_def using task_with_id [OF True that(1)] that(2)
    by (intro step_light light_merge(3)) (auto simp: waiting_def)
  then show ?thesis by (simp add: quiet_hold_def split: option.split)
qed (simp add: step_of_def)

lemma step_hold:
  assumes "hold_trigger rc tr lw i co db = Inr (h, db')"
    and "\<not> co \<Longrightarrow> ids_ok db \<Longrightarrow> \<exists>t. get_task i db = Some t \<and> tk_work t = lw"
  shows "step_of R db db'"
proof -
  have close: "step_of R db d" if "holds_for lw db = Inr (hold, True)" "\<not> co" "cancel_closed i (rc_now rc) db = Inr d" for hold d
    using assms(2) [OF that(2)] holds_closed [OF that(1)] by (intro step_cancel_closed [OF that(3)]) auto
  show ?thesis
    using assms(1) close step_quiet_hold step_trans
    by (auto simp: hold_trigger_def Let_def split: if_splits prod.splits) (metis snd_conv step_trans)+
qed

lemma step_route:
  assumes "route_trigger rc tr db = Inr (x, db')"
  shows "step_of R db db'"
proof -
  obtain lane db1 lw db2 i co db3 h where
      "resolve_lane_for (rc_room rc) (tr_agent tr) (profile_of (rc_room rc) (tr_agent tr) db) (trigger_opts rc tr) (rc_now rc) db = Inr (lane, db1)"
      "bind_lane_work lane (rc_work rc) db1 = Inr (lw, db2)"
      and e: "enqueue rc tr (profile_of (rc_room rc) (tr_agent tr) db) lane lw db2 = Inr ((i, co), db3)"
      and h: "hold_trigger rc tr lw i co db3 = Inr (h, db')"
    using assms by (auto simp: route_trigger_def Let_def)
  then have "step_of R db db2" using no_tasks_resolve no_tasks_bind no_tasks_trans step_no_tasks by blast
  moreover note q = step_enqueue [OF e]
  have "step_of R db2 db'"
  proof (rule step_seq [OF conjunct1 [OF q]])
    show "ids_ok db2 \<Longrightarrow> ids_ok db3 \<Longrightarrow> step_of R db3 db'" using step_hold [OF h] q by blast
  qed
  ultimately show ?thesis using step_trans by blast
qed

lemma step_post_step:
  assumes "post_step rc cause ret tr st = Inr st'"
  shows "step_of R (snd st) (snd st')"
proof -
  obtain entries looped held db where st: "st = ((entries, looped, held), db)" by (metis prod.exhaust)
  obtain v db1 where j: "judge_room_hop (rc_room rc) (rc_ws rc) (hop_of_post rc cause ret (tr_agent tr)) (rc_msg rc) (tr_rule tr) (rc_now rc) db = (v, db1)"
    by fastforce
  then have "step_of R db db1" using no_tasks_hop step_no_tasks by blast
  moreover have "step_of R db1 (snd st')"
    using assms j st step_route no_tasks_pause step_no_tasks
    by (auto simp: post_step_def split: if_splits)
  ultimately show ?thesis unfolding st using step_trans by simp
qed

lemma step_fold:
  assumes "foldE (post_step rc cause ret) trs st = Inr st'"
  shows "step_of R (snd st) (snd st')"
  using assms
proof (induction trs arbitrary: st)
  case Nil
  then show ?case by auto
next
  case (Cons tr trs)
  then obtain s1 where "post_step rc cause ret tr st = Inr s1" "foldE (post_step rc cause ret) trs s1 = Inr st'" by auto
  with Cons.IH step_post_step step_trans show ?case by blast
qed

lemma step_schedule:
  assumes "schedule_fallback room fb primary profile msg og work now db = Inr (r, db')"
  shows "step_of R db db'"
proof (cases "list_ex (pending_fallback primary) (db_tasks db)")
  case True
  with assms show ?thesis by (simp add: schedule_fallback_def)
next
  case False
  then obtain lane db1 lw db2 where
      "resolve_lane_for room (fb_agent fb) profile (fallback_opts work) now db = Inr (lane, db1)"
      "bind_lane_work lane work db1 = Inr (lw, db2)"
      and i: "insert_task_row (fallback_task room lane fb primary profile msg og lw now (db_next db2)) db2 = Inr db'"
    using assms by (auto simp: schedule_fallback_def)
  then have "step_of R db db2" using no_tasks_resolve no_tasks_bind no_tasks_trans step_no_tasks by blast
  moreover have "fresh_row (fallback_task room lane fb primary profile msg og lw now (db_next db2)) db2"
    by (simp add: fresh_row_def fallback_task_def fresh_task_def)
  ultimately show ?thesis using step_insert_task [OF i] step_trans by blast
qed

lemma step_post_fallback:
  assumes "post_fallback rc dec asg entries db = Inr (es, db')"
  shows "step_of R db db'"
  using assms step_schedule by (auto simp: post_fallback_def Let_def split: option.splits if_splits)

lemma step_cancel_fallbacks:
  assumes "cancel_fallbacks_for i now db = Inr db'"
  shows "step_of R db db'"
proof -
  let ?f = "\<lambda>t. t\<lparr>tk_status := Cancelled, tk_finished_at := Some now, tk_updated_at := now\<rparr>"
  have "db' = db\<lparr>db_tasks := tbl_upd (pending_fallback i) ?f (db_tasks db)\<rparr>"
    using assms by (simp add: cancel_fallbacks_for_def update_tasks_def split: if_splits)
  then show ?thesis
    by (simp only:) (rule step_write, auto simp: pending_fallback_def waiting_def same_task_def same_core_def cancels_def)
qed

lemma step_finish:
  assumes "finish_post author room msg now db = Inr db'"
  shows "step_of R db db'"
proof -
  obtain db1 where d1: "(case author_task author of None \<Rightarrow> Inr db
            | Some t \<Rightarrow> bindE (cancel_fallbacks_for t now db) (\<lambda>db.
                Inr (insert_server_event t (author_attempt author db) ''status'' ''post_message'' [] ''ok'' now db))) = Inr db1"
      and "db' = snd (update_room room (\<lambda>_. True) (\<lambda>r. r\<lparr>rm_updated_at := now\<rparr>) db1)"
    using assms by (auto simp: finish_post_def)
  then have "step_of R db1 db'" by (simp add: step_no_tasks)
  moreover have "step_of R db db1"
    using d1 step_cancel_fallbacks step_trans [OF _ step_no_tasks [OF no_tasks_writes(7)]]
    by (auto split: option.splits)
  ultimately show ?thesis using step_trans by blast
qed

lemma step_route_all:
  assumes "route_all rc dec asg db = Inr (res, db')"
  shows "step_of R db db'"
proof -
  obtain cause ret p entries looped held db1 es where
      f: "foldE (post_step rc cause ret) (dec_triggers dec) (([], [], []), db) = Inr ((entries, looped, held), db1)"
      and p: "post_fallback rc dec asg entries db1 = Inr (es, db')"
    using assms by (auto simp: route_all_def Let_def)
  from step_fold [OF f] step_post_fallback [OF p] step_trans show ?thesis by simp
qed

lemma step_wake_enqueue:
  assumes "wake_enqueue w profile lane msg og lw db = Inr (i, db')"
  shows "step_of R db db' \<and> (ids_ok db \<longrightarrow> (\<exists>t. get_task i db' = Some t \<and> queued_on lane t))"
proof (cases "lock_queued_task lane db")
  case None
  let ?n = "\<lparr>nt_lane = lane, nt_room = wu_room w, nt_agent = wu_agent w, nt_profile = profile, nt_trigger = msg,
             nt_delegated_from = None, nt_originator = og, nt_coalesced = [], nt_work = lw,
             nt_now = wu_now w, nt_kind = None, nt_card = None\<rparr>"
  have n: "insert_queued_task ?n db = Inr (i, db')" using None assms by (simp add: wake_enqueue_def)
  have "\<exists>t. get_task i db' = Some t \<and> queued_on lane t" if "ids_ok db"
  proof -
    have "get_task (db_next db) db = None"
      using that by (auto simp: get_task_def tbl_get_None_iff ids_ok_def list_all_iff)
    with n show ?thesis
      by (auto simp: insert_queued_task_def insert_task_row_def insert_task_def fresh_task_def get_task_def
          tbl_get_append queued_on_def split: prod.splits if_splits)
  qed
  with step_queued_insert [OF n] lock_queued_task_None [OF None] show ?thesis by simp
next
  case (Some t)
  let ?f = "\<lambda>r. r\<lparr>tk_coalesced := tk_coalesced r @ [msg],
      tk_originator := (case tk_originator r of None \<Rightarrow> og | Some u \<Rightarrow> Some u),
      tk_work := (case tk_work r of None \<Rightarrow> lw | Some v \<Rightarrow> Some v), tk_updated_at := wu_now w\<rparr>"
  from Some assms obtain db1 where u: "update_task (tk_id t) ?f db = Inr db1"
      and p: "promote_queued (tk_id t) lane False db1 = Inr db'" and i: "i = tk_id t"
    by (auto simp: wake_enqueue_def)
  note m = step_merge [OF Some u light_merge(2)]
  then have c: "ids_ok db \<Longrightarrow> carried_by i lane msg db1" by (simp add: carried_by_def i)
  have "step_of R db db'"
  proof (rule step_seq [OF conjunct1 [OF m]])
    assume "ids_ok db" "ids_ok db1"
    with m show "step_of R db1 db'"
      by (intro step_promote [OF p]) (auto simp: waiting_def queued_on_def)
  qed
  with c promote_keeps [OF p] carried_queued show ?thesis by blast
qed

lemma step_wake:
  assumes "wake_task w db = Inr (i, db')"
  shows "step_of R db db' \<and> (ids_ok db \<longrightarrow> i = uuid_nil \<or> (\<exists>t. get_task i db' = Some t \<and> waiting t))"
proof (cases "participant_profile (wu_room w) (wu_agent w) db")
  case None
  with assms show ?thesis by (simp add: wake_task_def)
next
  case (Some profile)
  obtain msg db1 where n: "(if wu_notice w then system_post (wu_room w) (wu_now w) db else (wu_trigger w, db)) = (msg, db1)"
    by fastforce
  then have s1: "step_of R db db1" using step_no_tasks [OF no_tasks_writes(11)] by (auto split: if_splits) (metis snd_conv)
  obtain v db2 where j: "judge_room_hop (wu_room w) (wu_ws w) (hop_of_wake w db1) msg rule_platform (wu_now w) db1 = (v, db2)"
    by fastforce
  note rest = assms [unfolded wake_task_def Some option.case n wake_posted.simps wake_judged.simps Let_def j]
  have s2: "step_of R db db2" using step_trans [OF s1 step_no_tasks [OF no_tasks_hop [OF j]]] .
  show ?thesis
  proof (cases "lv_allowed v")
    case False
    with rest have "step_of R db2 db' \<and> i = uuid_nil" using no_tasks_pause step_no_tasks by auto
    with s2 step_trans show ?thesis by blast
  next
    case True
    with rest obtain lane db3 lw db4 og where
        "resolve_lane_for (wu_room w) (wu_agent w) profile (wake_opts (requester_mission (wu_requester w) db2)) (wu_now w) db2 = Inr (lane, db3)"
        "bind_lane_work lane (requester_mission (wu_requester w) db2) db3 = Inr (lw, db4)"
        and e: "wake_enqueue w profile lane msg og lw db4 = Inr (i, db')"
      by (auto split: prod.splits)
    then have "step_of R db2 db4" using no_tasks_resolve no_tasks_bind no_tasks_trans step_no_tasks by blast
    then have s4: "step_of R db db4" using s2 step_trans by blast
    with step_wake_enqueue [OF e] step_trans have "step_of R db db'" by blast
    moreover have "ids_ok db \<Longrightarrow> ids_ok db4" using s4 by (simp add: step_of_def)
    ultimately show ?thesis using step_wake_enqueue [OF e] by (auto simp: waiting_def queued_on_def)
  qed
qed

lemma step_attach:
  assumes "attach_result_cards i ids db = Inr db'" and "ids_ok db \<Longrightarrow> i = uuid_nil \<or> (\<exists>t. get_task i db = Some t \<and> waiting t)"
  shows "step_of R db db'"
proof (cases "i = uuid_nil \<or> ids = []")
  case True
  with assms(1) show ?thesis by (auto simp: attach_result_cards_def)
next
  case False
  then have "update_task i (\<lambda>t. t\<lparr>tk_result_cards := remdups (tk_result_cards t @ ids)\<rparr>) db = Inr db'"
    using assms(1) by (simp add: attach_result_cards_def)
  then show ?thesis by (rule step_update [OF _ light_merge(4)]) (use False assms(2) in auto)
qed

lemma step_woken:
  assumes "wake_task w db = Inr (i, db1)" and "attach_result_cards i ids db1 = Inr db'"
  shows "step_of R db db'"
  using step_seq [OF conjunct1 [OF step_wake [OF assms(1)]] step_attach [OF assms(2)]] step_wake [OF assms(1)] by blast

lemma step_reentry:
  assumes "notify_reentry c db = Inr db'"
  shows "step_of R db db'"
  using assms step_woken step_no_tasks [OF no_tasks_writes(4)]
  by (auto simp: notify_reentry_def split: option.splits if_splits)

end

locale post_writes = router_writes +
  assumes R_release: "ids_ok db \<Longrightarrow>
      (\<And>t. t \<in> set (db_tasks db) \<Longrightarrow> p t \<Longrightarrow> waiting t \<and> same_core (f t) t \<and> tk_status (f t) = tk_status t) \<Longrightarrow>
      R db (db\<lparr>db_tasks := tbl_upd p f (db_tasks db)\<rparr>)"
begin

lemma step_release:
  assumes "\<And>t. t \<in> set (db_tasks db) \<Longrightarrow> p t \<Longrightarrow> waiting t \<and> same_core (f t) t \<and> tk_status (f t) = tk_status t"
  shows "step_of R db (db\<lparr>db_tasks := tbl_upd p f (db_tasks db)\<rparr>)"
  unfolding step_of_def using R_release [of db p f] ids_ok_upd [of db p f] assms
  by (auto simp: same_core_def)

lemma step_gate:
  assumes "gate_message work author content msg now db = Inr db'"
  shows "step_of R db db'"
proof -
  have rel: "step_of R a (quiet_release w to now a)" for w to a
  proof -
    define b where "b = (case get_work w a of None \<Rightarrow> a
        | Some r \<Rightarrow> if wk_quiet r = to then a else set_quiet w to (if to = None then None else Some now) a)"
    have "no_tasks a b" by (simp add: b_def split: option.split)
    moreover have "step_of R b (release_held_tasks w now b)"
      unfolding release_held_tasks_def
      by (rule step_release) (simp_all add: held_task_def waiting_def same_core_def)
    ultimately show ?thesis unfolding quiet_release_def b_def [symmetric] using step_no_tasks step_trans by blast
  qed
  have ent: "step_of R a (snd (quiet_enter w now a))" for w a
  proof -
    have "step_of R (set_quiet w (Some ''quiet'') (Some now) a)
        ((set_quiet w (Some ''quiet'') (Some now) a)\<lparr>db_tasks := tbl_upd p (\<lambda>t. t\<lparr>tk_queued_reason := Some approval_pending\<rparr>)
           (db_tasks (set_quiet w (Some ''quiet'') (Some now) a))\<rparr>)"
      if "\<And>t. p t \<Longrightarrow> waiting t" for p
      using that by (intro step_light light_merge(3)) blast
    note enter = step_trans [OF step_no_tasks [OF no_tasks_writes(9)] this]
    have "agent_made b t \<Longrightarrow> waiting t" for b t by (simp add: agent_made_def waiting_def)
    then show ?thesis by (auto simp: quiet_enter_def Let_def split: option.split intro!: enter)
  qed
  show ?thesis
    using assms rel ent by (auto simp: gate_message_def split: option.splits if_splits)
qed

lemma step_stored:
  assumes "post_stored ctx content dec asg (msg, db) = Inr (res, db')"
  shows "step_of R db db'"
proof -
  obtain db2 rc db3 where g: "gate_message (rc_work (ctx msg None)) (rc_author (ctx msg None)) content msg (rc_now (ctx msg None)) db = Inr db2"
      and a: "route_all rc dec asg db2 = Inr (res, db3)"
      and f: "finish_post (rc_author rc) (rc_room rc) (rc_msg rc) (rc_now rc) db3 = Inr db'"
    using assms by (auto simp: route_stored_def Let_def)
  from step_trans [OF step_gate [OF g] step_trans [OF step_route_all [OF a] step_finish [OF f]]] show ?thesis .
qed

lemma step_post_row:
  assumes "post_row pu room ws legacy author inp platform part now db = Inr (res, db')"
  shows "step_of R db db'"
proof -
  have all: "step_of R db db'"
    if "store_post pu room inp author th part ms work qp now db = Inr (msg, db1)"
      and "post_stored ctx content dec asg (msg, db1) = Inr (res, db')" for th ms work qp msg db1 ctx content dec asg
    using step_trans [OF step_no_tasks [OF no_tasks_store_post [OF that(1)]] step_stored [OF that(2)]] .
  from assms show ?thesis
    unfolding post_row_def Let_def by (elim bindE_InrE) (clarsimp simp del: post_stored.simps split: prod.splits, rule all)
qed

lemma step_post:
  assumes "post_message pu room author inp platform db = Inr (res, db')"
  shows "step_of R db db'"
  using assms step_post_row by (auto simp: post_message_def split: option.splits)

lemma step_group:
  assumes "post_group pu room author inp parts db = Inr (rs, db')"
  shows "step_of R db db'"
proof -
  have run: "step_of R a b" if "post_parts post i ps a = Inr (qs, b)"
    and "\<And>i p a r b. post i p a = Inr (r, b) \<Longrightarrow> step_of R a b" for post i ps a qs b
    using that
  proof (induction ps arbitrary: i a qs)
    case (Cons p ps)
    then obtain r a1 qs' where "post i p a = Inr (r, a1)" "post_parts post (Suc i) ps a1 = Inr (qs', b)" by auto
    with Cons show ?case using step_trans by blast
  qed simp
  have first: "step_of R db (db\<lparr>db_next := db_next db + 1\<rparr>)" by (rule step_other) simp_all
  show ?thesis
    using assms
    by (auto simp: post_group_def split: if_splits option.splits
        intro!: step_trans [OF first run] elim!: step_post_row)
qed

end

locale follow_writes = router_writes +
  assumes R_join: "ids_ok db \<Longrightarrow>
      R db (db\<lparr>db_tasks := tbl_modify tk_id i (\<lambda>t. t\<lparr>tk_join_fired := Some j, tk_updated_at := n\<rparr>) (db_tasks db)\<rparr>)"
begin

lemma step_join_mark:
  assumes "update_task i (\<lambda>t. t\<lparr>tk_join_fired := Some j, tk_updated_at := n\<rparr>) db = Inr db'"
  shows "step_of R db db'"
proof -
  have "db' = db \<or> db' = db\<lparr>db_tasks := tbl_modify tk_id i (\<lambda>t. t\<lparr>tk_join_fired := Some j, tk_updated_at := n\<rparr>) (db_tasks db)\<rparr>"
    using assms by (auto simp: update_task_def split: option.splits if_splits)
  then show ?thesis
    using R_join ids_ok_upd [of db "\<lambda>r. tk_id r = i" "\<lambda>t. t\<lparr>tk_join_fired := Some j, tk_updated_at := n\<rparr>"]
    by (auto simp: step_of_def R_refl tbl_modify_def)
qed

lemma step_join:
  assumes "maybe_fire_join c deleg db = Inr (fired, db')"
  shows "step_of R db db'"
proof -
  have all: "step_of R db db'"
    if u: "update_task deleg (\<lambda>t. t\<lparr>tk_join_fired := Some (ec_now c), tk_updated_at := ec_now c\<rparr>) db = Inr db1"
      and p: "system_post room now db1 = (msg, db2)"
      and w: "wake_task w db2 = Inr (woken, db3)" and a: "attach_result_cards woken cs db3 = Inr db'"
    for db1 room now msg db2 w woken db3 cs
  proof -
    have "step_of R db1 db2" using step_no_tasks [OF no_tasks_writes(11)] p by (metis snd_conv)
    with step_join_mark [OF u] step_woken [OF w a] step_trans show ?thesis by blast
  qed
  from assms show ?thesis
    by (auto simp: maybe_fire_join_def join_marked_def join_posted_case Let_def split: option.splits if_splits prod.splits elim: all)
qed

lemma step_lane_done:
  assumes "after_lane_done c db = Inr db'"
  shows "step_of R db db'"
proof -
  have both: "notify_reentry c db = Inr db1 \<Longrightarrow> maybe_fire_join c d db1 = Inr (f, db') \<Longrightarrow> step_of R db db'" for db1 d f
    using step_reentry step_join step_trans by blast
  from assms show ?thesis
    by (auto simp: after_lane_done_def split: option.splits if_splits elim: both step_reentry step_join)
qed

lemma step_lane_ended:
  assumes "after_lane_ended e db = Inr db'"
  shows "step_of R db db'"
  using assms step_lane_done step_join
  by (auto simp: after_lane_ended_def split: sum.splits if_splits option.splits)

end

end
