(* ===== verification/Post_Facts.thy ===== *)
theory Post_Facts
  imports Route_Steps Claim_Facts
begin

text \<open>
  What a post guarantees, whatever its author and content: it leaves every turn that has started alone,
  it never puts two queued tasks on one lane, each trigger it reports is carried by a queued task, and an
  agent's trigger in a mission that waits for its Director is not handed out. Each is an instance of the
  contract of \<open>Route_Steps\<close>. With the sample stores of the witnesses.
\<close>

section \<open>Sample stores\<close>

definition post_pu :: "string \<Rightarrow> uuid option" where
  "post_pu s = (if s = ''6'' then Some 6 else if s = ''8'' then Some 8 else if s = ''1'' then Some 1 else None)"

definition agent_seat :: "uuid \<Rightarrow> uuid \<Rightarrow> time \<Rightarrow> participant_row" where
  "agent_seat a f at' = \<lparr>pr_id = 30 + a, pr_room = 3, pr_agent = Some a, pr_profile = Some f, pr_user = None, pr_joined = at', pr_left = None, pr_role = RoleMember\<rparr>"

text \<open>
  A room of two agents: Dev (6) runs task 1 of the mission 20 on lane 2, QA (8) finished its lane 12.
\<close>

definition post_db :: db where
  "post_db = empty_db\<lparr>
     db_works := [sample_mission\<lparr>wk_condition := None, wk_met := []\<rparr>], db_rooms := [sample_room],
     db_tasks := [sample_task\<lparr>tk_work := Some 20\<rparr>],
     db_agents := [\<lparr>ag_id = 6, ag_max_tasks = 2, ag_name = ''D'', ag_disabled = False, ag_budget = None\<rparr>,
                   \<lparr>ag_id = 8, ag_max_tasks = 2, ag_name = ''Q'', ag_disabled = False, ag_budget = None\<rparr>],
     db_profiles := [\<lparr>pf_id = 7, pf_fallback = None, pf_kind = [], pf_agent = 6, pf_name = []\<rparr>,
                     \<lparr>pf_id = 9, pf_fallback = None, pf_kind = [], pf_agent = 8, pf_name = []\<rparr>],
     db_participants := [agent_seat 6 7 0, agent_seat 8 9 1,
        \<lparr>pr_id = 31, pr_room = 3, pr_agent = None, pr_profile = None, pr_user = Some 1, pr_joined = 0, pr_left = None, pr_role = RoleMember\<rparr>],
     db_runtimes := [\<lparr>rn_id = 5, rn_workspace = 1, rn_repos = [], rn_online = True, rn_offline_since = None,
        rn_last_seen_at = None, rn_updated_at = 0\<rparr>],
     db_lanes := [sample_lane\<lparr>ln_work := Some 20\<rparr>,
                  sample_lane\<lparr>ln_id := 12, ln_agent := 8, ln_profile := 9, ln_status := LaneDone, ln_work := Some 20\<rparr>],
     db_attempts := [(blank_attempt 1 1)\<lparr>ar_dispatched_at := Some 5\<rparr>],
     db_clock := 20, db_now := 20, db_next := 100\<rparr>"

definition by_kim :: post_author where
  "by_kim = \<lparr>pa_type = ByUser, pa_user = Some 1, pa_agent = None, pa_task = None, pa_attempt = 0\<rparr>"

definition by_dev :: post_author where
  "by_dev = \<lparr>pa_type = ByAgent, pa_user = None, pa_agent = Some 6, pa_task = Some 1, pa_attempt = 1\<rparr>"

definition plain_post :: "string \<Rightarrow> message_create" where
  "plain_post s = \<lparr>mc_content = s, mc_parent = None, mc_work = WorkIs 20, mc_suppress = [], mc_new_lane = False\<rparr>"

text \<open>Dev's post to QA as one part of a group, whose addressees come from the request's list.\<close>

definition to_qa :: part_row where
  "to_qa = \<lparr>pt_group = 90, pt_index = 0, pt_size = 2, pt_to = [\<lparr>m_kind = MentionAgent, m_id = ''8'', m_name = ''Q''\<rparr>]\<rparr>"

definition dev_asks :: "db_error + post_result \<times> db" where
  "dev_asks = post_row post_pu 3 1 None by_dev (plain_post ''k'') None (Some to_qa) 20 post_db"

section \<open>Started turns\<close>

text \<open>Every turn that left the queue is, row for row, what it was.\<close>

definition started_kept :: "db \<Rightarrow> db \<Rightarrow> bool" where
  "started_kept db db' \<longleftrightarrow>
     (\<forall>i t. get_task i db = Some t \<longrightarrow> \<not> waiting t \<longrightarrow> get_task i db' = Some t)"

lemma get_task_upd:
  assumes "\<And>t. t \<in> set (db_tasks db) \<Longrightarrow> p t \<Longrightarrow> tk_id (f t) = tk_id t"
  shows "get_task i (db\<lparr>db_tasks := tbl_upd p f (db_tasks db)\<rparr>) = map_option (\<lambda>t. if p t then f t else t) (get_task i db)"
proof -
  have "(\<And>t. t \<in> set ts \<Longrightarrow> p t \<Longrightarrow> tk_id (f t) = tk_id t) \<Longrightarrow>
      tbl_get tk_id (tbl_upd p f ts) i = map_option (\<lambda>t. if p t then f t else t) (tbl_get tk_id ts i)" for ts
    by (induction ts) (auto simp: tbl_upd_def)
  with assms show ?thesis by (simp add: get_task_def)
qed

lemma get_task_inserted:
  "get_task i db = Some t \<Longrightarrow> get_task i (db\<lparr>db_tasks := db_tasks db @ [r], db_next := n\<rparr>) = Some t"
  by (simp add: get_task_def tbl_get_append)

lemma started_kept_upd:
  assumes "\<And>t. t \<in> set (db_tasks db) \<Longrightarrow> p t \<Longrightarrow> waiting t \<and> same_core (f t) t"
  shows "started_kept db (db\<lparr>db_tasks := tbl_upd p f (db_tasks db)\<rparr>)"
proof -
  have "get_task i (db\<lparr>db_tasks := tbl_upd p f (db_tasks db)\<rparr>) = map_option (\<lambda>t. if p t then f t else t) (get_task i db)" for i
    using assms by (intro get_task_upd) (auto simp: same_core_def)
  with assms show ?thesis
    by (auto simp: started_kept_def dest: get_task_row)
qed

interpretation started: post_writes started_kept
proof unfold_locales
  show "started_kept db db'" if "db_tasks db' = db_tasks db" for db db'
    using that by (simp add: started_kept_def get_task_def)
  show "started_kept db (db\<lparr>db_tasks := tbl_upd p f (db_tasks db)\<rparr>)"
    if "\<And>t. t \<in> set (db_tasks db) \<Longrightarrow> p t \<Longrightarrow>
      waiting t \<and> same_task (f t) t \<and> (tk_status (f t) = tk_status t \<or> cancels db t (f t))" for db p f
    using that by (intro started_kept_upd) (auto simp: same_task_def)
  show "started_kept db (db\<lparr>db_tasks := tbl_upd p f (db_tasks db)\<rparr>)"
    if "\<And>t. t \<in> set (db_tasks db) \<Longrightarrow> p t \<Longrightarrow> waiting t \<and> same_core (f t) t \<and> tk_status (f t) = tk_status t" for db p f
    using that by (intro started_kept_upd) auto
  show "started_kept db (db\<lparr>db_tasks := db_tasks db @ [t], db_next := db_next db + 1\<rparr>)" for db t
    using get_task_inserted by (simp add: started_kept_def)
qed (auto simp: started_kept_def)

section \<open>One queued task per lane\<close>

text \<open>FR-3.4: what comes for a lane that has a queued task is merged into that task.\<close>

definition one_queued :: "db \<Rightarrow> bool" where
  "one_queued db \<longleftrightarrow> distinct (map tk_lane (filter (\<lambda>t. tk_status t = Queued) (db_tasks db)))"

definition queue_kept :: "db \<Rightarrow> db \<Rightarrow> bool" where
  "queue_kept db db' \<longleftrightarrow> (one_queued db \<longrightarrow> one_queued db')"

lemma distinct_queued_upd:
  assumes "\<And>t. t \<in> set ts \<Longrightarrow> p t \<Longrightarrow> tk_lane (f t) = tk_lane t \<and> (tk_status (f t) = Queued \<longrightarrow> tk_status t = Queued)"
    and "distinct (map tk_lane (filter (\<lambda>t. tk_status t = Queued) ts))"
  shows "distinct (map tk_lane (filter (\<lambda>t. tk_status t = Queued) (tbl_upd p f ts)))
    \<and> set (map tk_lane (filter (\<lambda>t. tk_status t = Queued) (tbl_upd p f ts)))
        \<subseteq> set (map tk_lane (filter (\<lambda>t. tk_status t = Queued) ts))"
  using assms
proof (induction ts)
  case (Cons t ts)
  have "tbl_upd p f (t # ts) = (if p t then f t else t) # tbl_upd p f ts" by (simp add: tbl_upd_def)
  moreover have "tk_lane (if p t then f t else t) = tk_lane t"
    "tk_status (if p t then f t else t) = Queued \<Longrightarrow> tk_status t = Queued"
    using Cons.prems(1) [of t] by (auto split: if_splits)
  moreover note IH = Cons.IH [OF Cons.prems(1)]
  ultimately show ?case using Cons.prems(2) by (auto split: if_splits)
qed (simp add: tbl_upd_def)

lemma queue_kept_upd:
  assumes "\<And>t. t \<in> set (db_tasks db) \<Longrightarrow> p t \<Longrightarrow> tk_lane (f t) = tk_lane t \<and> (tk_status (f t) = Queued \<longrightarrow> tk_status t = Queued)"
  shows "queue_kept db (db\<lparr>db_tasks := tbl_upd p f (db_tasks db)\<rparr>)"
  using distinct_queued_upd [of "db_tasks db" p f, OF assms] by (simp add: queue_kept_def one_queued_def)

lemma queue_kept_insert:
  assumes "fresh_row t db"
  shows "queue_kept db (db\<lparr>db_tasks := db_tasks db @ [t], db_next := n\<rparr>)"
  using assms by (auto simp: queue_kept_def one_queued_def fresh_row_def queued_on_def list_ex_iff)

interpretation queue: post_writes queue_kept
proof unfold_locales
  show "queue_kept db db'" if "db_tasks db' = db_tasks db" for db db'
    using that by (simp add: queue_kept_def one_queued_def)
  show "queue_kept db (db\<lparr>db_tasks := tbl_upd p f (db_tasks db)\<rparr>)"
    if "\<And>t. t \<in> set (db_tasks db) \<Longrightarrow> p t \<Longrightarrow>
      waiting t \<and> same_task (f t) t \<and> (tk_status (f t) = tk_status t \<or> cancels db t (f t))" for db p f
    using that by (intro queue_kept_upd) (fastforce simp: same_task_def same_core_def cancels_def)
  show "queue_kept db (db\<lparr>db_tasks := tbl_upd p f (db_tasks db)\<rparr>)"
    if "\<And>t. t \<in> set (db_tasks db) \<Longrightarrow> p t \<Longrightarrow> waiting t \<and> same_core (f t) t \<and> tk_status (f t) = tk_status t" for db p f
    using that by (intro queue_kept_upd) (simp add: same_core_def)
qed (auto simp: queue_kept_def intro!: queue_kept_insert [unfolded queue_kept_def, rule_format])

interpretation queue_end: follow_writes queue_kept
proof unfold_locales
  show "queue_kept db (db\<lparr>db_tasks := tbl_modify tk_id i (\<lambda>t. t\<lparr>tk_join_fired := Some j, tk_updated_at := n\<rparr>) (db_tasks db)\<rparr>)" for db i j n
    unfolding tbl_modify_def by (rule queue_kept_upd) simp
qed

section \<open>Where a trigger lands\<close>

text \<open>
  The task carries the message on that lane; it is queued there, or it was cancelled and its mission is
  a closed one.
\<close>

definition landed :: "uuid \<Rightarrow> uuid \<Rightarrow> uuid \<Rightarrow> db \<Rightarrow> bool" where
  "landed i lane msg db =
     (case get_task i db of
        None \<Rightarrow> False
      | Some t \<Rightarrow> tk_lane t = lane \<and> List.member (tk_coalesced t) msg
          \<and> (tk_status t = Queued \<or> tk_status t = Cancelled \<and> closed_mission (tk_work t) db))"

text \<open>
  The task of a deferred assignee: on that lane, for that message and for that hour, it stands by. Only
  the answer of the task \<open>by\<close> itself, the one the assignee stands by for, may have cancelled it.
\<close>

definition stands_by :: "uuid \<Rightarrow> uuid \<Rightarrow> uuid \<Rightarrow> time \<Rightarrow> uuid option \<Rightarrow> db \<Rightarrow> bool" where
  "stands_by i lane msg due_at by' db =
     (case get_task i db of
        None \<Rightarrow> False
      | Some t \<Rightarrow> tk_lane t = lane \<and> tk_trigger t = Some msg \<and> tk_not_before t = Some due_at
          \<and> (tk_status t = Deferred \<or> tk_status t = Cancelled \<and> by' \<noteq> None \<and> tk_fallback_for t = by'))"

definition landed_kept :: "db \<Rightarrow> db \<Rightarrow> bool" where
  "landed_kept db db' \<longleftrightarrow> (\<forall>i lane msg. landed i lane msg db \<longrightarrow> landed i lane msg db')"

text \<open>The task waits for its Director, or is closed: no claim may take it.\<close>

definition parked :: "uuid \<Rightarrow> db \<Rightarrow> bool" where
  "parked i db = (case get_task i db of None \<Rightarrow> False | Some t \<Rightarrow> held_task t \<or> tk_status t = Cancelled)"

definition parked_kept :: "db \<Rightarrow> db \<Rightarrow> bool" where
  "parked_kept db db' \<longleftrightarrow> (\<forall>i. parked i db \<longrightarrow> parked i db')"

lemma carried_landed: "carried_by i lane msg db \<Longrightarrow> landed i lane msg db"
  by (auto simp: carried_by_def landed_def queued_on_def split: option.splits)

lemma landed_kept_upd:
  assumes "\<And>t. t \<in> set (db_tasks db) \<Longrightarrow> p t \<Longrightarrow>
      waiting t \<and> same_core (f t) t \<and> (tk_status (f t) = tk_status t \<or> cancels db t (f t))"
  shows "landed_kept db (db\<lparr>db_tasks := tbl_upd p f (db_tasks db)\<rparr>)"
proof -
  have "get_task i (db\<lparr>db_tasks := tbl_upd p f (db_tasks db)\<rparr>) = map_option (\<lambda>t. if p t then f t else t) (get_task i db)" for i
    using assms by (intro get_task_upd) (auto simp: same_core_def)
  moreover have "closed_mission w (db\<lparr>db_tasks := tbl_upd p f (db_tasks db)\<rparr>) = closed_mission w db" for w
    by (rule closed_mission_same) simp
  ultimately show ?thesis
    using assms unfolding landed_kept_def landed_def
    by (fastforce simp: same_core_def cancels_def waiting_def split: option.splits dest: get_task_row)
qed

interpretation landing: post_writes landed_kept
proof unfold_locales
  show "landed_kept db db'" if "db_tasks db' = db_tasks db" "closed_kept db db'" for db db'
    using that by (auto simp: landed_kept_def landed_def get_task_def closed_kept_def split: option.splits)
  show "landed_kept db (db\<lparr>db_tasks := tbl_upd p f (db_tasks db)\<rparr>)"
    if "\<And>t. t \<in> set (db_tasks db) \<Longrightarrow> p t \<Longrightarrow>
      waiting t \<and> same_task (f t) t \<and> (tk_status (f t) = tk_status t \<or> cancels db t (f t))" for db p f
    using that by (intro landed_kept_upd) (auto simp: same_task_def)
  show "landed_kept db (db\<lparr>db_tasks := tbl_upd p f (db_tasks db)\<rparr>)"
    if "\<And>t. t \<in> set (db_tasks db) \<Longrightarrow> p t \<Longrightarrow> waiting t \<and> same_core (f t) t \<and> tk_status (f t) = tk_status t" for db p f
    using that by (intro landed_kept_upd) auto
  show "landed_kept db (db\<lparr>db_tasks := db_tasks db @ [t], db_next := db_next db + 1\<rparr>)" for db t
    using get_task_inserted closed_mission_same [of "db\<lparr>db_tasks := db_tasks db @ [t], db_next := db_next db + 1\<rparr>" db]
    by (fastforce simp: landed_kept_def landed_def split: option.splits)
qed (auto simp: landed_kept_def)

lemma parked_kept_upd:
  assumes "\<And>t. t \<in> set (db_tasks db) \<Longrightarrow> p t \<Longrightarrow> same_task (f t) t \<and> (tk_status (f t) = tk_status t \<or> tk_status (f t) = Cancelled)"
  shows "parked_kept db (db\<lparr>db_tasks := tbl_upd p f (db_tasks db)\<rparr>)"
proof -
  have "get_task i (db\<lparr>db_tasks := tbl_upd p f (db_tasks db)\<rparr>) = map_option (\<lambda>t. if p t then f t else t) (get_task i db)" for i
    using assms by (intro get_task_upd) (auto simp: same_task_def same_core_def)
  moreover have "held_task t \<or> tk_status t = Cancelled \<Longrightarrow> held_task (if p t then f t else t) \<or> tk_status (if p t then f t else t) = Cancelled"
    if "t \<in> set (db_tasks db)" for t
    using assms [OF that] by (auto simp: same_task_def same_core_def held_task_def)
  ultimately show ?thesis
    unfolding parked_kept_def parked_def by (fastforce split: option.splits dest: get_task_row)
qed

interpretation parking: router_writes parked_kept
proof unfold_locales
  show "parked_kept db db'" if "db_tasks db' = db_tasks db" for db db'
    using that by (simp add: parked_kept_def parked_def get_task_def)
  show "parked_kept db (db\<lparr>db_tasks := tbl_upd p f (db_tasks db)\<rparr>)"
    if "\<And>t. t \<in> set (db_tasks db) \<Longrightarrow> p t \<Longrightarrow>
      waiting t \<and> same_task (f t) t \<and> (tk_status (f t) = tk_status t \<or> cancels db t (f t))" for db p f
    using that by (intro parked_kept_upd) (auto simp: cancels_def)
  show "parked_kept db (db\<lparr>db_tasks := db_tasks db @ [t], db_next := db_next db + 1\<rparr>)" for db t
    using get_task_inserted by (fastforce simp: parked_kept_def parked_def split: option.splits)
qed (auto simp: parked_kept_def)

lemma cancel_closed_parks:
  assumes "cancel_closed i now db = Inr db'" and "get_task i db = Some t" and "tk_status t = Queued"
  shows "parked i db'"
proof -
  have "get_task i db' = Some (t\<lparr>tk_status := Cancelled, tk_failure := Some FailCancelled, tk_finished_at := Some now,
        tk_stop_reason := Some ''approval_closed'', tk_updated_at := now\<rparr>)"
    using assms tbl_get_modify [of tk_id "\<lambda>t. t\<lparr>tk_status := Cancelled, tk_failure := Some FailCancelled, tk_finished_at := Some now,
        tk_stop_reason := Some ''approval_closed'', tk_updated_at := now\<rparr>" i "db_tasks db" i]
    by (auto simp: cancel_closed_def cancel_one_def update_task_def update_lane_def get_task_def insert_server_event_def
        split: if_splits)
  then show ?thesis by (simp add: parked_def)
qed

lemma quiet_hold_parks:
  assumes "quiet_hold i db = (True, db')"
  shows "parked i db'"
proof -
  have "get_task i db = Some t \<Longrightarrow> tk_status t = Queued \<Longrightarrow>
      parked i (db\<lparr>db_tasks := tbl_modify tk_id i (\<lambda>t. t\<lparr>tk_queued_reason := Some approval_pending\<rparr>) (db_tasks db)\<rparr>)" for t
    using tbl_get_modify [of tk_id "\<lambda>t. t\<lparr>tk_queued_reason := Some approval_pending\<rparr>" i "db_tasks db" i]
    by (simp add: parked_def get_task_def held_task_def)
  with assms show ?thesis by (auto simp: quiet_hold_def split: option.splits if_splits)
qed

lemma hold_parks:
  assumes "hold_trigger rc tr lw i co db = Inr (True, db')" and "ids_ok db"
    and "get_task i db = Some t" and "tk_status t = Queued"
  shows "parked i db'"
proof -
  obtain hold closed where h: "holds_for lw db = Inr (hold, closed)"
    using assms(1) by (auto simp: hold_trigger_def split: if_splits)
  have one: "\<not> (hold \<and> closed)" using h by (auto simp: holds_for_def state_of_def split: option.splits if_splits)
  have held: "is_held i db \<Longrightarrow> parked i db"
    using get_task_unique [OF assms(2)] by (auto simp: is_held_def list_ex_iff parked_def)
  show ?thesis
    using assms(1,3,4) h one held cancel_closed_parks quiet_hold_parks
    by (auto simp: hold_trigger_def Let_def split: if_splits prod.splits)
qed

lemma route_reports:
  assumes "route_trigger rc tr db = Inr ((e, h), db')" and "ids_ok db"
  shows "pe_deferred e = None \<and> landed (pe_task e) (pe_lane e) (rc_msg rc) db' \<and> (h \<longrightarrow> parked (pe_task e) db')
    \<and> pe_agent e = tr_agent tr"
proof -
  obtain lane db1 lw db2 i co db3 where
      r: "resolve_lane_for (rc_room rc) (tr_agent tr) (profile_of (rc_room rc) (tr_agent tr) db) (trigger_opts rc tr) (rc_now rc) db = Inr (lane, db1)"
      "bind_lane_work lane (rc_work rc) db1 = Inr (lw, db2)"
      and e: "enqueue rc tr (profile_of (rc_room rc) (tr_agent tr) db) lane lw db2 = Inr ((i, co), db3)"
      and h: "hold_trigger rc tr lw i co db3 = Inr (h, db')"
      and entry: "e = \<lparr>pe_agent = tr_agent tr, pe_lane = lane, pe_task = i, pe_coalesced = co, pe_deferred = None\<rparr>"
    using assms(1) by (auto simp: route_trigger_def Let_def)
  have "step_of landed_kept db db2"
    using r no_tasks_resolve no_tasks_bind no_tasks_trans landing.step_no_tasks by blast
  then have ids2: "ids_ok db2" using assms(2) by (simp add: step_of_def)
  with landing.step_enqueue [OF e] have ids3: "ids_ok db3" and c: "carried_by i lane (rc_msg rc) db3"
    and own: "\<not> co \<Longrightarrow> \<exists>t. get_task i db3 = Some t \<and> tk_work t = lw"
    by (simp_all add: step_of_def)
  have "landed i lane (rc_msg rc) db'"
    using landing.step_hold [OF h own] ids3 carried_landed [OF c] by (simp add: step_of_def landed_kept_def)
  moreover have "h \<Longrightarrow> parked i db'"
    using hold_parks [OF _ ids3] h carried_queued [OF c] by (auto simp: queued_on_def)
  ultimately show ?thesis by (simp add: entry)
qed

section \<open>The triggers of a post\<close>

text \<open>Every entry so far landed, and every agent reported as held has an entry that is parked.\<close>

definition reports_ok :: "uuid \<Rightarrow> post_entry list \<Rightarrow> uuid list \<Rightarrow> db \<Rightarrow> bool" where
  "reports_ok msg entries held db \<longleftrightarrow>
     list_all (\<lambda>e. pe_deferred e = None \<and> landed (pe_task e) (pe_lane e) msg db) entries
   \<and> list_all (\<lambda>a. list_ex (\<lambda>e. pe_agent e = a \<and> parked (pe_task e) db) entries) held"

lemma reports_later:
  assumes "step_of landed_kept db db'" and "step_of parked_kept db db'" and "ids_ok db" and "reports_ok msg es held db"
  shows "reports_ok msg es held db'"
  using assms by (fastforce simp: reports_ok_def step_of_def landed_kept_def parked_kept_def list_all_iff list_ex_iff)

lemma reports_add:
  assumes "reports_ok msg es held db" and "pe_deferred e = None" and "landed (pe_task e) (pe_lane e) msg db"
    and "h \<longrightarrow> parked (pe_task e) db"
  shows "reports_ok msg (es @ [e]) (held @ (if h then [pe_agent e] else [])) db"
  using assms by (auto simp: reports_ok_def list_all_iff)

lemma step_reports:
  assumes "post_step rc cause ret tr ((es, looped, held), db) = Inr ((es', looped', held'), db')"
    and "ids_ok db" and "reports_ok (rc_msg rc) es held db"
  shows "ids_ok db' \<and> reports_ok (rc_msg rc) es' held' db'"
proof -
  have st: "step_of landed_kept db db'" "step_of parked_kept db db'"
    using landing.step_post_step [OF assms(1)] parking.step_post_step [OF assms(1)] by simp_all
  note later = reports_later [OF st assms(2,3)]
  obtain v db1 where j: "judge_room_hop (rc_room rc) (rc_ws rc) (hop_of_post rc cause ret (tr_agent tr)) (rc_msg rc) (tr_rule tr) (rc_now rc) db = (v, db1)"
    by fastforce
  have "ids_ok db1" using landing.step_no_tasks [OF no_tasks_hop [OF j]] assms(2) by (simp add: step_of_def)
  then have add: "route_trigger rc tr db1 = Inr ((e, h), db') \<Longrightarrow>
      reports_ok (rc_msg rc) (es @ [e]) (held @ (if h then [tr_agent tr] else [])) db'" for e h
    using route_reports [of rc tr db1 e h db'] reports_add [OF later, of e h] by auto
  have "ids_ok db'" using st(1) assms(2) by (simp add: step_of_def)
  moreover have "reports_ok (rc_msg rc) es' held' db'"
    using assms(1) j later by (auto simp: post_step_def split: if_splits dest!: add)
  ultimately show ?thesis by blast
qed

lemma fold_reports:
  assumes "foldE (post_step rc cause ret) trs ((es, looped, held), db) = Inr ((es', looped', held'), db')"
    and "ids_ok db" and "reports_ok (rc_msg rc) es held db"
  shows "ids_ok db' \<and> reports_ok (rc_msg rc) es' held' db'"
  using assms
proof (induction trs arbitrary: es looped held db)
  case (Cons tr trs)
  then obtain es1 l1 h1 db1 where "post_step rc cause ret tr ((es, looped, held), db) = Inr ((es1, l1, h1), db1)"
      "foldE (post_step rc cause ret) trs ((es1, l1, h1), db1) = Inr ((es', looped', held'), db')" by auto
  with Cons show ?case using step_reports by blast
qed auto

definition warned_held :: "post_warning list \<Rightarrow> uuid list" where
  "warned_held ws = List.map_filter (\<lambda>w. case w of PwHeld a \<Rightarrow> Some a | _ \<Rightarrow> None) ws"

lemma warned_held_result [simp]: "warned_held (map PwRoute ws @ map PwLoop ls @ map PwHeld hs) = hs"
proof -
  have "warned_held (map PwRoute ws @ xs) = warned_held xs" "warned_held (map PwLoop ls @ xs) = warned_held xs"
    "warned_held (map PwHeld hs) = hs" for xs
    by (induction ws, simp_all add: warned_held_def map_filter_simps) (induction ls, simp_all add: map_filter_simps,
      induction hs, simp_all add: map_filter_simps)
  then show ?thesis by simp
qed

section \<open>The deferred assignee\<close>

lemma schedule_stands_by:
  assumes "schedule_fallback room fb primary profile msg og work now db = Inr (Some (lane, i), db')" and "ids_ok db"
  shows "stands_by i lane msg (fb_due_at fb) None db'"
proof -
  obtain db1 lw db2 where
      "resolve_lane_for room (fb_agent fb) profile (fallback_opts work) now db = Inr (lane, db1)"
      "bind_lane_work lane work db1 = Inr (lw, db2)"
      and i: "insert_task_row (fallback_task room lane fb primary profile msg og lw now i) db2 = Inr db'" "i = db_next db2"
    using assms(1) by (auto simp: schedule_fallback_def split: if_splits)
  then have "step_of landed_kept db db2" using no_tasks_resolve no_tasks_bind no_tasks_trans landing.step_no_tasks by blast
  then have "ids_ok db2" using assms(2) by (simp add: step_of_def)
  then have "get_task i db2 = None" by (auto simp: i(2) get_task_def tbl_get_None_iff ids_ok_def list_all_iff)
  with i(1) show ?thesis
    by (auto simp: insert_task_row_def insert_task_def fallback_task_def fresh_task_def stands_by_def get_task_def
        tbl_get_append split: if_splits)
qed

lemma late_stands_by:
  assumes "post_fallback rc dec asg es db = Inr (es', db')" and "ids_ok db"
  obtains late where "es' = es @ late"
    "list_all (\<lambda>e. case pe_deferred e of None \<Rightarrow> False
                   | Some due_at \<Rightarrow> stands_by (pe_task e) (pe_lane e) (rc_msg rc) due_at None db') late"
proof (cases "es' = es")
  case True
  then show ?thesis using that [of "[]"] by simp
next
  case False
  with assms(1) obtain fb lane i where
      f: "schedule_fallback (rc_room rc) fb (primary_task (dec_triggers dec) es) (profile_of (rc_room rc) (fb_agent fb) db)
            (rc_msg rc) (rc_originator rc) (rc_work rc) (rc_now rc) db = Inr (Some (lane, i), db')"
      and "es' = es @ [\<lparr>pe_agent = fb_agent fb, pe_lane = lane, pe_task = i, pe_coalesced = False, pe_deferred = Some (fb_due_at fb)\<rparr>]"
    by (fastforce simp: post_fallback_def Let_def split: option.splits if_splits)
  with schedule_stands_by [OF f assms(2)] show ?thesis using that by simp
qed

lemma finish_stands_by:
  assumes "finish_post author room msg now db = Inr db'" and "stands_by i lane m due_at None db"
  shows "stands_by i lane m due_at (author_task author) db'"
proof (cases "author_task author")
  case None
  with assms(1) have "db_tasks db' = db_tasks db" by (auto simp: finish_post_def update_room_def split: option.splits)
  with None assms(2) show ?thesis by (simp add: stands_by_def get_task_def)
next
  case (Some t)
  let ?f = "\<lambda>t. t\<lparr>tk_status := Cancelled, tk_finished_at := Some now, tk_updated_at := now\<rparr>"
  have room: "db_tasks (snd (update_room room' q h a)) = db_tasks a" and event: "db_tasks (insert_server_event x n c v ob out at' a) = db_tasks a"
    for room' q h a x n c v ob out at'
    using no_tasks_writes(6) [of a room' q h] no_tasks_writes(7) [of a x n c v ob out at'] by (simp_all add: no_tasks_def)
  from Some assms(1) have "db_tasks db' = tbl_upd (pending_fallback t) ?f (db_tasks db)"
    by (auto simp: finish_post_def cancel_fallbacks_for_def update_tasks_def room event split: if_splits)
  then have "get_task i db' = map_option (\<lambda>x. if pending_fallback t x then ?f x else x) (get_task i db)"
    by (simp add: get_task_def tbl_get_upd)
  with assms(2) Some show ?thesis by (auto simp: stands_by_def pending_fallback_def split: option.splits)
qed

section \<open>The answer of a post\<close>

definition answer_ok :: "uuid \<Rightarrow> uuid option \<Rightarrow> post_entry list \<Rightarrow> uuid list \<Rightarrow> db \<Rightarrow> bool" where
  "answer_ok msg by' entries held db \<longleftrightarrow>
     list_all (\<lambda>e. case pe_deferred e of
                     None \<Rightarrow> landed (pe_task e) (pe_lane e) msg db
                   | Some due_at \<Rightarrow> stands_by (pe_task e) (pe_lane e) msg due_at by' db) entries
   \<and> list_all (\<lambda>a. list_ex (\<lambda>e. pe_agent e = a \<and> parked (pe_task e) db) entries) held"

lemma answer_with_late:
  assumes "reports_ok msg es held db"
    and "list_all (\<lambda>e. case pe_deferred e of None \<Rightarrow> False
                       | Some due_at \<Rightarrow> stands_by (pe_task e) (pe_lane e) msg due_at by' db) late"
  shows "answer_ok msg by' (es @ late) held db"
proof -
  have "case pe_deferred e of None \<Rightarrow> landed (pe_task e) (pe_lane e) msg db
          | Some due_at \<Rightarrow> stands_by (pe_task e) (pe_lane e) msg due_at by' db" if "e \<in> set (es @ late)" for e
    using that assms by (auto simp: reports_ok_def list_all_iff split: option.splits)
  with assms(1) show ?thesis by (auto simp: answer_ok_def reports_ok_def list_all_iff list_ex_iff)
qed

lemma route_all_answers:
  assumes "route_all rc dec asg db = Inr (r, db')" and "ids_ok db"
  shows "po_msg r = rc_msg rc \<and> answer_ok (po_msg r) None (po_triggers r) (warned_held (po_warnings r)) db'"
proof -
  obtain cause ret entries looped held db1 es where
      f: "foldE (post_step rc cause ret) (dec_triggers dec) (([], [], []), db) = Inr ((entries, looped, held), db1)"
      and p: "post_fallback rc dec asg entries db1 = Inr (es, db')"
      and r: "r = \<lparr>po_msg = rc_msg rc, po_work = rc_work rc, po_triggers = es,
               po_warnings = map PwRoute (dec_warnings dec) @ map PwLoop looped @ map PwHeld held\<rparr>"
    using assms(1) by (auto simp: route_all_def Let_def)
  have "reports_ok (rc_msg rc) [] [] db" by (simp add: reports_ok_def)
  from fold_reports [OF f assms(2) this] have ok: "ids_ok db1" "reports_ok (rc_msg rc) entries held db1" by blast+
  have later: "reports_ok (rc_msg rc) entries held db'"
    by (rule reports_later [OF landing.step_post_fallback [OF p] parking.step_post_fallback [OF p] ok])
  obtain late where "es = entries @ late" "list_all (\<lambda>e. case pe_deferred e of None \<Rightarrow> False
      | Some due_at \<Rightarrow> stands_by (pe_task e) (pe_lane e) (rc_msg rc) due_at None db') late"
    using p ok(1) by (rule late_stands_by)
  with answer_with_late [OF later] r show ?thesis by simp
qed

lemma answer_finished:
  assumes "finish_post author room msg now db = Inr db'" and "ids_ok db" and "answer_ok m None es held db"
  shows "answer_ok m (author_task author) es held db'"
proof -
  have land: "landed i l m db'" if "landed i l m db" for i l
    using landing.step_finish [OF assms(1)] assms(2) that by (simp add: step_of_def landed_kept_def)
  have park: "parked i db'" if "parked i db" for i
    using parking.step_finish [OF assms(1)] assms(2) that by (simp add: step_of_def parked_kept_def)
  have "list_all (\<lambda>e. case pe_deferred e of None \<Rightarrow> landed (pe_task e) (pe_lane e) m db'
      | Some due_at \<Rightarrow> stands_by (pe_task e) (pe_lane e) m due_at (author_task author) db') es"
    using assms(3) unfolding answer_ok_def
    by (elim conjE list.pred_mono_strong) (simp split: option.splits, auto intro: land finish_stands_by [OF assms(1)])
  moreover have "list_all (\<lambda>a. list_ex (\<lambda>e. pe_agent e = a \<and> parked (pe_task e) db') es) held"
    using assms(3) park unfolding answer_ok_def list_all_iff list_ex_iff by blast
  ultimately show ?thesis by (simp add: answer_ok_def)
qed

lemma stored_answers:
  assumes "post_stored ctx content dec asg (msg, db) = Inr (r, db')" and "ids_ok db" and "\<And>og. rc_author (ctx msg og) = author"
  shows "answer_ok (po_msg r) (author_task author) (po_triggers r) (warned_held (po_warnings r)) db'"
proof -
  obtain db2 rc db3 where g: "gate_message (rc_work (ctx msg None)) (rc_author (ctx msg None)) content msg (rc_now (ctx msg None)) db = Inr db2"
      and a: "route_all rc dec asg db2 = Inr (r, db3)" and rc: "rc_author rc = author"
      and f: "finish_post (rc_author rc) (rc_room rc) (rc_msg rc) (rc_now rc) db3 = Inr db'"
    using assms(1,3) by (auto simp: route_stored_def Let_def)
  have i: "ids_ok db2" using landing.step_gate [OF g] assms(2) by (simp add: step_of_def)
  then have "ids_ok db3" using landing.step_route_all [OF a] by (simp add: step_of_def)
  with answer_finished [OF f] route_all_answers [OF a i] rc show ?thesis by blast
qed

lemma post_row_answers:
  assumes "post_row pu room ws legacy author inp platform part now db = Inr (r, db')" and "ids_ok db"
  shows "answer_ok (po_msg r) (author_task author) (po_triggers r) (warned_held (po_warnings r)) db'"
proof -
  have all: "answer_ok (po_msg r) (author_task author) (po_triggers r) (warned_held (po_warnings r)) db'"
    if st: "store_post pu room inp author th part ms work qp now db = Inr (msg, db1)"
      and p: "post_stored ctx content dec asg (msg, db1) = Inr (r, db')" and au: "\<And>og. rc_author (ctx msg og) = author"
    for th ms work qp msg db1 ctx content dec asg
  proof -
    have "ids_ok db1" using landing.step_no_tasks [OF no_tasks_store_post [OF st]] assms(2) by (simp add: step_of_def)
    from stored_answers [OF p this au] show ?thesis .
  qed
  from assms(1) show ?thesis
    unfolding post_row_def Let_def
    by (elim bindE_InrE) (clarsimp simp del: post_stored.simps split: prod.splits, erule (1) all, simp)
qed

section \<open>The guarantees of a post\<close>

text \<open>
  C11 A post never disturbs a turn that has left the queue (FR-3.4): whatever is posted by whom, every
  task that is neither queued nor deferred has afterwards the very row it had before. New instructions
  reach a running agent through the queue of its lane only.
\<close>

theorem post_leaves_started:
  assumes "post_row pu room ws legacy author inp platform part at' db = Inr (r, db')" and "ids_ok db"
    and "get_task i db = Some t" and "\<not> waiting t"
  shows "get_task i db' = Some t"
  using started.step_post_row [OF assms(1)] assms(2-) by (simp add: step_of_def started_kept_def)

text \<open>
  C2 No trigger is lost (FR-3.3, FR-3.4): for each trigger a post reports, the task it names is on the lane
  it names and carries the posted message, and that task is queued; it may be cancelled only when the
  mission of the task is closed (completed or cancelled). For a deferred assignee the task it names stands
  by on the lane it names, for the posted message and for the time the post reports; the only thing that
  can have cancelled it is that the task it stands by for is the very task that wrote this post.
\<close>

theorem post_lands_triggers:
  assumes "post_row pu room ws legacy author inp platform part at' db = Inr (r, db')" and "ids_ok db"
  shows "list_all (\<lambda>e. case pe_deferred e of
                         None \<Rightarrow> landed (pe_task e) (pe_lane e) (po_msg r) db'
                       | Some due_at \<Rightarrow> stands_by (pe_task e) (pe_lane e) (po_msg r) due_at (author_task author) db') (po_triggers r)"
  using post_row_answers [OF assms] by (simp add: answer_ok_def)

text \<open>
  C3 Arrivals merge (FR-3.4): a post, however many agents it calls, leaves at most one queued task on every
  lane.
\<close>

theorem post_keeps_one_queued:
  assumes "post_row pu room ws legacy author inp platform part at' db = Inr (r, db')" and "ids_ok db" and "one_queued db"
  shows "one_queued db'"
  using queue.step_post_row [OF assms(1)] assms(2,3) by (simp add: step_of_def queue_kept_def)

text \<open>So does a whole group of part messages.\<close>

lemma group_keeps_one_queued:
  assumes "post_group pu room author inp parts db = Inr (rs, db')" and "ids_ok db" and "one_queued db"
  shows "one_queued db'"
  using queue.step_group [OF assms(1)] assms(2,3) by (simp add: step_of_def queue_kept_def)

text \<open>
  What the end of a lane sets off, the report of a re-entry and the follow-up of a delegation group
  included, also leaves at most one queued task on every lane.
\<close>

theorem lane_end_keeps_one_queued:
  assumes "after_lane_ended e db = Inr db'" and "ids_ok db" and "one_queued db"
  shows "one_queued db'"
  using queue_end.step_lane_ended [OF assms(1)] assms(2,3) by (simp add: step_of_def queue_kept_def)

text \<open>A parked task is not a candidate of any claim.\<close>

lemma parked_not_claimed:
  assumes "claim hash tok build locked rt capacity now db = Inr (out, db')" and "ids_ok db" and "parked i db"
  shows "\<not> List.member out i"
proof -
  have ids: "distinct (map tk_id (db_tasks db))" using assms(2) by (simp add: ids_ok_def)
  obtain t where t: "get_task i db = Some t" "held_task t \<or> tk_status t = Cancelled"
    using assms(3) by (auto simp: parked_def split: option.splits)
  from assms(1) ids show ?thesis
  proof (rule claim_measures)
    fix db1 new
    assume q: "quiet_step db db1" and h: "held_kept db db1" and new: "set new \<subseteq> set (candidates rt now db1)"
      and out: "set out \<subseteq> tk_id ` set new"
    have "x \<notin> set (candidates rt now db1)" if "tk_id x = i" for x
    proof
      assume "x \<in> set (candidates rt now db1)"
      then have x: "x \<in> set (db_tasks db1)" "eligible rt now db1 x" using candidate_eligible by blast+
      moreover have "distinct (map tk_id (db_tasks db1))"
        using q cores_ids [of db1 db] ids by (simp add: quiet_step_def)
      ultimately have "get_task i db1 = Some x" using that tbl_get_in unfolding get_task_def by metis
      then have "held_task x = held_task t" and "core x = core t"
        using held_kept_task [OF h, of i] get_task_core [OF _ t(1), of db1] q t(1) by (auto simp: quiet_step_def)
      then have "held_task x \<or> tk_status x = Cancelled" using t(2) by (metis core_def task_row.select_convs task_row.surjective task_row.update_convs)
      with x(2) show False by (auto simp: eligible_def held_task_def split: option.splits)
    qed
    with new out show ?thesis by fastforce
  qed simp
qed

text \<open>
  C5 The approval wait binds: when an agent's post answers that it held its trigger for another agent, that
  agent's task is in the answer and no computer's claim on the resulting store, whatever its capacity
  and whichever rows are locked, is handed it.
\<close>

theorem held_not_claimed:
  assumes "post_row pu room ws legacy author inp platform part at' db = Inr (r, db')" and "ids_ok db"
    and "List.member (warned_held (po_warnings r)) a"
    and "claim hash tok build locked rt capacity now db' = Inr (out, db'')"
  shows "list_ex (\<lambda>e. pe_agent e = a \<and> \<not> List.member out (pe_task e)) (po_triggers r)"
proof -
  have "answer_ok (po_msg r) (author_task author) (po_triggers r) (warned_held (po_warnings r)) db'"
    using post_row_answers [OF assms(1,2)] .
  moreover have "ids_ok db'" using landing.step_post_row [OF assms(1)] assms(2) by (simp add: step_of_def)
  ultimately show ?thesis
    using assms(3) parked_not_claimed [OF assms(4)] by (fastforce simp: answer_ok_def list_all_iff list_ex_iff)
qed

section \<open>The guarantees at work\<close>

text \<open>What an evaluated call answered.\<close>

lemma returned:
  assumes "case x of Inl e \<Rightarrow> False | Inr y \<Rightarrow> q y"
  obtains y where "x = Inr y" "q y"
  using assms by (cases x) auto

definition claim_of :: "db \<Rightarrow> db_error + uuid list \<times> db" where
  "claim_of db = claim (\<lambda>s. s) (\<lambda>_. ''tok'') (\<lambda>_ _. Built) [] 5 3 50 db"

text \<open>Dev's question to QA is held: the mission waits for its Director.\<close>

lemma dev_asks_held:
  "case dev_asks of Inl e \<Rightarrow> False | Inr (r, db') \<Rightarrow> warned_held (po_warnings r) = [8] \<and> length (po_triggers r) = 1
     \<and> (case claim_of db' of Inl e \<Rightarrow> False | Inr (out, db'') \<Rightarrow> out = [])"
  by code_simp

lemma post_db_ok: "ids_ok post_db" "one_queued post_db" "get_task 1 post_db = Some (sample_task\<lparr>tk_work := Some 20\<rparr>)"
  by (simp_all add: ids_ok_def one_queued_def post_db_def sample_task_def get_task_def)

theorem post_leaves_started_witness:
  "case dev_asks of Inl e \<Rightarrow> False | Inr (r, db') \<Rightarrow> get_task 1 db' = Some (sample_task\<lparr>tk_work := Some 20\<rparr>)"
proof -
  obtain r db' where k: "dev_asks = Inr (r, db')" using dev_asks_held by (rule returned) (metis prod.exhaust)
  have g: "get_task 1 db' = Some (sample_task\<lparr>tk_work := Some 20\<rparr>)"
    by (rule post_leaves_started [OF k [unfolded dev_asks_def] post_db_ok(1,3)]) (simp add: waiting_def sample_task_def)
  show ?thesis unfolding k using g by simp
qed

theorem post_lands_triggers_witness:
  "case dev_asks of Inl e \<Rightarrow> False | Inr (r, db') \<Rightarrow> po_triggers r \<noteq> []
     \<and> list_all (\<lambda>e. case pe_deferred e of
                       None \<Rightarrow> landed (pe_task e) (pe_lane e) (po_msg r) db'
                     | Some due_at \<Rightarrow> stands_by (pe_task e) (pe_lane e) (po_msg r) due_at (author_task by_dev) db') (po_triggers r)"
proof -
  obtain r db' where k: "dev_asks = Inr (r, db')" using dev_asks_held by (rule returned) (metis prod.exhaust)
  have ne: "po_triggers r \<noteq> []" using dev_asks_held unfolding k by auto
  show ?thesis unfolding k using ne post_lands_triggers [OF k [unfolded dev_asks_def] post_db_ok(1)] by simp
qed

theorem post_keeps_one_queued_witness:
  "case dev_asks of Inl e \<Rightarrow> False | Inr (r, db') \<Rightarrow> one_queued db'"
proof -
  obtain r db' where k: "dev_asks = Inr (r, db')" using dev_asks_held by (rule returned) (metis prod.exhaust)
  show ?thesis unfolding k using post_keeps_one_queued [OF k [unfolded dev_asks_def] post_db_ok(1,2)] by simp
qed

theorem held_not_claimed_witness:
  "case dev_asks of Inl e \<Rightarrow> False | Inr (r, db') \<Rightarrow>
     (case claim_of db' of Inl e \<Rightarrow> False | Inr (out, db'') \<Rightarrow>
        list_ex (\<lambda>e. pe_agent e = 8 \<and> \<not> List.member out (pe_task e)) (po_triggers r))"
proof -
  obtain r db' where k: "dev_asks = Inr (r, db')" using dev_asks_held by (rule returned) (metis prod.exhaust)
  have w: "warned_held (po_warnings r) = [8]" and cl: "case claim_of db' of Inl e \<Rightarrow> False | Inr (out, db'') \<Rightarrow> out = []"
    using dev_asks_held unfolding k by simp_all
  obtain out db'' where c: "claim_of db' = Inr (out, db'')" using cl by (rule returned) (metis prod.exhaust)
  have e: "list_ex (\<lambda>e. pe_agent e = 8 \<and> \<not> List.member out (pe_task e)) (po_triggers r)"
    by (rule held_not_claimed [OF k [unfolded dev_asks_def] post_db_ok(1) _ c [unfolded claim_of_def]]) (simp add: w)
  show ?thesis unfolding k using e c by simp
qed

text \<open>QA finished the lane that Dev's task 1 delegated; the end wakes Dev.\<close>

definition end_db :: db where
  "end_db = post_db\<lparr>db_tasks := [sample_task\<lparr>tk_work := Some 20\<rparr>,
        sample_task\<lparr>tk_id := 13, tk_lane := 12, tk_agent := 8, tk_profile := 9, tk_status := Completed, tk_work := Some 20\<rparr>],
     db_lanes := [sample_lane\<lparr>ln_work := Some 20\<rparr>,
        sample_lane\<lparr>ln_id := 12, ln_agent := 8, ln_profile := 9, ln_status := LaneDone, ln_work := Some 20, ln_delegated_from := Some 1\<rparr>]\<rparr>"

definition qa_end :: lane_end where
  "qa_end = \<lparr>le_lane = 12, le_task = 13, le_attempt = 1, le_status = LaneDone\<rparr>"

definition queued_for :: "uuid \<Rightarrow> db \<Rightarrow> nat" where
  "queued_for a db = length (filter (\<lambda>t. tk_agent t = a \<and> tk_status t = Queued) (db_tasks db))"

lemma qa_end_wakes: "case after_lane_ended qa_end end_db of Inl e \<Rightarrow> False | Inr db' \<Rightarrow> queued_for 6 db' = 1"
  by code_simp

theorem lane_end_keeps_one_queued_witness:
  "case after_lane_ended qa_end end_db of Inl e \<Rightarrow> False | Inr db' \<Rightarrow> one_queued db'"
proof -
  obtain db' where k: "after_lane_ended qa_end end_db = Inr db'" using qa_end_wakes by (rule returned)
  have "ids_ok end_db" "one_queued end_db"
    by (simp_all add: ids_ok_def one_queued_def end_db_def post_db_def sample_task_def)
  with lane_end_keeps_one_queued [OF k] show ?thesis unfolding k by simp
qed

text \<open>QA's request woke Dev's task; what Dev writes to QA is the report on it.\<close>

definition request_of_qa :: message_row where
  "request_of_qa = \<lparr>ms_id = 30, ms_room = 3, ms_source_task = None, ms_created_at = 1, ms_author = ByAgent, ms_kind = ''text'',
     ms_work = Some 20, ms_ranged = False, ms_author_id = Some 8, ms_parent = None, ms_content = ''k'', ms_mentions = [],
     ms_speech = Some SpRequest, ms_addressees = [\<lparr>ad_kind = MentionAgent, ad_id = Some 6, ad_name = ''D''\<rparr>],
     ms_responds_to = None, ms_delegated_lane = None, ms_group = None, ms_card = None\<rparr>"

definition reported_db :: db where
  "reported_db = post_db\<lparr>db_tasks := [sample_task\<lparr>tk_work := Some 20, tk_trigger := Some 30\<rparr>],
     db_messages := [request_of_qa,
        request_of_qa\<lparr>ms_id := 31, ms_source_task := Some 1, ms_author_id := Some 6, ms_speech := None, ms_addressees := [],
          ms_mentions := [\<lparr>m_kind = MentionAgent, m_id = ''8'', m_name = ''Q''\<rparr>]\<rparr>]\<rparr>"

lemma dev_reports:
  "case store_speech post_pu 31 no_opts reported_db of Inl e \<Rightarrow> False
   | Inr db' \<Rightarrow> map_option ms_responds_to (get_message 31 db') = Some (Some 30)"
  by code_simp

theorem report_answers_a_request_witness:
  "case store_speech post_pu 31 no_opts reported_db of Inl e \<Rightarrow> False
   | Inr db' \<Rightarrow> (case get_message 31 db' of None \<Rightarrow> False | Some m' \<Rightarrow>
       (case ms_responds_to m' of None \<Rightarrow> False | Some r \<Rightarrow>
          (case get_message r reported_db of None \<Rightarrow> False | Some q \<Rightarrow> \<not> report_made_to 6 q)))"
proof -
  obtain db' where k: "store_speech post_pu 31 no_opts reported_db = Inr db'"
    and r: "map_option ms_responds_to (get_message 31 db') = Some (Some 30)" using dev_reports by (rule returned)
  obtain m where m: "get_message 31 reported_db = Some m" "ms_author_id m = Some 6"
    by (simp add: get_message_def reported_db_def request_of_qa_def)
  have "names_no_report no_opts reported_db" by (simp add: no_opts_def names_no_report_def)
  with report_answers_a_request [OF k m] r show ?thesis unfolding k by (auto split: option.splits)
qed

text \<open>
  The wake-up reads the seat of the delegator without asking whether it left: an agent that was taken
  out of the room gets a queued task all the same.
\<close>

lemma departed_agent_is_woken:
  "case after_lane_ended qa_end (end_db\<lparr>db_participants := [(agent_seat 6 7 0)\<lparr>pr_left := Some 5\<rparr>, agent_seat 8 9 1]\<rparr>) of
     Inl e \<Rightarrow> False | Inr db' \<Rightarrow> queued_for 6 db' = 1"
  by code_simp

text \<open>
  A deferred assignee re-enters its finished lane at once; when the primary agent answers, the deferred
  task is cancelled and the lane stays queued, with nothing left that would run or end it.
\<close>

definition late_qa :: fallback where
  "late_qa = \<lparr>fb_agent = 8, fb_delay = fallback_delay, fb_due_at = 20 + fallback_delay\<rparr>"

lemma fallback_strands_lane:
  "case schedule_fallback 3 late_qa 1 9 50 None (Some 20) 20 post_db of
     Inl e \<Rightarrow> False
   | Inr (made, db1) \<Rightarrow>
       (case cancel_fallbacks_for 1 30 db1 of
          Inl e \<Rightarrow> False
        | Inr db2 \<Rightarrow> map_option ln_status (get_lane 12 post_db) = Some LaneDone
            \<and> map_option ln_status (get_lane 12 db2) = Some LaneQueued
            \<and> filter (\<lambda>t. tk_lane t = 12 \<and> tk_status t \<noteq> Cancelled) (db_tasks db2) = [])"
  by code_simp

text \<open>An assignee that left the room has no profile there: the whole post fails on the deferred row.\<close>

lemma departed_assignee_fails_post:
  "schedule_fallback 3 late_qa 1 (profile_of 3 8 (post_db\<lparr>db_participants := [agent_seat 6 7 0]\<rparr>)) 50 None (Some 20) 20
     (post_db\<lparr>db_participants := [agent_seat 6 7 0]\<rparr>) = Inl DbForeignKey"
  by code_simp

end
