(* ===== verification/Delegation_Facts.thy ===== *)
theory Delegation_Facts
  imports Post_Facts
begin

text \<open>
  What a delegation guarantees: it always opens a lane of its own with the card and the card task bound
  to it, its number is free in its scope, and when the loop limit refuses it the room stops.
\<close>

section \<open>Ids\<close>

text \<open>Every row's id is below the next one.\<close>

definition store_ok :: "db \<Rightarrow> bool" where
  "store_ok db \<longleftrightarrow> ids_ok db \<and> list_all (\<lambda>l. ln_id l < db_next db) (db_lanes db)
     \<and> list_all (\<lambda>c. cd_id c < db_next db \<and> cd_lane c < db_next db) (db_cards db)"

text \<open>What a delegation decides of the three rows it adds.\<close>

definition lane_link :: "lane_row \<Rightarrow> uuid \<times> uuid option \<times> uuid list \<times> int" where
  "lane_link l = (ln_agent l, ln_delegated_from l, ln_depends_on l, ln_reentry l)"

definition card_link :: "card_row \<Rightarrow> uuid \<times> uuid \<times> uuid option \<times> card_status \<times> int \<times> criterion list" where
  "card_link c = (cd_lane c, cd_assignee c, cd_delegator_task c, cd_status c, cd_version c, cd_criteria c)"

definition task_link :: "task_row \<Rightarrow> uuid \<times> uuid \<times> task_kind \<times> uuid option \<times> uuid option \<times> uuid option \<times> rat option" where
  "task_link t = (tk_lane t, tk_agent t, tk_kind t, tk_card t, tk_trigger t, tk_delegated_from t, tk_budget_override t)"

definition delegation_made :: "uuid \<Rightarrow> delegate_input \<Rightarrow> delegate_result \<Rightarrow> db \<Rightarrow> bool" where
  "delegation_made i inp r db =
     (map_option lane_link (get_lane (dg_lane r) db) = Some (dr_assignee (di_card inp), Some i, di_depends_on inp, 0)
    \<and> map_option card_link (get_card (dg_card r) db)
        = Some (dg_lane r, dr_assignee (di_card inp), Some i, InProgress, 1, numbered (dr_criteria (di_card inp)))
    \<and> map_option task_link (get_task (dg_task r) db)
        = Some (dg_lane r, dr_assignee (di_card inp), KindCard, Some (dg_card r), Some (dg_msg r), Some i, dr_budget (di_card inp)))"

section \<open>The steps after the check\<close>

lemma map_link_upd:
  assumes "\<And>r. key (f r) = key r" and "\<And>r. g (f r) = g r"
  shows "map_option g (tbl_get key (tbl_upd p f ts) k) = map_option g (tbl_get key ts k)"
  using tbl_get_upd [of key f p ts k, OF assms(1)] assms(2) by (cases "tbl_get key ts k") simp_all

lemma hold_links:
  assumes "hold_delegation w i now db = Inr (h, db')"
  shows "db_cards db' = db_cards db \<and> map_option lane_link (get_lane j db') = map_option lane_link (get_lane j db)
    \<and> map_option task_link (get_task k db') = map_option task_link (get_task k db)"
proof -
  have quiet: "map_option task_link (get_task k (snd (quiet_hold i db))) = map_option task_link (get_task k db)"
    "db_cards (snd (quiet_hold i db)) = db_cards db" "get_lane j (snd (quiet_hold i db)) = get_lane j db"
    using map_link_upd [of tk_id "\<lambda>t. t\<lparr>tk_queued_reason := Some approval_pending\<rparr>" task_link]
    by (auto simp: quiet_hold_def get_task_def get_lane_def tbl_modify_def task_link_def split: option.split)
  have cancel: "db_cards a = db_cards db \<and> map_option lane_link (get_lane j a) = map_option lane_link (get_lane j db)
      \<and> map_option task_link (get_task k a) = map_option task_link (get_task k db)" if c: "cancel_closed i now db = Inr a" for a
  proof -
    let ?f = "\<lambda>t. t\<lparr>tk_status := Cancelled, tk_failure := Some FailCancelled, tk_finished_at := Some now,
        tk_stop_reason := Some ''approval_closed'', tk_updated_at := now\<rparr>"
    let ?g = "\<lambda>l. l\<lparr>ln_status := LaneDone, ln_finished_at := Some now, ln_updated_at := now\<rparr>"
    show ?thesis
      using c map_link_upd [of tk_id ?f task_link] map_link_upd [of ln_id ?g lane_link]
      by (auto simp: cancel_closed_def cancel_one_def update_task_def update_lane_def insert_server_event_def
          get_task_def get_lane_def tbl_modify_def task_link_def lane_link_def split: option.splits if_splits)
  qed
  from assms quiet cancel show ?thesis
    by (auto simp: hold_delegation_def split: if_splits prod.splits dest: sym)
qed

lemma fresh_get: "list_all (\<lambda>r. key r < n) ts \<Longrightarrow> tbl_get key ts (n::nat) = None"
  by (auto simp: tbl_get_None_iff list_all_iff)

text \<open>
  What \<open>write_delegation\<close> made, by the rows it added before the hold: the lane, the card, the task.
\<close>

definition rows_added :: "caller \<Rightarrow> delegate_input \<Rightarrow> uuid \<Rightarrow> int \<Rightarrow> uuid \<Rightarrow> db \<Rightarrow> lane_row \<Rightarrow> card_row \<Rightarrow> task_row \<Rightarrow> bool" where
  "rows_added c inp profile num msg db l k t \<longleftrightarrow>
     l = new_lane (cl_room c) (dr_assignee (di_card inp)) profile (di_depends_on inp) (Some (cl_task c)) (cl_work c) (cl_now c) (db_next db)
   \<and> cd_id k = db_next db + 1 \<and> cd_number k = num \<and> cd_room k = cl_room c \<and> cd_work k = cl_work c
   \<and> card_link k = (db_next db, dr_assignee (di_card inp), Some (cl_task c), InProgress, 1, numbered (dr_criteria (di_card inp)))
   \<and> tk_id t = db_next db + 2 \<and> tk_status t = Queued
   \<and> task_link t = (db_next db, dr_assignee (di_card inp), KindCard, Some (db_next db + 1), Some msg, Some (cl_task c), dr_budget (di_card inp))"

lemma create_card_row:
  assumes "create_card room w n dl dt l par d m now db = Inr (cid, db')"
  obtains k where "cid = db_next db" "db' = db\<lparr>db_cards := db_cards db @ [k], db_next := db_next db + 1\<rparr>" "cd_id k = cid"
    "cd_number k = n" "cd_room k = room" "cd_work k = w" "card_link k = (l, dr_assignee d, Some dt, InProgress, 1, numbered (dr_criteria d))"
    "\<not> list_ex (\<lambda>x. cd_lane x = l \<or> cd_room x = room \<and> cd_work x = w \<and> cd_number x = n) (db_cards db)" "1 \<le> n"
  using assms that by (auto simp: create_card_def card_link_def split: if_splits)

lemma budgeted:
  assumes "insert_queued_task n db = Inr (i, db1)" and "ids_ok db" and "nt_kind n = Some kd"
    and "(case bud of None \<Rightarrow> Inr db1 | Some b \<Rightarrow> update_task i (\<lambda>t. t\<lparr>tk_budget_override := Some b\<rparr>) db1) = Inr db'"
  shows "i = db_next db \<and> db' = db\<lparr>db_tasks := db_tasks db @ [(fresh_task n kd (nt_card n) i)\<lparr>tk_budget_override := bud\<rparr>], db_next := db_next db + 1\<rparr>"
proof -
  let ?t = "fresh_task n kd (nt_card n) (db_next db)"
  have i: "i = db_next db" "db1 = db\<lparr>db_tasks := db_tasks db @ [?t], db_next := db_next db + 1\<rparr>"
    using assms(1,3) by (auto simp: insert_queued_task_def insert_task_row_def insert_task_def lane_kind_def split: if_splits)
  have none: "tbl_get tk_id (db_tasks db) (db_next db) = None"
    using assms(2) by (auto simp: tbl_get_None_iff ids_ok_def list_all_iff)
  then have old: "tbl_modify tk_id (db_next db) f (db_tasks db) = db_tasks db" for f
    by (auto simp: tbl_modify_def tbl_upd_def tbl_get_None_iff intro!: map_idI)
  have new: "get_task (db_next db) db1 = Some ?t" using none by (simp add: i(2) get_task_def tbl_get_append fresh_task_def)
  show ?thesis
  proof (cases bud)
    case None
    with assms(4) i show ?thesis by (simp add: fresh_task_def)
  next
    case (Some b)
    let ?f = "\<lambda>t. t\<lparr>tk_budget_override := Some b\<rparr>"
    have "update_task i ?f db1 = Inr db'" using assms(4) Some by simp
    then have "db' = db1\<lparr>db_tasks := tbl_modify tk_id (db_next db) ?f (db_tasks db1)\<rparr>"
      using new by (auto simp: update_task_def i(1) split: if_splits)
    moreover have "tbl_modify tk_id (db_next db) ?f (db_tasks db1) = db_tasks db @ [?f ?t]"
      using old [of ?f] by (simp add: i(2) tbl_modify_def tbl_upd_def fresh_task_def)
    ultimately show ?thesis using Some by (simp add: i)
  qed
qed

lemma write_delegation_rows:
  assumes "write_delegation pu c inp profile num msg db = Inr (r, db')" and "ids_ok db"
  obtains l k t dbE where "rows_added c inp profile num msg db l k t"
    "\<not> list_ex (\<lambda>x. cd_lane x = db_next db \<or> cd_room x = cl_room c \<and> cd_work x = cl_work c \<and> cd_number x = num) (db_cards db)"
    "1 \<le> num" "db_lanes dbE = db_lanes db @ [l]" "db_cards dbE = db_cards db @ [k]" "db_tasks dbE = db_tasks db @ [t]"
    "db_next dbE = db_next db + 3"
    "hold_delegation (cl_work c) (db_next db + 2) (cl_now c) dbE = Inr (dg_held r, db')"
    "dg_lane r = db_next db" "dg_card r = db_next db + 1" "dg_task r = db_next db + 2" "dg_msg r = msg"
proof -
  let ?d = "di_card inp"
  let ?n = "\<lambda>lane cid db. \<lparr>nt_lane = lane, nt_room = cl_room c, nt_agent = dr_assignee ?d, nt_profile = profile, nt_trigger = msg,
         nt_delegated_from = Some (cl_task c), nt_originator = originator_of (cl_task c) db, nt_coalesced = [],
         nt_work = cl_work c, nt_now = cl_now c, nt_kind = Some KindCard, nt_card = Some cid\<rparr>"
  obtain lane dbA cid dbB dbC task dbD dbF where
      A: "insert_lane (cl_room c) (dr_assignee ?d) profile (di_depends_on inp) (Some (cl_task c)) (cl_work c) (cl_now c) db = Inr (lane, dbA)"
    and B: "create_card (cl_room c) (cl_work c) num (cl_agent c) (cl_task c) lane (parent_card (cl_task c) dbA) ?d msg (cl_now c) dbA = Inr (cid, dbB)"
    and C: "store_speech pu msg (no_opts\<lparr>sx_lane := Some lane, sx_target := Some (dr_assignee ?d),
         sx_target_name := agent_name (dr_assignee ?d) (update_message msg (\<lambda>m. m\<lparr>ms_card := Some (cid, ''delegation'', 1)\<rparr>) dbB)\<rparr>)
         (update_message msg (\<lambda>m. m\<lparr>ms_card := Some (cid, ''delegation'', 1)\<rparr>) dbB) = Inr dbC"
    and D: "insert_queued_task (?n lane cid dbC) dbC = Inr (task, dbD)"
    and F: "(case dr_budget ?d of None \<Rightarrow> Inr dbD | Some b \<Rightarrow> update_task task (\<lambda>t. t\<lparr>tk_budget_override := Some b\<rparr>) dbD) = Inr dbF"
    and H: "hold_delegation (cl_work c) task (cl_now c)
         (insert_server_event (cl_task c) (cl_attempt c) ''status'' ''set_status'' ''delegate'' ''ok'' (cl_now c) dbF) = Inr (dg_held r, db')"
    and r: "dg_lane r = lane" "dg_card r = cid" "dg_task r = task" "dg_msg r = msg"
    using assms(1) by (auto simp: write_delegation_def Let_def)
  let ?l = "new_lane (cl_room c) (dr_assignee ?d) profile (di_depends_on inp) (Some (cl_task c)) (cl_work c) (cl_now c) (db_next db)"
  have a: "lane = db_next db" "dbA = db\<lparr>db_lanes := db_lanes db @ [?l], db_next := db_next db + 1\<rparr>"
    using A by (auto simp: insert_lane_def split: if_splits)
  from B obtain k where k: "cid = db_next dbA" "dbB = dbA\<lparr>db_cards := db_cards dbA @ [k], db_next := db_next dbA + 1\<rparr>" "cd_id k = cid"
      "cd_number k = num" "cd_room k = cl_room c" "cd_work k = cl_work c"
      "card_link k = (lane, dr_assignee ?d, Some (cl_task c), InProgress, 1, numbered (dr_criteria ?d))"
      "\<not> list_ex (\<lambda>x. cd_lane x = lane \<or> cd_room x = cl_room c \<and> cd_work x = cl_work c \<and> cd_number x = num) (db_cards dbA)" "1 \<le> num"
    by (rule create_card_row)
  from store_speech_Inr [OF C] have c: "db_lanes dbC = db_lanes dbB" "db_cards dbC = db_cards dbB" "db_tasks dbC = db_tasks dbB"
      "db_next dbC = db_next dbB" by (auto simp: update_message_def)
  have "ids_ok dbC" using assms(2) ids_ok_other [of db dbC] a(2) k(2) c by simp
  from budgeted [OF D this _ F, of KindCard]
  have d: "task = db_next dbC" "dbF = dbC\<lparr>db_tasks := db_tasks dbC @ [(fresh_task (?n lane cid dbC) KindCard (Some cid) task)\<lparr>tk_budget_override := dr_budget ?d\<rparr>],
      db_next := db_next dbC + 1\<rparr>" by simp_all
  let ?t = "(fresh_task (?n lane cid dbC) KindCard (Some cid) task)\<lparr>tk_budget_override := dr_budget ?d\<rparr>"
  have ids: "cid = db_next db + 1" "task = db_next db + 2" using k(1,2) a(2) c(4) d(1) by simp_all
  have "rows_added c inp profile num msg db ?l k ?t"
    using k ids a(1) by (simp add: rows_added_def fresh_task_def task_link_def)
  then show thesis
    by (rule that) (use a k c d(2) r ids H in \<open>simp_all add: insert_server_event_def\<close>)
qed

section \<open>The whole call\<close>

lemma delegate_steps:
  assumes "delegate_card pu ut bubble artifact_here i inp db = (Inr r, db')"
  obtains c profile db2 where "find_caller i db = Inr c" "cl_task c = i"
    "db_lanes db2 = db_lanes db" "db_cards db2 = db_cards db" "db_tasks db2 = db_tasks db" "db_next db2 = db_next db + 1"
    "write_delegation pu c inp profile (next_number (cl_room c) (cl_work c) db) (db_next db) db2 = Inr (r, db')"
proof -
  obtain c profile db1 v db2 where c: "find_caller i db = Inr c"
      and "insert_row (delegation_bubble bubble ut c (di_card inp) db) db = Inr db1"
      and "judge_room_hop (cl_room c) (cl_ws c) (delegate_hop c (dr_assignee (di_card inp)) db1) (db_next db) 2 (cl_now c) db1 = (v, db2)"
      and w: "write_delegation pu c inp profile (next_number (cl_room c) (cl_work c) db) (db_next db) db2 = Inr (r, db')"
    using assms by (auto simp: delegate_card_def Let_def split: sum.splits prod.splits if_splits)
  then have "db_lanes db2 = db_lanes db" "db_cards db2 = db_cards db" "db_tasks db2 = db_tasks db" "db_next db2 = db_next db + 1"
    by (auto simp: insert_row_def judge_room_hop_def split: if_splits prod.splits)
  moreover have "cl_task c = i" using c by (auto simp: find_caller_def split: option.splits)
  ultimately show thesis using that c w by blast
qed

text \<open>
  C12 A delegation always opens a lane of its own (FR-6): when it answers, the lane it names did not
  exist before; afterwards that lane is the assignee's, delegated from the calling task, with the
  dependencies asked for; the card it names is in progress on that lane, in its first version and with the
  criteria of the draft; and the task it names is the card task of that lane, triggered by the
  delegation's message, with the budget of the draft.
\<close>

theorem delegation_opens_lane:
  assumes "delegate_card pu ut bubble artifact_here i inp db = (Inr r, db')" and "store_ok db"
  shows "get_lane (dg_lane r) db = None \<and> delegation_made i inp r db'"
proof -
  obtain c profile db2 where i: "cl_task c = i" and f: "db_lanes db2 = db_lanes db" "db_cards db2 = db_cards db"
      "db_tasks db2 = db_tasks db" "db_next db2 = db_next db + 1"
      and w: "write_delegation pu c inp profile (next_number (cl_room c) (cl_work c) db) (db_next db) db2 = Inr (r, db')"
    using assms(1) by (rule delegate_steps)
  have ok: "ids_ok db2" "list_all (\<lambda>l. ln_id l < db_next db2) (db_lanes db2)" "list_all (\<lambda>k. cd_id k < db_next db2) (db_cards db2)"
    using assms(2) ids_ok_other [of db db2] f by (auto simp: store_ok_def list_all_iff)
  from w ok(1) obtain l k t dbE where rows: "rows_added c inp profile (next_number (cl_room c) (cl_work c) db) (db_next db) db2 l k t"
      and E: "db_lanes dbE = db_lanes db2 @ [l]" "db_cards dbE = db_cards db2 @ [k]" "db_tasks dbE = db_tasks db2 @ [t]"
      and H: "hold_delegation (cl_work c) (db_next db2 + 2) (cl_now c) dbE = Inr (dg_held r, db')"
      and r: "dg_lane r = db_next db2" "dg_card r = db_next db2 + 1" "dg_task r = db_next db2 + 2" "dg_msg r = db_next db"
    by (rule write_delegation_rows)
  have "get_lane (dg_lane r) dbE = Some l"
    using fresh_get [OF ok(2)] rows r E by (simp add: get_lane_def tbl_get_append rows_added_def new_lane_def)
  moreover have "get_card (dg_card r) db' = Some k"
  proof -
    have "list_all (\<lambda>k. cd_id k < db_next db2 + 1) (db_cards db2)" using ok(3) by (auto simp: list_all_iff)
    from fresh_get [OF this] rows r E hold_links [OF H] show ?thesis by (simp add: get_card_def tbl_get_append rows_added_def)
  qed
  moreover have "get_task (dg_task r) dbE = Some t"
  proof -
    have "list_all (\<lambda>t. tk_id t < db_next db2 + 2) (db_tasks db2)" using ok(1) by (auto simp: ids_ok_def list_all_iff)
    from fresh_get [OF this] rows r E show ?thesis by (simp add: get_task_def tbl_get_append rows_added_def)
  qed
  moreover have "get_lane (dg_lane r) db = None"
  proof -
    have "list_all (\<lambda>l. ln_id l < db_next db2) (db_lanes db)" using ok(2) f by simp
    from fresh_get [OF this] r show ?thesis by (simp add: get_lane_def)
  qed
  ultimately show ?thesis
    using hold_links [OF H, of "dg_lane r" "dg_task r"] rows r i
    by (simp add: delegation_made_def rows_added_def new_lane_def lane_link_def)
qed

lemma fold_max_le: "b \<le> fold max ns b \<and> (\<forall>n \<in> set ns. n \<le> fold max ns (b::int))"
proof (induction ns arbitrary: b)
  case (Cons n ns)
  from Cons.IH [of "max n b"] show ?case by auto
qed simp

lemma next_number_fresh:
  assumes "k \<in> set (db_cards db)" and "cd_room k = room" and "cd_work k = w"
  shows "cd_number k < next_number room w db"
proof -
  have "cd_number k \<in> set (map cd_number (filter (\<lambda>c. cd_room c = room \<and> cd_work c = w) (db_cards db)))" using assms by auto
  with fold_max_le show ?thesis unfolding next_number_def by fastforce
qed

text \<open>The number of a card is unique in its scope: the table's unique index.\<close>

definition numbers_ok :: "db \<Rightarrow> bool" where
  "numbers_ok db \<longleftrightarrow> distinct (map (\<lambda>k. (cd_room k, cd_work k, cd_number k)) (db_cards db))
     \<and> list_all (\<lambda>k. 1 \<le> cd_number k) (db_cards db)"

named_theorems other_errors \<open>statements that do not run into the unique index of the cards\<close>

lemma not_unique [other_errors, simp]:
  "find_caller i db \<noteq> Inl DbUnique" "insert_row m db \<noteq> Inl DbUnique" "store_speech pu msg o' db \<noteq> Inl DbUnique"
  "update_task i f db \<noteq> Inl DbUnique" "pause_for_loop room now db \<noteq> Inl DbUnique"
  "insert_lane room a p deps d w now db \<noteq> Inl DbUnique" "insert_queued_task n db \<noteq> Inl DbUnique"
  "cancel_closed i now db \<noteq> Inl DbUnique" "plan_gate w db \<noteq> Inl DbUnique" "target_profile c a db \<noteq> Inl DbUnique"
  "named_profile a nm p db \<noteq> Inl DbUnique" "holds_for w db \<noteq> Inl DbUnique"
proof -
  show ut: "update_task i f db \<noteq> Inl DbUnique" for i f db by (simp add: update_task_def split: option.split)
  show "pause_for_loop room now db \<noteq> Inl DbUnique"
    by (auto simp: pause_for_loop_def block_def bindE_eq_Inl_iff pause_loop_drains Let_def split: option.splits prod.splits bool.splits)
  show "cancel_closed i now db \<noteq> Inl DbUnique"
    by (auto simp: cancel_closed_def cancel_one_def bindE_eq_Inl_iff ut split: option.splits)
  show "holds_for w db \<noteq> Inl DbUnique"
    by (auto simp: holds_for_def state_of_def bindE_eq_Inl_iff split: option.splits)
qed (auto simp: find_caller_def insert_row_def store_speech_def insert_lane_def insert_queued_task_def insert_task_row_def
    insert_task_def plan_gate_def target_profile_def named_profile_def bindE_eq_Inl_iff Let_def
    split: option.splits prod.splits)

lemma not_unique_hold [other_errors, simp]: "hold_delegation w i now db \<noteq> Inl DbUnique"
  by (auto simp: hold_delegation_def bindE_eq_Inl_iff)

lemma not_unique_check [other_errors, simp]: "check_delegation artifact_here c inp db \<noteq> Inl DbUnique"
  by (auto simp: check_delegation_def Let_def bindE_eq_Inl_iff)

lemma not_unique_refuse [other_errors, simp]: "refuse_delegation pu c msg a ut db \<noteq> Inl DbUnique"
  by (auto simp: refuse_delegation_def bindE_eq_Inl_iff)

lemma create_card_unique:
  assumes "create_card room w n dl dt l par d m now db = Inl DbUnique"
  obtains k where "k \<in> set (db_cards db)" "cd_lane k = l \<or> cd_room k = room \<and> cd_work k = w \<and> cd_number k = n"
  using assms by (auto simp: create_card_def list_ex_iff split: if_splits)

lemma write_not_unique:
  assumes "list_all (\<lambda>k. cd_lane k < db_next db) (db_cards db)"
    and "\<And>k. k \<in> set (db_cards db) \<Longrightarrow> cd_room k = cl_room c \<Longrightarrow> cd_work k = cl_work c \<Longrightarrow> cd_number k < num"
  shows "write_delegation pu c inp profile num msg db \<noteq> Inl DbUnique"
proof
  assume "write_delegation pu c inp profile num msg db = Inl DbUnique"
  then obtain lane dbA where A: "insert_lane (cl_room c) (dr_assignee (di_card inp)) profile (di_depends_on inp) (Some (cl_task c)) (cl_work c) (cl_now c) db = Inr (lane, dbA)"
    and B: "create_card (cl_room c) (cl_work c) num (cl_agent c) (cl_task c) lane (parent_card (cl_task c) dbA) (di_card inp) msg (cl_now c) dbA = Inl DbUnique"
    by (auto simp: write_delegation_def Let_def bindE_eq_Inl_iff split: option.splits)
  from A have a: "lane = db_next db" "db_cards dbA = db_cards db" by (auto simp: insert_lane_def split: if_splits)
  from B obtain k where "k \<in> set (db_cards dbA)"
      "cd_lane k = lane \<or> cd_room k = cl_room c \<and> cd_work k = cl_work c \<and> cd_number k = num"
    by (rule create_card_unique)
  with a assms show False by (fastforce simp: list_all_iff)
qed

lemma no_cards_refuse:
  assumes "refuse_delegation pu c msg a ut db = Inr db'"
  shows "db_cards db' = db_cards db"
proof -
  have block: "block room why now x = Inr (n, y) \<Longrightarrow> db_cards y = db_cards x" for room why now x n y
    by (auto simp: block_def update_room_def Let_def split: option.splits if_splits prod.splits bool.splits)
  have "pause_for_loop room now x = Inr y \<Longrightarrow> db_cards y = db_cards x" for room now x y
    by (auto simp: pause_for_loop_def pause_loop_drains file_room_card_def insert_inbox_def attach_hitl_card_def insert_message_def
        insert_loop_request_def Let_def split: option.splits if_splits prod.splits dest!: block)
  with assms show ?thesis
    by (auto simp: refuse_delegation_def update_message_def insert_server_event_def dest!: store_speech_Inr)
qed

lemma write_numbers:
  assumes "store_ok db" and "numbers_ok db" and "1 \<le> num"
    and num: "\<And>k. k \<in> set (db_cards db) \<Longrightarrow> cd_room k = cl_room c \<Longrightarrow> cd_work k = cl_work c \<Longrightarrow> cd_number k < num"
  shows "case write_delegation pu c inp profile num msg db of Inl e \<Rightarrow> e \<noteq> DbUnique | Inr (r, db') \<Rightarrow> numbers_ok db'"
proof (cases "write_delegation pu c inp profile num msg db")
  case (Inl e)
  have "list_all (\<lambda>k. cd_lane k < db_next db) (db_cards db)" using assms(1) by (auto simp: store_ok_def list_all_iff)
  then have "write_delegation pu c inp profile num msg db \<noteq> Inl DbUnique" by (rule write_not_unique) (rule num)
  with Inl show ?thesis by auto
next
  case w: (Inr y)
  obtain r db' where y: "y = (r, db')" by fastforce
  have "ids_ok db" using assms(1) by (simp add: store_ok_def)
  with w [unfolded y] obtain l k t dbE where rows: "rows_added c inp profile num msg db l k t"
      and E: "db_cards dbE = db_cards db @ [k]" and H: "hold_delegation (cl_work c) (db_next db + 2) (cl_now c) dbE = Inr (dg_held r, db')"
    by (rule write_delegation_rows)
  have "numbers_ok dbE" using assms(2,3) E rows num by (fastforce simp: numbers_ok_def rows_added_def)
  then have "numbers_ok db'" using hold_links [OF H] by (simp add: numbers_ok_def)
  with w y show ?thesis by simp
qed

lemma store_ok_later:
  "store_ok db \<Longrightarrow> db_lanes db' = db_lanes db \<Longrightarrow> db_cards db' = db_cards db \<Longrightarrow> db_tasks db' = db_tasks db
     \<Longrightarrow> db_next db \<le> db_next db' \<Longrightarrow> store_ok db'"
  using ids_ok_other by (fastforce simp: store_ok_def list_all_iff)

text \<open>
  C40 Card numbers are safe: a delegation, whatever its outcome, leaves the numbers of the cards unique in their
  mission or room and positive, and it never fails on the unique index, although it computes the number
  with a query of its own before it inserts the card.
\<close>

theorem delegation_numbers_unique:
  assumes "store_ok db" and "numbers_ok db"
  shows "fst (delegate_card pu ut bubble artifact_here i inp db) \<noteq> Inl DbUnique
    \<and> numbers_ok (snd (delegate_card pu ut bubble artifact_here i inp db))"
proof (cases "bindE (find_caller i db) (\<lambda>c. bindE (check_delegation artifact_here c inp db) (\<lambda>profile. Inr (c, profile)))")
  case (Inl e)
  moreover from Inl have "e \<noteq> DbUnique" by (auto simp: bindE_eq_Inl_iff)
  ultimately show ?thesis using assms by (simp add: delegate_card_def)
next
  case (Inr x)
  obtain c profile where x: "x = (c, profile)" by fastforce
  let ?num = "next_number (cl_room c) (cl_work c) db" and ?a = "dr_assignee (di_card inp)" and ?msg = "db_next db"
  note unfolded = delegate_card_def Inr x sum.case prod.case Let_def
  show ?thesis
  proof (cases "insert_row (delegation_bubble bubble ut c (di_card inp) db) db")
    case (Inl e)
    moreover from Inl have "e \<noteq> DbUnique" by (auto simp: insert_row_def split: if_splits)
    ultimately show ?thesis using assms by (simp add: unfolded)
  next
    case row: (Inr db1)
    obtain v db2 where j: "judge_room_hop (cl_room c) (cl_ws c) (delegate_hop c ?a db1) ?msg 2 (cl_now c) db1 = (v, db2)" by fastforce
    have f: "db_lanes db2 = db_lanes db" "db_cards db2 = db_cards db" "db_tasks db2 = db_tasks db" "db_next db2 = db_next db + 1"
      using row j by (auto simp: insert_row_def judge_room_hop_def split: if_splits prod.splits)
    have ok: "store_ok db2" "numbers_ok db2"
      using store_ok_later [OF assms(1), of db2] assms(2) f by (simp_all add: numbers_ok_def)
    show ?thesis
    proof (cases "lv_allowed v")
      case False
      show ?thesis
        using no_cards_refuse [of pu c ?msg ?a ut db2] not_unique_refuse [of pu c ?msg ?a ut db2] f(2) False assms
        by (auto simp: unfolded row j numbers_ok_def split: sum.split)
    next
      case True
      have "1 \<le> ?num" using fold_max_le [of 0] by (simp add: next_number_def)
      with write_numbers [OF ok, of ?num c pu inp profile ?msg] next_number_fresh f(2) True assms show ?thesis
        by (auto simp: unfolded row j split: sum.splits)
    qed
  qed
qed

section \<open>A delegation at work\<close>

definition to_do :: delegate_input where
  "to_do = \<lparr>di_card = \<lparr>dr_assignee = 8, dr_goal = ''g'', dr_criteria = [\<lparr>cr_n = 0, cr_text = ''c'', cr_method = ''test''\<rparr>],
     dr_boundaries = ''b'', dr_refs = [], dr_output_format = None, dr_budget = Some 2\<rparr>, di_depends_on = [], di_profile = None\<rparr>"

definition dev_delegates :: "(db_error + delegate_result) \<times> db" where
  "dev_delegates = delegate_card post_pu (\<lambda>_. ''8'') (\<lambda>_ _. '':'') (\<lambda>_ _. False) 1 to_do post_db"

lemma dev_delegates_answer:
  "fst dev_delegates = Inr \<lparr>dg_lane = 101, dg_msg = 100, dg_task = 103, dg_card = 102, dg_held = True\<rparr>"
  by code_simp

lemma post_db_store: "store_ok post_db" "numbers_ok post_db"
  using post_db_ok(1) by (simp_all add: store_ok_def numbers_ok_def post_db_def empty_db_def sample_lane_def)

theorem delegation_opens_lane_witness:
  "case fst dev_delegates of Inl e \<Rightarrow> False | Inr r \<Rightarrow> get_lane (dg_lane r) post_db = None \<and> delegation_made 1 to_do r (snd dev_delegates)"
proof -
  have "dev_delegates = (Inr \<lparr>dg_lane = 101, dg_msg = 100, dg_task = 103, dg_card = 102, dg_held = True\<rparr>, snd dev_delegates)"
    using dev_delegates_answer by (metis prod.collapse)
  from delegation_opens_lane [OF this [unfolded dev_delegates_def] post_db_store(1)] dev_delegates_answer show ?thesis
    unfolding dev_delegates_def by simp
qed

theorem delegation_numbers_unique_witness:
  "fst dev_delegates \<noteq> Inl DbUnique \<and> numbers_ok (snd dev_delegates)"
  unfolding dev_delegates_def using post_db_store by (rule delegation_numbers_unique)

end
