(* ===== verification/Join_Facts.thy ===== *)
theory Join_Facts
  imports Delegation_Facts
begin

text \<open>
  What the end of a delegation group guarantees: its follow-up is sent when every lane of the group has
  ended, and never twice.
\<close>

section \<open>A fired join stays fired\<close>

definition fired :: "uuid \<Rightarrow> db \<Rightarrow> bool" where
  "fired d db = (case get_task d db of None \<Rightarrow> False | Some t \<Rightarrow> tk_join_fired t \<noteq> None)"

definition fired_kept :: "db \<Rightarrow> db \<Rightarrow> bool" where
  "fired_kept db db' \<longleftrightarrow> (\<forall>d. fired d db \<longrightarrow> fired d db')"

lemma fired_kept_upd:
  assumes "\<And>t. t \<in> set (db_tasks db) \<Longrightarrow> p t \<Longrightarrow> tk_id (f t) = tk_id t \<and> (tk_join_fired t \<noteq> None \<longrightarrow> tk_join_fired (f t) \<noteq> None)"
  shows "fired_kept db (db\<lparr>db_tasks := tbl_upd p f (db_tasks db)\<rparr>)"
proof -
  have "get_task i (db\<lparr>db_tasks := tbl_upd p f (db_tasks db)\<rparr>) = map_option (\<lambda>t. if p t then f t else t) (get_task i db)" for i
    using assms by (intro get_task_upd) auto
  with assms show ?thesis unfolding fired_kept_def fired_def by (fastforce split: option.splits dest: get_task_row)
qed

interpretation firing: follow_writes fired_kept
proof unfold_locales
  show "fired_kept db db'" if "db_tasks db' = db_tasks db" for db db'
    using that by (simp add: fired_kept_def fired_def get_task_def)
  show "fired_kept db (db\<lparr>db_tasks := tbl_upd p f (db_tasks db)\<rparr>)"
    if "\<And>t. t \<in> set (db_tasks db) \<Longrightarrow> p t \<Longrightarrow>
      waiting t \<and> same_task (f t) t \<and> (tk_status (f t) = tk_status t \<or> cancels db t (f t))" for db p f
    using that by (intro fired_kept_upd) (auto simp: same_task_def same_core_def)
  show "fired_kept db (db\<lparr>db_tasks := db_tasks db @ [t], db_next := db_next db + 1\<rparr>)" for db t
    using get_task_inserted by (fastforce simp: fired_kept_def fired_def split: option.splits)
  show "fired_kept db (db\<lparr>db_tasks := tbl_modify tk_id i (\<lambda>t. t\<lparr>tk_join_fired := Some j, tk_updated_at := n\<rparr>) (db_tasks db)\<rparr>)" for db i j n
    unfolding tbl_modify_def by (rule fired_kept_upd) simp
qed (auto simp: fired_kept_def)

section \<open>The follow-up\<close>

lemma join_marks:
  assumes "maybe_fire_join c d db = Inr (True, db')" and "ids_ok db"
  obtains t db1 where "get_task d db = Some t" "tk_join_fired t = None" "list_all (\<lambda>l. lane_terminal (ln_status l)) (children d db)"
    "children d db \<noteq> []" "fired d db1" "ids_ok db1" "join_marked c (tk_agent t) d db1 = Inr (True, db')"
proof -
  let ?f = "\<lambda>t. t\<lparr>tk_join_fired := Some (ec_now c), tk_updated_at := ec_now c\<rparr>"
  obtain t db1 where t: "get_task d db = Some t" "tk_join_fired t = None" "children d db \<noteq> []"
      "list_all (\<lambda>l. lane_terminal (ln_status l)) (children d db)"
      and u: "update_task d ?f db = Inr db1" and j: "join_marked c (tk_agent t) d db1 = Inr (True, db')"
    using assms by (auto simp: maybe_fire_join_def Let_def split: option.splits if_splits)
  from u t(1) have "db1 = db\<lparr>db_tasks := tbl_modify tk_id d ?f (db_tasks db)\<rparr>" by (auto simp: update_task_def split: if_splits)
  then have "fired d db1" using t(1) tbl_get_modify [of tk_id ?f d "db_tasks db" d] by (simp add: fired_def get_task_def)
  moreover have "ids_ok db1" using firing.step_join_mark [OF u] assms(2) by (simp add: step_of_def)
  ultimately show thesis using that t j by blast
qed

lemma marked_keeps_fired:
  assumes "join_marked c a d db = Inr (b, db')" and "ids_ok db" and "fired d db"
  shows "fired d db'"
proof -
  have all: "fired d db'"
    if p: "system_post (ec_room c) (ec_now c) db = (msg, db1)" and w: "wake_task w db1 = Inr (i, db2)"
      and at: "attach_result_cards i cs db2 = Inr db'" for msg db1 w i db2 cs
  proof -
    have "step_of fired_kept db db1" using firing.step_no_tasks [OF no_tasks_writes(11), of db "ec_room c" "ec_now c"] p by simp
    with firing.step_woken [OF w at] have "step_of fired_kept db db'" using firing.step_trans by blast
    with assms(2,3) show ?thesis by (simp add: step_of_def fired_kept_def)
  qed
  from assms(1) show ?thesis by (auto simp: join_marked_def join_posted_case split: prod.splits elim: all)
qed

text \<open>
  C4 The follow-up of a delegation group is sent at most once (FR-6.5): when the end of a lane sent it, the group had
  lanes, every one of them had ended, and nobody had been told before; and a second end, of any turn and
  at any time, sends nothing and changes nothing.
\<close>

theorem join_fires_once:
  assumes "maybe_fire_join c d db = Inr (True, db')" and "ids_ok db"
  shows "\<not> fired d db \<and> children d db \<noteq> [] \<and> list_all (\<lambda>l. lane_terminal (ln_status l)) (children d db)
    \<and> maybe_fire_join c' d db' = Inr (False, db')"
proof -
  obtain t db1 where t: "get_task d db = Some t" "tk_join_fired t = None" "list_all (\<lambda>l. lane_terminal (ln_status l)) (children d db)"
      "children d db \<noteq> []" and f: "fired d db1" "ids_ok db1" and j: "join_marked c (tk_agent t) d db1 = Inr (True, db')"
    using assms by (rule join_marks)
  from marked_keeps_fired [OF j] f assms(2) have "fired d db'" by blast
  then have "maybe_fire_join c' d db' = Inr (False, db')" by (auto simp: maybe_fire_join_def fired_def split: option.splits)
  with t show ?thesis by (simp add: fired_def)
qed

definition qa_ctx :: end_ctx where
  "qa_ctx = \<lparr>ec_room = 3, ec_ws = 1, ec_lane = 12, ec_agent = 8, ec_task = 13, ec_trigger = None, ec_reentry = 0,
     ec_lane_status = LaneDone, ec_now = 20\<rparr>"

lemma qa_join_fires: "case maybe_fire_join qa_ctx 1 end_db of Inl e \<Rightarrow> False | Inr (b, db') \<Rightarrow> b"
  by code_simp

theorem join_fires_once_witness:
  "case maybe_fire_join qa_ctx 1 end_db of Inl e \<Rightarrow> False
   | Inr (b, db') \<Rightarrow> maybe_fire_join qa_ctx 1 db' = Inr (False, db')"
proof -
  obtain db' where k: "maybe_fire_join qa_ctx 1 end_db = Inr (True, db')" using qa_join_fires by (rule returned) auto
  have "ids_ok end_db" by (simp add: ids_ok_def end_db_def post_db_def sample_task_def)
  from join_fires_once [OF k this, of qa_ctx] show ?thesis unfolding k by simp
qed

end
