(* ===== verification/Loop_Stop.thy ===== *)
theory Loop_Stop
  imports Delegation_Facts
begin

text \<open>
  What a tripped loop limit does to the queue: the room stops, nothing a post does afterwards starts it
  again, and no claim hands out one of its tasks.
\<close>

section \<open>The room row\<close>

definition stopped :: "uuid \<Rightarrow> db \<Rightarrow> bool" where
  "stopped room db = (case get_room room db of None \<Rightarrow> False | Some r \<Rightarrow> rm_blocked r \<noteq> None)"

definition stop_kept :: "db \<Rightarrow> db \<Rightarrow> bool" where
  "stop_kept db db' \<longleftrightarrow> (\<forall>room. stopped room db \<longrightarrow> stopped room db')"

lemma stop_kept_refl [simp, intro]: "stop_kept db db"
  by (simp add: stop_kept_def)

lemma stop_kept_trans: "stop_kept a b \<Longrightarrow> stop_kept b c \<Longrightarrow> stop_kept a c"
  by (simp add: stop_kept_def)

lemma stop_kept_same: "db_rooms db' = db_rooms db \<Longrightarrow> stop_kept db db'"
  by (simp add: stop_kept_def stopped_def get_room_def)

named_theorems stop_writes \<open>writes that start no stopped room\<close>

lemma stop_kept_writes [stop_writes, simp]:
  "stop_kept db (update_lane l p f db)" "stop_kept db (reenter_lane l now db)"
  "stop_kept db (update_message m g db)" "stop_kept db (insert_inbox r ty now db)"
  "stop_kept db (file_room_card r ty now db)" "stop_kept db (insert_server_event t n c v ob out now db)"
  "stop_kept db (set_quiet w qs since db)" "stop_kept db (snd (insert_message a k w' rm src now db))"
  "stop_kept db (snd (insert_loop_request rm db))" "stop_kept db (attach_hitl_card rm w' hi now db)"
  "stop_kept db (snd (quiet_hold i db))"
  by (rule stop_kept_same, simp add: update_lane_def reenter_lane_def update_message_def insert_inbox_def file_room_card_def
      insert_server_event_def set_quiet_def insert_message_def insert_loop_request_def attach_hitl_card_def
      quiet_hold_def split: option.split)+

lemma stop_kept_task [stop_writes]: "update_task i f db = Inr db' \<Longrightarrow> stop_kept db db'"
  by (rule stop_kept_same) (auto simp: update_task_def split: option.splits if_splits)

lemma stop_kept_hop [stop_writes]: "judge_room_hop room ws h m r now db = (v, db') \<Longrightarrow> stop_kept db db'"
  by (rule stop_kept_same) (auto simp: judge_room_hop_def split: prod.splits)

lemma stop_kept_resolve [stop_writes]: "resolve_lane_for room a p opts now db = Inr (l, db') \<Longrightarrow> stop_kept db db'"
  by (auto simp: resolve_lane_for_def insert_lane_def Let_def split: if_splits intro: stop_kept_same)

lemma stop_kept_bind [stop_writes]: "bind_lane_work l w db = Inr (w', db') \<Longrightarrow> stop_kept db db'"
  by (auto simp: bind_lane_work_def Let_def split: option.splits)

lemma stop_kept_insert_row [stop_writes]: "insert_task_row t db = Inr db' \<Longrightarrow> stop_kept db db'"
  by (rule stop_kept_same) (auto simp: insert_task_row_def insert_task_def split: if_splits)

lemma stop_kept_queue [stop_writes]: "insert_queued_task n db = Inr (i, db') \<Longrightarrow> stop_kept db db'"
  by (auto simp: insert_queued_task_def stop_writes split: prod.splits)

lemma stop_kept_promote [stop_writes]: "promote_queued i lane q db = Inr db' \<Longrightarrow> stop_kept db db'"
  using promote_queued_write [of i lane q db db'] stop_kept_task by blast

lemma stop_kept_enqueue [stop_writes]:
  assumes "enqueue rc tr p lane lw db = Inr (x, db')"
  shows "stop_kept db db'"
proof -
  have merge: "update_task j f db = Inr a \<Longrightarrow> promote_queued j lane q a = Inr db' \<Longrightarrow> stop_kept db db'" for j f a q
    using stop_kept_trans stop_kept_task stop_kept_promote by blast
  from assms show ?thesis
    by (auto simp: enqueue_def Let_def split: option.splits elim: merge stop_kept_queue)
qed

lemma stop_kept_cancel [stop_writes]:
  assumes "cancel_closed i now db = Inr db'"
  shows "stop_kept db db'"
proof -
  have "stop_kept db a" "stop_kept db (update_lane l p g a)"
    if "update_task i f (insert_server_event i n ''status'' ''cancel'' ''approval_closed'' ''ok'' now db) = Inr a" for f n a l p g
    using stop_kept_trans [OF stop_kept_writes(6) stop_kept_task [OF that]] stop_kept_trans stop_kept_writes(1) by blast+
  with assms show ?thesis
    by (auto simp: cancel_closed_def cancel_one_def split: option.splits if_splits)
qed

lemma stop_kept_hold [stop_writes]:
  assumes "hold_trigger rc tr lw i co db = Inr (h, db')"
  shows "stop_kept db db'"
proof -
  have q: "quiet_hold i a = (x, b) \<Longrightarrow> stop_kept a b" for a b x
    using stop_kept_writes(11) [of a i] by simp
  have c: "cancel_closed i now db = Inr a \<Longrightarrow> quiet_hold i a = (x, b) \<Longrightarrow> stop_kept db b" for now a b x
    using stop_kept_trans [OF stop_kept_cancel q] .
  from assms show ?thesis
    by (auto simp: hold_trigger_def Let_def split: if_splits prod.splits elim: stop_kept_cancel q c)
qed

lemma stop_kept_route [stop_writes]:
  assumes "route_trigger rc tr db = Inr (x, db')"
  shows "stop_kept db db'"
proof -
  have all: "stop_kept db db'"
    if "resolve_lane_for room a p opts now db = Inr (l, d1)" "bind_lane_work l w d1 = Inr (w', d2)"
      "enqueue rc tr p' l w' d2 = Inr (y, d3)" "hold_trigger rc tr w' i co d3 = Inr (h, db')"
    for room a p opts now l d1 w w' d2 p' y d3 i co h
    using stop_kept_resolve [OF that(1)] stop_kept_bind [OF that(2)] stop_kept_enqueue [OF that(3)] stop_kept_hold [OF that(4)]
      stop_kept_trans by blast
  from assms show ?thesis by (auto simp: route_trigger_def Let_def elim: all)
qed

lemma stop_kept_schedule [stop_writes]:
  assumes "schedule_fallback room fb pr p m og w now db = Inr (x, db')"
  shows "stop_kept db db'"
proof -
  have all: "stop_kept db db'"
    if "resolve_lane_for room a p opts now db = Inr (l, d1)" "bind_lane_work l w d1 = Inr (w', d2)" "insert_task_row t d2 = Inr db'"
    for a opts l d1 w' d2 t
    using stop_kept_resolve [OF that(1)] stop_kept_bind [OF that(2)] stop_kept_insert_row [OF that(3)] stop_kept_trans by blast
  from assms show ?thesis by (auto simp: schedule_fallback_def Let_def split: if_splits elim: all)
qed

lemma stop_kept_fallback [stop_writes]: "post_fallback rc dec asg es db = Inr (es', db') \<Longrightarrow> stop_kept db db'"
  by (auto simp: post_fallback_def Let_def split: option.splits if_splits dest!: stop_kept_schedule)

section \<open>The stop\<close>

lemma update_room_stop:
  assumes "\<And>r. rm_id (f r) = rm_id r" and "\<And>r. rm_blocked r \<noteq> None \<Longrightarrow> rm_blocked (f r) \<noteq> None"
  shows "stop_kept db (snd (update_room i p f db))"
  using tbl_get_modify [of rm_id f, OF assms(1)] assms(2)
  by (auto simp: update_room_def stop_kept_def stopped_def get_room_def split: option.splits)

lemma block_stops:
  assumes "block room why now db = Inr (n, db')"
  shows "stopped room db' \<and> stop_kept db db'"
proof -
  let ?f = "\<lambda>r. r\<lparr>rm_blocked := Some why, rm_updated_at := now\<rparr>"
  define db1 where "db1 = (if mirrors why then db\<lparr>db_works := tbl_upd (active_in room) (park why now) (db_works db)\<rparr> else db)"
  then have d: "db_rooms db1 = db_rooms db" by simp
  have u: "update_room room (\<lambda>r. rm_blocked r = None) ?f db1 = (True, db')"
    using assms unfolding block_def Let_def db1_def [symmetric] by (auto split: prod.splits bool.splits)
  have "stopped room db'"
    using u tbl_get_modify [of rm_id ?f room "db_rooms db1" room]
    by (auto simp: update_room_def stopped_def get_room_def split: option.splits if_splits)
  moreover have "stop_kept db1 (snd (update_room room (\<lambda>r. rm_blocked r = None) ?f db1))" by (rule update_room_stop) simp_all
  ultimately show ?thesis using u stop_kept_trans [OF stop_kept_same [OF d]] by simp
qed

lemma pause_stops:
  assumes "pause_for_loop room now db = Inr db'"
  shows "stopped room db' \<and> stop_kept db db'"
proof (cases "stopped room db")
  case True
  with assms show ?thesis by (auto simp: pause_for_loop_def stopped_def split: option.splits)
next
  case False
  then obtain n db1 h db2 where b: "block room reason_loop now db = Inr (n, db1)" and r: "insert_loop_request room db1 = (h, db2)"
      and db': "db' = file_room_card h ''room_paused'' now (attach_hitl_card room None h now db2)"
    using assms by (auto simp: pause_for_loop_def stopped_def pause_loop_drains split: option.splits prod.splits)
  have "stop_kept db1 db2" using r stop_kept_writes(9) [of db1 room] by simp
  then have "stop_kept db1 db'" unfolding db'
    using stop_kept_trans [OF _ stop_kept_trans [OF stop_kept_writes(10) stop_kept_writes(5)]] by blast
  with block_stops [OF b] show ?thesis using stop_kept_trans by (auto simp: stop_kept_def)
qed

section \<open>A post\<close>

lemma step_stops:
  assumes "post_step rc cause ret tr ((es, looped, held), db) = Inr ((es', looped', held'), db')"
    and "looped \<noteq> [] \<longrightarrow> stopped (rc_room rc) db"
  shows "looped' \<noteq> [] \<longrightarrow> stopped (rc_room rc) db'"
proof -
  obtain v db1 where j: "judge_room_hop (rc_room rc) (rc_ws rc) (hop_of_post rc cause ret (tr_agent tr)) (rc_msg rc) (tr_rule tr) (rc_now rc) db = (v, db1)"
    by fastforce
  have later: "looped \<noteq> [] \<Longrightarrow> stop_kept db1 db' \<Longrightarrow> stopped (rc_room rc) db'"
    using assms(2) stop_kept_hop [OF j] by (simp add: stop_kept_def)
  show ?thesis
  proof (cases "lv_allowed v")
    case False
    with assms(1) j show ?thesis by (auto simp: post_step_def dest: pause_stops)
  next
    case True
    with assms(1) j later show ?thesis by (auto simp: post_step_def dest!: stop_kept_route)
  qed
qed

lemma fold_stops:
  assumes "foldE (post_step rc cause ret) trs ((es, looped, held), db) = Inr ((es', looped', held'), db')"
    and "looped \<noteq> [] \<longrightarrow> stopped (rc_room rc) db"
  shows "looped' \<noteq> [] \<longrightarrow> stopped (rc_room rc) db'"
  using assms
proof (induction trs arbitrary: es looped held db)
  case (Cons tr trs)
  then obtain es1 l1 h1 db1 where "post_step rc cause ret tr ((es, looped, held), db) = Inr ((es1, l1, h1), db1)"
      "foldE (post_step rc cause ret) trs ((es1, l1, h1), db1) = Inr ((es', looped', held'), db')" by auto
  with Cons show ?case using step_stops by blast
qed auto

definition warned_loop :: "post_warning list \<Rightarrow> uuid list" where
  "warned_loop ws = List.map_filter (\<lambda>w. case w of PwLoop a \<Rightarrow> Some a | _ \<Rightarrow> None) ws"

lemma warned_loop_result [simp]: "warned_loop (map PwRoute ws @ map PwLoop ls @ map PwHeld hs) = ls"
proof -
  have "warned_loop (map PwRoute ws @ xs) = warned_loop xs" "warned_loop (map PwLoop ls @ xs) = ls @ warned_loop xs"
    "warned_loop (map PwHeld hs) = []" for xs
    by (induction ws, simp_all add: warned_loop_def map_filter_simps) (induction ls, simp_all add: map_filter_simps,
      induction hs, simp_all add: map_filter_simps)
  then show ?thesis by simp
qed

lemma stop_kept_finish: "finish_post author room msg now db = Inr db' \<Longrightarrow> stop_kept db db'"
proof -
  assume f: "finish_post author room msg now db = Inr db'"
  have touch: "stop_kept x (snd (update_room room (\<lambda>_. True) (\<lambda>r. r\<lparr>rm_updated_at := now\<rparr>) x))" for x
    by (rule update_room_stop) simp_all
  have cf: "cancel_fallbacks_for t now x = Inr y \<Longrightarrow> stop_kept x (insert_server_event t n ''status'' ''post_message'' [] ''ok'' now y)" for t x y n
    by (rule stop_kept_same) (auto simp: cancel_fallbacks_for_def update_tasks_def insert_server_event_def split: if_splits)
  from f show ?thesis by (auto simp: finish_post_def split: option.splits intro: touch stop_kept_trans [OF cf touch])
qed

lemma route_all_stops:
  assumes "route_all rc dec asg db = Inr (r, db')" and "warned_loop (po_warnings r) \<noteq> []"
  shows "stopped (rc_room rc) db'"
proof -
  obtain cause ret entries looped held db1 es where
      f: "foldE (post_step rc cause ret) (dec_triggers dec) (([], [], []), db) = Inr ((entries, looped, held), db1)"
      and p: "post_fallback rc dec asg entries db1 = Inr (es, db')"
      and r: "po_warnings r = map PwRoute (dec_warnings dec) @ map PwLoop looped @ map PwHeld held"
    using assms(1) by (auto simp: route_all_def Let_def)
  from assms(2) r have "looped \<noteq> []" by simp
  with fold_stops [OF f] stop_kept_fallback [OF p] show ?thesis by (simp add: stop_kept_def)
qed

lemma post_row_stops:
  assumes "post_row pu room ws legacy author inp platform part now db = Inr (r, db')" and "warned_loop (po_warnings r) \<noteq> []"
  shows "stopped room db'"
proof -
  have all: "stopped room db'"
    if "post_stored ctx content dec asg (msg, db1) = Inr (r, db')" "\<And>m g. rc_room (ctx m g) = room"
    for msg db1 ctx content dec asg
    using that(1,2) assms(2) route_all_stops stop_kept_finish by (fastforce simp: route_stored_def Let_def stop_kept_def)
  from assms(1) show ?thesis
    unfolding post_row_def Let_def
    by (elim bindE_InrE) (clarsimp simp del: post_stored.simps split: prod.splits, erule all, simp)
qed

section \<open>The claim\<close>

lemma stopped_not_claimed:
  assumes "claim hash tok build locked rt capacity now db = Inr (out, db')" and "ids_ok db" and "stopped room db"
    and "List.member out i" and "get_task i db = Some t"
  shows "tk_room t \<noteq> room"
proof
  assume room: "tk_room t = room"
  have ids: "distinct (map tk_id (db_tasks db))" using assms(2) by (simp add: ids_ok_def)
  from assms(1) ids show False
  proof (rule claim_measures)
    assume "out = []"
    with assms(4) show False by simp
  next
    fix db1 new
    assume q: "quiet_step db db1" and new: "set new \<subseteq> set (candidates rt now db1)" and out: "set out \<subseteq> tk_id ` set new"
    from out assms(4) have "i \<in> tk_id ` set new" by auto
    with new obtain x where x: "x \<in> set (candidates rt now db1)" "tk_id x = i" by auto
    from x(1) have e: "x \<in> set (db_tasks db1)" "eligible rt now db1 x" using candidate_eligible by blast+
    have "distinct (map tk_id (db_tasks db1))" using q cores_ids [of db1 db] ids by (simp add: quiet_step_def)
    then have "get_task i db1 = Some x" using e(1) x(2) tbl_get_in unfolding get_task_def by metis
    then have "core x = core t" using get_task_core [OF _ assms(5), of db1] q by (auto simp: quiet_step_def)
    then have xr: "tk_room x = room" using room by (metis core_def task_row.select_convs task_row.surjective task_row.update_convs)
    have "map_option limits_of (get_room room db1) = map_option limits_of (get_room room db)" using q by (simp add: quiet_step_def)
    with assms(3) obtain s where "get_room room db1 = Some s" "rm_blocked s \<noteq> None"
      by (auto simp: stopped_def limits_of_def split: option.splits)
    with e(2) xr show False by (auto simp: eligible_def room_open_def split: option.splits)
  qed
qed

text \<open>
  C10 A tripped loop limit stops the room (FR-2.3): when a post answers that the loop limiter held back one of
  its triggers, no claim of any computer on the resulting store hands out a task of that room, neither
  one this post made nor one that was waiting.
\<close>

theorem loop_trip_stops_room:
  assumes "post_row pu room ws legacy author inp platform part at' db = Inr (r, db')" and "ids_ok db"
    and "warned_loop (po_warnings r) \<noteq> []"
    and "claim hash tok build locked rt capacity now db' = Inr (out, db'')"
  shows "list_all (\<lambda>i. map_option tk_room (get_task i db') \<noteq> Some room) out"
proof -
  have "ids_ok db'" using landing.step_post_row [OF assms(1)] assms(2) by (simp add: step_of_def)
  with stopped_not_claimed [OF assms(4) _ post_row_stops [OF assms(1,3)]] show ?thesis by (auto simp: list_all_iff)
qed

text \<open>One hop per hour is allowed and was made; QA has a queued task, which a claim would take.\<close>

definition tripping_db :: db where
  "tripping_db = post_db\<lparr>
     db_settings := [\<lparr>st_workspace = 1, st_runtime_cap = None, st_workspace_cap = None, st_masking = True,
        st_loop = [(''max_hops_per_hour'', 1)], st_read = []\<rparr>],
     db_hops := \<lparr>ht_next_id = 2, ht_rows = [\<lparr>hr_id = 1, hr_session = 3, hr_from = Some 8, hr_to = 6, hr_message = None,
        hr_rule = 2, hr_allowed = True, hr_at = 10, hr_cause = None\<rparr>]\<rparr>,
     db_tasks := db_tasks post_db @ [sample_task\<lparr>tk_id := 14, tk_lane := 12, tk_agent := 8, tk_profile := 9, tk_status := Queued, tk_work := Some 20\<rparr>]\<rparr>"

definition dev_trips :: "db_error + post_result \<times> db" where
  "dev_trips = post_row post_pu 3 1 None by_dev (plain_post ''k'') None (Some to_qa) 20 tripping_db"

lemma queue_before: "case claim_of tripping_db of Inl e \<Rightarrow> False | Inr (out, db') \<Rightarrow> out = [14]"
  by code_simp

lemma dev_trips_stop:
  "case dev_trips of Inl e \<Rightarrow> False | Inr (r, db') \<Rightarrow> warned_loop (po_warnings r) = [8]
     \<and> (case claim_of db' of Inl e \<Rightarrow> False | Inr (out, db'') \<Rightarrow> True)"
  by code_simp

theorem loop_trip_stops_room_witness:
  "case dev_trips of Inl e \<Rightarrow> False | Inr (r, db') \<Rightarrow>
     (case claim_of db' of Inl e \<Rightarrow> False | Inr (out, db'') \<Rightarrow>
        list_all (\<lambda>i. map_option tk_room (get_task i db') \<noteq> Some 3) out)"
proof -
  obtain r db' where k: "dev_trips = Inr (r, db')" using dev_trips_stop by (rule returned) (metis prod.exhaust)
  have w: "warned_loop (po_warnings r) \<noteq> []" and cl: "case claim_of db' of Inl e \<Rightarrow> False | Inr (out, db'') \<Rightarrow> True"
    using dev_trips_stop unfolding k by simp_all
  obtain out db'' where c: "claim_of db' = Inr (out, db'')" using cl by (rule returned) (metis prod.exhaust)
  have "ids_ok tripping_db" by (simp add: ids_ok_def tripping_db_def post_db_def sample_task_def)
  from loop_trip_stops_room [OF k [unfolded dev_trips_def] this w c [unfolded claim_of_def]] show ?thesis
    unfolding k using c by simp
qed

end
