(* ===== verification/Card_Judgement.thy ===== *)
theory Card_Judgement
  imports Delegation
begin

text \<open>
  What happens to a card after it was delegated, \<open>server/internal/router/cards.go\<close> with the writes of
  \<open>server/internal/cards/store.go\<close>: the assignee's result (\<open>SubmitResult\<close>), the judgement of the delegator or
  a person (\<open>Accept\<close>, \<open>Revise\<close>), the re-entry of the card's lane, the cards a stopped room left without a
  task, and the card a restart brings back. The texts of bubbles, the labels of references and the
  artifact table are parameters; frames are left out.
\<close>

section \<open>The result\<close>

definition card_turn :: "uuid \<Rightarrow> task_row \<Rightarrow> bool" where
  "card_turn cid t \<longleftrightarrow> tk_kind t = KindCard \<and> tk_card t = Some cid"

text \<open>A turn dispatched before this version's bubble worked on an older version.\<close>

definition older_turn :: "card_row \<Rightarrow> task_row \<Rightarrow> db \<Rightarrow> bool" where
  "older_turn c t db =
     (case (cd_bubble c, tk_dispatched_at t) of
        (Some b, Some d) \<Rightarrow> (case get_message b db of None \<Rightarrow> False | Some m \<Rightarrow> d < ms_created_at m)
      | _ \<Rightarrow> False)"

definition evidence_exists :: "(uuid \<Rightarrow> uuid \<Rightarrow> bool) \<Rightarrow> uuid \<Rightarrow> string \<Rightarrow> uuid \<Rightarrow> db \<Rightarrow> bool" where
  "evidence_exists artifact_here room kind i db =
     (if kind = ''artifact'' then artifact_here i room
      else if kind = ''message'' then list_ex (\<lambda>m. ms_id m = i \<and> ms_room m = room) (db_messages db)
      else True)"

definition check_evidence_exist ::
    "(string \<Rightarrow> uuid option) \<Rightarrow> (uuid \<Rightarrow> uuid \<Rightarrow> bool) \<Rightarrow> uuid \<Rightarrow> result_in \<Rightarrow> db \<Rightarrow> field_error list" where
  "check_evidence_exist pu artifact_here room i db =
     concat (map (\<lambda>(n, v). concat (map (\<lambda>(k, e).
       case pu (ev_ref e) of
         None \<Rightarrow> []
       | Some r \<Rightarrow> if evidence_exists artifact_here room (ev_kind e) r db then []
                   else [(FldIn ''verdicts'' n ''evidence'' k ''ref'', ''not_found'')])
       (List.enumerate 0 (vi_evidence v)))) (List.enumerate 0 (in_verdicts i)))"

text \<open>The labels shown beside the evidence: \<open>label_of\<close> answers for artifacts and messages.\<close>

definition evidence_label :: "(string \<Rightarrow> string \<Rightarrow> string option) \<Rightarrow> evidence \<Rightarrow> evidence" where
  "evidence_label label_of e = e\<lparr>ev_label :=
     (if ev_kind e = ''artifact'' \<or> ev_kind e = ''message'' then label_of (ev_kind e) (ev_ref e)
      else if ev_kind e = ''commit'' then Some (take 7 (ev_ref e)) else None)\<rparr>"

definition fill_evidence_labels :: "(string \<Rightarrow> string \<Rightarrow> string option) \<Rightarrow> card_result \<Rightarrow> card_result" where
  "fill_evidence_labels label_of r =
     r\<lparr>rt_verdicts := map (\<lambda>v. v\<lparr>vd_evidence := map (evidence_label label_of) (vd_evidence v)\<rparr>) (rt_verdicts r)\<rparr>"

definition card_name :: "card_row \<Rightarrow> string" where
  "card_name c = card_label (nat (cd_number c))"

text \<open>The card a turn may report on: its own, open, and in the version it was dispatched for.\<close>

definition reportable_card :: "uuid \<Rightarrow> uuid \<Rightarrow> db \<Rightarrow> db_error + card_row" where
  "reportable_card i cid db =
     bindE (lock_task_ctx i (db_clock db) db) (\<lambda>_.
     case get_task i db of
       None \<Rightarrow> Inl DbMissingRow
     | Some t \<Rightarrow>
         if \<not> card_turn cid t then Inl (ErrForbidden ''not_card_task'')
         else (case get_card cid db of
                 None \<Rightarrow> Inl ErrNotFound
               | Some c \<Rightarrow>
                   if older_turn c t db then Inl (ErrForbidden ''not_card_task'')
                   else if \<not> snd (card_transition (cd_status c) ActSubmit False)
                        \<or> (cd_status c \<noteq> InProgress \<and> cd_status c \<noteq> ResultSubmitted)
                   then Inl (ErrConflict ''card_not_open'') else Inr c))"

definition checked_result ::
    "(string \<Rightarrow> uuid option) \<Rightarrow> (uuid \<Rightarrow> uuid \<Rightarrow> bool) \<Rightarrow> card_row \<Rightarrow> result_in \<Rightarrow> db \<Rightarrow>
     db_error + card_result \<times> int list" where
  "checked_result pu artifact_here c i db =
     (case check_result pu i (cd_criteria c) of
        Inl _ \<Rightarrow> Inl (ErrValidation ''result_card_incomplete'')
      | Inr (r, down) \<Rightarrow>
          if check_evidence_exist pu artifact_here (cd_room c) i db \<noteq> [] then Inl (ErrValidation ''result_card_incomplete'')
          else Inr (r, down))"

definition submit_result ::
    "(string \<Rightarrow> uuid option) \<Rightarrow> (uuid \<Rightarrow> uuid \<Rightarrow> bool) \<Rightarrow> (string \<Rightarrow> string \<Rightarrow> string option) \<Rightarrow> uuid \<Rightarrow> int \<Rightarrow> uuid \<Rightarrow>
     result_in \<Rightarrow> db \<Rightarrow> db_error + (uuid \<times> int list) \<times> db" where
  "submit_result pu artifact_here label_of i attempt cid inp db =
     bindE (reportable_card i cid db) (\<lambda>c.
     bindE (checked_result pu artifact_here c inp db) (\<lambda>(r, down).
     let now = db_clock db
     in Inr ((db_next db, down),
          insert_server_event i (if attempt < 1 then 1 else attempt) ''status'' ''card'' (card_name c) ''ok'' now
            (store_result c (fill_evidence_labels label_of r) (Some i) now db))))"

section \<open>Who judges\<close>

record judging =
  jb_task :: "uuid option"
  jb_attempt :: int
  jb_user :: "uuid option"

text \<open>The judge with the kind and id that the judgement names.\<close>

definition judge_of :: "judging \<Rightarrow> db \<Rightarrow> db_error + judge \<times> string \<times> uuid" where
  "judge_of j db =
     (case jb_task j of
        Some i \<Rightarrow>
          (case get_task i db of
             None \<Rightarrow> Inl DbMissingRow
           | Some t \<Rightarrow> (case tbl_get ag_id (db_agents db) (tk_agent t) of
                         None \<Rightarrow> Inl DbMissingRow
                       | Some a \<Rightarrow> Inr (\<lparr>jd_agent = Some (tk_agent t), jd_person = None\<rparr>, ''agent'', tk_agent t)))
      | None \<Rightarrow>
          (case jb_user j of
             None \<Rightarrow> Inl (ErrForbidden ''not_card_judge'')
           | Some u \<Rightarrow> (case tbl_get au_id (db_users db) u of
                         None \<Rightarrow> Inl DbMissingRow
                       | Some _ \<Rightarrow> Inr (\<lparr>jd_agent = None, jd_person = Some u\<rparr>, ''user'', u))))"

text \<open>The people are the mission's Director and deputy, outside a mission the room's owner and deputies.\<close>

definition judges_of :: "card_row \<Rightarrow> db \<Rightarrow> judges" where
  "judges_of c db =
     \<lparr>js_delegator = cd_delegator c,
      js_people =
        (case cd_work c of
           Some w \<Rightarrow> (case get_work w db of
                       None \<Rightarrow> []
                     | Some r \<Rightarrow> wk_director r # (case wk_deputy r of None \<Rightarrow> [] | Some d \<Rightarrow> [d]))
         | None \<Rightarrow>
             (case get_room (cd_room c) db of
                None \<Rightarrow> []
              | Some r \<Rightarrow> if rm_owner r = uuid_nil then [] else [rm_owner r])
             @ concat (map (\<lambda>p. case pr_user p of None \<Rightarrow> [] | Some u \<Rightarrow> [u])
                 (filter (\<lambda>p. pr_room p = cd_room c \<and> pr_role p = RoleDeputy \<and> pr_left p = None) (db_participants db))))\<rparr>"

text \<open>What \<open>Accept\<close> and \<open>Revise\<close> check before they write.\<close>

definition judged_card :: "uuid \<Rightarrow> judging \<Rightarrow> card_action \<Rightarrow> db \<Rightarrow> db_error + card_row \<times> string \<times> uuid" where
  "judged_card cid j act db =
     (case get_card cid db of
        None \<Rightarrow> Inl ErrNotFound
      | Some c \<Rightarrow>
          bindE (judge_of j db) (\<lambda>(who, kind, by).
          if \<not> may_judge who (judges_of c db) then Inl (ErrForbidden ''not_card_judge'')
          else if \<not> snd (card_transition (cd_status c) act (jd_person who \<noteq> None))
          then Inl (ErrConflict ''card_not_judgeable'') else Inr (c, kind, by)))"

definition note_judgement :: "judging \<Rightarrow> card_row \<Rightarrow> time \<Rightarrow> db \<Rightarrow> db" where
  "note_judgement j c now db =
     (case jb_task j of
        None \<Rightarrow> db
      | Some i \<Rightarrow> insert_server_event i (max (jb_attempt j) 1) ''status'' ''card'' (card_name c) ''ok'' now db)"

definition write_accept :: "card_row \<Rightarrow> string \<Rightarrow> uuid \<Rightarrow> string \<Rightarrow> time \<Rightarrow> db \<Rightarrow> db" where
  "write_accept c kind by comment now =
     update_card (cd_id c) (\<lambda>r. r\<lparr>cd_status := Accepted,
       cd_judgement := Some \<lparr>cj_action = ''accepted'', cj_kind = kind, cj_by = by, cj_at = now, cj_reason = None,
         cj_comment = Some comment\<rparr>, cd_updated_at := now\<rparr>)"

definition accept_card :: "uuid \<Rightarrow> judging \<Rightarrow> string \<Rightarrow> db \<Rightarrow> db_error + db" where
  "accept_card cid j comment db =
     bindE (judged_card cid j ActAccept db) (\<lambda>(c, kind, by).
     Inr (note_judgement j c (db_clock db) (write_accept c kind by comment (db_clock db) db)))"

section \<open>A new version\<close>

record card_patch =
  cp_goal :: "string option"
  cp_criteria :: "criterion list option"
  cp_boundaries :: "string option"
  cp_refs :: "card_ref list option"
  cp_output :: "string option option"
  cp_budget :: "rat option option"

definition draft_of_card :: "card_row \<Rightarrow> draft" where
  "draft_of_card c = \<lparr>dr_assignee = cd_assignee c, dr_goal = cd_goal c, dr_criteria = cd_criteria c,
     dr_boundaries = cd_boundaries c, dr_refs = cd_refs c, dr_output_format = cd_output c, dr_budget = cd_budget c\<rparr>"

definition patched :: "card_row \<Rightarrow> card_patch \<Rightarrow> draft" where
  "patched c p = apply_patch (draft_of_card c) (cp_goal p) (cp_criteria p) (cp_boundaries p) (cp_refs p) (cp_output p) (cp_budget p)"

text \<open>The version that ends, with the judgement that ended it.\<close>

definition snapshot :: "card_row \<Rightarrow> card_judgement \<Rightarrow> card_version" where
  "snapshot c j = \<lparr>cv_version = cd_version c, cv_goal = cd_goal c, cv_criteria = cd_criteria c,
     cv_boundaries = cd_boundaries c, cv_refs = cd_refs c, cv_output = cd_output c, cv_budget = cd_budget c,
     cv_reason = cd_reason c, cv_bubble = cd_bubble c, cv_result = cd_result c, cv_judgement = Some j\<rparr>"

definition write_version :: "card_row \<Rightarrow> draft \<Rightarrow> string \<Rightarrow> string \<Rightarrow> uuid \<Rightarrow> time \<Rightarrow> db \<Rightarrow> db" where
  "write_version c d reason kind by now =
     update_card (cd_id c) (\<lambda>r. r\<lparr>cd_version := cd_version r + 1, cd_status := InProgress, cd_goal := trim_space (dr_goal d),
       cd_criteria := numbered (dr_criteria d), cd_boundaries := trim_space (dr_boundaries d), cd_refs := dr_refs d,
       cd_output := dr_output_format d, cd_budget := dr_budget d, cd_reason := Some reason, cd_result := None,
       cd_judgement := None, cd_follow_ups := 0,
       cd_versions := cd_versions c @ [snapshot c \<lparr>cj_action = ''revise_requested'', cj_kind = kind, cj_by = by, cj_at = now,
         cj_reason = Some reason, cj_comment = None\<rparr>],
       cd_updated_at := now\<rparr>)"

definition set_delegate_message :: "uuid \<Rightarrow> uuid \<Rightarrow> db \<Rightarrow> db" where
  "set_delegate_message cid msg = update_card cid (\<lambda>r. r\<lparr>cd_bubble := Some msg\<rparr>)"

text \<open>The new bubble, by the judge and mentioning the assignee.\<close>

definition revise_bubble ::
    "(string \<Rightarrow> int \<Rightarrow> draft \<Rightarrow> string \<Rightarrow> string) \<Rightarrow> (uuid \<Rightarrow> string) \<Rightarrow> card_row \<Rightarrow> judging \<Rightarrow> string \<Rightarrow> uuid \<Rightarrow> draft \<Rightarrow>
     string \<Rightarrow> time \<Rightarrow> db \<Rightarrow> message_row" where
  "revise_bubble bubble ut c j kind by d reason now db =
     (let content = mention_link ut (agent_name (cd_assignee c) db) (cd_assignee c)
                    @ bubble (card_name c) (cd_version c + 1) d reason
      in (text_message (cd_room c) (if kind = ''user'' then ByUser else ByAgent) (Some by) None content
            (parse_mentions content) (jb_task j) now (cd_work c) (db_next db))
           \<lparr>ms_card := Some (cd_id c, ''delegation'', cd_version c + 1)\<rparr>)"

definition post_version ::
    "(string \<Rightarrow> uuid option) \<Rightarrow> (uuid \<Rightarrow> string) \<Rightarrow> (string \<Rightarrow> int \<Rightarrow> draft \<Rightarrow> string \<Rightarrow> string) \<Rightarrow> card_row \<Rightarrow> judging \<Rightarrow>
     string \<Rightarrow> uuid \<Rightarrow> draft \<Rightarrow> string \<Rightarrow> time \<Rightarrow> db \<Rightarrow> db_error + uuid \<times> db" where
  "post_version pu ut bubble c j kind by d reason now db =
     (let msg = db_next db in
      bindE (insert_row (revise_bubble bubble ut c j kind by d reason now db) db) (\<lambda>db.
      bindE (store_speech pu msg (no_opts\<lparr>sx_lane := Some (cd_lane c), sx_target := Some (cd_assignee c),
          sx_target_name := agent_name (cd_assignee c) db\<rparr>) db) (\<lambda>db.
      Inr (msg, set_delegate_message (cd_id c) msg db))))"

section \<open>The card's lane again\<close>

definition card_lane_again :: "time \<Rightarrow> lane_row \<Rightarrow> lane_row" where
  "card_lane_again now l = l\<lparr>ln_status := (if ln_status l = LaneRunning \<or> ln_status l = LaneQueued then ln_status l else LaneQueued),
     ln_reentry := ln_reentry l + 1, ln_finished_at := None, ln_updated_at := now\<rparr>"

definition card_task_of :: "card_row \<Rightarrow> lane_row \<Rightarrow> uuid \<Rightarrow> judging \<Rightarrow> time \<Rightarrow> db \<Rightarrow> new_task" where
  "card_task_of c l msg j now db =
     \<lparr>nt_lane = cd_lane c, nt_room = cd_room c, nt_agent = cd_assignee c, nt_profile = ln_profile l, nt_trigger = msg,
      nt_delegated_from = cd_delegator_task c,
      nt_originator = (case jb_task j of Some i \<Rightarrow> originator_of i db | None \<Rightarrow> jb_user j), nt_coalesced = [],
      nt_work = ln_work l, nt_now = now, nt_kind = Some KindCard, nt_card = Some (cd_id c)\<rparr>"

definition reenter_card_lane :: "card_row \<Rightarrow> uuid \<Rightarrow> judging \<Rightarrow> time \<Rightarrow> db \<Rightarrow> db_error + uuid \<times> db" where
  "reenter_card_lane c msg j now db =
     (case get_lane (cd_lane c) db of
        None \<Rightarrow> Inl DbMissingRow
      | Some l \<Rightarrow>
          let db = update_lane (cd_lane c) (\<lambda>_. True) (card_lane_again now) db in
          (case lock_queued_task (cd_lane c) db of
             Some t \<Rightarrow>
               bindE (update_task (tk_id t)
                 (\<lambda>r. r\<lparr>tk_coalesced := tk_coalesced r @ [msg], tk_kind := KindCard, tk_card := Some (cd_id c), tk_updated_at := now\<rparr>) db)
                 (\<lambda>db. Inr (tk_id t, db))
           | None \<Rightarrow> insert_queued_task (card_task_of c l msg j now db) db))"

definition revise_hop :: "card_row \<Rightarrow> judging \<Rightarrow> uuid \<Rightarrow> time \<Rightarrow> db \<Rightarrow> hop" where
  "revise_hop c j by now db =
     (case jb_task j of
        None \<Rightarrow> \<lparr>h_from = uuid_nil, h_to = cd_assignee c, h_at = now, h_id = 0, h_cause = 0\<rparr>
      | Some i \<Rightarrow> \<lparr>h_from = by, h_to = cd_assignee c, h_at = now, h_id = 0, h_cause = snd (cause_of_task i db)\<rparr>)"

text \<open>Over the limit the version stands but no task is made and the room stops.\<close>

fun revise_judged :: "card_row \<Rightarrow> judging \<Rightarrow> time \<Rightarrow> uuid \<Rightarrow> loop_verdict \<times> db \<Rightarrow> db_error + (uuid \<times> uuid option) \<times> db" where
  "revise_judged c j now msg (v, db) =
     (if \<not> lv_allowed v then bindE (pause_for_loop (cd_room c) now db) (\<lambda>db. Inr ((msg, None), db))
      else bindE (reenter_card_lane c msg j now db) (\<lambda>(t, db). Inr ((msg, Some t), db)))"

fun revise_entered :: "card_row \<Rightarrow> uuid \<Rightarrow> judging \<Rightarrow> uuid \<Rightarrow> time \<Rightarrow> uuid \<times> db \<Rightarrow> db_error + (uuid \<times> uuid option) \<times> db" where
  "revise_entered c ws j by now (msg, db) =
     bindE (revise_judged c j now msg (judge_room_hop (cd_room c) ws (revise_hop c j by now db) msg 2 now db)) (\<lambda>(r, db).
     Inr (r, note_judgement j c now db))"

text \<open>\<open>Revise\<close>: the message of the new version and the task that will work on it.\<close>

definition revise_card ::
    "(string \<Rightarrow> uuid option) \<Rightarrow> (uuid \<Rightarrow> string) \<Rightarrow> (string \<Rightarrow> int \<Rightarrow> draft \<Rightarrow> string \<Rightarrow> string) \<Rightarrow> (uuid \<Rightarrow> uuid \<Rightarrow> bool) \<Rightarrow>
     uuid \<Rightarrow> judging \<Rightarrow> string \<Rightarrow> card_patch \<Rightarrow> db \<Rightarrow> db_error + (uuid \<times> uuid option) \<times> db" where
  "revise_card pu ut bubble artifact_here cid j reason p db =
     bindE (judged_card cid j ActRevise db) (\<lambda>(c, kind, by).
     let d = patched c p; now = db_clock db in
     if check_draft d (cd_delegator c) @ check_refs_exist artifact_here (cd_room c) (dr_refs d) db \<noteq> [] then Inl ErrCardInvalid
     else (case get_room (cd_room c) db of
             None \<Rightarrow> Inl DbMissingRow
           | Some r \<Rightarrow>
               bindE (post_version pu ut bubble c j kind by d reason now (write_version c d reason kind by now db))
                 (revise_entered c (rm_workspace r) j by now)))"

section \<open>Cards a stopped room left without a task\<close>

definition carries :: "uuid \<Rightarrow> task_row \<Rightarrow> bool" where
  "carries msg t \<longleftrightarrow> tk_trigger t = Some msg \<or> List.member (tk_coalesced t) msg"

definition stalled_card :: "uuid \<Rightarrow> db \<Rightarrow> card_row \<Rightarrow> bool" where
  "stalled_card room db c \<longleftrightarrow> cd_room c = room \<and> cd_status c = InProgress
     \<and> (case cd_bubble c of None \<Rightarrow> False
        | Some b \<Rightarrow> (case get_lane (cd_lane c) db of None \<Rightarrow> False
                    | Some l \<Rightarrow> ln_status l \<noteq> LaneBlocked \<and> ln_status l \<noteq> LaneWaitingHuman)
            \<and> \<not> list_ex (\<lambda>t. tk_lane t = cd_lane c \<and> carries b t) (db_tasks db))"

definition stalled_cards :: "uuid \<Rightarrow> db \<Rightarrow> (uuid \<times> uuid) list" where
  "stalled_cards room db =
     map (\<lambda>c. (cd_id c, the (cd_bubble c))) (sort_key cd_number (filter (stalled_card room db) (db_cards db)))"

definition by_delegator :: "card_row \<Rightarrow> judging" where
  "by_delegator c = \<lparr>jb_task = cd_delegator_task c, jb_attempt = 0, jb_user = None\<rparr>"

text \<open>The owner's approval lifted the loop gate for good; any other gate has the hop judged again.\<close>

definition resume_verdict :: "uuid \<Rightarrow> uuid \<Rightarrow> string \<Rightarrow> card_row \<Rightarrow> uuid \<Rightarrow> time \<Rightarrow> db \<Rightarrow> bool \<times> db" where
  "resume_verdict room ws why c msg now db =
     (if why = reason_loop then (True, db)
      else case judge_room_hop room ws (revise_hop c (by_delegator c) (cd_delegator c) now db) msg 2 now db of
             (v, db) \<Rightarrow> (lv_allowed v, db))"

fun resume_cards :: "uuid \<Rightarrow> uuid \<Rightarrow> string \<Rightarrow> time \<Rightarrow> (uuid \<times> uuid) list \<Rightarrow> db \<Rightarrow> db_error + uuid list \<times> db" where
  "resume_cards room ws why now [] db = Inr ([], db)"
| "resume_cards room ws why now ((cid, msg) # rest) db =
     (case get_card cid db of
        None \<Rightarrow> Inl ErrNotFound
      | Some c \<Rightarrow>
          (case resume_verdict room ws why c msg now db of
             (ok, db) \<Rightarrow>
               if \<not> ok then bindE (pause_for_loop room now db) (\<lambda>db. Inr ([], db))
               else bindE (reenter_card_lane c msg (by_delegator c) now db) (\<lambda>(t, db).
                    bindE (resume_cards room ws why now rest db) (\<lambda>(ts, db). Inr (t # ts, db)))))"

definition resume_stalled_cards :: "uuid \<Rightarrow> string \<Rightarrow> time \<Rightarrow> db \<Rightarrow> db_error + uuid list \<times> db" where
  "resume_stalled_cards room why now db =
     (if stalled_cards room db = [] then Inr ([], db)
      else case get_room room db of
             None \<Rightarrow> Inl DbMissingRow
           | Some r \<Rightarrow> resume_cards room (rm_workspace r) why now (stalled_cards room db) db)"

section \<open>The card a restart brings back\<close>

definition revivable :: "uuid \<Rightarrow> db \<Rightarrow> card_row \<Rightarrow> bool" where
  "revivable lane db c \<longleftrightarrow> cd_lane c = lane \<and> cd_status c = CardCancelled
     \<and> (case cd_work c of None \<Rightarrow> True
        | Some w \<Rightarrow> (case get_work w db of None \<Rightarrow> True
                    | Some r \<Rightarrow> wk_status r \<noteq> WkCompleted \<and> wk_status r \<noteq> WkCancelled))"

definition revive_on_lane :: "uuid \<Rightarrow> time \<Rightarrow> db \<Rightarrow> db" where
  "revive_on_lane lane now db =
     db\<lparr>db_cards := tbl_upd (revivable lane db)
          (\<lambda>c. c\<lparr>cd_status := InProgress, cd_follow_ups := 0, cd_updated_at := now\<rparr>) (db_cards db)\<rparr>"

section \<open>A person restarts a lane\<close>

text \<open>
  \<open>restartLane\<close> of \<open>httpapi/handlers_lanes_p3.go\<close>, after the access check and the check of its body. Its
  steps are transactions of their own: a later failure leaves what the earlier ones committed.
\<close>

definition restartable :: "lane_status \<Rightarrow> bool" where
  "restartable s \<longleftrightarrow> s = LaneRunning \<or> s = LaneFailed \<or> s = LanePaused \<or> s = LaneQueued \<or> s = LaneBlocked \<or> s = LaneWaitingHuman"

fun contains :: "string \<Rightarrow> string \<Rightarrow> bool" where
  "contains s [] = has_prefix s []"
| "contains s (x # xs) = (has_prefix s (x # xs) \<or> contains s xs)"

definition restart_body :: "(uuid \<Rightarrow> string) \<Rightarrow> uuid \<Rightarrow> string \<Rightarrow> db \<Rightarrow> string" where
  "restart_body ut agent content db =
     (if contains ''mention://agent/'' content then content
      else mention_link ut (agent_name agent db) agent @ '' '' @ trim_space content)"

text \<open>The lane runs again before the message is posted, and its card with it.\<close>

definition restart_lane_row :: "uuid \<Rightarrow> time \<Rightarrow> db \<Rightarrow> db" where
  "restart_lane_row lane now db =
     revive_on_lane lane now
       (update_lane lane (\<lambda>_. True) (\<lambda>l. l\<lparr>ln_status := LaneRunning, ln_finished_at := None, ln_updated_at := now\<rparr>) db)"

definition restarted_task :: "uuid \<Rightarrow> post_entry list \<Rightarrow> db \<Rightarrow> uuid option" where
  "restarted_task lane es db =
     map_option pe_task (find (\<lambda>e. pe_task e \<noteq> uuid_nil \<and> map_option tk_lane (get_task (pe_task e) db) = Some lane) es)"

definition link_restarted :: "uuid option \<Rightarrow> uuid option \<Rightarrow> time \<Rightarrow> db \<Rightarrow> db_error + db" where
  "link_restarted new old now db =
     (case (new, old) of
        (Some i, Some o') \<Rightarrow> update_task i (\<lambda>t. t\<lparr>tk_restarted_from := Some o', tk_updated_at := now\<rparr>) db
      | _ \<Rightarrow> Inr db)"

fun restart_posted ::
    "uuid \<Rightarrow> uuid option \<Rightarrow> time \<Rightarrow> db \<Rightarrow> db_error + post_result \<times> db \<Rightarrow> (db_error + uuid option) \<times> db" where
  "restart_posted lane old now db0 (Inl e) = (Inl e, db0)"
| "restart_posted lane old now db0 (Inr (r, db)) =
     (let new = restarted_task lane (po_triggers r) db
      in case link_restarted new old now db of Inl e \<Rightarrow> (Inl e, db) | Inr db' \<Rightarrow> (Inr new, db'))"

definition restart_lane ::
    "(string \<Rightarrow> uuid option) \<Rightarrow> (uuid \<Rightarrow> string) \<Rightarrow> uuid \<Rightarrow> uuid \<Rightarrow> string \<Rightarrow> db \<Rightarrow> (db_error + uuid option) \<times> db" where
  "restart_lane pu ut user lane content db =
     (case get_lane lane db of
        None \<Rightarrow> (Inl ErrNotFound, db)
      | Some l \<Rightarrow>
          if \<not> restartable (ln_status l) then (Inl (ErrConflict ''lane_not_restartable''), db)
          else
            (let (res, db1) = (case cancel_lane lane db of
                 Inr (t, _, db') \<Rightarrow> (Inr (Some (tk_id t)), db')
               | Inl e \<Rightarrow> (if e = ErrLaneNotCancellable then Inr None else Inl e, db))
             in case res of
                  Inl e \<Rightarrow> (Inl e, db1)
                | Inr old \<Rightarrow>
                    let db2 = restart_lane_row lane (db_clock db) db1
                    in restart_posted lane old (db_clock db) db2
                         (post_message pu (ln_room l)
                            \<lparr>pa_type = ByUser, pa_user = Some user, pa_agent = None, pa_task = None, pa_attempt = 0\<rparr>
                            \<lparr>mc_content = restart_body ut (ln_agent l) content db2, mc_parent = None, mc_work = WorkAbsent,
                             mc_suppress = [], mc_new_lane = False\<rparr> None db2)))"

end
