(* ===== verification/Card_Facts.thy ===== *)
theory Card_Facts
  imports Card_Judgement Delegation_Facts "HOL-Library.Sublist"
begin

text \<open>
  The life of a card under every request that writes one: its versions are numbered and never lost, no
  version is replaced or accepted without a result, and only its judges decide it. The requests run one
  transaction after another (\<open>transactional\<close>).
\<close>

section \<open>A sound card\<close>

text \<open>
  The versions kept are the ones before the current one, in order, each with its result and the
  judgement that ended it; a card that waits for its judge or was accepted has a result.
\<close>

definition ended_version :: "card_version \<Rightarrow> bool" where
  "ended_version v \<longleftrightarrow> cv_result v \<noteq> None \<and> map_option cj_action (cv_judgement v) = Some ''revise_requested''"

definition card_ok :: "card_row \<Rightarrow> bool" where
  "card_ok c \<longleftrightarrow> 1 \<le> cd_version c \<and> map cv_version (cd_versions c) = map int [1..<nat (cd_version c)]
     \<and> list_all ended_version (cd_versions c)
     \<and> (cd_status c = ResultSubmitted \<or> cd_status c = Accepted \<longrightarrow> cd_result c \<noteq> None)
     \<and> 0 \<le> cd_follow_ups c \<and> cd_follow_ups c \<le> max_follow_ups"

definition cards_wf :: "db \<Rightarrow> bool" where
  "cards_wf db \<longleftrightarrow> distinct (map cd_id (db_cards db)) \<and> list_all (\<lambda>c. cd_id c < db_next db \<and> card_ok c) (db_cards db)"

text \<open>What a request does to one card, and to the table: \<open>P\<close> names the cards it may accept.\<close>

definition card_later :: "card_row \<Rightarrow> card_row \<Rightarrow> bool" where
  "card_later c c' \<longleftrightarrow> cd_id c' = cd_id c \<and> prefix (cd_versions c) (cd_versions c') \<and> cd_version c \<le> cd_version c'
     \<and> cd_number c' = cd_number c \<and> cd_delegator c' = cd_delegator c \<and> cd_assignee c' = cd_assignee c \<and> cd_lane c' = cd_lane c"

definition cards_grow :: "(uuid \<Rightarrow> bool) \<Rightarrow> db \<Rightarrow> db \<Rightarrow> bool" where
  "cards_grow P db db' \<longleftrightarrow>
     list_all (\<lambda>c. case get_card (cd_id c) db' of None \<Rightarrow> False
       | Some c' \<Rightarrow> card_later c c' \<and> (cd_status c' = Accepted \<longrightarrow> cd_status c = Accepted \<or> P (cd_id c))) (db_cards db)"

lemma card_later_refl [simp]: "card_later c c" by (simp add: card_later_def)

lemma card_later_trans: "card_later a b \<Longrightarrow> card_later b c \<Longrightarrow> card_later a c"
  by (auto simp: card_later_def)

lemma unique_card: "cards_wf db \<Longrightarrow> c \<in> set (db_cards db) \<Longrightarrow> get_card (cd_id c) db = Some c"
proof -
  have "distinct (map cd_id cs) \<Longrightarrow> c \<in> set cs \<Longrightarrow> tbl_get cd_id cs (cd_id c) = Some c" for cs
    by (induction cs) force+
  then show "cards_wf db \<Longrightarrow> c \<in> set (db_cards db) \<Longrightarrow> get_card (cd_id c) db = Some c"
    by (simp add: cards_wf_def get_card_def)
qed

lemma get_card_in: "get_card i db = Some c \<Longrightarrow> c \<in> set (db_cards db) \<and> cd_id c = i"
  unfolding get_card_def using tbl_get_Some_in tbl_get_Some_key by fast

lemma card_ok_of: "cards_wf db \<Longrightarrow> get_card i db = Some c \<Longrightarrow> card_ok c"
  using get_card_in by (fastforce simp: cards_wf_def list_all_iff)

lemma cards_grow_refl: "cards_wf db \<Longrightarrow> cards_grow P db db"
  by (simp add: cards_grow_def list_all_iff unique_card)

lemma cards_grow_trans:
  assumes "cards_grow P a b" and "cards_grow P b c"
  shows "cards_grow P a c"
  unfolding cards_grow_def list_all_iff
proof
  fix x assume "x \<in> set (db_cards a)"
  with assms(1) obtain y where y: "get_card (cd_id x) b = Some y" "card_later x y"
      "cd_status y = Accepted \<longrightarrow> cd_status x = Accepted \<or> P (cd_id x)"
    by (auto simp: cards_grow_def list_all_iff split: option.splits)
  from get_card_in [OF y(1)] assms(2) obtain z where z: "get_card (cd_id x) c = Some z" "card_later y z"
      "cd_status z = Accepted \<longrightarrow> cd_status y = Accepted \<or> P (cd_id x)"
    by (fastforce simp: cards_grow_def list_all_iff split: option.splits)
  with y show "case get_card (cd_id x) c of None \<Rightarrow> False
      | Some z \<Rightarrow> card_later x z \<and> (cd_status z = Accepted \<longrightarrow> cd_status x = Accepted \<or> P (cd_id x))"
    by (auto intro: card_later_trans)
qed

definition card_step :: "(uuid \<Rightarrow> bool) \<Rightarrow> db \<Rightarrow> db \<Rightarrow> bool" where
  "card_step P db db' \<longleftrightarrow> (cards_wf db \<longrightarrow> cards_wf db' \<and> cards_grow P db db')"

lemma card_step_trans: "card_step P a b \<Longrightarrow> card_step P b c \<Longrightarrow> card_step P a c"
  using cards_grow_trans by (auto simp: card_step_def)

text \<open>Steps that leave the cards alone.\<close>

definition no_cards :: "db \<Rightarrow> db \<Rightarrow> bool" where
  "no_cards db db' \<longleftrightarrow> db_cards db' = db_cards db \<and> db_next db \<le> db_next db'"

lemma no_cards_step: "no_cards db db' \<Longrightarrow> card_step P db db'"
proof -
  assume n: "no_cards db db'"
  then have "get_card i db' = get_card i db" for i by (simp add: no_cards_def get_card_def)
  moreover have "cards_wf db \<Longrightarrow> cards_wf db'" using n by (auto simp: no_cards_def cards_wf_def list_all_iff)
  ultimately show ?thesis
    using n cards_grow_refl [of db] by (simp add: card_step_def cards_grow_def no_cards_def)
qed

lemma no_cards_refl [simp]: "no_cards db db" by (simp add: no_cards_def)

lemma no_cards_trans: "no_cards a b \<Longrightarrow> no_cards b c \<Longrightarrow> no_cards a c" by (auto simp: no_cards_def)

text \<open>Steps that write cards.\<close>

lemma card_step_upd:
  assumes "\<And>c. cards_wf db \<Longrightarrow> c \<in> set (db_cards db) \<Longrightarrow> p c \<Longrightarrow> card_later c (f c) \<and> (card_ok c \<longrightarrow> card_ok (f c))
      \<and> (cd_status (f c) = Accepted \<longrightarrow> cd_status c = Accepted \<or> P (cd_id c))"
    and "\<And>c. cd_id (f c) = cd_id c"
  shows "card_step P db (db\<lparr>db_cards := tbl_upd p f (db_cards db)\<rparr>)"
  unfolding card_step_def
proof
  assume wf: "cards_wf db"
  have ids: "map cd_id (tbl_upd p f cs) = map cd_id cs" for cs using assms(2) by (induction cs) (auto simp: tbl_upd_def)
  have rows: "set (tbl_upd p f (db_cards db)) = (\<lambda>c. if p c then f c else c) ` set (db_cards db)" by (auto simp: tbl_upd_def)
  have get: "get_card i (db\<lparr>db_cards := tbl_upd p f (db_cards db)\<rparr>) = map_option (\<lambda>c. if p c then f c else c) (get_card i db)" for i
    using assms(2) by (simp add: get_card_def tbl_get_upd)
  have "cards_wf (db\<lparr>db_cards := tbl_upd p f (db_cards db)\<rparr>)"
    using wf assms(1) [OF wf] assms(2) unfolding cards_wf_def list_all_iff by (auto simp: ids rows)
  moreover have "cards_grow P db (db\<lparr>db_cards := tbl_upd p f (db_cards db)\<rparr>)"
    using assms(1) [OF wf] by (auto simp: cards_grow_def list_all_iff get unique_card [OF wf])
  ultimately show "cards_wf (db\<lparr>db_cards := tbl_upd p f (db_cards db)\<rparr>)
      \<and> cards_grow P db (db\<lparr>db_cards := tbl_upd p f (db_cards db)\<rparr>)" ..
qed

lemma card_step_update:
  assumes "get_card i db = Some c" and "card_later c (f c)" and "card_ok c \<Longrightarrow> card_ok (f c)" and "\<And>c. cd_id (f c) = cd_id c"
    and "cd_status (f c) = Accepted \<Longrightarrow> cd_status c = Accepted \<or> P (cd_id c)"
  shows "card_step P db (update_card i f db)"
  unfolding update_card_def tbl_modify_def
proof (rule card_step_upd)
  show "card_later x (f x) \<and> (card_ok x \<longrightarrow> card_ok (f x)) \<and> (cd_status (f x) = Accepted \<longrightarrow> cd_status x = Accepted \<or> P (cd_id x))" if "cards_wf db" "x \<in> set (db_cards db)" "cd_id x = i" for x
    using unique_card [OF that(1,2)] that(3) assms by auto
qed (rule assms(4))

lemma card_step_insert:
  assumes "card_ok k" and "cd_id k = db_next db"
  shows "card_step P db (db\<lparr>db_cards := db_cards db @ [k], db_next := db_next db + 1\<rparr>)"
  unfolding card_step_def
proof
  assume wf: "cards_wf db"
  have "cd_id k \<notin> cd_id ` set (db_cards db)" using wf assms(2) by (force simp: cards_wf_def list_all_iff)
  with wf assms have "cards_wf (db\<lparr>db_cards := db_cards db @ [k], db_next := db_next db + 1\<rparr>)"
    by (auto simp: cards_wf_def list_all_iff)
  moreover have "get_card (cd_id c) (db\<lparr>db_cards := db_cards db @ [k], db_next := n\<rparr>) = Some c" if "c \<in> set (db_cards db)" for c n
    using unique_card [OF wf that] by (simp add: get_card_def tbl_get_append)
  ultimately show "cards_wf (db\<lparr>db_cards := db_cards db @ [k], db_next := db_next db + 1\<rparr>)
      \<and> cards_grow P db (db\<lparr>db_cards := db_cards db @ [k], db_next := db_next db + 1\<rparr>)"
    by (simp add: cards_grow_def list_all_iff)
qed

section \<open>Writes on other tables\<close>

named_theorems card_free \<open>writes that leave the cards alone\<close>

lemma no_cards_writes [card_free, simp]:
  "no_cards db (update_lane l p f db)" "no_cards db (update_message m g db)"
  "no_cards db (insert_server_event t n c v ob out now db)" "no_cards db (snd (insert_message a k w' rm src now db))"
  "no_cards db (db\<lparr>db_clock := t'\<rparr>)" "no_cards db (note_judgement j ca now db)" "no_cards db (result_bubble ca src now db)"
  by (simp_all add: no_cards_def update_lane_def update_message_def insert_server_event_def insert_message_def
      note_judgement_def result_bubble_def split: option.split)

lemma no_cards_row [card_free]: "insert_row m db = Inr db' \<Longrightarrow> no_cards db db'"
  by (auto simp: insert_row_def no_cards_def split: if_splits)

lemma no_cards_store [card_free]: "store_speech pu m o' db = Inr db' \<Longrightarrow> no_cards db db'"
  using store_speech_Inr no_cards_writes(2) by blast

lemma no_cards_hop [card_free]: "judge_room_hop room ws h m r now db = (v, db') \<Longrightarrow> no_cards db db'"
  by (auto simp: judge_room_hop_def no_cards_def split: prod.splits)

lemma no_cards_block: "block room why now db = Inr (n, db') \<Longrightarrow> db_cards db' = db_cards db"
  by (auto simp: block_def update_room_def Let_def split: option.splits if_splits prod.splits bool.splits)

lemma no_cards_pause [card_free]: "pause_for_loop room now db = Inr db' \<Longrightarrow> no_cards db db'"
proof -
  assume p: "pause_for_loop room now db = Inr db'"
  then have "db_cards db' = db_cards db"
    by (auto simp: pause_for_loop_def pause_loop_drains file_room_card_def insert_inbox_def attach_hitl_card_def insert_message_def
        insert_loop_request_def Let_def split: option.splits if_splits prod.splits dest!: no_cards_block)
  with no_tasks_pause [OF p] show ?thesis by (simp add: no_cards_def no_tasks_def)
qed

lemma no_cards_update_task [card_free]: "update_task i f db = Inr db' \<Longrightarrow> no_cards db db'"
  by (auto simp: update_task_def no_cards_def split: option.splits if_splits)

lemma no_cards_insert_task [card_free]: "insert_task t db = Inr db' \<Longrightarrow> no_cards db db'"
  by (auto simp: insert_task_def no_cards_def split: if_splits)

lemma no_cards_queued [card_free]: "insert_queued_task n db = Inr (i, db') \<Longrightarrow> no_cards db db'"
  by (auto simp: insert_queued_task_def insert_task_row_def split: prod.splits if_splits intro: no_cards_insert_task)

lemma no_cards_lane [card_free]: "insert_lane room a p deps d w now db = Inr (l, db') \<Longrightarrow> no_cards db db'"
  by (auto simp: insert_lane_def no_cards_def split: if_splits)

lemma no_cards_reenter [card_free]:
  assumes "reenter_card_lane c m j now db = Inr (i, db')"
  shows "no_cards db db'"
proof (cases "get_lane (cd_lane c) db")
  case (Some l)
  let ?db = "update_lane (cd_lane c) (\<lambda>_. True) (card_lane_again now) db"
  have "no_cards ?db db'" using assms Some
    by (auto simp: reenter_card_lane_def Let_def split: option.splits intro: no_cards_update_task no_cards_queued)
  with no_cards_writes(1) show ?thesis by (rule no_cards_trans)
qed (use assms in \<open>simp add: reenter_card_lane_def\<close>)

section \<open>Each request\<close>

lemma upt_snoc_version: "1 \<le> v \<Longrightarrow> map int [1..<nat (v + 1)] = map int [1..<nat v] @ [v]"
proof -
  assume "1 \<le> (v::int)"
  then have "nat (v + 1) = Suc (nat v)" "1 \<le> nat v" by simp_all
  with \<open>1 \<le> v\<close> show ?thesis by simp
qed

lemma store_result_step:
  assumes "get_card (cd_id c) db = Some c"
  shows "card_step P db (store_result c res a now db)"
  unfolding store_result_def
  by (rule card_step_trans [OF no_cards_step [OF no_cards_writes(7)] card_step_update [of _ _ c]])
    (use assms in \<open>auto simp: card_later_def card_ok_def\<close>)

lemma reportable_get: "reportable_card i cid db = Inr c \<Longrightarrow> get_card (cd_id c) db = Some c"
  using get_card_in by (auto simp: reportable_card_def split: option.splits if_splits)

lemma submit_step:
  assumes "submit_result pu ah lo i n cid inp db = Inr (r, db')"
  shows "card_step P db db'"
proof -
  obtain c res where c: "reportable_card i cid db = Inr c"
      and db': "\<exists>n'. db' = insert_server_event i n' ''status'' ''card'' (card_name c) ''ok'' (db_clock db)
        (store_result c (fill_evidence_labels lo res) (Some i) (db_clock db) db)"
    using assms by (auto simp: submit_result_def Let_def)
  from db' show ?thesis
    using card_step_trans [OF store_result_step [OF reportable_get [OF c]] no_cards_step [OF no_cards_writes(3)]] by blast
qed

lemma judged_get:
  assumes "judged_card cid j act db = Inr (c, kind, by')"
  shows "get_card cid db = Some c" and "cd_id c = cid"
    and "\<exists>p. snd (card_transition (cd_status c) act p)"
  using assms get_card_in by (auto simp: judged_card_def split: option.splits if_splits)

lemma accept_step:
  assumes "accept_card cid j comment db = Inr db'" and "P cid"
  shows "card_step P db db'"
proof -
  obtain c kind by' where c: "judged_card cid j ActAccept db = Inr (c, kind, by')"
      and db': "db' = note_judgement j c (db_clock db) (write_accept c kind by' comment (db_clock db) db)"
    using assms by (auto simp: accept_card_def)
  have "cd_status c = ResultSubmitted" using judged_get(3) [OF c] by (auto split: if_splits)
  then have "card_step P db (write_accept c kind by' comment (db_clock db) db)"
    unfolding write_accept_def using judged_get(1,2) [OF c] assms(2)
    by (intro card_step_update [of _ _ c]) (auto simp: card_later_def card_ok_def)
  with db' show ?thesis using card_step_trans no_cards_step [OF no_cards_writes(6)] by blast
qed

lemma version_step:
  assumes "judged_card cid j ActRevise db = Inr (c, kind, by')"
  shows "card_step P db (write_version c d reason kind by' now db)"
  unfolding write_version_def
proof (rule card_step_update)
  have st: "cd_status c = ResultSubmitted \<or> cd_status c = Accepted" using judged_get(3) [OF assms] by (auto split: if_splits)
  show "get_card (cd_id c) db = Some c" using judged_get(1,2) [OF assms] by simp
  let ?j = "\<lparr>cj_action = ''revise_requested'', cj_kind = kind, cj_by = by', cj_at = now, cj_reason = Some reason, cj_comment = None\<rparr>"
  let ?f = "\<lambda>r. r\<lparr>cd_version := cd_version r + 1, cd_status := InProgress, cd_goal := trim_space (dr_goal d),
       cd_criteria := numbered (dr_criteria d), cd_boundaries := trim_space (dr_boundaries d), cd_refs := dr_refs d,
       cd_output := dr_output_format d, cd_budget := dr_budget d, cd_reason := Some reason, cd_result := None,
       cd_judgement := None, cd_follow_ups := 0, cd_versions := cd_versions c @ [snapshot c ?j], cd_updated_at := now\<rparr>"
  show "card_later c (?f c)" by (simp add: card_later_def)
  show "card_ok c \<Longrightarrow> card_ok (?f c)"
    using st upt_snoc_version [of "cd_version c"] by (auto simp: card_ok_def snapshot_def ended_version_def max_follow_ups_def)
qed simp_all

lemma bubble_step: "card_step P db (set_delegate_message cid m db)"
  unfolding set_delegate_message_def update_card_def tbl_modify_def
  by (rule card_step_upd) (auto simp: card_later_def card_ok_def)

lemma post_version_step:
  assumes "post_version pu ut bubble c j kind by' d reason now db = Inr (m, db')"
  shows "card_step P db db'"
proof -
  obtain db1 db2 where "insert_row (revise_bubble bubble ut c j kind by' d reason now db) db = Inr db1"
      and "store_speech pu (db_next db) (no_opts\<lparr>sx_lane := Some (cd_lane c), sx_target := Some (cd_assignee c),
          sx_target_name := agent_name (cd_assignee c) db1\<rparr>) db1 = Inr db2"
      and "db' = set_delegate_message (cd_id c) (db_next db) db2"
    using assms by (auto simp: post_version_def Let_def)
  then show ?thesis
    using no_cards_step no_cards_row no_cards_store bubble_step card_step_trans by metis
qed

lemma revise_entered_free:
  assumes "revise_entered c ws j by' now (m, db) = Inr (r, db')"
  shows "no_cards db db'"
proof -
  obtain v db1 where h: "judge_room_hop (cd_room c) ws (revise_hop c j by' now db) m 2 now db = (v, db1)" by fastforce
  have "\<exists>db2. no_cards db1 db2 \<and> db' = note_judgement j c now db2"
    using assms h by (auto split: if_splits intro: no_cards_pause no_cards_reenter)
  with no_cards_hop [OF h] no_cards_writes(6) show ?thesis by (blast intro: no_cards_trans)
qed

lemma revise_steps:
  assumes "revise_card pu ut bubble ah cid j reason p db = Inr (r, db')"
  obtains c kind by' m ws db1 where "judged_card cid j ActRevise db = Inr (c, kind, by')"
    and "post_version pu ut bubble c j kind by' (patched c p) reason (db_clock db)
           (write_version c (patched c p) reason kind by' (db_clock db) db) = Inr (m, db1)"
    and "revise_entered c ws j by' (db_clock db) (m, db1) = Inr (r, db')"
  using assms by (auto simp: revise_card_def Let_def simp del: revise_entered.simps split: if_splits option.splits)

lemma revise_step:
  assumes "revise_card pu ut bubble ah cid j reason p db = Inr (r, db')"
  shows "card_step P db db'"
proof -
  obtain c kind by' m ws db1 where v: "judged_card cid j ActRevise db = Inr (c, kind, by')"
    and b: "post_version pu ut bubble c j kind by' (patched c p) reason (db_clock db)
           (write_version c (patched c p) reason kind by' (db_clock db) db) = Inr (m, db1)"
    and e: "revise_entered c ws j by' (db_clock db) (m, db1) = Inr (r, db')"
    using assms by (rule revise_steps)
  show ?thesis
    by (rule card_step_trans [OF version_step [OF v] card_step_trans [OF post_version_step [OF b] no_cards_step [OF revise_entered_free [OF e]]]])
qed

lemma resume_cards_free: "resume_cards room ws why now xs db = Inr (ts, db') \<Longrightarrow> no_cards db db'"
proof (induction room ws why now xs db arbitrary: ts db' rule: resume_cards.induct)
  case (2 room ws why now cid m rest db)
  obtain c where c: "get_card cid db = Some c" using 2 by (auto split: option.splits)
  obtain ok db1 where v: "resume_verdict room ws why c m now db = (ok, db1)" by fastforce
  have n1: "no_cards db db1" using v
    by (auto simp: resume_verdict_def split: if_splits prod.splits intro: no_cards_hop)
  show ?case
  proof (cases ok)
    case False
    with 2 c v n1 show ?thesis by (auto intro: no_cards_trans no_cards_pause)
  next
    case True
    then obtain t db2 ts' where r: "reenter_card_lane c m (by_delegator c) now db1 = Inr (t, db2)"
      and rest: "resume_cards room ws why now rest db2 = Inr (ts', db')"
      using 2 c v by auto
    have "no_cards db2 db'" using 2(1) c v True r rest by auto
    with n1 no_cards_reenter [OF r] show ?thesis by (blast intro: no_cards_trans)
  qed
qed simp

lemma resume_step: "resume_stalled_cards room why now db = Inr (ts, db') \<Longrightarrow> card_step P db db'"
  by (auto simp: resume_stalled_cards_def split: if_splits option.splits intro: no_cards_step resume_cards_free)

lemma revive_step: "card_step P db (revive_on_lane lane now db)"
  unfolding revive_on_lane_def
  by (rule card_step_upd) (auto simp: card_later_def card_ok_def max_follow_ups_def)

lemma cancel_step: "card_step P db (cancel_cards_where p now db)"
  unfolding cancel_cards_where_def
  by (rule card_step_upd) (auto simp: card_later_def card_ok_def)

text \<open>The end of a turn: the follow-up it queues, the automatic result, or the end of a question.\<close>

lemma follow_up_step:
  assumes "queue_follow_up ended c now db = Inr (i, db')" and "get_card (cd_id c) db = Some c"
  shows "card_step P db db'"
proof -
  let ?db = "update_card (cd_id c) (\<lambda>r. r\<lparr>cd_follow_ups := cd_follow_ups r + 1, cd_updated_at := now\<rparr>) db"
  have ok: "cd_follow_ups c + 1 \<le> max_follow_ups" and cs: "db_cards db' = db_cards ?db" using assms(1) by (auto elim: queue_follow_up_Inr)
  have "db_next ?db \<le> db_next db'" using assms(1)
    by (auto simp: queue_follow_up_def Let_def insert_message_def insert_task_def split: if_splits option.splits)
  with cs have "no_cards ?db db'" by (simp add: no_cards_def)
  moreover have "card_step P db ?db" using assms(2) ok
    by (intro card_step_update [of _ _ c]) (auto simp: card_later_def card_ok_def)
  ultimately show ?thesis using card_step_trans no_cards_step by blast
qed

lemma follow_up_lane:
  assumes "queue_follow_up ended c now db = Inr (i, db')" and "get_card (cd_id c) db = Some c"
  shows "card_step P db (update_lane l p f db')"
  using follow_up_step [OF assms] no_cards_step [OF no_cards_writes(1)] by (rule card_step_trans)

lemma end_question_free: "end_question i l now db = Inr (st, db') \<Longrightarrow> no_cards db db'"
  by (auto simp: end_question_def split: option.splits prod.splits bool.splits)

lemma gate_step_kept:
  "gate_check req prev db = Pass g db' \<or> gate_check req prev db = Halt r db' \<Longrightarrow> card_step P db db'"
proof -
  assume a: "gate_check req prev db = Pass g db' \<or> gate_check req prev db = Halt r db'"
  have gate: "card_step P db db'" if "card_gate req prev c db = Pass g db' \<or> card_gate req prev c db = Halt r db'"
      "get_card i db = Some c" for c i
    using that get_card_in [OF that(2)]
    by (auto simp: card_gate_def split: if_splits sum.splits
        intro: no_cards_step [OF no_cards_refl] follow_up_lane store_result_step)
  from a show ?thesis
    by (auto simp: gate_check_def split: if_splits option.splits sum.splits prod.splits
        intro: gate no_cards_step dest!: end_question_free)
qed

lemma mark_done_step: "mark_done req db = Inr (r, db') \<Longrightarrow> card_step P db db'"
  by (auto simp: mark_done_def write_end_def Let_def split: option.splits gate_step.splits if_splits
      intro: no_cards_step card_step_trans [OF gate_step_kept no_cards_step])

text \<open>The delegation that makes the card.\<close>

lemma create_step: "create_card room work n d dt l p dr m now db = Inr (i, db') \<Longrightarrow> card_step P db db'"
proof -
  assume c: "create_card room work n d dt l p dr m now db = Inr (i, db')"
  have "\<exists>k. db' = db\<lparr>db_cards := db_cards db @ [k], db_next := db_next db + 1\<rparr> \<and> cd_id k = db_next db
      \<and> cd_version k = 1 \<and> cd_versions k = [] \<and> cd_status k = InProgress \<and> cd_follow_ups k = 0"
    using c by (auto simp: create_card_def split: if_splits)
  then obtain k where "db' = db\<lparr>db_cards := db_cards db @ [k], db_next := db_next db + 1\<rparr>" "cd_id k = db_next db"
      "cd_version k = 1" "cd_versions k = []" "cd_status k = InProgress" "cd_follow_ups k = 0" by blast
  then show ?thesis using card_step_insert [of k db] by (simp add: card_ok_def max_follow_ups_def)
qed

lemma hold_free: "hold_delegation w i now db = Inr (h, db') \<Longrightarrow> no_cards db db'"
proof -
  assume h: "hold_delegation w i now db = Inr (h, db')"
  have "db_next db \<le> db_next db'" using h
    by (auto simp: hold_delegation_def quiet_hold_def cancel_closed_def cancel_one_def holds_for_def Let_def update_task_def
        update_lane_def split: if_splits option.splits prod.splits)
  with hold_links [OF h] show ?thesis by (simp add: no_cards_def)
qed

lemma budget_free: "(case b of None \<Rightarrow> Inr db | Some x \<Rightarrow> update_task i (f x) db) = Inr db' \<Longrightarrow> no_cards db db'"
  by (auto split: option.splits intro: no_cards_update_task)

lemma write_delegation_step:
  assumes "write_delegation pu c inp profile num m db = Inr (r, db')"
  shows "card_step P db db'"
  using assms unfolding write_delegation_def Let_def
  apply (clarsimp simp: bindE_eq_Inr_iff)
  apply (drule no_cards_lane, drule create_step [where P = P], drule no_cards_store, drule no_cards_queued, drule budget_free, drule hold_free)
  by (rule card_step_trans, erule no_cards_step, erule card_step_trans)
    (blast intro: no_cards_step no_cards_trans no_cards_writes(2,3))

lemma refuse_free: "refuse_delegation pu c m a ut db = Inr db' \<Longrightarrow> no_cards db db'"
  unfolding refuse_delegation_def
  by (clarsimp simp: bindE_eq_Inr_iff) (meson no_cards_pause no_cards_store no_cards_trans no_cards_writes(3))

lemma delegate_step: "card_step P db (snd (delegate_card pu ut bubble ah i inp db))"
proof (cases "bindE (find_caller i db) (\<lambda>c. bindE (check_delegation ah c inp db) (\<lambda>profile. Inr (c, profile)))")
  case (Inr x)
  obtain c profile where x: "x = (c, profile)" by fastforce
  let ?a = "dr_assignee (di_card inp)"
  note unfolded = delegate_card_def Inr x sum.case prod.case Let_def
  have same: "card_step P db db" by (simp add: no_cards_step)
  show ?thesis
  proof (cases "insert_row (delegation_bubble bubble ut c (di_card inp) db) db")
    case (Inr db1)
    obtain v db2 where h: "judge_room_hop (cl_room c) (cl_ws c) (delegate_hop c ?a db1) (db_next db) 2 (cl_now c) db1 = (v, db2)"
      by fastforce
    have "card_step P db db2" using no_cards_row [OF Inr] no_cards_hop [OF h] by (blast intro: no_cards_step no_cards_trans)
    then show ?thesis unfolding unfolded Inr h
      using same by (auto split: sum.splits intro: card_step_trans [OF _ no_cards_step [OF refuse_free]]
          card_step_trans [OF _ write_delegation_step])
  qed (simp add: unfolded same)
qed (simp add: delegate_card_def no_cards_step)

section \<open>Runs of card requests\<close>

text \<open>The texts, the parser of ids and the artifact table that the requests share.\<close>

record card_env =
  ce_parse :: "string \<Rightarrow> uuid option"
  ce_text :: "uuid \<Rightarrow> string"
  ce_bubble :: "string \<Rightarrow> draft \<Rightarrow> string"
  ce_version :: "string \<Rightarrow> int \<Rightarrow> draft \<Rightarrow> string \<Rightarrow> string"
  ce_artifact :: "uuid \<Rightarrow> uuid \<Rightarrow> bool"
  ce_label :: "string \<Rightarrow> string \<Rightarrow> string option"

datatype card_request =
    CrDelegate uuid delegate_input
  | CrSubmit uuid int uuid result_in
  | CrAccept uuid judging string
  | CrRevise uuid judging string card_patch
  | CrResume uuid string
  | CrRevive uuid
  | CrCancel uuid
  | CrTurnEnds done_request
  | CrClock time

fun serve_card :: "card_env \<Rightarrow> card_request \<Rightarrow> db \<Rightarrow> db_error + db" where
  "serve_card e (CrDelegate i inp) db = Inr (snd (delegate_card (ce_parse e) (ce_text e) (ce_bubble e) (ce_artifact e) i inp db))"
| "serve_card e (CrSubmit i n cid inp) db =
     map_sum id snd (submit_result (ce_parse e) (ce_artifact e) (ce_label e) i n cid inp db)"
| "serve_card e (CrAccept cid j comment) db = accept_card cid j comment db"
| "serve_card e (CrRevise cid j reason p) db =
     map_sum id snd (revise_card (ce_parse e) (ce_text e) (ce_version e) (ce_artifact e) cid j reason p db)"
| "serve_card e (CrResume room why) db = map_sum id snd (resume_stalled_cards room why (db_clock db) db)"
| "serve_card e (CrRevive lane) db = Inr (revive_on_lane lane (db_clock db) db)"
| "serve_card e (CrCancel lane) db = Inr (cancel_lane_cards lane (db_clock db) db)"
| "serve_card e (CrTurnEnds req) db = map_sum id snd (mark_done req db)"
| "serve_card e (CrClock t) db = Inr (db\<lparr>db_clock := t\<rparr>)"

definition run_cards :: "card_env \<Rightarrow> card_request list \<Rightarrow> db \<Rightarrow> db" where
  "run_cards e = fold (\<lambda>r. in_tx (serve_card e r))"

lemma map_sum_Inr: "map_sum id g x = Inr y \<Longrightarrow> \<exists>a. x = Inr a \<and> y = g a"
  by (cases x) auto

text \<open>Who may accept a card: its delegator's turn, or one of the people who judge it.\<close>

definition entitled :: "judging \<Rightarrow> card_row \<Rightarrow> db \<Rightarrow> bool" where
  "entitled j c db \<longleftrightarrow>
     (case jb_task j of
        Some i \<Rightarrow> map_option tk_agent (get_task i db) = Some (cd_delegator c)
      | None \<Rightarrow> (case jb_user j of None \<Rightarrow> False | Some u \<Rightarrow> List.member (js_people (judges_of c db)) u))"

definition accepts :: "card_request \<Rightarrow> db \<Rightarrow> uuid \<Rightarrow> bool" where
  "accepts r db i =
     (case r of CrAccept cid j _ \<Rightarrow> cid = i \<and>
        (case get_card i db of None \<Rightarrow> False | Some c \<Rightarrow> cd_status c = ResultSubmitted \<and> entitled j c db)
      | _ \<Rightarrow> False)"

lemma accept_entitled:
  assumes "accept_card cid j comment db = Inr db'"
  shows "accepts (CrAccept cid j comment) db cid"
proof -
  obtain c kind by' where c: "judged_card cid j ActAccept db = Inr (c, kind, by')" using assms by (auto simp: accept_card_def)
  have "cd_status c = ResultSubmitted" using judged_get(3) [OF c] by (auto split: if_splits)
  moreover have "entitled j c db" using c
    by (auto simp: judged_card_def judge_of_def entitled_def may_judge_def judges_of_def split: option.splits if_splits)
  ultimately show ?thesis using judged_get(1) [OF c] by (simp add: accepts_def)
qed

lemma serve_card_step:
  assumes "serve_card e r db = Inr db'"
  shows "card_step (accepts r db) db db'"
proof (cases r)
  case (CrDelegate i inp)
  with assms show ?thesis using delegate_step by auto
next
  case (CrAccept cid j comment)
  with assms show ?thesis by (auto intro: accept_step accept_entitled)
next
  case (CrClock t)
  with assms show ?thesis by (auto intro: no_cards_step)
qed (use assms in \<open>auto simp: cancel_lane_cards_def dest!: map_sum_Inr
      intro: submit_step revise_step resume_step revive_step cancel_step mark_done_step\<close>)

lemma cards_grow_mono: "cards_grow P a b \<Longrightarrow> cards_grow (\<lambda>_. True) a b"
  by (auto simp: cards_grow_def list_all_iff split: option.splits)

definition cards_kept :: "db \<Rightarrow> db \<Rightarrow> bool" where
  "cards_kept db db' \<longleftrightarrow>
     list_all (\<lambda>c. case get_card (cd_id c) db' of None \<Rightarrow> False | Some c' \<Rightarrow> card_later c c') (db_cards db)"

lemma cards_kept_grow: "cards_grow P a b \<Longrightarrow> cards_kept a b"
  by (auto simp: cards_grow_def cards_kept_def list_all_iff split: option.splits)

interpretation card_requests: transactional "serve_card e" cards_wf "\<lambda>a b. cards_wf a \<longrightarrow> cards_grow (\<lambda>_. True) a b \<and> cards_wf b"
proof unfold_locales
  show "cards_wf s'" if "cards_wf s" "serve_card e r s = Inr s'" for s r s'
    using serve_card_step [OF that(2)] that(1) by (simp add: card_step_def)
  show "cards_wf s \<longrightarrow> cards_grow (\<lambda>_. True) s s' \<and> cards_wf s'" if "cards_wf s" "serve_card e r s = Inr s'" for s r s'
    using serve_card_step [OF that(2)] cards_grow_mono by (auto simp: card_step_def)
  show "cards_wf s \<longrightarrow> cards_grow (\<lambda>_. True) s s \<and> cards_wf s" for s using cards_grow_refl by blast
  show "cards_wf s \<longrightarrow> cards_grow (\<lambda>_. True) s u \<and> cards_wf u"
    if "cards_wf s \<longrightarrow> cards_grow (\<lambda>_. True) s t \<and> cards_wf t" "cards_wf t \<longrightarrow> cards_grow (\<lambda>_. True) t u \<and> cards_wf u" for s t u
    using that cards_grow_trans by blast
qed

text \<open>
  C13 The history of a card is never lost: from a sound store, no run of delegations, results,
  acceptances, revisions, resumptions, restarts, cancels and turn ends removes a card or changes its
  number, its delegator, its assignee or its lane; the versions kept only grow, are numbered from one
  without a gap up to the one before the current version, and each of them had a result and the
  judgement that ended it; and a card that waits for its judge or was accepted has a result.
\<close>

theorem card_history_kept:
  assumes "cards_wf db"
  shows "cards_wf (run_cards e rs db) \<and> cards_kept db (run_cards e rs db)"
  unfolding run_cards_def
  using card_requests.run_inv [OF assms] card_requests.run_rel [OF assms] assms cards_kept_grow by blast

text \<open>
  C14 Only a judge accepts a card: of all the requests that write cards, a card that was not accepted
  is accepted only by an acceptance of that very card, while its result waits for judgement, by a turn
  of the agent that delegated it or by a person who judges it: the mission's Director or deputy, outside
  a mission the room's owner or one of its deputies. No other request accepts it on the way.
\<close>

theorem accepted_only_by_judge:
  assumes "cards_wf db" and "serve_card e r db = Inr db'" and "get_card i db = Some c" and "cd_status c \<noteq> Accepted"
    and "map_option cd_status (get_card i db') = Some Accepted"
  shows "case r of CrAccept cid j comment \<Rightarrow> cid = i \<and> cd_status c = ResultSubmitted \<and> entitled j c db | _ \<Rightarrow> False"
proof -
  have "cards_grow (accepts r db) db db'" using serve_card_step [OF assms(2)] assms(1) by (simp add: card_step_def)
  with get_card_in [OF assms(3)] assms(4,5) have "accepts r db i"
    by (fastforce simp: cards_grow_def list_all_iff split: option.splits)
  with assms(3) show ?thesis by (auto simp: accepts_def split: card_request.splits)
qed

end
