(* ===== verification/Card_Turns.thy ===== *)
theory Card_Turns
  imports Card_Facts Loop_Stop
begin

text \<open>
  What a revision leads to: the new version with its turn or a stopped room, the result of an older turn
  that comes too late, and the cards of a stopped room that run again. With a card at work, and two
  sequences in which the code strands one.
\<close>

section \<open>Messages that stay\<close>

definition message_kept :: "uuid \<Rightarrow> db \<Rightarrow> db \<Rightarrow> bool" where
  "message_kept m db db' \<longleftrightarrow> (case get_message m db of None \<Rightarrow> True | Some x \<Rightarrow> get_message m db' = Some x)"

lemma message_kept_trans: "message_kept m a b \<Longrightarrow> message_kept m b c \<Longrightarrow> message_kept m a c"
  by (auto simp: message_kept_def split: option.splits)

lemma message_kept_same: "db_messages db' = db_messages db \<Longrightarrow> message_kept m db db'"
  by (simp add: message_kept_def get_message_def split: option.split)

lemma message_kept_insert: "message_kept m db (snd (insert_message a k w room src now db))"
  by (auto simp: message_kept_def get_message_def insert_message_def tbl_get_append split: option.split)

lemma message_kept_hitl: "message_kept m db (attach_hitl_card room w hi now db)"
proof -
  have "message_kept m db (case insert_message a k w' r src now db of (i, db1) \<Rightarrow> db1\<lparr>db_hitls := f i db1\<rparr>)" for a k w' r src f
    using message_kept_insert [of m db a k w' r src now]
    by (auto simp: message_kept_def get_message_def split: prod.split option.splits)
  then show ?thesis by (simp add: attach_hitl_card_def)
qed

lemma message_kept_block: "block room why now db = Inr (n, db') \<Longrightarrow> message_kept m db db'"
  by (rule message_kept_same) (auto simp: block_def update_room_def Let_def split: option.splits if_splits prod.splits bool.splits)

lemma message_kept_pause:
  assumes "pause_for_loop room now db = Inr db'"
  shows "message_kept m db db'"
proof (cases "stopped room db")
  case True
  with assms show ?thesis by (auto simp: pause_for_loop_def stopped_def intro: message_kept_same split: option.splits)
next
  case False
  then obtain n db1 h db2 where b: "block room reason_loop now db = Inr (n, db1)" and r: "insert_loop_request room db1 = (h, db2)"
      and db': "db' = file_room_card h ''room_paused'' now (attach_hitl_card room None h now db2)"
    using assms by (auto simp: pause_for_loop_def stopped_def pause_loop_drains split: option.splits prod.splits)
  have "message_kept m db1 db2" using r by (intro message_kept_same) (auto simp: insert_loop_request_def)
  moreover have "message_kept m (attach_hitl_card room None h now db2) db'"
    unfolding db' by (intro message_kept_same) (simp add: file_room_card_def insert_inbox_def)
  ultimately show ?thesis using message_kept_block [OF b] message_kept_hitl by (blast intro: message_kept_trans)
qed

lemma same_messages_task: "update_task i f db = Inr db' \<Longrightarrow> db_messages db' = db_messages db"
  by (auto simp: update_task_def split: option.splits if_splits)

lemma same_messages_queued: "insert_queued_task n db = Inr (i, db') \<Longrightarrow> db_messages db' = db_messages db"
  by (auto simp: insert_queued_task_def insert_task_row_def insert_task_def split: prod.splits if_splits)

lemma message_kept_reenter: "reenter_card_lane c m j now db = Inr (i, db') \<Longrightarrow> message_kept k db db'"
  by (rule message_kept_same) (auto simp: reenter_card_lane_def Let_def update_lane_def split: option.splits
      dest!: same_messages_task same_messages_queued)

lemma message_kept_hop: "judge_room_hop room ws h m r now db = (v, db') \<Longrightarrow> message_kept k db db'"
  by (rule message_kept_same) (auto simp: judge_room_hop_def split: prod.splits)

lemma message_kept_note: "message_kept k db (note_judgement j c now db)"
  by (rule message_kept_same) (simp add: note_judgement_def insert_server_event_def split: option.split)

section \<open>The turn on the card's lane\<close>

lemma get_lane_other: "l \<noteq> k \<Longrightarrow> get_lane l (update_lane k p (card_lane_again now) db) = get_lane l db"
  using get_lane_update [of "card_lane_again now" l k p db] by (simp add: card_lane_again_def)

text \<open>The task a re-entry answers: queued on the lane, a card turn of this card, with the message.\<close>

definition card_turn_queued :: "card_row \<Rightarrow> uuid \<Rightarrow> uuid \<Rightarrow> db \<Rightarrow> bool" where
  "card_turn_queued c m i db =
     (case get_task i db of None \<Rightarrow> False
      | Some t \<Rightarrow> tk_status t = Queued \<and> tk_lane t = cd_lane c \<and> card_turn (cd_id c) t \<and> carries m t)"

definition lane_carries :: "uuid \<Rightarrow> uuid \<Rightarrow> db \<Rightarrow> bool" where
  "lane_carries lane b db \<longleftrightarrow> list_ex (\<lambda>t. tk_lane t = lane \<and> carries b t) (db_tasks db)"

lemma reenter_turn:
  assumes "reenter_card_lane c m j now db = Inr (i, db')" and "ids_ok db"
  shows "card_turn_queued c m i db'" and "ids_ok db'"
    and "lane_carries l b db \<longrightarrow> lane_carries l b db'" and "l \<noteq> cd_lane c \<longrightarrow> get_lane l db' = get_lane l db"
proof -
  let ?db = "update_lane (cd_lane c) (\<lambda>_. True) (card_lane_again now) db"
  have ok: "ids_ok ?db" using assms(2) by (simp add: ids_ok_def update_lane_def)
  have tasks: "db_tasks ?db = db_tasks db" by simp
  obtain la where la: "get_lane (cd_lane c) db = Some la" using assms(1) by (auto simp: reenter_card_lane_def split: option.splits)
  have all: "card_turn_queued c m i db' \<and> ids_ok db' \<and> (lane_carries l b db \<longrightarrow> lane_carries l b db') \<and> db_lanes db' = db_lanes ?db"
  proof (cases "lock_queued_task (cd_lane c) ?db")
    case (Some t)
    let ?f = "\<lambda>r. r\<lparr>tk_coalesced := tk_coalesced r @ [m], tk_kind := KindCard, tk_card := Some (cd_id c), tk_updated_at := now\<rparr>"
    have u: "update_task (tk_id t) ?f ?db = Inr db'" and i: "i = tk_id t"
      using assms(1) la Some by (auto simp: reenter_card_lane_def Let_def)
    have "light_write ?f" by (auto simp: light_write_def same_task_def same_core_def)
    note t = lock_queued_task_Some [OF Some]
    have g: "get_task (tk_id t) ?db = Some t" using ok t(1) by (rule get_task_unique)
    then have db': "db' = ?db\<lparr>db_tasks := tbl_modify tk_id (tk_id t) ?f (db_tasks ?db)\<rparr>"
      using u by (auto simp: update_task_def split: if_splits)
    have "get_task i db' = Some (?f t)"
      using g tbl_get_modify [of tk_id ?f "tk_id t" "db_tasks ?db"] by (simp add: db' i get_task_def)
    then have "card_turn_queued c m i db'"
      using t(2) by (simp add: card_turn_queued_def queued_on_def card_turn_def carries_def)
    moreover have "ids_ok db'" using ids_ok_upd [OF ok, of "\<lambda>r. tk_id r = tk_id t" ?f] by (simp add: db' tbl_modify_def)
    moreover have "lane_carries l b db \<longrightarrow> lane_carries l b db'"
    proof
      assume "lane_carries l b db"
      then obtain r where r: "r \<in> set (db_tasks db)" "tk_lane r = l" "carries b r"
        by (auto simp: lane_carries_def list_ex_iff)
      let ?r = "if tk_id r = tk_id t then ?f r else r"
      have "?r \<in> set (db_tasks db')" using r(1) by (simp add: db' set_tbl_modify)
      moreover have "tk_lane ?r = l" "carries b ?r" using r by (auto simp: carries_def)
      ultimately show "lane_carries l b db'" unfolding lane_carries_def list_ex_iff by blast
    qed
    ultimately show ?thesis by (simp add: db')
  next
    case None
    then have q: "insert_queued_task (card_task_of c la m j now ?db) ?db = Inr (i, db')"
      using assms(1) la by (simp add: reenter_card_lane_def Let_def)
    then have i: "i = db_next ?db" and db': "db' = ?db\<lparr>db_tasks := db_tasks ?db @ [fresh_task (card_task_of c la m j now ?db) KindCard (Some (cd_id c)) (db_next ?db)],
        db_next := db_next ?db + 1\<rparr>"
      by (auto simp: insert_queued_task_def insert_task_row_def insert_task_def lane_kind_def card_task_of_def split: if_splits)
    have fresh: "get_task (db_next ?db) ?db = None"
      using ok by (auto simp: get_task_def ids_ok_def list_all_iff tbl_get_None_iff)
    have "card_turn_queued c m i db'"
      using fresh by (simp add: card_turn_queued_def i db' get_task_def tbl_get_append fresh_task_def card_task_of_def
          card_turn_def carries_def)
    moreover have "ids_ok db'" using ok by (auto simp: ids_ok_def list_all_iff db' fresh_task_def)
    moreover have "lane_carries l b db \<longrightarrow> lane_carries l b db'" by (auto simp: lane_carries_def db')
    ultimately show ?thesis by (simp add: db')
  qed
  then show "card_turn_queued c m i db'" "ids_ok db'" "lane_carries l b db \<longrightarrow> lane_carries l b db'" by blast+
  show "l \<noteq> cd_lane c \<longrightarrow> get_lane l db' = get_lane l db"
    using all get_lane_other [of l "cd_lane c"] by (simp add: get_lane_def)
qed

text \<open>The lane will run, or runs.\<close>

definition lane_runs :: "uuid \<Rightarrow> db \<Rightarrow> bool" where
  "lane_runs lane db =
     (case get_lane lane db of None \<Rightarrow> False | Some l \<Rightarrow> ln_status l = LaneQueued \<or> ln_status l = LaneRunning)"

lemma reenter_runs:
  assumes "reenter_card_lane c m j now db = Inr (i, db')"
  shows "lane_runs (cd_lane c) db'"
proof -
  let ?db = "update_lane (cd_lane c) (\<lambda>_. True) (card_lane_again now) db"
  obtain la where la: "get_lane (cd_lane c) db = Some la" using assms by (auto simp: reenter_card_lane_def split: option.splits)
  have "db_lanes db' = db_lanes ?db"
    using assms la
    by (auto simp: reenter_card_lane_def Let_def update_task_def insert_queued_task_def insert_task_row_def insert_task_def
        split: option.splits if_splits prod.splits)
  moreover have "get_lane (cd_lane c) ?db = Some (card_lane_again now la)"
    using get_lane_update [of "card_lane_again now" "cd_lane c" "cd_lane c" "\<lambda>_. True" db] la by (simp add: card_lane_again_def)
  ultimately show ?thesis by (simp add: lane_runs_def get_lane_def card_lane_again_def)
qed

text \<open>A re-entry leaves the tasks of the other lanes as they are.\<close>

lemma reenter_others:
  assumes "reenter_card_lane c m j now db = Inr (i, db')" and "ids_ok db"
    and "get_task k db = Some t" and "tk_lane t \<noteq> cd_lane c"
  shows "get_task k db' = Some t"
proof -
  let ?db = "update_lane (cd_lane c) (\<lambda>_. True) (card_lane_again now) db"
  have ok: "ids_ok ?db" using assms(2) by (simp add: ids_ok_def update_lane_def)
  obtain la where la: "get_lane (cd_lane c) db = Some la" using assms(1) by (auto simp: reenter_card_lane_def split: option.splits)
  have k: "get_task k ?db = Some t" using assms(3) by (simp add: get_task_def)
  show ?thesis
  proof (cases "lock_queued_task (cd_lane c) ?db")
    case None
    then obtain n where "insert_queued_task n ?db = Inr (i, db')" using assms(1) la by (simp add: reenter_card_lane_def Let_def)
    with k show ?thesis
      by (auto simp: insert_queued_task_def insert_task_row_def insert_task_def get_task_def tbl_get_append
          split: prod.splits if_splits)
  next
    case (Some q)
    let ?f = "\<lambda>r. r\<lparr>tk_coalesced := tk_coalesced r @ [m], tk_kind := KindCard, tk_card := Some (cd_id c), tk_updated_at := now\<rparr>"
    have u: "update_task (tk_id q) ?f ?db = Inr db'" using assms(1) la Some by (auto simp: reenter_card_lane_def Let_def)
    note q = lock_queued_task_Some [OF Some]
    have "get_task (tk_id q) ?db = Some q" using ok q(1) by (rule get_task_unique)
    moreover from this have "k \<noteq> tk_id q" using k q(2) assms(4) by (auto simp: queued_on_def)
    ultimately show ?thesis
      using u k tbl_get_modify [of tk_id ?f "tk_id q" "db_tasks ?db" k]
      by (auto simp: update_task_def get_task_def split: if_splits)
  qed
qed

lemma reenter_turn_kept:
  assumes "reenter_card_lane c m j now db = Inr (i, db')" and "ids_ok db"
    and "card_turn_queued d b k db" and "cd_lane d \<noteq> cd_lane c"
  shows "card_turn_queued d b k db'"
  using reenter_others [OF assms(1,2)] assms(3,4) by (auto simp: card_turn_queued_def split: option.splits)

section \<open>A revision\<close>

lemma get_message_fresh:
  "list_all (\<lambda>x. ms_id x < db_next db) (db_messages db) \<Longrightarrow> get_message (db_next db) db = None"
  by (auto simp: get_message_def tbl_get_None_iff list_all_iff)

lemma get_card_bubbled:
  "get_card i (set_delegate_message i m db) = map_option (\<lambda>r. r\<lparr>cd_bubble := Some m\<rparr>) (get_card i db)"
  by (simp add: set_delegate_message_def get_card_update)

lemma get_card_free: "no_cards a b \<Longrightarrow> get_card i b = get_card i a"
  by (simp add: no_cards_def get_card_def)

lemma versioned:
  assumes "judged_card cid j ActRevise db = Inr (c, kind, by')"
    and "post_version pu ut bubble c j kind by' d reason now (write_version c d reason kind by' now db) = Inr (m, db1)"
  obtains c' where "get_card cid db1 = Some c'" and "cd_status c' = InProgress" and "cd_version c' = cd_version c + 1"
    and "cd_result c' = None" and "cd_follow_ups c' = 0" and "cd_bubble c' = Some m" and "cd_lane c' = cd_lane c"
    and "cd_room c' = cd_room c"
    and "cd_criteria c' = numbered (dr_criteria d)"
    and "map_option cv_result (List.find (\<lambda>v. v = last (cd_versions c')) (cd_versions c')) = Some (cd_result c)"
    and "m = db_next db" and "db_tasks db1 = db_tasks db" and "db_lanes db1 = db_lanes db" and "db_next db1 = db_next db + 1"
    and "list_all (\<lambda>x. ms_id x < db_next db) (db_messages db) \<longrightarrow> map_option ms_created_at (get_message m db1) = Some now"
proof -
  let ?db = "write_version c d reason kind by' now db" and ?b = "revise_bubble bubble ut c j kind by' d reason now (write_version c d reason kind by' now db)"
  obtain dbA dbB o' where A: "insert_row ?b ?db = Inr dbA" and B: "store_speech pu (db_next ?db) o' dbA = Inr dbB"
      and db1: "db1 = set_delegate_message (cd_id c) (db_next ?db) dbB" and m: "m = db_next ?db"
    using assms(2) by (auto simp: post_version_def Let_def)
  have cid: "cd_id c = cid" and g: "get_card cid db = Some c" using judged_get [OF assms(1)] by simp_all
  obtain out where out: "dbB = update_message (db_next ?db) (set_speech out) dbA" using store_speech_Inr [OF B] by blast
  have dbA: "dbA = ?db\<lparr>db_messages := db_messages ?db @ [?b], db_next := db_next ?db + 1\<rparr>"
    using A by (auto simp: insert_row_def split: if_splits)
  have free: "no_cards ?db dbB" using no_cards_row [OF A] no_cards_store [OF B] by (rule no_cards_trans)
  have next': "db_next ?db = db_next db" "db_messages ?db = db_messages db" "db_tasks ?db = db_tasks db" "db_lanes ?db = db_lanes db"
    by (simp_all add: write_version_def update_card_def)
  have msg: "map_option ms_created_at (get_message m db1) = Some now" if "list_all (\<lambda>x. ms_id x < db_next db) (db_messages db)"
  proof -
    have "get_message m dbA = Some ?b"
      using get_message_fresh [OF that] by (simp add: dbA get_message_def tbl_get_append next' m revise_bubble_def Let_def text_message_def)
    then have "get_message m dbB = Some (set_speech out ?b)"
      by (simp add: out m get_message_def update_message_def tbl_get_modify set_speech_def)
    moreover have "get_message m db1 = get_message m dbB" by (simp add: db1 set_delegate_message_def update_card_def get_message_def)
    ultimately show ?thesis by (simp add: set_speech_def revise_bubble_def Let_def text_message_def)
  qed
  let ?c = "(\<lambda>r. r\<lparr>cd_version := cd_version r + 1, cd_status := InProgress, cd_goal := trim_space (dr_goal d),
       cd_criteria := numbered (dr_criteria d), cd_boundaries := trim_space (dr_boundaries d), cd_refs := dr_refs d,
       cd_output := dr_output_format d, cd_budget := dr_budget d, cd_reason := Some reason, cd_result := None,
       cd_judgement := None, cd_follow_ups := 0,
       cd_versions := cd_versions c @ [snapshot c \<lparr>cj_action = ''revise_requested'', cj_kind = kind, cj_by = by', cj_at = now,
         cj_reason = Some reason, cj_comment = None\<rparr>],
       cd_updated_at := now\<rparr>) c"
  have "get_card cid ?db = Some ?c" using g cid by (simp add: write_version_def get_card_update)
  then have "get_card cid db1 = Some (?c\<lparr>cd_bubble := Some m\<rparr>)"
    using get_card_free [OF free] by (simp add: db1 cid get_card_bubbled m)
  moreover have "List.find (\<lambda>v. v = x) (xs @ [x]) = Some x" for x :: card_version and xs by (induction xs) auto
  moreover have "db_tasks db1 = db_tasks db" "db_lanes db1 = db_lanes db" "db_next db1 = db_next db + 1"
    by (simp_all add: db1 set_delegate_message_def update_card_def out update_message_def dbA next')
  ultimately show ?thesis using that [of "?c\<lparr>cd_bubble := Some m\<rparr>"] msg by (simp add: snapshot_def m next')
qed








text \<open>
  C28 A late result never lands on a new version: after a revision, the report of any turn that was
  dispatched before it is refused, whatever it says and whichever version it worked on.
\<close>

theorem late_result_refused:
  assumes "revise_card pu ut bubble ah cid j reason p db = Inr (r, db')"
    and "list_all (\<lambda>x. ms_id x < db_next db) (db_messages db)"
    and "get_task i db' = Some t" and "tk_dispatched_at t = Some d" and "d < db_clock db"
  shows "isl (submit_result pu' ah' lo i n cid inp db')"
proof -
  obtain c kind by' m ws db1 where v: "judged_card cid j ActRevise db = Inr (c, kind, by')"
    and b: "post_version pu ut bubble c j kind by' (patched c p) reason (db_clock db)
           (write_version c (patched c p) reason kind by' (db_clock db) db) = Inr (m, db1)"
    and e: "revise_entered c ws j by' (db_clock db) (m, db1) = Inr (r, db')"
    using assms(1) by (rule revise_steps)
  obtain c' where c': "get_card cid db1 = Some c'" "cd_bubble c' = Some m"
      and at': "list_all (\<lambda>x. ms_id x < db_next db) (db_messages db) \<longrightarrow> map_option ms_created_at (get_message m db1) = Some (db_clock db)"
    using v b by (rule versioned)
  note msg = at' [rule_format, OF assms(2)]
  obtain vd db2 where h: "judge_room_hop (cd_room c) ws (revise_hop c j by' (db_clock db) db1) m 2 (db_clock db) db1 = (vd, db2)"
    by fastforce
  have "\<exists>db3. message_kept m db2 db3 \<and> db' = note_judgement j c (db_clock db) db3"
    using e h by (auto split: if_splits intro: message_kept_pause message_kept_reenter)
  then have "message_kept m db1 db'"
    using message_kept_hop [OF h] message_kept_note by (blast intro: message_kept_trans)
  then obtain x where x: "get_message m db' = Some x" "ms_created_at x = db_clock db"
    using msg by (auto simp: message_kept_def split: option.splits)
  have "get_card cid db' = Some c'" using get_card_free [OF revise_entered_free [OF e]] c'(1) by simp
  then have "older_turn c' t db'" using c'(2) x assms(4,5) by (simp add: older_turn_def)
  then have "isl (reportable_card i cid db')"
    using \<open>get_card cid db' = Some c'\<close> assms(3) by (auto simp: reportable_card_def isl_bindE split: sum.splits)
  then show ?thesis by (auto simp: submit_result_def isl_def)
qed

section \<open>The cards of a stopped room\<close>

lemma queued_carries: "card_turn_queued c m i db \<Longrightarrow> lane_carries (cd_lane c) m db"
  using get_task_row by (fastforce simp: card_turn_queued_def lane_carries_def list_ex_iff split: option.splits)

text \<open>The cards that have a row, with their messages: what the approved loop gate re-enters.\<close>

definition listed :: "(uuid \<times> uuid) list \<Rightarrow> card_row \<Rightarrow> uuid \<Rightarrow> db \<Rightarrow> bool" where
  "listed xs c m db \<longleftrightarrow> (cd_id c, m) \<in> set xs \<and> get_card (cd_id c) db = Some c"

lemma resume_loop_turns:
  assumes "resume_cards room ws reason_loop now xs db = Inr (ts, db')" and "ids_ok db"
  shows "(\<forall>c m. listed xs c m db \<longrightarrow> lane_carries (cd_lane c) m db') \<and> (\<forall>l b. lane_carries l b db \<longrightarrow> lane_carries l b db')
    \<and> (\<forall>l. (\<forall>c m. listed xs c m db \<longrightarrow> cd_lane c \<noteq> l) \<longrightarrow> get_lane l db' = get_lane l db)"
  using assms
proof (induction xs arbitrary: db ts)
  case Nil
  then show ?case by (simp add: listed_def)
next
  case (Cons x xs)
  obtain cid m where x: "x = (cid, m)" by fastforce
  obtain c where c: "get_card cid db = Some c" using Cons.prems(1) by (auto simp: x split: option.splits)
  then obtain t db1 ts' where r: "reenter_card_lane c m (by_delegator c) now db = Inr (t, db1)"
      and rest: "resume_cards room ws reason_loop now xs db1 = Inr (ts', db')"
    using Cons.prems(1) by (auto simp: x resume_verdict_def)
  note turn = reenter_turn [OF r Cons.prems(2)]
  have get: "get_card i db1 = get_card i db" for i using get_card_free [OF no_cards_reenter [OF r]] .
  have cid: "cd_id c = cid" using get_card_in [OF c] by simp
  from Cons.IH [OF rest turn(2)] have A: "\<forall>c m. listed xs c m db \<longrightarrow> lane_carries (cd_lane c) m db'"
    and B: "\<forall>l b. lane_carries l b db1 \<longrightarrow> lane_carries l b db'"
    and C: "\<forall>l. (\<forall>c m. listed xs c m db \<longrightarrow> cd_lane c \<noteq> l) \<longrightarrow> get_lane l db' = get_lane l db1"
    by (simp_all add: listed_def get)
  have one: "listed (x # xs) d k db \<longleftrightarrow> d = c \<and> k = m \<or> listed xs d k db" for d k
    using c cid by (auto simp: listed_def x)
  have "lane_carries (cd_lane c) m db'" using B queued_carries [OF turn(1)] by blast
  then show ?case using A B C turn(3,4) by (simp add: one) metis
qed

lemma same_lane_card:
  assumes "distinct (map cd_lane (db_cards db))" and "get_card i db = Some c" and "get_card k db = Some d" and "cd_lane c = cd_lane d"
  shows "c = d"
  using assms(1,4) get_card_in [OF assms(2)] get_card_in [OF assms(3)] by (auto simp: distinct_map dest: inj_onD)

text \<open>Each listed card ends on a lane that runs, with one of the answered tasks as its queued turn.\<close>

lemma resume_loop_queues:
  assumes "resume_cards room ws reason_loop now xs db = Inr (ts, db')" and "ids_ok db"
    and "distinct (map fst xs)" and "distinct (map cd_lane (db_cards db))"
  shows "(\<forall>c m. listed xs c m db \<longrightarrow> lane_runs (cd_lane c) db' \<and> (\<exists>i \<in> set ts. card_turn_queued c m i db'))
    \<and> (\<forall>d b k. card_turn_queued d b k db \<longrightarrow> (\<forall>c m. listed xs c m db \<longrightarrow> cd_lane c \<noteq> cd_lane d) \<longrightarrow> card_turn_queued d b k db')"
  using assms
proof (induction xs arbitrary: db ts)
  case Nil
  then show ?case by (simp add: listed_def)
next
  case (Cons x xs)
  obtain cid m where x: "x = (cid, m)" by fastforce
  obtain c where c: "get_card cid db = Some c" using Cons.prems(1) by (auto simp: x split: option.splits)
  then obtain t db1 ts' where r: "reenter_card_lane c m (by_delegator c) now db = Inr (t, db1)"
      and rest: "resume_cards room ws reason_loop now xs db1 = Inr (ts', db')" and ts: "ts = t # ts'"
    using Cons.prems(1) by (auto simp: x resume_verdict_def)
  note turn = reenter_turn [OF r Cons.prems(2)]
  have cards: "db_cards db1 = db_cards db" using no_cards_reenter [OF r] by (simp add: no_cards_def)
  then have get: "get_card i db1 = get_card i db" for i by (simp add: get_card_def)
  have cid: "cd_id c = cid" using get_card_in [OF c] by simp
  have "distinct (map fst xs)" "distinct (map cd_lane (db_cards db1))" using Cons.prems(3,4) cards by simp_all
  from Cons.IH [OF rest turn(2) this]
  have A: "listed xs d k db \<Longrightarrow> lane_runs (cd_lane d) db' \<and> (\<exists>i \<in> set ts'. card_turn_queued d k i db')"
    and B: "card_turn_queued d b k db1 \<Longrightarrow> \<forall>e n. listed xs e n db \<longrightarrow> cd_lane e \<noteq> cd_lane d \<Longrightarrow> card_turn_queued d b k db'"
    for d b k by (simp_all add: listed_def get) blast+
  have apart: "cd_lane e \<noteq> cd_lane c" if e: "listed xs e n db" for e n
  proof
    assume "cd_lane e = cd_lane c"
    then have "e = c" using same_lane_card [OF Cons.prems(4) _ c] e by (auto simp: listed_def)
    with e cid Cons.prems(3) show False by (force simp: listed_def x)
  qed
  have one: "listed (x # xs) d k db \<longleftrightarrow> d = c \<and> k = m \<or> listed xs d k db" for d k
    using c cid by (auto simp: listed_def x)
  have own: "lane_runs (cd_lane c) db' \<and> card_turn_queued c m t db'"
  proof -
    have "listed xs e n db1 = listed xs e n db" for e n by (simp add: listed_def get)
    then have "get_lane (cd_lane c) db' = get_lane (cd_lane c) db1" using apart resume_loop_turns [OF rest turn(2)] by metis
    with reenter_runs [OF r] have "lane_runs (cd_lane c) db'" unfolding lane_runs_def by simp
    with B [OF turn(1)] apart show ?thesis by blast
  qed
  have "card_turn_queued d b k db'"
    if "card_turn_queued d b k db" "\<forall>e n. listed (x # xs) e n db \<longrightarrow> cd_lane e \<noteq> cd_lane d" for d b k
  proof -
    have "cd_lane d \<noteq> cd_lane c" using that(2) one by metis
    then show ?thesis using B [OF reenter_turn_kept [OF r Cons.prems(2) that(1)]] that(2) one by blast
  qed
  moreover have "lane_runs (cd_lane d) db' \<and> (\<exists>i \<in> set ts. card_turn_queued d k i db')" if "listed (x # xs) d k db" for d k
    using that own A by (auto simp: one ts)
  ultimately show ?case by blast
qed

lemma stalled_ids: "cards_wf db \<Longrightarrow> distinct (map fst (stalled_cards room db))"
  by (auto simp: stalled_cards_def cards_wf_def distinct_map comp_def inj_on_def)

lemma stalled_entry: "set (stalled_cards room db) = (\<lambda>c. (cd_id c, the (cd_bubble c))) ` {c \<in> set (db_cards db). stalled_card room db c}"
  by (simp add: stalled_cards_def)

text \<open>The list itself is empty afterwards.\<close>

lemma resumed_none_stalled:
  assumes "resume_stalled_cards room reason_loop now db = Inr (ts, db')" and "ids_ok db" and "cards_wf db"
  shows "stalled_cards room db' = []"
proof (cases "stalled_cards room db = []")
  case True
  with assms(1) show ?thesis by (simp add: resume_stalled_cards_def)
next
  case False
  then obtain ws where r: "resume_cards room ws reason_loop now (stalled_cards room db) db = Inr (ts, db')"
    using assms(1) by (auto simp: resume_stalled_cards_def split: option.splits)
  note facts = resume_loop_turns [OF r assms(2)]
  have same: "db_cards db' = db_cards db" using resume_cards_free [OF r] by (simp add: no_cards_def)
  have in_list: "listed (stalled_cards room db) c b db \<longleftrightarrow> c \<in> set (db_cards db) \<and> stalled_card room db c \<and> b = the (cd_bubble c)"
    if "c \<in> set (db_cards db)" for c b
    using unique_card [OF assms(3) that] unique_card [OF assms(3)] that
    unfolding listed_def stalled_entry image_iff by (metis (mono_tags, lifting) mem_Collect_eq option.inject prod.inject)
  have "\<not> stalled_card room db' c" if c: "c \<in> set (db_cards db)" for c
  proof
    assume st: "stalled_card room db' c"
    then obtain b l where b: "cd_bubble c = Some b" "\<not> lane_carries (cd_lane c) b db'"
        and l: "get_lane (cd_lane c) db' = Some l" "ln_status l \<noteq> LaneBlocked" "ln_status l \<noteq> LaneWaitingHuman"
      by (auto simp: stalled_card_def lane_carries_def split: option.splits)
    have not_before: "\<not> stalled_card room db c" using facts b in_list [OF c] c by fastforce
    have "get_lane (cd_lane c) db = Some l' \<Longrightarrow> ln_status l' = LaneBlocked \<or> ln_status l' = LaneWaitingHuman" for l'
      using not_before st b facts by (auto simp: stalled_card_def lane_carries_def split: option.splits)
    then have "\<not> (listed (stalled_cards room db) d k db \<and> cd_lane d = cd_lane c)" for d k
      using in_list [of d k] get_card_in [of "cd_id d" db d]
      by (auto simp: listed_def stalled_card_def split: option.splits)
    then have "get_lane (cd_lane c) db' = get_lane (cd_lane c) db" using facts by blast
    with l st not_before b facts show False by (auto simp: stalled_card_def lane_carries_def)
  qed
  then have "set (stalled_cards room db') = {}" by (auto simp: stalled_entry same)
  then show ?thesis by simp
qed

text \<open>
  C16 A stopped room strands no card: when its owner lifted the loop gate and the cards are resumed, each
  card that was stalled keeps its row, its lane is queued or running, and one of the tasks the resume
  answers is queued on that lane as a turn of this card and carries the message of its current version;
  after that no card of the room is stalled. No two cards share a lane, which a unique index ensures.
\<close>

theorem stalled_cards_resume:
  assumes "resume_stalled_cards room reason_loop now db = Inr (ts, db')" and "ids_ok db" and "cards_wf db"
    and "distinct (map cd_lane (db_cards db))"
  shows "stalled_cards room db' = []
    \<and> list_all (\<lambda>c. get_card (cd_id c) db' = Some c \<and> lane_runs (cd_lane c) db'
        \<and> (case cd_bubble c of None \<Rightarrow> False | Some b \<Rightarrow> list_ex (\<lambda>i. card_turn_queued c b i db') ts))
        (filter (stalled_card room db) (db_cards db))"
proof (cases "stalled_cards room db = []")
  case True
  then have "filter (stalled_card room db) (db_cards db) = []" using stalled_entry [of room db] by (auto simp: filter_empty_conv)
  with resumed_none_stalled [OF assms(1-3)] show ?thesis by simp
next
  case False
  then obtain ws where r: "resume_cards room ws reason_loop now (stalled_cards room db) db = Inr (ts, db')"
    using assms(1) by (auto simp: resume_stalled_cards_def split: option.splits)
  have same: "db_cards db' = db_cards db" using resume_cards_free [OF r] by (simp add: no_cards_def)
  note queues = resume_loop_queues [OF r assms(2) stalled_ids [OF assms(3)] assms(4)]
  have "get_card (cd_id c) db' = Some c \<and> lane_runs (cd_lane c) db'
        \<and> (case cd_bubble c of None \<Rightarrow> False | Some b \<Rightarrow> list_ex (\<lambda>i. card_turn_queued c b i db') ts)"
    if c: "c \<in> set (db_cards db)" "stalled_card room db c" for c
  proof -
    obtain b where b: "cd_bubble c = Some b" using c(2) by (auto simp: stalled_card_def split: option.splits)
    have g: "get_card (cd_id c) db = Some c" using unique_card [OF assms(3) c(1)] .
    then have "listed (stalled_cards room db) c b db" using c b by (force simp: listed_def stalled_entry)
    with queues b g same show ?thesis by (auto simp: get_card_def list_ex_iff)
  qed
  with resumed_none_stalled [OF assms(1-3)] show ?thesis by (auto simp: list_all_iff)
qed

section \<open>A card at work\<close>

text \<open>Dev's turn 1 delegated card 40 to QA, whose lane 12 is done with a result that waits for Dev.\<close>

definition qa_card :: card_row where
  "qa_card = \<lparr>cd_id = 40, cd_lane = 12, cd_room = 3, cd_work = Some 20, cd_status = ResultSubmitted, cd_version = 1,
     cd_criteria = [\<lparr>cr_n = 1, cr_text = ''c'', cr_method = ''test''\<rparr>], cd_follow_ups = 0, cd_result = Some (auto_result 1),
     cd_judgement = None, cd_updated_at = 0, cd_number = 1, cd_delegator = 6, cd_delegator_task = Some 1, cd_assignee = 8,
     cd_parent = None, cd_goal = ''g'', cd_boundaries = ''b'', cd_refs = [], cd_bubble = Some 50, cd_output = None,
     cd_budget = None, cd_reason = None, cd_versions = []\<rparr>"

definition qa_turn :: task_row where
  "qa_turn = sample_task\<lparr>tk_id := 13, tk_lane := 12, tk_agent := 8, tk_profile := 9, tk_status := Completed, tk_work := Some 20,
     tk_kind := KindCard, tk_card := Some 40, tk_trigger := Some 50\<rparr>"

definition card_db :: db where
  "card_db = end_db\<lparr>db_tasks := [sample_task\<lparr>tk_work := Some 20\<rparr>, qa_turn], db_cards := [qa_card],
     db_messages := [request_of_qa\<lparr>ms_id := 50, ms_author_id := Some 6\<rparr>]\<rparr>"

definition by_dev_turn :: judging where
  "by_dev_turn = \<lparr>jb_task = Some 1, jb_attempt = 1, jb_user = None\<rparr>"

definition no_patch :: card_patch where
  "no_patch = \<lparr>cp_goal = None, cp_criteria = None, cp_boundaries = None, cp_refs = None, cp_output = None, cp_budget = None\<rparr>"

definition dev_revises :: "db_error + (uuid \<times> uuid option) \<times> db" where
  "dev_revises = revise_card post_pu (\<lambda>_. ''8'') (\<lambda>_ _ _ _. '':'') (\<lambda>_ _. False) 40 by_dev_turn ''r'' no_patch card_db"

lemma card_db_ok: "ids_ok card_db" "cards_wf card_db" "list_all (\<lambda>x. ms_id x < db_next card_db) (db_messages card_db)"
  by (simp_all add: ids_ok_def cards_wf_def card_ok_def max_follow_ups_def card_db_def end_db_def post_db_def sample_task_def
      qa_turn_def qa_card_def request_of_qa_def)

text \<open>
  Dev's revision is not held although the mission waits for its Director, where Dev's delegation is
  (\<open>dev_delegates_answer\<close>): the card turn it makes is handed out.
\<close>

lemma revise_escapes_quiet:
  "case dev_revises of Inl e \<Rightarrow> False | Inr ((m, t), db') \<Rightarrow> m = 100 \<and> t = Some 101
     \<and> map_option wk_quiet (get_work 20 db') = Some (Some ''quiet'')
     \<and> map_option tk_dispatched_at (get_task 13 db') = Some (Some 5)
     \<and> (case claim_of db' of Inl e \<Rightarrow> False | Inr (out, db'') \<Rightarrow> out = [101])"
  by code_simp


theorem late_result_refused_witness:
  "case dev_revises of Inl e \<Rightarrow> False
   | Inr (r, db') \<Rightarrow> isl (submit_result post_pu (\<lambda>_ _. True) (\<lambda>_ _. None) 13 1 40 bare_met db')"
proof -
  obtain r db' where k: "dev_revises = Inr (r, db')" using revise_escapes_quiet by (rule returned) (metis prod.exhaust)
  have d: "map_option tk_dispatched_at (get_task 13 db') = Some (Some 5)" using revise_escapes_quiet unfolding k by (simp split: prod.splits)
  then obtain t where t: "get_task 13 db' = Some t" "tk_dispatched_at t = Some 5" by auto
  have "(5::int) < db_clock card_db" by (simp add: card_db_def end_db_def post_db_def)
  from late_result_refused [OF k [unfolded dev_revises_def] card_db_ok(3) t this] show ?thesis unfolding k by simp
qed

text \<open>A card that the loop gate left in progress with no task for its message.\<close>

definition stalled_db :: db where
  "stalled_db = card_db\<lparr>db_cards := [qa_card\<lparr>cd_status := InProgress, cd_result := None\<rparr>],
     db_tasks := [sample_task\<lparr>tk_work := Some 20\<rparr>, qa_turn\<lparr>tk_trigger := None\<rparr>]\<rparr>"

lemma stalled_db_resumes:
  "case resume_stalled_cards 3 reason_loop 20 stalled_db of Inl e \<Rightarrow> False
   | Inr (ts, db') \<Rightarrow> ts = [100] \<and> stalled_cards 3 stalled_db = [(40, 50)]
       \<and> list_all (stalled_card 3 stalled_db) (db_cards stalled_db)"
  by code_simp

theorem stalled_cards_resume_witness:
  "case resume_stalled_cards 3 reason_loop 20 stalled_db of Inl e \<Rightarrow> False
   | Inr (ts, db') \<Rightarrow> stalled_cards 3 db' = [] \<and> lane_runs 12 db'
       \<and> card_turn_queued (qa_card\<lparr>cd_status := InProgress, cd_result := None\<rparr>) 50 100 db'"
proof -
  let ?c = "qa_card\<lparr>cd_status := InProgress, cd_result := None\<rparr>"
  obtain ts db' where k: "resume_stalled_cards 3 reason_loop 20 stalled_db = Inr (ts, db')"
    using stalled_db_resumes by (rule returned) (metis prod.exhaust)
  have ts: "ts = [100]" and all: "list_all (stalled_card 3 stalled_db) (db_cards stalled_db)"
    using stalled_db_resumes unfolding k by simp_all
  have cards: "db_cards stalled_db = [?c]" by (simp add: stalled_db_def)
  have ok: "ids_ok stalled_db" "cards_wf stalled_db" "distinct (map cd_lane (db_cards stalled_db))"
    by (simp_all add: ids_ok_def cards_wf_def card_ok_def max_follow_ups_def stalled_db_def card_db_def end_db_def post_db_def
        sample_task_def qa_turn_def qa_card_def)
  have f: "filter (stalled_card 3 stalled_db) (db_cards stalled_db) = [?c]" using all unfolding cards by simp
  have b: "cd_bubble ?c = Some 50" "cd_lane ?c = 12" by (simp_all add: qa_card_def)
  show ?thesis unfolding k using stalled_cards_resume [OF k ok, unfolded f ts] by (simp add: b)
qed

definition texts :: card_env where
  "texts = \<lparr>ce_parse = post_pu, ce_text = (\<lambda>_. ''8''), ce_bubble = (\<lambda>_ _. '':''), ce_version = (\<lambda>_ _ _ _. '':''),
     ce_artifact = (\<lambda>_ _. False), ce_label = (\<lambda>_ _. None)\<rparr>"

text \<open>QA's own turn may not accept the card, Dev's may; a revision of Dev's comes too late then.\<close>

definition judgements :: "card_request list" where
  "judgements = [CrAccept 40 \<lparr>jb_task = Some 13, jb_attempt = 1, jb_user = None\<rparr> ''ok'', CrAccept 40 by_dev_turn ''ok'',
     CrRevise 40 by_dev_turn ''r'' no_patch]"

lemma judgements_run:
  "map (\<lambda>c. (cd_status c, cd_version c)) (db_cards (run_cards texts judgements card_db)) = [(Accepted, 1)]"
  by code_simp

theorem card_history_kept_witness:
  "cards_wf (run_cards texts judgements card_db) \<and> cards_kept card_db (run_cards texts judgements card_db)
   \<and> map cd_status (db_cards (run_cards texts judgements card_db)) = [Accepted]"
proof -
  have "map cd_status (db_cards (run_cards texts judgements card_db))
      = map fst (map (\<lambda>c. (cd_status c, cd_version c)) (db_cards (run_cards texts judgements card_db)))" by simp
  then show ?thesis using card_history_kept [OF card_db_ok(2)] by (simp only: judgements_run) simp
qed

lemma dev_accepts:
  "case serve_card texts (CrAccept 40 by_dev_turn ''ok'') card_db of Inl e \<Rightarrow> False
   | Inr db' \<Rightarrow> map_option cd_status (get_card 40 db') = Some Accepted"
  by code_simp

theorem accepted_only_by_judge_witness: "entitled by_dev_turn qa_card card_db"
proof -
  obtain db' where k: "serve_card texts (CrAccept 40 by_dev_turn ''ok'') card_db = Inr db'"
    and a: "map_option cd_status (get_card 40 db') = Some Accepted" using dev_accepts by (rule returned)
  have "get_card 40 card_db = Some qa_card" "cd_status qa_card \<noteq> Accepted" by (simp_all add: card_db_def get_card_def qa_card_def)
  from accepted_only_by_judge [OF card_db_ok(2) k this a] show ?thesis by simp
qed

section \<open>Restarts\<close>

text \<open>
  A person restarts QA's running card turn. The old turn is only asked to stop, so the new one is queued
  at once; when the old turn then reports that it was cancelled, its end fails the lane and cancels the card,
  and the new turn is left with a card that takes no result.
\<close>

definition running_db :: db where
  "running_db = card_db\<lparr>db_cards := [qa_card\<lparr>cd_status := InProgress, cd_result := None\<rparr>],
     db_tasks := [sample_task\<lparr>tk_work := Some 20\<rparr>, qa_turn\<lparr>tk_status := Running\<rparr>],
     db_lanes := [sample_lane\<lparr>ln_work := Some 20\<rparr>,
        sample_lane\<lparr>ln_id := 12, ln_agent := 8, ln_profile := 9, ln_work := Some 20, ln_delegated_from := Some 1\<rparr>]\<rparr>"

definition stopped_report :: finish_report where
  "stopped_report = sample_report\<lparr>fr_outcome := ''cancelled'', fr_stop_reason := ''cancelled''\<rparr>"

lemma restart_loses_card:
  "case restart_lane post_pu (\<lambda>_. ''8'') 1 12 ''k'' running_db of
     (Inl e, _) \<Rightarrow> False
   | (Inr new, db1) \<Rightarrow>
       (case new of None \<Rightarrow> False | Some i \<Rightarrow>
          (case finish 13 1 stopped_report db1 of
             Inl e \<Rightarrow> False
           | Inr (st, ends, db2) \<Rightarrow>
               map_option (\<lambda>t. (tk_status t, tk_kind t, tk_card t, tk_lane t)) (get_task i db2) = Some (Queued, KindCard, Some 40, 12)
             \<and> map_option cd_status (get_card 40 db1) = Some InProgress
             \<and> map_option cd_status (get_card 40 db2) = Some CardCancelled
             \<and> map_option ln_status (get_lane 12 db2) = Some LaneFailed))"
  by code_simp

text \<open>An instruction that already mentions another agent wakes only that one: the lane runs with nothing on it.\<close>

definition failed_db :: db where
  "failed_db = running_db\<lparr>db_cards := [qa_card\<lparr>cd_status := CardCancelled, cd_result := None\<rparr>],
     db_tasks := [sample_task\<lparr>tk_work := Some 20\<rparr>, qa_turn\<lparr>tk_status := Failed\<rparr>],
     db_lanes := [sample_lane\<lparr>ln_work := Some 20\<rparr>,
        sample_lane\<lparr>ln_id := 12, ln_agent := 8, ln_profile := 9, ln_status := LaneFailed, ln_work := Some 20, ln_delegated_from := Some 1\<rparr>]\<rparr>"

lemma restart_strands_lane:
  "case restart_lane post_pu (\<lambda>_. ''6'') 1 12 ''[@D](mention://agent/6) k'' failed_db of
     (Inl e, _) \<Rightarrow> False
   | (Inr new, db1) \<Rightarrow> new = None \<and> map_option ln_status (get_lane 12 db1) = Some LaneRunning
       \<and> map_option cd_status (get_card 40 db1) = Some InProgress
       \<and> filter (\<lambda>t. tk_lane t = 12 \<and> \<not> terminal (tk_status t)) (db_tasks db1) = []"
  by code_simp

end
