(* ===== verification/Room_Access.thy ===== *)
theory Room_Access
  imports Task_Tokens
begin

text \<open>
  Who may do what in a room (\<open>server/internal/rooms/authz.go\<close>, \<open>rooms.go\<close>), which commands an agent's role
  allows (\<open>internal/roles/roles.go\<close>) and the permission to read another room (\<open>rooms/perm.go\<close>), with the
  rows these decisions are made from.
\<close>

section \<open>The room's table of permissions\<close>

datatype room_action =
    ActView | ActPost | ActInvite | ActConfigure | ActLink | ActBlock | ActArchive | ActDelete | ActTransferOwner
  | ActSetDeputy | ActSummarize | ActLeave | ActMarkRead | ActSubscribe | ActOpenWork | ActProposals

text \<open>A caller outside the workspace has the empty workspace role, outside the room no room role.\<close>

record standing =
  sd_workspace :: string
  sd_room :: "room_role option"
  sd_visibility :: string
  sd_archived :: bool

definition vis_workspace :: string where "vis_workspace = ''workspace''"
definition vis_invited :: string where "vis_invited = ''invited''"

definition ws_admin :: "standing \<Rightarrow> bool" where
  "ws_admin f \<longleftrightarrow> sd_workspace f = ''owner'' \<or> sd_workspace f = ''admin''"

definition steward :: "standing \<Rightarrow> bool" where
  "steward f \<longleftrightarrow> sd_room f = Some RoleOwner \<or> sd_room f = Some RoleDeputy \<or> ws_admin f"

definition head_of_room :: "standing \<Rightarrow> bool" where
  "head_of_room f \<longleftrightarrow> sd_room f = Some RoleOwner \<or> ws_admin f"

definition may_view :: "standing \<Rightarrow> bool" where
  "may_view f \<longleftrightarrow> sd_room f \<noteq> None \<or> ws_admin f \<or> sd_visibility f = vis_workspace"

definition may_post :: "standing \<Rightarrow> bool" where
  "may_post f \<longleftrightarrow> sd_room f \<noteq> None \<or> sd_visibility f = vis_workspace"

fun decide_row :: "room_action \<Rightarrow> standing \<Rightarrow> bool" where
  "decide_row ActView f = True"
| "decide_row ActPost f = (may_post f \<and> \<not> sd_archived f)"
| "decide_row ActSummarize f = ((may_post f \<or> ws_admin f) \<and> \<not> sd_archived f)"
| "decide_row ActInvite f = (steward f \<and> \<not> sd_archived f)"
| "decide_row ActLink f = (steward f \<and> \<not> sd_archived f)"
| "decide_row ActBlock f = (steward f \<and> \<not> sd_archived f)"
| "decide_row ActConfigure f = steward f"
| "decide_row ActArchive f = steward f"
| "decide_row ActDelete f = head_of_room f"
| "decide_row ActTransferOwner f = head_of_room f"
| "decide_row ActSetDeputy f = head_of_room f"
| "decide_row ActLeave f = (sd_room f \<noteq> None)"
| "decide_row ActMarkRead f = (sd_room f \<noteq> None)"
| "decide_row ActSubscribe f = (sd_room f \<noteq> None)"
| "decide_row ActProposals f = (sd_room f \<noteq> None)"
| "decide_row ActOpenWork f = (sd_room f \<noteq> None \<and> \<not> sd_archived f)"

definition decide_room :: "room_action \<Rightarrow> standing \<Rightarrow> bool" where
  "decide_room a f \<longleftrightarrow> sd_workspace f \<noteq> [] \<and> may_view f \<and> decide_row a f"

definition capabilities :: "standing \<Rightarrow> string list" where
  "capabilities f = map fst (filter (\<lambda>(_, a). decide_room a f)
     [(''post'', ActPost), (''invite'', ActInvite), (''configure'', ActConfigure), (''link'', ActLink), (''block'', ActBlock),
      (''archive'', ActArchive), (''delete'', ActDelete), (''transfer_owner'', ActTransferOwner), (''summarize'', ActSummarize)])"

fun deny_code :: "room_action \<Rightarrow> string" where
  "deny_code a =
     (if a \<in> {ActPost, ActSummarize, ActOpenWork, ActProposals, ActLeave, ActMarkRead, ActSubscribe} then ''not_participant''
      else if a \<in> {ActDelete, ActTransferOwner, ActSetDeputy} then ''room_owner_required''
      else if a = ActBlock then ''not_room_manager'' else ''room_steward_required'')"

text \<open>A room the caller cannot see is answered like one that does not exist.\<close>

definition deny :: "room_action \<Rightarrow> standing \<Rightarrow> db_error" where
  "deny a f =
     (if sd_workspace f = [] \<or> \<not> decide_room ActView f then ErrNotFound
      else if sd_archived f \<and> decide_room a (f\<lparr>sd_archived := False\<rparr>) then ErrConflict ''room_archived''
      else ErrForbidden (deny_code a))"

definition audit_viewed :: "standing \<Rightarrow> bool" where
  "audit_viewed f \<longleftrightarrow> sd_room f = None \<and> sd_visibility f = vis_invited \<and> ws_admin f"

section \<open>The caller's two roles\<close>

record access =
  ax_standing :: standing
  ax_room :: uuid
  ax_workspace :: uuid
  ax_user :: uuid
  ax_participant :: uuid
  ax_owner :: uuid
  ax_name :: string

definition find_room :: "uuid \<Rightarrow> db \<Rightarrow> room_row option" where
  "find_room room db = tbl_get rm_id (db_rooms db) room"

definition member_of :: "uuid \<Rightarrow> uuid \<Rightarrow> db \<Rightarrow> member_row option" where
  "member_of ws user db = find (\<lambda>m. mb_workspace m = ws \<and> mb_user m = user) (db_members db)"

text \<open>The one row of a person in a room, and the same when the person is still there.\<close>

definition seat_of :: "uuid \<Rightarrow> uuid \<Rightarrow> db \<Rightarrow> participant_row option" where
  "seat_of room user db = find (\<lambda>p. pr_room p = room \<and> pr_user p = Some user) (db_participants db)"

definition live_seat :: "uuid \<Rightarrow> uuid \<Rightarrow> db \<Rightarrow> participant_row option" where
  "live_seat room user db = find (\<lambda>p. pr_room p = room \<and> pr_user p = Some user \<and> pr_left p = None) (db_participants db)"

definition load_access :: "uuid \<Rightarrow> uuid \<Rightarrow> db \<Rightarrow> db_error + access" where
  "load_access room user db =
     (case find_room room db of
        None \<Rightarrow> Inl ErrNotFound
      | Some r \<Rightarrow> Inr
          \<lparr>ax_standing = \<lparr>sd_workspace = (case member_of (rm_workspace r) user db of None \<Rightarrow> [] | Some m \<Rightarrow> mb_role m),
             sd_room = map_option pr_role (live_seat room user db), sd_visibility = rm_visibility r, sd_archived = \<not> rm_active r\<rparr>,
           ax_room = room, ax_workspace = rm_workspace r, ax_user = user,
           ax_participant = (case live_seat room user db of None \<Rightarrow> uuid_nil | Some p \<Rightarrow> pr_id p),
           ax_owner = rm_owner r, ax_name = rm_name r\<rparr>)"

definition require :: "uuid \<Rightarrow> uuid \<Rightarrow> room_action \<Rightarrow> db \<Rightarrow> db_error + access" where
  "require room user act db =
     bindE (load_access room user db) (\<lambda>a.
     if \<not> decide_room act (ax_standing a) then Inl (deny act (ax_standing a)) else Inr a)"

section \<open>The commands of a role\<close>

definition all_commands :: "string list" where
  "all_commands =
     [''room_get'', ''room_messages'', ''artifact_get'', ''message_post'', ''status_set'', ''decision_record'',
      ''card_delegate'', ''artifact_submit'', ''artifact_endorse'', ''review_approve'', ''review_reject'', ''hitl_ask'',
      ''hitl_approve_request'', ''hitl_request_info'', ''room_list'', ''room_read'', ''work_propose'', ''card_report'',
      ''card_accept'', ''card_revise'', ''card_get'', ''card_list'', ''memory_note'', ''memory_supersede'', ''memory_retire'',
      ''memory_get'']"

definition denied_commands :: "string \<Rightarrow> string list" where
  "denied_commands role =
     (if role = ''researcher'' \<or> role = ''writer'' \<or> role = ''engineer''
      then [''card_delegate'', ''card_accept'', ''card_revise'', ''review_approve'', ''review_reject'', ''hitl_approve_request'',
            ''work_propose'']
      else if role = ''reviewer''
      then [''card_delegate'', ''card_accept'', ''card_revise'', ''artifact_submit'', ''artifact_endorse'',
            ''hitl_approve_request'', ''work_propose'']
      else [])"

definition allows :: "string \<Rightarrow> string \<Rightarrow> bool" where
  "allows role cmd \<longleftrightarrow> \<not> List.member (denied_commands role) cmd"

definition allowed_commands :: "string \<Rightarrow> string list" where
  "allowed_commands role = filter (allows role) all_commands"

definition allows_for :: "string \<Rightarrow> task_kind \<Rightarrow> string \<Rightarrow> bool" where
  "allows_for role kind cmd \<longleftrightarrow> allows role cmd \<and> (kind \<noteq> KindQuestion \<or> in_question_table cmd)"

definition allowed_for :: "string \<Rightarrow> task_kind \<Rightarrow> string list" where
  "allowed_for role kind = filter (allows_for role kind) (allowed_commands role)"

definition cli_name :: "string \<Rightarrow> string" where
  "cli_name cmd =
     (if cmd = ''hitl_approve_request'' then ''hitl approve-request''
      else if cmd = ''hitl_request_info'' then ''hitl request-info''
      else map (\<lambda>c. if c = CHR ''_'' then CHR '' '' else c) cmd)"

section \<open>Reading another room\<close>

datatype membership = NotMember | InRoom | LeftRoom

record read_facts =
  fa_originator :: bool
  fa_membership :: membership
  fa_agent :: bool
  fa_linked :: bool

record read_verdict =
  ve_allowed :: bool
  ve_reason :: string
  ve_via_link :: bool
  ve_reveal :: bool

definition refused :: "string \<Rightarrow> bool \<Rightarrow> read_verdict" where
  "refused reason reveal = \<lparr>ve_allowed = False, ve_reason = reason, ve_via_link = False, ve_reveal = reveal\<rparr>"

definition judge_read :: "read_facts \<Rightarrow> read_verdict" where
  "judge_read f =
     (if \<not> fa_originator f then refused ''no_originator'' False
      else let agent_ok = fa_agent f \<or> fa_linked f
           in case fa_membership f of
                InRoom \<Rightarrow>
                  if agent_ok then \<lparr>ve_allowed = True, ve_reason = [], ve_via_link = \<not> fa_agent f, ve_reveal = False\<rparr>
                  else refused ''agent_not_allowed'' False
              | LeftRoom \<Rightarrow>
                  if agent_ok then refused ''originator_left'' True else refused ''originator_not_participant'' False
              | NotMember \<Rightarrow> refused ''originator_not_participant'' False)"

section \<open>What the tables promise\<close>

lemma decide_needs_view: "decide_room a f \<Longrightarrow> decide_room ActView f"
  by (simp add: decide_room_def)

text \<open>An archived room opens nothing that was closed, and closes exactly the actions that make new activity.\<close>

lemma archive_closes:
  "decide_room a (f\<lparr>sd_archived := True\<rparr>) \<longleftrightarrow> decide_room a (f\<lparr>sd_archived := False\<rparr>)
     \<and> a \<notin> {ActPost, ActSummarize, ActInvite, ActLink, ActBlock, ActOpenWork}"
  by (cases a) (auto simp: decide_room_def may_view_def may_post_def steward_def head_of_room_def ws_admin_def)

text \<open>Every seat has the rights of the lower one.\<close>

lemma seats_ordered:
  "decide_room a (f\<lparr>sd_room := None\<rparr>) \<Longrightarrow> decide_room a (f\<lparr>sd_room := Some RoleMember\<rparr>)"
  "decide_room a (f\<lparr>sd_room := Some RoleMember\<rparr>) \<Longrightarrow> decide_room a (f\<lparr>sd_room := Some RoleDeputy\<rparr>)"
  "decide_room a (f\<lparr>sd_room := Some RoleDeputy\<rparr>) \<Longrightarrow> decide_room a (f\<lparr>sd_room := Some RoleOwner\<rparr>)"
  by (cases a; simp add: decide_room_def may_view_def may_post_def steward_def head_of_room_def ws_admin_def)+

lemma deny_not_found: "deny a f = ErrNotFound \<longleftrightarrow> \<not> decide_room ActView f"
  by (auto simp: deny_def decide_room_def)

lemma judge_allows: "ve_allowed (judge_read f) \<longleftrightarrow> fa_originator f \<and> fa_membership f = InRoom \<and> (fa_agent f \<or> fa_linked f)"
  by (simp add: judge_read_def refused_def Let_def split: membership.split)

lemma judge_reveals: "ve_reveal (judge_read f) \<Longrightarrow> fa_originator f \<and> fa_membership f = LeftRoom \<and> (fa_agent f \<or> fa_linked f)"
  by (simp add: judge_read_def refused_def Let_def split: membership.splits if_splits)

lemma find_room_Some: "find_room room db = Some r \<Longrightarrow> r \<in> set (db_rooms db) \<and> rm_id r = room"
  by (auto simp: find_room_def dest: tbl_get_Some_in tbl_get_Some_key)

text \<open>
  C21 A hidden room is unknown: whatever a person outside an invited room asks of it, the answer is the one
  for a room that does not exist, unless the person runs the workspace.
\<close>

theorem hidden_room_unknown:
  assumes "find_room room db = Some r" and "rm_visibility r = vis_invited" and "live_seat room user db = None"
    and "list_all (\<lambda>m. mb_workspace m = rm_workspace r \<and> mb_user m = user \<longrightarrow> mb_role m = ''member'') (db_members db)"
  shows "require room user act db = require room user act (db\<lparr>db_rooms := []\<rparr>)"
proof -
  have "mb_role m = ''member''" if "member_of (rm_workspace r) user db = Some m" for m
    using that assms(4) by (auto simp: member_of_def list_all_iff find_Some_iff)
  then have "require room user act db = Inl ErrNotFound"
    using assms(1-3)
    by (auto simp: require_def load_access_def decide_room_def deny_def may_view_def ws_admin_def vis_workspace_def
        vis_invited_def split: option.split)
  then show ?thesis by (simp add: require_def load_access_def find_room_def)
qed

text \<open>A workspace of four with one invited room.\<close>

definition house_room :: room_row where
  "house_room = \<lparr>rm_id = 2, rm_workspace = 1, rm_name = ''quiet'', rm_description = [], rm_visibility = ''invited'',
     rm_active = True, rm_blocked = None, rm_pending = None, rm_isolation = ''none'', rm_repo = [], rm_owner = 11,
     rm_deputy = Some 12, rm_runtime = None, rm_max_lanes = None, rm_budget = None, rm_legacy_work = None,
     rm_rebind_prompt = None, rm_updated_at = 5\<rparr>"

definition house_seat :: "uuid \<Rightarrow> uuid \<Rightarrow> room_role \<Rightarrow> participant_row" where
  "house_seat k user role = \<lparr>pr_id = k, pr_room = 2, pr_agent = None, pr_profile = None, pr_user = Some user,
     pr_joined = 5, pr_left = None, pr_role = role\<rparr>"

definition house_db :: db where
  "house_db = empty_db\<lparr>db_rooms := [house_room], db_participants := [house_seat 3 11 RoleOwner, house_seat 4 12 RoleDeputy],
     db_members := [\<lparr>mb_workspace = 1, mb_user = 10, mb_role = ''owner''\<rparr>, \<lparr>mb_workspace = 1, mb_user = 11, mb_role = ''owner''\<rparr>,
       \<lparr>mb_workspace = 1, mb_user = 12, mb_role = ''member''\<rparr>, \<lparr>mb_workspace = 1, mb_user = 13, mb_role = ''member''\<rparr>],
     db_clock := 20, db_now := 20, db_next := 20\<rparr>"

lemma hidden_room_unknown_witness:
  "require 2 13 ActPost house_db = require 2 13 ActPost (house_db\<lparr>db_rooms := []\<rparr>)"
  by (rule hidden_room_unknown [where r = house_room])
    (simp_all add: house_db_def house_room_def house_seat_def empty_db_def find_room_def tbl_get_def live_seat_def vis_invited_def)

end
