(* ===== verification/Room_Seats.thy ===== *)
theory Room_Seats
  imports Room_Access Lane_Follow Event_Feed
begin

text \<open>
  The people of a room and its two seats: \<open>server/internal/rooms/seats.go\<close> with the handlers that write
  \<open>room_participant\<close> rows of people (\<open>httpapi/handlers_rooms.go\<close>, \<open>handlers_room_participants.go\<close>) and the
  workspace's members (\<open>auth/members.go\<close>). A member is named by its user, unique in a workspace. The
  sentences of system messages, the payloads of these activity lines, inbox cards and frames are left out.
\<close>

definition log_activity ::
    "uuid \<Rightarrow> uuid option \<Rightarrow> uuid option \<Rightarrow> string \<Rightarrow> uuid option \<Rightarrow> time \<Rightarrow> db \<Rightarrow> db" where
  "log_activity ws room actor action object now db =
     db\<lparr>db_activity := db_activity db @ [\<lparr>ac_workspace = ws, ac_room = room, ac_actor = actor, ac_action = action,
        ac_object = object, ac_payload = [], ac_at = now\<rparr>]\<rparr>"

definition announce :: "uuid \<Rightarrow> time \<Rightarrow> db \<Rightarrow> db" where
  "announce room now db = snd (system_post room now db)"

section \<open>The two seats\<close>

definition seat_at :: "uuid \<Rightarrow> uuid \<Rightarrow> participant_row \<Rightarrow> bool" where
  "seat_at room user p \<longleftrightarrow> pr_room p = room \<and> pr_user p = Some user"

definition write_seats :: "(participant_row \<Rightarrow> bool) \<Rightarrow> (participant_row \<Rightarrow> participant_row) \<Rightarrow> db \<Rightarrow> db" where
  "write_seats p f db = db\<lparr>db_participants := tbl_upd p f (db_participants db)\<rparr>"

definition write_rooms :: "(room_row \<Rightarrow> bool) \<Rightarrow> (room_row \<Rightarrow> room_row) \<Rightarrow> db \<Rightarrow> db" where
  "write_rooms p f db = db\<lparr>db_rooms := tbl_upd p f (db_rooms db)\<rparr>"

definition write_works :: "(work_row \<Rightarrow> bool) \<Rightarrow> (work_row \<Rightarrow> work_row) \<Rightarrow> db \<Rightarrow> db" where
  "write_works p f db = db\<lparr>db_works := tbl_upd p f (db_works db)\<rparr>"

definition new_seat :: "uuid \<Rightarrow> uuid \<Rightarrow> room_role \<Rightarrow> time \<Rightarrow> db \<Rightarrow> db" where
  "new_seat room user role now db =
     db\<lparr>db_participants := db_participants db @ [\<lparr>pr_id = db_next db, pr_room = room, pr_agent = None, pr_profile = None,
          pr_user = Some user, pr_joined = now, pr_left = None, pr_role = role\<rparr>],
        db_next := db_next db + 1\<rparr>"

definition take_seat :: "room_role \<Rightarrow> time \<Rightarrow> participant_row \<Rightarrow> participant_row" where
  "take_seat role now p =
     p\<lparr>pr_role := role, pr_joined := (if pr_left p = None then pr_joined p else now), pr_left := None\<rparr>"

definition upsert_role :: "uuid \<Rightarrow> uuid \<Rightarrow> room_role \<Rightarrow> time \<Rightarrow> db \<Rightarrow> db" where
  "upsert_role room user role now db =
     (if list_ex (seat_at room user) (db_participants db)
      then write_seats (seat_at room user) (take_seat role now) db else new_seat room user role now db)"

definition demote :: "uuid \<Rightarrow> uuid \<Rightarrow> room_role \<Rightarrow> db \<Rightarrow> db" where
  "demote room user role = write_seats (\<lambda>p. seat_at room user p \<and> pr_role p = role) (\<lambda>p. p\<lparr>pr_role := RoleMember\<rparr>)"

definition hand_room :: "uuid \<Rightarrow> time \<Rightarrow> room_row \<Rightarrow> room_row" where
  "hand_room to now r =
     r\<lparr>rm_owner := to, rm_deputy := (if rm_deputy r = Some to then None else rm_deputy r), rm_updated_at := now\<rparr>"

definition set_owner :: "uuid \<Rightarrow> uuid \<Rightarrow> uuid \<Rightarrow> time \<Rightarrow> db \<Rightarrow> db" where
  "set_owner room from to now db =
     upsert_role room to RoleOwner now
       (demote room from RoleOwner (write_rooms (\<lambda>r. rm_id r = room) (hand_room to now) db))"

definition set_deputy :: "uuid \<Rightarrow> uuid option \<Rightarrow> uuid option \<Rightarrow> time \<Rightarrow> db \<Rightarrow> db" where
  "set_deputy room from to now db =
     (let db = write_rooms (\<lambda>r. rm_id r = room) (\<lambda>r. r\<lparr>rm_deputy := to, rm_updated_at := now\<rparr>) db;
          db = (case from of None \<Rightarrow> db | Some f \<Rightarrow> demote room f RoleDeputy db)
      in case to of None \<Rightarrow> db | Some t \<Rightarrow> upsert_role room t RoleDeputy now db)"

section \<open>Handing the seats over\<close>

definition transfer_owner :: "uuid \<Rightarrow> uuid \<Rightarrow> uuid \<Rightarrow> db \<Rightarrow> db_error + db" where
  "transfer_owner user room target db =
     bindE (require room user ActTransferOwner db) (\<lambda>a.
     let now = db_clock db in
     case find_room room db of
       None \<Rightarrow> Inl DbMissingRow
     | Some r \<Rightarrow>
         if rm_owner r = target then Inr db
         else if live_seat room target db = None then Inl (ErrValidation ''not_participant'')
         else Inr (log_activity (ax_workspace a) (Some room) (Some user) ''room.owner_transferred'' (Some target) now
                (announce room now (set_owner room (rm_owner r) target now db))))"

definition appoint_deputy :: "uuid \<Rightarrow> uuid \<Rightarrow> uuid option \<Rightarrow> db \<Rightarrow> db_error + db" where
  "appoint_deputy user room target db =
     bindE (require room user ActSetDeputy db) (\<lambda>a.
     let now = db_clock db in
     case find_room room db of
       None \<Rightarrow> Inl DbMissingRow
     | Some r \<Rightarrow>
         if rm_deputy r = target then Inr db
         else if target = Some (rm_owner r) then Inl (ErrValidation ''is_owner'')
         else if (case target of None \<Rightarrow> False | Some t \<Rightarrow> live_seat room t db = None)
         then Inl (ErrValidation ''not_participant'')
         else Inr (log_activity (ax_workspace a) (Some room) (Some user) ''room.deputy_changed'' (Some room) now
                (announce room now (set_deputy room (rm_deputy r) target now db))))"

section \<open>Coming and going\<close>

text \<open>A new room with its owner; the workspace's defaults are the caller's \<open>visibility\<close>, \<open>isolation\<close>, \<open>lanes\<close> and \<open>budget\<close>.\<close>

record room_defaults =
  rf_visibility :: string
  rf_isolation :: string
  rf_lanes :: "int option"
  rf_budget :: "rat option"

definition room_check :: "string \<Rightarrow> string \<Rightarrow> string list" where
  "room_check name desc =
     (if name = [] \<or> rune_count name > 200 then [''name''] else []) @ (if rune_count desc > 500 then [''description''] else [])"

definition new_room :: "uuid \<Rightarrow> uuid \<Rightarrow> string \<Rightarrow> string \<Rightarrow> room_defaults \<Rightarrow> time \<Rightarrow> uuid \<Rightarrow> room_row" where
  "new_room user ws name desc d now i =
     \<lparr>rm_id = i, rm_workspace = ws, rm_name = name, rm_description = desc, rm_visibility = rf_visibility d, rm_active = True,
      rm_blocked = None, rm_pending = None, rm_isolation = (if rf_isolation d = ''worktree'' then ''worktree'' else ''none''),
      rm_repo = [], rm_owner = user, rm_deputy = None, rm_runtime = None, rm_max_lanes = rf_lanes d, rm_budget = rf_budget d,
      rm_legacy_work = None, rm_rebind_prompt = None, rm_updated_at = now\<rparr>"

definition create_room :: "uuid \<Rightarrow> uuid \<Rightarrow> string \<Rightarrow> string \<Rightarrow> room_defaults \<Rightarrow> db \<Rightarrow> db_error + db" where
  "create_room user ws name desc d db =
     (if member_of ws user db = None then Inl ErrNotFound
      else if room_check (trim_space name) (trim_space desc) \<noteq> [] then Inl (ErrValidation ''name'')
      else Inr (new_seat (db_next db) user RoleOwner (db_clock db)
             (db\<lparr>db_rooms := db_rooms db @ [new_room user ws (trim_space name) (trim_space desc) d (db_clock db) (db_next db)],
                 db_next := db_next db + 1\<rparr>)))"

text \<open>\<open>joinRow\<close> for a person: a new row, or the one the person left behind.\<close>

definition rejoin :: "time \<Rightarrow> participant_row \<Rightarrow> participant_row" where
  "rejoin now p = p\<lparr>pr_left := None, pr_joined := now, pr_role := RoleMember\<rparr>"

definition join_person :: "uuid \<Rightarrow> uuid \<Rightarrow> time \<Rightarrow> db \<Rightarrow> db option" where
  "join_person room user now db =
     (case seat_of room user db of
        None \<Rightarrow> Some (new_seat room user RoleMember now db)
      | Some p \<Rightarrow> if pr_left p = None then None
                 else Some (write_seats (\<lambda>p. seat_at room user p \<and> pr_left p \<noteq> None) (rejoin now) db))"

definition invite_person :: "uuid \<Rightarrow> uuid \<Rightarrow> uuid \<Rightarrow> db \<Rightarrow> db_error + db" where
  "invite_person user room target db =
     bindE (require room user ActInvite db) (\<lambda>a.
     let now = db_clock db in
     if member_of (ax_workspace a) target db = None then Inl (ErrValidation ''not_member'')
     else case join_person room target now db of
            None \<Rightarrow> Inl (ErrConflict ''already_participant'')
          | Some db \<Rightarrow> Inr (log_activity (ax_workspace a) (Some room) (Some user) ''participant.invited'' (Some target) now
                             (announce room now db)))"

text \<open>\<open>addRoomMember\<close>: a Director becomes a member of the room, unless still there.\<close>

definition add_room_member :: "uuid \<Rightarrow> uuid \<Rightarrow> time \<Rightarrow> db \<Rightarrow> db" where
  "add_room_member room user now db =
     (case seat_of room user db of
        None \<Rightarrow> new_seat room user RoleMember now db
      | Some _ \<Rightarrow> write_seats (\<lambda>p. seat_at room user p \<and> pr_left p \<noteq> None) (\<lambda>p. p\<lparr>pr_left := None, pr_joined := now\<rparr>) db)"

definition mission_open :: "work_row \<Rightarrow> bool" where
  "mission_open w \<longleftrightarrow> wk_status w = WkDraft \<or> wk_status w = WkActive \<or> wk_status w = WkPaused \<or> wk_status w = WkCompleting"

definition directs_here :: "uuid \<Rightarrow> uuid \<Rightarrow> db \<Rightarrow> bool" where
  "directs_here room user db =
     list_ex (\<lambda>w. wk_room w = room \<and> wk_director w = user \<and> mission_open w) (db_works db)"

definition leave_row :: "time \<Rightarrow> participant_row \<Rightarrow> participant_row" where
  "leave_row now p = p\<lparr>pr_left := Some now, pr_role := RoleMember\<rparr>"

text \<open>What stops a person from leaving the room; an agent's row is only closed.\<close>

definition leave_refused :: "uuid \<Rightarrow> participant_row \<Rightarrow> db \<Rightarrow> db_error option" where
  "leave_refused room p db =
     (case pr_user p of
        None \<Rightarrow> None
      | Some u \<Rightarrow> if pr_role p = RoleOwner then Some (ErrConflict ''is_owner'')
                 else if directs_here room u db then Some (ErrConflict ''is_director'') else None)"

definition close_row :: "uuid \<Rightarrow> participant_row \<Rightarrow> time \<Rightarrow> db \<Rightarrow> db" where
  "close_row room p now db =
     (let db = (if pr_user p \<noteq> None \<and> pr_role p = RoleDeputy then set_deputy room (pr_user p) None now db else db)
      in write_seats (\<lambda>q. pr_id q = pr_id p) (leave_row now) db)"

definition remove_participant :: "uuid \<Rightarrow> uuid \<Rightarrow> uuid \<Rightarrow> db \<Rightarrow> db_error + db" where
  "remove_participant user room pid db =
     bindE (load_access room user db) (\<lambda>a.
     let now = db_clock db; self = (ax_participant a = pid); act = (if self then ActLeave else ActInvite) in
     if \<not> decide_room act (ax_standing a) then Inl (deny act (ax_standing a))
     else case find (\<lambda>p. pr_room p = room \<and> pr_id p = pid) (db_participants db) of
            None \<Rightarrow> Inl ErrNotFound
          | Some p \<Rightarrow>
              if pr_left p \<noteq> None then Inl ErrNotFound
              else (case leave_refused room p db of
                      Some e \<Rightarrow> Inl e
                    | None \<Rightarrow> Inr (log_activity (ax_workspace a) (Some room) (Some user)
                        (if self then ''participant.left'' else ''participant.removed'')
                        (if pr_agent p = None then pr_user p else pr_agent p) now
                        (announce room now (close_row room p now db)))))"

text \<open>\<open>setArchived\<close>.\<close>

definition active_tasks :: "uuid \<Rightarrow> db \<Rightarrow> nat" where
  "active_tasks room db = length (filter (\<lambda>t. tk_room t = room \<and> \<not> terminal (tk_status t)) (db_tasks db))"

definition set_archived :: "uuid \<Rightarrow> uuid \<Rightarrow> bool \<Rightarrow> db \<Rightarrow> db_error + db" where
  "set_archived user room archive db =
     bindE (require room user ActArchive db) (\<lambda>a.
     let now = db_clock db in
     case find_room room db of
       None \<Rightarrow> Inl DbMissingRow
     | Some r \<Rightarrow>
         if rm_active r = (\<not> archive) then Inr db
         else if archive \<and> active_tasks room db > 0 then Inl (ErrConflict ''tasks_active'')
         else Inr (log_activity (ax_workspace a) (Some room) (Some user)
                (if archive then ''room.archived'' else ''room.unarchived'') (Some room) now
                (announce room now (write_rooms (\<lambda>r. rm_id r = room) (\<lambda>r. r\<lparr>rm_active := \<not> archive, rm_updated_at := now\<rparr>) db))))"

section \<open>A person leaves the workspace\<close>

definition successor :: "uuid list \<Rightarrow> uuid \<Rightarrow> uuid option" where
  "successor owners leaving = find (\<lambda>o'. o' \<noteq> leaving) owners"

definition room_successor :: "uuid option \<Rightarrow> uuid list \<Rightarrow> uuid \<Rightarrow> uuid option" where
  "room_successor deputy owners leaving =
     (case deputy of Some d \<Rightarrow> if d \<noteq> leaving then Some d else successor owners leaving | None \<Rightarrow> successor owners leaving)"

definition director_successor :: "uuid \<Rightarrow> uuid \<Rightarrow> uuid \<Rightarrow> uuid" where
  "director_successor room_owner leaving succ = (if room_owner = leaving then succ else room_owner)"

definition ws_owners :: "uuid \<Rightarrow> db \<Rightarrow> uuid list" where
  "ws_owners ws db = map mb_user (filter (\<lambda>m. mb_workspace m = ws \<and> mb_role m = ''owner'') (db_members db))"

text \<open>The rooms that change hands and the missions that get a new Director, as read before anything is written.\<close>

definition owned_rooms :: "uuid \<Rightarrow> uuid \<Rightarrow> db \<Rightarrow> (uuid \<times> uuid option) list" where
  "owned_rooms ws user db =
     map (\<lambda>r. (rm_id r, room_successor (rm_deputy r) (ws_owners ws db) user))
       (filter (\<lambda>r. rm_workspace r = ws \<and> rm_owner r = user) (db_rooms db))"

definition directed_missions :: "uuid \<Rightarrow> uuid \<Rightarrow> db \<Rightarrow> (uuid \<times> uuid \<times> uuid) list" where
  "directed_missions ws user db =
     concat (map (\<lambda>w. case find_room (wk_room w) db of
         None \<Rightarrow> []
       | Some r \<Rightarrow> if rm_workspace r = ws \<and> wk_director w = user \<and> mission_open w then [(wk_id w, wk_room w, rm_owner r)] else [])
       (db_works db))"

definition in_workspace :: "uuid \<Rightarrow> uuid \<Rightarrow> db \<Rightarrow> bool" where
  "in_workspace ws room db = list_ex (\<lambda>r. rm_id r = room \<and> rm_workspace r = ws) (db_rooms db)"

fun hand_rooms :: "uuid \<Rightarrow> time \<Rightarrow> (uuid \<times> uuid option) list \<Rightarrow> db \<Rightarrow> db" where
  "hand_rooms user now [] db = db"
| "hand_rooms user now ((room, Some to) # rest) db = hand_rooms user now rest (set_owner room user to now db)"
| "hand_rooms user now ((room, None) # rest) db = hand_rooms user now rest db"

definition new_director :: "uuid \<Rightarrow> (uuid \<times> uuid option) list \<Rightarrow> uuid \<times> uuid \<times> uuid \<Rightarrow> uuid" where
  "new_director user owned m =
     (case m of (w, room, owner) \<Rightarrow> director_successor owner user (case map_of owned room of Some (Some s) \<Rightarrow> s | _ \<Rightarrow> uuid_nil))"

definition hand_missions :: "uuid \<Rightarrow> time \<Rightarrow> (uuid \<times> uuid option) list \<Rightarrow> (uuid \<times> uuid \<times> uuid) list \<Rightarrow> db \<Rightarrow> db" where
  "hand_missions user now owned ms =
     fold (\<lambda>m. write_works (\<lambda>w. wk_id w = fst m) (\<lambda>w. w\<lparr>wk_director := new_director user owned m, wk_updated_at := now\<rparr>)) ms"

text \<open>The deputy seats are emptied and the person's rows are closed, in every room of the workspace.\<close>

definition empty_seats :: "uuid \<Rightarrow> uuid \<Rightarrow> time \<Rightarrow> db \<Rightarrow> db" where
  "empty_seats ws user now db =
     write_seats (\<lambda>p. pr_user p = Some user \<and> pr_left p = None \<and> in_workspace ws (pr_room p) db) (leave_row now)
       (write_rooms (\<lambda>r. rm_workspace r = ws \<and> rm_deputy r = Some user) (\<lambda>r. r\<lparr>rm_deputy := None, rm_updated_at := now\<rparr>)
         (write_works (\<lambda>w. wk_deputy w = Some user \<and> in_workspace ws (wk_room w) db)
           (\<lambda>w. w\<lparr>wk_deputy := None, wk_updated_at := now\<rparr>) db))"

definition leave_workspace ::
    "uuid \<Rightarrow> uuid \<Rightarrow> time \<Rightarrow> db \<Rightarrow> db_error + ((uuid \<times> uuid option) list \<times> (uuid \<times> uuid \<times> uuid) list) \<times> db" where
  "leave_workspace ws user now db =
     (let owned = owned_rooms ws user db; ms = directed_missions ws user db
      in if list_ex (\<lambda>(_, s). s = None) owned then Inl DbMissingRow
         else Inr ((owned, map (\<lambda>(w, room, owner). (w, room, new_director user owned (w, room, owner))) ms),
                   empty_seats ws user now (hand_missions user now owned ms (hand_rooms user now owned db))))"

definition director_handed_over :: "time \<Rightarrow> uuid \<times> uuid \<times> uuid \<Rightarrow> db \<Rightarrow> db" where
  "director_handed_over now m db =
     (case m of (w, room, to) \<Rightarrow>
        snd (insert_message BySystem ''system'' (Some w) room None now
          (add_room_member room to now
            (write_works (\<lambda>r. wk_id r = w) (\<lambda>r. r\<lparr>wk_director := to, wk_updated_at := now\<rparr>) db))))"

definition room_succeeded :: "uuid \<Rightarrow> time \<Rightarrow> uuid \<times> uuid option \<Rightarrow> db \<Rightarrow> db" where
  "room_succeeded ws now x db =
     log_activity ws (Some (fst x)) None ''room.owner_succeeded'' (snd x) now (announce (fst x) now db)"

definition director_succeeded :: "uuid \<Rightarrow> time \<Rightarrow> uuid \<times> uuid \<times> uuid \<Rightarrow> db \<Rightarrow> db" where
  "director_succeeded ws now m db =
     log_activity ws (Some (fst (snd m))) None ''work.director_succeeded'' (Some (fst m)) now (director_handed_over now m db)"

definition on_member_left :: "uuid \<Rightarrow> uuid \<Rightarrow> time \<Rightarrow> db \<Rightarrow> db_error + db" where
  "on_member_left ws user now db =
     bindE (leave_workspace ws user now db) (\<lambda>((rs, ms), db).
     Inr (fold (director_succeeded ws now) ms (fold (room_succeeded ws now) rs db)))"

section \<open>Members of the workspace\<close>

definition owner_count :: "uuid \<Rightarrow> db \<Rightarrow> nat" where
  "owner_count ws db = length (ws_owners ws db)"

definition plan_role_change :: "string \<Rightarrow> string \<Rightarrow> string \<Rightarrow> nat \<Rightarrow> db_error option" where
  "plan_role_change caller target new_role owners =
     (if (target = ''owner'' \<or> new_role = ''owner'') \<and> caller \<noteq> ''owner'' then Some (ErrForbidden ''owner_only'')
      else if target = ''owner'' \<and> new_role \<noteq> ''owner'' \<and> owners \<le> 1 then Some (ErrConflict ''last_owner'') else None)"

definition plan_removal :: "string \<Rightarrow> string \<Rightarrow> nat \<Rightarrow> db_error option" where
  "plan_removal caller target owners =
     (if target = ''owner'' \<and> caller \<noteq> ''owner'' then Some (ErrForbidden ''owner_only'')
      else if target = ''owner'' \<and> owners \<le> 1 then Some (ErrConflict ''last_owner'') else None)"

text \<open>The caller is an owner or an admin of the workspace.\<close>

definition admin_role :: "uuid \<Rightarrow> uuid \<Rightarrow> db \<Rightarrow> db_error + string" where
  "admin_role ws user db =
     (case member_of ws user db of
        None \<Rightarrow> Inl ErrNotFound
      | Some m \<Rightarrow> if mb_role m = ''owner'' \<or> mb_role m = ''admin'' then Inr (mb_role m) else Inl (ErrForbidden ''admin_only''))"

definition update_member_role :: "uuid \<Rightarrow> uuid \<Rightarrow> uuid \<Rightarrow> string \<Rightarrow> db \<Rightarrow> db_error + db" where
  "update_member_role ws user target role db =
     bindE (admin_role ws user db) (\<lambda>caller.
     case member_of ws target db of
       None \<Rightarrow> Inl ErrNotFound
     | Some m \<Rightarrow>
         (case plan_role_change caller (mb_role m) role (owner_count ws db) of
            Some e \<Rightarrow> Inl e
          | None \<Rightarrow>
              if mb_role m = role then Inr db
              else Inr (log_activity ws None (Some user) ''member.role_changed'' (Some target) (db_clock db)
                     (db\<lparr>db_members := tbl_upd (\<lambda>m. mb_workspace m = ws \<and> mb_user m = target) (\<lambda>m. m\<lparr>mb_role := role\<rparr>)
                        (db_members db)\<rparr>))))"

definition remove_member :: "uuid \<Rightarrow> uuid \<Rightarrow> uuid \<Rightarrow> db \<Rightarrow> db_error + db" where
  "remove_member ws user target db =
     bindE (admin_role ws user db) (\<lambda>caller. let now = db_clock db in
     case member_of ws target db of
       None \<Rightarrow> Inl ErrNotFound
     | Some m \<Rightarrow>
         (case plan_removal caller (mb_role m) (owner_count ws db) of
            Some e \<Rightarrow> Inl e
          | None \<Rightarrow> bindE (on_member_left ws target now db) (\<lambda>db.
              Inr (log_activity ws None (Some user) ''member.removed'' (Some target) now
                (db\<lparr>db_members := filter (\<lambda>m. \<not> (mb_workspace m = ws \<and> mb_user m = target)) (db_members db)\<rparr>)))))"

end
