(* ===== verification/Seat_Facts.thy ===== *)
theory Seat_Facts
  imports Room_Seats
begin

text \<open>
  What the seats of a room promise: the owner and the deputy of the room row are the people whose rows have
  those roles, and nobody else's; a person who left the workspace holds nothing in it; and a workspace
  that has an owner keeps one.
\<close>

section \<open>The row of the room and the rows of its people\<close>

definition holds_role :: "uuid \<Rightarrow> uuid \<Rightarrow> room_role \<Rightarrow> participant_row \<Rightarrow> bool" where
  "holds_role room user role p \<longleftrightarrow> seat_at room user p \<and> pr_role p = role \<and> pr_left p = None"

definition rightful :: "room_row \<Rightarrow> participant_row \<Rightarrow> bool" where
  "rightful r p \<longleftrightarrow>
     (case pr_role p of
        RoleMember \<Rightarrow> True
      | RoleOwner \<Rightarrow> pr_user p = Some (rm_owner r) \<and> pr_left p = None
      | RoleDeputy \<Rightarrow> pr_user p \<noteq> None \<and> pr_user p = rm_deputy r \<and> pr_left p = None)"

definition seated :: "room_row \<Rightarrow> participant_row list \<Rightarrow> bool" where
  "seated r ps \<longleftrightarrow>
     list_ex (holds_role (rm_id r) (rm_owner r) RoleOwner) ps
   \<and> (case rm_deputy r of None \<Rightarrow> True | Some d \<Rightarrow> d \<noteq> rm_owner r \<and> list_ex (holds_role (rm_id r) d RoleDeputy) ps)
   \<and> list_all (\<lambda>p. pr_room p = rm_id r \<longrightarrow> rightful r p) ps"

definition person_key :: "participant_row \<Rightarrow> uuid \<times> uuid option" where
  "person_key p = (pr_room p, pr_user p)"

definition people :: "participant_row list \<Rightarrow> participant_row list" where
  "people ps = filter (\<lambda>p. pr_user p \<noteq> None) ps"

definition rows_fresh :: "db \<Rightarrow> bool" where
  "rows_fresh db \<longleftrightarrow> distinct (map rm_id (db_rooms db)) \<and> distinct (map pr_id (db_participants db))
     \<and> distinct (map person_key (people (db_participants db)))
     \<and> list_all (\<lambda>r. rm_id r < db_next db) (db_rooms db)
     \<and> list_all (\<lambda>p. pr_id p < db_next db \<and> pr_room p < db_next db) (db_participants db)
     \<and> distinct (map (\<lambda>m. (mb_workspace m, mb_user m)) (db_members db))"

definition seats_ok :: "db \<Rightarrow> bool" where
  "seats_ok db \<longleftrightarrow> rows_fresh db \<and> list_all (\<lambda>r. seated r (db_participants db)) (db_rooms db)"

section \<open>One statement at a time\<close>

lemma seated_iff:
  "seated r ps \<longleftrightarrow>
     (\<exists>p\<in>set ps. holds_role (rm_id r) (rm_owner r) RoleOwner p)
   \<and> (\<forall>d. rm_deputy r = Some d \<longrightarrow> d \<noteq> rm_owner r \<and> (\<exists>p\<in>set ps. holds_role (rm_id r) d RoleDeputy p))
   \<and> (\<forall>p\<in>set ps. pr_room p = rm_id r \<longrightarrow> rightful r p)"
  by (auto simp: seated_def list_ex_iff list_all_iff split: option.split)

text \<open>Only the room's own rows count.\<close>

lemma seated_local:
  assumes "filter (\<lambda>p. pr_room p = rm_id r) ps = filter (\<lambda>p. pr_room p = rm_id r) qs"
  shows "seated r ps = seated r qs"
proof -
  have m: "x \<in> set ps \<longleftrightarrow> x \<in> set qs" if "pr_room x = rm_id r" for x
    using arg_cong [OF assms, of set] that by auto
  have e: "(\<exists>p\<in>set ps. holds_role (rm_id r) u ro p) \<longleftrightarrow> (\<exists>p\<in>set qs. holds_role (rm_id r) u ro p)" for u ro
    using m by (auto simp: holds_role_def seat_at_def)
  have "(\<forall>p\<in>set ps. pr_room p = rm_id r \<longrightarrow> rightful r p) \<longleftrightarrow> (\<forall>p\<in>set qs. pr_room p = rm_id r \<longrightarrow> rightful r p)"
    using m by auto
  with e show ?thesis by (simp add: seated_iff)
qed

lemma filter_upd_other:
  assumes "\<And>p. P p \<Longrightarrow> pr_room p \<noteq> k" and "\<And>p. pr_room (f p) = pr_room p"
  shows "filter (\<lambda>p. pr_room p = k) (tbl_upd P f ps) = filter (\<lambda>p. pr_room p = k) ps"
  using assms by (induction ps) (auto simp: tbl_upd_def)

lemma set_upd: "set (tbl_upd P f xs) = (\<lambda>x. if P x then f x else x) ` set xs"
  by (simp add: tbl_upd_def)

lemma mem_upd: "x \<in> set (tbl_upd P f xs) \<longleftrightarrow> (\<exists>y \<in> set xs. P y \<and> x = f y) \<or> (x \<in> set xs \<and> \<not> P x)"
  by (auto simp: tbl_upd_def)

lemma map_upd_same: "(\<And>x. g (f x) = g x) \<Longrightarrow> map g (tbl_upd P f xs) = map g xs"
  by (simp add: tbl_upd_def)

lemma people_upd: "(\<And>p. pr_user (f p) = pr_user p) \<Longrightarrow> people (tbl_upd P f ps) = tbl_upd P f (people ps)"
  by (induction ps) (auto simp: people_def tbl_upd_def)

lemma list_all_upd: "(\<And>x. Q (f x) = Q x) \<Longrightarrow> list_all Q (tbl_upd P f xs) = list_all Q xs"
  by (induction xs) (auto simp: tbl_upd_def)

definition keeps_names :: "(participant_row \<Rightarrow> participant_row) \<Rightarrow> bool" where
  "keeps_names f \<longleftrightarrow> (\<forall>p. pr_id (f p) = pr_id p \<and> pr_room (f p) = pr_room p \<and> pr_user (f p) = pr_user p)"

lemma keeps_names_rows [simp]:
  "keeps_names (take_seat role now)" "keeps_names (rejoin now)" "keeps_names (leave_row now)"
  "keeps_names (\<lambda>p. p\<lparr>pr_role := role\<rparr>)" "keeps_names (\<lambda>p. p\<lparr>pr_left := None, pr_joined := now\<rparr>)"
  by (simp_all add: keeps_names_def take_seat_def rejoin_def leave_row_def)

lemma rows_fresh_seats: "keeps_names f \<Longrightarrow> rows_fresh (write_seats P f db) = rows_fresh db"
  by (simp add: rows_fresh_def write_seats_def keeps_names_def map_upd_same people_upd person_key_def list_all_upd)

lemma rows_fresh_rooms: "(\<And>r. rm_id (f r) = rm_id r) \<Longrightarrow> rows_fresh (write_rooms P f db) = rows_fresh db"
  by (simp add: rows_fresh_def write_rooms_def map_upd_same list_all_upd)

lemma rows_fresh_new_seat:
  assumes "rows_fresh db" and "\<not> list_ex (seat_at room user) (db_participants db)" and "room < db_next db"
  shows "rows_fresh (new_seat room user role now db)"
proof -
  have "(room, Some user) \<notin> person_key ` set (people (db_participants db))"
    using assms(2) by (auto simp: list_ex_iff people_def person_key_def seat_at_def)
  moreover have "db_next db \<notin> pr_id ` set (db_participants db)" using assms(1) by (auto simp: rows_fresh_def list_all_iff)
  ultimately show ?thesis using assms(1,3)
    by (auto simp: rows_fresh_def new_seat_def people_def person_key_def list_all_iff)
qed

text \<open>What else the handlers write leaves rooms, seats and members as they are.\<close>

definition same_seats :: "db \<Rightarrow> db \<Rightarrow> bool" where
  "same_seats db db' \<longleftrightarrow> db_rooms db' = db_rooms db \<and> db_participants db' = db_participants db
     \<and> db_members db' = db_members db \<and> db_works db' = db_works db \<and> db_next db \<le> db_next db'"

lemma same_seats_writes [simp]:
  "same_seats db (log_activity ws rm u act ob now db)" "same_seats db (announce k now db)"
  "same_seats db (snd (insert_message a kind w k src now db))"
  by (simp_all add: same_seats_def log_activity_def announce_def system_post_def insert_message_def)

lemma same_seats_trans: "same_seats x y \<Longrightarrow> same_seats y z \<Longrightarrow> same_seats x z"
  by (auto simp: same_seats_def)

lemma seats_ok_same: "same_seats db db' \<Longrightarrow> seats_ok db \<Longrightarrow> seats_ok db'"
  by (fastforce simp: same_seats_def seats_ok_def rows_fresh_def list_all_iff)

lemma seats_ok_log [simp]: "seats_ok db \<Longrightarrow> seats_ok (log_activity ws rm u act ob now db)"
  by (rule seats_ok_same [OF same_seats_writes(1)])

lemma seats_ok_announce [simp]: "seats_ok db \<Longrightarrow> seats_ok (announce rm now db)"
  by (rule seats_ok_same [OF same_seats_writes(2)])

section \<open>The seats change hands\<close>

lemma live_seat_iff: "live_seat room user db \<noteq> None \<longleftrightarrow> list_ex (\<lambda>p. seat_at room user p \<and> pr_left p = None) (db_participants db)"
  by (auto simp: live_seat_def seat_at_def find_None_iff list_ex_iff)

lemma find_room_unique: "rows_fresh db \<Longrightarrow> r \<in> set (db_rooms db) \<Longrightarrow> find_room (rm_id r) db = Some r"
  by (auto simp: find_room_def tbl_get_def find_Some_iff rows_fresh_def distinct_map in_set_conv_nth inj_on_def
      distinct_conv_nth)

text \<open>The rows that an operation on one room leaves alone.\<close>

definition other_rooms :: "uuid \<Rightarrow> db \<Rightarrow> db \<Rightarrow> bool" where
  "other_rooms room db db' \<longleftrightarrow>
     (\<forall>k. k \<noteq> room \<longrightarrow> filter (\<lambda>p. pr_room p = k) (db_participants db') = filter (\<lambda>p. pr_room p = k) (db_participants db))
   \<and> (\<forall>r. rm_id r \<noteq> room \<longrightarrow> r \<in> set (db_rooms db') \<longleftrightarrow> r \<in> set (db_rooms db))"

lemma other_rooms_trans: "other_rooms k x y \<Longrightarrow> other_rooms k y z \<Longrightarrow> other_rooms k x z"
  by (simp add: other_rooms_def)

lemma other_rooms_refl: "other_rooms k x x"
  by (simp add: other_rooms_def)

lemma other_rooms_seats: "keeps_names f \<Longrightarrow> (\<And>p. P p \<Longrightarrow> pr_room p = room) \<Longrightarrow> other_rooms room db (write_seats P f db)"
  by (auto simp: other_rooms_def write_seats_def keeps_names_def intro!: filter_upd_other)

lemma other_rooms_rooms: "(\<And>r. rm_id (f r) = rm_id r) \<Longrightarrow> other_rooms room db (write_rooms (\<lambda>r. rm_id r = room) f db)"
  by (auto simp: other_rooms_def write_rooms_def set_upd image_iff)

lemma other_rooms_new_seat: "other_rooms room db (new_seat room user role now db)"
  by (simp add: other_rooms_def new_seat_def)

lemma other_rooms_upsert: "other_rooms room db (upsert_role room user role now db)"
  by (auto simp: upsert_role_def seat_at_def intro!: other_rooms_new_seat other_rooms_seats)

lemma other_rooms_demote: "other_rooms room db (demote room user role db)"
  by (auto simp: demote_def seat_at_def intro!: other_rooms_seats)

lemma seats_ok_room:
  assumes "seats_ok db" and "other_rooms room db db'" and "rows_fresh db'"
    and "\<And>r. r \<in> set (db_rooms db') \<Longrightarrow> rm_id r = room \<Longrightarrow> seated r (db_participants db')"
  shows "seats_ok db'"
proof -
  have "seated r (db_participants db')" if "r \<in> set (db_rooms db')" for r
  proof (cases "rm_id r = room")
    case False
    have "r \<in> set (db_rooms db)"
      and "filter (\<lambda>p. pr_room p = rm_id r) (db_participants db') = filter (\<lambda>p. pr_room p = rm_id r) (db_participants db)"
      using False that assms(2) by (simp_all add: other_rooms_def)
    moreover have "seated r (db_participants db') = seated r (db_participants db)" using calculation(2) by (rule seated_local)
    ultimately show ?thesis using assms(1) by (simp add: seats_ok_def list_all_iff)
  qed (use that assms(4) in simp)
  then show ?thesis using assms(3) by (simp add: seats_ok_def list_all_iff)
qed

text \<open>The rows of people after an upsert: the named one has the role and is live, the others are as before.\<close>

lemma take_seat_simps [simp]:
  "pr_role (take_seat role now p) = role" "pr_left (take_seat role now p) = None"
  "seat_at room user (take_seat role now p) = seat_at room user p"
  by (simp_all add: take_seat_def seat_at_def)

lemma upsert_rows:
  "p \<in> set (db_participants (upsert_role room user role now db)) \<Longrightarrow> \<not> seat_at room user p \<Longrightarrow> p \<in> set (db_participants db)"
  "p \<in> set (db_participants db) \<Longrightarrow> \<not> seat_at room user p \<Longrightarrow> p \<in> set (db_participants (upsert_role room user role now db))"
  "p \<in> set (db_participants (upsert_role room user role now db)) \<Longrightarrow> seat_at room user p \<Longrightarrow> holds_role room user role p"
  "\<exists>p \<in> set (db_participants (upsert_role room user role now db)). holds_role room user role p"
proof -
  show "p \<in> set (db_participants (upsert_role room user role now db)) \<Longrightarrow> \<not> seat_at room user p \<Longrightarrow> p \<in> set (db_participants db)"
    by (cases "list_ex (seat_at room user) (db_participants db)")
      (auto simp: upsert_role_def write_seats_def mem_upd, auto simp: new_seat_def seat_at_def)
  show "p \<in> set (db_participants db) \<Longrightarrow> \<not> seat_at room user p \<Longrightarrow> p \<in> set (db_participants (upsert_role room user role now db))"
    by (cases "list_ex (seat_at room user) (db_participants db)") (simp_all add: upsert_role_def write_seats_def mem_upd new_seat_def)
  show "p \<in> set (db_participants (upsert_role room user role now db)) \<Longrightarrow> seat_at room user p \<Longrightarrow> holds_role room user role p"
    by (cases "list_ex (seat_at room user) (db_participants db)")
      (auto simp: upsert_role_def write_seats_def mem_upd new_seat_def holds_role_def list_ex_iff)
  show "\<exists>p \<in> set (db_participants (upsert_role room user role now db)). holds_role room user role p"
  proof (cases "list_ex (seat_at room user) (db_participants db)")
    case True
    then obtain q where "q \<in> set (db_participants db)" "seat_at room user q" by (auto simp: list_ex_iff)
    with True show ?thesis
      by (intro bexI [of _ "take_seat role now q"]) (auto simp: upsert_role_def write_seats_def mem_upd holds_role_def)
  next
    case False
    then show ?thesis by (simp add: upsert_role_def new_seat_def holds_role_def seat_at_def)
  qed
qed

lemma rows_fresh_upsert: "rows_fresh db \<Longrightarrow> room < db_next db \<Longrightarrow> rows_fresh (upsert_role room user role now db)"
  by (simp add: upsert_role_def rows_fresh_seats rows_fresh_new_seat)

lemma demote_rows:
  "p \<in> set (db_participants db) \<Longrightarrow> \<not> (seat_at room user p \<and> pr_role p = role) \<Longrightarrow> p \<in> set (db_participants (demote room user role db))"
  "p \<in> set (db_participants (demote room user role db)) \<Longrightarrow> pr_role p \<noteq> RoleMember \<Longrightarrow>
     p \<in> set (db_participants db) \<and> \<not> (seat_at room user p \<and> pr_role p = role)"
  unfolding demote_def write_seats_def by (auto simp: mem_upd)

lemma room_there: "seats_ok db \<Longrightarrow> r \<in> set (db_rooms db) \<Longrightarrow> rm_id r < db_next db"
  by (auto simp: seats_ok_def rows_fresh_def list_all_iff)

lemma seats_ok_seated: "seats_ok db \<Longrightarrow> r \<in> set (db_rooms db) \<Longrightarrow> seated r (db_participants db)"
  by (auto simp: seats_ok_def list_all_iff)

lemma rows_same [simp]:
  "db_participants (write_rooms P f db) = db_participants db" "db_next (write_rooms P f db) = db_next db"
  "db_rooms (write_seats Q g db) = db_rooms db" "db_next (write_seats Q g db) = db_next db"
  "db_rooms (demote k u ro db) = db_rooms db" "db_next (demote k u ro db) = db_next db"
  "db_rooms (upsert_role k u ro now db) = db_rooms db"
  by (simp_all add: write_rooms_def write_seats_def demote_def upsert_role_def new_seat_def)

lemma rows_fresh_demote: "rows_fresh (demote room user role db) = rows_fresh db"
  by (simp add: demote_def rows_fresh_seats)

lemma written_room:
  assumes "seats_ok db" and "r \<in> set (db_rooms db)" and "\<And>x. rm_id (f x) = rm_id x"
    and "x \<in> set (db_rooms (write_rooms (\<lambda>x. rm_id x = rm_id r) f db))" and "rm_id x = rm_id r"
  shows "x = f r"
proof -
  obtain y where y: "y \<in> set (db_rooms db)" "x = f y" "rm_id y = rm_id r"
    using assms(3-5) by (auto simp: write_rooms_def mem_upd)
  then have "y = r" using assms(1,2) find_room_unique [of db] by (metis option.inject seats_ok_def)
  with y show ?thesis by simp
qed

lemma hand_room_simps [simp]: "rm_id (hand_room to now r) = rm_id r" "rm_owner (hand_room to now r) = to"
  by (simp_all add: hand_room_def)

lemma new_owner_seated:
  assumes old: "seated r (db_participants db)" and to: "to \<noteq> rm_owner r"
  shows "seated (hand_room to now r)
    (db_participants (upsert_role (rm_id r) to RoleOwner now (demote (rm_id r) (rm_owner r) RoleOwner db)))"
    (is "seated _ (db_participants ?n)")
proof -
  let ?k = "rm_id r" and ?m = "demote (rm_id r) (rm_owner r) RoleOwner db"
  have dep: "d \<noteq> to \<and> (\<exists>p\<in>set (db_participants ?n). holds_role ?k d RoleDeputy p)" if "rm_deputy (hand_room to now r) = Some d" for d
  proof -
    have d: "rm_deputy r = Some d" "d \<noteq> to" using that by (auto simp: hand_room_def split: if_splits)
    with old obtain p where p: "p \<in> set (db_participants db)" "holds_role ?k d RoleDeputy p" by (auto simp: seated_iff)
    then have "p \<in> set (db_participants ?m)" by (intro demote_rows(1)) (auto simp: holds_role_def)
    then have "p \<in> set (db_participants ?n)" using d(2) p(2) by (intro upsert_rows(2)) (auto simp: holds_role_def seat_at_def)
    with p(2) d(2) show ?thesis by auto
  qed
  have rights: "rightful (hand_room to now r) p" if p: "p \<in> set (db_participants ?n)" "pr_room p = ?k" for p
  proof (cases "seat_at ?k to p \<or> pr_role p = RoleMember")
    case True
    with upsert_rows(3) [OF p(1)] show ?thesis by (auto simp: holds_role_def rightful_def seat_at_def)
  next
    case False
    then have "p \<in> set (db_participants ?m)" using upsert_rows(1) [OF p(1)] by simp
    with demote_rows(2) False have d: "p \<in> set (db_participants db)" "\<not> (seat_at ?k (rm_owner r) p \<and> pr_role p = RoleOwner)" by auto
    then have "rightful r p" using old p(2) by (auto simp: seated_iff)
    with d(2) p(2) False show ?thesis by (auto simp: rightful_def hand_room_def seat_at_def split: room_role.splits if_splits)
  qed
  show ?thesis using upsert_rows(4) dep rights unfolding seated_iff hand_room_simps by blast
qed

lemma set_owner_seats:
  assumes ok: "seats_ok db" and r: "r \<in> set (db_rooms db)" and to: "to \<noteq> rm_owner r"
  shows "seats_ok (set_owner (rm_id r) (rm_owner r) to now db)"
proof -
  let ?w = "write_rooms (\<lambda>x. rm_id x = rm_id r) (hand_room to now) db"
  show ?thesis
  proof (rule seats_ok_room [OF ok])
    show "other_rooms (rm_id r) db (set_owner (rm_id r) (rm_owner r) to now db)" unfolding set_owner_def
      by (intro other_rooms_trans [OF other_rooms_rooms other_rooms_trans [OF other_rooms_demote other_rooms_upsert]]) simp
    show "rows_fresh (set_owner (rm_id r) (rm_owner r) to now db)"
      unfolding set_owner_def using ok room_there [OF ok r]
      by (intro rows_fresh_upsert) (simp_all add: rows_fresh_demote rows_fresh_rooms seats_ok_def)
    show "seated x (db_participants (set_owner (rm_id r) (rm_owner r) to now db))"
      if "x \<in> set (db_rooms (set_owner (rm_id r) (rm_owner r) to now db))" "rm_id x = rm_id r" for x
    proof -
      have "x = hand_room to now r" using that by (intro written_room [OF ok r]) (simp_all add: set_owner_def)
      then show ?thesis using new_owner_seated [of r ?w to now] seats_ok_seated [OF ok r] to by (simp add: set_owner_def)
    qed
  qed
qed

definition vacate :: "uuid \<Rightarrow> uuid option \<Rightarrow> db \<Rightarrow> db" where
  "vacate room from db = (case from of None \<Rightarrow> db | Some f \<Rightarrow> demote room f RoleDeputy db)"

lemma vacate_same [simp]:
  "db_rooms (vacate k from db) = db_rooms db" "db_next (vacate k from db) = db_next db"
  "rows_fresh (vacate k from db) = rows_fresh db" "other_rooms k db (vacate k from db)"
  by (auto simp: vacate_def rows_fresh_demote other_rooms_refl intro: other_rooms_demote split: option.split)

lemma vacated:
  assumes old: "seated r (db_participants db)"
  shows "\<exists>p\<in>set (db_participants (vacate (rm_id r) (rm_deputy r) db)). holds_role (rm_id r) (rm_owner r) RoleOwner p"
    and "\<forall>p\<in>set (db_participants (vacate (rm_id r) (rm_deputy r) db)). pr_room p = rm_id r \<longrightarrow> pr_role p \<noteq> RoleDeputy \<and> rightful r p"
proof -
  let ?m = "vacate (rm_id r) (rm_deputy r) db"
  obtain p where p: "p \<in> set (db_participants db)" "holds_role (rm_id r) (rm_owner r) RoleOwner p" using old by (auto simp: seated_iff)
  then have "p \<in> set (db_participants ?m)" by (auto simp: vacate_def holds_role_def intro: demote_rows(1) split: option.split)
  with p(2) show "\<exists>p\<in>set (db_participants ?m). holds_role (rm_id r) (rm_owner r) RoleOwner p" by blast
  have "pr_role q \<noteq> RoleDeputy \<and> rightful r q" if q: "q \<in> set (db_participants ?m)" "pr_room q = rm_id r" for q
  proof (cases "pr_role q = RoleMember")
    case False
    have "q \<in> set (db_participants db)"
      and n: "\<And>f. rm_deputy r = Some f \<Longrightarrow> \<not> (seat_at (rm_id r) f q \<and> pr_role q = RoleDeputy)"
      using q(1) demote_rows(2) [of q] False by (auto simp: vacate_def split: option.splits)
    then have "rightful r q" using old q(2) by (auto simp: seated_iff)
    with n q(2) show ?thesis by (cases "rm_deputy r") (auto simp: rightful_def seat_at_def split: room_role.splits)
  qed (simp add: rightful_def)
  then show "\<forall>p\<in>set (db_participants ?m). pr_room p = rm_id r \<longrightarrow> pr_role p \<noteq> RoleDeputy \<and> rightful r p" by blast
qed

definition name_deputy :: "uuid option \<Rightarrow> time \<Rightarrow> room_row \<Rightarrow> room_row" where
  "name_deputy to now r = r\<lparr>rm_deputy := to, rm_updated_at := now\<rparr>"

lemma name_deputy_simps [simp]:
  "rm_id (name_deputy to now r) = rm_id r" "rm_owner (name_deputy to now r) = rm_owner r" "rm_deputy (name_deputy to now r) = to"
  by (simp_all add: name_deputy_def)

lemma set_deputy_steps:
  "set_deputy room from to now db =
     (let m = vacate room from (write_rooms (\<lambda>r. rm_id r = room) (name_deputy to now) db)
      in case to of None \<Rightarrow> m | Some t \<Rightarrow> upsert_role room t RoleDeputy now m)"
  by (simp add: set_deputy_def vacate_def name_deputy_def [abs_def] Let_def)

lemma no_deputy_seated:
  "seated r (db_participants db) \<Longrightarrow> seated (name_deputy None now r) (db_participants (vacate (rm_id r) (rm_deputy r) db))"
  using vacated [of r db] unfolding seated_iff name_deputy_simps
  by (auto simp: rightful_def split: room_role.splits)

lemma new_deputy_seated:
  assumes old: "seated r (db_participants db)" and t: "t \<noteq> rm_owner r"
  shows "seated (name_deputy (Some t) now r)
    (db_participants (upsert_role (rm_id r) t RoleDeputy now (vacate (rm_id r) (rm_deputy r) db)))"
    (is "seated _ (db_participants ?n)")
proof -
  let ?k = "rm_id r" and ?m = "vacate (rm_id r) (rm_deputy r) db"
  obtain p where p: "p \<in> set (db_participants ?m)" "holds_role ?k (rm_owner r) RoleOwner p" using vacated(1) [OF old] by blast
  have own: "\<exists>p\<in>set (db_participants ?n). holds_role ?k (rm_owner r) RoleOwner p"
  proof
    show "p \<in> set (db_participants ?n)" using p t by (intro upsert_rows(2)) (auto simp: holds_role_def seat_at_def)
  qed (rule p(2))
  have rights: "rightful (name_deputy (Some t) now r) q" if q: "q \<in> set (db_participants ?n)" "pr_room q = ?k" for q
  proof (cases "seat_at ?k t q")
    case True
    with upsert_rows(3) [OF q(1)] show ?thesis by (auto simp: holds_role_def rightful_def seat_at_def)
  next
    case False
    then have "pr_role q \<noteq> RoleDeputy \<and> rightful r q" using vacated(2) [OF old] upsert_rows(1) [OF q(1)] q(2) by blast
    then show ?thesis by (auto simp: rightful_def split: room_role.splits)
  qed
  show ?thesis using own upsert_rows(4) rights t unfolding seated_iff name_deputy_simps by blast
qed

lemma set_deputy_seats:
  assumes ok: "seats_ok db" and r: "r \<in> set (db_rooms db)" and to: "to \<noteq> Some (rm_owner r)"
  shows "seats_ok (set_deputy (rm_id r) (rm_deputy r) to now db)"
proof (rule seats_ok_room [OF ok])
  let ?w = "write_rooms (\<lambda>x. rm_id x = rm_id r) (name_deputy to now) db"
  let ?m = "vacate (rm_id r) (rm_deputy r) ?w" and ?n = "set_deputy (rm_id r) (rm_deputy r) to now db"
  have w: "other_rooms (rm_id r) db ?w" by (rule other_rooms_rooms) simp
  show "other_rooms (rm_id r) db ?n" unfolding set_deputy_steps Let_def
    using other_rooms_trans [OF w vacate_same(4)] other_rooms_trans [OF _ other_rooms_upsert]
    by (auto split: option.split)
  show "rows_fresh ?n" unfolding set_deputy_steps Let_def using ok room_there [OF ok r]
    by (auto simp: rows_fresh_rooms seats_ok_def intro!: rows_fresh_upsert split: option.split)
  show "seated x (db_participants ?n)" if "x \<in> set (db_rooms ?n)" "rm_id x = rm_id r" for x
  proof -
    have "x = name_deputy to now r"
      using that by (intro written_room [OF ok r]) (simp_all add: set_deputy_steps Let_def split: option.splits)
    moreover have "seated r (db_participants ?w)" using seats_ok_seated [OF ok r] by simp
    ultimately show ?thesis using no_deputy_seated [of r ?w now] new_deputy_seated [of r ?w _ now] to
      by (auto simp: set_deputy_steps Let_def split: option.split)
  qed
qed

section \<open>Coming and going\<close>

text \<open>Rows of plain members may change as long as they stay plain members.\<close>

lemma member_rows_seats:
  assumes ok: "seats_ok db" and names: "keeps_names f"
    and m: "\<And>p r. p \<in> set (db_participants db) \<Longrightarrow> P p \<Longrightarrow> r \<in> set (db_rooms db) \<Longrightarrow> rm_id r = pr_room p \<Longrightarrow>
      pr_role p = RoleMember \<and> pr_role (f p) = RoleMember"
  shows "seats_ok (write_seats P f db)"
proof -
  have "seated r (tbl_upd P f (db_participants db))" if r: "r \<in> set (db_rooms db)" for r
  proof -
    have old: "seated r (db_participants db)" using seats_ok_seated [OF ok r] .
    have keep: "\<exists>p\<in>set (tbl_upd P f (db_participants db)). holds_role (rm_id r) u ro p"
      if h: "\<exists>p\<in>set (db_participants db). holds_role (rm_id r) u ro p" and no: "ro \<noteq> RoleMember" for u ro
    proof -
      obtain p where p: "p \<in> set (db_participants db)" "holds_role (rm_id r) u ro p" using h by blast
      then have "\<not> P p" using m [OF p(1) _ r] no by (auto simp: holds_role_def seat_at_def)
      with p show ?thesis by (auto simp: mem_upd)
    qed
    have "rightful r p" if p: "p \<in> set (tbl_upd P f (db_participants db))" "pr_room p = rm_id r" for p
    proof -
      consider y where "y \<in> set (db_participants db)" "P y" "p = f y" | "p \<in> set (db_participants db)" using p(1) by (auto simp: mem_upd)
      then show ?thesis
      proof cases
        case 1
        then have "pr_role p = RoleMember" using m [OF 1(1,2) r] p(2) names by (simp add: keeps_names_def)
        then show ?thesis by (simp add: rightful_def)
      qed (use old p(2) in \<open>auto simp: seated_iff\<close>)
    qed
    with keep old show ?thesis unfolding seated_iff by (metis room_role.distinct(3) room_role.distinct(5))
  qed
  then show ?thesis using ok names by (auto simp: seats_ok_def rows_fresh_seats list_all_iff write_seats_def [symmetric])
    (simp add: write_seats_def)
qed

lemma left_is_member:
  assumes "seats_ok db" and "p \<in> set (db_participants db)" and "pr_left p \<noteq> None"
    and "r \<in> set (db_rooms db)" and "rm_id r = pr_room p"
  shows "pr_role p = RoleMember"
proof -
  have "rightful r p" using seats_ok_seated [OF assms(1,4)] assms(2,5) by (auto simp: seated_iff)
  with assms(3) show ?thesis by (auto simp: rightful_def split: room_role.splits)
qed

lemma seat_of_None: "seat_of room user db = None \<longleftrightarrow> \<not> list_ex (seat_at room user) (db_participants db)"
  by (auto simp: seat_of_def seat_at_def [abs_def] find_None_iff list_ex_iff)

lemma new_member_seats:
  assumes ok: "seats_ok db" and "seat_of room user db = None" and "room < db_next db"
  shows "seats_ok (new_seat room user RoleMember now db)"
proof -
  have f: "rows_fresh (new_seat room user RoleMember now db)"
    using assms by (intro rows_fresh_new_seat) (auto simp: seats_ok_def seat_of_None)
  have "seated r (db_participants db @ [p])" if "seated r (db_participants db)" "pr_role p = RoleMember" for r p
    using that by (auto simp: seated_iff rightful_def)
  with ok f show ?thesis by (auto simp: seats_ok_def list_all_iff) (simp add: new_seat_def)
qed

lemma join_person_seats:
  assumes "seats_ok db" and "join_person room user now db = Some db'" and "room < db_next db"
  shows "seats_ok db'"
proof (cases "seat_of room user db")
  case None
  with assms new_member_seats show ?thesis by (auto simp: join_person_def)
next
  case (Some p)
  with assms(2) have "db' = write_seats (\<lambda>p. seat_at room user p \<and> pr_left p \<noteq> None) (rejoin now) db"
    by (auto simp: join_person_def split: if_splits)
  moreover have "pr_role (rejoin now q) = RoleMember" for q by (simp add: rejoin_def)
  ultimately show ?thesis using left_is_member [OF assms(1)] by (auto intro!: member_rows_seats [OF assms(1)])
qed

lemma add_room_member_seats:
  assumes "seats_ok db" and "room < db_next db"
  shows "seats_ok (add_room_member room user now db)"
  using new_member_seats [OF assms(1) _ assms(2)] left_is_member [OF assms(1)]
  by (auto simp: add_room_member_def intro!: member_rows_seats [OF assms(1)] split: option.split)

lemma close_row_seats:
  assumes ok: "seats_ok db" and p: "p \<in> set (db_participants db)" "pr_room p = rm_id r" and r: "r \<in> set (db_rooms db)"
    and allowed: "leave_refused (rm_id r) p db = None" and live: "pr_left p = None"
  shows "seats_ok (close_row (rm_id r) p now db)"
proof -
  have rf: "rightful r p" using seats_ok_seated [OF ok r] p by (auto simp: seated_iff)
  have same: "q = p" if "q \<in> set (db_participants db)" "pr_id q = pr_id p" for q
    using ok p(1) that by (auto simp: seats_ok_def rows_fresh_def distinct_map inj_on_def)
  have mem: "pr_role (leave_row now q) = RoleMember" for q by (simp add: leave_row_def)
  show ?thesis
  proof (cases "pr_role p = RoleDeputy")
    case False
    then have "pr_role p = RoleMember" using rf allowed by (auto simp: rightful_def leave_refused_def split: room_role.splits option.splits if_splits)
    with False same mem show ?thesis unfolding close_row_def Let_def by (auto intro!: member_rows_seats [OF ok])
  next
    case True
    then have d: "pr_user p \<noteq> None" "rm_deputy r = pr_user p" using rf by (auto simp: rightful_def)
    then have owner: "pr_user p \<noteq> Some (rm_owner r)" using seats_ok_seated [OF ok r] by (auto simp: seated_iff)
    let ?d = "set_deputy (rm_id r) (rm_deputy r) None now db"
    have od: "seats_ok ?d" by (rule set_deputy_seats [OF ok r]) simp
    have c: "pr_role q = RoleMember" if q: "q \<in> set (db_participants ?d)" "pr_id q = pr_id p" for q
    proof (rule ccontr)
      assume no: "pr_role q \<noteq> RoleMember"
      obtain f where f: "rm_deputy r = Some f" using d by auto
      have "q \<in> set (db_participants (demote (rm_id r) f RoleDeputy (write_rooms (\<lambda>x. rm_id x = rm_id r) (name_deputy None now) db)))"
        using q(1) f by (simp add: set_deputy_steps vacate_def Let_def)
      from demote_rows(2) [OF this no] have q': "q \<in> set (db_participants db)" "\<not> (seat_at (rm_id r) f q \<and> pr_role q = RoleDeputy)"
        by simp_all
      with same [OF q'(1) q(2)] True d f p(2) show False by (auto simp: seat_at_def)
    qed
    have cl: "close_row (rm_id r) p now db = write_seats (\<lambda>q. pr_id q = pr_id p) (leave_row now) ?d"
      using d True by (simp add: close_row_def Let_def)
    show ?thesis unfolding cl by (rule member_rows_seats [OF od]) (simp_all add: mem c)
  qed
qed

section \<open>Leaving the workspace\<close>

lemma find_room_in: "find_room k db = Some r \<Longrightarrow> r \<in> set (db_rooms db) \<and> rm_id r = k"
  by (rule find_room_Some)

lemma rooms_after_set_owner:
  "db_rooms (set_owner k from to now db) = tbl_upd (\<lambda>r. rm_id r = k) (hand_room to now) (db_rooms db)"
  by (simp add: set_owner_def write_rooms_def)

text \<open>The rooms on the list all have a new owner, the others keep theirs.\<close>

definition to_hand :: "uuid \<Rightarrow> (uuid \<times> uuid option) list \<Rightarrow> db \<Rightarrow> bool" where
  "to_hand user xs db \<longleftrightarrow> distinct (map fst xs)
     \<and> (\<forall>(k, s) \<in> set xs. \<exists>r \<in> set (db_rooms db). rm_id r = k \<and> rm_owner r = user)
     \<and> (\<forall>(k, s) \<in> set xs. \<exists>t. s = Some t \<and> t \<noteq> user)"

lemma to_hand_step:
  assumes "to_hand user ((k, Some t) # xs) db"
  shows "to_hand user xs (set_owner k user t now db)"
proof -
  have "\<exists>r \<in> set (db_rooms (set_owner k user t now db)). rm_id r = j \<and> rm_owner r = user"
    if r: "r \<in> set (db_rooms db)" "rm_id r = j" "rm_owner r = user" "j \<noteq> k" for r j
    using r by (intro bexI [of _ r]) (auto simp: rooms_after_set_owner mem_upd)
  moreover have "distinct (map fst xs)" "k \<notin> fst ` set xs" using assms by (simp_all add: to_hand_def)
  moreover have "\<exists>r \<in> set (db_rooms db). rm_id r = fst x \<and> rm_owner r = user" "\<exists>t. snd x = Some t \<and> t \<noteq> user" if "x \<in> set xs" for x
    using assms that by (auto simp: to_hand_def split_beta)
  ultimately show ?thesis unfolding to_hand_def split_beta by (metis image_eqI)
qed

lemma hand_rooms_seats:
  assumes "seats_ok db" and "to_hand user xs db"
  shows "seats_ok (hand_rooms user now xs db)"
  using assms
proof (induction xs arbitrary: db rule: list.induct)
  case (Cons x xs)
  obtain k t where x: "x = (k, Some t)" and t: "t \<noteq> user" using Cons.prems(2) by (auto simp: to_hand_def)
  obtain r where r: "r \<in> set (db_rooms db)" "rm_id r = k" "rm_owner r = user" using Cons.prems(2) x by (auto simp: to_hand_def)
  have "seats_ok (set_owner k user t now db)" using set_owner_seats [OF Cons.prems(1) r(1), of t now] r t by auto
  then show ?case using Cons.IH [OF _ to_hand_step] Cons.prems(2) x by auto
qed simp

definition room_names :: "db \<Rightarrow> (uuid \<times> uuid) list" where
  "room_names db = map (\<lambda>r. (rm_id r, rm_workspace r)) (db_rooms db)"

lemma room_names_hand [simp]: "room_names (hand_rooms user now xs db) = room_names db"
proof (induction user now xs db rule: hand_rooms.induct)
  case (2 user now k t xs db)
  have "room_names (set_owner k user t now db) = room_names db"
    unfolding room_names_def rooms_after_set_owner by (rule map_upd_same) (simp add: hand_room_def)
  with 2 show ?case by simp
qed simp_all

lemma hand_rooms_members [simp]: "db_members (hand_rooms user now xs db) = db_members db"
  by (induction user now xs db rule: hand_rooms.induct)
    (simp_all add: set_owner_def upsert_role_def demote_def write_seats_def write_rooms_def new_seat_def)

lemma hand_rooms_owner:
  assumes "r \<in> set (db_rooms (hand_rooms user now xs db))" and "rm_owner r = user"
    and "\<forall>(k, s) \<in> set xs. s \<noteq> None \<and> s \<noteq> Some user"
  shows "rm_id r \<notin> fst ` set xs \<and> (\<exists>r' \<in> set (db_rooms db). rm_id r' = rm_id r \<and> rm_workspace r' = rm_workspace r \<and> rm_owner r' = user)"
  using assms
proof (induction xs arbitrary: db)
  case (Cons x xs)
  obtain k t where x: "x = (k, Some t)" "t \<noteq> user" using Cons.prems(3) by auto
  have "rm_id r \<notin> fst ` set xs"
    "\<exists>r' \<in> set (db_rooms (set_owner k user t now db)). rm_id r' = rm_id r \<and> rm_workspace r' = rm_workspace r \<and> rm_owner r' = user"
    using Cons.IH [of "set_owner k user t now db"] Cons.prems x by auto
  with x show ?case by (auto simp: rooms_after_set_owner mem_upd)
qed auto

lemma empty_seats_ok:
  assumes ok: "seats_ok db" and no: "\<And>r. r \<in> set (db_rooms db) \<Longrightarrow> rm_workspace r = ws \<Longrightarrow> rm_owner r \<noteq> user"
  shows "seats_ok (empty_seats ws user now db)"
proof -
  let ?g = "\<lambda>r. rm_workspace r = ws \<and> rm_deputy r = Some user" and ?P = "\<lambda>p. pr_user p = Some user \<and> pr_left p = None \<and> in_workspace ws (pr_room p) db"
  let ?ps = "tbl_upd ?P (leave_row now) (db_participants db)"
  have rows: "db_rooms (empty_seats ws user now db) = tbl_upd ?g (\<lambda>r. r\<lparr>rm_deputy := None, rm_updated_at := now\<rparr>) (db_rooms db)"
      "db_participants (empty_seats ws user now db) = ?ps"
    by (simp_all add: empty_seats_def write_seats_def write_rooms_def write_works_def)
  have fresh: "rows_fresh (empty_seats ws user now db)" using ok
    by (auto simp: empty_seats_def rows_fresh_seats rows_fresh_rooms seats_ok_def) (simp add: rows_fresh_def write_works_def)
  have here: "in_workspace ws (rm_id r) db \<longleftrightarrow> rm_workspace r = ws" if "r \<in> set (db_rooms db)" for r
    using that ok by (auto simp: in_workspace_def list_ex_iff seats_ok_def rows_fresh_def distinct_map inj_on_def)
  have step: "seated (if ?g r then r\<lparr>rm_deputy := None, rm_updated_at := now\<rparr> else r) ?ps" if r: "r \<in> set (db_rooms db)" for r
  proof -
    let ?r = "if ?g r then r\<lparr>rm_deputy := None, rm_updated_at := now\<rparr> else r"
    have old: "seated r (db_participants db)" using seats_ok_seated [OF ok r] .
    have keep: "\<exists>p\<in>set ?ps. holds_role (rm_id r) u ro p"
      if "\<exists>p\<in>set (db_participants db). holds_role (rm_id r) u ro p" "rm_workspace r = ws \<longrightarrow> u \<noteq> user" for u ro
      using that here [OF r] by (auto simp: mem_upd holds_role_def seat_at_def)
    have rights: "rightful ?r p" if p: "p \<in> set ?ps" "pr_room p = rm_id r" for p
    proof -
      consider y where "p = leave_row now y" | "p \<in> set (db_participants db)" "\<not> ?P p" using p(1) by (auto simp: mem_upd)
      then show ?thesis
      proof cases
        case 1
        then show ?thesis by (simp add: rightful_def leave_row_def)
      next
        case 2
        then have "rightful r p" using old p(2) by (auto simp: seated_iff)
        with 2 here [OF r] p(2) show ?thesis by (auto simp: rightful_def split: room_role.splits)
      qed
    qed
    have ids: "rm_id ?r = rm_id r" "rm_owner ?r = rm_owner r" by simp_all
    have "\<exists>p\<in>set ?ps. holds_role (rm_id r) (rm_owner r) RoleOwner p" using old no [OF r] by (intro keep) (auto simp: seated_iff)
    moreover have "d \<noteq> rm_owner r \<and> (\<exists>p\<in>set ?ps. holds_role (rm_id r) d RoleDeputy p)" if "rm_deputy ?r = Some d" for d
      using that old keep [of d RoleDeputy] by (auto simp: seated_iff split: if_splits)
    ultimately show ?thesis using rights unfolding seated_iff ids by blast
  qed
  then have "\<forall>x \<in> (\<lambda>r. if ?g r then r\<lparr>rm_deputy := None, rm_updated_at := now\<rparr> else r) ` set (db_rooms db). seated x ?ps" by blast
  then show ?thesis using fresh unfolding seats_ok_def rows list_all_iff set_upd by blast
qed

lemma successor_other: "room_successor d owners user = Some t \<Longrightarrow> t \<noteq> user"
  by (auto simp: room_successor_def successor_def find_Some_iff split: option.splits if_splits)

lemma owned_to_hand:
  assumes "seats_ok db" and "\<not> list_ex (\<lambda>(_, s). s = None) (owned_rooms ws user db)"
  shows "to_hand user (owned_rooms ws user db) db"
proof -
  have "distinct (map fst (owned_rooms ws user db))"
    using assms(1) by (auto simp: owned_rooms_def seats_ok_def rows_fresh_def comp_def intro: distinct_map_filter)
  moreover have "\<exists>t. s = Some t \<and> t \<noteq> user" if "(k, s) \<in> set (owned_rooms ws user db)" for k s
  proof -
    have "s \<noteq> None" using assms(2) that by (auto simp: list_ex_iff)
    moreover have "s = Some t \<Longrightarrow> t \<noteq> user" for t using that by (auto simp: owned_rooms_def dest: successor_other [OF sym])
    ultimately show ?thesis by auto
  qed
  ultimately show ?thesis by (auto simp: to_hand_def owned_rooms_def)
qed

lemma seats_ok_works [simp]: "seats_ok (write_works P f db) = seats_ok db"
  by (simp add: seats_ok_def rows_fresh_def write_works_def)

lemma works_only [simp]:
  "db_rooms (write_works P f db) = db_rooms db" "db_next (write_works P f db) = db_next db"
  "db_members (write_works P f db) = db_members db" "db_participants (write_works P f db) = db_participants db"
  by (simp_all add: write_works_def)

lemma hand_missions_seats:
  "seats_ok (hand_missions user now owned ms db) = seats_ok db"
  "db_rooms (hand_missions user now owned ms db) = db_rooms db"
  "db_next (hand_missions user now owned ms db) = db_next db"
  "db_members (hand_missions user now owned ms db) = db_members db"
  by (induction ms arbitrary: db) (simp_all add: hand_missions_def)

text \<open>The Directors after the hand-over.\<close>

lemma hand_missions_director:
  assumes "w \<in> set (db_works (hand_missions user now owned ms db))"
  shows "\<exists>w0 \<in> set (db_works db). wk_room w = wk_room w0 \<and> wk_status w = wk_status w0 \<and> wk_id w = wk_id w0
    \<and> (wk_director w = wk_director w0 \<and> wk_id w0 \<notin> fst ` set ms
       \<or> (\<exists>m \<in> set ms. wk_director w = new_director user owned m))"
  using assms
proof (induction ms arbitrary: db)
  case Nil
  then show ?case by (auto simp: hand_missions_def)
next
  case (Cons m ms)
  let ?db = "write_works (\<lambda>w. wk_id w = fst m) (\<lambda>w. w\<lparr>wk_director := new_director user owned m, wk_updated_at := now\<rparr>) db"
  have "w \<in> set (db_works (hand_missions user now owned ms ?db))" using Cons.prems by (simp add: hand_missions_def)
  from Cons.IH [OF this] obtain w1 where w1: "w1 \<in> set (db_works ?db)" "wk_room w = wk_room w1" "wk_status w = wk_status w1" "wk_id w = wk_id w1"
    "wk_director w = wk_director w1 \<and> wk_id w1 \<notin> fst ` set ms \<or> (\<exists>m \<in> set ms. wk_director w = new_director user owned m)" by blast
  from w1(1) consider w0 where "w0 \<in> set (db_works db)" "wk_id w0 = fst m"
      "w1 = w0\<lparr>wk_director := new_director user owned m, wk_updated_at := now\<rparr>"
    | "w1 \<in> set (db_works db)" "wk_id w1 \<noteq> fst m" by (auto simp: write_works_def mem_upd)
  then show ?case
  proof cases
    case 1
    with w1(2-5) show ?thesis by (intro bexI [OF _ 1(1)]) auto
  next
    case 2
    with w1(2-5) show ?thesis by (intro bexI [OF _ 2(1)]) auto
  qed
qed

definition gone :: "uuid \<Rightarrow> uuid \<Rightarrow> db \<Rightarrow> bool" where
  "gone ws user db \<longleftrightarrow>
     list_all (\<lambda>r. rm_workspace r = ws \<longrightarrow> rm_owner r \<noteq> user \<and> rm_deputy r \<noteq> Some user) (db_rooms db)
   \<and> list_all (\<lambda>p. pr_user p = Some user \<and> in_workspace ws (pr_room p) db \<longrightarrow> pr_left p \<noteq> None) (db_participants db)
   \<and> list_all (\<lambda>w. in_workspace ws (wk_room w) db \<longrightarrow> (mission_open w \<longrightarrow> wk_director w \<noteq> user) \<and> wk_deputy w \<noteq> Some user) (db_works db)"

lemma directed_new:
  assumes "\<not> list_ex (\<lambda>(_, s). s = None) (owned_rooms ws user db)" and "m \<in> set (directed_missions ws user db)"
  shows "new_director user (owned_rooms ws user db) m \<noteq> user"
proof -
  obtain w where "m \<in> set (case find_room (wk_room w) db of None \<Rightarrow> []
      | Some r \<Rightarrow> if rm_workspace r = ws \<and> wk_director w = user \<and> mission_open w then [(wk_id w, wk_room w, rm_owner r)] else [])"
    using assms(2) by (auto simp only: directed_missions_def set_concat set_map)
  then obtain r where w: "m = (wk_id w, wk_room w, rm_owner r)" "find_room (wk_room w) db = Some r" "rm_workspace r = ws"
    by (cases "find_room (wk_room w) db") (auto split: if_splits)
  show ?thesis
  proof (cases "rm_owner r = user")
    case True
    then have "(wk_room w, room_successor (rm_deputy r) (ws_owners ws db) user) \<in> set (owned_rooms ws user db)"
      using find_room_in [OF w(2)] w(3) by (auto simp: owned_rooms_def image_iff)
    then obtain s where s: "map_of (owned_rooms ws user db) (wk_room w) = Some s" using weak_map_of_SomeI by fastforce
    then have "(wk_room w, s) \<in> set (owned_rooms ws user db)" by (rule map_of_SomeD)
    then have "s \<noteq> None" "\<And>t. s = Some t \<Longrightarrow> t \<noteq> user"
      using assms(1) by (auto simp: list_ex_iff owned_rooms_def dest: successor_other [OF sym])
    then show ?thesis using s True w(1) by (auto simp: new_director_def director_successor_def split: option.split)
  qed (simp add: new_director_def director_successor_def w(1))
qed

lemma in_workspace_names: "in_workspace ws k db \<longleftrightarrow> (k, ws) \<in> set (room_names db)"
  by (auto simp: in_workspace_def room_names_def list_ex_iff)

lemma room_names_writes [simp]:
  "room_names (empty_seats ws user now db) = room_names db"
  "room_names (hand_missions user now owned ms db) = room_names db"
  by (simp_all add: room_names_def empty_seats_def write_rooms_def write_seats_def write_works_def hand_missions_seats map_upd_same)

lemma hand_rooms_works [simp]: "db_works (hand_rooms user now xs db) = db_works db"
  by (induction user now xs db rule: hand_rooms.induct)
    (simp_all add: set_owner_def upsert_role_def demote_def write_seats_def write_rooms_def new_seat_def)

text \<open>A mission of the workspace, after the Directors and the deputies were replaced.\<close>

lemma leave_mission:
  assumes ok: "seats_ok db" and all: "\<not> list_ex (\<lambda>(_, s). s = None) (owned_rooms ws user db)"
    and h: "h = hand_missions user now (owned_rooms ws user db) (directed_missions ws user db)
      (hand_rooms user now (owned_rooms ws user db) db)"
    and w: "w \<in> set (db_works (write_works (\<lambda>w. wk_deputy w = Some user \<and> in_workspace ws (wk_room w) h)
      (\<lambda>w. w\<lparr>wk_deputy := None, wk_updated_at := now\<rparr>) h))"
    and here: "(wk_room w, ws) \<in> set (room_names db)"
  shows "(mission_open w \<longrightarrow> wk_director w \<noteq> user) \<and> wk_deputy w \<noteq> Some user"
proof -
  have names: "room_names h = room_names db" by (simp add: h)
  obtain v where v: "v \<in> set (db_works h)" "wk_room v = wk_room w" "wk_status v = wk_status w" "wk_director v = wk_director w"
    and d: "wk_deputy w \<noteq> Some user"
    using w here by (auto simp: write_works_def mem_upd in_workspace_names names)
  obtain w0 where w0: "w0 \<in> set (db_works db)" "wk_room v = wk_room w0" "wk_status v = wk_status w0"
    and c: "wk_director v = wk_director w0 \<and> wk_id w0 \<notin> fst ` set (directed_missions ws user db)
      \<or> (\<exists>m \<in> set (directed_missions ws user db). wk_director v = new_director user (owned_rooms ws user db) m)"
    using hand_missions_director [OF v(1) [unfolded h]] by auto
  have "wk_director v \<noteq> user" if o': "mission_open w"
  proof
    assume u: "wk_director v = user"
    then have no: "wk_director w0 = user" "wk_id w0 \<notin> fst ` set (directed_missions ws user db)"
      using c directed_new [OF all] by metis+
    obtain r where r: "r \<in> set (db_rooms db)" "rm_id r = wk_room w0" "rm_workspace r = ws"
      using here v(2) w0(2) by (auto simp: room_names_def)
    then have "find_room (wk_room w0) db = Some r" using ok find_room_unique [of db r] by (simp add: seats_ok_def)
    moreover have "mission_open w0" using o' v(3) w0(3) by (simp add: mission_open_def)
    ultimately have "(wk_id w0, wk_room w0, rm_owner r) \<in> set (directed_missions ws user db)"
      using w0(1) r(3) no(1) by (force simp: directed_missions_def)
    with no(2) show False by force
  qed
  with v(4) d show ?thesis by simp
qed

lemma leave_steps:
  assumes ok: "seats_ok db" and l: "leave_workspace ws user now db = Inr ((rs, ms), db')"
  shows "seats_ok db'" "room_names db' = room_names db" "gone ws user db'" "db_members db' = db_members db"
    and "rs = owned_rooms ws user db"
    and "\<forall>m \<in> set ms. snd (snd m) \<noteq> user \<and> fst (snd m) < db_next db'"
proof -
  let ?o = "owned_rooms ws user db" and ?d = "directed_missions ws user db"
  let ?h = "hand_rooms user now ?o db"
  have all: "\<not> list_ex (\<lambda>(_, s). s = None) ?o" and rs: "rs = ?o"
    and ms: "ms = map (\<lambda>(w, room, owner). (w, room, new_director user ?o (w, room, owner))) ?d"
    and db': "db' = empty_seats ws user now (hand_missions user now ?o ?d ?h)"
    using l by (auto simp: leave_workspace_def Let_def split: if_splits)
  have hand: "to_hand user ?o db" by (rule owned_to_hand [OF ok all])
  have h: "seats_ok ?h" by (rule hand_rooms_seats [OF ok hand])
  have given: "\<forall>(k, s) \<in> set ?o. s \<noteq> None \<and> s \<noteq> Some user" using hand by (auto simp: to_hand_def)
  have left: "rm_owner r \<noteq> user" if r: "r \<in> set (db_rooms ?h)" "rm_workspace r = ws" for r
  proof
    assume "rm_owner r = user"
    from hand_rooms_owner [OF r(1) this given] obtain r' where
      "rm_id r \<notin> fst ` set ?o" "r' \<in> set (db_rooms db)" "rm_id r' = rm_id r" "rm_workspace r' = ws" "rm_owner r' = user"
      using r(2) by auto
    then show False by (force simp: owned_rooms_def image_iff)
  qed
  then show ok': "seats_ok db'" unfolding db' by (intro empty_seats_ok) (simp_all add: hand_missions_seats h)
  show names: "room_names db' = room_names db" by (simp add: db')
  show "db_members db' = db_members db"
    by (simp add: db' empty_seats_def write_seats_def write_rooms_def hand_missions_seats)
  show "rs = owned_rooms ws user db" by (rule rs)
  have there: "k < db_next db'" if "find_room k db = Some r" for k r
  proof -
    have "k \<in> fst ` set (room_names db')" unfolding names using find_room_in [OF that] by (force simp: room_names_def)
    then show ?thesis using room_there [OF ok'] by (auto simp: room_names_def)
  qed
  show "\<forall>m \<in> set ms. snd (snd m) \<noteq> user \<and> fst (snd m) < db_next db'"
  proof
    fix m assume "m \<in> set ms"
    then obtain w k ow where m: "m = (w, k, new_director user ?o (w, k, ow))" "(w, k, ow) \<in> set ?d" by (auto simp: ms)
    have "\<exists>r. find_room k db = Some r" using m(2)
      by (cases "find_room k db") (auto simp: directed_missions_def split: option.splits if_splits)
    with there directed_new [OF all m(2)] m(1) show "snd (snd m) \<noteq> user \<and> fst (snd m) < db_next db'" by auto
  qed
  have rooms: "rm_owner r \<noteq> user \<and> rm_deputy r \<noteq> Some user" if r: "r \<in> set (db_rooms db')" "rm_workspace r = ws" for r
  proof -
    have "db_rooms db' = tbl_upd (\<lambda>r. rm_workspace r = ws \<and> rm_deputy r = Some user) (\<lambda>r. r\<lparr>rm_deputy := None, rm_updated_at := now\<rparr>)
        (db_rooms ?h)"
      by (simp add: db' empty_seats_def write_seats_def write_rooms_def hand_missions_seats)
    then consider y where "y \<in> set (db_rooms ?h)" "rm_workspace y = ws" "r = y\<lparr>rm_deputy := None, rm_updated_at := now\<rparr>"
      | "r \<in> set (db_rooms ?h)" "rm_deputy r \<noteq> Some user" using r by (auto simp: mem_upd)
    then show ?thesis
    proof cases
      case 1
      then show ?thesis using left [OF 1(1,2)] by simp
    next
      case 2
      then show ?thesis using left [OF 2(1) r(2)] by simp
    qed
  qed
  have seats: "pr_left p \<noteq> None" if "p \<in> set (db_participants db')" "pr_user p = Some user" "in_workspace ws (pr_room p) db'" for p
  proof -
    have "in_workspace ws (pr_room p) (hand_missions user now ?o ?d ?h)" using that(3) by (simp add: in_workspace_names names)
    with that(1,2) show ?thesis by (auto simp: db' empty_seats_def write_seats_def write_rooms_def mem_upd leave_row_def)
  qed
  have works: "(mission_open w \<longrightarrow> wk_director w \<noteq> user) \<and> wk_deputy w \<noteq> Some user"
    if w: "w \<in> set (db_works db')" "in_workspace ws (wk_room w) db'" for w
    using leave_mission [OF ok all refl _ w(2) [unfolded in_workspace_names names]] w(1)
    by (simp add: db' empty_seats_def write_seats_def write_rooms_def)
  show "gone ws user db'" using rooms seats works by (auto simp: gone_def list_all_iff)
qed

text \<open>What the announcements of the succession add.\<close>

definition later_seats :: "uuid \<Rightarrow> uuid \<Rightarrow> db \<Rightarrow> db \<Rightarrow> bool" where
  "later_seats ws user db db' \<longleftrightarrow> seats_ok db' \<and> gone ws user db' \<and> db_rooms db' = db_rooms db
     \<and> db_members db' = db_members db \<and> db_next db \<le> db_next db'"

lemma later_seats_trans: "later_seats ws user x y \<Longrightarrow> later_seats ws user y z \<Longrightarrow> later_seats ws user x z"
  by (simp add: later_seats_def)

lemma later_seats_same: "same_seats db db' \<Longrightarrow> seats_ok db \<Longrightarrow> gone ws user db \<Longrightarrow> later_seats ws user db db'"
  using seats_ok_same by (auto simp: later_seats_def same_seats_def gone_def in_workspace_def)

lemma add_room_member_rows:
  "db_rooms (add_room_member k to now db) = db_rooms db" "db_members (add_room_member k to now db) = db_members db"
  "db_works (add_room_member k to now db) = db_works db" "db_next db \<le> db_next (add_room_member k to now db)"
  "p \<in> set (db_participants (add_room_member k to now db)) \<Longrightarrow> p \<in> set (db_participants db) \<or> pr_user p = Some to"
  by (auto simp: add_room_member_def write_seats_def new_seat_def mem_upd seat_at_def split: option.splits)

lemma gone_add: "gone ws user db \<Longrightarrow> to \<noteq> user \<Longrightarrow> gone ws user (add_room_member k to now db)"
  by (auto simp: gone_def list_all_iff add_room_member_rows in_workspace_def dest!: add_room_member_rows(5))

lemma gone_director:
  "gone ws user db \<Longrightarrow> to \<noteq> user \<Longrightarrow> gone ws user (write_works P (\<lambda>w. w\<lparr>wk_director := to, wk_updated_at := now\<rparr>) db)"
  by (auto simp: gone_def list_all_iff in_workspace_def mission_open_def) (auto simp: write_works_def mem_upd)

lemma director_succeeded_later:
  assumes "seats_ok db" and "gone ws user db" and "snd (snd m) \<noteq> user" and "fst (snd m) < db_next db"
  shows "later_seats ws user db (director_succeeded ws' now m db)"
proof -
  obtain w k to where m: "m = (w, k, to)" by (cases m)
  let ?a = "write_works (\<lambda>r. wk_id r = w) (\<lambda>r. r\<lparr>wk_director := to, wk_updated_at := now\<rparr>) db"
  let ?b = "add_room_member k to now ?a"
  have "later_seats ws user db ?b" using assms
    by (simp add: later_seats_def m add_room_member_seats gone_add gone_director add_room_member_rows order_trans [OF _ add_room_member_rows(4)])
  moreover from this have "later_seats ws user ?b (director_succeeded ws' now m db)"
    by (intro later_seats_same) (auto simp: later_seats_def director_succeeded_def director_handed_over_def m intro!: same_seats_trans [OF same_seats_writes(3) same_seats_writes(1)])
  ultimately show ?thesis by (rule later_seats_trans)
qed

lemma room_succeeded_same: "same_seats db (fold (room_succeeded ws now) rs db)"
proof (induction rs arbitrary: db)
  case Nil
  show ?case by (simp add: same_seats_def)
next
  case (Cons x rs)
  have "same_seats db (room_succeeded ws now x db)"
    unfolding room_succeeded_def by (rule same_seats_trans [OF same_seats_writes(2) same_seats_writes(1)])
  with Cons show ?case by (auto intro: same_seats_trans)
qed

lemma directors_later:
  assumes "seats_ok db" and "gone ws user db" and "\<forall>m \<in> set ms. snd (snd m) \<noteq> user \<and> fst (snd m) < db_next db"
  shows "later_seats ws user db (fold (director_succeeded ws' now) ms db)"
  using assms
proof (induction ms arbitrary: db)
  case Nil
  then show ?case by (simp add: later_seats_def)
next
  case (Cons m ms)
  have d: "later_seats ws user db (director_succeeded ws' now m db)" using Cons.prems by (intro director_succeeded_later) auto
  then have "later_seats ws user (director_succeeded ws' now m db) (fold (director_succeeded ws' now) ms (director_succeeded ws' now m db))"
    using Cons.prems(3) by (intro Cons.IH) (force simp: later_seats_def)+
  with d show ?case by (auto intro: later_seats_trans)
qed

lemma member_left:
  assumes ok: "seats_ok db" and l: "on_member_left ws user now db = Inr db'"
  shows "seats_ok db' \<and> gone ws user db' \<and> db_members db' = db_members db"
proof -
  obtain rs ms db1 where s: "leave_workspace ws user now db = Inr ((rs, ms), db1)"
    and db': "db' = fold (director_succeeded ws now) ms (fold (room_succeeded ws now) rs db1)"
    using l by (auto simp: on_member_left_def)
  note steps = leave_steps [OF ok s]
  let ?b = "fold (room_succeeded ws now) rs db1"
  have b: "later_seats ws user db1 ?b" by (rule later_seats_same [OF room_succeeded_same steps(1,3)])
  then have "later_seats ws user ?b db'" unfolding db' using steps(6)
    by (intro directors_later) (force simp: later_seats_def)+
  with later_seats_trans [OF b this] steps(4) show ?thesis by (simp add: later_seats_def)
qed

section \<open>Owners of the workspace\<close>

definition has_owner :: "uuid \<Rightarrow> db \<Rightarrow> bool" where
  "has_owner ws db \<longleftrightarrow> list_ex (\<lambda>m. mb_workspace m = ws \<and> mb_role m = ''owner'') (db_members db)"

lemma member_in: "member_of ws u db = Some m \<Longrightarrow> m \<in> set (db_members db) \<and> mb_workspace m = ws \<and> mb_user m = u"
  by (auto simp: member_of_def find_Some_iff)

lemma member_unique:
  "rows_fresh db \<Longrightarrow> member_of ws u db = Some m \<Longrightarrow> x \<in> set (db_members db) \<Longrightarrow> mb_workspace x = ws \<Longrightarrow> mb_user x = u \<Longrightarrow> x = m"
  using member_in [of ws u db m] by (auto simp: rows_fresh_def distinct_map inj_on_def)

lemma another_owner:
  assumes "rows_fresh db" and "owner_count ws db > 1"
  shows "\<exists>m \<in> set (db_members db). mb_workspace m = ws \<and> mb_role m = ''owner'' \<and> mb_user m \<noteq> target"
proof -
  let ?os = "filter (\<lambda>m. mb_workspace m = ws \<and> mb_role m = ''owner'') (db_members db)"
  have "distinct (map (\<lambda>m. (mb_workspace m, mb_user m)) ?os)" using assms(1) by (auto simp: rows_fresh_def intro: distinct_map_filter)
  then have d: "distinct (map mb_user ?os)" by (auto simp: distinct_map inj_on_def)
  have "length ?os > 1" using assms(2) by (simp add: owner_count_def ws_owners_def)
  then obtain a b xs where "?os = a # b # xs" by (cases ?os; cases "tl ?os") auto
  then have "a \<in> set ?os" "b \<in> set ?os" "mb_user a \<noteq> mb_user b" using d by auto
  then show ?thesis by (cases "mb_user a = target") auto
qed

section \<open>Requests\<close>

datatype seat_request =
    SrCreate uuid uuid string string room_defaults
  | SrTransfer uuid uuid uuid
  | SrDeputy uuid uuid "uuid option"
  | SrInvite uuid uuid uuid
  | SrRemove uuid uuid uuid
  | SrArchive uuid uuid bool
  | SrDirector uuid uuid
  | SrRole uuid uuid uuid string
  | SrLeave uuid uuid uuid

text \<open>\<open>SrDirector\<close> is the part of a Director's appointment that writes the room's people.\<close>

fun serve_seat :: "seat_request \<Rightarrow> db \<Rightarrow> db_error + db" where
  "serve_seat (SrCreate user ws name desc d) db = create_room user ws name desc d db"
| "serve_seat (SrTransfer user room to) db = transfer_owner user room to db"
| "serve_seat (SrDeputy user room to) db = appoint_deputy user room to db"
| "serve_seat (SrInvite user room who) db = invite_person user room who db"
| "serve_seat (SrRemove user room pid) db = remove_participant user room pid db"
| "serve_seat (SrArchive user room b) db = set_archived user room b db"
| "serve_seat (SrDirector room who) db =
     (if find_room room db = None then Inl DbForeignKey else Inr (add_room_member room who (db_clock db) db))"
| "serve_seat (SrRole user ws who role) db = update_member_role ws user who role db"
| "serve_seat (SrLeave user ws who) db = remove_member ws user who db"

definition run_seats :: "seat_request list \<Rightarrow> db \<Rightarrow> db" where
  "run_seats rs db = fold (\<lambda>r. in_tx (serve_seat r)) rs db"

lemma same_members [simp]:
  "db_members (log_activity ws rm u act ob now db) = db_members db" "db_members (announce k now db) = db_members db"
  "db_members (write_seats P f db) = db_members db" "db_members (write_rooms Q g db) = db_members db"
  "db_members (new_seat k v ro now db) = db_members db" "db_members (upsert_role k v ro now db) = db_members db"
  "db_members (demote k v ro db) = db_members db" "db_members (set_owner k a b now db) = db_members db"
  "db_members (set_deputy k fr to now db) = db_members db" "db_members (close_row k p now db) = db_members db"
  by (simp_all add: log_activity_def announce_def system_post_def insert_message_def write_seats_def write_rooms_def new_seat_def
      upsert_role_def demote_def set_owner_def set_deputy_def close_row_def Let_def split: option.split)

lemma has_owner_same: "db_members db' = db_members db \<Longrightarrow> has_owner ws db' = has_owner ws db"
  by (simp add: has_owner_def)

lemma found_room:
  assumes "seats_ok db" and "find_room k db = Some r"
  shows "r \<in> set (db_rooms db)" "rm_id r = k" "k < db_next db"
  using find_room_in [OF assms(2)] room_there [OF assms(1)] by auto

lemma required_room: "require room user act db = Inr a \<Longrightarrow> \<exists>r. find_room room db = Some r"
  by (auto simp: require_def load_access_def split: option.splits)

lemma create_room_seats:
  assumes ok: "seats_ok db" and c: "create_room user ws name desc d db = Inr db'"
  shows "seats_ok db' \<and> db_members db' = db_members db"
proof -
  let ?k = "db_next db" and ?r = "new_room user ws (trim_space name) (trim_space desc) d (db_clock db) (db_next db)"
  let ?p = "\<lparr>pr_id = db_next db + 1, pr_room = db_next db, pr_agent = None, pr_profile = None, pr_user = Some user,
    pr_joined = db_clock db, pr_left = None, pr_role = RoleOwner\<rparr>"
  have db': "db' = db\<lparr>db_rooms := db_rooms db @ [?r], db_participants := db_participants db @ [?p], db_next := db_next db + 2\<rparr>"
    using c by (auto simp: create_room_def new_seat_def split: if_splits)
  have id: "rm_id ?r = ?k" "rm_owner ?r = user" "rm_deputy ?r = None" by (simp_all add: new_room_def)
  have old: "pr_room p < ?k" if "p \<in> set (db_participants db)" for p
    using ok that by (auto simp: seats_ok_def rows_fresh_def list_all_iff)
  have "rows_fresh db'"
  proof -
    have "?k \<notin> rm_id ` set (db_rooms db)" "?k + 1 \<notin> pr_id ` set (db_participants db)"
      "(?k, Some user) \<notin> person_key ` set (people (db_participants db))"
      using ok by (fastforce simp: seats_ok_def rows_fresh_def list_all_iff people_def person_key_def)+
    then show ?thesis using ok
      by (simp add: db' id rows_fresh_def seats_ok_def people_def person_key_def) (fastforce simp: list_all_iff)
  qed
  moreover have "seated r (db_participants db @ [?p])" if "r \<in> set (db_rooms db)" for r
  proof -
    have "rm_id r \<noteq> ?k" using room_there [OF ok that] by simp
    then have "seated r (db_participants db @ [?p]) = seated r (db_participants db)" by (intro seated_local) simp
    then show ?thesis using seats_ok_seated [OF ok that] by simp
  qed
  moreover have "seated ?r (db_participants db @ [?p])"
    using old unfolding seated_iff id by (fastforce simp: holds_role_def seat_at_def rightful_def id)
  ultimately show ?thesis by (simp add: seats_ok_def db' list_all_iff)
qed

lemma archive_seats:
  assumes ok: "seats_ok db"
  shows "seats_ok (write_rooms P (\<lambda>r. r\<lparr>rm_active := b, rm_updated_at := now\<rparr>) db)"
proof -
  have "seated (r\<lparr>rm_active := b, rm_updated_at := now\<rparr>) ps = seated r ps" for r ps
    by (simp add: seated_iff rightful_def cong: room_role.case_cong)
  then have "list_all (\<lambda>r. seated r (db_participants db)) (tbl_upd P (\<lambda>r. r\<lparr>rm_active := b, rm_updated_at := now\<rparr>) (db_rooms db))"
    using ok by (subst list_all_upd) (simp_all add: seats_ok_def)
  moreover have "rows_fresh (write_rooms P (\<lambda>r. r\<lparr>rm_active := b, rm_updated_at := now\<rparr>) db)"
    using ok by (simp add: rows_fresh_rooms seats_ok_def)
  ultimately show ?thesis by (simp add: seats_ok_def) (simp add: write_rooms_def)
qed

definition seat_step :: "db \<Rightarrow> db \<Rightarrow> bool" where
  "seat_step db db' \<longleftrightarrow> seats_ok db' \<and> (\<forall>ws. has_owner ws db \<longrightarrow> has_owner ws db')"

lemma seat_stepI: "seats_ok db' \<Longrightarrow> db_members db' = db_members db \<Longrightarrow> seat_step db db'"
  by (simp add: seat_step_def has_owner_def)

lemma transfer_step:
  assumes ok: "seats_ok db" and t: "transfer_owner user room to db = Inr db'"
  shows "seat_step db db'"
proof -
  obtain a where a: "require room user ActTransferOwner db = Inr a" using t by (auto simp: transfer_owner_def)
  then obtain r where r: "find_room room db = Some r" using required_room by blast
  show ?thesis
  proof (cases "rm_owner r = to")
    case True
    then show ?thesis using t ok by (simp add: transfer_owner_def a r seat_stepI)
  next
    case False
    then have "seats_ok (set_owner room (rm_owner r) to (db_clock db) db)"
      using set_owner_seats [OF ok found_room(1) [OF ok r], of to "db_clock db"] found_room(2) [OF ok r] by auto
    with False t show ?thesis by (auto simp: transfer_owner_def a r Let_def intro!: seat_stepI split: if_splits)
  qed
qed

lemma deputy_step:
  assumes ok: "seats_ok db" and t: "appoint_deputy user room to db = Inr db'"
  shows "seat_step db db'"
proof -
  obtain a where a: "require room user ActSetDeputy db = Inr a" using t by (auto simp: appoint_deputy_def)
  then obtain r where r: "find_room room db = Some r" using required_room by blast
  show ?thesis
  proof (cases "rm_deputy r = to \<or> to = Some (rm_owner r)")
    case True
    then show ?thesis using t ok by (auto simp: appoint_deputy_def a r Let_def seat_stepI split: if_splits)
  next
    case False
    then have "seats_ok (set_deputy room (rm_deputy r) to (db_clock db) db)"
      using set_deputy_seats [OF ok found_room(1) [OF ok r], of to "db_clock db"] found_room(2) [OF ok r] by auto
    with False t show ?thesis by (auto simp: appoint_deputy_def a r Let_def intro!: seat_stepI split: if_splits option.splits)
  qed
qed

lemma invite_step:
  assumes ok: "seats_ok db" and t: "invite_person user room who db = Inr db'"
  shows "seat_step db db'"
proof -
  obtain a where a: "require room user ActInvite db = Inr a" using t by (auto simp: invite_person_def)
  then obtain r where r: "find_room room db = Some r" using required_room by blast
  obtain db1 where j: "join_person room who (db_clock db) db = Some db1"
    and d: "db' = log_activity (ax_workspace a) (Some room) (Some user) ''participant.invited'' (Some who) (db_clock db)
      (announce room (db_clock db) db1)"
    using t by (auto simp: invite_person_def a Let_def split: if_splits option.splits)
  have "db_members db1 = db_members db" using j by (auto simp: join_person_def split: option.splits if_splits)
  with join_person_seats [OF ok j found_room(3) [OF ok r]] show ?thesis by (simp add: d seat_stepI)
qed

lemma remove_step:
  assumes ok: "seats_ok db" and t: "remove_participant user room pid db = Inr db'"
  shows "seat_step db db'"
proof -
  obtain a where a: "load_access room user db = Inr a" using t by (auto simp: remove_participant_def)
  then obtain r where r: "find_room room db = Some r" by (auto simp: load_access_def split: option.splits)
  obtain p act ob where p: "find (\<lambda>p. pr_room p = room \<and> pr_id p = pid) (db_participants db) = Some p"
    and live: "pr_left p = None" and al: "leave_refused room p db = None"
    and d: "db' = log_activity (ax_workspace a) (Some room) (Some user) act ob (db_clock db)
      (announce room (db_clock db) (close_row room p (db_clock db) db))"
    using t by (auto simp: remove_participant_def a Let_def split: if_splits option.splits)
  have "p \<in> set (db_participants db)" "pr_room p = room" using p by (auto simp: find_Some_iff)
  then have "seats_ok (close_row room p (db_clock db) db)"
    using close_row_seats [OF ok, of p r "db_clock db"] found_room [OF ok r] al live by auto
  then show ?thesis by (simp add: d seat_stepI)
qed

lemma role_step:
  assumes ok: "seats_ok db" and t: "update_member_role ws user who role db = Inr db'"
  shows "seat_step db db'"
proof -
  obtain caller where a: "admin_role ws user db = Inr caller" using t by (auto simp: update_member_role_def)
  obtain m where m: "member_of ws who db = Some m" using t a by (auto simp: update_member_role_def split: option.splits)
  show ?thesis
  proof (cases "mb_role m = role")
    case True
    then show ?thesis using t ok by (auto simp: update_member_role_def a m seat_stepI split: option.splits)
  next
    case False
    let ?f = "\<lambda>m. m\<lparr>mb_role := role\<rparr>" and ?P = "\<lambda>m. mb_workspace m = ws \<and> mb_user m = who"
    have pl: "plan_role_change caller (mb_role m) role (owner_count ws db) = None"
      and d: "db' = log_activity ws None (Some user) ''member.role_changed'' (Some who) (db_clock db)
        (db\<lparr>db_members := tbl_upd ?P ?f (db_members db)\<rparr>)"
      using t False by (auto simp: update_member_role_def a m split: option.splits)
    have fresh: "rows_fresh db" using ok by (simp add: seats_ok_def)
    have "seats_ok (db\<lparr>db_members := tbl_upd ?P ?f (db_members db)\<rparr>)"
      using ok by (simp add: seats_ok_def rows_fresh_def map_upd_same)
    moreover have "has_owner w db'" if w: "has_owner w db" for w
    proof (cases "w = ws")
      case no: False
      then show ?thesis using w by (fastforce simp: has_owner_def d list_ex_iff log_activity_def mem_upd)
    next
      case True
      let ?ms = "tbl_upd ?P ?f (db_members db)"
      have "\<exists>x \<in> set ?ms. mb_workspace x = ws \<and> mb_role x = ''owner''"
      proof (cases "role = ''owner''")
        case True
        have "?f m \<in> set ?ms" using member_in [OF m] by (auto simp: set_upd)
        then show ?thesis using member_in [OF m] True by (intro bexI [of _ "?f m"]) simp_all
      next
        case no: False
        obtain x where x: "x \<in> set (db_members db)" "mb_workspace x = ws" "mb_role x = ''owner''" "mb_user x \<noteq> who"
        proof (cases "mb_role m = ''owner''")
          case own: True
          then have "owner_count ws db > 1" using pl no by (auto simp: plan_role_change_def split: if_splits)
          from another_owner [OF fresh this, of who] show ?thesis using that by blast
        next
          case False
          obtain x where x: "x \<in> set (db_members db)" "mb_workspace x = ws" "mb_role x = ''owner''"
            using w True by (auto simp: has_owner_def list_ex_iff)
          then have "mb_user x \<noteq> who" using member_unique [OF fresh m x(1,2)] False by auto
          with x that show ?thesis by blast
        qed
        then show ?thesis by (intro bexI [of _ x]) (auto simp: mem_upd)
      qed
      then show ?thesis by (auto simp: has_owner_def d list_ex_iff log_activity_def True)
    qed
    ultimately show ?thesis by (simp add: seat_step_def d)
  qed
qed

lemma leave_step:
  assumes ok: "seats_ok db" and t: "remove_member ws user who db = Inr db'"
  shows "seat_step db db' \<and> gone ws who db' \<and> member_of ws who db' = None"
proof -
  obtain caller where a: "admin_role ws user db = Inr caller" using t by (auto simp: remove_member_def)
  obtain m where m: "member_of ws who db = Some m" using t a by (auto simp: remove_member_def Let_def split: option.splits)
  let ?keep = "filter (\<lambda>m. \<not> (mb_workspace m = ws \<and> mb_user m = who))"
  obtain db1 where pl: "plan_removal caller (mb_role m) (owner_count ws db) = None"
    and l: "on_member_left ws who (db_clock db) db = Inr db1"
    and d: "db' = log_activity ws None (Some user) ''member.removed'' (Some who) (db_clock db) (db1\<lparr>db_members := ?keep (db_members db1)\<rparr>)"
    using t by (auto simp: remove_member_def Let_def a m split: option.splits)
  note left = member_left [OF ok l]
  have fresh: "rows_fresh db" using ok by (simp add: seats_ok_def)
  have "seats_ok (db1\<lparr>db_members := ?keep (db_members db1)\<rparr>)"
    using left fresh by (simp add: seats_ok_def rows_fresh_def distinct_map_filter)
  moreover have "gone ws who db'" using left by (simp add: d gone_def in_workspace_def log_activity_def)
  moreover have "member_of ws who db' = None" by (simp add: d member_of_def find_None_iff log_activity_def)
  moreover have "has_owner w db'" if w: "has_owner w db" for w
  proof -
    obtain x where x: "x \<in> set (db_members db)" "mb_workspace x = w" "mb_role x = ''owner''" "\<not> (mb_workspace x = ws \<and> mb_user x = who)"
    proof (cases "w = ws \<and> mb_role m = ''owner''")
      case True
      then have "owner_count ws db > 1" using pl by (auto simp: plan_removal_def split: if_splits)
      from another_owner [OF fresh this, of who] show ?thesis using that True by blast
    next
      case False
      obtain x where x: "x \<in> set (db_members db)" "mb_workspace x = w" "mb_role x = ''owner''" using w by (auto simp: has_owner_def list_ex_iff)
      then have "\<not> (mb_workspace x = ws \<and> mb_user x = who)" using member_unique [OF fresh m x(1)] False by auto
      with x that show ?thesis by blast
    qed
    then show ?thesis using left by (auto simp: has_owner_def d list_ex_iff log_activity_def)
  qed
  ultimately show ?thesis by (simp add: seat_step_def d)
qed

lemma archive_step:
  assumes ok: "seats_ok db" and t: "set_archived user room b db = Inr db'"
  shows "seat_step db db'"
proof -
  obtain a where a: "require room user ActArchive db = Inr a" using t by (auto simp: set_archived_def)
  then obtain r where r: "find_room room db = Some r" using required_room by blast
  show ?thesis using t ok archive_seats [OF ok]
    by (auto simp: set_archived_def a r Let_def intro!: seat_stepI split: if_splits)
qed

lemma director_step:
  assumes ok: "seats_ok db" and t: "serve_seat (SrDirector room who) db = Inr db'"
  shows "seat_step db db'"
proof -
  obtain r where "find_room room db = Some r" "db' = add_room_member room who (db_clock db) db"
    using t by (auto split: if_splits)
  then show ?thesis using add_room_member_seats [OF ok found_room(3) [OF ok]] by (auto intro!: seat_stepI simp: add_room_member_rows)
qed

lemma serve_seat_step: "seats_ok db \<Longrightarrow> serve_seat r db = Inr db' \<Longrightarrow> seat_step db db'"
proof (cases r)
  case (SrCreate user ws name desc d)
  then show "seats_ok db \<Longrightarrow> serve_seat r db = Inr db' \<Longrightarrow> seat_step db db'"
    using create_room_seats by (auto intro: seat_stepI)
next
  case (SrDirector room who)
  then show "seats_ok db \<Longrightarrow> serve_seat r db = Inr db' \<Longrightarrow> seat_step db db'"
    by (simp only: director_step)
qed (auto dest: transfer_step deputy_step invite_step remove_step archive_step role_step leave_step)

interpretation seat_requests: transactional serve_seat seats_ok "\<lambda>x y. \<forall>ws. has_owner ws x \<longrightarrow> has_owner ws y"
proof
  show "seats_ok s \<Longrightarrow> serve_seat r s = Inr s' \<Longrightarrow> seats_ok s'" for s r s' using serve_seat_step by (auto simp: seat_step_def)
  show "seats_ok s \<Longrightarrow> serve_seat r s = Inr s' \<Longrightarrow> \<forall>ws. has_owner ws s \<longrightarrow> has_owner ws s'" for s r s'
    using serve_seat_step by (auto simp: seat_step_def)
qed auto

text \<open>
  C19 The two records of a room's seats never disagree, and no workspace loses its owner: from a store where
  they agree, after any run of requests that create rooms, invite, remove and appoint people, hand seats
  over, change roles or take people out of the workspace, every room's owner and deputy are different
  people who are in the room with exactly those roles, nobody else has one of them, and a workspace that
  had an owner has one.
\<close>

theorem seats_agree:
  assumes "seats_ok db" and "has_owner ws db"
  shows "seats_ok (run_seats rs db) \<and> has_owner ws (run_seats rs db)"
  unfolding run_seats_def using seat_requests.run_inv [OF assms(1)] seat_requests.run_rel [OF assms(1)] assms(2) by blast

lemma house_ok: "seats_ok house_db" "has_owner 1 house_db"
  by (simp_all add: seats_ok_def rows_fresh_def has_owner_def house_db_def house_room_def house_seat_def empty_db_def
      people_def person_key_def seated_def holds_role_def seat_at_def rightful_def)

lemma seats_agree_witness:
  "seats_ok (run_seats [SrInvite 11 2 13, SrTransfer 11 2 13, SrLeave 10 1 12] house_db)
     \<and> has_owner 1 (run_seats [SrInvite 11 2 13, SrTransfer 11 2 13, SrLeave 10 1 12] house_db)"
  by (rule seats_agree [OF house_ok])

text \<open>
  C20 A person who was taken out of the workspace holds nothing in it: no room is theirs, no deputy seat and
  no row of a room is left to them, and no mission that is not closed is directed by them; and the seats of
  the rooms they left still agree.
\<close>

theorem leaver_holds_nothing:
  assumes "seats_ok db" and "remove_member ws user who db = Inr db'"
  shows "gone ws who db' \<and> member_of ws who db' = None \<and> seats_ok db'"
  using leave_step [OF assms] by (simp add: seat_step_def)

lemma house_leave: "\<exists>db'. remove_member 1 10 11 house_db = Inr db'"
proof -
  have "\<not> isl (remove_member 1 10 11 house_db)" by code_simp
  then show ?thesis by (cases "remove_member 1 10 11 house_db") auto
qed

lemma leaver_holds_nothing_witness:
  "\<exists>db'. remove_member 1 10 11 house_db = Inr db' \<and> gone 1 11 db' \<and> member_of 1 11 db' = None \<and> seats_ok db'"
  using house_leave leaver_holds_nothing [OF house_ok(1)] by blast

end
