(* ===== verification/Room_Read.thy ===== *)
theory Room_Read
  imports Room_Seats Card_Judgement
begin

text \<open>
  Reading another room on request: \<open>server/internal/rooms/read.go\<close>, the log of the reads a room sees
  (\<open>rooms/log.go\<close>) and the token estimate they are cut by (\<open>internal/llm/llm.go\<close>). \<open>low\<close> is the case folding
  of the query and of the texts it is looked for in (\<open>strings.ToLower\<close>, \<open>ILIKE\<close>). Sentences and frames are left out:
  an activity line keeps what its sentence is made of.
\<close>

section \<open>The estimate of a text\<close>

definition estimate_tokens :: "string \<Rightarrow> nat" where
  "estimate_tokens s = (rune_count s + 2) div 3"

definition starts_rune :: "char \<Rightarrow> bool" where
  "starts_rune c \<longleftrightarrow> \<not> (128 \<le> (of_char c :: nat) \<and> of_char c < (192 :: nat))"

text \<open>\<open>string(runes[:n])\<close>.\<close>

fun take_runes :: "nat \<Rightarrow> string \<Rightarrow> string" where
  "take_runes n [] = []"
| "take_runes n (c # s) =
     (if starts_rune c then (case n of 0 \<Rightarrow> [] | Suc k \<Rightarrow> c # take_runes k s) else c # take_runes n s)"

text \<open>\<open>strings.LastIndex(s, "\n")\<close> as a length: what stands before the last line break.\<close>

definition before_last_line :: "string \<Rightarrow> string option" where
  "before_last_line s =
     (case dropWhile (\<lambda>c. c \<noteq> CHR 0x0A) (rev s) of [] \<Rightarrow> None | _ # r \<Rightarrow> Some (rev r))"

definition trim_to_tokens :: "string \<Rightarrow> nat \<Rightarrow> string \<times> bool" where
  "trim_to_tokens s n =
     (if n = 0 then ([], s \<noteq> [])
      else if estimate_tokens s \<le> n then (s, False)
      else let limit = min (n * 3) (rune_count s); chop = take_runes limit s
           in (case before_last_line chop of
                 None \<Rightarrow> chop
               | Some b \<Rightarrow> if length b > limit div 2 then b else chop, True))"

section \<open>The reader and the room asked for\<close>

record read_policy =
  po_rooms :: nat
  po_tokens :: nat

definition default_policy :: read_policy where
  "default_policy = \<lparr>po_rooms = 3, po_tokens = 4000\<rparr>"

definition positive_or :: "nat \<Rightarrow> int option \<Rightarrow> nat" where
  "positive_or d v = (case v of None \<Rightarrow> d | Some n \<Rightarrow> if n > 0 then nat n else d)"

definition load_policy :: "uuid \<Rightarrow> db \<Rightarrow> read_policy" where
  "load_policy ws db =
     (case find (\<lambda>s. st_workspace s = ws) (db_settings db) of
        None \<Rightarrow> default_policy
      | Some s \<Rightarrow> \<lparr>po_rooms = positive_or 3 (map_of (st_read s) ''max_rooms_per_turn''),
                  po_tokens = positive_or 4000 (map_of (st_read s) ''max_tokens'')\<rparr>)"

text \<open>The calling attempt, from its task token.\<close>

record read_caller =
  rc_task :: uuid
  rc_attempt :: int
  rc_agent :: uuid
  rc_room :: uuid

record room_reader = read_caller +
  re_workspace :: uuid
  re_originator :: "uuid option"
  re_originator_name :: string
  re_agent_name :: string

definition load_reader :: "read_caller \<Rightarrow> db \<Rightarrow> db_error + room_reader" where
  "load_reader r db =
     (case get_task (rc_task r) db of
        None \<Rightarrow> Inl ErrNotFound
      | Some t \<Rightarrow>
          (case find_room (tk_room t) db of
             None \<Rightarrow> Inl ErrNotFound
           | Some rm \<Rightarrow>
               if tbl_get ag_id (db_agents db) (tk_agent t) = None then Inl ErrNotFound
               else Inr (read_caller.extend r
                 \<lparr>re_workspace = rm_workspace rm, re_originator = tk_originator t,
                  re_originator_name = (case tk_originator t of None \<Rightarrow> [] | Some u \<Rightarrow> user_name u db),
                  re_agent_name = agent_name (tk_agent t) db\<rparr>)))"

record read_target =
  tg_id :: uuid
  tg_name :: string
  tg_description :: string
  tg_last :: "time option"
  tg_facts :: read_facts

definition standing_in :: "uuid \<Rightarrow> uuid option \<Rightarrow> db \<Rightarrow> membership" where
  "standing_in room user db =
     (case user of
        None \<Rightarrow> NotMember
      | Some u \<Rightarrow> (case seat_of room u db of
                    None \<Rightarrow> NotMember
                  | Some p \<Rightarrow> if pr_left p = None then InRoom else LeftRoom))"

definition agent_in :: "uuid \<Rightarrow> uuid \<Rightarrow> db \<Rightarrow> bool" where
  "agent_in room agent db =
     list_ex (\<lambda>p. pr_room p = room \<and> pr_agent p = Some agent \<and> pr_left p = None) (db_participants db)"

definition linked_to :: "uuid \<Rightarrow> uuid \<Rightarrow> db \<Rightarrow> bool" where
  "linked_to room target db = list_ex (\<lambda>k. lk_room k = room \<and> lk_target k = target) (db_links db)"

definition last_activity :: "uuid \<Rightarrow> db \<Rightarrow> time option" where
  "last_activity room db =
     (case filter (\<lambda>m. ms_room m = room) (db_messages db) of [] \<Rightarrow> None | ms \<Rightarrow> Some (Max (set (map ms_created_at ms))))"

definition target_row :: "room_reader \<Rightarrow> db \<Rightarrow> room_row \<Rightarrow> read_target" where
  "target_row rd db r =
     \<lparr>tg_id = rm_id r, tg_name = rm_name r, tg_description = rm_description r, tg_last = last_activity (rm_id r) db,
      tg_facts = \<lparr>fa_originator = (re_originator rd \<noteq> None), fa_membership = standing_in (rm_id r) (re_originator rd) db,
        fa_agent = agent_in (rm_id r) (rc_agent rd) db, fa_linked = linked_to (rc_room rd) (rm_id r) db\<rparr>\<rparr>"

text \<open>A room that does not exist, or is another workspace's, has the facts of a room nobody is in.\<close>

definition load_target :: "room_reader \<Rightarrow> uuid \<Rightarrow> db \<Rightarrow> read_target" where
  "load_target rd i db =
     (case find (\<lambda>r. rm_workspace r = re_workspace rd \<and> rm_id r = i) (db_rooms db) of
        None \<Rightarrow> \<lparr>tg_id = i, tg_name = [], tg_description = [], tg_last = None,
                tg_facts = \<lparr>fa_originator = (re_originator rd \<noteq> None), fa_membership = NotMember, fa_agent = False, fa_linked = False\<rparr>\<rparr>
      | Some r \<Rightarrow> target_row rd db r)"

text \<open>The rooms Judge allows right now, the current one excluded, in the order of the table.\<close>

definition finds :: "(string \<Rightarrow> string) \<Rightarrow> string \<Rightarrow> string list \<Rightarrow> bool" where
  "finds low query parts \<longleftrightarrow> query = [] \<or> list_ex (\<lambda>p. contains (low query) (low p)) parts"

definition readable_rooms :: "(string \<Rightarrow> string) \<Rightarrow> read_caller \<Rightarrow> string \<Rightarrow> db \<Rightarrow> db_error + (read_target \<times> bool) list" where
  "readable_rooms low r query db =
     bindE (load_reader r db) (\<lambda>rd.
     case re_originator rd of
       None \<Rightarrow> Inr []
     | Some u \<Rightarrow>
         Inr (map (\<lambda>t. (t, ve_via_link (judge_read (tg_facts t))))
           (filter (\<lambda>t. ve_allowed (judge_read (tg_facts t)))
             (map (target_row rd db)
               (filter (\<lambda>rm. rm_workspace rm = re_workspace rd \<and> rm_id rm \<noteq> rc_room r \<and> seat_of (rm_id rm) u db \<noteq> None
                   \<and> finds low (trim_space query) [rm_name rm, rm_description rm])
                 (db_rooms db))))))"

section \<open>What is read\<close>

record read_result =
  rr_room :: uuid
  rr_name :: string
  rr_description :: string
  rr_summary :: "string option"
  rr_messages :: "message_row list"
  rr_decisions :: "decision_row list"
  rr_artifacts :: "artifact_row list"
  rr_truncated :: bool
  rr_capped :: bool

record denial =
  dn_reason :: string
  dn_room_name :: string
  dn_originator_name :: string
  dn_agent_name :: string

datatype read_answer = Refused denial | Answered read_result

text \<open>Taking rows while they fit: the first that does not fit ends the taking.\<close>

fun spend :: "('a \<Rightarrow> nat) \<Rightarrow> nat \<Rightarrow> 'a list \<Rightarrow> 'a list \<times> nat \<times> bool" where
  "spend cost budget [] = ([], budget, False)"
| "spend cost budget (x # xs) =
     (if cost x > budget then ([], budget, True)
      else case spend cost (budget - cost x) xs of (ys, left, chop) \<Rightarrow> (x # ys, left, chop))"

text \<open>The newest summary of the room. Every message row of this version has the state \<open>posted\<close> the query asks for.\<close>

definition latest_summary :: "uuid \<Rightarrow> db \<Rightarrow> string option" where
  "latest_summary room db =
     (case sort_key ms_created_at (filter (\<lambda>m. ms_room m = room \<and> ms_kind m = ''summary'') (db_messages db)) of
        [] \<Rightarrow> None
      | ms \<Rightarrow> Some (ms_content (last ms)))"

text \<open>Newest first.\<close>

definition room_decisions :: "uuid \<Rightarrow> db \<Rightarrow> decision_row list" where
  "room_decisions room db = rev (sort_key de_created_at (filter (\<lambda>d. de_room d = room) (db_decisions db)))"

definition latest_version :: "artifact_row \<Rightarrow> db \<Rightarrow> bool" where
  "latest_version a db \<longleftrightarrow>
     list_all (\<lambda>b. af_room b = af_room a \<and> af_name b = af_name a \<longrightarrow> af_version b \<le> af_version a) (db_artifacts db)"

definition room_artifacts :: "uuid \<Rightarrow> db \<Rightarrow> artifact_row list" where
  "room_artifacts room db =
     rev (sort_key af_created_at (sort_key af_version (filter (\<lambda>a. af_room a = room \<and> latest_version a db) (db_artifacts db))))"

text \<open>\<open>messages.List\<close> with \<open>IncludeReplies\<close>, \<open>Kinds\<close> and \<open>Limit\<close>: the newest rows, oldest first.\<close>

definition list_messages :: "string list \<Rightarrow> nat \<Rightarrow> uuid \<Rightarrow> db \<Rightarrow> message_row list" where
  "list_messages kinds limit room db =
     (let ms = sort_key ms_created_at (filter (\<lambda>m. ms_room m = room \<and> List.member kinds (ms_kind m)) (db_messages db));
          n = (if limit = 0 \<or> limit > 200 then 50 else limit)
      in drop (length ms - n) ms)"

definition read_kinds :: "string list" where
  "read_kinds = [''text'', ''hitl'', ''blocked_q'', ''system'']"

definition decision_cost :: "decision_row \<Rightarrow> nat" where
  "decision_cost d = estimate_tokens (de_summary d) + estimate_tokens (de_rationale d)"

definition artifact_cost :: "artifact_row \<Rightarrow> nat" where
  "artifact_cost a = estimate_tokens (af_name a) + estimate_tokens (af_description a) + 1"

definition message_cost :: "message_row \<Rightarrow> nat" where
  "message_cost m = estimate_tokens (ms_content m) + 1"

definition found_decisions :: "(string \<Rightarrow> string) \<Rightarrow> string \<Rightarrow> uuid \<Rightarrow> db \<Rightarrow> decision_row list" where
  "found_decisions low query room db =
     filter (\<lambda>d. finds low query [de_summary d, de_rationale d]) (room_decisions room db)"

definition found_artifacts :: "(string \<Rightarrow> string) \<Rightarrow> string \<Rightarrow> uuid \<Rightarrow> db \<Rightarrow> artifact_row list" where
  "found_artifacts low query room db =
     filter (\<lambda>a. finds low query [af_name a, af_description a]) (room_artifacts room db)"

definition found_messages :: "(string \<Rightarrow> string) \<Rightarrow> string \<Rightarrow> nat \<Rightarrow> uuid \<Rightarrow> db \<Rightarrow> message_row list" where
  "found_messages low query tail room db =
     take tail (filter (\<lambda>m. finds low query [ms_content m])
       (rev (list_messages read_kinds (if query = [] then tail else 200) room db)))"

text \<open>The budget is spent on the summary, then the decisions, then the artifacts, then the tail of the talk.\<close>

definition fill :: "(string \<Rightarrow> string) \<Rightarrow> nat \<Rightarrow> string \<Rightarrow> nat \<Rightarrow> read_result \<Rightarrow> db \<Rightarrow> read_result" where
  "fill low tail query budget res db =
     (let room = rr_room res; q = trim_space query;
          (chop, trimmed) = (case latest_summary room db of None \<Rightarrow> ([], False) | Some s \<Rightarrow> trim_to_tokens s budget);
          budget = budget - estimate_tokens chop;
          (ds, budget, dcut) = spend decision_cost budget (found_decisions low q room db);
          (as, budget, acut) = spend artifact_cost budget (found_artifacts low q room db);
          (ms, budget, mcut) = spend message_cost budget (found_messages low q tail room db)
      in res\<lparr>rr_summary := (if chop = [] then None else Some chop), rr_decisions := rev ds, rr_artifacts := rev as,
             rr_messages := rev ms, rr_truncated := rr_truncated res \<or> trimmed \<or> dcut \<or> acut \<or> mcut\<rparr>)"

section \<open>The trace of a read\<close>

text \<open>The rooms an attempt has read in its turn, which starts at its dispatch.\<close>

definition turn_start :: "uuid \<Rightarrow> int \<Rightarrow> db \<Rightarrow> time option" where
  "turn_start task attempt db =
     (case tbl_get ar_key (db_attempts db) (task, attempt) of None \<Rightarrow> None | Some a \<Rightarrow> ar_dispatched_at a)"

definition turn_rooms :: "uuid \<Rightarrow> int \<Rightarrow> db \<Rightarrow> uuid list" where
  "turn_rooms task attempt db =
     remdups (List.map_filter rd_target
       (filter (\<lambda>r. rd_task r = task \<and> rd_denied r = None
          \<and> (case turn_start task attempt db of None \<Rightarrow> True | Some s \<Rightarrow> s \<le> rd_at r)) (db_reads db)))"

definition rooms_read_this_turn :: "read_caller \<Rightarrow> uuid \<Rightarrow> db \<Rightarrow> nat \<times> bool" where
  "rooms_read_this_turn r target db =
     (let rooms = turn_rooms (rc_task r) (rc_attempt r) db
      in (length (filter (\<lambda>t. t \<noteq> target) rooms), List.member rooms target))"

definition read_activity ::
    "room_reader \<Rightarrow> uuid \<Rightarrow> string \<Rightarrow> uuid option \<Rightarrow> (string \<times> json) list \<Rightarrow> time \<Rightarrow> db \<Rightarrow> db" where
  "read_activity rd room action object payload now db =
     db\<lparr>db_activity := db_activity db @ [\<lparr>ac_workspace = re_workspace rd, ac_room = Some room, ac_actor = Some (rc_agent rd),
        ac_action = action, ac_object = object, ac_payload = payload, ac_at = now\<rparr>]\<rparr>"

definition summary_bytes :: "read_result \<Rightarrow> nat" where
  "summary_bytes res = (case rr_summary res of None \<Rightarrow> 0 | Some s \<Rightarrow> length s)"

definition read_payload :: "string \<Rightarrow> uuid \<Rightarrow> read_result \<Rightarrow> (string \<times> json) list" where
  "read_payload dir i res =
     [(''direction'', JStr dir), (''room_read_id'', JNum (of_nat i)), (''recent_n'', JNum (of_nat (length (rr_messages res)))),
      (''summary'', JBool (rr_summary res \<noteq> None)), (''truncated'', JBool (rr_truncated res))]"

definition insert_read :: "room_reader \<Rightarrow> uuid option \<Rightarrow> string option \<Rightarrow> nat \<Rightarrow> nat \<Rightarrow> bool \<Rightarrow> time \<Rightarrow> db \<Rightarrow> db" where
  "insert_read rd target why bytes n chop now db =
     db\<lparr>db_reads := db_reads db @ [\<lparr>rd_id = db_next db, rd_room = rc_room rd, rd_task = rc_task rd, rd_agent = rc_agent rd,
          rd_originator = re_originator rd, rd_target = target, rd_denied = why, rd_summary_bytes = bytes, rd_recent = n,
          rd_truncated = chop, rd_at = now\<rparr>],
        db_next := db_next db + 1\<rparr>"

text \<open>A read leaves its row, its event, a line in the log of either room and a message in the room that was read.\<close>

definition record_allowed :: "(uuid \<Rightarrow> string) \<Rightarrow> room_reader \<Rightarrow> read_target \<Rightarrow> read_result \<Rightarrow> time \<Rightarrow> db \<Rightarrow> db" where
  "record_allowed ut rd t res now db =
     (let i = db_next db;
          db = insert_read rd (Some (tg_id t)) None (summary_bytes res) (length (rr_messages res)) (rr_truncated res) now db;
          db = insert_server_event (rc_task rd) (rc_attempt rd) ''status'' ''read'' (ut (tg_id t)) ''ok'' now db;
          db = read_activity rd (rc_room rd) ''room.read'' (Some (tg_id t)) (read_payload ''out'' i res) now db;
          db = read_activity rd (tg_id t) ''room.read'' (Some (rc_room rd)) (read_payload ''in'' i res) now db
      in announce (tg_id t) now db)"

text \<open>Only the refusal of a room the person left names the person and the room.\<close>

definition denied_text :: "denial \<Rightarrow> json" where
  "denied_text d =
     (if dn_reason d = ''originator_left'' then JList [JStr (dn_originator_name d), JStr (dn_room_name d), JStr (dn_agent_name d)]
      else JList [JStr (dn_agent_name d)])"

text \<open>A refusal is told where the reader is, without the name of the room but for one reason.\<close>

definition record_denied :: "(uuid \<Rightarrow> string) \<Rightarrow> room_reader \<Rightarrow> read_target \<Rightarrow> read_verdict \<Rightarrow> denial \<Rightarrow> time \<Rightarrow> db \<Rightarrow> db" where
  "record_denied ut rd t v d now db =
     (let i = db_next db;
          col = (if tg_name t = [] then None else Some (tg_id t));
          db = insert_read rd col (Some (ve_reason v)) 0 0 False now db;
          db = insert_server_event (rc_task rd) (rc_attempt rd) ''status'' ''read''
                 (if ve_reveal v then ut (tg_id t) else ''room_read'') ''rejected'' now db
      in read_activity rd (rc_room rd) ''room.read.denied'' (if ve_reveal v then col else None)
           [(''direction'', JStr ''denied''), (''room_read_id'', JNum (of_nat i)), (''denied_reason'', JStr (ve_reason v)),
            (''note'', denied_text d)] now db)"

section \<open>A read\<close>

definition denial_of :: "room_reader \<Rightarrow> read_target \<Rightarrow> read_verdict \<Rightarrow> denial" where
  "denial_of rd t v =
     \<lparr>dn_reason = ve_reason v, dn_room_name = (if ve_reveal v then tg_name t else []),
      dn_originator_name = re_originator_name rd, dn_agent_name = re_agent_name rd\<rparr>"

definition blank_result :: "read_target \<Rightarrow> read_result" where
  "blank_result t =
     \<lparr>rr_room = tg_id t, rr_name = tg_name t, rr_description = tg_description t, rr_summary = None, rr_messages = [],
      rr_decisions = [], rr_artifacts = [], rr_truncated = False, rr_capped = False\<rparr>"

definition read_allowed ::
    "(string \<Rightarrow> string) \<Rightarrow> (uuid \<Rightarrow> string) \<Rightarrow> read_caller \<Rightarrow> room_reader \<Rightarrow> read_target \<Rightarrow> nat \<Rightarrow> string \<Rightarrow> db \<Rightarrow> read_answer \<times> db" where
  "read_allowed low ut r rd t tail query db =
     (let now = db_clock db; pol = load_policy (re_workspace rd) db; (others, again) = rooms_read_this_turn r (tg_id t) db
      in if \<not> again \<and> others \<ge> po_rooms pol
         then (Answered ((blank_result t)\<lparr>rr_truncated := True, rr_capped := True\<rparr>),
               insert_server_event (rc_task r) (rc_attempt r) ''status'' ''read'' (ut (tg_id t)) ''ok'' now db)
         else let res = fill low tail query (po_tokens pol) (blank_result t) db
              in (Answered res, record_allowed ut rd t res now db))"

definition read_room ::
    "(string \<Rightarrow> string) \<Rightarrow> (uuid \<Rightarrow> string) \<Rightarrow> read_caller \<Rightarrow> uuid \<Rightarrow> int \<Rightarrow> string \<Rightarrow> db \<Rightarrow> db_error + read_answer \<times> db" where
  "read_room low ut r target tail query db =
     (if target = rc_room r then Inl (ErrValidation ''current_room'')
      else bindE (load_reader r db) (\<lambda>rd.
      let t = load_target rd target db; v = judge_read (tg_facts t) in
      if \<not> ve_allowed v
      then let d = denial_of rd t v in Inr (Refused d, record_denied ut rd t v d (db_clock db) db)
      else Inr (read_allowed low ut r rd t (if tail \<le> 0 then 30 else nat tail) query db)))"

text \<open>The request: a tail outside of 1 to 100 is refused, none stands for 30.\<close>

definition read_command ::
    "(string \<Rightarrow> string) \<Rightarrow> (uuid \<Rightarrow> string) \<Rightarrow> read_caller \<Rightarrow> uuid \<Rightarrow> int option \<Rightarrow> string \<Rightarrow> db \<Rightarrow> db_error + read_answer \<times> db" where
  "read_command low ut r target tail query db =
     (case tail of
        None \<Rightarrow> read_room low ut r target 30 query db
      | Some n \<Rightarrow> if n < 1 \<or> n > 100 then Inl (ErrValidation ''tail'') else read_room low ut r target n query db)"

section \<open>The log a room sees\<close>

record read_entry =
  en_id :: uuid
  en_at :: time
  en_dir :: string
  en_agent :: uuid
  en_originator :: "uuid option"
  en_other :: "(uuid \<times> string) option"
  en_summary :: bool
  en_recent :: nat
  en_truncated :: bool
  en_task :: uuid
  en_denied :: "string option"

definition read_entry_of :: "db \<Rightarrow> string \<Rightarrow> uuid option \<Rightarrow> read_row \<Rightarrow> read_entry" where
  "read_entry_of db dir other l =
     \<lparr>en_id = rd_id l, en_at = rd_at l, en_dir = dir, en_agent = rd_agent l, en_originator = rd_originator l,
      en_other = (case other of None \<Rightarrow> None | Some k \<Rightarrow> map_option (\<lambda>r. (k, rm_name r)) (find_room k db)),
      en_summary = (rd_summary_bytes l > 0), en_recent = rd_recent l, en_truncated = rd_truncated l, en_task = rd_task l,
      en_denied = rd_denied l\<rparr>"

definition read_entries :: "uuid \<Rightarrow> db \<Rightarrow> read_entry list" where
  "read_entries room db =
     map (\<lambda>l. read_entry_of db ''out'' (rd_target l) l) (filter (\<lambda>l. rd_room l = room \<and> rd_denied l = None) (db_reads db))
   @ map (\<lambda>l. read_entry_of db ''in'' (Some (rd_room l)) l) (filter (\<lambda>l. rd_target l = Some room \<and> rd_denied l = None) (db_reads db))
   @ map (\<lambda>l. read_entry_of db ''denied'' (if rd_denied l = Some ''originator_left'' then rd_target l else None) l)
       (filter (\<lambda>l. rd_room l = room \<and> rd_denied l \<noteq> None) (db_reads db))"

end
