(* ===== verification/Read_Facts.thy ===== *)
theory Read_Facts
  imports Room_Read
begin

text \<open>
  What a read of another room promises: it stays within its budget and the turn within its rooms, what is
  not marked as cut is the whole answer, the list shows what a read would give, a read leaves its trace in
  both rooms and a refusal tells nothing about a room its reader may not know.
\<close>

section \<open>Cutting and spending\<close>

lemma rune_count_Cons: "rune_count (c # s) = (if starts_rune c then 1 else 0) + rune_count s"
  by (simp add: rune_count_def starts_rune_def)

lemma take_runes_count: "rune_count (take_runes n s) \<le> n"
proof (induction n s rule: take_runes.induct)
  case (1 n)
  show ?case by (simp add: rune_count_def)
next
  case (2 n c s)
  then show ?case by (auto simp: rune_count_Cons split: nat.split) (simp add: rune_count_def)
qed

lemma rune_count_append: "rune_count (s @ t) = rune_count s + rune_count t"
  by (simp add: rune_count_def)

lemma before_last_line_prefix: "before_last_line s = Some b \<Longrightarrow> \<exists>t. s = b @ t"
proof -
  assume b: "before_last_line s = Some b"
  then obtain x r where d: "dropWhile (\<lambda>c. c \<noteq> CHR 0x0A) (rev s) = x # r" "b = rev r"
    by (auto simp: before_last_line_def split: list.splits)
  have "rev s = takeWhile (\<lambda>c. c \<noteq> CHR 0x0A) (rev s) @ x # r" using d(1) by (metis takeWhile_dropWhile_id)
  then have "s = rev (takeWhile (\<lambda>c. c \<noteq> CHR 0x0A) (rev s) @ x # r)" by (metis rev_rev_ident)
  then show ?thesis using d(2) by auto
qed

lemma estimate_of_runes: "rune_count s \<le> 3 * n \<Longrightarrow> estimate_tokens s \<le> n"
  by (simp add: estimate_tokens_def)

lemma trim_fits: "estimate_tokens (fst (trim_to_tokens s n)) \<le> n"
proof -
  let ?c = "take_runes (min (n * 3) (rune_count s)) s"
  have c: "rune_count ?c \<le> 3 * n" using take_runes_count [of "min (n * 3) (rune_count s)" s] by simp
  have "rune_count b \<le> 3 * n" if "before_last_line ?c = Some b" for b
    using before_last_line_prefix [OF that] c by (auto simp: rune_count_append)
  with c show ?thesis
    by (auto simp: trim_to_tokens_def Let_def estimate_of_runes split: option.split)
      (simp add: estimate_tokens_def rune_count_def)
qed

lemma trim_untouched: "\<not> snd (trim_to_tokens s n) \<Longrightarrow> fst (trim_to_tokens s n) = s"
  by (auto simp: trim_to_tokens_def Let_def split: if_splits)

lemma spend_fits:
  "spend cost b xs = (ys, left, stop) \<Longrightarrow> sum_list (map cost ys) + left = b"
  by (induction cost b xs arbitrary: ys left stop rule: spend.induct) (auto split: if_splits prod.splits)

lemma spend_whole: "spend cost b xs = (ys, left, False) \<Longrightarrow> ys = xs"
  by (induction cost b xs arbitrary: ys left rule: spend.induct) (auto split: if_splits prod.splits)

lemma spend_prefix: "spend cost b xs = (ys, left, stop) \<Longrightarrow> \<exists>zs. xs = ys @ zs"
  by (induction cost b xs arbitrary: ys left stop rule: spend.induct) (auto split: if_splits prod.splits)

text \<open>
  The line break is looked for in bytes and compared with a limit in characters: a text of long characters
  loses more than half of what would fit.
\<close>

lemma trim_cuts_deep:
  "(let syllable = [CHR 0xEA, CHR 0xB0, CHR 0x80]; s = concat (replicate 3 syllable) @ [CHR 0x0A] @ concat (replicate 20 syllable)
    in estimate_tokens (fst (trim_to_tokens s 4)) = 1)"
  by code_simp

section \<open>What a read spends and what it leaves out\<close>

definition read_cost :: "read_result \<Rightarrow> nat" where
  "read_cost res = (case rr_summary res of None \<Rightarrow> 0 | Some s \<Rightarrow> estimate_tokens s)
     + sum_list (map decision_cost (rr_decisions res)) + sum_list (map artifact_cost (rr_artifacts res))
     + sum_list (map message_cost (rr_messages res))"

text \<open>The reading of a room without any budget.\<close>

definition whole_reading :: "(string \<Rightarrow> string) \<Rightarrow> nat \<Rightarrow> string \<Rightarrow> read_target \<Rightarrow> db \<Rightarrow> read_result" where
  "whole_reading low tail query t db =
     (blank_result t)\<lparr>
       rr_summary := (case latest_summary (tg_id t) db of None \<Rightarrow> None | Some s \<Rightarrow> if s = [] then None else Some s),
       rr_decisions := rev (found_decisions low (trim_space query) (tg_id t) db),
       rr_artifacts := rev (found_artifacts low (trim_space query) (tg_id t) db),
       rr_messages := rev (found_messages low (trim_space query) tail (tg_id t) db)\<rparr>"

lemma sum_list_rev_map: "sum_list (map f (rev xs)) = sum_list (map f xs :: nat list)"
  by (simp add: rev_map [symmetric])

text \<open>The four spendings of a reading.\<close>

lemma fill_steps:
  obtains chop trimmed ds b2 dstop as b3 astop ms b4 mstop where
    "(chop, trimmed) = (case latest_summary (rr_room res) db of None \<Rightarrow> ([], False) | Some s \<Rightarrow> trim_to_tokens s budget)"
    and "spend decision_cost (budget - estimate_tokens chop) (found_decisions low (trim_space query) (rr_room res) db) = (ds, b2, dstop)"
    and "spend artifact_cost b2 (found_artifacts low (trim_space query) (rr_room res) db) = (as, b3, astop)"
    and "spend message_cost b3 (found_messages low (trim_space query) tail (rr_room res) db) = (ms, b4, mstop)"
    and "fill low tail query budget res db =
      res\<lparr>rr_summary := (if chop = [] then None else Some chop), rr_decisions := rev ds, rr_artifacts := rev as,
          rr_messages := rev ms, rr_truncated := rr_truncated res \<or> trimmed \<or> dstop \<or> astop \<or> mstop\<rparr>"
proof -
  obtain chop trimmed where 1: "(chop, trimmed) = (case latest_summary (rr_room res) db of None \<Rightarrow> ([], False) | Some s \<Rightarrow> trim_to_tokens s budget)"
    by (metis prod.exhaust)
  obtain ds b2 dstop where 2: "spend decision_cost (budget - estimate_tokens chop) (found_decisions low (trim_space query) (rr_room res) db) = (ds, b2, dstop)"
    by (metis prod.exhaust)
  obtain as b3 astop where 3: "spend artifact_cost b2 (found_artifacts low (trim_space query) (rr_room res) db) = (as, b3, astop)"
    by (metis prod.exhaust)
  obtain ms b4 mstop where 4: "spend message_cost b3 (found_messages low (trim_space query) tail (rr_room res) db) = (ms, b4, mstop)"
    by (metis prod.exhaust)
  show ?thesis by (rule that [OF 1 2 3 4]) (simp add: fill_def Let_def 1 [symmetric] 2 3 4)
qed

lemma fill_within:
  assumes "rr_summary res = None"
  shows "read_cost (fill low tail query budget res db) \<le> budget"
    and "length (rr_messages (fill low tail query budget res db)) \<le> tail"
proof -
  obtain chop trimmed ds b2 dstop as b3 astop ms b4 mstop where
    1: "(chop, trimmed) = (case latest_summary (rr_room res) db of None \<Rightarrow> ([], False) | Some s \<Rightarrow> trim_to_tokens s budget)"
    and 2: "spend decision_cost (budget - estimate_tokens chop) (found_decisions low (trim_space query) (rr_room res) db) = (ds, b2, dstop)"
    and 3: "spend artifact_cost b2 (found_artifacts low (trim_space query) (rr_room res) db) = (as, b3, astop)"
    and 4: "spend message_cost b3 (found_messages low (trim_space query) tail (rr_room res) db) = (ms, b4, mstop)"
    and f: "fill low tail query budget res db =
      res\<lparr>rr_summary := (if chop = [] then None else Some chop), rr_decisions := rev ds, rr_artifacts := rev as,
          rr_messages := rev ms, rr_truncated := rr_truncated res \<or> trimmed \<or> dstop \<or> astop \<or> mstop\<rparr>"
    by (rule fill_steps)
  have c: "estimate_tokens chop \<le> budget"
    using 1 trim_fits [of _ budget] by (cases "latest_summary (rr_room res) db") (auto simp: estimate_tokens_def rune_count_def, metis fst_conv)
  have e: "(case if chop = [] then None else Some chop of None \<Rightarrow> 0 | Some s \<Rightarrow> estimate_tokens s) = estimate_tokens chop"
    by (simp add: estimate_tokens_def rune_count_def)
  show "read_cost (fill low tail query budget res db) \<le> budget"
    using spend_fits [OF 2] spend_fits [OF 3] spend_fits [OF 4] c
    by (simp add: f read_cost_def e sum_list_rev_map)
  obtain zs where "found_messages low (trim_space query) tail (rr_room res) db = ms @ zs" using spend_prefix [OF 4] by blast
  then have "length ms \<le> length (found_messages low (trim_space query) tail (rr_room res) db)" by simp
  also have "\<dots> \<le> tail" by (simp add: found_messages_def)
  finally show "length (rr_messages (fill low tail query budget res db)) \<le> tail" by (simp add: f)
qed

lemma fill_whole:
  assumes "\<not> rr_truncated (fill low tail query budget (blank_result t) db)"
  shows "fill low tail query budget (blank_result t) db = whole_reading low tail query t db"
proof -
  obtain chop trimmed ds b2 dstop as b3 astop ms b4 mstop where
    1: "(chop, trimmed) = (case latest_summary (rr_room (blank_result t)) db of None \<Rightarrow> ([], False) | Some s \<Rightarrow> trim_to_tokens s budget)"
    and 2: "spend decision_cost (budget - estimate_tokens chop) (found_decisions low (trim_space query) (rr_room (blank_result t)) db) = (ds, b2, dstop)"
    and 3: "spend artifact_cost b2 (found_artifacts low (trim_space query) (rr_room (blank_result t)) db) = (as, b3, astop)"
    and 4: "spend message_cost b3 (found_messages low (trim_space query) tail (rr_room (blank_result t)) db) = (ms, b4, mstop)"
    and f: "fill low tail query budget (blank_result t) db =
      (blank_result t)\<lparr>rr_summary := (if chop = [] then None else Some chop), rr_decisions := rev ds, rr_artifacts := rev as,
          rr_messages := rev ms, rr_truncated := rr_truncated (blank_result t) \<or> trimmed \<or> dstop \<or> astop \<or> mstop\<rparr>"
    by (rule fill_steps)
  have n: "\<not> trimmed" "\<not> dstop" "\<not> astop" "\<not> mstop" using assms by (auto simp: f)
  have chop: "(if chop = [] then None else Some chop) =
      (case latest_summary (tg_id t) db of None \<Rightarrow> None | Some s \<Rightarrow> if s = [] then None else Some s)"
  proof (cases "latest_summary (tg_id t) db")
    case None
    then show ?thesis using 1 by (simp add: blank_result_def)
  next
    case (Some s)
    then have "trim_to_tokens s budget = (chop, trimmed)" using 1 by (simp add: blank_result_def)
    with n trim_untouched [of s budget] have "chop = s" by simp
    with Some show ?thesis by simp
  qed
  have "ds = found_decisions low (trim_space query) (tg_id t) db" "as = found_artifacts low (trim_space query) (tg_id t) db"
    "ms = found_messages low (trim_space query) tail (tg_id t) db"
    using spend_whole 2 3 4 n by (auto simp: blank_result_def dest!: spend_whole)
  then show ?thesis unfolding f chop using n by (simp add: whole_reading_def blank_result_def)
qed

lemma answered:
  assumes "read_room low ut r target tail query db = Inr (Answered res, db')"
  obtains rd where "load_reader r db = Inr rd" and "target \<noteq> rc_room r"
    and "ve_allowed (judge_read (tg_facts (load_target rd target db)))"
    and "read_allowed low ut r rd (load_target rd target db) (if tail \<le> 0 then 30 else nat tail) query db = (Answered res, db')"
  using assms by (auto simp: read_room_def Let_def split: if_splits)

lemma refused_read:
  assumes "read_room low ut r target tail query db = Inr (Refused d, db')"
  obtains rd where "load_reader r db = Inr rd" and "target \<noteq> rc_room r"
    and "\<not> ve_allowed (judge_read (tg_facts (load_target rd target db)))"
    and "d = denial_of rd (load_target rd target db) (judge_read (tg_facts (load_target rd target db)))"
    and "db' = record_denied ut rd (load_target rd target db) (judge_read (tg_facts (load_target rd target db))) d (db_clock db) db"
  using assms by (auto simp: read_room_def read_allowed_def Let_def split: if_splits prod.splits)

lemma load_target_id: "tg_id (load_target rd i db) = i"
  by (auto simp: load_target_def target_row_def find_Some_iff split: option.split)

lemma fill_capped: "rr_capped (fill low tail query budget (blank_result t) db) = False"
  by (rule fill_steps [where res = "blank_result t" and db = db and budget = budget and low = low and query = query and tail = tail]) (simp add: blank_result_def)

lemma reading_cases:
  assumes "read_allowed low ut r rd t tail query db = (Answered res, db')"
  obtains (capped) "rr_capped res" "res = (blank_result t)\<lparr>rr_truncated := True, rr_capped := True\<rparr>"
      "db' = insert_server_event (rc_task r) (rc_attempt r) ''status'' ''read'' (ut (tg_id t)) ''ok'' (db_clock db) db"
  | (filled) "\<not> rr_capped res" "res = fill low tail query (po_tokens (load_policy (re_workspace rd) db)) (blank_result t) db"
      "snd (rooms_read_this_turn r (tg_id t) db) \<or> fst (rooms_read_this_turn r (tg_id t) db) < po_rooms (load_policy (re_workspace rd) db)"
      "db' = record_allowed ut rd t res (db_clock db) db"
  using assms
  by (auto simp: read_allowed_def Let_def fill_capped split: prod.splits if_splits)

lemma blank_cost: "read_cost ((blank_result t)\<lparr>rr_truncated := b, rr_capped := c\<rparr>) = 0"
  by (simp add: read_cost_def blank_result_def)

text \<open>
  C23 A read of another room stays within its budget: the summary, decisions, artifacts and messages it
  returns cost no more than the tokens the workspace allows one read, and it returns no more messages than
  were asked for.
\<close>

theorem read_within_budget:
  assumes "load_reader r db = Inr rd" and "read_room low ut r target tail query db = Inr (Answered res, db')"
  shows "read_cost res \<le> po_tokens (load_policy (re_workspace rd) db)
     \<and> length (rr_messages res) \<le> (if tail \<le> 0 then 30 else nat tail)"
proof -
  from assms have a: "read_allowed low ut r rd (load_target rd target db) (if tail \<le> 0 then 30 else nat tail) query db = (Answered res, db')"
    by (elim answered) simp
  have b: "rr_summary (blank_result t) = None" for t by (simp add: blank_result_def)
  from a show ?thesis
  proof (cases rule: reading_cases)
    case capped
    then show ?thesis by (simp add: blank_cost) (simp add: blank_result_def)
  next
    case filled
    then show ?thesis using fill_within [OF b] by blast
  qed
qed

text \<open>
  C24 What is not marked as cut is the whole answer: a read that is not truncated returns exactly what the
  reading without any budget returns.
\<close>

theorem untruncated_read_is_whole:
  assumes "load_reader r db = Inr rd" and "read_room low ut r target tail query db = Inr (Answered res, db')"
    and "\<not> rr_truncated res"
  shows "res = whole_reading low (if tail \<le> 0 then 30 else nat tail) query (load_target rd target db) db"
proof -
  from assms(1,2) have a: "read_allowed low ut r rd (load_target rd target db) (if tail \<le> 0 then 30 else nat tail) query db = (Answered res, db')"
    by (elim answered) simp
  from a show ?thesis
  proof (cases rule: reading_cases)
    case capped
    with assms(3) show ?thesis by simp
  next
    case filled
    with fill_whole assms(3) show ?thesis by metis
  qed
qed

section \<open>The list and the read\<close>

lemma trim_nothing: "trim_space [] = []"
  by code_simp

lemma target_id: "tg_id (target_row rd db rm) = rm_id rm"
  by (simp add: target_row_def)

lemma listed_target:
  assumes "distinct (map rm_id (db_rooms db))" and "rm \<in> set (db_rooms db)" and "rm_workspace rm = re_workspace rd"
  shows "load_target rd (rm_id rm) db = target_row rd db rm"
proof -
  obtain x where x: "find (\<lambda>r. rm_workspace r = re_workspace rd \<and> rm_id r = rm_id rm) (db_rooms db) = Some x"
    using assms(2,3) by (cases "find (\<lambda>r. rm_workspace r = re_workspace rd \<and> rm_id r = rm_id rm) (db_rooms db)") (auto simp: find_None_iff)
  then have "x \<in> set (db_rooms db)" "rm_id x = rm_id rm" by (auto simp: find_Some_iff)
  with assms have "x = rm" by (auto simp: distinct_map inj_on_def)
  with x show ?thesis by (simp add: load_target_def)
qed

lemma reader_caller: "load_reader r db = Inr rd \<Longrightarrow> rc_task rd = rc_task r \<and> rc_attempt rd = rc_attempt r \<and> rc_agent rd = rc_agent r \<and> rc_room rd = rc_room r"
  by (auto simp: load_reader_def read_caller.defs split: option.splits if_splits)

text \<open>
  C25 The list shows what a read would give: a room is on the list of readable rooms exactly when it is not
  the room of the task and reading it is not refused.
\<close>

theorem listed_iff_readable:
  assumes "distinct (map rm_id (db_rooms db))" and "readable_rooms low r [] db = Inr ts"
  shows "target \<in> (\<lambda>(t, _). tg_id t) ` set ts \<longleftrightarrow> (\<exists>res db'. read_room low ut r target tail query db = Inr (Answered res, db'))"
proof -
  obtain rd where rd: "load_reader r db = Inr rd" using assms(2) by (auto simp: readable_rooms_def)
  have ans: "(\<exists>res db'. read_room low ut r target tail query db = Inr (Answered res, db')) \<longleftrightarrow>
      target \<noteq> rc_room r \<and> ve_allowed (judge_read (tg_facts (load_target rd target db)))"
    by (auto simp: read_room_def rd read_allowed_def Let_def split: prod.splits)
  show ?thesis
  proof (cases "re_originator rd")
    case None
    have "fa_originator (tg_facts (load_target rd target db)) = False"
      by (auto simp: load_target_def target_row_def None split: option.split)
    then have "\<not> ve_allowed (judge_read (tg_facts (load_target rd target db)))" by (simp add: judge_allows)
    then show ?thesis using assms(2) by (simp add: ans readable_rooms_def rd None)
  next
    case (Some u)
    have ts: "target \<in> (\<lambda>(t, _). tg_id t) ` set ts \<longleftrightarrow>
        (\<exists>rm \<in> set (db_rooms db). rm_id rm = target \<and> rm_workspace rm = re_workspace rd \<and> rm_id rm \<noteq> rc_room r
           \<and> seat_of (rm_id rm) u db \<noteq> None \<and> ve_allowed (judge_read (tg_facts (target_row rd db rm))))"
    proof -
      have "ts = map (\<lambda>t. (t, ve_via_link (judge_read (tg_facts t))))
          (filter (\<lambda>t. ve_allowed (judge_read (tg_facts t))) (map (target_row rd db)
            (filter (\<lambda>rm. rm_workspace rm = re_workspace rd \<and> rm_id rm \<noteq> rc_room r \<and> seat_of (rm_id rm) u db \<noteq> None) (db_rooms db))))"
        using assms(2) by (simp add: readable_rooms_def rd Some finds_def trim_nothing)
      then have "(\<lambda>(t, _). tg_id t) ` set ts = rm_id ` {rm \<in> set (db_rooms db). rm_workspace rm = re_workspace rd \<and> rm_id rm \<noteq> rc_room r
            \<and> seat_of (rm_id rm) u db \<noteq> None \<and> ve_allowed (judge_read (tg_facts (target_row rd db rm)))}"
        by (simp add: filter_map image_image o_def target_id)
      then show ?thesis by auto
    qed
    have "(\<exists>rm \<in> set (db_rooms db). rm_id rm = target \<and> rm_workspace rm = re_workspace rd
           \<and> seat_of (rm_id rm) u db \<noteq> None \<and> ve_allowed (judge_read (tg_facts (target_row rd db rm)))) \<longleftrightarrow>
        ve_allowed (judge_read (tg_facts (load_target rd target db)))"
    proof
      assume "\<exists>rm \<in> set (db_rooms db). rm_id rm = target \<and> rm_workspace rm = re_workspace rd
           \<and> seat_of (rm_id rm) u db \<noteq> None \<and> ve_allowed (judge_read (tg_facts (target_row rd db rm)))"
      then show "ve_allowed (judge_read (tg_facts (load_target rd target db)))" using listed_target [OF assms(1)] by auto
    next
      assume a: "ve_allowed (judge_read (tg_facts (load_target rd target db)))"
      then obtain rm where f: "find (\<lambda>r. rm_workspace r = re_workspace rd \<and> rm_id r = target) (db_rooms db) = Some rm"
        by (auto simp: load_target_def judge_allows split: option.splits)
      then have rm: "rm \<in> set (db_rooms db)" "rm_id rm = target" "rm_workspace rm = re_workspace rd" by (auto simp: find_Some_iff)
      have t: "load_target rd target db = target_row rd db rm" by (simp add: load_target_def f)
      then have "standing_in target (Some u) db = InRoom" using a rm by (simp add: judge_allows target_row_def Some)
      then have "seat_of (rm_id rm) u db \<noteq> None" using rm by (auto simp: standing_in_def split: option.splits)
      with a t rm show "\<exists>rm \<in> set (db_rooms db). rm_id rm = target \<and> rm_workspace rm = re_workspace rd
           \<and> seat_of (rm_id rm) u db \<noteq> None \<and> ve_allowed (judge_read (tg_facts (target_row rd db rm)))" by auto
    qed
    then show ?thesis unfolding ts ans by blast
  qed
qed

section \<open>A refusal tells nothing\<close>

lemma judge_reason:
  "\<not> ve_allowed (judge_read f) \<Longrightarrow> ve_reason (judge_read f) = ''originator_not_participant'' \<Longrightarrow>
     fa_originator f \<and> judge_read f = refused ''originator_not_participant'' False"
  by (auto simp: judge_read_def refused_def Let_def split: membership.splits if_splits)

lemma judge_missing: "judge_read \<lparr>fa_originator = True, fa_membership = NotMember, fa_agent = a, fa_linked = l\<rparr>
    = refused ''originator_not_participant'' False"
  by (simp add: judge_read_def)

lemma target_originator: "fa_originator (tg_facts (load_target rd i db)) \<longleftrightarrow> re_originator rd \<noteq> None"
  by (simp add: load_target_def target_row_def split: option.split)

lemma missing_target:
  assumes "find_room i db = None"
  shows "load_target rd i db = \<lparr>tg_id = i, tg_name = [], tg_description = [], tg_last = None,
    tg_facts = \<lparr>fa_originator = (re_originator rd \<noteq> None), fa_membership = NotMember, fa_agent = False, fa_linked = False\<rparr>\<rparr>"
proof -
  have "find (\<lambda>r. rm_workspace r = re_workspace rd \<and> rm_id r = i) (db_rooms db) = None"
    using assms by (auto simp: find_room_def tbl_get_def find_None_iff)
  then show ?thesis by (simp add: load_target_def)
qed

lemma denied_rows_of:
  assumes "x = record_denied ut rd t v d now db"
  shows "db_rooms x = db_rooms db" and "db_reads x = db_reads db @ [\<lparr>rd_id = db_next db, rd_room = rc_room rd, rd_task = rc_task rd,
      rd_agent = rc_agent rd, rd_originator = re_originator rd, rd_target = (if tg_name t = [] then None else Some (tg_id t)),
      rd_denied = Some (ve_reason v), rd_summary_bytes = 0, rd_recent = 0, rd_truncated = False, rd_at = now\<rparr>]"
  unfolding assms by (simp_all add: record_denied_def Let_def insert_read_def insert_server_event_def read_activity_def)

lemma denied_alike:
  assumes "\<not> ve_reveal v" and "ve_reason v \<noteq> ''originator_left''"
    and x: "x = record_denied ut rd t v d now db" and y: "y = record_denied ut rd u v d now db"
  shows "x\<lparr>db_reads := []\<rparr> = y\<lparr>db_reads := []\<rparr>" and "read_entries room x = read_entries room y"
proof -
  show "x\<lparr>db_reads := []\<rparr> = y\<lparr>db_reads := []\<rparr>"
    using assms(1) by (simp add: x y record_denied_def Let_def insert_read_def insert_server_event_def read_activity_def)
  have f: "find_room k x = find_room k db" "find_room k y = find_room k db" for k
    by (simp_all add: find_room_def denied_rows_of(1) [OF x] denied_rows_of(1) [OF y])
  have e: "read_entry_of x = read_entry_of db" "read_entry_of y = read_entry_of db"
    by (simp_all add: fun_eq_iff read_entry_of_def f cong: option.case_cong)
  show "read_entries room x = read_entries room y"
    unfolding read_entries_def e denied_rows_of(2) [OF x] denied_rows_of(2) [OF y] using assms(2)
    by (simp add: read_entry_of_def)
qed

text \<open>
  C22 A refused read tells nothing about a room its reader may not know: when a read is refused because the
  person behind the task is not in the room, reading a room that does not exist gives the same refusal and
  leaves the same store, but for the target of the audit row, which no room's log of reads shows.
\<close>

theorem refusal_tells_nothing:
  assumes "read_room low ut r target tail query db = Inr (Refused d, db1)" and "dn_reason d = ''originator_not_participant''"
    and "find_room missing db = None" and "missing \<noteq> rc_room r"
  shows "\<exists>db2. read_room low ut r missing tail query db = Inr (Refused d, db2)
     \<and> db1\<lparr>db_reads := []\<rparr> = db2\<lparr>db_reads := []\<rparr> \<and> (\<forall>room. read_entries room db1 = read_entries room db2)"
proof -
  let ?v = "refused ''originator_not_participant'' False"
  obtain rd where rd: "load_reader r db = Inr rd" and no: "\<not> ve_allowed (judge_read (tg_facts (load_target rd target db)))"
    and d: "d = denial_of rd (load_target rd target db) (judge_read (tg_facts (load_target rd target db)))"
    and db1: "db1 = record_denied ut rd (load_target rd target db) (judge_read (tg_facts (load_target rd target db))) d (db_clock db) db"
    using assms(1) by (rule refused_read)
  have v: "judge_read (tg_facts (load_target rd target db)) = ?v" and o: "re_originator rd \<noteq> None"
    using judge_reason [OF no] assms(2) target_originator by (auto simp: d denial_of_def)
  let ?m = "load_target rd missing db"
  have m: "judge_read (tg_facts ?m) = ?v" by (simp add: missing_target [OF assms(3)] o judge_missing)
  have dm: "denial_of rd ?m ?v = d" by (simp add: d v denial_of_def refused_def)
  let ?db2 = "record_denied ut rd ?m ?v d (db_clock db) db"
  have "read_room low ut r missing tail query db = Inr (Refused d, ?db2)"
    using assms(4) by (simp add: read_room_def rd Let_def m dm) (simp add: refused_def)
  moreover have "db1\<lparr>db_reads := []\<rparr> = ?db2\<lparr>db_reads := []\<rparr>" "read_entries room db1 = read_entries room ?db2" for room
    by (rule denied_alike [OF _ _ db1 [unfolded v] refl]; simp add: refused_def)+
  ultimately show ?thesis by blast
qed

section \<open>The trace of a read\<close>

lemma allowed_rows:
  assumes "db' = record_allowed ut rd t res now db" and "load_reader r db = Inr rd"
  shows "list_ex (\<lambda>e. en_id e = db_next db \<and> en_dir e = ''out'' \<and> en_task e = rc_task r) (read_entries (rc_room r) db')"
    and "list_ex (\<lambda>e. en_id e = db_next db \<and> en_dir e = ''in'' \<and> en_task e = rc_task r) (read_entries (tg_id t) db')"
    and "list_ex (\<lambda>m. ms_room m = tg_id t \<and> ms_kind m = ''system'' \<and> ms_id m > db_next db) (db_messages db')"
  using reader_caller [OF assms(2)]
  by (simp_all add: assms(1) record_allowed_def Let_def insert_read_def insert_server_event_def read_activity_def announce_def
      system_post_def insert_message_def read_entries_def read_entry_of_def)

lemma denied_rows:
  assumes "db' = record_denied ut rd t v d now db" and "load_reader r db = Inr rd"
  shows "list_ex (\<lambda>e. en_id e = db_next db \<and> en_dir e = ''denied'' \<and> en_denied e = Some (ve_reason v)
         \<and> (en_other e = None \<or> ve_reason v = ''originator_left'')) (read_entries (rc_room r) db')"
    and "db_messages db' = db_messages db"
  using reader_caller [OF assms(2)]
  by (simp_all add: assms(1) record_denied_def Let_def insert_read_def insert_server_event_def read_activity_def
      read_entries_def read_entry_of_def)

text \<open>The attempt has read as many rooms as it may, and this one is not among them.\<close>

definition turn_limit_met :: "read_caller \<Rightarrow> room_reader \<Rightarrow> uuid \<Rightarrow> db \<Rightarrow> bool" where
  "turn_limit_met r rd target db \<longleftrightarrow>
     (let rooms = turn_rooms (rc_task r) (rc_attempt r) db
      in \<not> List.member rooms target \<and> po_rooms (load_policy (re_workspace rd) db) \<le> length rooms)"

lemma limit_met_counts:
  "turn_limit_met r rd target db \<longleftrightarrow>
     \<not> snd (rooms_read_this_turn r target db) \<and> po_rooms (load_policy (re_workspace rd) db) \<le> fst (rooms_read_this_turn r target db)"
proof -
  have "\<not> List.member rooms target \<Longrightarrow> filter (\<lambda>t. t \<noteq> target) rooms = rooms" for rooms
    by (rule filter_True) auto
  then show ?thesis by (auto simp: turn_limit_met_def rooms_read_this_turn_def Let_def)
qed

lemma capped_iff:
  assumes "read_allowed low ut r rd t tail query db = (Answered res, db')"
  shows "rr_capped res = turn_limit_met r rd (tg_id t) db"
  using assms
  by (auto simp: limit_met_counts read_allowed_def Let_def fill_capped split: prod.splits if_splits)

text \<open>
  C27 A read leaves its trace. A read that returns content is in the log of the reading room as read and in
  the log of the read room as read by it, under one number, with a message in the read room. A refused one is
  in the log of the reading room, where a room is named only when the person left it, and nothing is said
  elsewhere. Exempt are the capped reads alone, those of one more room by an attempt that has read as many as
  it may: they return nothing, which the answer marks as truncated, add no row to either log and no message,
  and leave one event in the feed of the task.
\<close>

theorem read_leaves_trace:
  assumes "read_room low ut r target tail query db = Inr (a, db')" and "load_reader r db = Inr rd"
  shows "case a of
     Answered res \<Rightarrow> rr_capped res = turn_limit_met r rd target db
     \<and> (if rr_capped res
        then read_cost res = 0 \<and> rr_truncated res \<and> db_reads db' = db_reads db \<and> db_messages db' = db_messages db
          \<and> map (\<lambda>e. (ev_task e, ev_verb e)) (drop (length (db_events db)) (db_events db')) = [(rc_task r, ''read'')]
        else list_ex (\<lambda>e. en_id e = db_next db \<and> en_dir e = ''out'' \<and> en_task e = rc_task r) (read_entries (rc_room r) db')
          \<and> list_ex (\<lambda>e. en_id e = db_next db \<and> en_dir e = ''in'' \<and> en_task e = rc_task r) (read_entries target db')
          \<and> list_ex (\<lambda>m. ms_room m = target \<and> ms_kind m = ''system'' \<and> ms_id m > db_next db) (db_messages db'))
   | Refused d \<Rightarrow>
       list_ex (\<lambda>e. en_id e = db_next db \<and> en_dir e = ''denied'' \<and> en_denied e = Some (dn_reason d)
         \<and> (en_other e = None \<or> dn_reason d = ''originator_left'')) (read_entries (rc_room r) db')
     \<and> db_messages db' = db_messages db"
proof (cases a)
  case (Refused d)
  from assms(1) [unfolded Refused] show ?thesis
  proof (rule refused_read)
    fix rd assume rd: "load_reader r db = Inr rd"
      and "d = denial_of rd (load_target rd target db) (judge_read (tg_facts (load_target rd target db)))"
      and db': "db' = record_denied ut rd (load_target rd target db) (judge_read (tg_facts (load_target rd target db))) d (db_clock db) db"
    then show ?thesis using denied_rows [OF db' rd] by (simp add: Refused denial_of_def)
  qed
next
  case (Answered res)
  from assms(1) [unfolded Answered] show ?thesis
  proof (rule answered)
    fix rd' assume rd': "load_reader r db = Inr rd'"
      and "read_allowed low ut r rd' (load_target rd' target db) (if tail \<le> 0 then 30 else nat tail) query db = (Answered res, db')"
    moreover have "rd' = rd" using assms(2) rd' by simp
    ultimately have al: "read_allowed low ut r rd (load_target rd target db) (if tail \<le> 0 then 30 else nat tail) query db = (Answered res, db')"
      by simp
    note met = capped_iff [OF al, unfolded load_target_id]
    from al show ?thesis
    proof (cases rule: reading_cases)
      case capped
      then show ?thesis using met by (simp add: Answered blank_cost insert_server_event_def)
    next
      case filled
      then show ?thesis using met allowed_rows [OF filled(4) assms(2)] by (simp add: Answered load_target_id)
    qed
  qed
qed

section \<open>The rooms of a turn\<close>

text \<open>What a read leaves alone.\<close>

definition read_frame :: "db \<Rightarrow> db \<Rightarrow> bool" where
  "read_frame db db' \<longleftrightarrow> db_tasks db' = db_tasks db \<and> db_rooms db' = db_rooms db \<and> db_agents db' = db_agents db
     \<and> db_users db' = db_users db \<and> db_settings db' = db_settings db \<and> db_attempts db' = db_attempts db"

lemma frame_writes:
  "read_frame db (record_allowed ut rd t res now db)" "read_frame db (record_denied ut rd t v d now db)"
  "read_frame db (insert_server_event i n c vb ob oc now db)" "read_frame db db"
  by (simp_all add: read_frame_def record_allowed_def record_denied_def Let_def insert_read_def insert_server_event_def
      read_activity_def announce_def system_post_def insert_message_def)

lemma frame_reader:
  assumes "read_frame db db'"
  shows "load_reader r db' = load_reader r db" and "load_policy ws db' = load_policy ws db" and "turn_start i n db' = turn_start i n db"
proof -
  have n: "user_name u db' = user_name u db" "agent_name g db' = agent_name g db" "get_task i db' = get_task i db"
    "find_room k db' = find_room k db" for u g i k
    using assms by (simp_all add: read_frame_def user_name_def agent_name_def get_task_def find_room_def)
  have a: "db_agents db' = db_agents db" using assms by (simp add: read_frame_def)
  show "load_reader r db' = load_reader r db" unfolding load_reader_def n a by (rule refl)
  show "load_policy ws db' = load_policy ws db" "turn_start i n db' = turn_start i n db"
    using assms by (simp_all add: read_frame_def load_policy_def turn_start_def)
qed

lemma allowed_reads:
  assumes "load_reader c db = Inr rd"
  shows "\<exists>x. db_reads (record_allowed ut rd t res now db) = db_reads db @ [x] \<and> rd_task x = rc_task c \<and> rd_target x = Some (tg_id t)"
  using reader_caller [OF assms]
  by (simp add: record_allowed_def Let_def insert_read_def insert_server_event_def
      read_activity_def announce_def system_post_def insert_message_def)

lemma denied_reads: "\<exists>x. db_reads (record_denied ut rd t v d now db) = db_reads db @ [x] \<and> rd_denied x \<noteq> None"
  by (simp add: record_denied_def Let_def insert_read_def insert_server_event_def read_activity_def)

lemma turn_rooms_frame:
  assumes "read_frame db db'"
  shows "db_reads db' = db_reads db \<Longrightarrow> turn_rooms i n db' = turn_rooms i n db"
    and "db_reads db' = db_reads db @ [x] \<Longrightarrow> rd_denied x \<noteq> None \<or> rd_task x \<noteq> i \<Longrightarrow> turn_rooms i n db' = turn_rooms i n db"
    and "db_reads db' = db_reads db @ [x] \<Longrightarrow> rd_target x = Some k \<Longrightarrow>
      set (turn_rooms i n db') = set (turn_rooms i n db) \<or> set (turn_rooms i n db') = insert k (set (turn_rooms i n db))"
  by (auto simp: turn_rooms_def frame_reader(3) [OF assms] map_filter_def)

lemma read_frame_room:
  assumes "read_room low ut c target tail query db = Inr (a, db')"
  shows "read_frame db db'"
  using assms frame_writes by (auto simp: read_room_def read_allowed_def Let_def split: if_splits prod.splits)

definition turn_ok :: "read_caller \<Rightarrow> db \<Rightarrow> bool" where
  "turn_ok r db \<longleftrightarrow>
     (case load_reader r db of
        Inl _ \<Rightarrow> True
      | Inr rd \<Rightarrow> length (turn_rooms (rc_task r) (rc_attempt r) db) \<le> po_rooms (load_policy (re_workspace rd) db))"

text \<open>A request of any attempt; the token of another attempt of the reading task is dead.\<close>

definition serve_read ::
    "(string \<Rightarrow> string) \<Rightarrow> (uuid \<Rightarrow> string) \<Rightarrow> read_caller \<Rightarrow> read_caller \<times> uuid \<times> int \<times> string \<Rightarrow> db \<Rightarrow> db_error + db" where
  "serve_read low ut r q db =
     (case q of (c, target, tail, query) \<Rightarrow>
        if rc_task c = rc_task r \<and> c \<noteq> r then Inl ErrStaleAttempt
        else map_sum id snd (read_room low ut c target tail query db))"

lemma own_read_keeps:
  assumes ok: "turn_ok r db" and rd: "load_reader r db = Inr rd"
    and a: "read_allowed low ut r rd t tail query db = (Answered res, db')"
  shows "length (turn_rooms (rc_task r) (rc_attempt r) db') \<le> po_rooms (load_policy (re_workspace rd) db)"
  using a
proof (cases rule: reading_cases)
  case capped
  have "turn_rooms (rc_task r) (rc_attempt r) db' = turn_rooms (rc_task r) (rc_attempt r) db"
    by (rule turn_rooms_frame(1)) (simp_all add: capped(3) frame_writes, simp add: insert_server_event_def)
  then show ?thesis using ok by (simp add: turn_ok_def rd)
next
  case filled
  let ?old = "turn_rooms (rc_task r) (rc_attempt r) db" and ?new = "turn_rooms (rc_task r) (rc_attempt r) db'"
  let ?cap = "po_rooms (load_policy (re_workspace rd) db)"
  obtain x where x: "db_reads db' = db_reads db @ [x]" "rd_target x = Some (tg_id t)"
    using allowed_reads [OF rd] filled(4) by blast
  have f: "read_frame db db'" by (simp add: filled(4) frame_writes)
  have d: "distinct ?old" "distinct ?new" by (simp_all add: turn_rooms_def)
  have old: "length ?old \<le> ?cap" using ok by (simp add: turn_ok_def rd)
  from turn_rooms_frame(3) [OF f x] show ?thesis
  proof
    assume "set ?new = set ?old"
    then have "length ?new = length ?old" using d by (metis distinct_card)
    with old show ?thesis by simp
  next
    assume new: "set ?new = insert (tg_id t) (set ?old)"
    show ?thesis
    proof (cases "tg_id t \<in> set ?old")
      case True
      then have "length ?new = length ?old" using new d by (metis distinct_card insert_absorb)
      with old show ?thesis by simp
    next
      case False
      then have "filter (\<lambda>k. k \<noteq> tg_id t) ?old = ?old" by (auto simp: filter_id_conv)
      then have "length ?old < ?cap" using filled(3) False by (simp add: rooms_read_this_turn_def Let_def)
      moreover have "length ?new = Suc (length ?old)"
        using new d False by (metis card_insert_disjoint distinct_card List.finite_set)
      ultimately show ?thesis by simp
    qed
  qed
qed

lemma read_keeps_turn:
  assumes ok: "turn_ok r db" and s: "serve_read low ut r q db = Inr db'"
  shows "turn_ok r db'"
proof -
  obtain c target tail query where q: "q = (c, target, tail, query)" by (metis prod.exhaust)
  from s obtain a where a: "read_room low ut c target tail query db = Inr (a, db')" and own: "rc_task c = rc_task r \<longrightarrow> c = r"
    by (cases "read_room low ut c target tail query db") (auto simp: serve_read_def q split: if_splits)
  have f: "read_frame db db'" by (rule read_frame_room [OF a])
  show ?thesis
  proof (cases a)
    case (Refused d)
    from a [unfolded Refused] obtain x where "db_reads db' = db_reads db @ [x]" "rd_denied x \<noteq> None"
      by (rule refused_read) (use denied_reads in blast)
    then have "turn_rooms (rc_task r) (rc_attempt r) db' = turn_rooms (rc_task r) (rc_attempt r) db"
      by (intro turn_rooms_frame(2) [OF f]) auto
    then show ?thesis using ok by (simp add: turn_ok_def frame_reader [OF f] split: sum.splits)
  next
    case (Answered res)
    show ?thesis
    proof (cases "c = r")
      case True
      from a [unfolded Answered True] show ?thesis
      proof (rule answered)
        fix rd assume rd: "load_reader r db = Inr rd"
          and al: "read_allowed low ut r rd (load_target rd target db) (if tail \<le> 0 then 30 else nat tail) query db = (Answered res, db')"
        show ?thesis using own_read_keeps [OF ok rd al] by (simp add: turn_ok_def frame_reader [OF f] rd)
      qed
    next
      case False
      from a [unfolded Answered] obtain rd where rd: "load_reader c db = Inr rd"
        and al: "read_allowed low ut c rd (load_target rd target db) (if tail \<le> 0 then 30 else nat tail) query db = (Answered res, db')"
        by (rule answered)
      have "turn_rooms (rc_task r) (rc_attempt r) db' = turn_rooms (rc_task r) (rc_attempt r) db"
        using al
      proof (cases rule: reading_cases)
        case capped
        then show ?thesis by (intro turn_rooms_frame(1) [OF f]) (simp add: insert_server_event_def)
      next
        case filled
        obtain x where "db_reads db' = db_reads db @ [x]" "rd_task x = rc_task c" using allowed_reads [OF rd] filled(4) by blast
        then show ?thesis using own False by (intro turn_rooms_frame(2) [OF f]) auto
      qed
      then show ?thesis using ok by (simp add: turn_ok_def frame_reader [OF f] split: sum.splits)
    qed
  qed
qed

interpretation read_requests: transactional "serve_read low ut r" "turn_ok r" "\<lambda>x y. True" for low ut r
  by unfold_locales (auto intro: read_keeps_turn)

text \<open>
  C18 A turn reads no more rooms than its workspace allows: whatever reads an attempt asks for, between the
  reads of any other tasks, the rooms read since its dispatch stay within the workspace's limit.
\<close>

theorem turn_reads_bounded:
  assumes "turn_ok r db"
  shows "turn_ok r (fold (\<lambda>q. in_tx (serve_read low ut r q)) qs db)"
  by (rule read_requests.run_inv [OF assms])

section \<open>A workspace with two rooms\<close>

text \<open>A task of room 2 asks for room 6, where its person and its agent are; room 2 is hidden from the task of room 6.\<close>

definition shelf_room :: room_row where
  "shelf_room = house_room\<lparr>rm_id := 6, rm_name := ''shelf'', rm_owner := 12, rm_deputy := None\<rparr>"

definition shelf_message :: "uuid \<Rightarrow> string \<Rightarrow> string \<Rightarrow> message_row" where
  "shelf_message i kind content =
     \<lparr>ms_id = i, ms_room = 6, ms_source_task = None, ms_created_at = 6, ms_author = ByUser, ms_kind = kind, ms_work = None,
      ms_ranged = False, ms_author_id = Some 12, ms_parent = None, ms_content = content, ms_mentions = [],
      ms_speech = None, ms_addressees = [], ms_responds_to = None, ms_delegated_lane = None, ms_group = None, ms_card = None\<rparr>"

definition shelf_db :: db where
  "shelf_db = house_db\<lparr>
     db_rooms := [house_room, shelf_room],
     db_participants := [house_seat 3 11 RoleOwner, house_seat 4 12 RoleDeputy, (house_seat 9 12 RoleOwner)\<lparr>pr_room := 6\<rparr>,
       (house_seat 10 14 RoleMember)\<lparr>pr_room := 6, pr_agent := Some 8, pr_user := None\<rparr>,
       (house_seat 15 13 RoleMember)\<lparr>pr_room := 6\<rparr>],
     db_agents := [\<lparr>ag_id = 8, ag_max_tasks = 1, ag_name = ''scribe'', ag_disabled = False, ag_budget = None\<rparr>],
     db_users := [\<lparr>au_id = 12, au_name = ''Noa''\<rparr>, \<lparr>au_id = 13, au_name = ''Ida''\<rparr>],
     db_messages := [shelf_message 11 ''summary'' ''so far'', shelf_message 12 ''text'' ''more''],
     db_tasks := [card_task\<lparr>tk_id := 7, tk_room := 2, tk_agent := 8, tk_originator := Some 12\<rparr>,
       card_task\<lparr>tk_id := 8, tk_room := 6, tk_agent := 8, tk_originator := Some 13\<rparr>]\<rparr>"

definition shelf_reader :: read_caller where
  "shelf_reader = \<lparr>rc_task = 7, rc_attempt = 1, rc_agent = 8, rc_room = 2\<rparr>"

definition shelf_stranger :: read_caller where
  "shelf_stranger = \<lparr>rc_task = 8, rc_attempt = 1, rc_agent = 8, rc_room = 6\<rparr>"

fun read_whole :: "db_error + read_answer \<times> db \<Rightarrow> bool" where
  "read_whole (Inr (Answered res, _)) = (\<not> rr_truncated res)"
| "read_whole _ = False"

lemma shelf_read: "\<exists>res db'. read_room id (\<lambda>_. []) shelf_reader 6 5 [] shelf_db = Inr (Answered res, db') \<and> \<not> rr_truncated res"
proof -
  have "read_whole (read_room id (\<lambda>_. []) shelf_reader 6 5 [] shelf_db)" by code_simp
  then show ?thesis by (cases "read_room id (\<lambda>_. []) shelf_reader 6 5 [] shelf_db" rule: read_whole.cases) auto
qed

lemma shelf_distinct: "distinct (map rm_id (db_rooms shelf_db))"
  by (simp add: shelf_db_def house_room_def shelf_room_def)

lemma shelf_loads: "\<exists>rd. load_reader shelf_reader shelf_db = Inr rd"
  using shelf_read by (auto simp: read_room_def split: if_splits)

lemma read_within_budget_witness:
  "\<exists>(rd :: room_reader) res db'. read_room id (\<lambda>_. []) shelf_reader 6 5 [] shelf_db = Inr (Answered res, db')
     \<and> read_cost res \<le> po_tokens (load_policy (re_workspace rd) shelf_db) \<and> length (rr_messages res) \<le> 5"
proof -
  obtain rd res db' where r: "load_reader shelf_reader shelf_db = Inr rd"
    "read_room id (\<lambda>_. []) shelf_reader 6 5 [] shelf_db = Inr (Answered res, db')"
    using shelf_loads shelf_read by blast
  from read_within_budget [OF r] have "read_cost res \<le> po_tokens (load_policy (re_workspace rd) shelf_db) \<and> length (rr_messages res) \<le> 5"
    by simp
  with r(2) show ?thesis by (intro exI [of _ rd] exI [of _ res] exI [of _ db']) simp
qed

lemma untruncated_read_is_whole_witness:
  "\<exists>(rd :: room_reader) res db'. read_room id (\<lambda>_. []) shelf_reader 6 5 [] shelf_db = Inr (Answered res, db')
     \<and> res = whole_reading id 5 [] (load_target rd 6 shelf_db) shelf_db"
proof -
  obtain rd res db' where r: "load_reader shelf_reader shelf_db = Inr rd"
    "read_room id (\<lambda>_. []) shelf_reader 6 5 [] shelf_db = Inr (Answered res, db')" "\<not> rr_truncated res"
    using shelf_loads shelf_read by blast
  from untruncated_read_is_whole [OF r] have "res = whole_reading id 5 [] (load_target rd 6 shelf_db) shelf_db" by simp
  with r(2) show ?thesis by (intro exI [of _ rd] exI [of _ res] exI [of _ db']) simp
qed

lemma shelf_list: "\<exists>ts. readable_rooms id shelf_reader [] shelf_db = Inr ts"
  using shelf_loads by (auto simp: readable_rooms_def split: option.split)

lemma listed_iff_readable_witness:
  "\<exists>ts. readable_rooms id shelf_reader [] shelf_db = Inr ts \<and> 6 \<in> (\<lambda>(t, _). tg_id t) ` set ts"
proof -
  obtain ts where ts: "readable_rooms id shelf_reader [] shelf_db = Inr ts" using shelf_list by blast
  have "\<exists>res db'. read_room id (\<lambda>_. []) shelf_reader 6 5 [] shelf_db = Inr (Answered res, db')" using shelf_read by blast
  with listed_iff_readable [OF shelf_distinct ts] ts show ?thesis by blast
qed

fun refused_stranger :: "db_error + read_answer \<times> db \<Rightarrow> bool" where
  "refused_stranger (Inr (Refused d, _)) = (dn_reason d = ''originator_not_participant'')"
| "refused_stranger _ = False"

lemma refusal_tells_nothing_witness:
  "\<exists>d db1 db2. read_room id (\<lambda>_. []) shelf_stranger 2 5 [] shelf_db = Inr (Refused d, db1)
     \<and> read_room id (\<lambda>_. []) shelf_stranger 99 5 [] shelf_db = Inr (Refused d, db2)
     \<and> (\<forall>room. read_entries room db1 = read_entries room db2)"
proof -
  have "refused_stranger (read_room id (\<lambda>_. []) shelf_stranger 2 5 [] shelf_db)" by code_simp
  then obtain d db1 where r: "read_room id (\<lambda>_. []) shelf_stranger 2 5 [] shelf_db = Inr (Refused d, db1)"
    "dn_reason d = ''originator_not_participant''"
    by (cases "read_room id (\<lambda>_. []) shelf_stranger 2 5 [] shelf_db" rule: refused_stranger.cases) auto
  have "find_room 99 shelf_db = None" "(99::uuid) \<noteq> rc_room shelf_stranger"
    by (simp_all add: find_room_def tbl_get_def shelf_db_def house_room_def shelf_room_def shelf_stranger_def)
  from refusal_tells_nothing [OF r this] r(1) show ?thesis by blast
qed

lemma read_leaves_trace_witness:
  "\<exists>res db'. read_room id (\<lambda>_. []) shelf_reader 6 5 [] shelf_db = Inr (Answered res, db')
     \<and> list_ex (\<lambda>e. en_dir e = ''in'' \<and> en_task e = 7) (read_entries 6 db')"
proof -
  obtain res db' where r: "read_room id (\<lambda>_. []) shelf_reader 6 5 [] shelf_db = Inr (Answered res, db')" "\<not> rr_truncated res"
    using shelf_read by blast
  obtain rd where rd: "load_reader shelf_reader shelf_db = Inr rd" using shelf_loads by blast
  have "\<not> rr_capped res" using read_leaves_trace [OF r(1) rd] r(2) by (auto split: if_splits)
  then have "list_ex (\<lambda>e. en_id e = db_next shelf_db \<and> en_dir e = ''in'' \<and> en_task e = rc_task shelf_reader) (read_entries 6 db')"
    using read_leaves_trace [OF r(1) rd] by simp
  then have "list_ex (\<lambda>e. en_dir e = ''in'' \<and> en_task e = 7) (read_entries 6 db')"
    by (auto simp: list_ex_iff shelf_reader_def)
  with r(1) show ?thesis by blast
qed

lemma shelf_turn: "turn_ok shelf_reader shelf_db"
  by (auto simp: turn_ok_def turn_rooms_def shelf_db_def house_db_def empty_db_def map_filter_def split: sum.split)

lemma turn_reads_bounded_witness:
  "turn_ok shelf_reader (fold (\<lambda>q. in_tx (serve_read id (\<lambda>_. []) shelf_reader q))
     [(shelf_reader, 6, 5, []), (shelf_stranger, 2, 5, []), (shelf_reader, 6, 1, [])] shelf_db)"
  by (rule turn_reads_bounded [OF shelf_turn])

end
