(* ===== verification/Budget_Stop.thy ===== *)
theory Budget_Stop
  imports Room_Seats Card_Judgement
begin

text \<open>
  The budgets of a task, its mission and its room: \<open>server/internal/sessions/budget.go\<close> decides,
  \<open>httpapi/budget.go\<close> loads what it decides on and stops what crossed its ceiling, and
  \<open>httpapi/handlers_rooms_r1b1.go\<close> lifts the stops again, with the switch of a person. Amounts are exact;
  a missing budget is 0, as the code reads it. The numbers of banners, questions and notes are left out.
\<close>

section \<open>The plan\<close>

definition task_ceiling :: "rat \<Rightarrow> rat \<Rightarrow> rat" where
  "task_ceiling limit override = (if override > 0 then override else limit)"

definition effective_task_limit :: "rat \<Rightarrow> rat \<Rightarrow> rat \<Rightarrow> rat" where
  "effective_task_limit limit override remaining =
     (let ceiling = task_ceiling limit override
      in if remaining > 0 \<and> (ceiling \<le> 0 \<or> remaining < ceiling) then remaining else ceiling)"

datatype budget_scope = ScopeTask | ScopeSession

record budget_input =
  bi_scope :: budget_scope
  bi_task_limit :: rat
  bi_session_limit :: rat
  bi_spent :: rat
  bi_remaining :: rat
  bi_override :: rat
  bi_estimated :: bool
  bi_task :: uuid

record budget_outcome =
  bo_exceeded :: bool
  bo_scope :: budget_scope
  bo_task_status :: string
  bo_session_state :: string
  bo_cancel :: bool
  bo_drained :: bool
  bo_hitl :: bool
  bo_hitl_task :: "uuid option"
  bo_notified :: bool

definition no_budget_stop :: budget_outcome where
  "no_budget_stop = \<lparr>bo_exceeded = False, bo_scope = ScopeTask, bo_task_status = ''running'', bo_session_state = ''active'',
     bo_cancel = False, bo_drained = False, bo_hitl = False, bo_hitl_task = None, bo_notified = False\<rparr>"

text \<open>The limit that is compared and whose it is: the remainder of the session binds when it is the smaller one.\<close>

definition budget_limit :: "budget_input \<Rightarrow> budget_scope \<times> rat" where
  "budget_limit i =
     (case bi_scope i of
        ScopeSession \<Rightarrow> (ScopeSession, bi_session_limit i)
      | ScopeTask \<Rightarrow>
          (let ceiling = task_ceiling (bi_task_limit i) (bi_override i);
               limit = effective_task_limit (bi_task_limit i) (bi_override i) (bi_remaining i)
           in (if limit = bi_remaining i \<and> (ceiling \<le> 0 \<or> limit < ceiling) then ScopeSession else ScopeTask, limit)))"

definition plan_budget :: "budget_input \<Rightarrow> budget_outcome" where
  "plan_budget i =
     (case budget_limit i of (scope, limit) \<Rightarrow>
        if limit \<le> 0 \<or> bi_spent i < limit then no_budget_stop
        else if bi_estimated i
        then no_budget_stop\<lparr>bo_exceeded := True, bo_scope := scope, bo_session_state := ''paused'', bo_drained := True,
               bo_hitl := True, bo_notified := True\<rparr>
        else no_budget_stop\<lparr>bo_exceeded := True, bo_scope := scope, bo_task_status := ''paused'',
               bo_session_state := (if scope = ScopeTask then ''active'' else ''paused''), bo_cancel := True, bo_hitl := True,
               bo_hitl_task := (if scope = ScopeTask then Some (bi_task i) else None), bo_notified := True\<rparr>)"

definition check_budget_raise :: "rat \<Rightarrow> rat \<Rightarrow> bool" where
  "check_budget_raise new_limit spent \<longleftrightarrow> new_limit > spent"

section \<open>What is compared\<close>

definition spent_by :: "(task_row \<Rightarrow> bool) \<Rightarrow> db \<Rightarrow> rat" where
  "spent_by p db =
     sum_list (map us_cost (filter (\<lambda>u. case get_task (us_task u) db of None \<Rightarrow> False | Some t \<Rightarrow> p t) (db_usage db)))"

definition amount_of :: "rat option \<Rightarrow> rat" where
  "amount_of a = (case a of None \<Rightarrow> 0 | Some x \<Rightarrow> x)"

text \<open>A run outside any mission has the state and the Director's seat of no mission.\<close>

record budget_state =
  bs_task :: task_row
  bs_agent_limit :: rat
  bs_override :: rat
  bs_task_spent :: rat
  bs_estimated :: bool
  bs_room_limit :: rat
  bs_room_spent :: rat
  bs_room_blocked :: bool
  bs_work_limit :: rat
  bs_work_spent :: rat
  bs_work_status :: work_status

definition load_budget_state :: "uuid \<Rightarrow> db \<Rightarrow> budget_state option" where
  "load_budget_state i db =
     (case get_task i db of
        None \<Rightarrow> None
      | Some t \<Rightarrow>
          (case (get_room (tk_room t) db, tbl_get ag_id (db_agents db) (tk_agent t)) of
             (Some r, Some a) \<Rightarrow>
               (let w = (case tk_work t of None \<Rightarrow> None | Some k \<Rightarrow> get_work k db)
                in Some \<lparr>bs_task = t, bs_agent_limit = amount_of (ag_budget a),
                     bs_override = amount_of (case tk_budget_override t of None \<Rightarrow> lane_budget_override (tk_lane t) db | x \<Rightarrow> x),
                     bs_task_spent = spent_by (\<lambda>x. tk_id x = i) db,
                     bs_estimated = list_ex (\<lambda>u. us_task u = i \<and> us_estimated u) (db_usage db),
                     bs_room_limit = amount_of (rm_budget r), bs_room_spent = spent_by (\<lambda>x. tk_room x = tk_room t) db,
                     bs_room_blocked = (rm_blocked r \<noteq> None),
                     bs_work_limit = (case w of None \<Rightarrow> 0 | Some k \<Rightarrow> amount_of (wk_budget k)),
                     bs_work_spent = (if tk_work t = None then 0 else spent_by (\<lambda>x. tk_work x = tk_work t) db),
                     bs_work_status = (case w of None \<Rightarrow> WkActive | Some k \<Rightarrow> wk_status k)\<rparr>)
           | _ \<Rightarrow> None))"

definition remainder_of :: "budget_state \<Rightarrow> rat \<Rightarrow> rat \<Rightarrow> rat" where
  "remainder_of b limit spent =
     (if limit \<le> 0 then 0
      else let rem = limit - (spent - bs_task_spent b) in if rem < 0 then 0 else rem)"

definition room_remaining :: "budget_state \<Rightarrow> rat" where
  "room_remaining b = remainder_of b (bs_room_limit b) (bs_room_spent b)"

definition work_remaining :: "budget_state \<Rightarrow> rat" where
  "work_remaining b = (if tk_work (bs_task b) = None then 0 else remainder_of b (bs_work_limit b) (bs_work_spent b))"

datatype stop_scope = StopTask | StopWork | StopRoom

definition budget_remainder :: "budget_state \<Rightarrow> rat \<times> stop_scope option" where
  "budget_remainder b =
     (let w = work_remaining b; r = room_remaining b
      in if w > 0 \<and> (r \<le> 0 \<or> w \<le> r) then (w, Some StopWork) else if r > 0 then (r, Some StopRoom) else (0, None))"

section \<open>Stopping what crossed\<close>

text \<open>The task's own ceiling first, then the mission's, then the room's.\<close>

definition task_input :: "budget_state \<Rightarrow> rat \<Rightarrow> budget_input" where
  "task_input b rem = \<lparr>bi_scope = ScopeTask, bi_task_limit = bs_agent_limit b, bi_session_limit = 0, bi_spent = bs_task_spent b,
     bi_remaining = rem, bi_override = bs_override b, bi_estimated = bs_estimated b, bi_task = tk_id (bs_task b)\<rparr>"

definition session_input :: "budget_state \<Rightarrow> rat \<Rightarrow> rat \<Rightarrow> budget_input" where
  "session_input b limit spent = \<lparr>bi_scope = ScopeSession, bi_task_limit = 0, bi_session_limit = limit, bi_spent = spent,
     bi_remaining = 0, bi_override = 0, bi_estimated = bs_estimated b, bi_task = tk_id (bs_task b)\<rparr>"

definition budget_verdict :: "budget_state \<Rightarrow> (budget_outcome \<times> stop_scope) option" where
  "budget_verdict b =
     (case budget_remainder b of (rem, rem_scope) \<Rightarrow>
      let o1 = plan_budget (task_input b rem);
          o2 = (if bs_work_limit b > 0 then plan_budget (session_input b (bs_work_limit b) (bs_work_spent b)) else no_budget_stop);
          o3 = plan_budget (session_input b (bs_room_limit b) (bs_room_spent b))
      in if bo_exceeded o1
         then Some (o1, if bo_scope o1 = ScopeTask then StopTask else case rem_scope of None \<Rightarrow> StopTask | Some s \<Rightarrow> s)
         else if bo_exceeded o2 then Some (o2, StopWork)
         else if bo_exceeded o3 then Some (o3, StopRoom) else None)"

text \<open>Which unit stops when the plan pauses the session.\<close>

definition stop_unit :: "budget_state \<Rightarrow> budget_outcome \<Rightarrow> stop_scope \<Rightarrow> stop_scope option" where
  "stop_unit b out scope =
     (if bo_session_state out \<noteq> ''paused'' then None
      else if scope = StopWork \<and> tk_work (bs_task b) \<noteq> None then Some StopWork else Some StopRoom)"

definition pause_work_for_budget :: "uuid \<Rightarrow> time \<Rightarrow> db \<Rightarrow> db" where
  "pause_work_for_budget w now db =
     db\<lparr>db_works := tbl_upd (\<lambda>x. wk_id x = w \<and> wk_status x = WkActive)
          (\<lambda>x. x\<lparr>wk_status := WkPaused, wk_paused_reason := Some ''budget'', wk_paused_detail := Some False, wk_updated_at := now\<rparr>)
          (db_works db)\<rparr>"

definition mission_paused_card :: "uuid \<Rightarrow> time \<Rightarrow> db \<Rightarrow> db" where
  "mission_paused_card w now db =
     (if list_ex (\<lambda>x. wk_id x = w \<and> wk_status x = WkActive) (db_works db) then insert_inbox w ''work_paused'' now db else db)"

definition raise_gate :: "budget_state \<Rightarrow> stop_scope option \<Rightarrow> time \<Rightarrow> db \<Rightarrow> db_error + db" where
  "raise_gate b unit now db =
     (case unit of
        Some StopWork \<Rightarrow>
          (case tk_work (bs_task b) of None \<Rightarrow> Inr db | Some w \<Rightarrow> Inr (pause_work_for_budget w now (mission_paused_card w now db)))
      | Some StopRoom \<Rightarrow> bindE (block (tk_room (bs_task b)) reason_budget now db) (\<lambda>(_, db). Inr db)
      | _ \<Rightarrow> Inr db)"

text \<open>An estimate only writes a note: the turn in flight runs on.\<close>

definition stop_turns :: "budget_state \<Rightarrow> budget_outcome \<Rightarrow> stop_scope option \<Rightarrow> time \<Rightarrow> db \<Rightarrow> db_error + db" where
  "stop_turns b out unit now db =
     (let t = bs_task b
      in if bo_drained out then Inr (insert_server_event (tk_id t) (tk_attempt t) ''runtime'' ''report'' ''budget'' ''info'' now db)
         else if \<not> bo_cancel out then Inr db
         else case unit of
                Some StopRoom \<Rightarrow> pause_tasks (\<lambda>x. tk_room x = tk_room t) ''budget'' ''budget'' [] now db
              | Some StopWork \<Rightarrow> pause_tasks (\<lambda>x. tk_work x = tk_work t) ''budget'' ''budget'' [] now db
              | _ \<Rightarrow> if terminal (tk_status t) then Inr (pause_lane_for_budget (tk_lane t) now db)
                     else pause_task_for_budget (tk_id t) ''budget'' now db)"

definition budget_asked :: "uuid \<Rightarrow> uuid option \<Rightarrow> uuid option \<Rightarrow> db \<Rightarrow> bool" where
  "budget_asked room task work db \<longleftrightarrow>
     list_ex (\<lambda>h. hi_room h = room \<and> hi_status h = ''open'' \<and> hi_source h = ''system'' \<and> hi_purpose h = ''budget''
       \<and> hi_task h = task \<and> hi_work h = work) (db_hitls db)
   \<or> task \<noteq> None \<and> list_ex (\<lambda>h. hi_task h = task \<and> hi_status h = ''open'') (db_hitls db)"

definition ask_budget :: "budget_state \<Rightarrow> budget_outcome \<Rightarrow> stop_scope option \<Rightarrow> time \<Rightarrow> db \<Rightarrow> db" where
  "ask_budget b out unit now db =
     (let t = bs_task b; task = bo_hitl_task out; work = (if unit = Some StopRoom then None else tk_work t);
          spec = (if unit = Some StopRoom \<or> tk_work t = None then ''room_owner'' else ''director'')
      in if \<not> bo_hitl out \<or> budget_asked (tk_room t) task work db then db
         else let h = db_next db;
                  db = db\<lparr>db_hitls := db_hitls db @ [\<lparr>hi_id = h, hi_task = task, hi_purpose = ''budget'', hi_status = ''open'',
                         hi_approved = None, hi_source = ''system'', hi_room = tk_room t, hi_work = work, hi_answered_at = None,
                         hi_message = None, hi_spec = spec\<rparr>], db_next := db_next db + 1\<rparr>;
                  db = attach_hitl_card (tk_room t) work h now db
              in if unit = Some StopRoom then file_room_card h ''room_paused'' now db else insert_inbox h ''hitl_request'' now db)"

definition apply_budget_pause :: "budget_state \<Rightarrow> budget_outcome \<Rightarrow> stop_scope \<Rightarrow> time \<Rightarrow> db \<Rightarrow> db_error + db" where
  "apply_budget_pause b out scope now db =
     (let unit = stop_unit b out scope
      in bindE (raise_gate b unit now db) (\<lambda>db. bindE (stop_turns b out unit now db) (\<lambda>db. Inr (ask_budget b out unit now db))))"

definition enforce_budget :: "uuid \<Rightarrow> db \<Rightarrow> db_error + bool \<times> db" where
  "enforce_budget i db =
     (case load_budget_state i db of
        None \<Rightarrow> Inr (False, db)
      | Some b \<Rightarrow>
          if bs_room_blocked b \<or> bs_work_status b \<noteq> WkActive then Inr (False, db)
          else (case budget_verdict b of
                  None \<Rightarrow> Inr (False, db)
                | Some (out, scope) \<Rightarrow> bindE (apply_budget_pause b out scope (db_clock db) db) (\<lambda>db. Inr (True, db))))"

text \<open>
  \<open>finishAndEnforce\<close>: the check after the end of an attempt runs when the report is committed; one that fails
  leaves a note.
\<close>

definition finish_and_enforce :: "uuid \<Rightarrow> int \<Rightarrow> finish_report \<Rightarrow> db \<Rightarrow> db_error + string \<times> lane_end list \<times> db" where
  "finish_and_enforce i attempt f db =
     bindE (finish i attempt f db) (\<lambda>(final, ends, db).
     case enforce_budget i db of
       Inr (_, db) \<Rightarrow> Inr (final, ends, db)
     | Inl _ \<Rightarrow> Inr (final, ends,
         insert_server_event_once i attempt ''runtime'' ''error'' ''budget.enforce_failed'' ''failed'' (db_clock db) db))"

section \<open>Lifting a stop\<close>

text \<open>A lane that is left paused is never handed out; one without queued work stays as it is.\<close>

definition requeue_paused_lanes :: "(lane_row \<Rightarrow> bool) \<Rightarrow> time \<Rightarrow> db \<Rightarrow> db" where
  "requeue_paused_lanes mine now db =
     db\<lparr>db_lanes := tbl_upd
          (\<lambda>l. mine l \<and> ln_status l = LanePaused \<and> list_ex (\<lambda>t. tk_lane t = ln_id l \<and> tk_status t = Queued) (db_tasks db))
          (\<lambda>l. l\<lparr>ln_status := LaneQueued, ln_finished_at := None, ln_updated_at := now\<rparr>) (db_lanes db)\<rparr>"

definition resume_room_for_budget :: "uuid \<Rightarrow> rat \<Rightarrow> time \<Rightarrow> db \<Rightarrow> db_error + db" where
  "resume_room_for_budget room amount now db =
     (case get_room room db of
        None \<Rightarrow> Inl ErrNotFound
      | Some r \<Rightarrow>
          if rm_blocked r \<noteq> Some reason_budget then Inr db
          else
            let db = snd (update_room room (\<lambda>_. True) (\<lambda>r. r\<lparr>rm_budget := Some amount, rm_updated_at := now\<rparr>) db)
            in bindE (unblock room reason_budget now db) (\<lambda>(_, db).
               bindE (resume_stalled_cards room reason_budget now db) (\<lambda>(_, db).
               bindE (resume_tasks (\<lambda>t. tk_room t = room) ''budget'' CauseBudgetApproved now db) (\<lambda>(_, db).
               Inr (requeue_paused_lanes (\<lambda>l. ln_room l = room) now db)))))"

definition own_budget_pause :: "work_row \<Rightarrow> bool" where
  "own_budget_pause w \<longleftrightarrow> wk_status w = WkPaused \<and> wk_paused_reason w = Some ''budget'' \<and> wk_paused_detail w \<noteq> Some True"

definition resume_work_for_budget :: "uuid \<Rightarrow> uuid \<Rightarrow> rat \<Rightarrow> time \<Rightarrow> db \<Rightarrow> db_error + db" where
  "resume_work_for_budget room w amount now db =
     (case (get_room room db, get_work w db) of
        (None, _) \<Rightarrow> Inl ErrNotFound
      | (_, None) \<Rightarrow> Inl DbMissingRow
      | (Some _, Some k) \<Rightarrow>
          if \<not> own_budget_pause k then Inr db
          else
            let db = db\<lparr>db_works := tbl_modify wk_id w (\<lambda>x. x\<lparr>wk_budget := Some amount, wk_status := WkActive,
                       wk_paused_reason := None, wk_paused_detail := None, wk_updated_at := now\<rparr>) (db_works db)\<rparr>
            in bindE (resume_tasks (\<lambda>t. tk_work t = Some w) ''budget'' CauseBudgetApproved now db) (\<lambda>(_, db).
               Inr (requeue_paused_lanes (\<lambda>l. ln_work l = Some w) now db)))"

text \<open>
  The loop gate: the counters restart below a person. \<open>agents\<close> are the agents of the loop that the gate's
  banner names; without them an assignee of the room stands in, the old session's first.
\<close>

definition loop_reset_agent :: "uuid \<Rightarrow> uuid list \<Rightarrow> db \<Rightarrow> uuid option" where
  "loop_reset_agent room agents db =
     (case agents of
        a # _ \<Rightarrow> Some a
      | [] \<Rightarrow>
          (let legacy = (case get_room room db of None \<Rightarrow> None | Some r \<Rightarrow> rm_legacy_work r);
               ws = filter (\<lambda>w. wk_room w = room \<and> wk_assignee w \<noteq> None) (db_works db)
           in case filter (\<lambda>w. Some (wk_id w) = legacy) ws @ ws of [] \<Rightarrow> None | w # _ \<Rightarrow> wk_assignee w))"

definition unblock_room_for_loop :: "uuid \<Rightarrow> uuid list \<Rightarrow> time \<Rightarrow> db \<Rightarrow> db_error + db" where
  "unblock_room_for_loop room agents now db =
     (case get_room room db of
        None \<Rightarrow> Inl ErrNotFound
      | Some r \<Rightarrow>
          if rm_blocked r \<noteq> Some reason_loop then Inr db
          else bindE (unblock room reason_loop now db) (\<lambda>(_, db).
               let db = (case loop_reset_agent room agents db of
                           None \<Rightarrow> db
                         | Some a \<Rightarrow> db\<lparr>db_hops := record_human_hop room a uuid_nil now (db_hops db)\<rparr>)
               in bindE (resume_stalled_cards room reason_loop now db) (\<lambda>(_, db). Inr db)))"

section \<open>The switch of a person\<close>

definition block_room :: "uuid \<Rightarrow> uuid \<Rightarrow> db \<Rightarrow> db_error + db" where
  "block_room user room db =
     bindE (require room user ActBlock db) (\<lambda>a.
     let now = db_clock db in
     case get_room room db of
       None \<Rightarrow> Inl ErrNotFound
     | Some r \<Rightarrow>
         if rm_blocked r \<noteq> None then Inl (ErrConflict ''already_blocked'')
         else bindE (block room reason_manual now db) (\<lambda>(_, db).
              bindE (cancel_in_flight_in_room room now db) (\<lambda>db.
              Inr (log_activity (ax_workspace a) (Some room) (Some user) ''room.blocked'' (Some room) now (announce room now db)))))"

definition unblock_room :: "uuid \<Rightarrow> uuid \<Rightarrow> db \<Rightarrow> db_error + db" where
  "unblock_room user room db =
     bindE (require room user ActBlock db) (\<lambda>a.
     let now = db_clock db in
     case get_room room db of
       None \<Rightarrow> Inl ErrNotFound
     | Some r \<Rightarrow>
         (case rm_blocked r of
            None \<Rightarrow> Inl (ErrConflict ''not_blocked'')
          | Some why \<Rightarrow>
              if why \<noteq> reason_manual then Inl (ErrConflict ''not_manual'')
              else bindE (unblock room reason_manual now db) (\<lambda>(_, db).
                   bindE (resume_stalled_cards room reason_manual now db) (\<lambda>(_, db).
                   Inr (log_activity (ax_workspace a) (Some room) (Some user) ''room.unblocked'' (Some room) now (announce room now db))))))"

section \<open>The answer to a budget request\<close>

text \<open>
  What a room has spent: the live sum or the roll-ups its missions store, whichever is more; the
  roll-ups are the parameter \<open>stored\<close>.
\<close>

definition room_spent :: "rat \<Rightarrow> uuid \<Rightarrow> db \<Rightarrow> rat" where
  "room_spent stored room db = max stored (spent_by (\<lambda>t. tk_room t = room) db)"

definition work_spent :: "uuid \<Rightarrow> db \<Rightarrow> rat" where
  "work_spent w db = spent_by (\<lambda>t. tk_work t = Some w) db"

definition room_scoped :: "hitl_row \<Rightarrow> bool" where
  "room_scoped h \<longleftrightarrow> hi_spec h = ''room_owner'' \<or> hi_work h = None"

definition budget_stop_of :: "rat \<Rightarrow> hitl_row \<Rightarrow> db \<Rightarrow> db_error + bool \<times> rat" where
  "budget_stop_of stored h db =
     (if room_scoped h
      then (case get_room (hi_room h) db of
              None \<Rightarrow> Inl ErrNotFound
            | Some r \<Rightarrow> Inr (rm_blocked r = Some reason_budget, room_spent stored (hi_room h) db))
      else (case get_work (the (hi_work h)) db of
              None \<Rightarrow> Inl DbMissingRow
            | Some w \<Rightarrow> Inr (own_budget_pause w, work_spent (wk_id w) db)))"

text \<open>An approval that resumes must carry a limit above what is spent, while the stop it lifts is still up.\<close>

definition check_budget_answer :: "rat \<Rightarrow> hitl_row \<Rightarrow> bool \<Rightarrow> rat option \<Rightarrow> db \<Rightarrow> db_error + unit" where
  "check_budget_answer stored h approved amount db =
     (if \<not> approved \<or> hi_task h \<noteq> None then Inr ()
      else bindE (budget_stop_of stored h db) (\<lambda>(stopped, spent).
        if \<not> stopped then Inr ()
        else case amount of
               None \<Rightarrow> Inl (ErrValidation ''required'')
             | Some x \<Rightarrow> if check_budget_raise x spent then Inr () else Inl (ErrValidation ''too_low'')))"

definition human_hop_of :: "hitl_row \<Rightarrow> time \<Rightarrow> db \<Rightarrow> db" where
  "human_hop_of h now db =
     (case hi_task h of
        None \<Rightarrow> db
      | Some i \<Rightarrow>
          (case get_task i db of
             None \<Rightarrow> db
           | Some t \<Rightarrow>
               (case tk_trigger t of
                  None \<Rightarrow> db
                | Some m \<Rightarrow> db\<lparr>db_hops := record_human_hop (hi_room h) (tk_agent t) m now (db_hops db)\<rparr>)))"

definition decide_budget :: "hitl_row \<Rightarrow> time \<Rightarrow> db \<Rightarrow> db" where
  "decide_budget h now db =
     db\<lparr>db_decisions := db_decisions db @ [\<lparr>de_id = db_next db, de_room = hi_room h, de_work = hi_work h, de_summary = [],
          de_rationale = [], de_source = ''hitl'', de_ref = Some (hi_id h), de_created_at = now\<rparr>],
        db_next := db_next db + 1\<rparr>"

text \<open>The record of the answer, in one transaction.\<close>

definition record_budget_answer :: "hitl_row \<Rightarrow> bool \<Rightarrow> rat option \<Rightarrow> time \<Rightarrow> db \<Rightarrow> db_error + db" where
  "record_budget_answer h approved amount now db =
     (let db = decide_budget h now (human_hop_of h now (answer_request (hi_id h) approved now db))
      in case (hi_task h, if approved then amount else None) of
           (Some i, Some x) \<Rightarrow> update_task i (\<lambda>t. t\<lparr>tk_budget_override := Some x, tk_updated_at := now\<rparr>) db
         | _ \<Rightarrow> Inr db)"

text \<open>What the approval lifts; \<open>again\<close>: the plan of the answer queues the task again.\<close>

definition lift_budget_stop :: "hitl_row \<Rightarrow> bool \<Rightarrow> bool \<Rightarrow> rat option \<Rightarrow> time \<Rightarrow> db \<Rightarrow> db_error + db" where
  "lift_budget_stop h approved again amount now db =
     (case hi_task h of
        Some i \<Rightarrow>
          if \<not> approved \<or> \<not> again then Inr db
          else bindE (resume_from_human i CauseBudgetApproved db) (\<lambda>(t, db).
               Inr (if terminal (tk_status t) then resume_lane_for_budget (tk_lane t) now db else db))
      | None \<Rightarrow>
          (case (approved, amount) of
             (True, Some x) \<Rightarrow>
               if room_scoped h then resume_room_for_budget (hi_room h) x now db
               else resume_work_for_budget (hi_room h) (the (hi_work h)) x now db
           | _ \<Rightarrow> Inr db))"

definition answer_budget :: "rat \<Rightarrow> uuid \<Rightarrow> bool \<Rightarrow> bool \<Rightarrow> rat option \<Rightarrow> db \<Rightarrow> (db_error + bool) \<times> db" where
  "answer_budget stored i approved again amount db =
     (let now = db_clock db in
      case tbl_get hi_id (db_hitls db) i of
        None \<Rightarrow> (Inl ErrNotFound, db)
      | Some h \<Rightarrow>
          (case check_budget_answer stored h approved amount db of
             Inl e \<Rightarrow> (Inl e, db)
           | Inr _ \<Rightarrow>
               if hi_status h \<noteq> ''open'' then (Inr False, db)
               else (case record_budget_answer h approved amount now db of
                       Inl e \<Rightarrow> (Inl e, db)
                     | Inr db1 \<Rightarrow>
                         (case lift_budget_stop h approved again amount now db1 of
                            Inl e \<Rightarrow> (Inl e, db1)
                          | Inr db2 \<Rightarrow> (Inr True, db2)))))"

end
