(* ===== verification/Budget_Facts.thy ===== *)
theory Budget_Facts
  imports Budget_Stop Loop_Stop
begin

text \<open>
  What the budgets promise: a ceiling that was crossed stops something and asks somebody, an estimate never
  touches a turn in flight. Two cases where the budgets do not hold:
  the raise that answers an estimated overrun of a task, and the check of an attempt that is tried again.
\<close>

section \<open>The plan\<close>

lemma effective_limit_cases:
  "effective_task_limit l v r =
     (let c = task_ceiling l v in if r > 0 \<and> c > 0 then min r c else if r > 0 then r else c)"
  by (auto simp: effective_task_limit_def Let_def min_def)

lemma plan_exceeded: "bo_exceeded (plan_budget i) \<longleftrightarrow> snd (budget_limit i) > 0 \<and> bi_spent i \<ge> snd (budget_limit i)"
  by (auto simp: plan_budget_def no_budget_stop_def split: prod.split)

lemma plan_scope: "bo_exceeded (plan_budget i) \<Longrightarrow> bo_scope (plan_budget i) = fst (budget_limit i)"
  by (auto simp: plan_budget_def no_budget_stop_def split: prod.splits if_splits)

lemma plan_stops:
  assumes "bo_exceeded (plan_budget i)"
  shows "bo_hitl (plan_budget i)" and "bo_drained (plan_budget i) = bi_estimated i" and "bo_cancel (plan_budget i) = (\<not> bi_estimated i)"
    and "bo_session_state (plan_budget i) = (if bi_estimated i \<or> fst (budget_limit i) = ScopeSession then ''paused'' else ''active'')"
    and "bo_hitl_task (plan_budget i) = (if bi_estimated i \<or> fst (budget_limit i) = ScopeSession then None else Some (bi_task i))"
  using assms by (cases "budget_limit i"; cases "fst (budget_limit i)"; auto simp: plan_budget_def no_budget_stop_def split: if_splits)+

text \<open>The three ceilings, each over what is spent below it.\<close>

definition own_reached :: "budget_state \<Rightarrow> bool" where
  "own_reached b \<longleftrightarrow>
     (let c = task_ceiling (bs_agent_limit b) (bs_override b) in c > 0 \<and> bs_task_spent b \<ge> c)"

definition mission_reached :: "budget_state \<Rightarrow> bool" where
  "mission_reached b \<longleftrightarrow> bs_work_limit b > 0 \<and> bs_work_spent b \<ge> bs_work_limit b"

definition room_reached :: "budget_state \<Rightarrow> bool" where
  "room_reached b \<longleftrightarrow> bs_room_limit b > 0 \<and> bs_room_spent b \<ge> bs_room_limit b"

definition over_budget :: "budget_state \<Rightarrow> bool" where
  "over_budget b \<longleftrightarrow> own_reached b \<or> mission_reached b \<or> room_reached b"

lemmas reached_defs = own_reached_def mission_reached_def room_reached_def

lemma task_limit: "budget_limit (task_input b rem) =
    (let c = task_ceiling (bs_agent_limit b) (bs_override b)
     in if rem > 0 \<and> (c \<le> 0 \<or> rem < c) then (ScopeSession, rem) else (ScopeTask, c)) \<or>
    rem \<le> 0"
  by (auto simp: budget_limit_def task_input_def effective_task_limit_def Let_def)

lemma task_limit_value: "snd (budget_limit (task_input b rem)) = effective_task_limit (bs_agent_limit b) (bs_override b) rem"
  by (simp add: budget_limit_def task_input_def Let_def)

lemma session_limit: "budget_limit (session_input b l s) = (ScopeSession, l)"
  by (simp add: budget_limit_def session_input_def)

lemma remainder_cases:
  "budget_remainder b = (0, None)
   \<or> budget_remainder b = (work_remaining b, Some StopWork) \<and> work_remaining b > 0
   \<or> budget_remainder b = (room_remaining b, Some StopRoom) \<and> room_remaining b > 0"
  by (simp add: budget_remainder_def Let_def)

lemma remaining_reached:
  "remainder_of b l s > 0 \<Longrightarrow> bs_task_spent b \<ge> remainder_of b l s \<Longrightarrow> l > 0 \<and> s \<ge> l"
  by (auto simp: remainder_of_def Let_def split: if_splits)

lemma reached_or_over:
  assumes "bo_exceeded (plan_budget (task_input b (fst (budget_remainder b))))"
  shows "over_budget b"
proof -
  let ?rem = "fst (budget_remainder b)" and ?c = "task_ceiling (bs_agent_limit b) (bs_override b)"
  have e: "effective_task_limit (bs_agent_limit b) (bs_override b) ?rem > 0"
    "bs_task_spent b \<ge> effective_task_limit (bs_agent_limit b) (bs_override b) ?rem"
    using assms by (simp_all add: plan_exceeded task_limit_value, simp add: task_input_def)
  show ?thesis
  proof (cases "effective_task_limit (bs_agent_limit b) (bs_override b) ?rem = ?c")
    case True
    with e show ?thesis by (simp add: over_budget_def reached_defs)
  next
    case False
    then have r: "effective_task_limit (bs_agent_limit b) (bs_override b) ?rem = ?rem" "?rem > 0"
      by (auto simp: effective_task_limit_def Let_def split: if_splits)
    from remainder_cases [of b] show ?thesis
    proof (elim disjE conjE)
      assume "budget_remainder b = (0, None)"
      with r show ?thesis by simp
    next
      assume w: "budget_remainder b = (work_remaining b, Some StopWork)" "work_remaining b > 0"
      then have "bs_task_spent b \<ge> work_remaining b" using e(2) r(1) by simp
      with w(2) have "bs_work_limit b > 0 \<and> bs_work_spent b \<ge> bs_work_limit b"
        by (intro remaining_reached) (auto simp: work_remaining_def split: if_splits)
      then show ?thesis by (simp add: over_budget_def reached_defs)
    next
      assume w: "budget_remainder b = (room_remaining b, Some StopRoom)" "room_remaining b > 0"
      then have "bs_task_spent b \<ge> room_remaining b" using e(2) r(1) by simp
      with w(2) have "bs_room_limit b > 0 \<and> bs_room_spent b \<ge> bs_room_limit b"
        by (intro remaining_reached) (auto simp: room_remaining_def)
      then show ?thesis by (simp add: over_budget_def reached_defs)
    qed
  qed
qed

lemma ceiling_reached:
  "(let c = task_ceiling (bs_agent_limit b) (bs_override b) in c > 0 \<and> bs_task_spent b \<ge> c) \<Longrightarrow>
     bo_exceeded (plan_budget (task_input b rem))"
  by (auto simp: plan_exceeded task_limit_value effective_limit_cases Let_def min_def) (simp_all add: task_input_def)

lemma verdict_None:
  "budget_verdict b = None \<longleftrightarrow> \<not> bo_exceeded (plan_budget (task_input b (fst (budget_remainder b))))
    \<and> \<not> (bs_work_limit b > 0 \<and> bo_exceeded (plan_budget (session_input b (bs_work_limit b) (bs_work_spent b))))
    \<and> \<not> bo_exceeded (plan_budget (session_input b (bs_room_limit b) (bs_room_spent b)))"
  by (simp add: budget_verdict_def Let_def split_beta) (simp add: no_budget_stop_def)

lemma session_exceeded: "bo_exceeded (plan_budget (session_input b l s)) \<longleftrightarrow> l > 0 \<and> s \<ge> l"
  by (simp add: plan_exceeded session_limit) (simp add: session_input_def)

text \<open>Something is planned exactly when one of the three ceilings is reached.\<close>

lemma verdict_iff: "budget_verdict b \<noteq> None \<longleftrightarrow> over_budget b"
  unfolding verdict_None session_exceeded using reached_or_over [of b] ceiling_reached [of b "fst (budget_remainder b)"]
  by (auto simp: over_budget_def reached_defs)

text \<open>
  The unit that stops is one whose own ceiling is reached: the task alone, its mission, or the room; on
  estimates the room also stands in for a task.
\<close>

lemma task_plan_reached:
  assumes "bo_exceeded (plan_budget (task_input b rem))"
  shows "fst (budget_limit (task_input b rem)) = ScopeTask \<Longrightarrow> own_reached b"
    and "fst (budget_limit (task_input b rem)) = ScopeSession \<Longrightarrow> rem > 0 \<and> bs_task_spent b \<ge> rem"
proof -
  let ?c = "task_ceiling (bs_agent_limit b) (bs_override b)" and ?e = "effective_task_limit (bs_agent_limit b) (bs_override b) rem"
  have e: "?e > 0" "bs_task_spent b \<ge> ?e"
    using assms by (simp_all add: plan_exceeded task_limit_value, simp add: task_input_def)
  have f: "fst (budget_limit (task_input b rem)) = (if ?e = rem \<and> (?c \<le> 0 \<or> ?e < ?c) then ScopeSession else ScopeTask)"
    by (simp add: budget_limit_def task_input_def Let_def)
  show "own_reached b" if "fst (budget_limit (task_input b rem)) = ScopeTask"
    using that e unfolding f by (auto simp: own_reached_def effective_task_limit_def Let_def split: if_splits)
  show "rem > 0 \<and> bs_task_spent b \<ge> rem" if "fst (budget_limit (task_input b rem)) = ScopeSession"
    using that e unfolding f by (simp split: if_splits)
qed

lemma remainder_reached:
  assumes "fst (budget_remainder b) > 0" and "bs_task_spent b \<ge> fst (budget_remainder b)"
  shows "snd (budget_remainder b) = Some StopWork \<and> mission_reached b \<or> snd (budget_remainder b) = Some StopRoom \<and> room_reached b"
  using remainder_cases [of b]
proof (elim disjE conjE)
  assume w: "budget_remainder b = (work_remaining b, Some StopWork)" "work_remaining b > 0"
  then have "bs_work_limit b > 0 \<and> bs_work_spent b \<ge> bs_work_limit b"
    using assms(2) by (intro remaining_reached) (auto simp: work_remaining_def split: if_splits)
  with w show ?thesis by (simp add: mission_reached_def)
next
  assume w: "budget_remainder b = (room_remaining b, Some StopRoom)" "room_remaining b > 0"
  then have "bs_room_limit b > 0 \<and> bs_room_spent b \<ge> bs_room_limit b"
    using assms(2) by (intro remaining_reached) (auto simp: room_remaining_def)
  with w show ?thesis by (simp add: room_reached_def)
qed (use assms(1) in simp)

lemma verdict_reached:
  assumes "budget_verdict b = Some (out, scope)" and "bs_work_limit b > 0 \<Longrightarrow> tk_work (bs_task b) \<noteq> None"
  shows "stop_unit b out scope = None \<and> \<not> bs_estimated b \<and> own_reached b
    \<or> stop_unit b out scope = Some StopWork \<and> mission_reached b
    \<or> stop_unit b out scope = Some StopRoom \<and> (room_reached b \<or> bs_estimated b \<and> own_reached b)"
proof -
  let ?rem = "fst (budget_remainder b)"
  let ?i1 = "task_input b ?rem" and ?i2 = "session_input b (bs_work_limit b) (bs_work_spent b)"
    and ?i3 = "session_input b (bs_room_limit b) (bs_room_spent b)"
  have est: "bi_estimated ?i1 = bs_estimated b" by (simp add: task_input_def)
  have work: "mission_reached b \<Longrightarrow> bo_session_state o' = ''paused'' \<Longrightarrow> stop_unit b o' StopWork = Some StopWork" for o'
    using assms(2) by (auto simp: stop_unit_def mission_reached_def)
  have room: "bo_session_state o' = ''paused'' \<Longrightarrow> stop_unit b o' StopRoom = Some StopRoom"
    "bo_session_state o' = ''paused'' \<Longrightarrow> stop_unit b o' StopTask = Some StopRoom" for o' by (simp_all add: stop_unit_def)
  show ?thesis
  proof (cases "bo_exceeded (plan_budget ?i1)")
    case True
    then have out: "out = plan_budget ?i1"
      and sc: "scope = (if bo_scope out = ScopeTask then StopTask else case snd (budget_remainder b) of None \<Rightarrow> StopTask | Some s \<Rightarrow> s)"
      using assms(1) True by (auto simp: budget_verdict_def Let_def split_beta)
    note st = plan_stops(4) [OF True] plan_scope [OF True] est
    show ?thesis
    proof (cases "fst (budget_limit ?i1)")
      case ScopeTask
      then have "own_reached b" "scope = StopTask" using task_plan_reached(1) [OF True] st sc out by simp_all
      then show ?thesis using ScopeTask st out room by (simp add: stop_unit_def)
    next
      case ScopeSession
      then have "?rem > 0" "bs_task_spent b \<ge> ?rem" using task_plan_reached(2) [OF True] by simp_all
      from remainder_reached [OF this] show ?thesis using ScopeSession st out sc work room by auto
    qed
  next
    case False
    note n = this
    show ?thesis
    proof (cases "bs_work_limit b > 0 \<and> bo_exceeded (plan_budget ?i2)")
      case True
      then have "out = plan_budget ?i2" "scope = StopWork"
        using assms(1) n by (simp_all add: budget_verdict_def Let_def split_beta)
      moreover have "mission_reached b" using True by (simp add: session_exceeded mission_reached_def)
      ultimately show ?thesis using True plan_stops(4) [of ?i2] work by (simp add: session_limit)
    next
      case False
      then have "out = plan_budget ?i3" "scope = StopRoom" "bo_exceeded (plan_budget ?i3)"
        using assms(1) n by (auto simp: budget_verdict_def Let_def split_beta no_budget_stop_def split: if_splits)
      then show ?thesis using plan_stops(4) [of ?i3] room by (simp add: session_limit session_exceeded room_reached_def)
    qed
  qed
qed

section \<open>Pausing turns\<close>

definition pausing :: "time \<Rightarrow> task_row \<Rightarrow> task_row" where
  "pausing now t = t\<lparr>tk_status := Paused, tk_paused_reason := Some ''budget'', tk_paused_detail := Some ''budget'', tk_updated_at := now\<rparr>"

text \<open>A pause writes tasks, lanes and commands only.\<close>

definition turn_frame :: "db \<Rightarrow> db \<Rightarrow> bool" where
  "turn_frame db db' \<longleftrightarrow> db_rooms db' = db_rooms db \<and> db_works db' = db_works db \<and> db_hitls db' = db_hitls db"

lemma turn_frame_trans: "turn_frame a b \<Longrightarrow> turn_frame b c \<Longrightarrow> turn_frame a c"
  by (simp add: turn_frame_def)

lemma pause_one:
  assumes "get_task i db = Some t" and "in_flight (tk_status t)" and "task_check t"
  obtains db' where "bindE (lock_task i db) (\<lambda>t. bindE (pause_locked t ''budget'' ''budget'' Paused now db) (\<lambda>(_, db). Inr db)) = Inr db'"
    and "db_tasks db' = tbl_modify tk_id i (pausing now) (db_tasks db)" and "turn_frame db db'"
proof -
  have id: "tk_id t = i" using assms(1) unfolding get_task_def by (rule tbl_get_Some_key)
  have tr: "transition (tk_status t) Paused = Inr Paused" using assms(2) by (auto simp: transition_def in_flight_def)
  have c: "task_check (pausing now t)" using assms(2,3) by (auto simp: task_check_def pausing_def in_flight_def)
  have p: "pausing now = (\<lambda>r. r\<lparr>tk_status := Paused, tk_paused_reason := Some ''budget'', tk_paused_detail := Some ''budget'', tk_updated_at := now\<rparr>)"
    by (simp add: fun_eq_iff pausing_def)
  have u: "update_task i (pausing now) db = Inr (db\<lparr>db_tasks := tbl_modify tk_id i (pausing now) (db_tasks db)\<rparr>)"
    using assms(1) c by (simp add: update_task_def)
  let ?db2 = "update_lane (tk_lane t) (\<lambda>_. True) (\<lambda>l. l\<lparr>ln_status := LanePaused, ln_updated_at := now\<rparr>)
    (db\<lparr>db_tasks := tbl_modify tk_id i (pausing now) (db_tasks db)\<rparr>)"
  let ?db3 = "case tk_runtime t of None \<Rightarrow> ?db2
    | Some rt \<Rightarrow> if cancel_requested (tk_id t) (tk_attempt t) ?db2 then ?db2 else queue_command rt (cancel_command_for t ''budget'') ?db2"
  have e: "bindE (lock_task i db) (\<lambda>t. bindE (pause_locked t ''budget'' ''budget'' Paused now db) (\<lambda>(_, db). Inr db)) = Inr ?db3"
    by (simp add: lock_task_def assms(1) pause_locked_def tr pause_cast_def pause_reasons_def id p [symmetric] u Let_def)
  have "db_tasks ?db3 = tbl_modify tk_id i (pausing now) (db_tasks db)" and "turn_frame db ?db3"
    by (simp_all add: update_lane_def queue_command_def turn_frame_def split: option.split)
  with e show ?thesis by (rule that)
qed

lemma pause_each:
  assumes "distinct ids" and "\<forall>i \<in> set ids. \<exists>t. get_task i db = Some t \<and> in_flight (tk_status t) \<and> task_check t"
  shows "\<exists>db'. foldE (\<lambda>i db. bindE (lock_task i db) (\<lambda>t. bindE (pause_locked t ''budget'' ''budget'' Paused now db) (\<lambda>(_, db). Inr db))) ids db = Inr db'
    \<and> db_tasks db' = map (\<lambda>t. if tk_id t \<in> set ids then pausing now t else t) (db_tasks db) \<and> turn_frame db db'"
  using assms
proof (induction ids arbitrary: db)
  case Nil
  show ?case by (simp add: turn_frame_def)
next
  case (Cons i js)
  obtain t where t: "get_task i db = Some t" "in_flight (tk_status t)" "task_check t" using Cons.prems(2) by auto
  obtain db1 where s: "bindE (lock_task i db) (\<lambda>t. bindE (pause_locked t ''budget'' ''budget'' Paused now db) (\<lambda>(_, db). Inr db)) = Inr db1"
    and d: "db_tasks db1 = tbl_modify tk_id i (pausing now) (db_tasks db)" and f: "turn_frame db db1"
    by (rule pause_one [OF t])
  have keep: "tk_id (pausing now r) = tk_id r" for r by (simp add: pausing_def)
  have "get_task j db1 = get_task j db" if "j \<noteq> i" for j
    using that by (simp add: get_task_def d tbl_get_modify [of tk_id "pausing now", OF keep])
  moreover have "j \<noteq> i" if "j \<in> set js" for j using that Cons.prems(1) by auto
  ultimately have "\<forall>j \<in> set js. \<exists>t. get_task j db1 = Some t \<and> in_flight (tk_status t) \<and> task_check t"
    using Cons.prems(2) by simp
  moreover have "distinct js" using Cons.prems(1) by simp
  ultimately obtain db' where r: "foldE (\<lambda>i db. bindE (lock_task i db) (\<lambda>t. bindE (pause_locked t ''budget'' ''budget'' Paused now db) (\<lambda>(_, db). Inr db))) js db1 = Inr db'"
    "db_tasks db' = map (\<lambda>t. if tk_id t \<in> set js then pausing now t else t) (db_tasks db1)" "turn_frame db1 db'"
    using Cons.IH by blast
  have "db_tasks db' = map (\<lambda>t. if tk_id t \<in> set (i # js) then pausing now t else t) (db_tasks db)"
    using Cons.prems(1) by (auto simp: r(2) d tbl_modify_def tbl_upd_def keep)
  with r(1,3) s turn_frame_trans [OF f r(3)] show ?case by simp
qed

definition drained :: "(task_row \<Rightarrow> bool) \<Rightarrow> db \<Rightarrow> bool" where
  "drained mine db \<longleftrightarrow> list_all (\<lambda>t. \<not> (mine t \<and> in_flight (tk_status t))) (db_tasks db)"

lemma pause_tasks_drains:
  assumes "distinct (map tk_id (db_tasks db))" and "list_all task_check (db_tasks db)"
    and "\<And>t. mine (pausing now t) = mine t"
  shows "\<exists>db'. pause_tasks mine ''budget'' ''budget'' [] now db = Inr db' \<and> drained mine db' \<and> turn_frame db db'"
proof -
  let ?p = "\<lambda>t. mine t \<and> in_flight (tk_status t)"
  let ?ids = "by_creation ?p db"
  have ids: "set ?ids = tk_id ` {t \<in> set (db_tasks db). ?p t}" by (auto simp: by_creation_def)
  show ?thesis
  proof (cases "?ids = []")
    case True
    then have "drained mine db" using ids by (auto simp: drained_def list_all_iff)
    then show ?thesis using True by (simp add: pause_tasks_def Let_def plan_dispatch_def turn_frame_def)
  next
    case False
    have get: "get_task (tk_id t) db = Some t" if "t \<in> set (db_tasks db)" for t
      unfolding get_task_def using assms(1) that by (rule tbl_get_in)
    have "distinct ?ids"
    proof -
      have "distinct (map tk_id (filter ?p (db_tasks db)))" using assms(1) by (rule distinct_map_filter)
      then show ?thesis by (simp add: by_creation_def distinct_map)
    qed
    moreover have "\<forall>i \<in> set ?ids. \<exists>t. get_task i db = Some t \<and> in_flight (tk_status t) \<and> task_check t"
      using get assms(2) by (force simp: ids list_all_iff)
    ultimately obtain db' where d: "foldE (\<lambda>i db. bindE (lock_task i db) (\<lambda>t. bindE (pause_locked t ''budget'' ''budget'' Paused now db) (\<lambda>(_, db). Inr db))) ?ids db = Inr db'"
      "db_tasks db' = map (\<lambda>t. if tk_id t \<in> set ?ids then pausing now t else t) (db_tasks db)" "turn_frame db db'"
      using pause_each by blast
    have "drained mine db'" using ids assms(3)
      by (auto simp: drained_def list_all_iff d(2) pausing_def in_flight_def)
    with d False show ?thesis by (simp add: pause_tasks_def Let_def plan_dispatch_def)
  qed
qed

section \<open>A ceiling that was crossed\<close>

text \<open>The gate of the unit that stops: the room is blocked, or the mission paused.\<close>

definition gate_shut :: "budget_state \<Rightarrow> stop_scope option \<Rightarrow> db \<Rightarrow> bool" where
  "gate_shut b u db =
     (case u of
        Some StopRoom \<Rightarrow> (case get_room (tk_room (bs_task b)) db of None \<Rightarrow> False | Some r \<Rightarrow> rm_blocked r = Some reason_budget)
      | Some StopWork \<Rightarrow>
          (case tk_work (bs_task b) of None \<Rightarrow> False
           | Some w \<Rightarrow> (case get_work w db of None \<Rightarrow> False | Some k \<Rightarrow> wk_status k = WkPaused))
      | _ \<Rightarrow> True)"

text \<open>Nothing of the unit is in flight; a task on its own is paused, and one that has ended leaves its lane paused.\<close>

definition turns_held :: "budget_state \<Rightarrow> stop_scope option \<Rightarrow> db \<Rightarrow> bool" where
  "turns_held b u db =
     (let t = bs_task b
      in case u of
           Some StopRoom \<Rightarrow> drained (\<lambda>x. tk_room x = tk_room t) db
         | Some StopWork \<Rightarrow> drained (\<lambda>x. tk_work x = tk_work t) db
         | _ \<Rightarrow> if terminal (tk_status t) then list_all (\<lambda>l. ln_id l = tk_lane t \<longrightarrow> ln_status l = LanePaused) (db_lanes db)
                else (case get_task (tk_id t) db of None \<Rightarrow> False | Some x \<Rightarrow> tk_status x = Paused))"

definition somebody_asked :: "budget_state \<Rightarrow> db \<Rightarrow> bool" where
  "somebody_asked b db \<longleftrightarrow>
     list_ex (\<lambda>h. hi_status h = ''open''
       \<and> (hi_room h = tk_room (bs_task b) \<and> hi_purpose h = ''budget'' \<or> hi_task h = Some (tk_id (bs_task b)))) (db_hitls db)"

text \<open>What a crossed ceiling has to lead to, told without the plan: each stop belongs to a ceiling that is reached.\<close>

definition room_closed :: "budget_state \<Rightarrow> db \<Rightarrow> bool" where
  "room_closed b db =
     (case get_room (tk_room (bs_task b)) db of None \<Rightarrow> False | Some r \<Rightarrow> rm_blocked r = Some reason_budget)"

definition mission_stopped :: "budget_state \<Rightarrow> db \<Rightarrow> bool" where
  "mission_stopped b db =
     (case tk_work (bs_task b) of None \<Rightarrow> False
      | Some w \<Rightarrow> (case get_work w db of None \<Rightarrow> False | Some k \<Rightarrow> wk_status k = WkPaused))"

text \<open>The task is paused; one that has ended leaves its lane paused.\<close>

definition task_held_back :: "budget_state \<Rightarrow> db \<Rightarrow> bool" where
  "task_held_back b db =
     (if terminal (tk_status (bs_task b)) then list_all (\<lambda>l. ln_id l = tk_lane (bs_task b) \<longrightarrow> ln_status l = LanePaused) (db_lanes db)
      else (case get_task (tk_id (bs_task b)) db of None \<Rightarrow> False | Some x \<Rightarrow> tk_status x = Paused))"

definition stopped_for_budget :: "budget_state \<Rightarrow> db \<Rightarrow> bool" where
  "stopped_for_budget b db \<longleftrightarrow> somebody_asked b db
     \<and> (if bs_estimated b
        then mission_reached b \<and> mission_stopped b db \<or> (own_reached b \<or> room_reached b) \<and> room_closed b db
        else own_reached b \<and> task_held_back b db
           \<or> mission_reached b \<and> mission_stopped b db \<and> drained (\<lambda>x. tk_work x = tk_work (bs_task b)) db
           \<or> room_reached b \<and> room_closed b db \<and> drained (\<lambda>x. tk_room x = tk_room (bs_task b)) db)"

lemma gate_and_turns:
  "gate_shut b (Some StopRoom) db = room_closed b db" "gate_shut b (Some StopWork) db = mission_stopped b db"
  "turns_held b (Some StopRoom) db = drained (\<lambda>x. tk_room x = tk_room (bs_task b)) db"
  "turns_held b (Some StopWork) db = drained (\<lambda>x. tk_work x = tk_work (bs_task b)) db"
  "turns_held b None db = task_held_back b db"
  by (simp_all add: gate_shut_def room_closed_def mission_stopped_def turns_held_def task_held_back_def Let_def)

lemma gate_shut_cong:
  assumes "db_rooms db' = db_rooms db" and "db_works db' = db_works db"
  shows "gate_shut b u db' = gate_shut b u db"
proof -
  have r: "get_room i db' = get_room i db" and w: "get_work i db' = get_work i db" for i
    using assms by (simp_all add: get_room_def get_work_def)
  show ?thesis unfolding gate_shut_def r w by (rule refl)
qed

lemma turns_held_cong:
  assumes "db_tasks db' = db_tasks db" and "db_lanes db' = db_lanes db"
  shows "turns_held b u db' = turns_held b u db"
proof -
  have t: "get_task i db' = get_task i db" for i using assms by (simp add: get_task_def)
  show ?thesis unfolding turns_held_def drained_def t assms by (rule refl)
qed

lemma verdict_plan:
  assumes "budget_verdict b = Some (out, scope)"
  obtains inp where "out = plan_budget inp" and "bo_exceeded out" and "bi_estimated inp = bs_estimated b"
    and "bi_task inp = tk_id (bs_task b)"
  using assms
  by (auto simp: budget_verdict_def Let_def task_input_def session_input_def no_budget_stop_def split: prod.splits if_splits)

lemma verdict_work: "budget_verdict b = Some (out, StopWork) \<Longrightarrow> bs_work_limit b > 0"
  by (auto simp: budget_verdict_def budget_remainder_def work_remaining_def remainder_of_def Let_def no_budget_stop_def
      split: if_splits)

lemma load_facts:
  assumes "load_budget_state i db = Some b"
  shows "get_task i db = Some (bs_task b)" and "tk_id (bs_task b) = i"
    and "\<exists>r. get_room (tk_room (bs_task b)) db = Some r \<and> bs_room_blocked b = (rm_blocked r \<noteq> None)"
    and "bs_work_limit b > 0 \<Longrightarrow> \<exists>w k. tk_work (bs_task b) = Some w \<and> get_work w db = Some k \<and> wk_status k = bs_work_status b"
proof -
  show t: "get_task i db = Some (bs_task b)" using assms
    by (auto simp: load_budget_state_def Let_def split: option.splits)
  then show "tk_id (bs_task b) = i" unfolding get_task_def by (rule tbl_get_Some_key)
  show "\<exists>r. get_room (tk_room (bs_task b)) db = Some r \<and> bs_room_blocked b = (rm_blocked r \<noteq> None)" using assms
    by (auto simp: load_budget_state_def Let_def split: option.splits)
  show "\<exists>w k. tk_work (bs_task b) = Some w \<and> get_work w db = Some k \<and> wk_status k = bs_work_status b" if "bs_work_limit b > 0"
    using assms that by (auto simp: load_budget_state_def Let_def split: option.splits)
qed

lemma stop_unit_cases:
  "stop_unit b out scope = None \<or> stop_unit b out scope = Some StopRoom
   \<or> stop_unit b out scope = Some StopWork \<and> scope = StopWork \<and> tk_work (bs_task b) \<noteq> None"
  by (simp add: stop_unit_def)

lemma raise_gate_shuts:
  assumes "load_budget_state i db = Some b" and "\<not> bs_room_blocked b" and "bs_work_status b = WkActive"
    and "budget_verdict b = Some (out, scope)"
  obtains db' where "raise_gate b (stop_unit b out scope) now db = Inr db'" and "gate_shut b (stop_unit b out scope) db'"
    and "db_tasks db' = db_tasks db" and "db_lanes db' = db_lanes db" and "db_hitls db' = db_hitls db"
proof -
  let ?u = "stop_unit b out scope" and ?room = "tk_room (bs_task b)"
  consider "?u = None" | "?u = Some StopRoom" | "?u = Some StopWork" "scope = StopWork"
    by (metis stop_unit_cases)
  then show ?thesis
  proof cases
    case 1
    then show ?thesis by (intro that [of db]) (simp_all add: raise_gate_def gate_shut_def)
  next
    case 2
    obtain r where r: "get_room ?room db = Some r" "rm_blocked r = None" using load_facts(3) [OF assms(1)] assms(2) by auto
    let ?f = "\<lambda>r. r\<lparr>rm_blocked := Some reason_budget, rm_updated_at := now\<rparr>"
    let ?db = "db\<lparr>db_works := tbl_upd (active_in ?room) (park reason_budget now) (db_works db),
      db_rooms := tbl_modify rm_id ?room ?f (db_rooms db)\<rparr>"
    have g: "get_room ?room ?db = Some (?f r)" using r(1) by (simp add: get_room_def tbl_get_modify)
    have "raise_gate b ?u now db = Inr ?db"
      using r by (simp add: 2 raise_gate_def block_def mirrors_def update_room_def get_room_def Let_def)
    then show ?thesis by (rule that) (use 2 g in \<open>simp_all add: gate_shut_def\<close>)
  next
    case 3
    obtain w k where w: "tk_work (bs_task b) = Some w" "get_work w db = Some k" "wk_status k = WkActive"
      using load_facts(4) [OF assms(1)] verdict_work assms(3,4) 3(2) by auto
    have id: "wk_id k = w" using w(2) unfolding get_work_def by (rule tbl_get_Some_key)
    let ?db = "pause_work_for_budget w now (mission_paused_card w now db)"
    have kept: "db_works (mission_paused_card w now db) = db_works db" "db_tasks (mission_paused_card w now db) = db_tasks db"
      "db_lanes (mission_paused_card w now db) = db_lanes db" "db_hitls (mission_paused_card w now db) = db_hitls db"
      by (simp_all add: mission_paused_card_def insert_inbox_def)
    have "\<exists>k'. get_work w ?db = Some k' \<and> wk_status k' = WkPaused"
      using w(2,3) id by (simp add: get_work_def pause_work_for_budget_def kept tbl_get_upd)
    then have "gate_shut b ?u ?db" using 3 w(1) by (auto simp: gate_shut_def)
    moreover have "raise_gate b ?u now db = Inr ?db" using 3 w(1) by (simp add: raise_gate_def)
    ultimately show ?thesis by (intro that [of ?db]) (simp_all add: pause_work_for_budget_def kept)
  qed
qed

lemma stop_turns_holds:
  assumes "budget_verdict b = Some (out, scope)" and "get_task (tk_id (bs_task b)) db = Some (bs_task b)"
    and "distinct (map tk_id (db_tasks db))" and "list_all task_check (db_tasks db)"
    and "in_flight (tk_status (bs_task b)) \<or> terminal (tk_status (bs_task b))"
  obtains db' where "stop_turns b out (stop_unit b out scope) now db = Inr db'" and "turn_frame db db'"
    and "bs_estimated b \<or> turns_held b (stop_unit b out scope) db'"
proof -
  let ?u = "stop_unit b out scope" and ?t = "bs_task b"
  obtain inp where o: "out = plan_budget inp" "bo_exceeded out" "bi_estimated inp = bs_estimated b" by (rule verdict_plan [OF assms(1)])
  have d: "bo_drained out = bs_estimated b" and c: "bo_cancel out = (\<not> bs_estimated b)" using plan_stops(2,3) [of inp] o by auto
  show ?thesis
  proof (cases "bs_estimated b")
    case True
    then have "stop_turns b out ?u now db = Inr (insert_server_event (tk_id ?t) (tk_attempt ?t) ''runtime'' ''report'' ''budget'' ''info'' now db)"
      by (simp add: stop_turns_def d Let_def)
    then show ?thesis by (rule that) (use True in \<open>simp_all add: turn_frame_def insert_server_event_def\<close>)
  next
    case live: False
    consider "?u = None" | "?u = Some StopRoom" | "?u = Some StopWork" by (metis stop_unit_cases)
    then show ?thesis
    proof cases
      case 1
      show ?thesis
      proof (cases "terminal (tk_status ?t)")
        case True
        have "turns_held b ?u (pause_lane_for_budget (tk_lane ?t) now db)" using True 1
          by (auto simp: turns_held_def Let_def pause_lane_for_budget_def update_lane_def tbl_upd_def list_all_iff)
        then show ?thesis using True 1 live
          by (intro that) (simp_all add: stop_turns_def d c Let_def pause_lane_for_budget_def update_lane_def turn_frame_def)
      next
        case False
        then have f: "in_flight (tk_status ?t)" using assms(5) by simp
        have k: "task_check ?t" using assms(2,4) by (auto simp: get_task_def list_all_iff dest: tbl_get_Some_in)
        obtain db' where p: "bindE (lock_task (tk_id ?t) db) (\<lambda>t. bindE (pause_locked t ''budget'' ''budget'' Paused now db) (\<lambda>(_, db). Inr db)) = Inr db'"
          "db_tasks db' = tbl_modify tk_id (tk_id ?t) (pausing now) (db_tasks db)" "turn_frame db db'"
          by (rule pause_one [OF assms(2) f k])
        have "get_task (tk_id ?t) db' = Some (pausing now ?t)" using assms(2)
          by (simp add: get_task_def p(2) tbl_get_modify [of tk_id "pausing now"] pausing_def)
        then have "turns_held b ?u db'" using 1 False by (simp add: turns_held_def Let_def pausing_def)
        moreover have "stop_turns b out ?u now db = Inr db'"
          using p(1) 1 live False f assms(2) by (auto simp: stop_turns_def d c Let_def pause_task_for_budget_def lock_task_def in_flight_def)
        ultimately show ?thesis using p(3) that by blast
      qed
    next
      case 2
      obtain db' where "pause_tasks (\<lambda>x. tk_room x = tk_room ?t) ''budget'' ''budget'' [] now db = Inr db'"
        "drained (\<lambda>x. tk_room x = tk_room ?t) db'" "turn_frame db db'"
        using pause_tasks_drains [OF assms(3,4), of "\<lambda>x. tk_room x = tk_room ?t" now] by (auto simp: pausing_def)
      with 2 live show ?thesis by (intro that [of db']) (simp_all add: stop_turns_def d c Let_def turns_held_def)
    next
      case 3
      obtain db' where "pause_tasks (\<lambda>x. tk_work x = tk_work ?t) ''budget'' ''budget'' [] now db = Inr db'"
        "drained (\<lambda>x. tk_work x = tk_work ?t) db'" "turn_frame db db'"
        using pause_tasks_drains [OF assms(3,4), of "\<lambda>x. tk_work x = tk_work ?t" now] by (auto simp: pausing_def)
      with 3 live show ?thesis by (intro that [of db']) (simp_all add: stop_turns_def d c Let_def turns_held_def)
    qed
  qed
qed

lemma ask_budget_asks:
  assumes "budget_verdict b = Some (out, scope)"
  shows "somebody_asked b (ask_budget b out u now db) \<and> db_tasks (ask_budget b out u now db) = db_tasks db
    \<and> db_lanes (ask_budget b out u now db) = db_lanes db \<and> db_rooms (ask_budget b out u now db) = db_rooms db
    \<and> db_works (ask_budget b out u now db) = db_works db"
proof -
  obtain inp where o: "out = plan_budget inp" "bo_exceeded out" "bi_task inp = tk_id (bs_task b)" by (rule verdict_plan [OF assms])
  have h: "bo_hitl out" and t: "bo_hitl_task out = None \<or> bo_hitl_task out = Some (tk_id (bs_task b))"
    using plan_stops(1,5) [of inp] o by auto
  show ?thesis
  proof (cases "budget_asked (tk_room (bs_task b)) (bo_hitl_task out) (if u = Some StopRoom then None else tk_work (bs_task b)) db")
    case True
    then have "somebody_asked b db" using t unfolding somebody_asked_def budget_asked_def by (auto simp: list_ex_iff)
    then show ?thesis using True by (simp add: ask_budget_def Let_def)
  next
    case False
    then show ?thesis using h
      by (simp add: ask_budget_def Let_def attach_hitl_card_def insert_message_def file_room_card_def insert_inbox_def
          somebody_asked_def tbl_modify_def tbl_upd_def list_ex_iff split_beta)
  qed
qed

text \<open>
  C17 A usage report on a task in flight or ended that finds a ceiling crossed, while the room is not blocked
  and the mission active, stops a unit whose own ceiling is reached and asks somebody. With measured costs
  one of these holds: the task's ceiling is reached and the task is paused (one that has ended leaves its
  lane paused); the mission's is reached, the mission is paused and none of its turns is in flight; the
  room's is reached, the room is blocked and none of its turns is in flight. With estimated costs the
  mission is paused for its own ceiling, or the room is blocked for its own or for the task's, and the turns
  run on. In every case a request about it is open.
\<close>

theorem crossed_ceiling_stops:
  assumes "load_budget_state i db = Some b" and "over_budget b" and "\<not> bs_room_blocked b" and "bs_work_status b = WkActive"
    and "distinct (map tk_id (db_tasks db))" and "list_all task_check (db_tasks db)"
    and "in_flight (tk_status (bs_task b)) \<or> terminal (tk_status (bs_task b))"
  shows "case enforce_budget i db of Inr (crossed, db') \<Rightarrow> crossed \<and> stopped_for_budget b db' | Inl _ \<Rightarrow> False"
proof -
  obtain out scope where v: "budget_verdict b = Some (out, scope)" using verdict_iff [of b] assms(2) by auto
  let ?u = "stop_unit b out scope" and ?now = "db_clock db"
  note t = load_facts(1) [OF assms(1), unfolded load_facts(2) [OF assms(1), symmetric]]
  obtain db1 where g: "raise_gate b ?u ?now db = Inr db1" "gate_shut b ?u db1" "db_tasks db1 = db_tasks db"
    by (rule raise_gate_shuts [OF assms(1,3,4) v])
  have "get_task (tk_id (bs_task b)) db1 = Some (bs_task b)" "distinct (map tk_id (db_tasks db1))" "list_all task_check (db_tasks db1)"
    using t assms(5,6) g(3) by (simp_all add: get_task_def)
  then obtain db2 where s: "stop_turns b out ?u ?now db1 = Inr db2" "turn_frame db1 db2" "bs_estimated b \<or> turns_held b ?u db2"
    using stop_turns_holds [OF v _ _ _ assms(7)] by metis
  let ?db3 = "ask_budget b out ?u ?now db2"
  note a = ask_budget_asks [OF v, of ?u ?now db2]
  have "enforce_budget i db = Inr (True, ?db3)"
    by (simp add: enforce_budget_def assms(1,3,4) v apply_budget_pause_def Let_def g(1) s(1))
  moreover have "gate_shut b ?u ?db3" using g(2) s(2) a gate_shut_cong [of ?db3 db1 b ?u] by (simp add: turn_frame_def)
  moreover have "bs_estimated b \<or> turns_held b ?u ?db3" using s(3) a turns_held_cong [of ?db3 db2 b ?u] by simp
  moreover have "\<exists>w. tk_work (bs_task b) = Some w" if "bs_work_limit b > 0" using load_facts(4) [OF assms(1) that] by blast
  then have "bs_work_limit b > 0 \<Longrightarrow> tk_work (bs_task b) \<noteq> None" by auto
  note reached = verdict_reached [OF v this]
  ultimately show ?thesis
    using reached a unfolding stopped_for_budget_def by (auto simp: gate_and_turns)
qed

text \<open>
  C26 A check on estimated costs never touches a turn in flight: whatever it stops, every task row stays as it
  is and no command goes to a computer.
\<close>

theorem estimate_never_cuts:
  assumes "load_budget_state i db = Some b" and "bs_estimated b" and "enforce_budget i db = Inr (crossed, db')"
  shows "db_tasks db' = db_tasks db \<and> db_commands db' = db_commands db"
proof (cases "bs_room_blocked b \<or> bs_work_status b \<noteq> WkActive \<or> budget_verdict b = None")
  case True
  then have "db' = db" using assms(1,3) by (cases "budget_verdict b") (auto simp: enforce_budget_def split: if_splits)
  then show ?thesis by simp
next
  case False
  then obtain out scope where v: "budget_verdict b = Some (out, scope)" by auto
  obtain inp where "out = plan_budget inp" "bo_exceeded out" "bi_estimated inp = bs_estimated b" by (rule verdict_plan [OF v])
  then have d: "bo_drained out" using plan_stops(2) [of inp] assms(2) by simp
  let ?u = "stop_unit b out scope" and ?now = "db_clock db"
  obtain db1 db2 where g: "raise_gate b ?u ?now db = Inr db1" and s: "stop_turns b out ?u ?now db1 = Inr db2"
    and e: "db' = ask_budget b out ?u ?now db2"
    using False assms v by (auto simp: enforce_budget_def apply_budget_pause_def Let_def bindE_def split: sum.splits)
  have "db_tasks db1 = db_tasks db \<and> db_commands db1 = db_commands db" using g
    by (auto simp: raise_gate_def block_def update_room_def mission_paused_card_def insert_inbox_def pause_work_for_budget_def
        Let_def bindE_def split: option.splits stop_scope.splits if_splits sum.splits)
  moreover have "db_tasks db2 = db_tasks db1 \<and> db_commands db2 = db_commands db1" using s d
    by (auto simp: stop_turns_def Let_def insert_server_event_def)
  moreover have "db_tasks db' = db_tasks db2 \<and> db_commands db' = db_commands db2"
    by (simp add: e ask_budget_def Let_def attach_hitl_card_def insert_message_def file_room_card_def insert_inbox_def split_beta)
  ultimately show ?thesis by simp
qed

text \<open>A turn whose attempt cost 3; the next attempt of it runs in a room with a budget of 2.\<close>

definition bill :: usage_row where
  "bill = \<lparr>us_task = 1, us_attempt = 1, us_input = 0, us_output = 0, us_cache_read = 0, us_cost = 3, us_estimated = False, us_model = None, us_updated_at = 0\<rparr>"

definition spent_db :: db where
  "spent_db = post_db\<lparr>db_usage := [bill], db_rooms := [sample_room\<lparr>rm_budget := Some 2\<rparr>]\<rparr>"

definition spent_state :: budget_state where
  "spent_state = \<lparr>bs_task = sample_task\<lparr>tk_work := Some 20\<rparr>, bs_agent_limit = 0, bs_override = 0, bs_task_spent = 3,
     bs_estimated = False, bs_room_limit = 2, bs_room_spent = 3, bs_room_blocked = False, bs_work_limit = 0, bs_work_spent = 3,
     bs_work_status = WkActive\<rparr>"

lemma spent_loads: "load_budget_state 1 spent_db = Some spent_state"
  by code_simp

theorem crossed_ceiling_stops_witness:
  "case enforce_budget 1 spent_db of Inr (crossed, db') \<Rightarrow> crossed \<and> stopped_for_budget spent_state db' | Inl _ \<Rightarrow> False"
proof -
  have "over_budget spent_state" by (simp add: over_budget_def reached_defs spent_state_def)
  moreover have "distinct (map tk_id (db_tasks spent_db))" "list_all task_check (db_tasks spent_db)"
    by (simp_all add: spent_db_def post_db_def sample_task_def task_check_def)
  ultimately show ?thesis
    by (intro crossed_ceiling_stops [OF spent_loads]) (simp_all add: spent_state_def sample_task_def in_flight_def)
qed

text \<open>The same turn under an agent budget of 2, while its running attempt reports estimates only.\<close>

definition guess :: usage_row where
  "guess = bill\<lparr>us_attempt := 2, us_cost := 0, us_estimated := True\<rparr>"

definition guessed_db :: db where
  "guessed_db = post_db\<lparr>db_usage := [bill, guess], db_tasks := [sample_task\<lparr>tk_work := Some 20, tk_attempt := 2\<rparr>],
     db_agents := [\<lparr>ag_id = 6, ag_max_tasks = 2, ag_name = ''D'', ag_disabled = False, ag_budget = Some 2\<rparr>]\<rparr>"

definition guessed_state :: budget_state where
  "guessed_state = spent_state\<lparr>bs_task := sample_task\<lparr>tk_work := Some 20, tk_attempt := 2\<rparr>, bs_agent_limit := 2,
     bs_estimated := True, bs_room_limit := 0\<rparr>"

lemma guess_loads: "load_budget_state 1 guessed_db = Some guessed_state"
  by code_simp

lemma guess_stops:
  "case enforce_budget 1 guessed_db of Inl _ \<Rightarrow> False
   | Inr (crossed, db') \<Rightarrow> crossed \<and> map rm_blocked (db_rooms db') = [Some ''budget''] \<and> map hi_spec (db_hitls db') = [''room_owner'']"
  by code_simp

theorem estimate_never_cuts_witness:
  "case enforce_budget 1 guessed_db of Inl _ \<Rightarrow> False
   | Inr (_, db') \<Rightarrow> db_tasks db' = db_tasks guessed_db \<and> db_commands db' = db_commands guessed_db"
proof -
  obtain c db' where e: "enforce_budget 1 guessed_db = Inr (c, db')"
    using guess_stops by (cases "enforce_budget 1 guessed_db") auto
  have "bs_estimated guessed_state" by (simp add: guessed_state_def)
  from estimate_never_cuts [OF guess_loads this e] show ?thesis unfolding e by simp
qed

text \<open>
  The request about an estimated overrun of a task is the room's: approving it with a limit of 10 raises the
  budget of the room, the limit of the task stays, and the next check blocks the room again.
\<close>

definition guess_answered :: db where
  "guess_answered = (case enforce_budget 1 guessed_db of Inl _ \<Rightarrow> guessed_db
     | Inr (_, db') \<Rightarrow> (case db_hitls db' of [] \<Rightarrow> guessed_db | h # _ \<Rightarrow> snd (answer_budget 0 (hi_id h) True False (Some 10) db')))"

lemma raise_misses_task:
  "map rm_blocked (db_rooms guess_answered) = [None] \<and> map rm_budget (db_rooms guess_answered) = [Some 10]
   \<and> (case enforce_budget 1 guess_answered of Inl _ \<Rightarrow> False | Inr (crossed, db') \<Rightarrow> crossed \<and> map rm_blocked (db_rooms db') = [Some ''budget''])"
  by code_simp

text \<open>
  An attempt that fails and is tried again is back in the queue when the check runs, and a queued task cannot
  be paused: the ceiling is crossed, yet the next attempt waits to be handed out and nobody is asked.
\<close>

definition agent_limit_db :: db where
  "agent_limit_db = post_db\<lparr>db_agents := [\<lparr>ag_id = 6, ag_max_tasks = 2, ag_name = ''D'', ag_disabled = False, ag_budget = Some 2\<rparr>]\<rparr>"

definition costly_failure :: finish_report where
  "costly_failure = sample_report\<lparr>fr_outcome := ''failed'', fr_failure := Some FailNetwork,
     fr_usage := \<lparr>ur_input = 0, ur_output = 0, ur_cache_read = 0, ur_cost = 3, ur_estimated = False, ur_model = []\<rparr>\<rparr>"

lemma retry_escapes_budget:
  "case finish_and_enforce 1 1 costly_failure agent_limit_db of Inl _ \<Rightarrow> False
   | Inr (_, _, db') \<Rightarrow> map tk_status (db_tasks db') = [Queued] \<and> db_hitls db' = []
       \<and> list_ex (\<lambda>e. ev_object e = ''budget.enforce_failed'') (db_events db')
       \<and> (case load_budget_state 1 db' of None \<Rightarrow> False | Some b \<Rightarrow> over_budget b)"
  by code_simp

end
